(* ===== verification/Prelude.thy ===== *)
theory Prelude
  imports Main "HOL-Library.Char_ord" "HOL-Library.List_Lexorder"
begin

text \<open>
  Shared vocabulary of the development: the state-and-exception monad every handler of the
  program is written in, Hoare-style triples over it, list-backed database tables, and decimal
  numerals.  A Python coroutine that mutates some state and may raise is a function
  \<open>'s \<Rightarrow> ('e + 'a) \<times> 's\<close>: \<open>Inl e\<close> is the raised exception, and the state is what the code had
  reached when it raised (Python does not undo mutations on an exception; a rollback is an
  operation of its own, modelled in \<open>Unit_Of_Work\<close>).
\<close>

named_theorems monad_simps \<open>unfolding of the monad on a concrete state\<close>
named_theorems hoare_intros \<open>syntax-directed rules for triples\<close>

type_synonym ('s, 'e, 'a) computation = "'s \<Rightarrow> ('e + 'a) \<times> 's"

subsection \<open>The monad\<close>

definition ret :: "'a \<Rightarrow> ('s, 'e, 'a) computation" where
  "ret x s = (Inr x, s)"

definition raise :: "'e \<Rightarrow> ('s, 'e, 'a) computation" where
  "raise e s = (Inl e, s)"

definition bnd :: "('s, 'e, 'a) computation \<Rightarrow> ('a \<Rightarrow> ('s, 'e, 'b) computation) \<Rightarrow> ('s, 'e, 'b) computation" where
  "bnd m f s = (case m s of (Inl e, s') \<Rightarrow> (Inl e, s') | (Inr x, s') \<Rightarrow> f x s')"

definition try_except :: "('s, 'e, 'a) computation \<Rightarrow> ('e \<Rightarrow> ('s, 'e, 'a) computation) \<Rightarrow> ('s, 'e, 'a) computation" where
  "try_except m h s = (case m s of (Inl e, s') \<Rightarrow> h e s' | (Inr x, s') \<Rightarrow> (Inr x, s'))"

definition lift_result :: "'e + 'a \<Rightarrow> ('s, 'e, 'a) computation" where
  "lift_result r s = (r, s)"

definition gets :: "('s \<Rightarrow> 'a) \<Rightarrow> ('s, 'e, 'a) computation" where
  "gets f s = (Inr (f s), s)"

definition modify :: "('s \<Rightarrow> 's) \<Rightarrow> ('s, 'e, unit) computation" where
  "modify f s = (Inr (), f s)"

definition raise_if :: "bool \<Rightarrow> 'e \<Rightarrow> ('s, 'e, unit) computation" where
  "raise_if b e = (if b then raise e else ret ())"

definition from_some :: "'e \<Rightarrow> 'a option \<Rightarrow> ('s, 'e, 'a) computation" where
  "from_some e opt = (case opt of None \<Rightarrow> raise e | Some x \<Rightarrow> ret x)"

fun map_each :: "('a \<Rightarrow> ('s, 'e, 'b) computation) \<Rightarrow> 'a list \<Rightarrow> ('s, 'e, 'b list) computation" where
  "map_each f [] = ret []"
| "map_each f (x # xs) = bnd (f x) (\<lambda>y. bnd (map_each f xs) (\<lambda>ys. ret (y # ys)))"

definition bind_result :: "'e + 'a \<Rightarrow> ('a \<Rightarrow> 'e + 'b) \<Rightarrow> 'e + 'b" where
  "bind_result r f = (case r of Inl e \<Rightarrow> Inl e | Inr x \<Rightarrow> f x)"

lemma ret_run [simp, monad_simps]: "ret x s = (Inr x, s)"
  by (simp add: ret_def)

lemma raise_run [simp, monad_simps]: "raise e s = (Inl e, s)"
  by (simp add: raise_def)

lemma bnd_run [monad_simps]:
  "bnd m f s = (case m s of (Inl e, s') \<Rightarrow> (Inl e, s') | (Inr x, s') \<Rightarrow> f x s')"
  by (simp add: bnd_def)

lemma bnd_Inl [simp]: "m s = (Inl e, s') \<Longrightarrow> bnd m f s = (Inl e, s')"
  by (simp add: bnd_def)

lemma bnd_Inr [simp]: "m s = (Inr x, s') \<Longrightarrow> bnd m f s = f x s'"
  by (simp add: bnd_def)

lemma lift_result_run [simp, monad_simps]: "lift_result r s = (r, s)"
  by (simp add: lift_result_def)

lemma gets_run [simp, monad_simps]: "gets f s = (Inr (f s), s)"
  by (simp add: gets_def)

lemma modify_run [simp, monad_simps]: "modify f s = (Inr (), f s)"
  by (simp add: modify_def)

lemma raise_if_run [simp, monad_simps]: "raise_if b e s = (if b then Inl e else Inr (), s)"
  by (simp add: raise_if_def)

lemma from_some_run [simp, monad_simps]:
  "from_some e opt s = (case opt of None \<Rightarrow> Inl e | Some x \<Rightarrow> Inr x, s)"
  by (simp add: from_some_def split: option.split)

lemma bind_result_simps [simp]:
  "bind_result (Inl e) f = Inl e"
  "bind_result (Inr x) f = f x"
  by (simp_all add: bind_result_def)

lemma bind_result_Inr_iff:
  "bind_result r f = Inr y \<longleftrightarrow> (\<exists>x. r = Inr x \<and> f x = Inr y)"
  by (cases r) simp_all

lemma bnd_ret_left [simp]: "bnd (ret x) f = f x"
  by (simp add: fun_eq_iff bnd_def)

lemma bnd_InrE:
  assumes "bnd m f s = (Inr y, s')"
  obtains x t where "m s = (Inr x, t)" "f x t = (Inr y, s')"
  using assms by (auto simp: bnd_def split: prod.splits sum.splits)

lemma bnd_InlE:
  assumes "bnd m f s = (Inl e, s')"
  obtains "m s = (Inl e, s')" | x t where "m s = (Inr x, t)" "f x t = (Inl e, s')"
  using assms by (auto simp: bnd_def split: prod.splits sum.splits)

lemma bnd_assoc: "bnd (bnd m f) g = bnd m (\<lambda>x. bnd (f x) g)"
  by (auto simp: fun_eq_iff bnd_def split: prod.splits sum.splits)

subsection \<open>Triples\<close>

text \<open>
  \<open>hoare P m Q E\<close>: from a state satisfying \<open>P\<close>, a normal return satisfies \<open>Q\<close> of the value and
  the state, and a raise satisfies \<open>E\<close> of the exception and the state.
\<close>

definition hoare :: "('s \<Rightarrow> bool) \<Rightarrow> ('s, 'e, 'a) computation \<Rightarrow> ('a \<Rightarrow> 's \<Rightarrow> bool) \<Rightarrow> ('e \<Rightarrow> 's \<Rightarrow> bool) \<Rightarrow> bool" where
  "hoare P m Q E \<longleftrightarrow> (\<forall>s. P s \<longrightarrow> (case m s of (Inl e, s') \<Rightarrow> E e s' | (Inr x, s') \<Rightarrow> Q x s'))"

lemma hoareI: "(\<And>s. P s \<Longrightarrow> (case m s of (Inl e, s') \<Rightarrow> E e s' | (Inr x, s') \<Rightarrow> Q x s')) \<Longrightarrow> hoare P m Q E"
  by (simp add: hoare_def)

lemma hoareD_Inr: "hoare P m Q E \<Longrightarrow> P s \<Longrightarrow> m s = (Inr x, s') \<Longrightarrow> Q x s'"
  by (auto simp: hoare_def dest!: spec[of _ s])

lemma hoareD_Inl: "hoare P m Q E \<Longrightarrow> P s \<Longrightarrow> m s = (Inl e, s') \<Longrightarrow> E e s'"
  by (auto simp: hoare_def dest!: spec[of _ s])

lemma hoare_bnd [hoare_intros]:
  assumes "hoare P m R E" and "\<And>x. hoare (R x) (f x) Q E"
  shows "hoare P (bnd m f) Q E"
  using assms by (fastforce simp: hoare_def bnd_def split: prod.splits sum.splits)

lemma hoare_weaken:
  assumes "hoare P' m Q' E'" and "\<And>s. P s \<Longrightarrow> P' s"
    and "\<And>x s. Q' x s \<Longrightarrow> Q x s" and "\<And>e s. E' e s \<Longrightarrow> E e s"
  shows "hoare P m Q E"
  using assms by (fastforce simp: hoare_def split: prod.splits sum.splits)

lemma hoare_if [hoare_intros]:
  "(b \<Longrightarrow> hoare P m Q E) \<Longrightarrow> (\<not> b \<Longrightarrow> hoare P n Q E) \<Longrightarrow> hoare P (if b then m else n) Q E"
  by simp

subsection \<open>Steps that stay inside a frame\<close>

text \<open>
  \<open>stays R m\<close>: whatever \<open>m\<close> does, returning or raising, the states before and after are related
  by \<open>R\<close>.  For a reflexive and transitive \<open>R\<close> this is closed under the monad, which is how the
  frame lemmas of the handlers are proved: one line per primitive, none per handler.
\<close>

definition stays :: "('s \<Rightarrow> 's \<Rightarrow> bool) \<Rightarrow> ('s, 'e, 'a) computation \<Rightarrow> bool" where
  "stays R m \<longleftrightarrow> (\<forall>s. R s (snd (m s)))"

lemma staysD: "stays R m \<Longrightarrow> m s = (r, s') \<Longrightarrow> R s s'"
  by (metis stays_def snd_conv)

lemma stays_snd: "stays R m \<Longrightarrow> R s (snd (m s))"
  by (simp add: stays_def)

lemma stays_bnd:
  assumes "transp R" "stays R m" "\<And>x. stays R (f x)"
  shows "stays R (bnd m f)"
  unfolding stays_def
proof
  fix s
  obtain r s' where m: "m s = (r, s')" by fastforce
  have "R s s'" using assms(2) m by (rule staysD)
  then show "R s (snd (bnd m f s))"
    using assms(1,3) m by (cases r) (auto simp: bnd_def stays_def dest: transpD)
qed

lemma stays_try_except:
  assumes "transp R" "stays R m" "\<And>e. stays R (h e)"
  shows "stays R (try_except m h)"
  unfolding stays_def
proof
  fix s
  obtain r s' where m: "m s = (r, s')" by fastforce
  have "R s s'" using assms(2) m by (rule staysD)
  then show "R s (snd (try_except m h s))"
    using assms(1,3) m by (cases r) (auto simp: try_except_def stays_def dest: transpD)
qed

lemma stays_refl_steps:
  assumes "reflp R"
  shows "stays R (ret x)" "stays R (raise e)" "stays R (lift_result r)" "stays R (gets g)"
    "stays R (raise_if b e)" "stays R (from_some e opt)"
  using assms by (simp_all add: stays_def reflpD)

lemma stays_map_each:
  assumes "reflp R" "transp R" "\<And>x. stays R (f x)"
  shows "stays R (map_each f xs)"
proof (induction xs)
  case Nil
  show ?case unfolding map_each.simps by (rule stays_refl_steps(1) [OF assms(1)])
next
  case (Cons x xs)
  show ?case unfolding map_each.simps
    by (intro stays_bnd assms(2,3) Cons.IH stays_refl_steps(1) [OF assms(1)])
qed

lemma stays_if: "stays R m \<Longrightarrow> stays R n \<Longrightarrow> stays R (if b then m else n)"
  by simp

lemma length_map_each: "map_each f xs s = (Inr ys, s') \<Longrightarrow> length ys = length xs"
  by (induction xs arbitrary: ys s s')
    (auto simp: bnd_def split: prod.splits sum.splits)

subsection \<open>Tables\<close>

text \<open>
  A database table is the list of its rows in insertion order.  \<open>tbl_find\<close> is a primary-key
  lookup, \<open>tbl_update\<close> an \<open>UPDATE ... WHERE pk = k\<close>.
\<close>

definition tbl_find :: "('r \<Rightarrow> 'k) \<Rightarrow> 'k \<Rightarrow> 'r list \<Rightarrow> 'r option" where
  "tbl_find pk k rows = find (\<lambda>r. pk r = k) rows"

definition tbl_update :: "('r \<Rightarrow> 'k) \<Rightarrow> 'k \<Rightarrow> ('r \<Rightarrow> 'r) \<Rightarrow> 'r list \<Rightarrow> 'r list" where
  "tbl_update pk k f rows = map (\<lambda>r. if pk r = k then f r else r) rows"

lemma tbl_find_Nil [simp]: "tbl_find pk k [] = None"
  by (simp add: tbl_find_def)

lemma tbl_find_Cons [simp]:
  "tbl_find pk k (r # rs) = (if pk r = k then Some r else tbl_find pk k rs)"
  by (simp add: tbl_find_def)

lemma tbl_find_append:
  "tbl_find pk k (rs @ qs) = (case tbl_find pk k rs of None \<Rightarrow> tbl_find pk k qs | Some r \<Rightarrow> Some r)"
  by (induction rs) auto

lemma tbl_find_SomeD: "tbl_find pk k rows = Some r \<Longrightarrow> r \<in> set rows \<and> pk r = k"
  by (induction rows) (auto split: if_splits)

lemma tbl_find_None_iff: "tbl_find pk k rows = None \<longleftrightarrow> k \<notin> pk ` set rows"
  by (induction rows) auto

lemma tbl_find_eq_Some:
  "distinct (map pk rows) \<Longrightarrow> r \<in> set rows \<Longrightarrow> tbl_find pk (pk r) rows = Some r"
  by (induction rows) (auto simp: image_iff)

lemma tbl_update_Nil [simp]: "tbl_update pk k f [] = []"
  by (simp add: tbl_update_def)

lemma tbl_update_Cons [simp]:
  "tbl_update pk k f (r # rs) = (if pk r = k then f r else r) # tbl_update pk k f rs"
  by (simp add: tbl_update_def)

lemma map_tbl_update:
  "(\<And>r. g (f r) = g r) \<Longrightarrow> map g (tbl_update pk k f rows) = map g rows"
  by (simp add: tbl_update_def)

lemma tbl_find_update:
  "(\<And>r. pk (f r) = pk r) \<Longrightarrow>
   tbl_find pk k' (tbl_update pk k f rows)
     = (if k' = k then map_option f (tbl_find pk k rows) else tbl_find pk k' rows)"
  by (induction rows) auto

lemma tbl_update_absent: "k \<notin> pk ` set rows \<Longrightarrow> tbl_update pk k f rows = rows"
  by (induction rows) auto

lemma tbl_update_mem_iff:
  assumes "distinct (map pk rows)" "r \<in> set rows" "pk r = k"
  shows "x \<in> set (tbl_update pk k f rows) \<longleftrightarrow> x = f r \<or> (x \<in> set rows \<and> pk x \<noteq> k)"
proof -
  have unique: "y = r" if "y \<in> set rows" "pk y = k" for y
    using assms that by (metis eq_key_imp_eq_value distinct_map inj_onD)
  have "x \<in> set (tbl_update pk k f rows) \<longleftrightarrow> (\<exists>y \<in> set rows. x = (if pk y = k then f y else y))"
    unfolding tbl_update_def set_map by blast
  also have "\<dots> \<longleftrightarrow> x = f r \<or> (x \<in> set rows \<and> pk x \<noteq> k)"
    using unique assms(2,3) by metis
  finally show ?thesis .
qed

lemma filter_tbl_update_other:
  assumes "\<And>r. r \<in> set rows \<Longrightarrow> pk r = k \<Longrightarrow> \<not> P r \<and> \<not> P (f r)"
  shows "filter P (tbl_update pk k f rows) = filter P rows"
  using assms by (induction rows) auto

subsection \<open>Decimal numerals\<close>

definition digit_char :: "nat \<Rightarrow> char" where
  "digit_char d = ''0123456789'' ! d"

definition digit_val :: "char \<Rightarrow> nat" where
  "digit_val c = of_char c - 48"

definition is_digit :: "char \<Rightarrow> bool" where
  "is_digit c \<longleftrightarrow> c \<in> set ''0123456789''"

fun show_nat :: "nat \<Rightarrow> string" where
  "show_nat n = (if n < 10 then [digit_char n] else show_nat (n div 10) @ [digit_char (n mod 10)])"

declare show_nat.simps [simp del]

definition show_int :: "int \<Rightarrow> string" where
  "show_int i = (if i < 0 then CHR ''-'' # show_nat (nat (- i)) else show_nat (nat i))"

definition read_nat :: "string \<Rightarrow> nat" where
  "read_nat s = foldl (\<lambda>n c. 10 * n + digit_val c) 0 s"

text \<open>\<open>f"{n:0wd}"\<close>: at least \<open>w\<close> digits, zero-filled on the left.\<close>

definition show_padded :: "nat \<Rightarrow> nat \<Rightarrow> string" where
  "show_padded w n = (let s = show_nat n in replicate (w - length s) CHR ''0'' @ s)"

lemma less_10_cases: "d < (10::nat) \<Longrightarrow> d \<in> {0, 1, 2, 3, 4, 5, 6, 7, 8, 9}"
  by auto

lemma digit_char_val: "d < 10 \<Longrightarrow> digit_val (digit_char d) = d"
  by (drule less_10_cases) (auto simp: digit_char_def digit_val_def)

lemma is_digit_digit_char: "d < 10 \<Longrightarrow> is_digit (digit_char d)"
  by (drule less_10_cases) (auto simp: digit_char_def is_digit_def)

lemma digit_char_inject: "d < 10 \<Longrightarrow> e < 10 \<Longrightarrow> digit_char d = digit_char e \<longleftrightarrow> d = e"
  by (metis digit_char_val)

lemma show_nat_digits: "\<forall>c \<in> set (show_nat n). is_digit c"
proof (induction n rule: show_nat.induct)
  case (1 n)
  then show ?case
    by (cases "n < 10") (auto simp: show_nat.simps [of n] is_digit_digit_char)
qed

lemma show_nat_ne_Nil [simp]: "show_nat n \<noteq> []"
  by (subst show_nat.simps) simp

lemma read_nat_snoc: "read_nat (s @ [c]) = 10 * read_nat s + digit_val c"
  by (simp add: read_nat_def)

lemma read_show_nat [simp]: "read_nat (show_nat n) = n"
proof (induction n rule: show_nat.induct)
  case (1 n)
  show ?case
  proof (cases "n < 10")
    case True
    then show ?thesis by (simp add: show_nat.simps [of n] read_nat_def digit_char_val)
  next
    case False
    with 1 have "read_nat (show_nat (n div 10)) = n div 10" by simp
    with False show ?thesis
      by (simp add: show_nat.simps [of n] read_nat_snoc digit_char_val)
  qed
qed

lemma show_nat_inject: "show_nat m = show_nat n \<longleftrightarrow> m = n"
  by (metis read_show_nat)

lemma minus_not_digit: "\<not> is_digit CHR ''-''"
  by (simp add: is_digit_def)

lemma show_nat_no_minus: "show_nat m \<noteq> CHR ''-'' # s"
  using show_nat_digits [of m] minus_not_digit by auto

lemma show_int_inject: "show_int i = show_int j \<longleftrightarrow> i = j"
  using show_nat_no_minus
  by (auto simp: show_int_def show_nat_inject eq_nat_nat_iff split: if_splits)
    (metis show_nat_no_minus)+

lemma read_replicate_zero: "read_nat (replicate k CHR ''0'' @ s) = read_nat s"
proof -
  have "foldl (\<lambda>n c. 10 * n + digit_val c) 0 (replicate k CHR ''0'') = 0"
    by (induction k) (simp_all add: digit_val_def)
  then show ?thesis by (simp add: read_nat_def)
qed

lemma read_show_padded [simp]: "read_nat (show_padded w n) = n"
  by (simp add: show_padded_def Let_def read_replicate_zero)

lemma show_padded_inject: "show_padded w m = show_padded w n \<longleftrightarrow> m = n"
  by (metis read_show_padded)

lemma show_padded_digits: "\<forall>c \<in> set (show_padded w n). is_digit c"
proof -
  have "is_digit CHR ''0''" by (simp add: is_digit_def)
  with show_nat_digits [of n] show ?thesis
    by (auto simp only: show_padded_def Let_def set_append set_replicate_conv_if split: if_splits)
qed

lemma length_show_nat_le: "n < 10 ^ w \<Longrightarrow> 0 < w \<Longrightarrow> length (show_nat n) \<le> w"
proof (induction n arbitrary: w rule: show_nat.induct)
  case (1 n)
  show ?case
  proof (cases "n < 10")
    case True
    with 1(3) show ?thesis by (simp add: show_nat.simps [of n])
  next
    case False
    then obtain v where w: "w = Suc v" and v: "0 < v"
      using 1(2,3) by (cases w; cases "w - 1") auto
    have "n div 10 < 10 ^ v" using 1(2) w by (simp add: div_less_iff_less_mult mult.commute)
    with False 1(1) v have "length (show_nat (n div 10)) \<le> v" by simp
    with False w show ?thesis by (simp add: show_nat.simps [of n])
  qed
qed

lemma length_show_padded: "n < 10 ^ w \<Longrightarrow> 0 < w \<Longrightarrow> length (show_padded w n) = w"
  using length_show_nat_le [of n w] by (simp add: show_padded_def Let_def)

end
