(* ===== verification/Status.thy ===== *)
theory Status
  imports Prelude
begin

text \<open>
  The application case state machine, \<open>src/src/finassist/domain/applications/status.py\<close>.
  \<open>ALLOWED_TRANSITIONS\<close> is built here the way \<open>_build_allowed_transitions\<close> builds it, by the
  same four loops over the same four tables; the lemmas give the table it evaluates to and the
  facts about case histories every handler relies on.
\<close>

subsection \<open>Statuses\<close>

datatype application_status =
    DRAFT | SUBMITTED | INTAKE_VALIDATION | DOCUMENT_PROCESSING | VERIFICATION
  | POLICY_EVALUATION | AFFORDABILITY_EVALUATION | FRAUD_ANALYSIS | RISK_SYNTHESIS
  | AWAITING_HUMAN_REVIEW | APPROVED | DECLINED | NEEDS_MORE_INFORMATION | ESCALATED | CANCELLED

definition all_statuses :: "application_status list" where
  "all_statuses = [DRAFT, SUBMITTED, INTAKE_VALIDATION, DOCUMENT_PROCESSING, VERIFICATION,
     POLICY_EVALUATION, AFFORDABILITY_EVALUATION, FRAUD_ANALYSIS, RISK_SYNTHESIS,
     AWAITING_HUMAN_REVIEW, APPROVED, DECLINED, NEEDS_MORE_INFORMATION, ESCALATED, CANCELLED]"

lemma set_all_statuses: "set all_statuses = UNIV"
proof -
  have "s \<in> set all_statuses" for s by (cases s) (simp_all add: all_statuses_def)
  then show ?thesis by blast
qed

instance application_status :: finite
  by standard (metis set_all_statuses List.finite_set)

text \<open>\<open>status.value\<close> and the constructor call \<open>ApplicationStatus(value)\<close> of the \<open>StrEnum\<close>.\<close>

fun status_value :: "application_status \<Rightarrow> string" where
  "status_value DRAFT = ''DRAFT''"
| "status_value SUBMITTED = ''SUBMITTED''"
| "status_value INTAKE_VALIDATION = ''INTAKE_VALIDATION''"
| "status_value DOCUMENT_PROCESSING = ''DOCUMENT_PROCESSING''"
| "status_value VERIFICATION = ''VERIFICATION''"
| "status_value POLICY_EVALUATION = ''POLICY_EVALUATION''"
| "status_value AFFORDABILITY_EVALUATION = ''AFFORDABILITY_EVALUATION''"
| "status_value FRAUD_ANALYSIS = ''FRAUD_ANALYSIS''"
| "status_value RISK_SYNTHESIS = ''RISK_SYNTHESIS''"
| "status_value AWAITING_HUMAN_REVIEW = ''AWAITING_HUMAN_REVIEW''"
| "status_value APPROVED = ''APPROVED''"
| "status_value DECLINED = ''DECLINED''"
| "status_value NEEDS_MORE_INFORMATION = ''NEEDS_MORE_INFORMATION''"
| "status_value ESCALATED = ''ESCALATED''"
| "status_value CANCELLED = ''CANCELLED''"

definition status_of_value :: "string \<Rightarrow> application_status option" where
  "status_of_value v = find (\<lambda>s. status_value s = v) all_statuses"

lemma status_of_value_value [simp]: "status_of_value (status_value s) = Some s"
  by (cases s) (simp_all add: status_of_value_def all_statuses_def)

lemma status_value_inject [simp]: "status_value s = status_value t \<longleftrightarrow> s = t"
  by (metis option.inject status_of_value_value)

lemma status_of_value_Some: "status_of_value v = Some s \<Longrightarrow> v = status_value s"
  by (auto simp: status_of_value_def find_Some_iff)

subsection \<open>The transition tables\<close>

definition TERMINAL_STATUSES :: "application_status set" where
  "TERMINAL_STATUSES = {APPROVED, DECLINED, CANCELLED}"

definition CANCELLABLE_FROM :: "application_status list" where
  "CANCELLABLE_FROM = [DRAFT, SUBMITTED, INTAKE_VALIDATION, DOCUMENT_PROCESSING, VERIFICATION,
     POLICY_EVALUATION, AFFORDABILITY_EVALUATION, FRAUD_ANALYSIS, RISK_SYNTHESIS,
     AWAITING_HUMAN_REVIEW, NEEDS_MORE_INFORMATION, ESCALATED]"

definition FORWARD_PIPELINE :: "(application_status \<times> application_status) list" where
  "FORWARD_PIPELINE = [(DRAFT, SUBMITTED), (SUBMITTED, INTAKE_VALIDATION),
     (INTAKE_VALIDATION, DOCUMENT_PROCESSING), (DOCUMENT_PROCESSING, VERIFICATION),
     (VERIFICATION, POLICY_EVALUATION), (POLICY_EVALUATION, AFFORDABILITY_EVALUATION),
     (AFFORDABILITY_EVALUATION, FRAUD_ANALYSIS), (FRAUD_ANALYSIS, RISK_SYNTHESIS),
     (RISK_SYNTHESIS, AWAITING_HUMAN_REVIEW)]"

definition CAN_ESCALATE_TO_HUMAN_REVIEW :: "application_status list" where
  "CAN_ESCALATE_TO_HUMAN_REVIEW = [INTAKE_VALIDATION, DOCUMENT_PROCESSING, VERIFICATION,
     POLICY_EVALUATION, AFFORDABILITY_EVALUATION, FRAUD_ANALYSIS, RISK_SYNTHESIS]"

type_synonym transition_table = "application_status \<Rightarrow> application_status set"

definition add_target :: "application_status \<Rightarrow> application_status set \<Rightarrow> transition_table \<Rightarrow> transition_table" where
  "add_target source targets t = t(source := t source \<union> targets)"

definition build_allowed_transitions :: transition_table where
  "build_allowed_transitions =
     (let t0 = (\<lambda>_. {});
          t1 = fold (\<lambda>(source, target). add_target source {target}) FORWARD_PIPELINE t0;
          t2 = fold (\<lambda>source. add_target source {AWAITING_HUMAN_REVIEW})
                 CAN_ESCALATE_TO_HUMAN_REVIEW t1;
          t3 = add_target AWAITING_HUMAN_REVIEW
                 {APPROVED, DECLINED, NEEDS_MORE_INFORMATION, ESCALATED} t2;
          t4 = add_target ESCALATED {APPROVED, DECLINED, AWAITING_HUMAN_REVIEW} t3;
          t5 = add_target NEEDS_MORE_INFORMATION {DOCUMENT_PROCESSING} t4
      in fold (\<lambda>source. add_target source {CANCELLED}) CANCELLABLE_FROM t5)"

definition ALLOWED_TRANSITIONS :: transition_table where
  "ALLOWED_TRANSITIONS = build_allowed_transitions"

definition is_legal_transition :: "application_status \<Rightarrow> application_status \<Rightarrow> bool" where
  "is_legal_transition source target \<longleftrightarrow> target \<in> ALLOWED_TRANSITIONS source"

definition is_terminal :: "application_status \<Rightarrow> bool" where
  "is_terminal s \<longleftrightarrow> s \<in> TERMINAL_STATUSES"

lemma ALLOWED_TRANSITIONS_simps [simp]:
  "ALLOWED_TRANSITIONS DRAFT = {SUBMITTED, CANCELLED}"
  "ALLOWED_TRANSITIONS SUBMITTED = {INTAKE_VALIDATION, CANCELLED}"
  "ALLOWED_TRANSITIONS INTAKE_VALIDATION = {DOCUMENT_PROCESSING, AWAITING_HUMAN_REVIEW, CANCELLED}"
  "ALLOWED_TRANSITIONS DOCUMENT_PROCESSING = {VERIFICATION, AWAITING_HUMAN_REVIEW, CANCELLED}"
  "ALLOWED_TRANSITIONS VERIFICATION = {POLICY_EVALUATION, AWAITING_HUMAN_REVIEW, CANCELLED}"
  "ALLOWED_TRANSITIONS POLICY_EVALUATION = {AFFORDABILITY_EVALUATION, AWAITING_HUMAN_REVIEW, CANCELLED}"
  "ALLOWED_TRANSITIONS AFFORDABILITY_EVALUATION = {FRAUD_ANALYSIS, AWAITING_HUMAN_REVIEW, CANCELLED}"
  "ALLOWED_TRANSITIONS FRAUD_ANALYSIS = {RISK_SYNTHESIS, AWAITING_HUMAN_REVIEW, CANCELLED}"
  "ALLOWED_TRANSITIONS RISK_SYNTHESIS = {AWAITING_HUMAN_REVIEW, CANCELLED}"
  "ALLOWED_TRANSITIONS AWAITING_HUMAN_REVIEW
     = {APPROVED, DECLINED, NEEDS_MORE_INFORMATION, ESCALATED, CANCELLED}"
  "ALLOWED_TRANSITIONS ESCALATED = {APPROVED, DECLINED, AWAITING_HUMAN_REVIEW, CANCELLED}"
  "ALLOWED_TRANSITIONS NEEDS_MORE_INFORMATION = {DOCUMENT_PROCESSING, CANCELLED}"
  "ALLOWED_TRANSITIONS APPROVED = {}"
  "ALLOWED_TRANSITIONS DECLINED = {}"
  "ALLOWED_TRANSITIONS CANCELLED = {}"
  by (simp_all add: ALLOWED_TRANSITIONS_def build_allowed_transitions_def Let_def add_target_def
      FORWARD_PIPELINE_def CAN_ESCALATE_TO_HUMAN_REVIEW_def CANCELLABLE_FROM_def insert_commute)

subsection \<open>Case histories\<close>

text \<open>A case history is a list of statuses in which each step is one legal transition.\<close>

fun legal_history :: "application_status list \<Rightarrow> bool" where
  "legal_history (s # t # rest) \<longleftrightarrow> is_legal_transition s t \<and> legal_history (t # rest)"
| "legal_history _ \<longleftrightarrow> True"

text \<open>The statuses an automated stage may leave a case in before any human has decided.\<close>

definition automated_statuses :: "application_status set" where
  "automated_statuses = {DRAFT, SUBMITTED, INTAKE_VALIDATION, DOCUMENT_PROCESSING, VERIFICATION,
     POLICY_EVALUATION, AFFORDABILITY_EVALUATION, FRAUD_ANALYSIS, RISK_SYNTHESIS, CANCELLED}"

lemma legal_historyD: "legal_history (s # t # rest) \<Longrightarrow> t \<in> ALLOWED_TRANSITIONS s"
  by (simp add: is_legal_transition_def)

lemma automated_step:
  "s \<in> automated_statuses \<Longrightarrow> is_legal_transition s t \<Longrightarrow> t = AWAITING_HUMAN_REVIEW \<or> t \<in> automated_statuses"
  by (cases s) (auto simp: automated_statuses_def is_legal_transition_def)

lemma history_before_review:
  assumes "legal_history (s # rest)" "s \<in> automated_statuses" "AWAITING_HUMAN_REVIEW \<notin> set rest"
  shows "set rest \<subseteq> automated_statuses"
  using assms
proof (induction rest arbitrary: s)
  case Nil
  then show ?case by simp
next
  case (Cons t rest)
  then have t: "t \<in> automated_statuses" and h: "legal_history (t # rest)"
    using automated_step by auto
  from Cons.IH [OF h t] Cons.prems t show ?case by simp
qed

lemma legal_history_append_tl: "legal_history (xs @ ys) \<Longrightarrow> legal_history ys"
proof (induction xs)
  case Nil
  then show ?case by simp
next
  case (Cons x xs)
  then show ?case by (cases "xs @ ys") auto
qed

lemma terminal_no_successor: "is_terminal s \<Longrightarrow> \<not> is_legal_transition s t"
  by (cases s) (auto simp: is_terminal_def TERMINAL_STATUSES_def is_legal_transition_def)

lemma nonterminal_cancellable: "\<not> is_terminal s \<Longrightarrow> is_legal_transition s CANCELLED"
  by (cases s) (auto simp: is_terminal_def TERMINAL_STATUSES_def is_legal_transition_def)

text \<open>Only a status whose automated stage has run precedes a given one.\<close>

lemma legal_sources:
  "is_legal_transition s SUBMITTED \<longleftrightarrow> s = DRAFT"
  "is_legal_transition s INTAKE_VALIDATION \<longleftrightarrow> s = SUBMITTED"
  "is_legal_transition s DOCUMENT_PROCESSING \<longleftrightarrow> s = INTAKE_VALIDATION \<or> s = NEEDS_MORE_INFORMATION"
  "is_legal_transition s VERIFICATION \<longleftrightarrow> s = DOCUMENT_PROCESSING"
  "is_legal_transition s NEEDS_MORE_INFORMATION \<longleftrightarrow> s = AWAITING_HUMAN_REVIEW"
  "is_legal_transition s ESCALATED \<longleftrightarrow> s = AWAITING_HUMAN_REVIEW"
  "is_legal_transition s APPROVED \<longleftrightarrow> s = AWAITING_HUMAN_REVIEW \<or> s = ESCALATED"
  "is_legal_transition s DECLINED \<longleftrightarrow> s = AWAITING_HUMAN_REVIEW \<or> s = ESCALATED"
  "\<not> is_legal_transition s DRAFT"
  by (cases s; simp add: is_legal_transition_def)+

end
