(* ===== verification/Errors.thy ===== *)
theory Errors
  imports Status
begin

text \<open>
  The exceptions the program raises: \<open>domain/applications/exceptions.py\<close>,
  \<open>domain/documents/exceptions.py\<close>, \<open>domain/shared/money.py\<close>, the port-level ones, and the ones
  its libraries raise at it (\<open>IntegrityError\<close> of a violated key, \<open>InvalidOperation\<close> of
  \<open>decimal\<close>, \<open>ClientError\<close> of the S3 client, and \<open>ExternalError\<close> for anything else a remote
  call may raise).  \<open>error_class\<close> is \<open>type(exc).__name__\<close> and \<open>error_str\<close> is \<open>str(exc)\<close>.
\<close>

datatype py_error =
    IllegalStateTransitionError application_status application_status
  | ConcurrencyConflictError string int int
  | InvalidApplicationDataError string
  | ApplicationNotFoundError string
  | ProductNotFoundError string
  | ProductRejectedRequestError string string int
  | NoActiveWorkflowError string
  | DuplicateRequestError string string
  | UnsupportedDocumentTypeError string
  | MalwareDetectedError string
  | DocumentTooLargeError nat nat
  | PageLimitExceededError nat nat
  | DocumentNotFoundError string
  | ExtractionFailedError string string
  | UnsupportedCurrencyError string
  | CurrencyMismatchError string string
  | ObjectNotFoundError string
  | ValueError string
  | KeyError string
  | LookupError string
  | RuntimeError string
  | OverflowError
  | InvalidOperation
  | IntegrityError string
  | DataError string
  | RowSecurityError string
  | ClientError string
  | HTTPStatusError int
  | ExternalError string

subsection \<open>\<open>repr\<close> of a string\<close>

definition hex_digit :: "nat \<Rightarrow> char" where
  "hex_digit d = ''0123456789abcdef'' ! d"

definition repr_char :: "char \<Rightarrow> char \<Rightarrow> string" where
  "repr_char quote c =
     (let n = (of_char c :: nat) in
      if c = quote \<or> c = CHR 0x5C then [CHR 0x5C, c]
      else if n = 10 then [CHR 0x5C, CHR ''n'']
      else if n = 13 then [CHR 0x5C, CHR ''r'']
      else if n = 9 then [CHR 0x5C, CHR ''t'']
      else if n < 32 \<or> (127 \<le> n \<and> n \<le> 160) \<or> n = 173
      then [CHR 0x5C, CHR ''x'', hex_digit (n div 16), hex_digit (n mod 16)]
      else [c])"

definition py_repr :: "string \<Rightarrow> string" where
  "py_repr s =
     (let quote = (if CHR 0x27 \<in> set s \<and> CHR 0x22 \<notin> set s then CHR 0x22 else CHR 0x27)
      in [quote] @ concat (map (repr_char quote) s) @ [quote])"

subsection \<open>Class names and messages\<close>

fun error_class :: "py_error \<Rightarrow> string" where
  "error_class (IllegalStateTransitionError _ _) = ''IllegalStateTransitionError''"
| "error_class (ConcurrencyConflictError _ _ _) = ''ConcurrencyConflictError''"
| "error_class (InvalidApplicationDataError _) = ''InvalidApplicationDataError''"
| "error_class (ApplicationNotFoundError _) = ''ApplicationNotFoundError''"
| "error_class (ProductNotFoundError _) = ''ProductNotFoundError''"
| "error_class (ProductRejectedRequestError _ _ _) = ''ProductRejectedRequestError''"
| "error_class (NoActiveWorkflowError _) = ''NoActiveWorkflowError''"
| "error_class (DuplicateRequestError _ _) = ''DuplicateRequestError''"
| "error_class (UnsupportedDocumentTypeError _) = ''UnsupportedDocumentTypeError''"
| "error_class (MalwareDetectedError _) = ''MalwareDetectedError''"
| "error_class (DocumentTooLargeError _ _) = ''DocumentTooLargeError''"
| "error_class (PageLimitExceededError _ _) = ''PageLimitExceededError''"
| "error_class (DocumentNotFoundError _) = ''DocumentNotFoundError''"
| "error_class (ExtractionFailedError _ _) = ''ExtractionFailedError''"
| "error_class (UnsupportedCurrencyError _) = ''UnsupportedCurrencyError''"
| "error_class (CurrencyMismatchError _ _) = ''CurrencyMismatchError''"
| "error_class (ObjectNotFoundError _) = ''ObjectNotFoundError''"
| "error_class (ValueError _) = ''ValueError''"
| "error_class (KeyError _) = ''KeyError''"
| "error_class (LookupError _) = ''LookupError''"
| "error_class (RuntimeError _) = ''RuntimeError''"
| "error_class OverflowError = ''OverflowError''"
| "error_class InvalidOperation = ''InvalidOperation''"
| "error_class (IntegrityError _) = ''IntegrityError''"
| "error_class (DataError _) = ''DBAPIError''"
| "error_class (RowSecurityError _) = ''ProgrammingError''"
| "error_class (ClientError _) = ''ClientError''"
| "error_class (HTTPStatusError _) = ''HTTPStatusError''"
| "error_class (ExternalError _) = ''ExternalError''"

text \<open>Messages of the exceptions whose \<open>str\<close> the program itself uses or shows to a client.\<close>

fun error_str :: "py_error \<Rightarrow> string" where
  "error_str (IllegalStateTransitionError source target) =
     ''cannot transition application from '' @ status_value source @ '' to '' @ status_value target"
| "error_str (ConcurrencyConflictError application_id expected actual) =
     ''application '' @ application_id @ '' version conflict: expected '' @ show_int expected
       @ '', found '' @ show_int actual"
| "error_str (ApplicationNotFoundError application_id) =
     ''application '' @ application_id @ '' does not exist''"
| "error_str (ProductNotFoundError product_id) = ''product '' @ product_id @ '' does not exist''"
| "error_str (ProductRejectedRequestError product_id amount term_months) =
     ''product '' @ product_id @ '' does not accept amount='' @ amount @ '' term_months=''
       @ show_int term_months"
| "error_str (NoActiveWorkflowError application_id) =
     ''application '' @ application_id @ '' has no active workflow to signal''"
| "error_str (DuplicateRequestError operation_name idempotency_key) =
     ''operation '' @ py_repr operation_name @ '' already processed for idempotency key ''
       @ py_repr idempotency_key"
| "error_str (UnsupportedDocumentTypeError content_type) =
     ''no document parser registered for content type '' @ py_repr content_type"
| "error_str (MalwareDetectedError key) = ''file '' @ py_repr key @ '' failed the malware scan''"
| "error_str (DocumentTooLargeError size_bytes max_size_bytes) =
     ''document is '' @ show_nat size_bytes @ '' bytes, exceeding the '' @ show_nat max_size_bytes
       @ '' limit''"
| "error_str (PageLimitExceededError page_count max_pages) =
     ''document has '' @ show_nat page_count @ '' pages, exceeding the '' @ show_nat max_pages
       @ '' limit''"
| "error_str (DocumentNotFoundError document_id) =
     ''document '' @ document_id @ '' does not exist for this application''"
| "error_str (ExtractionFailedError document_id reason) =
     ''extraction failed for document '' @ document_id @ '': '' @ reason"
| "error_str (UnsupportedCurrencyError cur) =
     ''currency '' @ py_repr cur @ '' is not in the supported set ['' @ py_repr ''EUR'' @ '', ''
       @ py_repr ''USD'' @ '']''"
| "error_str (CurrencyMismatchError left right) =
     ''cannot combine '' @ py_repr left @ '' and '' @ py_repr right @ '' amounts''"
| "error_str (ObjectNotFoundError key) = ''object '' @ py_repr key @ '' does not exist''"
| "error_str (InvalidApplicationDataError msg) = msg"
| "error_str (ValueError msg) = msg"
| "error_str (KeyError k) = py_repr k"
| "error_str (LookupError msg) = msg"
| "error_str (RuntimeError msg) = msg"
| "error_str OverflowError = ''cannot convert float infinity to integer''"
| "error_str InvalidOperation = ''[<class 'decimal.InvalidOperation'>]''"
| "error_str (IntegrityError msg) = msg"
| "error_str (DataError msg) = msg"
| "error_str (RowSecurityError msg) = msg"
| "error_str (ClientError code) = code"
| "error_str (HTTPStatusError code) = show_int code"
| "error_str (ExternalError msg) = msg"

end
