(* ===== verification/Floats.thy ===== *)
theory Floats
  imports Errors Complex_Main
begin

text \<open>
  Python floats where the program compares or prints them: the match scores of the identity
  check, the income deviation, the confidences.  A finite float is the rational number it
  denotes; \<open>fl\<close> rounds a rational to the nearest double (53-bit significand, gradual underflow,
  ties to even), so \<open>a / b\<close> on floats is \<open>fl (a / b)\<close>.  Infinities and NaN are not values of
  the model: an operation that would produce one raises here where Python raises
  (\<open>OverflowError\<close>), and is a hypothesis elsewhere.
\<close>

fun bit_len :: "nat \<Rightarrow> nat" where
  "bit_len n = (if n = 0 then 0 else Suc (bit_len (n div 2)))"

declare bit_len.simps [simp del]

definition pow2 :: "int \<Rightarrow> rat" where
  "pow2 e = (if 0 \<le> e then 2 ^ nat e else 1 / 2 ^ nat (- e))"

text \<open>\<open>exponent2 x\<close> is the \<open>e\<close> with \<open>2^e \<le> x < 2^(e+1)\<close>, for positive \<open>x\<close>.\<close>

definition exponent2 :: "rat \<Rightarrow> int" where
  "exponent2 x =
     (let (n, d) = quotient_of x; k = int (bit_len (nat n)) - int (bit_len (nat d))
      in if pow2 k \<le> x then k else k - 1)"

definition round_half_even :: "rat \<Rightarrow> int" where
  "round_half_even x =
     (let q = \<lfloor>x\<rfloor>; r = x - of_int q
      in if r < 1 / 2 then q else if 1 / 2 < r then q + 1 else if even q then q else q + 1)"

definition fl_pos :: "rat \<Rightarrow> rat" where
  "fl_pos x = (let u = max (exponent2 x - 52) (- 1074)
     in of_int (round_half_even (x / pow2 u)) * pow2 u)"

definition fl :: "rat \<Rightarrow> rat" where
  "fl x = (if x = 0 then 0 else if 0 < x then fl_pos x else - fl_pos (- x))"

definition fl_overflows :: "rat \<Rightarrow> bool" where
  "fl_overflows x \<longleftrightarrow> pow2 1024 \<le> \<bar>fl x\<bar>"

text \<open>\<open>n / d\<close> of two ints: the correctly rounded quotient.\<close>

definition int_truediv :: "int \<Rightarrow> int \<Rightarrow> py_error + rat" where
  "int_truediv n d =
     (if d = 0 then Inl (RuntimeError ''division by zero'')
      else if fl_overflows (of_int n / of_int d) then Inl OverflowError
      else Inr (fl (of_int n / of_int d)))"

text \<open>\<open>f"{x:.2f}"\<close>: the exact value rounded half-even at two digits (the sign of a negative that
  rounds to zero is kept).\<close>

definition show_fixed2 :: "rat \<Rightarrow> string" where
  "show_fixed2 x =
     (let c = nat (round_half_even (\<bar>x\<bar> * 100))
      in (if x < 0 then ''-'' else []) @ show_nat (c div 100) @ ''.'' @ show_padded 2 (c mod 100))"

subsection \<open>Powers of two\<close>

lemma pow2_powi: "pow2 e = 2 powi e"
  by (simp add: pow2_def power_int_def field_simps)

lemma pow2_pos [simp]: "0 < pow2 e"
  by (simp add: pow2_powi)

lemma pow2_add: "pow2 (a + b) = pow2 a * pow2 b"
  by (simp add: pow2_powi power_int_add)

lemma pow2_mono: "a \<le> b \<Longrightarrow> pow2 a \<le> pow2 b"
  by (simp add: pow2_powi power_int_increasing)

lemma pow2_strict_mono: "a < b \<Longrightarrow> pow2 a < pow2 b"
  by (simp add: pow2_powi power_int_strict_increasing)

lemma pow2_less_iff: "pow2 a < pow2 b \<longleftrightarrow> a < b"
  by (meson linorder_not_le pow2_mono pow2_strict_mono)

lemma pow2_nat: "pow2 (int n) = 2 ^ n"
  by (simp add: pow2_def)

lemma pow2_diff: "pow2 (int m - int n) = 2 ^ m / 2 ^ n"
  by (simp add: pow2_powi power_int_diff)

lemma bit_len_spec: "0 < n \<Longrightarrow> 2 ^ (bit_len n - 1) \<le> n \<and> n < 2 ^ bit_len n"
proof (induction n rule: bit_len.induct)
  case (1 n)
  show ?case
  proof (cases "n div 2 = 0")
    case True
    with 1(2) have "n = 1" by auto
    then show ?thesis by (simp add: bit_len.simps)
  next
    case False
    with 1 have ih: "2 ^ (bit_len (n div 2) - 1) \<le> n div 2" "n div 2 < 2 ^ bit_len (n div 2)"
      by auto
    obtain b where b: "bit_len (n div 2) = Suc b"
      using False by (subst (asm) bit_len.simps) (auto simp: bit_len.simps [of "n div 2"])
    have "bit_len n = Suc (Suc b)" using 1(2) b by (subst bit_len.simps) simp
    moreover have "2 * (n div 2) \<le> n" "n < 2 * (n div 2) + 2" by simp_all
    ultimately show ?thesis using ih b by simp
  qed
qed

lemma exponent2_spec:
  assumes "0 < x"
  shows "pow2 (exponent2 x) \<le> x" "x < pow2 (exponent2 x + 1)"
proof -
  obtain n d where q: "quotient_of x = (n, d)" by fastforce
  have d: "0 < d" using q by (rule quotient_of_denom_pos)
  have x: "x = of_int n / of_int d" using q by (rule quotient_of_div)
  have n: "0 < n" using assms d by (simp add: x zero_less_divide_iff)
  define a where "a = bit_len (nat n)"
  define b where "b = bit_len (nat d)"
  have an: "2 ^ (a - 1) \<le> nat n" "nat n < 2 ^ a" and bd: "2 ^ (b - 1) \<le> nat d" "nat d < 2 ^ b"
    using bit_len_spec [of "nat n"] bit_len_spec [of "nat d"] n d by (simp_all add: a_def b_def)
  have a1: "1 \<le> a" and b1: "1 \<le> b"
    using n d by (simp_all add: a_def b_def bit_len.simps [of "nat n"] bit_len.simps [of "nat d"])
  have N: "(2::rat) ^ (a - 1) \<le> of_int n" "of_int n < (2::rat) ^ a"
    using an n by (metis of_int_le_iff of_int_numeral of_int_power of_nat_le_iff of_nat_numeral
        of_nat_power int_nat_eq order_less_imp_le, metis of_int_less_iff of_int_numeral of_int_power
        of_nat_less_iff of_nat_numeral of_nat_power int_nat_eq order_less_imp_le)
  have D: "(2::rat) ^ (b - 1) \<le> of_int d" "of_int d < (2::rat) ^ b"
    using bd d by (metis of_int_le_iff of_int_numeral of_int_power of_nat_le_iff of_nat_numeral
        of_nat_power int_nat_eq order_less_imp_le, metis of_int_less_iff of_int_numeral of_int_power
        of_nat_less_iff of_nat_numeral of_nat_power int_nat_eq order_less_imp_le)
  define k where "k = int a - int b"
  have "x < 2 ^ a / 2 ^ (b - 1)" unfolding x using N D d n
    by (intro frac_less) auto
  also have "\<dots> = pow2 (int a - int (b - 1))" by (simp only: pow2_diff)
  also have "int a - int (b - 1) = k + 1" using b1 by (simp add: k_def)
  finally have up: "x < pow2 (k + 1)" .
  have "pow2 (int (a - 1) - int b) = 2 ^ (a - 1) / 2 ^ b" by (simp only: pow2_diff)
  also have "\<dots> \<le> x" unfolding x using N D d n by (intro frac_le) auto
  finally have "pow2 (int (a - 1) - int b) \<le> x" .
  moreover have "int (a - 1) - int b = k - 1" using a1 by (simp add: k_def)
  ultimately have low: "pow2 (k - 1) \<le> x" by simp
  have e: "exponent2 x = (if pow2 k \<le> x then k else k - 1)"
    by (simp add: exponent2_def q k_def a_def b_def)
  show "pow2 (exponent2 x) \<le> x" using low by (simp add: e)
  show "x < pow2 (exponent2 x + 1)" using up by (simp add: e)
qed

subsection \<open>Rounding\<close>

lemma round_half_even_near: "\<bar>of_int (round_half_even x) - x\<bar> \<le> 1 / 2"
  using floor_correct [of x] by (auto simp: round_half_even_def Let_def)

lemma round_half_even_of_int [simp]: "round_half_even (of_int k) = k"
  by (simp add: round_half_even_def)

lemma round_half_even_power [simp]: "round_half_even (2 ^ k) = 2 ^ k"
  using round_half_even_of_int [of "2 ^ k"] by simp

lemma of_int_scale_mono: "a \<le> b \<Longrightarrow> 0 < p \<Longrightarrow> of_int a * p \<le> of_int b * (p :: rat)"
  by (simp add: mult_right_mono)

lemma round_half_even_mono:
  assumes "x \<le> y"
  shows "round_half_even x \<le> round_half_even y"
proof (cases "\<lfloor>x\<rfloor> = \<lfloor>y\<rfloor>")
  case True
  with assms show ?thesis by (auto simp: round_half_even_def Let_def)
next
  case False
  then have "\<lfloor>x\<rfloor> + 1 \<le> \<lfloor>y\<rfloor>" using floor_mono [OF assms] by linarith
  moreover have "round_half_even x \<le> \<lfloor>x\<rfloor> + 1" "\<lfloor>y\<rfloor> \<le> round_half_even y"
    by (auto simp: round_half_even_def Let_def)
  ultimately show ?thesis by linarith
qed

abbreviation ulp_exponent :: "rat \<Rightarrow> int" where
  "ulp_exponent x \<equiv> max (exponent2 x - 52) (- 1074)"

lemma fl_pos_error: "\<bar>fl_pos x - x\<bar> \<le> pow2 (ulp_exponent x) / 2"
proof -
  define p where "p = pow2 (ulp_exponent x)"
  have p: "0 < p" by (simp add: p_def)
  have "fl_pos x - x = (of_int (round_half_even (x / p)) - x / p) * p"
    using p by (simp add: fl_pos_def Let_def p_def [symmetric] field_simps)
  then have "\<bar>fl_pos x - x\<bar> = \<bar>of_int (round_half_even (x / p)) - x / p\<bar> * p"
    using p by (simp add: abs_mult)
  also have "\<dots> \<le> 1 / 2 * p"
    using p by (intro mult_right_mono round_half_even_near) simp
  finally show ?thesis by (simp add: p_def)
qed

lemma fl_pos_upper:
  assumes "x \<le> pow2 (ulp_exponent x + int k)"
  shows "fl_pos x \<le> pow2 (ulp_exponent x + int k)"
proof -
  define p where "p = pow2 (ulp_exponent x)"
  have p: "0 < p" by (simp add: p_def)
  have "x / p \<le> of_int (2 ^ k)"
    using assms p by (simp add: pow2_add pow2_nat p_def [symmetric] field_simps)
  then have "round_half_even (x / p) \<le> 2 ^ k"
    using round_half_even_mono [of "x / p" "of_int (2 ^ k)"] by simp
  then have "of_int (round_half_even (x / p)) * p \<le> of_int (2 ^ k) * p"
    using p by (rule of_int_scale_mono)
  then show ?thesis
    by (simp add: fl_pos_def Let_def p_def [symmetric] pow2_add pow2_nat mult.commute)
qed

lemma fl_pos_lower:
  assumes "pow2 (ulp_exponent x + int k) \<le> x"
  shows "pow2 (ulp_exponent x + int k) \<le> fl_pos x"
proof -
  define p where "p = pow2 (ulp_exponent x)"
  have p: "0 < p" by (simp add: p_def)
  have "of_int (2 ^ k) \<le> x / p"
    using assms p by (simp add: pow2_add pow2_nat p_def [symmetric] field_simps)
  then have "2 ^ k \<le> round_half_even (x / p)"
    using round_half_even_mono [of "of_int (2 ^ k)" "x / p"] by simp
  then have "of_int (2 ^ k) * p \<le> of_int (round_half_even (x / p)) * p"
    using p by (rule of_int_scale_mono)
  then show ?thesis
    by (simp add: fl_pos_def Let_def p_def [symmetric] pow2_add pow2_nat mult.commute)
qed

lemma exponent2_mono:
  assumes "0 < x" "x \<le> y"
  shows "exponent2 x \<le> exponent2 y"
proof -
  have "pow2 (exponent2 x) < pow2 (exponent2 y + 1)"
    using exponent2_spec [of x] exponent2_spec [of y] assms by linarith
  then show ?thesis by (simp add: pow2_less_iff)
qed

lemma fl_pos_mono:
  assumes "0 < x" "x \<le> y"
  shows "fl_pos x \<le> fl_pos y"
proof (cases "ulp_exponent x = ulp_exponent y")
  case True
  define p where "p = pow2 (ulp_exponent x)"
  have p: "0 < p" by (simp add: p_def)
  have "round_half_even (x / p) \<le> round_half_even (y / p)"
    using assms p by (intro round_half_even_mono) (simp add: divide_right_mono)
  then have "of_int (round_half_even (x / p)) * p \<le> of_int (round_half_even (y / p)) * p"
    using p by (rule of_int_scale_mono)
  then show ?thesis using True by (simp add: fl_pos_def Let_def p_def)
next
  case False
  have e: "exponent2 x \<le> exponent2 y" using assms by (rule exponent2_mono)
  with False have u: "ulp_exponent y = exponent2 y - 52" "ulp_exponent x + 1 \<le> ulp_exponent y"
    by linarith+
  have "x < pow2 (exponent2 x + 1)" using exponent2_spec(2) [OF assms(1)] .
  also have "\<dots> \<le> pow2 (ulp_exponent x + int 53)" by (intro pow2_mono) linarith
  finally have "fl_pos x \<le> pow2 (ulp_exponent x + int 53)" by (intro fl_pos_upper) simp
  also have "\<dots> \<le> pow2 (ulp_exponent y + int 52)" using u(2) by (intro pow2_mono) linarith
  also have "\<dots> \<le> fl_pos y"
    using exponent2_spec(1) [of y] assms u(1) by (intro fl_pos_lower) simp
  finally show ?thesis .
qed

lemma fl_0 [simp]: "fl 0 = 0"
  by (simp add: fl_def)

lemma fl_pos_nonneg: "0 < x \<Longrightarrow> 0 \<le> fl_pos x"
proof -
  assume "0 < x"
  then have "round_half_even 0 \<le> round_half_even (x / pow2 (ulp_exponent x))"
    by (intro round_half_even_mono) (simp add: less_imp_le)
  then have "0 \<le> round_half_even (x / pow2 (ulp_exponent x))"
    using round_half_even_of_int [of 0] by simp
  then show ?thesis by (simp add: fl_pos_def Let_def less_imp_le)
qed

lemma fl_mono: "x \<le> y \<Longrightarrow> fl x \<le> fl y"
  using fl_pos_mono [of x y] fl_pos_mono [of "- y" "- x"] fl_pos_nonneg [of y] fl_pos_nonneg [of "- x"]
  by (auto simp: fl_def)

subsection \<open>The one-fifth threshold\<close>

definition float_0_2 :: rat where
  "float_0_2 = fl (2 / 10)"

definition float_0_8 :: rat where
  "float_0_8 = fl (8 / 10)"

lemma exponent2_eqI:
  assumes "0 < x" "pow2 e \<le> x" "x < pow2 (e + 1)"
  shows "exponent2 x = e"
proof -
  have "pow2 e < pow2 (exponent2 x + 1)" "pow2 (exponent2 x) < pow2 (e + 1)"
    using exponent2_spec [OF assms(1)] assms by linarith+
  then show ?thesis by (simp add: pow2_less_iff)
qed

text \<open>Around one fifth a double is a multiple of \<open>2^-55\<close>.\<close>

lemma fl_near_fifth:
  assumes "1 / 8 \<le> x" "x < 1 / 4"
  shows "\<bar>fl x - x\<bar> \<le> 1 / 2 ^ 56"
proof -
  have "exponent2 x = - 3"
    using assms by (intro exponent2_eqI) (simp_all add: pow2_def)
  with assms fl_pos_error [of x] show ?thesis by (simp add: fl_def pow2_def)
qed

text \<open>
  A quotient of two ints with a denominator below \<open>2^50\<close> compares with the double \<open>0.2\<close> exactly
  as it compares with one fifth: the program's float comparison of incomes loses nothing.
\<close>

lemma truediv_le_fifth:
  assumes "0 \<le> n" "0 < d" "d < 2 ^ 50"
  shows "fl (of_int n / of_int d) \<le> float_0_2 \<longleftrightarrow> 5 * n \<le> d"
proof
  assume "5 * n \<le> d"
  then have "(of_int (5 * n) :: rat) \<le> of_int d" by (simp only: of_int_le_iff)
  then have "(of_int n :: rat) / of_int d \<le> 2 / 10"
    using assms(2) by (simp add: field_simps)
  then show "fl (of_int n / of_int d) \<le> float_0_2" unfolding float_0_2_def by (rule fl_mono)
next
  assume le: "fl (of_int n / of_int d) \<le> float_0_2"
  define x :: rat where "x = of_int n / of_int d"
  have c: "\<bar>float_0_2 - 1 / 5\<bar> \<le> 1 / 2 ^ 56"
    using fl_near_fifth [of "2 / 10"] by (simp add: float_0_2_def)
  show "5 * n \<le> d"
  proof (rule ccontr)
    assume "\<not> 5 * n \<le> d"
    then have "d + 1 \<le> 5 * n" by simp
    then have "(of_int (d + 1) :: rat) \<le> of_int (5 * n)" by (simp only: of_int_le_iff)
    then have "of_int (d + 1) / (5 * of_int d) \<le> (of_int (5 * n) :: rat) / (5 * of_int d)"
      using assms(2) by (intro divide_right_mono) simp_all
    moreover have "of_int (d + 1) / (5 * of_int d) = 1 / 5 + (1 :: rat) / (5 * of_int d)"
      using assms(2) by (simp add: field_simps)
    moreover have "(of_int (5 * n) :: rat) / (5 * of_int d) = x" by (simp add: x_def)
    ultimately have gap: "1 / 5 + 1 / (5 * of_int d) \<le> x" by simp
    have "(of_int d :: rat) < of_int (2 ^ 50)" using assms(3) by (simp only: of_int_less_iff)
    then have "1 / (5 * 2 ^ 50) < (1 :: rat) / (5 * of_int d)"
      using assms(2) by (intro divide_strict_left_mono) auto
    with gap have x: "1 / 5 + 1 / (5 * 2 ^ 50) < x" by linarith
    have "1 / 5 + 1 / 2 ^ 55 < fl x"
    proof (cases "x < 1 / 4")
      case True
      have "(1 :: rat) / 8 < 1 / 5 + 1 / (5 * 2 ^ 50)" by simp
      then have "1 / 8 < x" using x by (rule less_trans)
      with True have "\<bar>fl x - x\<bar> \<le> 1 / 2 ^ 56" by (intro fl_near_fifth) simp_all
      then have "x - 1 / 2 ^ 56 \<le> fl x" unfolding abs_le_iff by linarith
      moreover have "(1 :: rat) / 5 + 1 / 2 ^ 55 < 1 / 5 + 1 / (5 * 2 ^ 50) - 1 / 2 ^ 56" by simp
      ultimately show ?thesis using x by linarith
    next
      case False
      then have "fl (1 / 4) \<le> fl x" by (intro fl_mono) simp
      moreover have "fl (1 / 4) = 1 / 4"
        by (simp add: fl_def fl_pos_def Let_def exponent2_eqI [of "1 / 4" "- 2"] pow2_def)
          (simp add: round_half_even_def)
      ultimately show ?thesis by simp
    qed
    moreover have "float_0_2 \<le> 1 / 5 + 1 / 2 ^ 56" using c unfolding abs_le_iff by linarith
    moreover have "(1 :: rat) / 2 ^ 56 < 1 / 2 ^ 55" by simp
    ultimately show False using le unfolding x_def by linarith
  qed
qed

text \<open>Far below the largest double nothing overflows.\<close>

lemma fl_bound: "\<bar>fl x\<bar> \<le> 2 * \<bar>x\<bar> + 1"
proof -
  have pos: "\<bar>fl_pos y\<bar> \<le> 2 * y + 1" if "0 < y" for y
  proof -
    have "pow2 (ulp_exponent y) \<le> 2 * y + 1"
    proof (cases "exponent2 y - 52 \<le> - 1074")
      case True
      then have "pow2 (ulp_exponent y) = pow2 (- 1074)" by simp
      also have "\<dots> \<le> pow2 0" by (rule pow2_mono) simp
      finally show ?thesis using that by (simp add: pow2_def)
    next
      case False
      then have "pow2 (ulp_exponent y) \<le> pow2 (exponent2 y)" by (intro pow2_mono) simp
      then show ?thesis using exponent2_spec [OF that] that by linarith
    qed
    then have "\<bar>fl_pos y - y\<bar> \<le> (2 * y + 1) / 2"
      by (intro order_trans [OF fl_pos_error] divide_right_mono) simp_all
    moreover have "\<bar>fl_pos y\<bar> \<le> \<bar>fl_pos y - y\<bar> + \<bar>y\<bar>" by (metis abs_triangle_ineq diff_add_cancel)
    ultimately show ?thesis using that by (simp add: field_simps)
  qed
  show ?thesis using pos [of x] pos [of "- x"] by (auto simp: fl_def)
qed

lemma fl_no_overflow: "\<bar>x\<bar> \<le> 2 ^ 1000 \<Longrightarrow> \<not> fl_overflows x"
proof -
  assume "\<bar>x\<bar> \<le> 2 ^ 1000"
  then have "\<bar>fl x\<bar> \<le> 2 * 2 ^ 1000 + 1" using fl_bound [of x] by linarith
  also have "\<dots> < (pow2 1024 :: rat)" by (simp add: pow2_def)
  finally show ?thesis by (simp add: fl_overflows_def)
qed
end
