(* ===== verification/Clock.thy ===== *)
theory Clock
  imports PyStrings "HOL-Library.Product_Lexorder"
begin

text \<open>
  Dates and instants.  \<open>domain/shared/clock.py\<close> only ever produces instants in UTC, so an instant
  is its calendar fields in UTC; \<open>isoformat\<close> prints the offset \<open>+00:00\<close> and the parser reads
  exactly the two shapes \<open>isoformat\<close> prints (with and without microseconds).  The clock itself
  is a parameter of the development: the n-th reading is \<open>e_clock n\<close> of the environment, and
  \<open>FixedClock\<close> is the one of the tests.
\<close>

datatype date = Date (year: nat) (month: nat) (day: nat)

datatype datetime =
  Datetime (dt_date: date) (hour: nat) (minute: nat) (second: nat) (microsecond: nat)

definition leap_year :: "nat \<Rightarrow> bool" where
  "leap_year y \<longleftrightarrow> 4 dvd y \<and> (\<not> 100 dvd y \<or> 400 dvd y)"

definition days_in_month :: "nat \<Rightarrow> nat \<Rightarrow> nat" where
  "days_in_month y m =
     (if m = 2 then (if leap_year y then 29 else 28)
      else if m \<in> {4, 6, 9, 11} then 30 else 31)"

fun valid_date :: "date \<Rightarrow> bool" where
  "valid_date (Date y m d) \<longleftrightarrow>
     1 \<le> y \<and> y \<le> 9999 \<and> 1 \<le> m \<and> m \<le> 12 \<and> 1 \<le> d \<and> d \<le> days_in_month y m"

fun valid_datetime :: "datetime \<Rightarrow> bool" where
  "valid_datetime (Datetime d h mi s us) \<longleftrightarrow>
     valid_date d \<and> h < 24 \<and> mi < 60 \<and> s < 60 \<and> us < 1000000"

subsection \<open>Order\<close>

fun date_key :: "date \<Rightarrow> nat \<times> nat \<times> nat" where
  "date_key (Date y m d) = (y, m, d)"

fun datetime_key :: "datetime \<Rightarrow> (nat \<times> nat \<times> nat) \<times> nat \<times> nat \<times> nat \<times> nat" where
  "datetime_key (Datetime d h mi s us) = (date_key d, h, mi, s, us)"

lemma date_key_inject: "date_key a = date_key b \<longleftrightarrow> a = b"
  by (cases a; cases b) auto

lemma datetime_key_inject: "datetime_key a = datetime_key b \<longleftrightarrow> a = b"
  by (cases a; cases b) (auto simp: date_key_inject)

instantiation datetime :: linorder
begin

definition less_eq_datetime :: "datetime \<Rightarrow> datetime \<Rightarrow> bool" where
  "less_eq_datetime a b \<longleftrightarrow> datetime_key a \<le> datetime_key b"

definition less_datetime :: "datetime \<Rightarrow> datetime \<Rightarrow> bool" where
  "less_datetime a b \<longleftrightarrow> datetime_key a < datetime_key b"

instance
  by standard
    (auto simp: less_eq_datetime_def less_datetime_def less_le_not_le datetime_key_inject [symmetric]
      intro: order_trans order_antisym)

end

subsection \<open>ISO 8601\<close>

fun date_isoformat :: "date \<Rightarrow> string" where
  "date_isoformat (Date y m d) = show_padded 4 y @ ''-'' @ show_padded 2 m @ ''-'' @ show_padded 2 d"

fun isoformat :: "datetime \<Rightarrow> string" where
  "isoformat (Datetime d h mi s us) =
     date_isoformat d @ ''T'' @ show_padded 2 h @ '':'' @ show_padded 2 mi @ '':'' @ show_padded 2 s
       @ (if us = 0 then [] else ''.'' @ show_padded 6 us) @ ''+00:00''"

definition read_field :: "nat \<Rightarrow> nat \<Rightarrow> string \<Rightarrow> nat option" where
  "read_field from w s =
     (let f = take w (drop from s)
      in if length f = w \<and> list_all is_digit f then Some (read_nat f) else None)"

text \<open>\<open>date.fromisoformat\<close> on \<open>YYYY-MM-DD\<close>; anything else, or a date not in the calendar, raises.\<close>

definition date_fromisoformat :: "string \<Rightarrow> py_error + date" where
  "date_fromisoformat s =
     (case (read_field 0 4 s, read_field 5 2 s, read_field 8 2 s) of
        (Some y, Some m, Some d) \<Rightarrow>
          if length s = 10 \<and> s ! 4 = CHR ''-'' \<and> s ! 7 = CHR ''-'' \<and> valid_date (Date y m d)
          then Inr (Date y m d) else Inl (ValueError (''Invalid isoformat string: '' @ py_repr s))
      | _ \<Rightarrow> Inl (ValueError (''Invalid isoformat string: '' @ py_repr s)))"

definition fromisoformat :: "string \<Rightarrow> py_error + datetime" where
  "fromisoformat s =
     (let bad = Inl (ValueError (''Invalid isoformat string: '' @ py_repr s));
          frac = (if drop 19 s = ''+00:00'' then Some 0
                  else if length s = 32 \<and> s ! 19 = CHR ''.'' \<and> drop 26 s = ''+00:00''
                  then read_field 20 6 s else None)
      in case (date_fromisoformat (take 10 s), read_field 11 2 s, read_field 14 2 s,
               read_field 17 2 s, frac) of
           (Inr d, Some h, Some mi, Some se, Some us) \<Rightarrow>
             if s ! 10 = CHR ''T'' \<and> s ! 13 = CHR '':'' \<and> s ! 16 = CHR '':''
               \<and> valid_datetime (Datetime d h mi se us)
             then Inr (Datetime d h mi se us) else bad
         | _ \<Rightarrow> bad)"

record fixed_clock =
  fixed_at :: datetime

definition fixed_now :: "fixed_clock \<Rightarrow> datetime" where
  "fixed_now self = fixed_at self"

definition fixed_advance :: "datetime \<Rightarrow> fixed_clock \<Rightarrow> fixed_clock" where
  "fixed_advance new_fixed_at self = self\<lparr>fixed_at := new_fixed_at\<rparr>"

subsection \<open>Round trips\<close>

lemma read_field_padded:
  assumes "length pre = from" "n < 10 ^ w" "0 < w"
  shows "read_field from w (pre @ show_padded w n @ post) = Some n"
proof -
  have "list_all is_digit (show_padded w n)"
    using show_padded_digits [of w n] by (simp add: list_all_iff)
  then show ?thesis
    using assms length_show_padded [OF assms(2,3)] by (simp add: read_field_def)
qed

lemma days_in_month_le: "days_in_month y m \<le> 31"
  by (simp add: days_in_month_def)

lemma valid_date_bounds:
  "valid_date (Date y m d) \<Longrightarrow> y < 10 ^ 4 \<and> m < 10 ^ 2 \<and> d < 10 ^ 2"
  using days_in_month_le [of y m] by simp

lemma date_isoformat_length: "valid_date d \<Longrightarrow> length (date_isoformat d) = 10"
  using valid_date_bounds
  by (cases d) (auto simp: length_show_padded)

lemma date_isoformat_fields:
  assumes "valid_date (Date y m d)"
  shows "read_field 0 4 (date_isoformat (Date y m d)) = Some y"
    "read_field 5 2 (date_isoformat (Date y m d)) = Some m"
    "read_field 8 2 (date_isoformat (Date y m d)) = Some d"
    "date_isoformat (Date y m d) ! 4 = CHR ''-''" "date_isoformat (Date y m d) ! 7 = CHR ''-''"
proof -
  from valid_date_bounds [OF assms]
  have b: "y < 10 ^ 4" "m < 10 ^ 2" "d < 10 ^ 2" by auto
  have l: "length (show_padded 4 y) = 4" "length (show_padded 2 m) = 2" "length (show_padded 2 d) = 2"
    using b by (simp_all add: length_show_padded)
  show "read_field 0 4 (date_isoformat (Date y m d)) = Some y"
    using read_field_padded [of "[]" 0 y 4] b by simp
  show "read_field 5 2 (date_isoformat (Date y m d)) = Some m"
    using read_field_padded [of "show_padded 4 y @ ''-''" 5 m 2] b l by simp
  show "read_field 8 2 (date_isoformat (Date y m d)) = Some d"
    using read_field_padded [of "show_padded 4 y @ ''-'' @ show_padded 2 m @ ''-''" 8 d 2 "[]"] b l
    by simp
  show "date_isoformat (Date y m d) ! 4 = CHR ''-''" "date_isoformat (Date y m d) ! 7 = CHR ''-''"
    using l by (simp_all add: nth_append)
qed

theorem date_iso_roundtrip: "valid_date d \<Longrightarrow> date_fromisoformat (date_isoformat d) = Inr d"
  using date_isoformat_fields date_isoformat_length
  by (cases d) (simp add: date_fromisoformat_def del: date_isoformat.simps valid_date.simps)

lemma isoformat_shape:
  assumes "valid_datetime (Datetime d h mi s us)"
  defines "t \<equiv> isoformat (Datetime d h mi s us)"
  shows "take 10 t = date_isoformat d" "read_field 11 2 t = Some h" "read_field 14 2 t = Some mi"
    "read_field 17 2 t = Some s" "t ! 10 = CHR ''T''" "t ! 13 = CHR '':''" "t ! 16 = CHR '':''"
    "drop 19 t = (if us = 0 then [] else ''.'' @ show_padded 6 us) @ ''+00:00''"
proof -
  from assms have b: "h < 10 ^ 2" "mi < 10 ^ 2" "s < 10 ^ 2" "us < 10 ^ 6" "valid_date d" by auto
  have l: "length (show_padded 2 h) = 2" "length (show_padded 2 mi) = 2"
    "length (show_padded 2 s) = 2" "length (date_isoformat d) = 10"
    using b by (simp_all add: length_show_padded date_isoformat_length del: date_isoformat.simps)
  note t = t_def isoformat.simps
  show "take 10 t = date_isoformat d" using l by (simp add: t)
  show "read_field 11 2 t = Some h"
    using read_field_padded [of "date_isoformat d @ ''T''" 11 h 2] b l by (simp add: t)
  show "read_field 14 2 t = Some mi"
    using read_field_padded [of "date_isoformat d @ ''T'' @ show_padded 2 h @ '':''" 14 mi 2] b l
    by (simp add: t)
  show "read_field 17 2 t = Some s"
    using read_field_padded [of "date_isoformat d @ ''T'' @ show_padded 2 h @ '':'' @ show_padded 2 mi @ '':''"
        17 s 2] b l by (simp add: t)
  show "t ! 10 = CHR ''T''" "t ! 13 = CHR '':''" "t ! 16 = CHR '':''"
    using l by (simp_all add: t nth_append)
  show "drop 19 t = (if us = 0 then [] else ''.'' @ show_padded 6 us) @ ''+00:00''"
    using l by (simp add: t)
qed

theorem iso_roundtrip:
  assumes "valid_datetime t"
  shows "fromisoformat (isoformat t) = Inr t"
proof (cases t)
  case (Datetime d h mi s us)
  note shape = isoformat_shape [OF assms [unfolded Datetime]]
  have date: "date_fromisoformat (date_isoformat d) = Inr d"
    using assms Datetime by (simp add: date_iso_roundtrip)
  show ?thesis
  proof (cases "us = 0")
    case True
    then show ?thesis
      using shape date assms by (simp add: Datetime fromisoformat_def del: isoformat.simps)
  next
    case False
    have us: "us < 10 ^ 6" and len6: "length (show_padded 6 us) = 6"
      using assms Datetime by (simp_all add: length_show_padded)
    define i where "i = isoformat t"
    have tail: "drop 19 i = ''.'' @ show_padded 6 us @ ''+00:00''"
      using shape(8) False by (simp add: i_def Datetime)
    have "length (drop 19 i) = 13" unfolding tail using len6 by simp
    then have len: "length i = 32" by simp
    define a where "a = take 19 i"
    have la: "length a = 19" using len by (simp add: a_def)
    have i: "i = a @ ''.'' @ show_padded 6 us @ ''+00:00''"
      unfolding tail [symmetric] a_def by simp
    have frac: "read_field 20 6 i = Some us"
      using read_field_padded [of "a @ ''.''" 20 us 6 "''+00:00''"] us la by (simp add: i)
    have "i ! 19 = CHR ''.''" "drop 26 i = ''+00:00''"
      by (simp_all add: i nth_append la len6)
    then show ?thesis
      using shape date assms frac len tail
      by (simp add: Datetime fromisoformat_def i_def del: isoformat.simps)
  qed
qed

end
