(* ===== verification/Documents.thy ===== *)
theory Documents
  imports Floats PyStrings Clock
begin

text \<open>
  The value types of the document and verification contexts:
  \<open>domain/documents/document_fact.py\<close>, \<open>domain/verification/contradiction.py\<close> and the
  records the ports hand around (\<open>application/ports\<close>).  Each enum comes with its stored value
  and the constructor of Python's \<open>StrEnum\<close> (a lookup by value that raises \<open>ValueError\<close>).
\<close>

datatype fact_type =
    APPLICANT_GIVEN_NAME | APPLICANT_FAMILY_NAME | DATE_OF_BIRTH | STREET_ADDRESS | CITY
  | SYNTHETIC_ID | EMPLOYER_NAME | GROSS_MONTHLY_INCOME | TENURE_MONTHS

fun fact_type_value :: "fact_type \<Rightarrow> string" where
  "fact_type_value APPLICANT_GIVEN_NAME = ''APPLICANT_GIVEN_NAME''"
| "fact_type_value APPLICANT_FAMILY_NAME = ''APPLICANT_FAMILY_NAME''"
| "fact_type_value DATE_OF_BIRTH = ''DATE_OF_BIRTH''"
| "fact_type_value STREET_ADDRESS = ''STREET_ADDRESS''"
| "fact_type_value CITY = ''CITY''"
| "fact_type_value SYNTHETIC_ID = ''SYNTHETIC_ID''"
| "fact_type_value EMPLOYER_NAME = ''EMPLOYER_NAME''"
| "fact_type_value GROSS_MONTHLY_INCOME = ''GROSS_MONTHLY_INCOME''"
| "fact_type_value TENURE_MONTHS = ''TENURE_MONTHS''"

definition all_fact_types :: "fact_type list" where
  "all_fact_types = [APPLICANT_GIVEN_NAME, APPLICANT_FAMILY_NAME, DATE_OF_BIRTH, STREET_ADDRESS,
     CITY, SYNTHETIC_ID, EMPLOYER_NAME, GROSS_MONTHLY_INCOME, TENURE_MONTHS]"

datatype document_classification = IDENTITY_DOCUMENT | INCOME_PROOF | UNKNOWN

fun classification_value :: "document_classification \<Rightarrow> string" where
  "classification_value IDENTITY_DOCUMENT = ''IDENTITY_DOCUMENT''"
| "classification_value INCOME_PROOF = ''INCOME_PROOF''"
| "classification_value UNKNOWN = ''UNKNOWN''"

datatype verification_verdict = MATCHED | CONTRADICTED | INSUFFICIENT_EVIDENCE

fun verdict_value :: "verification_verdict \<Rightarrow> string" where
  "verdict_value MATCHED = ''MATCHED''"
| "verdict_value CONTRADICTED = ''CONTRADICTED''"
| "verdict_value INSUFFICIENT_EVIDENCE = ''INSUFFICIENT_EVIDENCE''"

definition all_verdicts :: "verification_verdict list" where
  "all_verdicts = [MATCHED, CONTRADICTED, INSUFFICIENT_EVIDENCE]"

datatype source_system = MOCK_KYC | MOCK_EMPLOYER | MOCK_BUREAU | MOCK_CORE_BANKING

fun source_system_value :: "source_system \<Rightarrow> string" where
  "source_system_value MOCK_KYC = ''MOCK_KYC''"
| "source_system_value MOCK_EMPLOYER = ''MOCK_EMPLOYER''"
| "source_system_value MOCK_BUREAU = ''MOCK_BUREAU''"
| "source_system_value MOCK_CORE_BANKING = ''MOCK_CORE_BANKING''"

definition all_source_systems :: "source_system list" where
  "all_source_systems = [MOCK_KYC, MOCK_EMPLOYER, MOCK_BUREAU, MOCK_CORE_BANKING]"

text \<open>\<open>SomeEnum(value)\<close>.\<close>

definition enum_of_value :: "string \<Rightarrow> 'e list \<Rightarrow> ('e \<Rightarrow> string) \<Rightarrow> string \<Rightarrow> py_error + 'e" where
  "enum_of_value cls members value v =
     (case find (\<lambda>m. value m = v) members of
        None \<Rightarrow> Inl (ValueError (py_repr v @ '' is not a valid '' @ cls)) | Some m \<Rightarrow> Inr m)"

definition fact_type_of_value :: "string \<Rightarrow> py_error + fact_type" where
  "fact_type_of_value = enum_of_value ''FactType'' all_fact_types fact_type_value"

definition verdict_of_value :: "string \<Rightarrow> py_error + verification_verdict" where
  "verdict_of_value = enum_of_value ''VerificationVerdict'' all_verdicts verdict_value"

definition source_system_of_value :: "string \<Rightarrow> py_error + source_system" where
  "source_system_of_value = enum_of_value ''SourceSystem'' all_source_systems source_system_value"

subsection \<open>Facts and checks\<close>

record extracted_fact =
  fact_type_of :: fact_type
  fact_value :: string
  fact_normalized :: string
  fact_confidence :: rat
  fact_page :: int
  fact_method :: string
  fact_extractor :: string
  fact_checksum :: string

definition mk_ExtractedFact :: "extracted_fact \<Rightarrow> py_error + extracted_fact" where
  "mk_ExtractedFact f =
     (if \<not> (0 \<le> fact_confidence f \<and> fact_confidence f \<le> 1)
      then Inl (ValueError ''confidence must be in [0.0, 1.0]'')
      else if fact_page f < 1 then Inl (ValueError ''page must be at least 1'')
      else Inr f)"

record verification_check =
  chk_source :: source_system
  chk_fact_type :: string
  chk_declared :: "string option"
  chk_external :: "string option"
  chk_verdict :: verification_verdict
  chk_confidence :: rat
  chk_detail :: string

definition mk_VerificationCheck :: "verification_check \<Rightarrow> py_error + verification_check" where
  "mk_VerificationCheck c =
     (if \<not> (0 \<le> chk_confidence c \<and> chk_confidence c \<le> 1)
      then Inl (ValueError ''confidence must be in [0.0, 1.0]'') else Inr c)"

record uploaded_document =
  doc_id :: string
  doc_tenant :: string
  doc_application :: string
  doc_type :: string
  doc_object_key :: string
  doc_checksum :: string
  doc_size :: nat
  doc_uploaded_at :: datetime

record stored_fact =
  sf_fact_id :: string
  sf_document_id :: string
  sf_run_id :: string
  sf_fact :: extracted_fact

record review_queue_entry =
  rq_application :: string
  rq_tenant :: string
  rq_entered_at :: datetime
  rq_status :: string
  rq_decision :: "string option"
  rq_reason :: "string option"
  rq_reviewer :: "string option"
  rq_decided_at :: "datetime option"

record object_metadata =
  om_key :: string
  om_checksum :: string
  om_size_bytes :: nat
  om_content_type :: string
  om_version_id :: "string option"
  om_uploaded_at :: datetime

record page_text =
  pt_page :: int
  pt_text :: string

lemma enum_of_value_value:
  assumes "\<And>a b. value a = value b \<Longrightarrow> a = b" "m \<in> set members"
  shows "enum_of_value cls members value (value m) = Inr m"
proof -
  have "find (\<lambda>x. value x = value m) members = Some m"
    using assms(2)
  proof (induction members)
    case (Cons x xs)
    then show ?case using assms(1) [of x m] by auto
  qed simp
  then show ?thesis by (simp add: enum_of_value_def)
qed

lemma fact_type_roundtrip [simp]: "fact_type_of_value (fact_type_value t) = Inr t"
  by (cases t) (simp_all add: fact_type_of_value_def enum_of_value_def all_fact_types_def)

lemma verdict_roundtrip [simp]: "verdict_of_value (verdict_value v) = Inr v"
  by (cases v) (simp_all add: verdict_of_value_def enum_of_value_def all_verdicts_def)

lemma source_system_roundtrip [simp]: "source_system_of_value (source_system_value v) = Inr v"
  by (cases v) (simp_all add: source_system_of_value_def enum_of_value_def all_source_systems_def)

lemma mk_ExtractedFact_Inr [simp]:
  "mk_ExtractedFact f = Inr g \<longleftrightarrow> g = f \<and> 0 \<le> fact_confidence f \<and> fact_confidence f \<le> 1 \<and> 1 \<le> fact_page f"
  by (auto simp: mk_ExtractedFact_def)

lemma mk_VerificationCheck_Inr [simp]:
  "mk_VerificationCheck c = Inr d \<longleftrightarrow> d = c \<and> 0 \<le> chk_confidence c \<and> chk_confidence c \<le> 1"
  by (auto simp: mk_VerificationCheck_def)

end
