(* ===== verification/Decimals.thy ===== *)
theory Decimals
  imports Errors Complex_Main
begin

text \<open>
  The part of Python's \<open>decimal\<close> module that \<open>domain/shared/money.py\<close> computes with: values are
  sign, coefficient and exponent as in the module's own representation, the context is the default
  one (28 digits, half-even, \<open>InvalidOperation\<close> trapped).  Payloads of NaNs and the exponent
  limits of the context (beyond one million digits) are not represented.
\<close>

datatype decimal =
    Finite bool nat int
  | Infinite bool
  | Quiet_NaN
  | Signalling_NaN

definition decimal_precision :: nat where
  "decimal_precision = 28"

definition num_digits :: "nat \<Rightarrow> nat" where
  "num_digits c = length (show_nat c)"

text \<open>\<open>divide_half_even c k\<close> drops the last \<open>k\<close> digits of \<open>c\<close>, ties to the even quotient.\<close>

definition divide_half_even :: "nat \<Rightarrow> nat \<Rightarrow> nat" where
  "divide_half_even c k =
     (let d = 10 ^ k; q = c div d; r = c mod d
      in if 2 * r > d \<or> (2 * r = d \<and> odd q) then q + 1 else q)"

definition rescaled_coefficient :: "nat \<Rightarrow> int \<Rightarrow> int \<Rightarrow> nat" where
  "rescaled_coefficient c e target =
     (if target \<le> e then c * 10 ^ nat (e - target) else divide_half_even c (nat (target - e)))"

fun dec_quantize :: "decimal \<Rightarrow> int \<Rightarrow> py_error + decimal" where
  "dec_quantize (Finite neg c e) target =
     (let c' = rescaled_coefficient c e target
      in if c' < 10 ^ decimal_precision then Inr (Finite neg c' target) else Inl InvalidOperation)"
| "dec_quantize (Infinite _) _ = Inl InvalidOperation"
| "dec_quantize Quiet_NaN _ = Inr Quiet_NaN"
| "dec_quantize Signalling_NaN _ = Inl InvalidOperation"

text \<open>Rounding a finite result to the precision of the context (\<open>Decimal._fix\<close>).\<close>

definition dec_fix :: "bool \<Rightarrow> nat \<Rightarrow> int \<Rightarrow> decimal" where
  "dec_fix neg c e =
     (let extra = num_digits c - decimal_precision; c' = divide_half_even c extra
      in if num_digits c \<le> decimal_precision then Finite neg c e
         else if c' = 10 ^ decimal_precision
         then Finite neg (10 ^ (decimal_precision - 1)) (e + int extra + 1)
         else Finite neg c' (e + int extra))"

definition signed :: "bool \<Rightarrow> nat \<Rightarrow> int" where
  "signed neg c = (if neg then - int c else int c)"

fun dec_add :: "decimal \<Rightarrow> decimal \<Rightarrow> py_error + decimal" where
  "dec_add Signalling_NaN _ = Inl InvalidOperation"
| "dec_add _ Signalling_NaN = Inl InvalidOperation"
| "dec_add Quiet_NaN _ = Inr Quiet_NaN"
| "dec_add _ Quiet_NaN = Inr Quiet_NaN"
| "dec_add (Infinite a) (Infinite b) = (if a = b then Inr (Infinite a) else Inl InvalidOperation)"
| "dec_add (Infinite a) _ = Inr (Infinite a)"
| "dec_add _ (Infinite b) = Inr (Infinite b)"
| "dec_add (Finite s c e) (Finite t d f) =
     (let m = min e f;
          total = signed s (c * 10 ^ nat (e - m)) + signed t (d * 10 ^ nat (f - m));
          neg = (if total = 0 then s \<and> t else total < 0)
      in Inr (dec_fix neg (nat \<bar>total\<bar>) m))"

fun dec_negate :: "decimal \<Rightarrow> decimal" where
  "dec_negate (Finite s c e) = Finite (\<not> s) c e"
| "dec_negate (Infinite s) = Infinite (\<not> s)"
| "dec_negate x = x"

text \<open>\<open>a - b\<close> is \<open>a + (-b)\<close> with \<open>copy_negate\<close>, which keeps a signalling NaN signalling.\<close>

definition dec_sub :: "decimal \<Rightarrow> decimal \<Rightarrow> py_error + decimal" where
  "dec_sub x y = dec_add x (dec_negate y)"

text \<open>Ordering comparisons raise on NaN; equality raises only on a signalling one.\<close>

fun dec_key :: "decimal \<Rightarrow> decimal \<Rightarrow> (int \<times> int) option" where
  "dec_key (Finite s c e) (Finite t d f) =
     (let m = min e f in Some (signed s (c * 10 ^ nat (e - m)), signed t (d * 10 ^ nat (f - m))))"
| "dec_key (Infinite s) (Infinite t) = Some (if s then - 1 else 1, if t then - 1 else 1)"
| "dec_key (Infinite s) (Finite _ _ _) = Some (if s then - 1 else 1, 0)"
| "dec_key (Finite _ _ _) (Infinite t) = Some (0, if t then - 1 else 1)"
| "dec_key _ _ = None"

definition dec_less :: "decimal \<Rightarrow> decimal \<Rightarrow> py_error + bool" where
  "dec_less x y = (case dec_key x y of None \<Rightarrow> Inl InvalidOperation | Some (a, b) \<Rightarrow> Inr (a < b))"

definition dec_less_eq :: "decimal \<Rightarrow> decimal \<Rightarrow> py_error + bool" where
  "dec_less_eq x y = (case dec_key x y of None \<Rightarrow> Inl InvalidOperation | Some (a, b) \<Rightarrow> Inr (a \<le> b))"

definition dec_equal :: "decimal \<Rightarrow> decimal \<Rightarrow> py_error + bool" where
  "dec_equal x y =
     (if x = Signalling_NaN \<or> y = Signalling_NaN then Inl InvalidOperation
      else case dec_key x y of None \<Rightarrow> Inr False | Some (a, b) \<Rightarrow> Inr (a = b))"

text \<open>\<open>str(d)\<close>: plain notation when the exponent is not positive and the number is not tiny.\<close>

fun dec_str :: "decimal \<Rightarrow> string" where
  "dec_str (Finite neg c e) =
     (let digits = show_nat c; n = int (length digits); leftdigits = e + n;
          dotplace = (if e \<le> 0 \<and> - 6 < leftdigits then leftdigits else 1);
          body = (if dotplace \<le> 0 then ''0.'' @ replicate (nat (- dotplace)) (CHR ''0'') @ digits
                  else if n \<le> dotplace then digits @ replicate (nat (dotplace - n)) (CHR ''0'')
                  else take (nat dotplace) digits @ ''.'' @ drop (nat dotplace) digits);
          expo = (if leftdigits = dotplace then []
                  else ''E'' @ (if 0 \<le> leftdigits - dotplace then ''+'' else []) @ show_int (leftdigits - dotplace))
      in (if neg then ''-'' else []) @ body @ expo)"
| "dec_str (Infinite neg) = (if neg then ''-Infinity'' else ''Infinity'')"
| "dec_str Quiet_NaN = ''NaN''"
| "dec_str Signalling_NaN = ''sNaN''"

subsection \<open>Numeric meaning\<close>

fun dec_value :: "decimal \<Rightarrow> rat" where
  "dec_value (Finite neg c e) =
     of_int (signed neg c) * (if 0 \<le> e then 10 ^ nat e else 1 / 10 ^ nat (- e))"
| "dec_value _ = 0"

fun dec_is_finite :: "decimal \<Rightarrow> bool" where
  "dec_is_finite (Finite _ _ _) = True"
| "dec_is_finite _ = False"

text \<open>Half-even division is the nearest quotient, and even on a tie.\<close>

lemma divide_half_even_error:
  fixes c k :: nat
  defines "r \<equiv> c mod 10 ^ k"
  shows "2 * (int (divide_half_even c k) * 10 ^ k - int c)
    = (if 2 * r > 10 ^ k \<or> (2 * r = 10 ^ k \<and> odd (c div 10 ^ k)) then 2 * 10 ^ k - 2 * int r
       else - 2 * int r)"
proof -
  have "c = c div 10 ^ k * 10 ^ k + r" unfolding r_def by (rule div_mult_mod_eq [symmetric])
  then have c: "int c = int (c div 10 ^ k) * 10 ^ k + int r"
    by (metis of_nat_add of_nat_mult of_nat_numeral of_nat_power)
  show ?thesis
    by (subst c) (simp add: divide_half_even_def Let_def r_def [symmetric] algebra_simps)
qed

lemma mod_power_less: "int (c mod 10 ^ k) < 10 ^ k"
  by (metis mod_less_divisor of_nat_less_iff of_nat_numeral of_nat_power zero_less_numeral zero_less_power)

lemma half_way_iff:
  fixes r :: nat
  shows "2 * r > 10 ^ k \<longleftrightarrow> 2 * int r > 10 ^ k" "2 * r = 10 ^ k \<longleftrightarrow> 2 * int r = 10 ^ k"
  using of_nat_less_iff [where 'a = int, of "10 ^ k" "2 * r"]
    of_nat_eq_iff [where 'a = int, of "2 * r" "10 ^ k"] by simp_all

lemma divide_half_even_near:
  "\<bar>2 * (int (divide_half_even c k) * 10 ^ k - int c)\<bar> \<le> 10 ^ k"
proof -
  show ?thesis
    unfolding divide_half_even_error half_way_iff using mod_power_less [of c k] by auto
qed

lemma divide_half_even_tie:
  assumes "\<bar>2 * (int (divide_half_even c k) * 10 ^ k - int c)\<bar> = 10 ^ k"
  shows "even (divide_half_even c k)"
proof -
  from assms have "2 * (c mod 10 ^ k) = 10 ^ k"
    unfolding divide_half_even_error half_way_iff using mod_power_less [of c k]
    by (auto split: if_splits)
  then show ?thesis by (auto simp: divide_half_even_def Let_def)
qed

lemma divide_half_even_0 [simp]: "divide_half_even c 0 = c"
  by (simp add: divide_half_even_def)

lemma rescaled_coefficient_same [simp]: "rescaled_coefficient c e e = c"
  by (simp add: rescaled_coefficient_def)

lemma dec_quantize_same:
  "c < 10 ^ decimal_precision \<Longrightarrow> dec_quantize (Finite neg c e) e = Inr (Finite neg c e)"
  by (simp add: Let_def)

lemma dec_key_same_exponent [simp]:
  "dec_key (Finite s c e) (Finite t d e) = Some (signed s c, signed t d)"
  by (simp add: Let_def)

lemma less_power_num_digits: "n < 10 ^ num_digits n"
proof (induction n rule: show_nat.induct)
  case (1 n)
  show ?case
  proof (cases "n < 10")
    case True
    then show ?thesis by (simp add: num_digits_def show_nat.simps [of n])
  next
    case False
    with 1 have "n div 10 < 10 ^ num_digits (n div 10)" by simp
    then have "n < 10 ^ num_digits (n div 10) * 10" by (simp add: div_less_iff_less_mult)
    with False show ?thesis by (simp add: num_digits_def show_nat.simps [of n])
  qed
qed

lemma num_digits_le_iff:
  assumes "0 < k"
  shows "num_digits c \<le> k \<longleftrightarrow> c < 10 ^ k"
proof
  assume "num_digits c \<le> k"
  then have "(10 :: nat) ^ num_digits c \<le> 10 ^ k" by (simp add: power_increasing)
  with less_power_num_digits [of c] show "c < 10 ^ k" by linarith
next
  assume "c < 10 ^ k"
  with assms show "num_digits c \<le> k" by (simp add: num_digits_def length_show_nat_le)
qed

lemma dec_fix_small: "c < 10 ^ decimal_precision \<Longrightarrow> dec_fix neg c e = Finite neg c e"
  using num_digits_le_iff [of decimal_precision c]
  by (simp add: dec_fix_def Let_def decimal_precision_def)

text \<open>A sum of two \<open>28\<close>-digit coefficients that needs a 29th digit is rounded to a larger exponent.\<close>

lemma dec_fix_large:
  assumes "10 ^ decimal_precision \<le> c"
  obtains c' e' where "dec_fix neg c e = Finite neg c' e'" "e < e'" "10 ^ (decimal_precision - 1) \<le> c'"
proof -
  have big: "decimal_precision < num_digits c"
    using assms num_digits_le_iff [of decimal_precision c]
    by (metis decimal_precision_def leI not_le zero_less_numeral)
  define extra where "extra = num_digits c - decimal_precision"
  have extra: "0 < extra" "num_digits c = extra + decimal_precision"
    using big by (simp_all add: extra_def)
  have "\<not> c < 10 ^ (extra + decimal_precision - 1)"
    using num_digits_le_iff [of "extra + decimal_precision - 1" c] extra
    by (simp add: decimal_precision_def)
  then have "10 ^ (extra + (decimal_precision - 1)) \<le> c"
    by (simp add: decimal_precision_def add.commute)
  then have "10 ^ (decimal_precision - 1) \<le> c div 10 ^ extra"
    by (simp add: less_eq_div_iff_mult_less_eq power_add mult.commute)
  also have "c div 10 ^ extra \<le> divide_half_even c extra"
    by (simp add: divide_half_even_def Let_def)
  finally have low: "10 ^ (decimal_precision - 1) \<le> divide_half_even c extra" .
  show thesis
  proof (cases "divide_half_even c extra = 10 ^ decimal_precision")
    case True
    with big have "dec_fix neg c e = Finite neg (10 ^ (decimal_precision - 1)) (e + int extra + 1)"
      unfolding dec_fix_def Let_def extra_def by simp
    from that [OF this] show thesis by simp
  next
    case False
    with big have "dec_fix neg c e = Finite neg (divide_half_even c extra) (e + int extra)"
      unfolding dec_fix_def Let_def extra_def by simp
    from that [OF this] extra(1) low show thesis by simp
  qed
qed

end
