(* ===== verification/Money.thy ===== *)
theory Money
  imports Decimals
begin

text \<open>
  \<open>domain/shared/money.py\<close>: an amount in a supported currency, quantised at construction to two
  digits with round-half-even.  \<open>mk_Money\<close> is the dataclass constructor with its
  \<open>__post_init__\<close>; the operators raise on different currencies, and the result of an addition
  is constructed again, so a sum needing more than 28 digits raises instead of losing a cent.
\<close>

definition SUPPORTED_CURRENCIES :: "string list" where
  "SUPPORTED_CURRENCIES = [''EUR'', ''USD'']"

definition MINOR_UNIT_EXPONENTS :: "(string \<times> nat) list" where
  "MINOR_UNIT_EXPONENTS = [(''USD'', 2), (''EUR'', 2)]"

record money =
  amount :: decimal
  currency :: string

definition mk_Money :: "decimal \<Rightarrow> string \<Rightarrow> py_error + money" where
  "mk_Money amt cur =
     (if cur \<notin> set SUPPORTED_CURRENCIES then Inl (UnsupportedCurrencyError cur)
      else case map_of MINOR_UNIT_EXPONENTS cur of
        None \<Rightarrow> Inl (KeyError cur)
      | Some exponent \<Rightarrow>
          bind_result (dec_quantize amt (- int exponent)) (\<lambda>quantized.
            Inr \<lparr>amount = quantized, currency = cur\<rparr>))"

definition require_same_currency :: "money \<Rightarrow> money \<Rightarrow> py_error + unit" where
  "require_same_currency self other =
     (if currency self \<noteq> currency other
      then Inl (CurrencyMismatchError (currency self) (currency other)) else Inr ())"

definition money_add :: "money \<Rightarrow> money \<Rightarrow> py_error + money" where
  "money_add self other =
     bind_result (require_same_currency self other) (\<lambda>_.
     bind_result (dec_add (amount self) (amount other)) (\<lambda>total.
       mk_Money total (currency self)))"

definition money_sub :: "money \<Rightarrow> money \<Rightarrow> py_error + money" where
  "money_sub self other =
     bind_result (require_same_currency self other) (\<lambda>_.
     bind_result (dec_sub (amount self) (amount other)) (\<lambda>total.
       mk_Money total (currency self)))"

definition money_lt :: "money \<Rightarrow> money \<Rightarrow> py_error + bool" where
  "money_lt self other =
     bind_result (require_same_currency self other) (\<lambda>_. dec_less (amount self) (amount other))"

definition money_le :: "money \<Rightarrow> money \<Rightarrow> py_error + bool" where
  "money_le self other =
     bind_result (require_same_currency self other) (\<lambda>_. dec_less_eq (amount self) (amount other))"

definition money_gt :: "money \<Rightarrow> money \<Rightarrow> py_error + bool" where
  "money_gt self other =
     bind_result (require_same_currency self other) (\<lambda>_. dec_less (amount other) (amount self))"

definition money_ge :: "money \<Rightarrow> money \<Rightarrow> py_error + bool" where
  "money_ge self other =
     bind_result (require_same_currency self other) (\<lambda>_. dec_less_eq (amount other) (amount self))"

definition dec_zero :: decimal where
  "dec_zero = Finite False 0 0"

definition is_negative :: "money \<Rightarrow> py_error + bool" where
  "is_negative self = dec_less (amount self) dec_zero"

definition is_zero :: "money \<Rightarrow> py_error + bool" where
  "is_zero self = dec_equal (amount self) dec_zero"

subsection \<open>Well-formed amounts\<close>

text \<open>
  What a finite amount looks like after construction: at most 28 digits at exponent \<open>-2\<close>.
  \<open>cents\<close> reads it as a signed number of minor units.  A NaN passes the constructor, and then
  every ordering comparison raises.
\<close>

fun quantised :: "decimal \<Rightarrow> bool" where
  "quantised (Finite neg c e) \<longleftrightarrow> e = - 2 \<and> c < 10 ^ decimal_precision"
| "quantised Quiet_NaN \<longleftrightarrow> True"
| "quantised _ \<longleftrightarrow> False"

definition wf_money :: "money \<Rightarrow> bool" where
  "wf_money m \<longleftrightarrow> currency m \<in> set SUPPORTED_CURRENCIES \<and> quantised (amount m)"

definition proper_money :: "money \<Rightarrow> bool" where
  "proper_money m \<longleftrightarrow> wf_money m \<and> dec_is_finite (amount m)"

fun dec_cents :: "decimal \<Rightarrow> int" where
  "dec_cents (Finite neg c e) = signed neg c"
| "dec_cents _ = 0"

definition cents :: "money \<Rightarrow> int" where
  "cents m = dec_cents (amount m)"

lemma minor_unit [simp]:
  "cur \<in> set SUPPORTED_CURRENCIES \<Longrightarrow> map_of MINOR_UNIT_EXPONENTS cur = Some 2"
  by (auto simp: SUPPORTED_CURRENCIES_def MINOR_UNIT_EXPONENTS_def)

lemma mk_Money_supported:
  "cur \<in> set SUPPORTED_CURRENCIES \<Longrightarrow>
   mk_Money amt cur = bind_result (dec_quantize amt (- 2)) (\<lambda>q. Inr \<lparr>amount = q, currency = cur\<rparr>)"
  by (simp add: mk_Money_def)

lemma mk_Money_Inr:
  assumes "mk_Money amt cur = Inr m"
  shows "cur \<in> set SUPPORTED_CURRENCIES" "dec_quantize amt (- 2) = Inr (amount m)" "currency m = cur"
proof -
  show c: "cur \<in> set SUPPORTED_CURRENCIES"
    using assms by (auto simp: mk_Money_def split: if_splits)
  show "dec_quantize amt (- 2) = Inr (amount m)" "currency m = cur"
    using assms by (auto simp: mk_Money_supported [OF c] bind_result_Inr_iff)
qed

lemma quantised_quantize: "dec_quantize amt (- 2) = Inr q \<Longrightarrow> quantised q"
  by (cases amt) (auto simp: Let_def split: if_splits)

lemma wf_mk_Money: "mk_Money amt cur = Inr m \<Longrightarrow> wf_money m"
  using mk_Money_Inr [of amt cur m] quantised_quantize by (simp add: wf_money_def)

lemma proper_moneyE:
  assumes "proper_money m"
  obtains neg c where "amount m = Finite neg c (- 2)" "c < 10 ^ decimal_precision"
    "currency m \<in> set SUPPORTED_CURRENCIES" "cents m = signed neg c"
  using assms by (cases "amount m") (auto simp: proper_money_def wf_money_def cents_def)

lemma rescale_wider:
  assumes "- 2 < e" "10 ^ (decimal_precision - 1) \<le> c"
  shows "\<not> rescaled_coefficient c e (- 2) < 10 ^ decimal_precision"
proof -
  have "(10 :: nat) ^ decimal_precision = 10 ^ (decimal_precision - 1) * 10 ^ 1"
    by (simp add: decimal_precision_def)
  also have "\<dots> \<le> c * 10 ^ nat (e + 2)"
    using assms by (intro mult_mono power_increasing) auto
  finally show ?thesis using assms(1) by (simp add: rescaled_coefficient_def)
qed

text \<open>Quantising what the context rounded: exact, or an error when it took more than 28 digits.\<close>

lemma quantize_dec_fix:
  "dec_quantize (dec_fix neg c (- 2)) (- 2)
     = (if c < 10 ^ decimal_precision then Inr (Finite neg c (- 2)) else Inl InvalidOperation)"
proof (cases "c < 10 ^ decimal_precision")
  case True
  then show ?thesis by (simp add: dec_fix_small)
next
  case False
  then have "10 ^ decimal_precision \<le> c" by simp
  then obtain c' e' where "dec_fix neg c (- 2) = Finite neg c' e'" "- 2 < e'"
    "10 ^ (decimal_precision - 1) \<le> c'" by (rule dec_fix_large)
  with rescale_wider [of e' c'] False show ?thesis by (simp add: Let_def)
qed

lemma dec_add_cents:
  "dec_add (Finite s c (- 2)) (Finite t d (- 2))
     = Inr (dec_fix (if signed s c + signed t d = 0 then s \<and> t else signed s c + signed t d < 0)
         (nat \<bar>signed s c + signed t d\<bar>) (- 2))"
  by (simp add: Let_def)

lemma dec_sub_cents:
  "dec_sub (Finite s c (- 2)) (Finite t d (- 2)) = dec_add (Finite s c (- 2)) (Finite (\<not> t) d (- 2))"
  by (simp add: dec_sub_def)

lemma signed_not: "signed (\<not> t) d = - signed t d"
  by (simp add: signed_def)

lemma signed_abs: "signed (if t = 0 then b else t < 0) (nat \<bar>t\<bar>) = t"
  by (simp add: signed_def)

lemma nat_abs_less: "nat \<bar>t\<bar> < 10 ^ k \<longleftrightarrow> \<bar>t\<bar> < 10 ^ k"
  using nat_less_iff [of "\<bar>t\<bar>" "10 ^ k"] by simp

text \<open>The shared core of addition and subtraction: an exact number of cents or \<open>InvalidOperation\<close>.\<close>

lemma mk_Money_total:
  assumes "cur \<in> set SUPPORTED_CURRENCIES"
  shows "mk_Money (dec_fix (if t = 0 then b else t < 0) (nat \<bar>t\<bar>) (- 2)) cur
    = (if \<bar>t\<bar> < 10 ^ decimal_precision
       then Inr \<lparr>amount = Finite (if t = 0 then b else t < 0) (nat \<bar>t\<bar>) (- 2), currency = cur\<rparr>
       else Inl InvalidOperation)"
  using assms by (simp add: mk_Money_supported quantize_dec_fix nat_abs_less)

lemma proper_total:
  assumes "cur \<in> set SUPPORTED_CURRENCIES" "\<bar>t\<bar> < 10 ^ decimal_precision"
  shows "proper_money \<lparr>amount = Finite (if t = 0 then b else t < 0) (nat \<bar>t\<bar>) (- 2), currency = cur\<rparr>"
    and "cents \<lparr>amount = Finite (if t = 0 then b else t < 0) (nat \<bar>t\<bar>) (- 2), currency = cur\<rparr> = t"
  using assms by (simp_all add: proper_money_def wf_money_def cents_def signed_abs nat_abs_less)

lemma money_comparisons:
  assumes "proper_money a" "proper_money b" "currency a = currency b"
  shows "money_lt a b = Inr (cents a < cents b)" "money_le a b = Inr (cents a \<le> cents b)"
    "money_gt a b = Inr (cents b < cents a)" "money_ge a b = Inr (cents b \<le> cents a)"
  using assms
  by (auto elim!: proper_moneyE simp: money_lt_def money_le_def money_gt_def money_ge_def
      require_same_currency_def dec_less_def dec_less_eq_def)

lemma is_negative_proper:
  assumes "proper_money m"
  shows "is_negative m = Inr (cents m < 0)" "is_zero m = Inr (cents m = 0)"
  using assms
  by (auto elim!: proper_moneyE
      simp: is_negative_def is_zero_def dec_less_def dec_equal_def dec_zero_def signed_def Let_def)

lemma money_le_NaN:
  "amount a = Quiet_NaN \<Longrightarrow> currency a = currency b \<Longrightarrow> money_le a b = Inl InvalidOperation"
  by (simp add: money_le_def require_same_currency_def dec_less_eq_def)

subsection \<open>Properties\<close>

text \<open>How far quantisation moves a finite value, in halves of a cent.\<close>

lemma signed_diff: "\<bar>of_int (signed neg x) - of_int (signed neg y)\<bar> = (of_int \<bar>int x - int y\<bar> :: rat)"
  by (simp add: signed_def abs_if)

lemma abs_twice: "2 * \<bar>x :: int\<bar> = \<bar>2 * x\<bar>"
  by simp

lemma quantised_value:
  assumes "e < - 2"
  defines "k \<equiv> nat (- 2 - e)"
  shows "\<bar>of_int (signed neg (divide_half_even c k)) / 100 - dec_value (Finite neg c e)\<bar>
    = of_int \<bar>int (divide_half_even c k) * 10 ^ k - int c\<bar> / (100 * 10 ^ k)"
proof -
  have e: "nat (- e) = k + 2" and neg: "\<not> 0 \<le> e" using assms by (simp_all add: k_def)
  have v: "dec_value (Finite neg c e) = of_int (signed neg c) / (100 * 10 ^ k)"
    using neg by (simp add: e power_add)
  have q: "(of_int (signed neg (divide_half_even c k)) / 100 :: rat)
      = of_int (signed neg (divide_half_even c k * 10 ^ k)) / (100 * 10 ^ k)"
    by (simp add: signed_def)
  have "\<bar>of_int (signed neg (divide_half_even c k)) / 100 - dec_value (Finite neg c e)\<bar>
      = \<bar>of_int (signed neg (divide_half_even c k * 10 ^ k)) - of_int (signed neg c)\<bar> / (100 * 10 ^ k)"
    unfolding v q diff_divide_distrib [symmetric] abs_divide by simp
  then show ?thesis unfolding signed_diff by simp
qed

lemma exact_value:
  assumes "- 2 \<le> e"
  shows "of_int (signed neg (c * 10 ^ nat (e + 2))) / 100 = dec_value (Finite neg c e)"
proof (cases "0 \<le> e")
  case True
  then have "nat (e + 2) = nat e + 2" by simp
  with True show ?thesis by (simp add: signed_def power_add)
next
  case False
  with assms have "e = - 1 \<or> e = - 2" by auto
  then show ?thesis by (auto simp: signed_def power2_eq_square)
qed

text \<open>Constructing a \<open>Money\<close> from a finite decimal in a supported currency either raises
  (\<open>InvalidOperation\<close>, exactly when the rounded amount needs more than 28 digits) or yields the
  amount in whole cents nearest to the given one, at most half a cent away, and an even number of
  cents on a tie: banker's rounding.\<close>

theorem Money_rounds_half_even:
  assumes "cur \<in> set SUPPORTED_CURRENCIES"
  shows "case mk_Money (Finite neg c e) cur of
      Inl err \<Rightarrow> err = InvalidOperation \<and> 10 ^ 28 \<le> rescaled_coefficient c e (- 2)
    | Inr m \<Rightarrow> proper_money m \<and> currency m = cur
        \<and> \<bar>of_int (cents m) / 100 - dec_value (Finite neg c e)\<bar> \<le> 1 / 200
        \<and> (\<bar>of_int (cents m) / 100 - dec_value (Finite neg c e)\<bar> = 1 / 200 \<longrightarrow> even (cents m))"
proof (cases "rescaled_coefficient c e (- 2) < 10 ^ decimal_precision")
  case False
  with assms show ?thesis by (simp add: mk_Money_supported Let_def) (simp add: decimal_precision_def)
next
  case True
  define m where "m = \<lparr>amount = Finite neg (rescaled_coefficient c e (- 2)) (- 2), currency = cur\<rparr>"
  from True assms have run: "mk_Money (Finite neg c e) cur = Inr m"
    by (simp add: mk_Money_supported Let_def m_def)
  have proper: "proper_money m" "currency m = cur"
    using True assms by (simp_all add: m_def proper_money_def wf_money_def)
  have cents: "cents m = signed neg (rescaled_coefficient c e (- 2))"
    by (simp add: m_def cents_def)
  have "\<bar>of_int (cents m) / 100 - dec_value (Finite neg c e)\<bar> \<le> 1 / 200
      \<and> (\<bar>of_int (cents m) / 100 - dec_value (Finite neg c e)\<bar> = 1 / 200 \<longrightarrow> even (cents m))"
  proof (cases "- 2 \<le> e")
    case True
    then show ?thesis
      using exact_value [OF True, of neg c] by (simp add: cents rescaled_coefficient_def add.commute)
  next
    case False
    define k where "k = nat (- 2 - e)"
    have c: "cents m = signed neg (divide_half_even c k)"
      using False by (simp add: cents rescaled_coefficient_def k_def)
    have err: "\<bar>of_int (cents m) / 100 - dec_value (Finite neg c e)\<bar>
      = of_int \<bar>int (divide_half_even c k) * 10 ^ k - int c\<bar> / (100 * 10 ^ k)"
      using quantised_value [of e neg c] False unfolding c k_def by simp
    have near: "of_int (2 * \<bar>int (divide_half_even c k) * 10 ^ k - int c\<bar>) \<le> (of_int (10 ^ k) :: rat)"
      unfolding of_int_le_iff abs_twice by (rule divide_half_even_near)
    have tie: "of_int (2 * \<bar>int (divide_half_even c k) * 10 ^ k - int c\<bar>) = (of_int (10 ^ k) :: rat)
        \<Longrightarrow> even (divide_half_even c k)"
      unfolding of_int_eq_iff abs_twice by (rule divide_half_even_tie)
    show ?thesis
      unfolding err using near tie by (auto simp: c signed_def field_simps)
  qed
  with run proper show ?thesis by simp
qed

theorem Money_rounds_half_even_witness:
  "mk_Money (Finite True 12345 (- 3)) ''USD''
     = Inr \<lparr>amount = Finite True 1234 (- 2), currency = ''USD''\<rparr> \<and>
   \<bar>of_int (cents \<lparr>amount = Finite True 1234 (- 2), currency = ''USD''\<rparr>) / 100
      - dec_value (Finite True 12345 (- 3))\<bar> \<le> 1 / 200"
proof
  show run: "mk_Money (Finite True 12345 (- 3)) ''USD''
     = Inr \<lparr>amount = Finite True 1234 (- 2), currency = ''USD''\<rparr>"
    by (simp add: mk_Money_def SUPPORTED_CURRENCIES_def MINOR_UNIT_EXPONENTS_def Let_def
        rescaled_coefficient_def divide_half_even_def decimal_precision_def)
  show "\<bar>of_int (cents \<lparr>amount = Finite True 1234 (- 2), currency = ''USD''\<rparr>) / 100
      - dec_value (Finite True 12345 (- 3))\<bar> \<le> 1 / 200"
    using Money_rounds_half_even [where cur = "''USD''" and neg = True and c = 12345 and e = "- 3"]
    unfolding run by (simp add: SUPPORTED_CURRENCIES_def)
qed

text \<open>Adding or subtracting two finite amounts of one currency is exact to the cent, or raises
  \<open>InvalidOperation\<close> when the total needs more than 28 digits: no cent is ever lost to the
  context precision.\<close>

theorem Money_arithmetic_exact_or_raises:
  assumes "proper_money a" "proper_money b" "currency a = currency b"
  shows "(if \<bar>cents a + cents b\<bar> < 10 ^ 28
          then \<exists>m. money_add a b = Inr m \<and> proper_money m \<and> currency m = currency a
             \<and> cents m = cents a + cents b
          else money_add a b = Inl InvalidOperation) \<and>
         (if \<bar>cents a - cents b\<bar> < 10 ^ 28
          then \<exists>m. money_sub a b = Inr m \<and> proper_money m \<and> currency m = currency a
             \<and> cents m = cents a - cents b
          else money_sub a b = Inl InvalidOperation)"
proof -
  obtain s c where a: "amount a = Finite s c (- 2)" "currency a \<in> set SUPPORTED_CURRENCIES"
    "cents a = signed s c" using assms(1) by (rule proper_moneyE)
  obtain t d where b: "amount b = Finite t d (- 2)" "cents b = signed t d"
    using assms(2) by (rule proper_moneyE)
  have same: "require_same_currency a b = Inr ()" using assms(3) by (simp add: require_same_currency_def)
  have add: "money_add a b = mk_Money (dec_fix (if cents a + cents b = 0 then s \<and> t
      else cents a + cents b < 0) (nat \<bar>cents a + cents b\<bar>) (- 2)) (currency a)"
    unfolding money_add_def same a(1) b(1) dec_add_cents bind_result_simps a(3) b(2) ..
  have diff: "cents a - cents b = signed s c + signed (\<not> t) d"
    by (simp add: a(3) b(2) signed_not)
  have sub: "money_sub a b = mk_Money (dec_fix (if cents a - cents b = 0 then s \<and> \<not> t
      else cents a - cents b < 0) (nat \<bar>cents a - cents b\<bar>) (- 2)) (currency a)"
    unfolding money_sub_def same a(1) b(1) dec_sub_cents dec_add_cents bind_result_simps diff ..
  show ?thesis
    unfolding add sub mk_Money_total [OF a(2)]
    using proper_total [OF a(2), of "cents a + cents b" "s \<and> t"]
      proper_total [OF a(2), of "cents a - cents b" "s \<and> \<not> t"]
    by (simp add: decimal_precision_def)
qed

theorem Money_arithmetic_exact_or_raises_witness:
  "\<exists>m. money_add \<lparr>amount = Finite False 100 (- 2), currency = ''USD''\<rparr>
     \<lparr>amount = Finite True 1 (- 2), currency = ''USD''\<rparr> = Inr m \<and> cents m = 99"
  using Money_arithmetic_exact_or_raises [of "\<lparr>amount = Finite False 100 (- 2), currency = ''USD''\<rparr>"
      "\<lparr>amount = Finite True 1 (- 2), currency = ''USD''\<rparr>"]
  by (auto simp: proper_money_def wf_money_def SUPPORTED_CURRENCIES_def decimal_precision_def
      cents_def signed_def)

end
