(* ===== verification/Identifiers.thy ===== *)
theory Identifiers
  imports PyStrings
begin

text \<open>
  \<open>domain/shared/identifiers.py\<close> and \<open>application/ports/id_generator.py\<close>.  An identifier is a
  string that \<open>uuid.UUID\<close> accepts; it is kept as given, not in canonical form.  \<open>valid_uuid\<close>
  follows the library's own parser: drop \<open>urn:\<close> and \<open>uuid:\<close>, strip braces, drop dashes, then 32
  characters that \<open>int(_, 16)\<close> reads.
\<close>

datatype id_class = TenantId | ApplicantId | ApplicationId | ProductId

fun id_class_name :: "id_class \<Rightarrow> string" where
  "id_class_name TenantId = ''TenantId''"
| "id_class_name ApplicantId = ''ApplicantId''"
| "id_class_name ApplicationId = ''ApplicationId''"
| "id_class_name ProductId = ''ProductId''"

subsection \<open>\<open>int(s, 16)\<close>\<close>

definition hex_val :: "char \<Rightarrow> nat option" where
  "hex_val c = (let n = char_code c in
     if 48 \<le> n \<and> n \<le> 57 then Some (n - 48)
     else if 97 \<le> n \<and> n \<le> 102 then Some (n - 87)
     else if 65 \<le> n \<and> n \<le> 70 then Some (n - 55)
     else None)"

text \<open>Digits, with single underscores between two of them.\<close>

fun hex_body :: "string \<Rightarrow> nat \<Rightarrow> nat option" where
  "hex_body [] acc = None"
| "hex_body [c] acc = (case hex_val c of None \<Rightarrow> None | Some d \<Rightarrow> Some (16 * acc + d))"
| "hex_body (c # u # cs) acc =
     (case hex_val c of None \<Rightarrow> None
      | Some d \<Rightarrow> if u = CHR ''_'' then hex_body cs (16 * acc + d)
                 else hex_body (u # cs) (16 * acc + d))"

text \<open>White space around the number: of a pure ASCII string only the C set counts.\<close>

definition int_space :: "string \<Rightarrow> char \<Rightarrow> bool" where
  "int_space s c \<longleftrightarrow>
     (if \<forall>x \<in> set s. char_code x < 128 then char_code c \<in> {9, 10, 11, 12, 13, 32} else is_space c)"

definition strip_sign :: "string \<Rightarrow> int \<times> string" where
  "strip_sign s =
     (case s of c # t \<Rightarrow> if c = CHR ''-'' then (- 1, t) else if c = CHR ''+'' then (1, t) else (1, s)
      | [] \<Rightarrow> (1, s))"

definition strip_0x :: "string \<Rightarrow> string" where
  "strip_0x s =
     (case s of a # b # t \<Rightarrow>
        if a = CHR ''0'' \<and> b \<in> set ''xX''
        then (case t of u # t' \<Rightarrow> if u = CHR ''_'' then t' else t | [] \<Rightarrow> t)
        else s
      | _ \<Rightarrow> s)"

definition int_base16 :: "string \<Rightarrow> int option" where
  "int_base16 s =
     (let (sign, body) = strip_sign (strip_by (int_space s) s)
      in map_option (\<lambda>n. sign * int n) (hex_body (strip_0x body) 0))"

subsection \<open>\<open>uuid.UUID\<close> and the identifier classes\<close>

definition uuid_hex :: "string \<Rightarrow> string" where
  "uuid_hex s =
     filter (\<lambda>c. c \<noteq> CHR ''-'')
       (str_strip_chars ''{}'' (str_replace ''uuid:'' [] (str_replace ''urn:'' [] s)))"

definition valid_uuid :: "string \<Rightarrow> bool" where
  "valid_uuid s \<longleftrightarrow> length (uuid_hex s) = 32 \<and>
     (case int_base16 (uuid_hex s) of None \<Rightarrow> False | Some v \<Rightarrow> 0 \<le> v \<and> v < 2 ^ 128)"

definition mk_id :: "id_class \<Rightarrow> string \<Rightarrow> py_error + string" where
  "mk_id cls v =
     (if valid_uuid v then Inr v
      else Inl (ValueError (id_class_name cls @ '' value '' @ py_repr v @ '' is not a valid UUID'')))"

lemma mk_id_Inr_iff [simp]: "mk_id cls v = Inr w \<longleftrightarrow> w = v \<and> valid_uuid v"
  by (auto simp: mk_id_def)

lemma mk_id_valid [simp]: "valid_uuid v \<Longrightarrow> mk_id cls v = Inr v"
  by simp

subsection \<open>Generators\<close>

text \<open>\<open>str(UUID(int=n))\<close>: 32 lower-case hex digits in groups of 8, 4, 4, 4 and 12.\<close>

fun hex_digits :: "nat \<Rightarrow> nat \<Rightarrow> string" where
  "hex_digits 0 n = []"
| "hex_digits (Suc k) n = hex_digits k (n div 16) @ [hex_digit (n mod 16)]"

definition format_uuid :: "nat \<Rightarrow> string" where
  "format_uuid n =
     hex_digits 8 (n div 16 ^ 24) @ ''-'' @ hex_digits 4 (n div 16 ^ 20) @ ''-''
       @ hex_digits 4 (n div 16 ^ 16) @ ''-'' @ hex_digits 4 (n div 16 ^ 12) @ ''-''
       @ hex_digits 12 n"

text \<open>
  \<open>uuid.uuid4()\<close>: 128 random bits with the version nibble (bits 76--79) set to 4 and the variant
  bits (62--63) to \<open>10\<close>.  The random source is the argument.
\<close>

definition uuid4_int :: "nat \<Rightarrow> nat" where
  "uuid4_int r =
     (r mod 2 ^ 62) + 2 ^ 63 + (r div 2 ^ 64 mod 2 ^ 12) * 2 ^ 64 + 4 * 2 ^ 76
       + (r div 2 ^ 80 mod 2 ^ 48) * 2 ^ 80"

definition new_id :: "nat \<Rightarrow> string" where
  "new_id random_bits = format_uuid (uuid4_int random_bits)"

record sequential_ids =
  prefix :: string
  counter :: nat

definition mk_SequentialIdGenerator :: "string \<Rightarrow> sequential_ids" where
  "mk_SequentialIdGenerator seed_uuid =
     (case str_rpartition CHR ''-'' seed_uuid of (p, _, _) \<Rightarrow> \<lparr>prefix = p, counter = 0\<rparr>)"

definition sequential_new_id :: "sequential_ids \<Rightarrow> string \<times> sequential_ids" where
  "sequential_new_id self =
     (let n = counter self + 1
      in (prefix self @ ''-'' @ show_padded 12 n, self\<lparr>counter := n\<rparr>))"

definition default_seed_uuid :: string where
  "default_seed_uuid = ''00000000-0000-4000-8000-000000000000''"

subsection \<open>Lemmas\<close>

definition is_hex :: "char \<Rightarrow> bool" where
  "is_hex c \<longleftrightarrow> hex_val c \<noteq> None"

lemma hex_val_less: "hex_val c = Some d \<Longrightarrow> d < 16"
  by (auto simp: hex_val_def Let_def split: if_splits)

lemma is_hexE: "is_hex c \<Longrightarrow> (\<And>d. hex_val c = Some d \<Longrightarrow> d < 16 \<Longrightarrow> thesis) \<Longrightarrow> thesis"
  by (auto simp: is_hex_def dest: hex_val_less)

lemma not_hex:
  "\<not> is_hex CHR ''-''" "\<not> is_hex CHR ''+''" "\<not> is_hex CHR ''_''" "\<not> is_hex CHR ''x''"
  "\<not> is_hex CHR ''X''" "\<not> is_hex CHR ''u''" "\<not> is_hex CHR 0x7B" "\<not> is_hex CHR 0x7D"
  by (simp_all add: is_hex_def hex_val_def char_code_def)

lemma hex_not_space: "is_hex c \<Longrightarrow> \<not> int_space s c"
  by (auto simp: is_hex_def hex_val_def int_space_def is_space_def Let_def split: if_splits)

lemma less_16_cases:
  "d < (16::nat) \<Longrightarrow> d \<in> {0, 1, 2, 3, 4, 5, 6, 7, 8, 9, 10, 11, 12, 13, 14, 15}"
  by (simp, presburger)

lemma is_hex_hex_digit: "d < 16 \<Longrightarrow> is_hex (hex_digit d)"
  by (drule less_16_cases) (auto simp: hex_digit_def is_hex_def hex_val_def char_code_def)

lemma is_hex_digit: "is_digit c \<Longrightarrow> is_hex c"
  by (auto simp: is_digit_def is_hex_def hex_val_def char_code_def)

lemma hex_digits_chars: "\<forall>c \<in> set (hex_digits k n). is_hex c"
  by (induction k arbitrary: n) (auto simp: is_hex_hex_digit)

lemma length_hex_digits [simp]: "length (hex_digits k n) = k"
  by (induction k arbitrary: n) auto

lemma hex_body_hex:
  "s \<noteq> [] \<Longrightarrow> \<forall>c \<in> set s. is_hex c \<Longrightarrow>
   \<exists>v. hex_body s acc = Some v \<and> v < (acc + 1) * 16 ^ length s"
proof (induction s acc rule: hex_body.induct)
  case (1 acc)
  then show ?case by simp
next
  case (2 c acc)
  then show ?case by (auto elim!: is_hexE)
next
  case (3 c u cs acc)
  from 3(4) obtain d where d: "hex_val c = Some d" "d < 16" by (auto elim!: is_hexE)
  have u: "u \<noteq> CHR ''_''" using 3(4) not_hex by auto
  have "\<forall>c \<in> set (u # cs). is_hex c" using 3(4) by simp
  with 3(2) [OF d(1) u] obtain v where v: "hex_body (u # cs) (16 * acc + d) = Some v"
    "v < (16 * acc + d + 1) * 16 ^ length (u # cs)" by blast
  have "(16 * acc + d + 1) * 16 ^ length (u # cs) \<le> (acc + 1) * 16 * 16 ^ length (u # cs)"
    using d(2) by (intro mult_right_mono) auto
  also have "\<dots> = (acc + 1) * 16 ^ length (c # u # cs)" by (simp add: algebra_simps)
  finally show ?case using v d u by simp
qed

text \<open>Thirty-two hex digits with dashes anywhere are a UUID.\<close>

lemma valid_uuid_hex:
  assumes "\<forall>c \<in> set s. is_hex c \<or> c = CHR ''-''" "length (filter (\<lambda>c. c \<noteq> CHR ''-'') s) = 32"
  shows "valid_uuid s"
proof -
  define h where "h = filter (\<lambda>c. c \<noteq> CHR ''-'') s"
  have h: "\<forall>c \<in> set h. is_hex c" "length h = 32"
    using assms by (auto simp: h_def)
  have nou: "CHR ''u'' \<notin> set s" using assms(1) not_hex(6) by force
  have nobrace: "c \<notin> set [CHR 0x7B, CHR 0x7D]" if "c \<in> set s" for c
    using assms(1) not_hex(7,8) that by force
  have "str_strip_chars [CHR 0x7B, CHR 0x7D] s = s"
    unfolding str_strip_chars_def by (rule strip_by_none) (rule nobrace)
  then have hex: "uuid_hex s = h"
    by (simp add: uuid_hex_def str_replace_absent [OF nou] h_def)
  obtain a b t where abt: "h = a # b # t"
    using h(2) by (cases h; cases "tl h") auto
  have ab: "is_hex a" "is_hex b" using h(1) abt by auto
  have "strip_sign h = (1, h)" "strip_0x h = h"
    using ab not_hex by (auto simp: abt strip_sign_def strip_0x_def)
  moreover have "strip_by (int_space h) h = h"
    using h(1) hex_not_space by (intro strip_by_none) auto
  moreover have "h \<noteq> []" by (simp add: abt)
  then obtain v where "hex_body h 0 = Some v" "v < (0 + 1) * 16 ^ length h"
    using hex_body_hex [of h 0] h(1) by blast
  ultimately have "int_base16 h = Some (int v)" "v < 2 ^ 128"
    by (simp_all add: int_base16_def h(2))
  then show ?thesis by (simp add: valid_uuid_def hex h(2))
qed

lemma filter_hex_digits [simp]: "filter (\<lambda>c. c \<noteq> CHR ''-'') (hex_digits k n) = hex_digits k n"
  using hex_digits_chars [of k n] not_hex(1) by (intro filter_True) auto

lemma valid_format_uuid: "valid_uuid (format_uuid n)"
proof (rule valid_uuid_hex)
  show "\<forall>c \<in> set (format_uuid n). is_hex c \<or> c = CHR ''-''"
    unfolding format_uuid_def set_append using hex_digits_chars by auto
  show "length (filter (\<lambda>c. c \<noteq> CHR ''-'') (format_uuid n)) = 32"
    by (simp add: format_uuid_def)
qed

lemma valid_new_id: "valid_uuid (new_id r)"
  by (simp add: new_id_def valid_format_uuid)

text \<open>The generated identifiers of small random numbers are pairwise different: their last twelve
  digits are.\<close>

lemma hex_digit_inject: "a < 16 \<Longrightarrow> b < 16 \<Longrightarrow> hex_digit a = hex_digit b \<longleftrightarrow> a = b"
  by (drule less_16_cases, drule less_16_cases) (auto simp: hex_digit_def)

lemma hex_digits_inject: "hex_digits k a = hex_digits k b \<longleftrightarrow> a mod 16 ^ k = b mod 16 ^ k"
proof (induction k arbitrary: a b)
  case (Suc k)
  have split: "n mod 16 ^ Suc k = 16 * (n div 16 mod 16 ^ k) + n mod 16" for n :: nat
    using mod_mult2_eq [of n 16 "16 ^ k"] by simp
  have parts: "16 * x + y = 16 * x' + y' \<longleftrightarrow> x = x' \<and> y = y'" if "y < 16" "y' < 16" for x x' y y' :: nat
  proof
    assume e: "16 * x + y = 16 * x' + y'"
    then have "(16 * x + y) mod 16 = (16 * x' + y') mod 16" by simp
    then have "y = y'" using that by simp
    with e show "x = x' \<and> y = y'" by simp
  qed simp
  show ?case
    by (simp add: Suc.IH hex_digit_inject split parts del: power_Suc)
qed simp

lemma new_id_inject:
  assumes "m < 2 ^ 48" "n < 2 ^ 48"
  shows "new_id m = new_id n \<longleftrightarrow> m = n"
proof
  assume eq: "new_id m = new_id n"
  have "hex_digits 12 (uuid4_int k) = drop 24 (new_id k)" for k
    by (simp add: new_id_def format_uuid_def)
  with eq have "hex_digits 12 (uuid4_int m) = hex_digits 12 (uuid4_int n)" by metis
  then have "uuid4_int m mod 16 ^ 12 = uuid4_int n mod 16 ^ 12" by (rule hex_digits_inject [THEN iffD1])
  moreover have "uuid4_int k mod 16 ^ 12 = k" if "k < 2 ^ 48" for k
  proof -
    have "uuid4_int k = k + 16 ^ 12 * (2 ^ 15 + 2 ^ 30)" using that by (simp add: uuid4_int_def)
    with that show ?thesis by (simp only: mod_mult_self2) simp
  qed
  ultimately show "m = n" using assms by simp
qed simp

lemma default_prefix:
  "prefix (mk_SequentialIdGenerator default_seed_uuid) = ''00000000-0000-4000-8000''"
  by (simp add: mk_SequentialIdGenerator_def default_seed_uuid_def str_rpartition_def)

lemma sequential_new_id_valid:
  assumes "prefix g = ''00000000-0000-4000-8000''" "counter g + 1 < 10 ^ 12"
  shows "valid_uuid (fst (sequential_new_id g))"
proof (rule valid_uuid_hex)
  have d: "\<forall>c \<in> set (show_padded 12 (Suc (counter g))). is_hex c"
    using show_padded_digits is_hex_digit by blast
  have p: "\<forall>c \<in> set ''00000000-0000-4000-8000''. is_hex c \<or> c = CHR ''-''"
    by (simp add: is_hex_def hex_val_def char_code_def)
  show "\<forall>c \<in> set (fst (sequential_new_id g)). is_hex c \<or> c = CHR ''-''"
    unfolding sequential_new_id_def Let_def fst_conv set_append assms(1) using d p by auto
  have "filter (\<lambda>c. c \<noteq> CHR ''-'') (show_padded 12 (Suc (counter g))) = show_padded 12 (Suc (counter g))"
    using d not_hex(1) by (intro filter_True) auto
  then show "length (filter (\<lambda>c. c \<noteq> CHR ''-'') (fst (sequential_new_id g))) = 32"
    using assms length_show_padded [of "Suc (counter g)" 12]
    by (simp add: sequential_new_id_def Let_def)
qed

end
