(* ===== verification/Catalog.thy ===== *)
theory Catalog
  imports Money Identifiers Clock
begin

text \<open>
  \<open>domain/applications/product.py\<close> and \<open>applicant.py\<close>: the two entities an application refers
  to.  \<open>mk_Product\<close> and \<open>mk_Applicant\<close> are the constructors with their \<open>__post_init__\<close> checks in
  the order the code has them.
\<close>

record product =
  prod_id :: string
  prod_code :: string
  prod_name :: string
  prod_currency :: string
  prod_min_amount :: money
  prod_max_amount :: money
  prod_min_term :: int
  prod_max_term :: int
  prod_is_active :: bool

definition mk_Product :: "product \<Rightarrow> py_error + product" where
  "mk_Product p =
     (if currency (prod_min_amount p) \<noteq> prod_currency p \<or> currency (prod_max_amount p) \<noteq> prod_currency p
      then Inl (ValueError ''product amount bounds must be denominated in the product's currency'')
      else bind_result (money_gt (prod_min_amount p) (prod_max_amount p)) (\<lambda>above.
        if above then Inl (ValueError ''product min_amount must not exceed max_amount'')
        else if prod_min_term p < 1
        then Inl (ValueError ''product min_term_months must be at least 1'')
        else if prod_min_term p > prod_max_term p
        then Inl (ValueError ''product min_term_months must not exceed max_term_months'')
        else Inr p))"

text \<open>\<open>Product.accepts\<close>: the chained comparison stops at the first bound that fails.\<close>

definition accepts :: "product \<Rightarrow> money \<Rightarrow> int \<Rightarrow> py_error + bool" where
  "accepts self amt term_months =
     (if \<not> prod_is_active self then Inr False
      else if currency amt \<noteq> prod_currency self then Inr False
      else bind_result (money_le (prod_min_amount self) amt) (\<lambda>low.
        if \<not> low then Inr False
        else bind_result (money_le amt (prod_max_amount self)) (\<lambda>high.
          Inr (high \<and> prod_min_term self \<le> term_months \<and> term_months \<le> prod_max_term self))))"

record applicant =
  apl_id :: string
  apl_tenant :: string
  apl_given_name :: string
  apl_family_name :: string
  apl_date_of_birth :: date
  apl_email :: string

definition mk_Applicant :: "applicant \<Rightarrow> py_error + applicant" where
  "mk_Applicant a =
     (if str_strip (apl_given_name a) = []
      then Inl (ValueError ''applicant given_name must not be blank'')
      else if str_strip (apl_family_name a) = []
      then Inl (ValueError ''applicant family_name must not be blank'')
      else if \<not> str_contains ''@'' (apl_email a)
      then Inl (ValueError (''applicant email '' @ py_repr (apl_email a) @ '' is not a valid address''))
      else Inr a)"

text \<open>What a product that passed its constructor, with finite bounds, guarantees.\<close>

definition wf_product :: "product \<Rightarrow> bool" where
  "wf_product p \<longleftrightarrow> proper_money (prod_min_amount p) \<and> proper_money (prod_max_amount p) \<and>
     currency (prod_min_amount p) = prod_currency p \<and> currency (prod_max_amount p) = prod_currency p \<and>
     cents (prod_min_amount p) \<le> cents (prod_max_amount p) \<and>
     1 \<le> prod_min_term p \<and> prod_min_term p \<le> prod_max_term p"

lemma mk_Product_Inr [simp]: "mk_Product p = Inr q \<Longrightarrow> q = p"
  by (auto simp: mk_Product_def bind_result_Inr_iff split: if_splits)

lemma wf_mk_Product:
  assumes "proper_money (prod_min_amount p)" "proper_money (prod_max_amount p)" "mk_Product p = Inr q"
  shows "wf_product q"
  using assms mk_Product_Inr [OF assms(3)]
  by (auto simp: mk_Product_def wf_product_def money_comparisons split: if_splits)

text \<open>The seeded demo product of the initial migration.\<close>

definition demo_product :: product where
  "demo_product =
     \<lparr>prod_id = ''00000000-0000-4000-8000-000000000002'', prod_code = ''PERSONAL_LOAN_USD'',
      prod_name = ''Unsecured Personal Loan (USD)'', prod_currency = ''USD'',
      prod_min_amount = \<lparr>amount = Finite False 100000 (- 2), currency = ''USD''\<rparr>,
      prod_max_amount = \<lparr>amount = Finite False 2500000 (- 2), currency = ''USD''\<rparr>,
      prod_min_term = 6, prod_max_term = 60, prod_is_active = True\<rparr>"

lemma wf_demo_product: "wf_product demo_product"
  by (simp add: demo_product_def wf_product_def proper_money_def wf_money_def cents_def signed_def
      SUPPORTED_CURRENCIES_def decimal_precision_def)

subsection \<open>Properties\<close>

text \<open>The catalogue check of a well-formed product and a finite amount never raises, and accepts
  exactly the requests of an active product in its currency, with the amount between its bounds
  to the cent and the term between its bounds, all inclusive.\<close>

theorem product_accepts_exact:
  assumes "wf_product p" "proper_money amt"
  shows "accepts p amt term_months = Inr (prod_is_active p \<and> currency amt = prod_currency p
    \<and> cents (prod_min_amount p) \<le> cents amt \<and> cents amt \<le> cents (prod_max_amount p)
    \<and> prod_min_term p \<le> term_months \<and> term_months \<le> prod_max_term p)"
  using assms by (simp add: accepts_def wf_product_def money_comparisons)

theorem product_accepts_exact_witness:
  "accepts demo_product \<lparr>amount = Finite False 2500000 (- 2), currency = ''USD''\<rparr> 6 = Inr True \<and>
   accepts demo_product \<lparr>amount = Finite False 2500001 (- 2), currency = ''USD''\<rparr> 6 = Inr False"
proof -
  have proper: "proper_money \<lparr>amount = Finite False c (- 2), currency = ''USD''\<rparr>" if "c < 10 ^ 28" for c
    using that by (simp add: proper_money_def wf_money_def SUPPORTED_CURRENCIES_def decimal_precision_def)
  show ?thesis
    by (simp add: product_accepts_exact [OF wf_demo_product proper])
      (simp add: demo_product_def cents_def signed_def)
qed

end
