(* ===== verification/Application.thy ===== *)
theory Application
  imports Catalog
begin

text \<open>
  The aggregate root: \<open>domain/applications/application.py\<close> with the events of \<open>events.py\<close>.
  Methods that mutate \<open>self\<close> return the updated record.  \<open>transition_to\<close> reads the clock once,
  after its guard; the reading is its argument \<open>now\<close>.
\<close>

datatype domain_event =
    ApplicationCreated (ev_application_id: string) (ev_tenant_id: string) (ev_occurred_at: datetime)
      (ev_product_id: string)
  | ApplicationStateChanged (ev_application_id: string) (ev_tenant_id: string)
      (ev_occurred_at: datetime) (ev_previous_status: application_status)
      (ev_new_status: application_status) (ev_reason: string) (ev_version: int)
  | DocumentUploaded (ev_application_id: string) (ev_tenant_id: string) (ev_occurred_at: datetime)
      (ev_document_id: string) (ev_document_type: string) (ev_object_key: string)

record application =
  app_id :: string
  app_tenant :: string
  app_applicant :: string
  app_product :: string
  app_amount :: money
  app_term :: int
  app_status :: application_status
  app_version :: int
  app_created_at :: datetime
  app_updated_at :: datetime
  app_workflow :: "string option"
  app_pending :: "domain_event list"

text \<open>The two guards of \<open>Application.create\<close>; \<open>or\<close> evaluates the second test only when needed.\<close>

definition create_guards :: "money \<Rightarrow> int \<Rightarrow> py_error + unit" where
  "create_guards requested_amount requested_term =
     bind_result (is_negative requested_amount) (\<lambda>neg.
     bind_result (if neg then Inr True else is_zero requested_amount) (\<lambda>not_positive.
       if not_positive then Inl (ValueError ''requested_amount must be positive'')
       else if requested_term < 1
       then Inl (ValueError ''requested_term_months must be at least 1'')
       else Inr ()))"

definition create ::
  "string \<Rightarrow> string \<Rightarrow> string \<Rightarrow> product \<Rightarrow> money \<Rightarrow> int \<Rightarrow> datetime \<Rightarrow> py_error + application" where
  "create application_id tenant_id applicant_id product requested_amount requested_term now =
     bind_result (create_guards requested_amount requested_term) (\<lambda>_. Inr
       \<lparr>app_id = application_id, app_tenant = tenant_id, app_applicant = applicant_id,
        app_product = prod_id product, app_amount = requested_amount, app_term = requested_term,
        app_status = DRAFT, app_version = 1, app_created_at = now, app_updated_at = now,
        app_workflow = None,
        app_pending = [ApplicationCreated application_id tenant_id now (prod_id product)]\<rparr>)"

definition transition_to ::
  "application_status \<Rightarrow> string \<Rightarrow> datetime \<Rightarrow> application \<Rightarrow> py_error + application" where
  "transition_to new_status reason now self =
     (if \<not> is_legal_transition (app_status self) new_status
      then Inl (IllegalStateTransitionError (app_status self) new_status)
      else Inr (self\<lparr>app_status := new_status, app_version := app_version self + 1,
        app_updated_at := now,
        app_pending := app_pending self @
          [ApplicationStateChanged (app_id self) (app_tenant self) now (app_status self) new_status
             reason (app_version self + 1)]\<rparr>))"

definition submit :: "datetime \<Rightarrow> application \<Rightarrow> py_error + application" where
  "submit now self = transition_to SUBMITTED ''applicant submitted'' now self"

definition cancel :: "string \<Rightarrow> datetime \<Rightarrow> application \<Rightarrow> py_error + application" where
  "cancel reason now self = transition_to CANCELLED reason now self"

definition attach_workflow :: "string \<Rightarrow> application \<Rightarrow> application" where
  "attach_workflow workflow_id self = self\<lparr>app_workflow := Some workflow_id\<rparr>"

definition detach_workflow :: "application \<Rightarrow> application" where
  "detach_workflow self = self\<lparr>app_workflow := None\<rparr>"

definition pull_events :: "application \<Rightarrow> domain_event list \<times> application" where
  "pull_events self = (app_pending self, self\<lparr>app_pending := []\<rparr>)"

subsection \<open>Lemmas\<close>

lemma transition_to_Inr_iff:
  "transition_to new reason now a = Inr b \<longleftrightarrow>
     is_legal_transition (app_status a) new \<and>
     b = a\<lparr>app_status := new, app_version := app_version a + 1, app_updated_at := now,
       app_pending := app_pending a @ [ApplicationStateChanged (app_id a) (app_tenant a) now
         (app_status a) new reason (app_version a + 1)]\<rparr>"
  by (auto simp: transition_to_def)

lemma transition_to_frame:
  assumes "transition_to new reason now a = Inr b"
  shows "app_id b = app_id a" "app_tenant b = app_tenant a" "app_applicant b = app_applicant a"
    "app_product b = app_product a" "app_amount b = app_amount a" "app_term b = app_term a"
    "app_created_at b = app_created_at a" "app_workflow b = app_workflow a" "app_status b = new"
    "app_version b = app_version a + 1" "app_updated_at b = now"
  using assms by (auto simp: transition_to_Inr_iff)

lemma transition_to_Inl_iff:
  "transition_to new reason now a = Inl e \<longleftrightarrow>
     \<not> is_legal_transition (app_status a) new \<and> e = IllegalStateTransitionError (app_status a) new"
  by (auto simp: transition_to_def)

lemma create_guards_proper:
  "proper_money m \<Longrightarrow> create_guards m t =
     (if cents m \<le> 0 then Inl (ValueError ''requested_amount must be positive'')
      else if t < 1 then Inl (ValueError ''requested_term_months must be at least 1'')
      else Inr ())"
  by (auto simp: create_guards_def is_negative_proper)

lemma create_guards_pos: "create_guards m t = Inr u \<Longrightarrow> proper_money m \<Longrightarrow> 0 < cents m \<and> 1 \<le> t"
  by (auto simp: create_guards_proper split: if_splits)

subsection \<open>Runs of the aggregate\<close>

text \<open>
  What can happen to an application object in memory: a transition attempt that succeeds, or one
  of the workflow bookkeeping calls, or a drain of the pending events.  \<open>app_run\<close> collects the
  statuses an object went through.
\<close>

inductive app_step :: "application \<Rightarrow> application \<Rightarrow> bool" where
  Transition: "transition_to new reason now a = Inr b \<Longrightarrow> app_step a b"
| Attach: "app_step a (attach_workflow w a)"
| Detach: "app_step a (detach_workflow a)"
| Pull: "app_step a (snd (pull_events a))"

inductive_cases app_stepE: "app_step a b"

inductive app_run :: "application \<Rightarrow> application_status list \<Rightarrow> application \<Rightarrow> bool" where
  Start: "app_run a [app_status a] a"
| Move: "app_run a ss b \<Longrightarrow> app_step b c \<Longrightarrow>
    app_run a (if app_status c = app_status b then ss else ss @ [app_status c]) c"

lemma no_self_transition: "\<not> is_legal_transition s s"
  by (cases s) (simp_all add: is_legal_transition_def)

lemma app_step_legal:
  "app_step a b \<Longrightarrow> app_status b = app_status a \<or> is_legal_transition (app_status a) (app_status b)"
  by (erule app_stepE)
    (auto simp: transition_to_Inr_iff attach_workflow_def detach_workflow_def pull_events_def)

lemma app_step_version:
  "app_step a b \<Longrightarrow> app_version b = app_version a + (if app_status b = app_status a then 0 else 1)"
  by (erule app_stepE)
    (auto simp: transition_to_Inr_iff attach_workflow_def detach_workflow_def pull_events_def
      no_self_transition)

lemma legal_history_snoc:
  "legal_history (ss @ [s]) \<Longrightarrow> is_legal_transition s t \<Longrightarrow> legal_history (ss @ [s, t])"
proof (induction ss)
  case Nil
  then show ?case by simp
next
  case (Cons x ss)
  then show ?case by (cases ss) auto
qed

lemma app_run_history:
  "app_run a ss b \<Longrightarrow> legal_history ss \<and> (\<exists>us. ss = us @ [app_status b]) \<and> hd ss = app_status a
     \<and> app_version b = app_version a + int (length ss) - 1"
proof (induction rule: app_run.induct)
  case (Start a)
  then show ?case by simp
next
  case (Move a ss b c)
  then obtain us where us: "ss = us @ [app_status b]" by blast
  show ?case
  proof (cases "app_status c = app_status b")
    case True
    with Move us app_step_version [OF Move(2)] show ?thesis by simp
  next
    case False
    with app_step_legal [OF Move(2)] have "is_legal_transition (app_status b) (app_status c)" by simp
    with Move us have "legal_history (us @ [app_status b, app_status c])"
      by (intro legal_history_snoc) auto
    with Move us False app_step_version [OF Move(2)] show ?thesis by (cases us) auto
  qed
qed

subsection \<open>Properties\<close>

text \<open>\<open>transition_to\<close> on every branch: a pair outside the table raises and names both statuses;
  a pair in the table changes exactly status, version, update time and pending events, bumps the
  version by one and queues one event that carries the old status, the new one and the new
  version.\<close>

theorem transition_to_spec:
  "transition_to new reason now a =
     (if new \<in> ALLOWED_TRANSITIONS (app_status a)
      then Inr (a\<lparr>app_status := new, app_version := app_version a + 1, app_updated_at := now,
             app_pending := app_pending a @ [ApplicationStateChanged (app_id a) (app_tenant a) now
               (app_status a) new reason (app_version a + 1)]\<rparr>)
      else Inl (IllegalStateTransitionError (app_status a) new))"
  by (simp add: transition_to_def is_legal_transition_def)

text \<open>C36: no credit decision without a human.  Along any run of the aggregate that starts in a
  status an automated stage may hold, an object that ends up approved, declined, escalated or sent
  back for information went through \<open>AWAITING_HUMAN_REVIEW\<close>; and its version counts exactly the
  status changes it went through.\<close>

theorem decision_needs_human_review:
  assumes "app_run a ss b" "app_status a \<in> automated_statuses"
    "app_status b \<in> {APPROVED, DECLINED, ESCALATED, NEEDS_MORE_INFORMATION}"
  shows "AWAITING_HUMAN_REVIEW \<in> set ss \<and> app_version b = app_version a + int (length ss) - 1"
proof -
  note run = app_run_history [OF assms(1)]
  from run obtain us where us: "ss = us @ [app_status b]" by blast
  obtain rest where ss: "ss = app_status a # rest" using run us
    by (metis append_is_Nil_conv hd_Cons_tl list.distinct(1))
  have "app_status b \<notin> automated_statuses" using assms(3) by (auto simp: automated_statuses_def)
  then have "\<not> set ss \<subseteq> automated_statuses" using us by auto
  then have "\<not> set rest \<subseteq> automated_statuses" using assms(2) by (auto simp: ss)
  moreover have "legal_history (app_status a # rest)" using run by (simp add: ss)
  ultimately have "AWAITING_HUMAN_REVIEW \<in> set rest"
    using history_before_review assms(2) by blast
  with run show ?thesis by (simp add: ss)
qed

definition sample_instant :: datetime where
  "sample_instant = Datetime (Date 2026 9 1) 12 0 0 0"

definition sample_application :: application where
  "sample_application =
     \<lparr>app_id = ''00000000-0000-4000-8000-000000000010'',
      app_tenant = ''00000000-0000-4000-8000-000000000001'',
      app_applicant = ''00000000-0000-4000-8000-000000000011'',
      app_product = ''00000000-0000-4000-8000-000000000002'',
      app_amount = \<lparr>amount = Finite False 500000 (- 2), currency = ''USD''\<rparr>, app_term = 24,
      app_status = INTAKE_VALIDATION, app_version = 3, app_created_at = sample_instant,
      app_updated_at = sample_instant, app_workflow = None, app_pending = []\<rparr>"

theorem decision_needs_human_review_witness:
  "\<exists>b. app_run sample_application [INTAKE_VALIDATION, AWAITING_HUMAN_REVIEW, APPROVED] b
     \<and> app_status b = APPROVED \<and> app_version b = 5"
proof -
  define now where "now = sample_instant"
  obtain b1 where b1: "transition_to AWAITING_HUMAN_REVIEW ''r'' now sample_application = Inr b1"
    by (simp add: transition_to_def is_legal_transition_def sample_application_def)
  then have s1: "app_status b1 = AWAITING_HUMAN_REVIEW" by (rule transition_to_frame)
  then obtain b2 where b2: "transition_to APPROVED ''ok'' now b1 = Inr b2"
    by (simp add: transition_to_def is_legal_transition_def)
  then have s2: "app_status b2 = APPROVED" by (rule transition_to_frame)
  have s0: "app_status sample_application = INTAKE_VALIDATION" "app_version sample_application = 3"
    by (simp_all add: sample_application_def)
  have "app_run sample_application [INTAKE_VALIDATION, AWAITING_HUMAN_REVIEW, APPROVED] b2"
    using app_run.Move [OF app_run.Move [OF app_run.Start app_step.Transition [OF b1]]
        app_step.Transition [OF b2]] by (simp add: s0 s1 s2)
  then show ?thesis
    using decision_needs_human_review [of sample_application _ b2] s0 s2
    by (fastforce simp: automated_statuses_def)
qed

end
