(* ===== verification/Json.thy ===== *)
theory Json
  imports PyStrings Identifiers
begin

text \<open>
  \<open>json.dumps\<close> and \<open>json.loads\<close> of the standard library, for the values the program serialises:
  \<open>None\<close>, booleans, ints, strings, lists and dicts with string keys.  No float ever reaches
  \<open>json.dumps\<close> in this program.  A dict is the list of its items in insertion order.  The
  writer is parametrised by the two separators; \<open>sort_keys\<close> is the option of that name.  The
  reader accepts JSON with blanks between tokens; its fuel is the length of the text, which
  \<open>json_roundtrip\<close> shows to be enough for whatever the writer prints.
\<close>

datatype pyval =
    PNone
  | PBool bool
  | PInt int
  | PStr string
  | PList "pyval list"
  | PDict "(string \<times> pyval) list"

definition json_escape :: "char \<Rightarrow> string" where
  "json_escape c =
     (let n = char_code c in
      if n = 34 then [CHR 0x5C, CHR 0x22]
      else if n = 92 then [CHR 0x5C, CHR 0x5C]
      else if n = 10 then [CHR 0x5C, CHR ''n'']
      else if n = 13 then [CHR 0x5C, CHR ''r'']
      else if n = 9 then [CHR 0x5C, CHR ''t'']
      else if n = 12 then [CHR 0x5C, CHR ''f'']
      else if n = 8 then [CHR 0x5C, CHR ''b'']
      else if 32 \<le> n \<and> n \<le> 126 then [c]
      else [CHR 0x5C, CHR ''u'', CHR ''0'', CHR ''0'', hex_digit (n div 16), hex_digit (n mod 16)])"

definition json_string :: "string \<Rightarrow> string" where
  "json_string s = [CHR 0x22] @ concat (map json_escape s) @ [CHR 0x22]"

fun json_dumps :: "string \<Rightarrow> string \<Rightarrow> pyval \<Rightarrow> string" where
  "json_dumps isep ksep PNone = ''null''"
| "json_dumps isep ksep (PBool b) = (if b then ''true'' else ''false'')"
| "json_dumps isep ksep (PInt i) = show_int i"
| "json_dumps isep ksep (PStr s) = json_string s"
| "json_dumps isep ksep (PList vs) = ''['' @ str_join isep (map (json_dumps isep ksep) vs) @ '']''"
| "json_dumps isep ksep (PDict kvs) =
     [CHR 0x7B] @ str_join isep (map (\<lambda>(k, v). json_string k @ ksep @ json_dumps isep ksep v) kvs)
       @ [CHR 0x7D]"

fun sort_keys :: "pyval \<Rightarrow> pyval" where
  "sort_keys (PList vs) = PList (map sort_keys vs)"
| "sort_keys (PDict kvs) = PDict (sort_key fst (map (\<lambda>(k, v). (k, sort_keys v)) kvs))"
| "sort_keys v = v"

subsection \<open>Reading\<close>

definition skip_blanks :: "string \<Rightarrow> string" where
  "skip_blanks s = dropWhile (\<lambda>c. char_code c \<in> {9, 10, 13, 32}) s"

definition unescape :: "char \<Rightarrow> char option" where
  "unescape c = map_of [(CHR 0x22, CHR 0x22), (CHR 0x5C, CHR 0x5C), (CHR ''/'', CHR ''/''),
     (CHR ''n'', CHR 0x0A), (CHR ''r'', CHR 0x0D), (CHR ''t'', CHR 0x09), (CHR ''f'', CHR 0x0C),
     (CHR ''b'', CHR 0x08)] c"

fun parse_string :: "string \<Rightarrow> (string \<times> string) option" where
  "parse_string [] = None"
| "parse_string (c # cs) =
     (if c = CHR 0x22 then Some ([], cs)
      else if c = CHR 0x5C then
        (case cs of
           e # rest \<Rightarrow>
             (if e = CHR ''u'' then
                (case rest of
                   a # b # h # l # rest' \<Rightarrow>
                     (case (hex_val a, hex_val b, hex_val h, hex_val l) of
                        (Some 0, Some 0, Some x, Some y) \<Rightarrow>
                          map_option (\<lambda>(s, r). (char_of (16 * x + y) # s, r)) (parse_string rest')
                      | _ \<Rightarrow> None)
                 | _ \<Rightarrow> None)
              else (case unescape e of
                  None \<Rightarrow> None
                | Some d \<Rightarrow> map_option (\<lambda>(s, r). (d # s, r)) (parse_string rest)))
         | [] \<Rightarrow> None)
      else if char_code c < 32 then None
      else map_option (\<lambda>(s, r). (c # s, r)) (parse_string cs))"

definition parse_int :: "string \<Rightarrow> (int \<times> string) option" where
  "parse_int s =
     (let (neg, t) = (case s of c # t \<Rightarrow> if c = CHR ''-'' then (True, t) else (False, s) | [] \<Rightarrow> (False, s));
          ds = takeWhile is_digit t
      in if ds = [] then None
         else Some (if neg then - int (read_nat ds) else int (read_nat ds), dropWhile is_digit t))"

fun parse_value :: "nat \<Rightarrow> string \<Rightarrow> (pyval \<times> string) option"
  and parse_items :: "nat \<Rightarrow> string \<Rightarrow> (pyval list \<times> string) option"
  and parse_pairs :: "nat \<Rightarrow> string \<Rightarrow> ((string \<times> pyval) list \<times> string) option" where
  "parse_value 0 s = None"
| "parse_value (Suc n) s =
     (case skip_blanks s of
        [] \<Rightarrow> None
      | c # t \<Rightarrow>
          if c = CHR 0x22 then map_option (\<lambda>(x, r). (PStr x, r)) (parse_string t)
          else if c = CHR ''['' then
            (case skip_blanks t of
               d # r \<Rightarrow> if d = CHR '']'' then Some (PList [], r)
                        else map_option (\<lambda>(xs, r). (PList xs, r)) (parse_items n t)
             | [] \<Rightarrow> None)
          else if c = CHR 0x7B then
            (case skip_blanks t of
               d # r \<Rightarrow> if d = CHR 0x7D then Some (PDict [], r)
                        else map_option (\<lambda>(xs, r). (PDict xs, r)) (parse_pairs n t)
             | [] \<Rightarrow> None)
          else if starts_with ''null'' (c # t) then Some (PNone, drop 3 t)
          else if starts_with ''true'' (c # t) then Some (PBool True, drop 3 t)
          else if starts_with ''false'' (c # t) then Some (PBool False, drop 4 t)
          else map_option (\<lambda>(i, r). (PInt i, r)) (parse_int (c # t)))"
| "parse_items 0 s = None"
| "parse_items (Suc n) s =
     (case parse_value n s of
        None \<Rightarrow> None
      | Some (v, r) \<Rightarrow>
          (case skip_blanks r of
             d # r' \<Rightarrow>
               if d = CHR '','' then map_option (\<lambda>(vs, q). (v # vs, q)) (parse_items n r')
               else if d = CHR '']'' then Some ([v], r') else None
           | [] \<Rightarrow> None))"
| "parse_pairs 0 s = None"
| "parse_pairs (Suc n) s =
     (case skip_blanks s of
        q # t \<Rightarrow>
          if q \<noteq> CHR 0x22 then None
          else (case parse_string t of
             None \<Rightarrow> None
           | Some (k, r) \<Rightarrow>
               (case skip_blanks r of
                  c # r1 \<Rightarrow>
                    if c \<noteq> CHR '':'' then None
                    else (case parse_value n r1 of
                       None \<Rightarrow> None
                     | Some (v, r2) \<Rightarrow>
                         (case skip_blanks r2 of
                            d # r3 \<Rightarrow>
                              if d = CHR '','' then map_option (\<lambda>(kvs, q). ((k, v) # kvs, q)) (parse_pairs n r3)
                              else if d = CHR 0x7D then Some ([(k, v)], r3) else None
                          | [] \<Rightarrow> None))
                | [] \<Rightarrow> None))
      | [] \<Rightarrow> None)"

definition json_loads :: "string \<Rightarrow> py_error + pyval" where
  "json_loads s =
     (case parse_value (length s) s of
        Some (v, r) \<Rightarrow> if skip_blanks r = [] then Inr v else Inl (ValueError ''Extra data'')
      | None \<Rightarrow> Inl (ValueError ''Expecting value''))"

text \<open>\<open>d[key]\<close> on a decoded object.\<close>

fun dict_get :: "pyval \<Rightarrow> string \<Rightarrow> py_error + pyval" where
  "dict_get (PDict kvs) k = (case map_of kvs k of None \<Rightarrow> Inl (KeyError k) | Some v \<Rightarrow> Inr v)"
| "dict_get _ k = Inl (KeyError k)"

subsection \<open>The reader inverts the writer\<close>

lemma char_of_code [simp]: "char_of (char_code c) = c"
  by (simp add: char_code_def)

lemma char_code_inject: "char_code c = char_code d \<longleftrightarrow> c = d"
  by (metis char_of_code)

lemma char_code_less: "char_code c < 256"
  by (simp add: char_code_def)

lemma hex_val_hex_digit: "d < 16 \<Longrightarrow> hex_val (hex_digit d) = Some d"
  by (drule less_16_cases) (auto simp: hex_digit_def hex_val_def char_code_def)

lemma char_code_eqs:
  "char_code c = 34 \<longleftrightarrow> c = CHR 0x22" "char_code c = 92 \<longleftrightarrow> c = CHR 0x5C"
  "char_code c = 10 \<longleftrightarrow> c = CHR 0x0A" "char_code c = 13 \<longleftrightarrow> c = CHR 0x0D"
  "char_code c = 9 \<longleftrightarrow> c = CHR 0x09" "char_code c = 12 \<longleftrightarrow> c = CHR 0x0C"
  "char_code c = 8 \<longleftrightarrow> c = CHR 0x08"
  by (simp_all add: char_code_inject [symmetric]) (simp_all add: char_code_def)

lemma hex_val_zero: "hex_val CHR ''0'' = Some 0"
  by (simp add: hex_val_def char_code_def)

lemma parse_string_escape:
  "parse_string (json_escape c @ t) = map_option (\<lambda>(s, r). (c # s, r)) (parse_string t)"
proof (cases "32 \<le> char_code c \<and> char_code c \<le> 126 \<or> char_code c \<in> {34, 92, 10, 13, 9, 12, 8}")
  case True
  then show ?thesis
    by (auto simp: json_escape_def Let_def char_code_eqs unescape_def)
next
  case False
  then have e: "json_escape c = [CHR 0x5C, CHR ''u'', CHR ''0'', CHR ''0'',
      hex_digit (char_code c div 16), hex_digit (char_code c mod 16)]"
    by (simp add: json_escape_def Let_def)
  have "char_code c div 16 < 16" "char_code c mod 16 < 16"
    using char_code_less [of c] by auto
  then show ?thesis
    by (simp add: e hex_val_hex_digit hex_val_zero)
qed

lemma parse_string_escapes:
  "parse_string (concat (map json_escape s) @ CHR 0x22 # r) = Some (s, r)"
  by (induction s) (simp_all add: parse_string_escape)

lemma not_digit_blank:
  "is_digit c \<Longrightarrow> char_code c \<notin> {9, 10, 13, 32, 34, 91, 123, 110, 116, 102, 45}"
  by (auto simp: is_digit_def char_code_def)

definition no_digit_next :: "string \<Rightarrow> bool" where
  "no_digit_next r \<longleftrightarrow> (case r of [] \<Rightarrow> True | c # _ \<Rightarrow> \<not> is_digit c)"

lemma takeWhile_digits:
  assumes "no_digit_next r"
  shows "takeWhile is_digit (show_nat n @ r) = show_nat n" "dropWhile is_digit (show_nat n @ r) = r"
proof -
  have "takeWhile is_digit r = []" "dropWhile is_digit r = r"
    using assms by (auto simp: no_digit_next_def split: list.splits)
  then show "takeWhile is_digit (show_nat n @ r) = show_nat n"
    "dropWhile is_digit (show_nat n @ r) = r"
    using show_nat_digits [of n] by simp_all
qed

lemma show_nat_Cons: obtains c t where "show_nat n = c # t" "is_digit c"
proof -
  obtain c t where ct: "show_nat n = c # t" using show_nat_ne_Nil [of n] by (cases "show_nat n") blast+
  moreover have "is_digit c" using show_nat_digits [of n] ct by simp
  ultimately show thesis using that by blast
qed

lemma parse_int_show: "no_digit_next r \<Longrightarrow> parse_int (show_int i @ r) = Some (i, r)"
proof -
  assume r: "no_digit_next r"
  show ?thesis
  proof (cases "i < 0")
    case True
    then show ?thesis using takeWhile_digits [OF r]
      by (simp add: parse_int_def show_int_def Let_def)
  next
    case False
    obtain c t where ct: "show_nat (nat i) = c # t" "is_digit c" by (rule show_nat_Cons)
    then have "c \<noteq> CHR ''-''" using minus_not_digit by auto
    then show ?thesis using False takeWhile_digits [OF r, of "nat i"] read_show_nat [of "nat i"] ct
      by (simp add: parse_int_def show_int_def Let_def)
  qed
qed

definition blank :: "string \<Rightarrow> bool" where
  "blank b \<longleftrightarrow> (\<forall>c \<in> set b. char_code c \<in> {9, 10, 13, 32})"

lemma skip_blank: "blank b \<Longrightarrow> skip_blanks (b @ s) = skip_blanks s"
  by (simp add: skip_blanks_def blank_def dropWhile_append)

lemma skip_Cons: "char_code c \<notin> {9, 10, 13, 32} \<Longrightarrow> skip_blanks (c # s) = c # s"
  by (simp add: skip_blanks_def)

lemma skip_tokens [simp]:
  "skip_blanks (CHR 0x22 # s) = CHR 0x22 # s" "skip_blanks (CHR ''['' # s) = CHR ''['' # s"
  "skip_blanks (CHR '']'' # s) = CHR '']'' # s" "skip_blanks (CHR 0x7B # s) = CHR 0x7B # s"
  "skip_blanks (CHR 0x7D # s) = CHR 0x7D # s" "skip_blanks (CHR '','' # s) = CHR '','' # s"
  "skip_blanks (CHR '':'' # s) = CHR '':'' # s" "skip_blanks (CHR ''n'' # s) = CHR ''n'' # s"
  "skip_blanks (CHR ''t'' # s) = CHR ''t'' # s" "skip_blanks (CHR ''f'' # s) = CHR ''f'' # s"
  "skip_blanks (CHR ''-'' # s) = CHR ''-'' # s" "skip_blanks [] = []"
  by (simp_all add: skip_blanks_def char_code_def)

lemma no_digit_tokens [simp]:
  "no_digit_next (CHR '','' # s)" "no_digit_next (CHR '']'' # s)" "no_digit_next (CHR 0x7D # s)"
  "no_digit_next []"
  by (simp_all add: no_digit_next_def is_digit_def)

lemma parse_value_int:
  assumes "no_digit_next r" "blank b"
  shows "parse_value (Suc n) (b @ show_int i @ r) = Some (PInt i, r)"
proof -
  have "\<exists>c t. show_int i = c # t \<and> char_code c \<notin> {9, 10, 13, 32, 34, 91, 123, 110, 116, 102}"
  proof (cases "i < 0")
    case True
    then show ?thesis by (simp add: show_int_def char_code_def)
  next
    case False
    obtain c t where ct: "show_nat (nat i) = c # t" "is_digit c" by (rule show_nat_Cons)
    with not_digit_blank [OF ct(2)] False show ?thesis by (simp add: show_int_def)
  qed
  then obtain c t where ct: "show_int i = c # t"
    "char_code c \<notin> {9, 10, 13, 32, 34, 91, 123, 110, 116, 102}" by blast
  then have "c \<noteq> CHR 0x22" "c \<noteq> CHR ''[''" "c \<noteq> CHR 0x7B" "c \<noteq> CHR ''n''" "c \<noteq> CHR ''t''" "c \<noteq> CHR ''f''"
    by (auto simp: char_code_def)
  moreover have "skip_blanks (b @ show_int i @ r) = c # t @ r"
    using ct(2) by (simp add: skip_blank [OF assms(2)] ct(1) skip_Cons)
  ultimately show ?thesis
    using parse_int_show [OF assms(1), of i] ct(1) by (simp add: starts_with_def)
qed

lemma parse_items_dumps:
  assumes "blank ib" "vs \<noteq> []" "blank b"
    and "\<And>v n b r. v \<in> set vs \<Longrightarrow> blank b \<Longrightarrow> no_digit_next r \<Longrightarrow> length (D v) \<le> n \<Longrightarrow>
      parse_value n (b @ D v @ r) = Some (v, r)"
    and "\<And>v. v \<in> set vs \<Longrightarrow> D v \<noteq> []"
    and "length (str_join (CHR '','' # ib) (map D vs)) < n"
  shows "parse_items n (b @ str_join (CHR '','' # ib) (map D vs) @ CHR '']'' # r) = Some (vs, r)"
  using assms(2-)
proof (induction vs arbitrary: n b)
  case Nil
  then show ?case by simp
next
  case (Cons v vs)
  obtain m where n: "n = Suc m" using Cons.prems(5) by (cases n) auto
  show ?case
  proof (cases vs)
    case Nil
    have "parse_value m (b @ D v @ CHR '']'' # r) = Some (v, CHR '']'' # r)"
      using Cons.prems Nil n by (intro Cons.prems(3)) auto
    with Nil n show ?thesis by simp
  next
    case (Cons w ws)
    define rest where "rest = str_join (CHR '','' # ib) (map D vs) @ CHR '']'' # r"
    have pos: "0 < length (D v)" using Cons.prems(4) by simp
    have len: "length (D v) \<le> m" "length (str_join (CHR '','' # ib) (map D vs)) < m"
      using Cons.prems(5) n Cons pos by auto
    have "parse_value m (b @ D v @ CHR '','' # ib @ rest) = Some (v, CHR '','' # ib @ rest)"
      using Cons.prems(2) len(1) by (intro Cons.prems(3)) simp_all
    moreover have "parse_items m (ib @ rest) = Some (vs, r)"
      unfolding rest_def using assms(1) Cons.prems Cons len(2) by (intro Cons.IH) auto
    ultimately show ?thesis using Cons n by (simp add: rest_def)
  qed
qed

lemma parse_pairs_dumps:
  assumes "blank ib" "blank kb" "kvs \<noteq> []" "blank b"
    and "\<And>k v n b r. (k, v) \<in> set kvs \<Longrightarrow> blank b \<Longrightarrow> no_digit_next r \<Longrightarrow> length (D v) \<le> n \<Longrightarrow>
      parse_value n (b @ D v @ r) = Some (v, r)"
    and "length (str_join (CHR '','' # ib) (map (\<lambda>(k, v). json_string k @ (CHR '':'' # kb) @ D v) kvs)) < n"
  shows "parse_pairs n (b @ str_join (CHR '','' # ib)
      (map (\<lambda>(k, v). json_string k @ (CHR '':'' # kb) @ D v) kvs) @ CHR 0x7D # r) = Some (kvs, r)"
  using assms(3-)
proof (induction kvs arbitrary: n b)
  case Nil
  then show ?case by simp
next
  case (Cons kv kvs)
  obtain k v where kv: "kv = (k, v)" by fastforce
  obtain m where n: "n = Suc m" using Cons.prems(4) by (cases n) auto
  define P where "P = (\<lambda>(k, v). json_string k @ (CHR '':'' # kb) @ D v)"
  have head: "skip_blanks (b @ P kv @ q) = CHR 0x22 # concat (map json_escape k) @ CHR 0x22 # CHR '':'' # kb @ D v @ q" for q
    by (simp add: P_def kv json_string_def skip_blank [OF Cons.prems(2)])
  have str: "parse_string (concat (map json_escape k) @ CHR 0x22 # CHR '':'' # kb @ D v @ q)
      = Some (k, CHR '':'' # kb @ D v @ q)" for q
    by (rule parse_string_escapes)
  show ?case
  proof (cases kvs)
    case Nil
    have "parse_value m (kb @ D v @ CHR 0x7D # r) = Some (v, CHR 0x7D # r)"
      using Cons.prems Nil n assms(2) by (intro Cons.prems(3)) (auto simp: kv)
    with Nil n show ?thesis
      unfolding P_def [symmetric] by (simp add: head str) (simp add: kv)
  next
    case (Cons w ws)
    define rest where "rest = str_join (CHR '','' # ib) (map P kvs) @ CHR 0x7D # r"
    have len: "length (D v) \<le> m" "length (str_join (CHR '','' # ib) (map P kvs)) < m"
      using Cons.prems(4) n Cons unfolding P_def [symmetric] by (auto simp: P_def kv)
    have "parse_value m (kb @ D v @ CHR '','' # ib @ rest) = Some (v, CHR '','' # ib @ rest)"
      using assms(2) len(1) by (intro Cons.prems(3)) (auto simp: kv)
    moreover have "parse_pairs m (ib @ rest) = Some (kvs, r)"
      unfolding rest_def P_def
    proof (rule Cons.IH)
      show "parse_value n' (b' @ D v' @ r') = Some (v', r')"
        if "(k', v') \<in> set kvs" "blank b'" "no_digit_next r'" "length (D v') \<le> n'" for k' v' n' b' r'
        using that by (intro Cons.prems(3)) auto
      show "length (str_join (CHR '','' # ib) (map (\<lambda>(k, v). json_string k @ (CHR '':'' # kb) @ D v) kvs)) < m"
        using len(2) unfolding P_def .
    qed (use Cons assms(1) in simp_all)
    ultimately show ?thesis
      using Cons n unfolding P_def [symmetric] by (simp add: head str rest_def) (simp add: kv)
  qed
qed

lemma json_dumps_nonempty: "json_dumps isep ksep v \<noteq> []"
  by (cases v) (auto simp: json_string_def show_int_def)

lemma str_join_hd:
  assumes "ss \<noteq> []" "hd ss = c # t"
  obtains u where "str_join sep ss = c # u"
proof (cases ss)
  case Nil
  with assms show thesis by simp
next
  case (Cons x xs)
  with assms that show thesis by (cases xs) auto
qed

lemma skip_dumps:
  obtains c t where "skip_blanks (json_dumps isep ksep v @ r) = c # t" "c \<noteq> CHR '']''" 
proof -
  have "\<exists>c t. json_dumps isep ksep v = c # t \<and> char_code c \<notin> {9, 10, 13, 32} \<and> c \<noteq> CHR '']''"
  proof (cases v)
    case (PInt i)
    obtain c t where ct: "show_nat (nat (if i < 0 then - i else i)) = c # t" "is_digit c" by (rule show_nat_Cons)
    then have "c \<noteq> CHR '']''" by (auto simp: is_digit_def)
    with ct not_digit_blank [OF ct(2)] PInt show ?thesis by (auto simp: show_int_def char_code_def)
  qed (auto simp: json_string_def char_code_def)
  then show thesis using that by (auto simp: skip_Cons)
qed

text \<open>The reader, given at least as much fuel as the text has characters, reads back the value.\<close>

lemma parse_value_dumps:
  assumes "blank ib" "blank kb" "blank b" "no_digit_next r"
    and "length (json_dumps (CHR '','' # ib) (CHR '':'' # kb) v) \<le> n"
  shows "parse_value n (b @ json_dumps (CHR '','' # ib) (CHR '':'' # kb) v @ r) = Some (v, r)"
  using assms(3-)
proof (induction v arbitrary: n b r)
  case PNone
  then obtain m where "n = Suc m" by (cases n) auto
  with PNone show ?case by (simp add: skip_blank starts_with_def)
next
  case (PBool x)
  then obtain m where "n = Suc m" by (cases n; cases x) auto
  with PBool show ?case by (cases x) (simp_all add: skip_blank starts_with_def)
next
  case (PInt i)
  then obtain m where "n = Suc m" by (cases n) (auto simp: show_int_def split: if_splits)
  with PInt show ?case by (simp add: parse_value_int del: parse_value.simps)
next
  case (PStr x)
  then obtain m where "n = Suc m" by (cases n) (auto simp: json_string_def)
  with PStr show ?case by (simp add: skip_blank json_string_def parse_string_escapes)
next
  case (PList vs)
  obtain m where n: "n = Suc m" using PList.prems(3) by (cases n) auto
  show ?case
  proof (cases "vs = []")
    case True
    with PList n show ?thesis by (simp add: skip_blank)
  next
    case False
    define D where "D = json_dumps (CHR '','' # ib) (CHR '':'' # kb)"
    define items where "items = str_join (CHR '','' # ib) (map D vs) @ CHR '']'' # r"
    have "parse_items m ([] @ str_join (CHR '','' # ib) (map D vs) @ CHR '']'' # r) = Some (vs, r)"
    proof (rule parse_items_dumps [OF assms(1) False])
      show "parse_value k (b' @ D v @ r') = Some (v, r')"
        if "v \<in> set vs" "blank b'" "no_digit_next r'" "length (D v) \<le> k" for v k b' r'
        using PList.IH [OF that(1)] that(2-) unfolding D_def by blast
    qed (use PList.prems(3) n in \<open>auto simp: D_def json_dumps_nonempty blank_def\<close>)
    then have items: "parse_items m items = Some (vs, r)" by (simp add: items_def)
    obtain w ws where vs: "vs = w # ws" using False by (cases vs) auto
    obtain q where q: "items = D w @ q"
      by (cases ws) (auto simp: items_def vs)
    obtain c t where "skip_blanks items = c # t" "c \<noteq> CHR '']''"
      unfolding q D_def by (rule skip_dumps)
    moreover have "b @ json_dumps (CHR '','' # ib) (CHR '':'' # kb) (PList vs) @ r = b @ CHR ''['' # items"
      by (simp add: items_def D_def)
    ultimately show ?thesis
      using items n by (simp add: skip_blank [OF PList.prems(1)])
  qed
next
  case (PDict kvs)
  obtain m where n: "n = Suc m" using PDict.prems(3) by (cases n) auto
  show ?case
  proof (cases "kvs = []")
    case True
    with PDict n show ?thesis by (simp add: skip_blank)
  next
    case False
    define D where "D = json_dumps (CHR '','' # ib) (CHR '':'' # kb)"
    define pairs where "pairs = str_join (CHR '','' # ib)
      (map (\<lambda>(k, v). json_string k @ (CHR '':'' # kb) @ D v) kvs) @ CHR 0x7D # r"
    have "parse_pairs m ([] @ pairs) = Some (kvs, r)"
      unfolding pairs_def
    proof (rule parse_pairs_dumps [OF assms(1,2) False])
      show "parse_value j (b' @ D v @ r') = Some (v, r')"
        if "(k, v) \<in> set kvs" "blank b'" "no_digit_next r'" "length (D v) \<le> j" for k v j b' r'
        using PDict.IH [OF that(1), of v] that(2-) unfolding D_def by simp
    qed (use PDict.prems(3) n in \<open>auto simp: D_def blank_def\<close>)
    then have pairs: "parse_pairs m pairs = Some (kvs, r)" by simp
    obtain k v ws where kvs: "kvs = (k, v) # ws" using False by (cases kvs) auto
    obtain q where "pairs = CHR 0x22 # q"
      by (cases ws) (auto simp: pairs_def kvs json_string_def)
    moreover have "b @ json_dumps (CHR '','' # ib) (CHR '':'' # kb) (PDict kvs) @ r = b @ CHR 0x7B # pairs"
      by (simp add: pairs_def D_def)
    ultimately show ?thesis
      using pairs n by (simp add: skip_blank [OF PDict.prems(1)])
  qed
qed

theorem json_roundtrip:
  assumes "blank ib" "blank kb"
  shows "json_loads (json_dumps (CHR '','' # ib) (CHR '':'' # kb) v) = Inr v"
  using parse_value_dumps [OF assms, of "[]" "[]" v]
  by (simp add: json_loads_def blank_def)

theorem json_dumps_inject:
  assumes "blank ib" "blank kb"
  shows "json_dumps (CHR '','' # ib) (CHR '':'' # kb) v = json_dumps (CHR '','' # ib) (CHR '':'' # kb) w
    \<longleftrightarrow> v = w"
  using json_roundtrip [OF assms] by (metis sum.inject(2))

end
