(* ===== verification/Database.thy ===== *)
theory Database
  imports Documents Application Json
begin

text \<open>
  The relational schema: the row classes of \<open>infrastructure/postgres/orm_models.py\<close> as records,
  and one insert per table that a component writes, with the constraints the migrations under
  \<open>migrations/versions\<close> put on the table.  A table is the list of its rows in insertion order.
  An insert fails with \<open>DataError\<close> when a value does not fit its column, with
  \<open>RowSecurityError\<close> when the row's tenant is not the one of the session (the \<open>WITH CHECK\<close> of
  the tenant policy), and with \<open>IntegrityError\<close> and the name of the constraint otherwise.
  \<open>visible\<close> is the \<open>USING\<close> side of the policy: what a session of a tenant can read.
\<close>

subsection \<open>Rows\<close>

record product_row =
  pr_id :: string
  pr_tenant :: string
  pr_code :: string
  pr_name :: string
  pr_currency :: string
  pr_min_amount :: decimal
  pr_max_amount :: decimal
  pr_min_term :: int
  pr_max_term :: int
  pr_is_active :: bool
  pr_created_at :: datetime

record applicant_row =
  ar_id :: string
  ar_tenant :: string
  ar_given_name :: string
  ar_family_name :: string
  ar_date_of_birth :: date
  ar_email :: string
  ar_created_at :: datetime

record application_row =
  ap_id :: string
  ap_tenant :: string
  ap_applicant :: string
  ap_product :: string
  ap_amount :: decimal
  ap_currency :: string
  ap_term :: int
  ap_status :: string
  ap_version :: int
  ap_created_at :: datetime
  ap_updated_at :: datetime
  ap_workflow :: "string option"

record version_row =
  vr_id :: string
  vr_application :: string
  vr_tenant :: string
  vr_version :: int
  vr_status :: string
  vr_amount :: decimal
  vr_currency :: string
  vr_term :: int
  vr_applicant :: string
  vr_product :: string
  vr_recorded_at :: datetime

record outbox_row =
  ob_id :: string
  ob_tenant :: string
  ob_event_type :: string
  ob_schema_version :: int
  ob_occurred_at :: datetime
  ob_aggregate_type :: string
  ob_aggregate_id :: string
  ob_correlation_id :: "string option"
  ob_causation_id :: "string option"
  ob_payload :: pyval
  ob_published_at :: "datetime option"
  ob_created_at :: datetime

record idempotency_row =
  ik_tenant :: string
  ik_operation :: string
  ik_key :: string
  ik_reserved_at :: datetime

record audit_row =
  au_id :: string
  au_tenant :: string
  au_occurred_at :: datetime
  au_event_type :: string
  au_aggregate_type :: string
  au_aggregate_id :: string
  au_payload :: pyval
  au_correlation_id :: "string option"
  au_prev_hash :: string
  au_hash :: string
  au_created_at :: datetime

record audit_hash_row =
  ah_tenant :: string
  ah_latest_event_id :: "string option"
  ah_latest_hash :: string
  ah_updated_at :: datetime

record inbox_row =
  in_event_id :: string
  in_consumer :: string
  in_processed_at :: datetime

record document_row =
  dr_id :: string
  dr_tenant :: string
  dr_application :: string
  dr_type :: string
  dr_object_key :: string
  dr_checksum :: string
  dr_size :: nat
  dr_uploaded_at :: datetime

record review_row =
  rr_application :: string
  rr_tenant :: string
  rr_entered_at :: datetime
  rr_status :: string
  rr_decision :: "string option"
  rr_reason :: "string option"
  rr_reviewer :: "string option"
  rr_decided_at :: "datetime option"

record projection_row =
  sp_application :: string
  sp_tenant :: string
  sp_status :: string
  sp_version :: int
  sp_updated_at :: datetime

record extraction_run_row =
  er_run :: string
  er_tenant :: string
  er_application :: string
  er_document :: string
  er_classification :: string
  er_fact_count :: nat
  er_completed_at :: datetime

record fact_row =
  fr_id :: string
  fr_run :: string
  fr_tenant :: string
  fr_application :: string
  fr_document :: string
  fr_type :: string
  fr_value :: string
  fr_normalized :: string
  fr_confidence :: rat
  fr_page :: int
  fr_method :: string
  fr_extractor :: string
  fr_checksum :: string
  fr_status :: string
  fr_created_at :: datetime

record verification_run_row =
  vn_run :: string
  vn_tenant :: string
  vn_application :: string
  vn_check_count :: nat
  vn_contradiction_count :: nat
  vn_completed_at :: datetime

record check_row =
  cr_id :: string
  cr_run :: string
  cr_tenant :: string
  cr_application :: string
  cr_source :: string
  cr_fact_type :: string
  cr_declared :: "string option"
  cr_external :: "string option"
  cr_verdict :: string
  cr_confidence :: rat
  cr_detail :: string
  cr_created_at :: datetime

record contradiction_row =
  co_id :: string
  co_check :: string
  co_tenant :: string
  co_application :: string
  co_source :: string
  co_fact_type :: string
  co_detail :: string
  co_created_at :: datetime

datatype snapshot_value = SBool bool | SInt int | SFloat rat | SStr string

record snapshot_row =
  sr_id :: string
  sr_run :: string
  sr_tenant :: string
  sr_application :: string
  sr_source :: string
  sr_payload :: "(string \<times> snapshot_value) list"
  sr_captured_at :: datetime

record db =
  db_tenants :: "string list"
  db_products :: "product_row list"
  db_applicants :: "applicant_row list"
  db_applications :: "application_row list"
  db_versions :: "version_row list"
  db_outbox :: "outbox_row list"
  db_idempotency_keys :: "idempotency_row list"
  db_audit_events :: "audit_row list"
  db_audit_hashes :: "audit_hash_row list"
  db_inbox :: "inbox_row list"
  db_documents :: "document_row list"
  db_review_queue :: "review_row list"
  db_projections :: "projection_row list"
  db_extraction_runs :: "extraction_run_row list"
  db_facts :: "fact_row list"
  db_verification_runs :: "verification_run_row list"
  db_checks :: "check_row list"
  db_contradictions :: "contradiction_row list"
  db_snapshots :: "snapshot_row list"

subsection \<open>Constraints\<close>

definition visible :: "('r \<Rightarrow> string) \<Rightarrow> string \<Rightarrow> 'r list \<Rightarrow> 'r list" where
  "visible tenant scope rows = filter (\<lambda>r. tenant r = scope) rows"

definition fits_int32 :: "int \<Rightarrow> bool" where
  "fits_int32 i \<longleftrightarrow> - (2 ^ 31) \<le> i \<and> i < 2 ^ 31"

text \<open>\<open>NUMERIC(18, 2)\<close> for the amounts the program stores, which are quantised to cents.\<close>

fun fits_numeric :: "decimal \<Rightarrow> bool" where
  "fits_numeric (Finite neg c e) \<longleftrightarrow> e = - 2 \<and> c < 10 ^ 18"
| "fits_numeric Quiet_NaN \<longleftrightarrow> True"
| "fits_numeric _ \<longleftrightarrow> False"

text \<open>\<open>> 0\<close> in PostgreSQL, where NaN is above every number.\<close>

fun numeric_positive :: "decimal \<Rightarrow> bool" where
  "numeric_positive (Finite neg c e) \<longleftrightarrow> \<not> neg \<and> 0 < c"
| "numeric_positive (Infinite neg) \<longleftrightarrow> \<not> neg"
| "numeric_positive _ \<longleftrightarrow> True"

definition guard_row :: "bool \<Rightarrow> bool \<Rightarrow> string \<Rightarrow> (bool \<times> string) list \<Rightarrow> py_error + unit" where
  "guard_row fits own table constraints =
     (if \<not> fits then Inl (DataError table)
      else if \<not> own then Inl (RowSecurityError table)
      else case find (\<lambda>(ok, _). \<not> ok) constraints of
        Some (_, name) \<Rightarrow> Inl (IntegrityError name) | None \<Rightarrow> Inr ())"

definition application_ids :: "db \<Rightarrow> string set" where
  "application_ids d = ap_id ` set (db_applications d)"

definition document_ids :: "db \<Rightarrow> string set" where
  "document_ids d = dr_id ` set (db_documents d)"

text \<open>The statuses of the \<open>ck_application_status_valid\<close> constraint.\<close>

definition APPLICATION_STATUSES :: "string list" where
  "APPLICATION_STATUSES =
     [''DRAFT'', ''SUBMITTED'', ''INTAKE_VALIDATION'', ''DOCUMENT_PROCESSING'', ''VERIFICATION'',
      ''POLICY_EVALUATION'', ''AFFORDABILITY_EVALUATION'', ''FRAUD_ANALYSIS'', ''RISK_SYNTHESIS'',
      ''AWAITING_HUMAN_REVIEW'', ''APPROVED'', ''DECLINED'', ''NEEDS_MORE_INFORMATION'',
      ''ESCALATED'', ''CANCELLED'']"

definition insert_applicant :: "applicant_row \<Rightarrow> string \<Rightarrow> db \<Rightarrow> py_error + db" where
  "insert_applicant r scope d =
     bind_result (guard_row True (ar_tenant r = scope) ''applicants''
       [(ar_id r \<notin> ar_id ` set (db_applicants d), ''applicants_pkey''),
        (ar_tenant r \<in> set (db_tenants d), ''applicants_tenant_id_fkey'')])
     (\<lambda>_. Inr (d\<lparr>db_applicants := db_applicants d @ [r]\<rparr>))"

definition application_row_ok :: "application_row \<Rightarrow> (bool \<times> string) list" where
  "application_row_ok r =
     [(numeric_positive (ap_amount r), ''ck_application_amount_positive''),
      (1 \<le> ap_term r, ''ck_application_term_positive''),
      (1 \<le> ap_version r, ''ck_application_version_positive''),
      (ap_status r \<in> set APPLICATION_STATUSES, ''ck_application_status_valid'')]"

definition application_row_fits :: "application_row \<Rightarrow> bool" where
  "application_row_fits r \<longleftrightarrow>
     fits_numeric (ap_amount r) \<and> fits_int32 (ap_term r) \<and> fits_int32 (ap_version r)"

definition insert_application :: "application_row \<Rightarrow> string \<Rightarrow> db \<Rightarrow> py_error + db" where
  "insert_application r scope d =
     bind_result (guard_row (application_row_fits r) (ap_tenant r = scope) ''applications''
       (application_row_ok r @
        [(ap_id r \<notin> application_ids d, ''applications_pkey''),
         (ap_tenant r \<in> set (db_tenants d), ''applications_tenant_id_fkey''),
         (ap_applicant r \<in> ar_id ` set (db_applicants d), ''applications_applicant_id_fkey''),
         (ap_product r \<in> pr_id ` set (db_products d), ''applications_product_id_fkey'')]))
     (\<lambda>_. Inr (d\<lparr>db_applications := db_applications d @ [r]\<rparr>))"

text \<open>\<open>UPDATE applications\<close> of the columns \<open>save\<close> assigns, on a row the session can see.\<close>

definition update_application ::
  "string \<Rightarrow> (application_row \<Rightarrow> application_row) \<Rightarrow> string \<Rightarrow> db \<Rightarrow> py_error + db" where
  "update_application k f scope d =
     (case tbl_find ap_id k (visible ap_tenant scope (db_applications d)) of
        None \<Rightarrow> Inr d
      | Some r \<Rightarrow>
          bind_result (guard_row (application_row_fits (f r)) (ap_tenant (f r) = scope) ''applications''
            (application_row_ok (f r)))
          (\<lambda>_. Inr (d\<lparr>db_applications :=
             tbl_update ap_id k (\<lambda>r. if ap_tenant r = scope then f r else r) (db_applications d)\<rparr>)))"

definition insert_version :: "version_row \<Rightarrow> string \<Rightarrow> db \<Rightarrow> py_error + db" where
  "insert_version r scope d =
     bind_result (guard_row (fits_numeric (vr_amount r) \<and> fits_int32 (vr_term r) \<and> fits_int32 (vr_version r))
       (vr_tenant r = scope) ''application_versions''
       [(vr_id r \<notin> vr_id ` set (db_versions d), ''application_versions_pkey''),
        ((vr_application r, vr_version r) \<notin> (\<lambda>v. (vr_application v, vr_version v)) ` set (db_versions d),
         ''uq_application_version''),
        (vr_application r \<in> application_ids d, ''application_versions_application_id_fkey''),
        (vr_tenant r \<in> set (db_tenants d), ''application_versions_tenant_id_fkey'')])
     (\<lambda>_. Inr (d\<lparr>db_versions := db_versions d @ [r]\<rparr>))"

definition insert_outbox :: "outbox_row \<Rightarrow> string \<Rightarrow> db \<Rightarrow> py_error + db" where
  "insert_outbox r scope d =
     bind_result (guard_row (fits_int32 (ob_schema_version r)) (ob_tenant r = scope) ''outbox_events''
       [(ob_id r \<notin> ob_id ` set (db_outbox d), ''outbox_events_pkey'')])
     (\<lambda>_. Inr (d\<lparr>db_outbox := db_outbox d @ [r]\<rparr>))"

definition insert_idempotency :: "idempotency_row \<Rightarrow> string \<Rightarrow> db \<Rightarrow> py_error + db" where
  "insert_idempotency r scope d =
     bind_result (guard_row True (ik_tenant r = scope) ''idempotency_keys''
       [((ik_tenant r, ik_operation r, ik_key r)
           \<notin> (\<lambda>i. (ik_tenant i, ik_operation i, ik_key i)) ` set (db_idempotency_keys d),
         ''idempotency_keys_pkey'')])
     (\<lambda>_. Inr (d\<lparr>db_idempotency_keys := db_idempotency_keys d @ [r]\<rparr>))"

definition insert_audit_event :: "audit_row \<Rightarrow> string \<Rightarrow> db \<Rightarrow> py_error + db" where
  "insert_audit_event r scope d =
     bind_result (guard_row True (au_tenant r = scope) ''audit_events''
       [(au_id r \<notin> au_id ` set (db_audit_events d), ''audit_events_pkey'')])
     (\<lambda>_. Inr (d\<lparr>db_audit_events := db_audit_events d @ [r]\<rparr>))"

definition insert_audit_hash :: "audit_hash_row \<Rightarrow> string \<Rightarrow> db \<Rightarrow> py_error + db" where
  "insert_audit_hash r scope d =
     bind_result (guard_row True (ah_tenant r = scope) ''audit_hashes''
       [(ah_tenant r \<notin> ah_tenant ` set (db_audit_hashes d), ''audit_hashes_pkey'')])
     (\<lambda>_. Inr (d\<lparr>db_audit_hashes := db_audit_hashes d @ [r]\<rparr>))"

definition insert_inbox :: "inbox_row \<Rightarrow> string \<Rightarrow> db \<Rightarrow> py_error + db" where
  "insert_inbox r scope d =
     bind_result (guard_row True True ''inbox_messages''
       [((in_event_id r, in_consumer r) \<notin> (\<lambda>i. (in_event_id i, in_consumer i)) ` set (db_inbox d),
         ''inbox_messages_pkey'')])
     (\<lambda>_. Inr (d\<lparr>db_inbox := db_inbox d @ [r]\<rparr>))"

definition insert_document :: "document_row \<Rightarrow> string \<Rightarrow> db \<Rightarrow> py_error + db" where
  "insert_document r scope d =
     bind_result (guard_row (fits_int32 (int (dr_size r))) (dr_tenant r = scope) ''documents''
       [(0 < dr_size r, ''ck_document_size_positive''),
        (dr_id r \<notin> document_ids d, ''documents_pkey''),
        (dr_tenant r \<in> set (db_tenants d), ''documents_tenant_id_fkey''),
        (dr_application r \<in> application_ids d, ''documents_application_id_fkey'')])
     (\<lambda>_. Inr (d\<lparr>db_documents := db_documents d @ [r]\<rparr>))"

definition review_status_ok :: "review_row \<Rightarrow> (bool \<times> string)" where
  "review_status_ok r = (rr_status r \<in> {''pending'', ''decided''}, ''ck_review_status_valid'')"

definition insert_review :: "review_row \<Rightarrow> string \<Rightarrow> db \<Rightarrow> py_error + db" where
  "insert_review r scope d =
     bind_result (guard_row True (rr_tenant r = scope) ''review_queue_entries''
       [review_status_ok r,
        (rr_application r \<notin> rr_application ` set (db_review_queue d), ''review_queue_entries_pkey''),
        (rr_tenant r \<in> set (db_tenants d), ''review_queue_entries_tenant_id_fkey'')])
     (\<lambda>_. Inr (d\<lparr>db_review_queue := db_review_queue d @ [r]\<rparr>))"

definition insert_projection :: "projection_row \<Rightarrow> string \<Rightarrow> db \<Rightarrow> py_error + db" where
  "insert_projection r scope d =
     bind_result (guard_row (fits_int32 (sp_version r)) (sp_tenant r = scope) ''status_projection''
       [(sp_application r \<notin> sp_application ` set (db_projections d), ''status_projection_pkey''),
        (sp_tenant r \<in> set (db_tenants d), ''status_projection_tenant_id_fkey'')])
     (\<lambda>_. Inr (d\<lparr>db_projections := db_projections d @ [r]\<rparr>))"

definition insert_extraction_run :: "extraction_run_row \<Rightarrow> string \<Rightarrow> db \<Rightarrow> py_error + db" where
  "insert_extraction_run r scope d =
     bind_result (guard_row (fits_int32 (int (er_fact_count r))) (er_tenant r = scope) ''extraction_runs''
       [(er_run r \<notin> er_run ` set (db_extraction_runs d), ''extraction_runs_pkey''),
        (er_tenant r \<in> set (db_tenants d), ''extraction_runs_tenant_id_fkey''),
        (er_application r \<in> application_ids d, ''extraction_runs_application_id_fkey''),
        (er_document r \<in> document_ids d, ''extraction_runs_document_id_fkey'')])
     (\<lambda>_. Inr (d\<lparr>db_extraction_runs := db_extraction_runs d @ [r]\<rparr>))"

definition insert_fact :: "fact_row \<Rightarrow> string \<Rightarrow> db \<Rightarrow> py_error + db" where
  "insert_fact r scope d =
     bind_result (guard_row (fits_int32 (fr_page r)) (fr_tenant r = scope) ''extracted_facts''
       [(0 \<le> fr_confidence r \<and> fr_confidence r \<le> 1, ''ck_fact_confidence''),
        (fr_status r \<in> {''extracted'', ''verified'', ''contradicted'', ''superseded'', ''human_confirmed''},
         ''ck_fact_status_valid''),
        (fr_id r \<notin> fr_id ` set (db_facts d), ''extracted_facts_pkey''),
        (fr_run r \<in> er_run ` set (db_extraction_runs d), ''extracted_facts_run_id_fkey''),
        (fr_tenant r \<in> set (db_tenants d), ''extracted_facts_tenant_id_fkey''),
        (fr_application r \<in> application_ids d, ''extracted_facts_application_id_fkey''),
        (fr_document r \<in> document_ids d, ''extracted_facts_document_id_fkey'')])
     (\<lambda>_. Inr (d\<lparr>db_facts := db_facts d @ [r]\<rparr>))"

definition insert_verification_run :: "verification_run_row \<Rightarrow> string \<Rightarrow> db \<Rightarrow> py_error + db" where
  "insert_verification_run r scope d =
     bind_result (guard_row True (vn_tenant r = scope) ''verification_runs''
       [(vn_run r \<notin> vn_run ` set (db_verification_runs d), ''verification_runs_pkey''),
        (vn_tenant r \<in> set (db_tenants d), ''verification_runs_tenant_id_fkey''),
        (vn_application r \<in> application_ids d, ''verification_runs_application_id_fkey'')])
     (\<lambda>_. Inr (d\<lparr>db_verification_runs := db_verification_runs d @ [r]\<rparr>))"

definition insert_check :: "check_row \<Rightarrow> string \<Rightarrow> db \<Rightarrow> py_error + db" where
  "insert_check r scope d =
     bind_result (guard_row True (cr_tenant r = scope) ''verification_checks''
       [(cr_verdict r \<in> {''MATCHED'', ''CONTRADICTED'', ''INSUFFICIENT_EVIDENCE''},
         ''ck_verification_verdict_valid''),
        (cr_id r \<notin> cr_id ` set (db_checks d), ''verification_checks_pkey''),
        (cr_run r \<in> vn_run ` set (db_verification_runs d), ''verification_checks_run_id_fkey''),
        (cr_tenant r \<in> set (db_tenants d), ''verification_checks_tenant_id_fkey''),
        (cr_application r \<in> application_ids d, ''verification_checks_application_id_fkey'')])
     (\<lambda>_. Inr (d\<lparr>db_checks := db_checks d @ [r]\<rparr>))"

definition insert_contradiction :: "contradiction_row \<Rightarrow> string \<Rightarrow> db \<Rightarrow> py_error + db" where
  "insert_contradiction r scope d =
     bind_result (guard_row True (co_tenant r = scope) ''contradictions''
       [(co_id r \<notin> co_id ` set (db_contradictions d), ''contradictions_pkey''),
        (co_check r \<notin> co_check ` set (db_contradictions d), ''contradictions_check_id_key''),
        (co_check r \<in> cr_id ` set (db_checks d), ''contradictions_check_id_fkey''),
        (co_tenant r \<in> set (db_tenants d), ''contradictions_tenant_id_fkey''),
        (co_application r \<in> application_ids d, ''contradictions_application_id_fkey'')])
     (\<lambda>_. Inr (d\<lparr>db_contradictions := db_contradictions d @ [r]\<rparr>))"

definition insert_snapshot :: "snapshot_row \<Rightarrow> string \<Rightarrow> db \<Rightarrow> py_error + db" where
  "insert_snapshot r scope d =
     bind_result (guard_row True (sr_tenant r = scope) ''external_response_snapshots''
       [(sr_id r \<notin> sr_id ` set (db_snapshots d), ''external_response_snapshots_pkey''),
        (sr_run r \<in> vn_run ` set (db_verification_runs d), ''external_response_snapshots_run_id_fkey''),
        (sr_tenant r \<in> set (db_tenants d), ''external_response_snapshots_tenant_id_fkey''),
        (sr_application r \<in> application_ids d, ''external_response_snapshots_application_id_fkey'')])
     (\<lambda>_. Inr (d\<lparr>db_snapshots := db_snapshots d @ [r]\<rparr>))"

lemma guard_row_Inr_iff:
  "guard_row fits own table cs = Inr u \<longleftrightarrow> fits \<and> own \<and> (\<forall>c \<in> set cs. fst c)"
proof (cases "find (\<lambda>(ok, _). \<not> ok) cs")
  case None
  then have "\<forall>c \<in> set cs. fst c" by (fastforce simp: find_None_iff)
  with None show ?thesis by (auto simp: guard_row_def)
next
  case (Some c)
  then have "c \<in> set cs" "\<not> fst c" by (auto simp: find_Some_iff) (metis nth_mem)
  with Some show ?thesis by (auto simp: guard_row_def split: prod.splits)
qed

text \<open>What a successful insert tells about the row and the new state, one rule per table.\<close>

lemmas insert_defs =
  insert_applicant_def insert_application_def insert_version_def insert_outbox_def
  insert_idempotency_def insert_audit_event_def insert_audit_hash_def insert_inbox_def
  insert_document_def insert_review_def insert_projection_def insert_extraction_run_def
  insert_fact_def insert_verification_run_def insert_check_def insert_contradiction_def
  insert_snapshot_def

lemma status_value_listed [simp]: "status_value s \<in> set APPLICATION_STATUSES"
  by (cases s) (simp_all add: APPLICATION_STATUSES_def)

end
