(* ===== verification/Audit_Hash.thy ===== *)
theory Audit_Hash
  imports Application Json
begin

text \<open>
  \<open>infrastructure/postgres/event_mapping.py\<close> and \<open>audit_hash.py\<close>: how a domain event becomes
  the (type, aggregate type, payload) triple of its outbox and audit rows, and the hash that chains
  the audit rows of a tenant.  SHA-256 is a parameter.
\<close>

definition AGGREGATE_TYPE_APPLICATION :: string where
  "AGGREGATE_TYPE_APPLICATION = ''Application''"

fun event_to_record :: "domain_event \<Rightarrow> string \<times> string \<times> pyval" where
  "event_to_record (ApplicationCreated _ _ _ product_id) =
     (''ApplicationCreated'', AGGREGATE_TYPE_APPLICATION, PDict [(''product_id'', PStr product_id)])"
| "event_to_record (ApplicationStateChanged _ _ _ previous_status new_status reason version) =
     (''ApplicationStateChanged'', AGGREGATE_TYPE_APPLICATION,
      PDict [(''previous_status'', PStr (status_value previous_status)),
             (''new_status'', PStr (status_value new_status)),
             (''reason'', PStr reason), (''version'', PInt version)])"
| "event_to_record (DocumentUploaded _ _ _ document_id document_type object_key) =
     (''DocumentUploaded'', AGGREGATE_TYPE_APPLICATION,
      PDict [(''document_id'', PStr document_id), (''document_type'', PStr document_type),
             (''object_key'', PStr object_key)])"

definition GENESIS_HASH :: string where
  "GENESIS_HASH = replicate 64 CHR ''0''"

definition canonical_json :: "pyval \<Rightarrow> string" where
  "canonical_json data = json_dumps '','' '':'' (sort_keys data)"

definition audit_material :: "string \<Rightarrow> string \<Rightarrow> string \<Rightarrow> string \<Rightarrow> datetime \<Rightarrow> pyval \<Rightarrow> pyval" where
  "audit_material prev_hash event_id event_type aggregate_id occurred_at payload =
     PDict [(''prev_hash'', PStr prev_hash), (''event_id'', PStr event_id),
            (''event_type'', PStr event_type), (''aggregate_id'', PStr aggregate_id),
            (''occurred_at'', PStr (isoformat occurred_at)), (''payload'', payload)]"

definition compute_audit_hash ::
  "(string \<Rightarrow> string) \<Rightarrow> string \<Rightarrow> string \<Rightarrow> string \<Rightarrow> string \<Rightarrow> datetime \<Rightarrow> pyval \<Rightarrow> string" where
  "compute_audit_hash sha256 prev_hash event_id event_type aggregate_id occurred_at payload =
     sha256 (canonical_json
       (audit_material prev_hash event_id event_type aggregate_id occurred_at payload))"

subsection \<open>Canonical JSON determines the value\<close>

lemma canonical_json_eq_iff: "canonical_json v = canonical_json w \<longleftrightarrow> sort_keys v = sort_keys w"
  unfolding canonical_json_def by (rule json_dumps_inject) (simp_all add: blank_def)

lemma sort_keys_dict_eqD:
  assumes "sort_keys (PDict kvs) = sort_keys (PDict lvs)" "distinct (map fst lvs)"
    "(k, v) \<in> set kvs" "(k, w) \<in> set lvs"
  shows "sort_keys v = sort_keys w"
proof -
  have "sort_key fst (map (\<lambda>(k, v). (k, sort_keys v)) kvs)
      = sort_key fst (map (\<lambda>(k, v). (k, sort_keys v)) lvs)"
    using assms(1) by (simp only: sort_keys.simps pyval.inject)
  then have "set (sort_key fst (map (\<lambda>(k, v). (k, sort_keys v)) kvs))
      = set (sort_key fst (map (\<lambda>(k, v). (k, sort_keys v)) lvs))"
    by (rule arg_cong)
  then have same: "set (map (\<lambda>(k, v). (k, sort_keys v)) kvs) = set (map (\<lambda>(k, v). (k, sort_keys v)) lvs)"
    by (simp only: set_sort)
  have "(\<lambda>(k, v). (k, sort_keys v)) (k, v) \<in> set (map (\<lambda>(k, v). (k, sort_keys v)) kvs)"
    unfolding set_map using assms(3) by (rule imageI)
  then have "(k, sort_keys v) \<in> set (map (\<lambda>(k, v). (k, sort_keys v)) lvs)"
    unfolding same by simp
  then obtain u where "(k, u) \<in> set lvs" "sort_keys v = sort_keys u" by auto
  with assms(2,4) show ?thesis by (metis eq_key_imp_eq_value)
qed

lemma isoformat_inject:
  "valid_datetime a \<Longrightarrow> valid_datetime b \<Longrightarrow> isoformat a = isoformat b \<longleftrightarrow> a = b"
  by (metis iso_roundtrip sum.inject(2))

lemma audit_material_inject:
  assumes "canonical_json (audit_material p i t a oc pl) = canonical_json (audit_material p' i' t' a' oc' pl')"
    "valid_datetime oc" "valid_datetime oc'"
  shows "p = p'" "i = i'" "t = t'" "a = a'" "oc = oc'" "sort_keys pl = sort_keys pl'"
proof -
  from assms(1) have eq: "sort_keys (audit_material p i t a oc pl)
      = sort_keys (audit_material p' i' t' a' oc' pl')" by (simp only: canonical_json_eq_iff)
  note field = sort_keys_dict_eqD [OF eq [unfolded audit_material_def]]
  show "p = p'" using field [of "''prev_hash''" "PStr p" "PStr p'"] by simp
  show "i = i'" using field [of "''event_id''" "PStr i" "PStr i'"] by simp
  show "t = t'" using field [of "''event_type''" "PStr t" "PStr t'"] by simp
  show "a = a'" using field [of "''aggregate_id''" "PStr a" "PStr a'"] by simp
  show "oc = oc'"
    using field [of "''occurred_at''" "PStr (isoformat oc)" "PStr (isoformat oc')"]
      isoformat_inject [OF assms(2,3)] by simp
  show "sort_keys pl = sort_keys pl'" using field [of "''payload''" pl pl'] by simp
qed

text \<open>Equal hashes over different records exhibit a SHA-256 collision.\<close>

definition collision :: "(string \<Rightarrow> string) \<Rightarrow> bool" where
  "collision sha256 \<longleftrightarrow> (\<exists>x y. x \<noteq> y \<and> sha256 x = sha256 y)"

lemma compute_audit_hash_inject:
  assumes "compute_audit_hash sha256 p i t a oc pl = compute_audit_hash sha256 p' i' t' a' oc' pl'"
    "valid_datetime oc" "valid_datetime oc'" "\<not> collision sha256"
  shows "p = p' \<and> i = i' \<and> t = t' \<and> a = a' \<and> oc = oc' \<and> sort_keys pl = sort_keys pl'"
proof -
  have "canonical_json (audit_material p i t a oc pl) = canonical_json (audit_material p' i' t' a' oc' pl')"
    using assms(1,4) unfolding compute_audit_hash_def collision_def by blast
  from audit_material_inject [OF this assms(2,3)] show ?thesis by simp
qed

lemma event_payload_dict: "\<exists>kvs. snd (snd (event_to_record e)) = PDict kvs"
  by (cases e) auto

end
