(* ===== verification/World.thy ===== *)
theory World
  imports Database Audit_Hash "HOL-Library.Multiset"
begin

text \<open>
  What a handler runs over.  \<open>w_db\<close> is the committed database, \<open>w_sess\<close> the view of the open
  transaction, \<open>w_scope\<close> the \<open>app.tenant_id\<close> setting of the session; \<open>w_ids\<close> and \<open>w_clk\<close> count the
  identifiers drawn and the clock readings taken; \<open>w_ext\<close> is the state of everything outside the
  database (object store, workflow service, external systems), of an arbitrary type.  The
  environment holds what is not under \<open>src\<close>: the system clock, the random identifiers, SHA-256,
  and the order in which the database returns rows when a query does not ask for one.

  Here transactions run one after the other; \<open>Interleaving\<close> lets them overlap.
\<close>

record 'x world =
  w_db :: db
  w_sess :: db
  w_scope :: string
  w_done :: bool
  w_ids :: nat
  w_clk :: nat
  w_ext :: 'x

record env =
  e_clock :: "nat \<Rightarrow> datetime"
  e_uuid :: "nat \<Rightarrow> string"
  e_sha256 :: "string \<Rightarrow> string"
  e_order_facts :: "fact_row list \<Rightarrow> fact_row list"
  e_order_checks :: "check_row list \<Rightarrow> check_row list"
  e_order_documents :: "document_row list \<Rightarrow> document_row list"

text \<open>What the code relies on of its environment.\<close>

definition good_env :: "env \<Rightarrow> bool" where
  "good_env env \<longleftrightarrow> (\<forall>n. valid_datetime (e_clock env n)) \<and> (\<forall>n. valid_uuid (e_uuid env n)) \<and>
     (\<forall>rows. mset (e_order_facts env rows) = mset rows) \<and>
     (\<forall>rows. mset (e_order_checks env rows) = mset rows) \<and>
     (\<forall>rows. mset (e_order_documents env rows) = mset rows)"

type_synonym ('x, 'a) handler = "('x world, py_error, 'a) computation"

definition clock_now :: "env \<Rightarrow> ('x, datetime) handler" where
  "clock_now env w = (Inr (e_clock env (w_clk w)), w\<lparr>w_clk := w_clk w + 1\<rparr>)"

definition generate_id :: "env \<Rightarrow> ('x, string) handler" where
  "generate_id env w = (Inr (e_uuid env (w_ids w)), w\<lparr>w_ids := w_ids w + 1\<rparr>)"

text \<open>A method of the aggregate that reads the clock once, only where it does not raise.\<close>

definition at_now :: "env \<Rightarrow> (datetime \<Rightarrow> py_error + 'a) \<Rightarrow> ('x, 'a) handler" where
  "at_now env f w =
     (case f (e_clock env (w_clk w)) of
        Inl e \<Rightarrow> (Inl e, w)
      | Inr x \<Rightarrow> (Inr x, w\<lparr>w_clk := w_clk w + 1\<rparr>))"

definition query :: "(string \<Rightarrow> db \<Rightarrow> 'a) \<Rightarrow> ('x, 'a) handler" where
  "query f w = (Inr (f (w_scope w) (w_sess w)), w)"

definition execute :: "(string \<Rightarrow> db \<Rightarrow> py_error + db) \<Rightarrow> ('x, unit) handler" where
  "execute f w =
     (case f (w_scope w) (w_sess w) of
        Inl e \<Rightarrow> (Inl e, w) | Inr d \<Rightarrow> (Inr (), w\<lparr>w_sess := d\<rparr>))"

text \<open>A call to something outside the database.\<close>

definition external :: "('x \<Rightarrow> (py_error + 'a) \<times> 'x) \<Rightarrow> ('x, 'a) handler" where
  "external f w = (case f (w_ext w) of (r, x) \<Rightarrow> (r, w\<lparr>w_ext := x\<rparr>))"

definition commit :: "('x, unit) handler" where
  "commit w = (Inr (), w\<lparr>w_db := w_sess w, w_done := True\<rparr>)"

definition rollback :: "('x, unit) handler" where
  "rollback w = (Inr (), w\<lparr>w_sess := w_db w\<rparr>)"

text \<open>
  \<open>async with factory.begin(tenant_id=...) as uow\<close>: \<open>__aenter__\<close> opens a transaction scoped to the
  tenant, \<open>__aexit__\<close> rolls back unless the body committed, and closes the session either way.
\<close>

definition aenter :: "string \<Rightarrow> 'x world \<Rightarrow> 'x world" where
  "aenter tenant w = w\<lparr>w_scope := tenant, w_sess := w_db w, w_done := False\<rparr>"

definition aexit :: "'x world \<Rightarrow> 'x world" where
  "aexit w = (let w' = (if \<not> w_done w then w\<lparr>w_sess := w_db w\<rparr> else w)
     in w'\<lparr>w_sess := w_db w', w_scope := [], w_done := False\<rparr>)"

definition with_uow :: "string \<Rightarrow> ('x, 'a) handler \<Rightarrow> ('x, 'a) handler" where
  "with_uow tenant body w = (case body (aenter tenant w) of (r, w') \<Rightarrow> (r, aexit w'))"

lemmas world_run_defs =
  clock_now_def generate_id_def at_now_def query_def execute_def external_def commit_def rollback_def

subsection \<open>What the primitives leave alone\<close>

lemma clock_now_run [simp, monad_simps]:
  "clock_now env w = (Inr (e_clock env (w_clk w)), w\<lparr>w_clk := w_clk w + 1\<rparr>)"
  by (simp add: clock_now_def)

lemma generate_id_run [simp, monad_simps]:
  "generate_id env w = (Inr (e_uuid env (w_ids w)), w\<lparr>w_ids := w_ids w + 1\<rparr>)"
  by (simp add: generate_id_def)

lemma query_run [simp, monad_simps]: "query f w = (Inr (f (w_scope w) (w_sess w)), w)"
  by (simp add: query_def)

lemma execute_InrE:
  assumes "execute f w = (Inr u, w')"
  obtains d where "f (w_scope w) (w_sess w) = Inr d" "w' = w\<lparr>w_sess := d\<rparr>"
  using assms by (auto simp: execute_def split: sum.splits)

lemma aexit_db [simp]: "w_db (aexit w) = w_db w"
  by (simp add: aexit_def Let_def)

lemma aenter_simps [simp]:
  "w_db (aenter t w) = w_db w" "w_sess (aenter t w) = w_db w" "w_scope (aenter t w) = t"
  "w_done (aenter t w) = False" "w_ids (aenter t w) = w_ids w" "w_clk (aenter t w) = w_clk w"
  "w_ext (aenter t w) = w_ext w"
  by (simp_all add: aenter_def)

text \<open>
  \<open>quiet\<close>: a step that never commits.  Everything a handler does before its last line is quiet,
  which is what makes an error leave the committed database alone.
\<close>

definition same_committed :: "'x world \<Rightarrow> 'x world \<Rightarrow> bool" where
  "same_committed w w' \<longleftrightarrow> w_db w' = w_db w \<and> w_scope w' = w_scope w \<and> w_done w' = w_done w \<and> w_ids w \<le> w_ids w'"

abbreviation quiet :: "('x, 'a) handler \<Rightarrow> bool" where
  "quiet m \<equiv> stays same_committed m"

lemma same_committed_order: "reflp same_committed" "transp same_committed"
  by (auto simp: same_committed_def reflp_def transp_def)

named_theorems quiet_intros \<open>steps that never commit\<close>

lemmas quiet_bnd [quiet_intros] = stays_bnd [OF same_committed_order(2)]
lemmas quiet_try [quiet_intros] = stays_try_except [OF same_committed_order(2)]
lemmas quiet_refl [quiet_intros] = stays_refl_steps [OF same_committed_order(1)]
lemmas quiet_map_each [quiet_intros] = stays_map_each [OF same_committed_order]
lemmas quiet_if [quiet_intros] = stays_if [of same_committed]

lemma quiet_primitives [quiet_intros]:
  "quiet (clock_now env)" "quiet (generate_id env)" "quiet (at_now env g)" "quiet (query q)"
  "quiet (execute f)" "quiet (external h)" "quiet rollback"
  by (auto simp: stays_def same_committed_def at_now_def execute_def external_def rollback_def
      split: sum.splits prod.splits)

lemma quiet_case_option [quiet_intros]:
  "quiet m \<Longrightarrow> (\<And>x. quiet (f x)) \<Longrightarrow> quiet (case opt of None \<Rightarrow> m | Some x \<Rightarrow> f x)"
  by (cases opt) auto

lemma quiet_case_prod [quiet_intros]:
  "(\<And>x y. quiet (f x y)) \<Longrightarrow> quiet (case p of (x, y) \<Rightarrow> f x y)"
  by (cases p) auto

text \<open>A body that is quiet up to a final commit: an error means nothing was committed.\<close>

lemma with_uow_error:
  assumes "quiet m" "with_uow t (bnd m (\<lambda>r. bnd commit (\<lambda>_. ret (f r)))) w = (Inl e, w')"
  shows "w_db w' = w_db w"
proof -
  obtain r w1 where m: "m (aenter t w) = (r, w1)" by fastforce
  then have "w_db w1 = w_db w" using staysD [OF assms(1) m] by (simp add: same_committed_def)
  with assms(2) m show ?thesis
    by (cases r) (auto simp: with_uow_def bnd_def commit_def)
qed

text \<open>And a success means exactly the session of the body was committed.\<close>

lemma with_uow_success:
  assumes "with_uow t (bnd m (\<lambda>r. bnd commit (\<lambda>_. ret (f r)))) w = (Inr y, w')"
  obtains x w1 where "m (aenter t w) = (Inr x, w1)" "y = f x" "w_db w' = w_sess w1"
    "w_ext w' = w_ext w1" "w_ids w' = w_ids w1" "w_clk w' = w_clk w1"
proof -
  obtain r w1 where m: "m (aenter t w) = (r, w1)" by fastforce
  with assms that show thesis
    by (cases r) (auto simp: with_uow_def bnd_def commit_def aexit_def Let_def)
qed

end
