(* ===== verification/Repositories.thy ===== *)
theory Repositories
  imports World
begin

text \<open>
  The SQLAlchemy repositories: \<open>infrastructure/postgres/repository.py\<close>, \<open>product_catalog.py\<close>,
  \<open>document_repository.py\<close>, \<open>extraction_repository.py\<close>, \<open>verification_repository.py\<close> and
  \<open>review_queue_repository.py\<close>.  Reading a row builds the domain object again, so a stored value
  its constructor rejects raises here as it does in the code.
\<close>

subsection \<open>Rows and domain objects\<close>

definition application_to_row :: "application \<Rightarrow> application_row" where
  "application_to_row a =
     \<lparr>ap_id = app_id a, ap_tenant = app_tenant a, ap_applicant = app_applicant a,
      ap_product = app_product a, ap_amount = amount (app_amount a),
      ap_currency = currency (app_amount a), ap_term = app_term a,
      ap_status = status_value (app_status a), ap_version = app_version a,
      ap_created_at = app_created_at a, ap_updated_at = app_updated_at a,
      ap_workflow = app_workflow a\<rparr>"

definition row_to_application :: "application_row \<Rightarrow> py_error + application" where
  "row_to_application r =
     bind_result (mk_id ApplicationId (ap_id r)) (\<lambda>aid.
     bind_result (mk_id TenantId (ap_tenant r)) (\<lambda>tid.
     bind_result (mk_id ApplicantId (ap_applicant r)) (\<lambda>pid.
     bind_result (mk_id ProductId (ap_product r)) (\<lambda>qid.
     bind_result (mk_Money (ap_amount r) (ap_currency r)) (\<lambda>m.
     case status_of_value (ap_status r) of
       None \<Rightarrow> Inl (ValueError (py_repr (ap_status r) @ '' is not a valid ApplicationStatus''))
     | Some s \<Rightarrow> Inr
         \<lparr>app_id = aid, app_tenant = tid, app_applicant = pid, app_product = qid, app_amount = m,
          app_term = ap_term r, app_status = s, app_version = ap_version r,
          app_created_at = ap_created_at r, app_updated_at = ap_updated_at r,
          app_workflow = ap_workflow r, app_pending = []\<rparr>)))))"

definition version_snapshot_row :: "application \<Rightarrow> string \<Rightarrow> version_row" where
  "version_snapshot_row a snapshot_id =
     \<lparr>vr_id = snapshot_id, vr_application = app_id a, vr_tenant = app_tenant a,
      vr_version = app_version a, vr_status = status_value (app_status a),
      vr_amount = amount (app_amount a), vr_currency = currency (app_amount a),
      vr_term = app_term a, vr_applicant = app_applicant a, vr_product = app_product a,
      vr_recorded_at = app_updated_at a\<rparr>"

definition row_to_product :: "product_row \<Rightarrow> py_error + product" where
  "row_to_product r =
     bind_result (mk_id ProductId (pr_id r)) (\<lambda>pid.
     bind_result (mk_Money (pr_min_amount r) (pr_currency r)) (\<lambda>lo.
     bind_result (mk_Money (pr_max_amount r) (pr_currency r)) (\<lambda>hi.
       mk_Product
         \<lparr>prod_id = pid, prod_code = pr_code r, prod_name = pr_name r, prod_currency = pr_currency r,
          prod_min_amount = lo, prod_max_amount = hi, prod_min_term = pr_min_term r,
          prod_max_term = pr_max_term r, prod_is_active = pr_is_active r\<rparr>)))"

definition row_to_document :: "document_row \<Rightarrow> py_error + uploaded_document" where
  "row_to_document r =
     bind_result (mk_id TenantId (dr_tenant r)) (\<lambda>tid.
     bind_result (mk_id ApplicationId (dr_application r)) (\<lambda>aid. Inr
       \<lparr>doc_id = dr_id r, doc_tenant = tid, doc_application = aid, doc_type = dr_type r,
        doc_object_key = dr_object_key r, doc_checksum = dr_checksum r, doc_size = dr_size r,
        doc_uploaded_at = dr_uploaded_at r\<rparr>))"

definition row_to_stored_fact :: "fact_row \<Rightarrow> py_error + stored_fact" where
  "row_to_stored_fact r =
     bind_result (fact_type_of_value (fr_type r)) (\<lambda>t.
     bind_result (mk_ExtractedFact
       \<lparr>fact_type_of = t, fact_value = fr_value r, fact_normalized = fr_normalized r,
        fact_confidence = fr_confidence r, fact_page = fr_page r, fact_method = fr_method r,
        fact_extractor = fr_extractor r, fact_checksum = fr_checksum r\<rparr>) (\<lambda>f. Inr
       \<lparr>sf_fact_id = fr_id r, sf_document_id = fr_document r, sf_run_id = fr_run r, sf_fact = f\<rparr>))"

definition row_to_check :: "check_row \<Rightarrow> py_error + verification_check" where
  "row_to_check r =
     bind_result (source_system_of_value (cr_source r)) (\<lambda>src.
     bind_result (verdict_of_value (cr_verdict r)) (\<lambda>v.
       mk_VerificationCheck
         \<lparr>chk_source = src, chk_fact_type = cr_fact_type r, chk_declared = cr_declared r,
          chk_external = cr_external r, chk_verdict = v, chk_confidence = cr_confidence r,
          chk_detail = cr_detail r\<rparr>))"

definition row_to_entry :: "review_row \<Rightarrow> py_error + review_queue_entry" where
  "row_to_entry r =
     bind_result (mk_id ApplicationId (rr_application r)) (\<lambda>aid.
     bind_result (mk_id TenantId (rr_tenant r)) (\<lambda>tid. Inr
       \<lparr>rq_application = aid, rq_tenant = tid, rq_entered_at = rr_entered_at r,
        rq_status = rr_status r, rq_decision = rr_decision r, rq_reason = rr_reason r,
        rq_reviewer = rr_reviewer r, rq_decided_at = rr_decided_at r\<rparr>))"

subsection \<open>Applications\<close>

text \<open>\<open>session.get\<close>: the visible row with this primary key.\<close>

definition get_application_row :: "string \<Rightarrow> ('x, application_row option) handler" where
  "get_application_row k =
     query (\<lambda>scope d. tbl_find ap_id k (visible ap_tenant scope (db_applications d)))"

definition application_get :: "string \<Rightarrow> string \<Rightarrow> ('x, application option) handler" where
  "application_get tenant_id application_id =
     bnd (get_application_row application_id) (\<lambda>row.
       case row of
         None \<Rightarrow> ret None
       | Some r \<Rightarrow>
           if ap_tenant r \<noteq> tenant_id then ret None
           else bnd (lift_result (row_to_application r)) (\<lambda>a. ret (Some a)))"

text \<open>The flush inserts the application before the snapshot that references it.\<close>

definition application_add :: "env \<Rightarrow> application \<Rightarrow> ('x, unit) handler" where
  "application_add env a =
     bnd (generate_id env) (\<lambda>snapshot_id.
     try_except
       (bnd (execute (insert_application (application_to_row a))) (\<lambda>_.
        execute (insert_version (version_snapshot_row a snapshot_id))))
       (\<lambda>e. case e of
          IntegrityError _ \<Rightarrow> raise (ValueError (''application '' @ app_id a @ '' already exists''))
        | _ \<Rightarrow> raise e))"

definition saved_row :: "application \<Rightarrow> application_row \<Rightarrow> application_row" where
  "saved_row a r = r\<lparr>ap_status := status_value (app_status a), ap_version := app_version a,
     ap_updated_at := app_updated_at a, ap_amount := amount (app_amount a),
     ap_term := app_term a, ap_workflow := app_workflow a\<rparr>"

definition application_save :: "env \<Rightarrow> application \<Rightarrow> ('x, unit) handler" where
  "application_save env a =
     bnd (get_application_row (app_id a)) (\<lambda>existing.
       let expected = app_version a - 1 in
       case existing of
         None \<Rightarrow> raise (ConcurrencyConflictError (app_id a) expected 0)
       | Some r \<Rightarrow>
           if ap_version r \<noteq> expected
           then raise (ConcurrencyConflictError (app_id a) expected (ap_version r))
           else bnd (generate_id env) (\<lambda>snapshot_id.
             bnd (execute (update_application (app_id a) (saved_row a))) (\<lambda>_.
             execute (insert_version (version_snapshot_row a snapshot_id)))))"

subsection \<open>Applicants and products\<close>

definition applicant_add :: "env \<Rightarrow> applicant \<Rightarrow> ('x, unit) handler" where
  "applicant_add env a =
     bnd (clock_now env) (\<lambda>now.
       execute (insert_applicant
         \<lparr>ar_id = apl_id a, ar_tenant = apl_tenant a, ar_given_name = apl_given_name a,
          ar_family_name = apl_family_name a, ar_date_of_birth = apl_date_of_birth a,
          ar_email = apl_email a, ar_created_at = now\<rparr>))"

definition applicant_get :: "string \<Rightarrow> string \<Rightarrow> ('x, applicant option) handler" where
  "applicant_get tenant_id applicant_id =
     bnd (query (\<lambda>scope d. tbl_find ar_id applicant_id (visible ar_tenant scope (db_applicants d))))
       (\<lambda>row. case row of
          None \<Rightarrow> ret None
        | Some r \<Rightarrow>
            if ar_tenant r \<noteq> tenant_id then ret None
            else bnd (lift_result (mk_id ApplicantId (ar_id r))) (\<lambda>aid.
              bnd (lift_result (mk_id TenantId (ar_tenant r))) (\<lambda>tid.
              bnd (lift_result (mk_Applicant
                \<lparr>apl_id = aid, apl_tenant = tid, apl_given_name = ar_given_name r,
                 apl_family_name = ar_family_name r, apl_date_of_birth = ar_date_of_birth r,
                 apl_email = ar_email r\<rparr>)) (\<lambda>a. ret (Some a)))))"

definition product_get :: "string \<Rightarrow> ('x, product option) handler" where
  "product_get product_id =
     bnd (query (\<lambda>scope d. tbl_find pr_id product_id (visible pr_tenant scope (db_products d))))
       (\<lambda>row. case row of
          None \<Rightarrow> ret None
        | Some r \<Rightarrow> bnd (lift_result (row_to_product r)) (\<lambda>p. ret (Some p)))"

definition product_get_by_code :: "string \<Rightarrow> ('x, product option) handler" where
  "product_get_by_code code =
     bnd (query (\<lambda>scope d. tbl_find pr_code code (visible pr_tenant scope (db_products d))))
       (\<lambda>row. case row of
          None \<Rightarrow> ret None
        | Some r \<Rightarrow> bnd (lift_result (row_to_product r)) (\<lambda>p. ret (Some p)))"

subsection \<open>Documents\<close>

definition document_add :: "uploaded_document \<Rightarrow> ('x, unit) handler" where
  "document_add d =
     execute (insert_document
       \<lparr>dr_id = doc_id d, dr_tenant = doc_tenant d, dr_application = doc_application d,
        dr_type = doc_type d, dr_object_key = doc_object_key d, dr_checksum = doc_checksum d,
        dr_size = doc_size d, dr_uploaded_at = doc_uploaded_at d\<rparr>)"

definition application_documents :: "string \<Rightarrow> string \<Rightarrow> string \<Rightarrow> db \<Rightarrow> document_row list" where
  "application_documents tenant_id application_id scope d =
     filter (\<lambda>r. dr_tenant r = tenant_id \<and> dr_application r = application_id)
       (visible dr_tenant scope (db_documents d))"

definition count_documents :: "string \<Rightarrow> string \<Rightarrow> ('x, nat) handler" where
  "count_documents tenant_id application_id =
     query (\<lambda>scope d. length (application_documents tenant_id application_id scope d))"

definition list_documents :: "env \<Rightarrow> string \<Rightarrow> string \<Rightarrow> ('x, uploaded_document list) handler" where
  "list_documents env tenant_id application_id =
     bnd (query (\<lambda>scope d. sort_key dr_uploaded_at
            (e_order_documents env (application_documents tenant_id application_id scope d))))
       (map_each (\<lambda>r. lift_result (row_to_document r)))"

subsection \<open>Extraction runs\<close>

definition add_extraction_run ::
  "string \<Rightarrow> string \<Rightarrow> string \<Rightarrow> string \<Rightarrow> document_classification \<Rightarrow> extracted_fact list
     \<Rightarrow> string list \<Rightarrow> datetime \<Rightarrow> ('x, unit) handler" where
  "add_extraction_run run_id tenant_id application_id document_id classification facts fact_ids completed_at =
     bnd (raise_if (length facts \<noteq> length fact_ids)
            (ValueError ''facts and fact_ids must be the same length'')) (\<lambda>_.
     bnd (execute (insert_extraction_run
            \<lparr>er_run = run_id, er_tenant = tenant_id, er_application = application_id,
             er_document = document_id, er_classification = classification_value classification,
             er_fact_count = length facts, er_completed_at = completed_at\<rparr>)) (\<lambda>_.
     bnd (map_each (\<lambda>(fact_id, fact). execute (insert_fact
            \<lparr>fr_id = fact_id, fr_run = run_id, fr_tenant = tenant_id, fr_application = application_id,
             fr_document = document_id, fr_type = fact_type_value (fact_type_of fact),
             fr_value = fact_value fact, fr_normalized = fact_normalized fact,
             fr_confidence = fact_confidence fact, fr_page = fact_page fact,
             fr_method = fact_method fact, fr_extractor = fact_extractor fact,
             fr_checksum = fact_checksum fact, fr_status = ''extracted'',
             fr_created_at = completed_at\<rparr>)) (zip fact_ids facts)) (\<lambda>_. ret ())))"

definition get_facts :: "env \<Rightarrow> string \<Rightarrow> string \<Rightarrow> ('x, stored_fact list) handler" where
  "get_facts env tenant_id application_id =
     bnd (query (\<lambda>scope d. e_order_facts env
            (filter (\<lambda>r. fr_tenant r = tenant_id \<and> fr_application r = application_id)
              (visible fr_tenant scope (db_facts d)))))
       (map_each (\<lambda>r. lift_result (row_to_stored_fact r)))"

subsection \<open>Verification runs\<close>

type_synonym response_snapshot = "source_system \<times> (string \<times> snapshot_value) list"

definition count_contradicted :: "verification_check list \<Rightarrow> nat" where
  "count_contradicted checks = length (filter (\<lambda>c. chk_verdict c = CONTRADICTED) checks)"

definition add_verification_run ::
  "env \<Rightarrow> string \<Rightarrow> string \<Rightarrow> string \<Rightarrow> verification_check list \<Rightarrow> string list
     \<Rightarrow> response_snapshot list \<Rightarrow> string list \<Rightarrow> datetime \<Rightarrow> ('x, unit) handler" where
  "add_verification_run env run_id tenant_id application_id checks check_ids snapshots snapshot_ids completed_at =
     bnd (raise_if (length checks \<noteq> length check_ids)
            (ValueError ''checks and check_ids must be the same length'')) (\<lambda>_.
     bnd (raise_if (length snapshots \<noteq> length snapshot_ids)
            (ValueError ''snapshots and snapshot_ids must be the same length'')) (\<lambda>_.
     bnd (execute (insert_verification_run
            \<lparr>vn_run = run_id, vn_tenant = tenant_id, vn_application = application_id,
             vn_check_count = length checks, vn_contradiction_count = count_contradicted checks,
             vn_completed_at = completed_at\<rparr>)) (\<lambda>_.
     bnd (map_each (\<lambda>(check_id, c). execute (insert_check
            \<lparr>cr_id = check_id, cr_run = run_id, cr_tenant = tenant_id, cr_application = application_id,
             cr_source = source_system_value (chk_source c), cr_fact_type = chk_fact_type c,
             cr_declared = chk_declared c, cr_external = chk_external c,
             cr_verdict = verdict_value (chk_verdict c), cr_confidence = chk_confidence c,
             cr_detail = chk_detail c, cr_created_at = completed_at\<rparr>)) (zip check_ids checks)) (\<lambda>_.
     bnd (map_each (\<lambda>(snapshot_id, (src, payload)). execute (insert_snapshot
            \<lparr>sr_id = snapshot_id, sr_run = run_id, sr_tenant = tenant_id,
             sr_application = application_id, sr_source = source_system_value src,
             sr_payload = payload, sr_captured_at = completed_at\<rparr>)) (zip snapshot_ids snapshots)) (\<lambda>_.
     bnd (map_each (\<lambda>(check_id, c).
            if chk_verdict c = CONTRADICTED then
              bnd (generate_id env) (\<lambda>contradiction_id. execute (insert_contradiction
                \<lparr>co_id = contradiction_id, co_check = check_id, co_tenant = tenant_id,
                 co_application = application_id, co_source = source_system_value (chk_source c),
                 co_fact_type = chk_fact_type c, co_detail = chk_detail c,
                 co_created_at = completed_at\<rparr>))
            else ret ()) (zip check_ids checks)) (\<lambda>_. ret ()))))))"

definition get_checks :: "env \<Rightarrow> string \<Rightarrow> string \<Rightarrow> ('x, verification_check list) handler" where
  "get_checks env tenant_id application_id =
     bnd (query (\<lambda>scope d. e_order_checks env
            (filter (\<lambda>r. cr_tenant r = tenant_id \<and> cr_application r = application_id)
              (visible cr_tenant scope (db_checks d)))))
       (map_each (\<lambda>r. lift_result (row_to_check r)))"

subsection \<open>Review queue\<close>

definition review_add :: "review_queue_entry \<Rightarrow> ('x, unit) handler" where
  "review_add entry =
     execute (insert_review
       \<lparr>rr_application = rq_application entry, rr_tenant = rq_tenant entry,
        rr_entered_at = rq_entered_at entry, rr_status = rq_status entry,
        rr_decision = rq_decision entry, rr_reason = rq_reason entry,
        rr_reviewer = rq_reviewer entry, rr_decided_at = rq_decided_at entry\<rparr>)"

definition review_row_of :: "string \<Rightarrow> ('x, review_row option) handler" where
  "review_row_of application_id =
     query (\<lambda>scope d. tbl_find rr_application application_id
              (visible rr_tenant scope (db_review_queue d)))"

definition review_get :: "string \<Rightarrow> string \<Rightarrow> ('x, review_queue_entry option) handler" where
  "review_get tenant_id application_id =
     bnd (review_row_of application_id) (\<lambda>row.
       case row of
         None \<Rightarrow> ret None
       | Some r \<Rightarrow>
           if rr_tenant r \<noteq> tenant_id then ret None
           else bnd (lift_result (row_to_entry r)) (\<lambda>e. ret (Some e)))"

definition decided_row ::
  "string \<Rightarrow> string \<Rightarrow> string option \<Rightarrow> datetime \<Rightarrow> review_row \<Rightarrow> review_row" where
  "decided_row decision reason reviewer_id decided_at r =
     r\<lparr>rr_status := ''decided'', rr_decision := Some decision, rr_reason := Some reason,
       rr_reviewer := reviewer_id, rr_decided_at := Some decided_at\<rparr>"

definition mark_decided ::
  "string \<Rightarrow> string \<Rightarrow> string \<Rightarrow> string \<Rightarrow> string option \<Rightarrow> datetime \<Rightarrow> ('x, unit) handler" where
  "mark_decided tenant_id application_id decision reason reviewer_id decided_at =
     bnd (review_row_of application_id) (\<lambda>row.
       let missing = raise (LookupError
             (''no review queue entry for application '' @ application_id @ '' to mark decided'')) in
       case row of
         None \<Rightarrow> missing
       | Some r \<Rightarrow>
           if rr_tenant r \<noteq> tenant_id then missing
           else execute (\<lambda>scope d. Inr (d\<lparr>db_review_queue :=
             tbl_update rr_application application_id
               (\<lambda>r. if rr_tenant r = scope then decided_row decision reason reviewer_id decided_at r else r)
               (db_review_queue d)\<rparr>)))"

end
