(* ===== verification/Unit_Of_Work.thy ===== *)
theory Unit_Of_Work
  imports Repositories
begin

text \<open>
  \<open>infrastructure/postgres/unit_of_work.py\<close>: idempotency-key reservation and the recording of
  domain events in the outbox and in the hash-chained audit log, in the transaction of the caller.

  The session does not autoflush, so rows added in the loop of \<open>record_domain_events\<close> are not
  seen by the \<open>session.get\<close> of a later iteration, while a checkpoint row already loaded is, with
  the changes made to it.  \<open>plan\<close> is that session state: the rows to insert and the loaded
  checkpoints.
\<close>

definition SCHEMA_VERSION :: int where
  "SCHEMA_VERSION = 1"

definition reserve_idempotency_key :: "env \<Rightarrow> string \<Rightarrow> string \<Rightarrow> string \<Rightarrow> ('x, bool) handler" where
  "reserve_idempotency_key env tenant_id key operation_name =
     bnd (clock_now env) (\<lambda>now.
     try_except
       (bnd (execute (insert_idempotency
          \<lparr>ik_tenant = tenant_id, ik_operation = operation_name, ik_key = key, ik_reserved_at = now\<rparr>))
        (\<lambda>_. ret True))
       (\<lambda>e. case e of IntegrityError _ \<Rightarrow> ret False | _ \<Rightarrow> raise e))"

record plan =
  pl_outbox :: "outbox_row list"
  pl_audit :: "audit_row list"
  pl_new_hashes :: "audit_hash_row list"
  pl_loaded :: "audit_hash_row list"

definition empty_plan :: plan where
  "empty_plan = \<lparr>pl_outbox = [], pl_audit = [], pl_new_hashes = [], pl_loaded = []\<rparr>"

text \<open>\<open>session.get(AuditHashRow, tenant)\<close>: the loaded row if there is one, else a query.\<close>

definition get_checkpoint :: "string \<Rightarrow> plan \<Rightarrow> ('x, audit_hash_row option) handler" where
  "get_checkpoint tenant_id p =
     (case tbl_find ah_tenant tenant_id (pl_loaded p) of
        Some h \<Rightarrow> ret (Some h)
      | None \<Rightarrow> query (\<lambda>scope d. tbl_find ah_tenant tenant_id (visible ah_tenant scope (db_audit_hashes d))))"

definition put_loaded :: "audit_hash_row \<Rightarrow> audit_hash_row list \<Rightarrow> audit_hash_row list" where
  "put_loaded h rows = h # filter (\<lambda>r. ah_tenant r \<noteq> ah_tenant h) rows"

definition outbox_row_of :: "domain_event \<Rightarrow> string \<Rightarrow> datetime \<Rightarrow> outbox_row" where
  "outbox_row_of event event_id now =
     (case event_to_record event of (event_type, aggregate_type, payload) \<Rightarrow>
       \<lparr>ob_id = event_id, ob_tenant = ev_tenant_id event, ob_event_type = event_type,
        ob_schema_version = SCHEMA_VERSION, ob_occurred_at = ev_occurred_at event,
        ob_aggregate_type = aggregate_type, ob_aggregate_id = ev_application_id event,
        ob_correlation_id = None, ob_causation_id = None, ob_payload = payload,
        ob_published_at = None, ob_created_at = now\<rparr>)"

definition audit_row_of :: "env \<Rightarrow> domain_event \<Rightarrow> string \<Rightarrow> datetime \<Rightarrow> string \<Rightarrow> audit_row" where
  "audit_row_of env event event_id now prev_hash =
     (case event_to_record event of (event_type, aggregate_type, payload) \<Rightarrow>
       \<lparr>au_id = event_id, au_tenant = ev_tenant_id event, au_occurred_at = ev_occurred_at event,
        au_event_type = event_type, au_aggregate_type = aggregate_type,
        au_aggregate_id = ev_application_id event, au_payload = payload, au_correlation_id = None,
        au_prev_hash = prev_hash,
        au_hash = compute_audit_hash (e_sha256 env) prev_hash event_id event_type
          (ev_application_id event) (ev_occurred_at event) payload,
        au_created_at = now\<rparr>)"

text \<open>One iteration of the loop.\<close>

definition stage_event :: "env \<Rightarrow> domain_event \<Rightarrow> plan \<Rightarrow> ('x, plan) handler" where
  "stage_event env event p =
     bnd (generate_id env) (\<lambda>event_id.
     bnd (clock_now env) (\<lambda>now.
     bnd (get_checkpoint (ev_tenant_id event) p) (\<lambda>checkpoint.
       let prev_hash = (case checkpoint of Some h \<Rightarrow> ah_latest_hash h | None \<Rightarrow> GENESIS_HASH);
           row = audit_row_of env event event_id now prev_hash;
           p' = p\<lparr>pl_outbox := pl_outbox p @ [outbox_row_of event event_id now],
                  pl_audit := pl_audit p @ [row]\<rparr>
       in case checkpoint of
            None \<Rightarrow> ret (p'\<lparr>pl_new_hashes := pl_new_hashes p' @
                [\<lparr>ah_tenant = ev_tenant_id event, ah_latest_event_id = Some event_id,
                  ah_latest_hash = au_hash row, ah_updated_at = now\<rparr>]\<rparr>)
          | Some h \<Rightarrow> ret (p'\<lparr>pl_loaded := put_loaded
                (h\<lparr>ah_latest_event_id := Some event_id, ah_latest_hash := au_hash row,
                   ah_updated_at := now\<rparr>) (pl_loaded p')\<rparr>))))"

fun stage_events :: "env \<Rightarrow> domain_event list \<Rightarrow> plan \<Rightarrow> ('x, plan) handler" where
  "stage_events env [] p = ret p"
| "stage_events env (e # es) p = bnd (stage_event env e p) (stage_events env es)"

definition execute_all :: "('r \<Rightarrow> string \<Rightarrow> db \<Rightarrow> py_error + db) \<Rightarrow> 'r list \<Rightarrow> ('x, unit) handler" where
  "execute_all f rows = bnd (map_each (\<lambda>r. execute (f r)) rows) (\<lambda>_. ret ())"

definition update_checkpoint :: "audit_hash_row \<Rightarrow> string \<Rightarrow> db \<Rightarrow> py_error + db" where
  "update_checkpoint h scope d =
     Inr (d\<lparr>db_audit_hashes := tbl_update ah_tenant (ah_tenant h)
       (\<lambda>r. if ah_tenant r = scope then h else r) (db_audit_hashes d)\<rparr>)"

definition flush_plan :: "plan \<Rightarrow> ('x, unit) handler" where
  "flush_plan p =
     bnd (execute_all insert_outbox (pl_outbox p)) (\<lambda>_.
     bnd (execute_all insert_audit_event (pl_audit p)) (\<lambda>_.
     bnd (execute_all insert_audit_hash (pl_new_hashes p)) (\<lambda>_.
     execute_all update_checkpoint (pl_loaded p))))"

definition record_domain_events :: "env \<Rightarrow> domain_event list \<Rightarrow> ('x, unit) handler" where
  "record_domain_events env events = bnd (stage_events env events empty_plan) flush_plan"

text \<open>
  The prologue every command handler shares: reserve the key, raise \<open>DuplicateRequestError\<close> if it
  was taken.
\<close>

definition reserve_or_raise :: "env \<Rightarrow> string \<Rightarrow> string \<Rightarrow> string \<Rightarrow> ('x, unit) handler" where
  "reserve_or_raise env tenant_id key operation_name =
     bnd (reserve_idempotency_key env tenant_id key operation_name) (\<lambda>reserved.
       raise_if (\<not> reserved) (DuplicateRequestError operation_name key))"

subsection \<open>Reservation\<close>

definition reserved :: "db \<Rightarrow> string \<Rightarrow> string \<Rightarrow> string \<Rightarrow> bool" where
  "reserved d tenant_id operation_name key \<longleftrightarrow>
     (tenant_id, operation_name, key)
       \<in> (\<lambda>i. (ik_tenant i, ik_operation i, ik_key i)) ` set (db_idempotency_keys d)"

lemma reserve_taken:
  assumes "reserved (w_sess w) t op k" "w_scope w = t"
  shows "reserve_or_raise env t k op w
    = (Inl (DuplicateRequestError op k), w\<lparr>w_clk := w_clk w + 1\<rparr>)"
  using assms
  by (simp add: reserve_or_raise_def reserve_idempotency_key_def bnd_def try_except_def execute_def
      insert_idempotency_def guard_row_def reserved_def)

lemma reserve_free:
  assumes "\<not> reserved (w_sess w) t op k" "w_scope w = t"
  shows "reserve_or_raise env t k op w = (Inr (), w\<lparr>w_clk := w_clk w + 1,
    w_sess := (w_sess w)\<lparr>db_idempotency_keys := db_idempotency_keys (w_sess w) @
      [\<lparr>ik_tenant = t, ik_operation = op, ik_key = k, ik_reserved_at = e_clock env (w_clk w)\<rparr>]\<rparr>\<rparr>)"
  using assms
  by (simp add: reserve_or_raise_def reserve_idempotency_key_def bnd_def try_except_def execute_def
      insert_idempotency_def guard_row_def reserved_def)

lemma reserve_or_raise_cases:
  assumes "w_scope w = t"
  shows "reserve_or_raise env t k op w =
    (if reserved (w_sess w) t op k then (Inl (DuplicateRequestError op k), w\<lparr>w_clk := w_clk w + 1\<rparr>)
     else (Inr (), w\<lparr>w_clk := w_clk w + 1,
       w_sess := (w_sess w)\<lparr>db_idempotency_keys := db_idempotency_keys (w_sess w) @
         [\<lparr>ik_tenant = t, ik_operation = op, ik_key = k, ik_reserved_at = e_clock env (w_clk w)\<rparr>]\<rparr>\<rparr>))"
  using reserve_taken [OF _ assms] reserve_free [OF _ assms] by simp

subsection \<open>Everything before the commit is quiet\<close>

lemma quiet_case_error [quiet_intros]:
  "(\<And>m. quiet (f m)) \<Longrightarrow> (\<And>e. quiet (g e)) \<Longrightarrow>
   quiet (case e of IntegrityError m \<Rightarrow> f m | _ \<Rightarrow> g e)"
  by (cases e) auto

lemma quiet_reserve [quiet_intros]: "quiet (reserve_or_raise env t k op)"
  unfolding reserve_or_raise_def reserve_idempotency_key_def
  by (intro quiet_intros)

lemma quiet_get_checkpoint [quiet_intros]: "quiet (get_checkpoint t p)"
  unfolding get_checkpoint_def by (auto split: option.splits intro: quiet_intros)

lemma quiet_stage_event [quiet_intros]: "quiet (stage_event env e p)"
  unfolding stage_event_def Let_def by (intro quiet_intros)

lemma quiet_stage_events [quiet_intros]: "quiet (stage_events env es p)"
  by (induction es arbitrary: p) (auto intro: quiet_intros simp del: ret_run)

lemma quiet_execute_all [quiet_intros]: "quiet (execute_all f rows)"
  unfolding execute_all_def by (intro quiet_intros)

lemma quiet_record [quiet_intros]: "quiet (record_domain_events env events)"
  unfolding record_domain_events_def flush_plan_def by (intro quiet_intros)

subsection \<open>Quiet repositories\<close>

lemma quiet_repositories [quiet_intros]:
  "quiet (get_application_row k)" "quiet (application_get t k)"
  "quiet (application_save env a)" "quiet (applicant_add env p)" "quiet (applicant_get t k)"
  "quiet (product_get k)" "quiet (product_get_by_code k)" "quiet (document_add d)"
  "quiet (count_documents t k)" "quiet (list_documents env t k)"
  "quiet (add_extraction_run run t k doc cl fs ids now)" "quiet (get_facts env t k)"
  "quiet (add_verification_run env run t k cs cids ss sids now)" "quiet (get_checks env t k)"
  "quiet (review_add entry)" "quiet (review_row_of k)" "quiet (review_get t k)"
  "quiet (mark_decided t k dec rea rvw now)"
  unfolding get_application_row_def application_get_def application_save_def applicant_add_def
    applicant_get_def product_get_def product_get_by_code_def document_add_def count_documents_def
    list_documents_def add_extraction_run_def get_facts_def add_verification_run_def get_checks_def
    review_add_def review_row_of_def review_get_def mark_decided_def Let_def case_prod_beta
  by (intro quiet_intros)+

lemma quiet_application_add [quiet_intros]: "quiet (application_add env a)"
  unfolding application_add_def by (intro quiet_intros)

end
