(* ===== verification/Lifecycle.thy ===== *)
theory Lifecycle
  imports Unit_Of_Work
begin

text \<open>
  The command handlers that move a case: \<open>application/commands/create_application.py\<close>,
  \<open>submit_application.py\<close>, \<open>resubmit_application.py\<close>, \<open>advance_intake_validation.py\<close>,
  \<open>advance_document_processing.py\<close>, \<open>enter_human_review.py\<close> and \<open>apply_review_decision.py\<close>.  Each
  handler is its transaction body (\<open>..._body\<close>, everything inside the \<open>async with\<close> before
  \<open>commit\<close>) run by \<open>transaction\<close>; submit and resubmit then start a workflow, best effort, after
  the transaction.  Log lines are not modelled.
\<close>

subsection \<open>Commands and results\<close>

record create_command =
  cc_tenant :: string
  cc_key :: string
  cc_given_name :: string
  cc_family_name :: string
  cc_date_of_birth :: date
  cc_email :: string
  cc_product :: string
  cc_amount :: money
  cc_term :: int

record case_command =
  c_tenant :: string
  c_application :: string
  c_key :: string

record review_command = case_command +
  c_reason :: string

record decision_command = review_command +
  c_decision :: application_status
  c_reviewer :: "string option"

record case_result =
  res_application :: string
  res_status :: application_status
  res_version :: int

record created_result = case_result +
  res_applicant :: string

record started_result = case_result +
  res_workflow :: "string option"

record intake_result = case_result +
  res_accepted :: bool

record document_result = case_result +
  res_document_count :: nat

record workflow_start =
  ws_workflow :: string
  ws_tenant :: string
  ws_application :: string
  ws_version :: int
  ws_starting_status :: string

type_synonym 'x workflow_runner = "workflow_start \<Rightarrow> 'x \<Rightarrow> (py_error + unit) \<times> 'x"

definition result_of :: "application \<Rightarrow> case_result" where
  "result_of a = \<lparr>res_application = app_id a, res_status = app_status a, res_version = app_version a\<rparr>"

definition application_workflow_id :: "string \<Rightarrow> string \<Rightarrow> int \<Rightarrow> string" where
  "application_workflow_id tenant_id application_id version =
     ''application:'' @ tenant_id @ '':'' @ application_id @ '':v'' @ show_int version"

subsection \<open>Shared pieces\<close>

text \<open>The body of an \<open>async with ... as uow\<close> block that ends with \<open>commit\<close> and a return.\<close>

definition transaction :: "string \<Rightarrow> ('x, 'a) handler \<Rightarrow> ('x, 'a) handler" where
  "transaction tenant body = with_uow tenant (bnd body (\<lambda>r. bnd commit (\<lambda>_. ret r)))"

definition load_application :: "string \<Rightarrow> string \<Rightarrow> ('x, application) handler" where
  "load_application tenant_id application_id =
     bnd (application_get tenant_id application_id)
       (from_some (ApplicationNotFoundError application_id))"

definition save_and_move ::
  "env \<Rightarrow> application_status \<Rightarrow> string \<Rightarrow> application \<Rightarrow> ('x, application) handler" where
  "save_and_move env new_status reason a =
     bnd (at_now env (\<lambda>now. transition_to new_status reason now a)) (\<lambda>b.
     bnd (application_save env b) (\<lambda>_. ret b))"

text \<open>\<open>commands/_enter_human_review.py\<close>\<close>

definition enter_human_review :: "env \<Rightarrow> string \<Rightarrow> application \<Rightarrow> ('x, application) handler" where
  "enter_human_review env reason a =
     bnd (save_and_move env AWAITING_HUMAN_REVIEW reason a) (\<lambda>b.
     bnd (clock_now env) (\<lambda>entered.
     bnd (review_add \<lparr>rq_application = app_id b, rq_tenant = app_tenant b, rq_entered_at = entered,
            rq_status = ''pending'', rq_decision = None, rq_reason = None, rq_reviewer = None,
            rq_decided_at = None\<rparr>) (\<lambda>_. ret b)))"

text \<open>\<open>uow.record_domain_events(application.pull_events())\<close>\<close>

definition publish :: "env \<Rightarrow> application \<Rightarrow> ('x, application) handler" where
  "publish env a =
     (case pull_events a of (events, a') \<Rightarrow> bnd (record_domain_events env events) (\<lambda>_. ret a'))"

text \<open>
  The best-effort start after the commit of submit and resubmit: any exception is swallowed (the
  code logs it).
\<close>

definition start_best_effort ::
  "'x workflow_runner option \<Rightarrow> workflow_start \<Rightarrow> ('x, unit) handler" where
  "start_best_effort runner start =
     (case runner of
        None \<Rightarrow> ret ()
      | Some run \<Rightarrow> try_except (external (run start)) (\<lambda>_. ret ()))"

subsection \<open>Create\<close>

definition create_application_body :: "env \<Rightarrow> create_command \<Rightarrow> ('x, created_result) handler" where
  "create_application_body env c =
     bnd (reserve_or_raise env (cc_tenant c) (cc_key c) ''create_application'') (\<lambda>_.
     bnd (product_get (cc_product c)) (\<lambda>found.
     bnd (from_some (ProductNotFoundError (cc_product c)) found) (\<lambda>product.
     bnd (lift_result (accepts product (cc_amount c) (cc_term c))) (\<lambda>ok.
     bnd (raise_if (\<not> ok) (ProductRejectedRequestError (cc_product c)
            (dec_str (amount (cc_amount c))) (cc_term c))) (\<lambda>_.
     bnd (generate_id env) (\<lambda>raw_applicant_id.
     bnd (lift_result (mk_id ApplicantId raw_applicant_id)) (\<lambda>applicant_id.
     bnd (lift_result (mk_Applicant
            \<lparr>apl_id = applicant_id, apl_tenant = cc_tenant c, apl_given_name = cc_given_name c,
             apl_family_name = cc_family_name c, apl_date_of_birth = cc_date_of_birth c,
             apl_email = cc_email c\<rparr>)) (\<lambda>applicant.
     bnd (applicant_add env applicant) (\<lambda>_.
     bnd (generate_id env) (\<lambda>raw_application_id.
     bnd (lift_result (mk_id ApplicationId raw_application_id)) (\<lambda>application_id.
     bnd (at_now env (create application_id (cc_tenant c) (apl_id applicant) product
            (cc_amount c) (cc_term c))) (\<lambda>a.
     bnd (application_add env a) (\<lambda>_.
     bnd (publish env a) (\<lambda>a'.
       ret (case_result.extend (result_of a') \<lparr>res_applicant = apl_id applicant\<rparr>)))))))))))))))"

definition create_application :: "env \<Rightarrow> create_command \<Rightarrow> ('x, created_result) handler" where
  "create_application env c = transaction (cc_tenant c) (create_application_body env c)"

subsection \<open>Submit and resubmit\<close>

definition move_and_attach ::
  "env \<Rightarrow> string \<Rightarrow> (datetime \<Rightarrow> application \<Rightarrow> py_error + application) \<Rightarrow> case_command
     \<Rightarrow> ('x, application) handler" where
  "move_and_attach env operation_name move c =
     bnd (reserve_or_raise env (c_tenant c) (c_key c) operation_name) (\<lambda>_.
     bnd (load_application (c_tenant c) (c_application c)) (\<lambda>a.
     bnd (at_now env (\<lambda>now. move now a)) (\<lambda>b.
     let b' = attach_workflow
           (application_workflow_id (c_tenant c) (c_application c) (app_version b)) b in
     bnd (application_save env b') (\<lambda>_. publish env b'))))"

definition start_after ::
  "'x workflow_runner option \<Rightarrow> application_status \<Rightarrow> case_command \<Rightarrow> application
     \<Rightarrow> ('x, started_result) handler" where
  "start_after runner starting_status c a =
     (let workflow_id = application_workflow_id (c_tenant c) (c_application c) (app_version a) in
      bnd (start_best_effort runner
             \<lparr>ws_workflow = workflow_id, ws_tenant = c_tenant c, ws_application = c_application c,
              ws_version = app_version a, ws_starting_status = status_value starting_status\<rparr>)
        (\<lambda>_. ret (case_result.extend (result_of a) \<lparr>res_workflow = Some workflow_id\<rparr>)))"

definition submit_application ::
  "env \<Rightarrow> 'x workflow_runner option \<Rightarrow> case_command \<Rightarrow> ('x, started_result) handler" where
  "submit_application env runner c =
     bnd (transaction (c_tenant c) (move_and_attach env ''submit_application'' submit c))
       (start_after runner SUBMITTED c)"

definition resubmit_application ::
  "env \<Rightarrow> 'x workflow_runner option \<Rightarrow> case_command \<Rightarrow> ('x, started_result) handler" where
  "resubmit_application env runner c =
     bnd (transaction (c_tenant c)
            (move_and_attach env ''resubmit_application''
               (transition_to DOCUMENT_PROCESSING ''applicant resubmitted with additional information'') c))
       (start_after runner DOCUMENT_PROCESSING c)"

subsection \<open>Automated stages\<close>

definition intake_flag_reason :: "application \<Rightarrow> string" where
  "intake_flag_reason a =
     ''intake validation flagged: product '' @ app_product a @ '' catalog bounds do not cover amount=''
       @ dec_str (amount (app_amount a)) @ '' term_months='' @ show_int (app_term a)
       @ '' -- requires human review''"

definition advance_intake_body :: "env \<Rightarrow> case_command \<Rightarrow> ('x, intake_result) handler" where
  "advance_intake_body env c =
     bnd (reserve_or_raise env (c_tenant c) (c_key c) ''advance_intake_validation'') (\<lambda>_.
     bnd (load_application (c_tenant c) (c_application c)) (\<lambda>a.
     bnd (product_get (app_product a)) (\<lambda>found.
     bnd (from_some (ProductNotFoundError (app_product a)) found) (\<lambda>product.
     bnd (save_and_move env INTAKE_VALIDATION ''entering automated intake validation'' a) (\<lambda>b.
     bnd (lift_result (accepts product (app_amount b) (app_term b))) (\<lambda>accepted.
     bnd (if accepted
          then save_and_move env DOCUMENT_PROCESSING
                 ''intake validation passed: within product catalog bounds'' b
          else enter_human_review env (intake_flag_reason b) b) (\<lambda>b'.
     bnd (publish env b') (\<lambda>b''.
       ret (case_result.extend (result_of b'') \<lparr>res_accepted = accepted\<rparr>)))))))))"

definition advance_intake_validation :: "env \<Rightarrow> case_command \<Rightarrow> ('x, intake_result) handler" where
  "advance_intake_validation env c = transaction (c_tenant c) (advance_intake_body env c)"

definition advance_documents_body :: "env \<Rightarrow> case_command \<Rightarrow> ('x, document_result) handler" where
  "advance_documents_body env c =
     bnd (reserve_or_raise env (c_tenant c) (c_key c) ''advance_document_processing'') (\<lambda>_.
     bnd (load_application (c_tenant c) (c_application c)) (\<lambda>a.
     bnd (count_documents (c_tenant c) (c_application c)) (\<lambda>n.
     bnd (if 1 \<le> n
          then save_and_move env VERIFICATION (show_nat n @ '' document(s) present'') a
          else enter_human_review env ''no documents uploaded -- requires human review'' a) (\<lambda>b.
     bnd (publish env b) (\<lambda>b'.
       ret (case_result.extend (result_of b') \<lparr>res_document_count = n\<rparr>))))))"

definition advance_document_processing :: "env \<Rightarrow> case_command \<Rightarrow> ('x, document_result) handler" where
  "advance_document_processing env c = transaction (c_tenant c) (advance_documents_body env c)"

definition enter_review_body :: "env \<Rightarrow> review_command \<Rightarrow> ('x, case_result) handler" where
  "enter_review_body env c =
     bnd (reserve_or_raise env (c_tenant c) (c_key c) ''enter_human_review'') (\<lambda>_.
     bnd (load_application (c_tenant c) (c_application c)) (\<lambda>a.
     bnd (enter_human_review env (c_reason c) a) (\<lambda>b.
     bnd (publish env b) (\<lambda>b'. ret (result_of b')))))"

definition enter_human_review_handler :: "env \<Rightarrow> review_command \<Rightarrow> ('x, case_result) handler" where
  "enter_human_review_handler env c = transaction (c_tenant c) (enter_review_body env c)"

subsection \<open>The human decision\<close>

definition ALLOWED_DECISIONS :: "application_status list" where
  "ALLOWED_DECISIONS = [APPROVED, DECLINED, NEEDS_MORE_INFORMATION, ESCALATED]"

definition apply_decision_body :: "env \<Rightarrow> decision_command \<Rightarrow> ('x, case_result) handler" where
  "apply_decision_body env c =
     bnd (reserve_or_raise env (c_tenant c) (c_key c) ''apply_review_decision'') (\<lambda>_.
     bnd (load_application (c_tenant c) (c_application c)) (\<lambda>a.
     bnd (at_now env (\<lambda>now. transition_to (c_decision c) (c_reason c) now a)) (\<lambda>b.
     let b' = detach_workflow b in
     bnd (clock_now env) (\<lambda>now.
     bnd (mark_decided (c_tenant c) (c_application c) (status_value (c_decision c)) (c_reason c)
            (c_reviewer c) now) (\<lambda>_.
     bnd (application_save env b') (\<lambda>_.
     bnd (publish env b') (\<lambda>b''. ret (result_of b''))))))))"

definition apply_review_decision :: "env \<Rightarrow> decision_command \<Rightarrow> ('x, case_result) handler" where
  "apply_review_decision env c =
     bnd (raise_if (c_decision c \<notin> set ALLOWED_DECISIONS)
            (InvalidApplicationDataError (''decision '' @ py_repr (status_value (c_decision c))
              @ '' is not a valid human-review outcome''))) (\<lambda>_.
     transaction (c_tenant c) (apply_decision_body env c))"

subsection \<open>Quiet bodies\<close>

lemma quiet_shared [quiet_intros]:
  "quiet (load_application t k)" "quiet (save_and_move env s r a)" "quiet (publish env a)"
  "quiet (enter_human_review env r a)" "quiet (start_best_effort runner start)"
  unfolding load_application_def save_and_move_def publish_def enter_human_review_def
    start_best_effort_def
  by (intro quiet_intros)+

lemma quiet_bodies [quiet_intros]:
  "quiet (create_application_body env cc)" "quiet (move_and_attach env op move c)"
  "quiet (advance_intake_body env c)" "quiet (advance_documents_body env c)"
  "quiet (enter_review_body env rc)" "quiet (apply_decision_body env dc)"
  "quiet (start_after runner s c a)"
  unfolding create_application_body_def move_and_attach_def advance_intake_body_def
    advance_documents_body_def enter_review_body_def apply_decision_body_def start_after_def Let_def
  by (intro quiet_intros)+

lemma transaction_error:
  "quiet m \<Longrightarrow> transaction t m w = (Inl e, w') \<Longrightarrow> w_db w' = w_db w"
  unfolding transaction_def by (rule with_uow_error)

lemma transaction_success:
  assumes "transaction t m w = (Inr y, w')"
  obtains w1 where "m (aenter t w) = (Inr y, w1)" "w_db w' = w_sess w1" "w_ext w' = w_ext w1"
    "w_ids w' = w_ids w1" "w_clk w' = w_clk w1"
  using assms unfolding transaction_def by (rule with_uow_success) blast

end
