(* ===== verification/Frames.thy ===== *)
theory Frames
  imports Lifecycle
begin

text \<open>
  What an operation leaves alone.  \<open>leaves p m\<close>: the projection \<open>p\<close> of the session's database is
  the same after \<open>m\<close>, returning or raising.  \<open>confined m\<close>: \<open>m\<close> touches only rows of the tenant
  the session is scoped to.  Both are closed under the monad, so a handler inherits them from its
  primitives.
\<close>

subsection \<open>Untouched tables\<close>

definition leaves :: "(db \<Rightarrow> 'p) \<Rightarrow> ('x, 'a) handler \<Rightarrow> bool" where
  "leaves p m \<longleftrightarrow> stays (\<lambda>w w'. p (w_sess w') = p (w_sess w) \<and> w_scope w' = w_scope w) m"

named_theorems leaves_intros \<open>what operations leave alone\<close>

lemma leaves_order:
  "reflp (\<lambda>w w'. p (w_sess w') = p (w_sess w) \<and> w_scope w' = w_scope w)"
  "transp (\<lambda>w w'. p (w_sess w') = p (w_sess w) \<and> w_scope w' = w_scope w)"
  by (auto simp: reflp_def transp_def)

lemma leaves_bnd [leaves_intros]:
  "leaves p m \<Longrightarrow> (\<And>x. leaves p (f x)) \<Longrightarrow> leaves p (bnd m f)"
  unfolding leaves_def by (rule stays_bnd [OF leaves_order(2)])

lemma leaves_try [leaves_intros]:
  "leaves p m \<Longrightarrow> (\<And>e. leaves p (h e)) \<Longrightarrow> leaves p (try_except m h)"
  unfolding leaves_def by (rule stays_try_except [OF leaves_order(2)])

lemma leaves_refl [leaves_intros]:
  "leaves p (ret x)" "leaves p (raise e)" "leaves p (lift_result r)"
  "leaves p (raise_if b e)" "leaves p (from_some e opt)"
  unfolding leaves_def by (rule stays_refl_steps [OF leaves_order(1)])+

lemma leaves_map_each [leaves_intros]:
  "(\<And>x. leaves p (f x)) \<Longrightarrow> leaves p (map_each f xs)"
  unfolding leaves_def by (rule stays_map_each [OF leaves_order])

lemma leaves_if [leaves_intros]: "leaves p m \<Longrightarrow> leaves p n \<Longrightarrow> leaves p (if b then m else n)"
  by simp

lemma leaves_case_option [leaves_intros]:
  "leaves p m \<Longrightarrow> (\<And>x. leaves p (f x)) \<Longrightarrow> leaves p (case opt of None \<Rightarrow> m | Some x \<Rightarrow> f x)"
  by (cases opt) auto

lemma leaves_case_prod [leaves_intros]:
  "(\<And>x y. leaves p (f x y)) \<Longrightarrow> leaves p (case q of (x, y) \<Rightarrow> f x y)"
  by (cases q) auto

lemma leaves_case_error [leaves_intros]:
  "(\<And>m. leaves p (f m)) \<Longrightarrow> (\<And>e. leaves p (g e)) \<Longrightarrow>
   leaves p (case e of IntegrityError m \<Rightarrow> f m | _ \<Rightarrow> g e)"
  by (cases e) auto

lemma leaves_primitives [leaves_intros]:
  "leaves p (clock_now env)" "leaves p (generate_id env)" "leaves p (at_now env g)"
  "leaves p (query q)" "leaves p (external h)"
  by (auto simp: leaves_def stays_def at_now_def external_def split: sum.splits prod.splits)

lemma leaves_execute:
  "(\<And>scope d d'. f scope d = Inr d' \<Longrightarrow> p d' = p d) \<Longrightarrow> leaves p (execute f)"
  by (auto simp: leaves_def stays_def execute_def split: sum.splits)

lemma leavesD: "leaves p m \<Longrightarrow> m w = (r, w') \<Longrightarrow> p (w_sess w') = p (w_sess w) \<and> w_scope w' = w_scope w"
  unfolding leaves_def by (drule staysD) auto

definition ledger_part :: "db \<Rightarrow> outbox_row list \<times> audit_row list \<times> audit_hash_row list" where
  "ledger_part d = (db_outbox d, db_audit_events d, db_audit_hashes d)"

definition case_part :: "db \<Rightarrow> application_row list \<times> version_row list" where
  "case_part d = (db_applications d, db_versions d)"

lemma leaves_ledger_inserts [leaves_intros]:
  "leaves ledger_part (execute (insert_applicant r1))" "leaves ledger_part (execute (insert_application r2))"
  "leaves ledger_part (execute (insert_version r3))" "leaves ledger_part (execute (insert_idempotency r4))"
  "leaves ledger_part (execute (insert_document r5))" "leaves ledger_part (execute (insert_review r6))"
  "leaves ledger_part (execute (insert_extraction_run r7))" "leaves ledger_part (execute (insert_fact r8))"
  "leaves ledger_part (execute (insert_verification_run r9))" "leaves ledger_part (execute (insert_check r10))"
  "leaves ledger_part (execute (insert_contradiction r11))" "leaves ledger_part (execute (insert_snapshot r12))"
  by (rule leaves_execute, auto simp: insert_defs bind_result_Inr_iff ledger_part_def)+

lemma leaves_case_inserts [leaves_intros]:
  "leaves case_part (execute (insert_applicant r1))" "leaves case_part (execute (insert_outbox r2))"
  "leaves case_part (execute (insert_audit_event r3))" "leaves case_part (execute (insert_idempotency r4))"
  "leaves case_part (execute (insert_document r5))" "leaves case_part (execute (insert_review r6))"
  "leaves case_part (execute (insert_extraction_run r7))" "leaves case_part (execute (insert_fact r8))"
  "leaves case_part (execute (insert_verification_run r9))" "leaves case_part (execute (insert_check r10))"
  "leaves case_part (execute (insert_contradiction r11))" "leaves case_part (execute (insert_snapshot r12))"
  "leaves case_part (execute (insert_audit_hash r13))" "leaves case_part (execute (update_checkpoint r14))"
  by (rule leaves_execute, auto simp: insert_defs bind_result_Inr_iff case_part_def update_checkpoint_def)+

lemma leaves_key_inserts [leaves_intros]:
  "leaves db_idempotency_keys (execute (insert_applicant r1))"
  "leaves db_idempotency_keys (execute (insert_application r2))"
  "leaves db_idempotency_keys (execute (insert_version r3))"
  "leaves db_idempotency_keys (execute (insert_outbox r4))"
  "leaves db_idempotency_keys (execute (insert_audit_event r5))"
  "leaves db_idempotency_keys (execute (insert_audit_hash r6))"
  "leaves db_idempotency_keys (execute (update_checkpoint r7))"
  "leaves db_idempotency_keys (execute (insert_document r8))"
  "leaves db_idempotency_keys (execute (insert_review r9))"
  "leaves db_idempotency_keys (execute (insert_extraction_run r10))"
  "leaves db_idempotency_keys (execute (insert_fact r11))"
  "leaves db_idempotency_keys (execute (insert_verification_run r12))"
  "leaves db_idempotency_keys (execute (insert_check r13))"
  "leaves db_idempotency_keys (execute (insert_contradiction r14))"
  "leaves db_idempotency_keys (execute (insert_snapshot r15))"
  by (rule leaves_execute, auto simp: insert_defs bind_result_Inr_iff update_checkpoint_def)+

lemma leaves_update_application [leaves_intros]:
  "leaves ledger_part (execute (update_application k f))"
  "leaves db_idempotency_keys (execute (update_application k f))"
  by (rule leaves_execute,
      auto simp: update_application_def bind_result_Inr_iff ledger_part_def split: option.splits)+

lemma leaves_queries [leaves_intros]:
  "leaves p (get_application_row k)" "leaves p (application_get t k)" "leaves p (applicant_get t k)"
  "leaves p (product_get k)" "leaves p (product_get_by_code k)" "leaves p (count_documents t k)"
  "leaves p (list_documents env t k)" "leaves p (get_facts env t k)" "leaves p (get_checks env t k)"
  "leaves p (review_row_of k)" "leaves p (review_get t k)" "leaves p (load_application t k)"
  "leaves p (get_checkpoint t pl)" "leaves p (stage_event env e pl)" "leaves p (start_best_effort runner start)"
  unfolding get_application_row_def application_get_def applicant_get_def product_get_def
    product_get_by_code_def count_documents_def list_documents_def get_facts_def get_checks_def
    review_row_of_def review_get_def load_application_def get_checkpoint_def stage_event_def
    start_best_effort_def Let_def
  by (intro leaves_intros)+

lemma leaves_stage_events [leaves_intros]: "leaves p (stage_events env es pl)"
  by (induction es arbitrary: pl) (auto intro: leaves_intros simp del: ret_run)

lemma leaves_mark_decided [leaves_intros]:
  "leaves ledger_part (mark_decided t k dec rea rvw now)"
  "leaves case_part (mark_decided t k dec rea rvw now)"
  "leaves db_idempotency_keys (mark_decided t k dec rea rvw now)"
  unfolding mark_decided_def Let_def
  by (intro leaves_intros leaves_execute; auto simp: ledger_part_def case_part_def)+

text \<open>The case and the key tables see nothing of the event recording, nor the ledger of the rest.\<close>

lemma leaves_case_operations [leaves_intros]:
  "leaves case_part (reserve_or_raise env t k op)" "leaves case_part (applicant_add env p)"
  "leaves case_part (document_add d)" "leaves case_part (review_add e)"
  "leaves case_part (record_domain_events env es)" "leaves case_part (publish env a)"
  "leaves case_part (add_extraction_run run t k doc cl fs ids now)"
  "leaves case_part (add_verification_run env run t k cs cids ss sids now)"
  unfolding reserve_or_raise_def reserve_idempotency_key_def applicant_add_def document_add_def
    review_add_def record_domain_events_def flush_plan_def execute_all_def publish_def
    add_extraction_run_def add_verification_run_def case_prod_beta
  by (intro leaves_intros)+

lemma leaves_ledger_operations [leaves_intros]:
  "leaves ledger_part (reserve_or_raise env t k op)" "leaves ledger_part (applicant_add env p)"
  "leaves ledger_part (document_add d)" "leaves ledger_part (review_add e)"
  "leaves ledger_part (application_add env a)" "leaves ledger_part (application_save env a)"
  "leaves ledger_part (save_and_move env s r a)" "leaves ledger_part (enter_human_review env r a)"
  "leaves ledger_part (add_extraction_run run t k doc cl fs ids now)"
  "leaves ledger_part (add_verification_run env run t k cs cids ss sids now)"
  unfolding reserve_or_raise_def reserve_idempotency_key_def applicant_add_def document_add_def
    review_add_def application_add_def application_save_def save_and_move_def enter_human_review_def
    add_extraction_run_def add_verification_run_def case_prod_beta Let_def
  by (intro leaves_intros)+

lemma leaves_key_operations [leaves_intros]:
  "leaves db_idempotency_keys (applicant_add env p)"
  "leaves db_idempotency_keys (document_add d)" "leaves db_idempotency_keys (review_add e)"
  "leaves db_idempotency_keys (application_add env a)"
  "leaves db_idempotency_keys (application_save env a)"
  "leaves db_idempotency_keys (save_and_move env s r a)"
  "leaves db_idempotency_keys (enter_human_review env r a)"
  "leaves db_idempotency_keys (record_domain_events env es)"
  "leaves db_idempotency_keys (publish env a)"
  "leaves db_idempotency_keys (add_extraction_run run t k doc cl fs ids now)"
  "leaves db_idempotency_keys (add_verification_run env run t k cs cids ss sids now)"
  unfolding applicant_add_def document_add_def
    review_add_def application_add_def application_save_def save_and_move_def enter_human_review_def
    add_extraction_run_def add_verification_run_def case_prod_beta Let_def record_domain_events_def
    flush_plan_def execute_all_def publish_def
  by (intro leaves_intros)+

subsection \<open>Tenant confinement\<close>

definition others :: "('r \<Rightarrow> string) \<Rightarrow> string \<Rightarrow> 'r list \<Rightarrow> 'r list" where
  "others tenant t rows = filter (\<lambda>r. tenant r \<noteq> t) rows"

definition isolated :: "string \<Rightarrow> db \<Rightarrow> db \<Rightarrow> bool" where
  "isolated t d d' \<longleftrightarrow>
     db_tenants d' = db_tenants d \<and> db_products d' = db_products d \<and> db_inbox d' = db_inbox d \<and>
     db_projections d' = db_projections d \<and>
     others ar_tenant t (db_applicants d') = others ar_tenant t (db_applicants d) \<and>
     others ap_tenant t (db_applications d') = others ap_tenant t (db_applications d) \<and>
     others vr_tenant t (db_versions d') = others vr_tenant t (db_versions d) \<and>
     others ob_tenant t (db_outbox d') = others ob_tenant t (db_outbox d) \<and>
     others ik_tenant t (db_idempotency_keys d') = others ik_tenant t (db_idempotency_keys d) \<and>
     others au_tenant t (db_audit_events d') = others au_tenant t (db_audit_events d) \<and>
     others ah_tenant t (db_audit_hashes d') = others ah_tenant t (db_audit_hashes d) \<and>
     others dr_tenant t (db_documents d') = others dr_tenant t (db_documents d) \<and>
     others rr_tenant t (db_review_queue d') = others rr_tenant t (db_review_queue d) \<and>
     others er_tenant t (db_extraction_runs d') = others er_tenant t (db_extraction_runs d) \<and>
     others fr_tenant t (db_facts d') = others fr_tenant t (db_facts d) \<and>
     others vn_tenant t (db_verification_runs d') = others vn_tenant t (db_verification_runs d) \<and>
     others cr_tenant t (db_checks d') = others cr_tenant t (db_checks d) \<and>
     others co_tenant t (db_contradictions d') = others co_tenant t (db_contradictions d) \<and>
     others sr_tenant t (db_snapshots d') = others sr_tenant t (db_snapshots d)"

lemma isolated_refl [simp]: "isolated t d d"
  by (simp add: isolated_def)

lemma isolated_trans: "isolated t a b \<Longrightarrow> isolated t b c \<Longrightarrow> isolated t a c"
  by (simp add: isolated_def)

definition confined :: "('x, 'a) handler \<Rightarrow> bool" where
  "confined m \<longleftrightarrow> stays (\<lambda>w w'. isolated (w_scope w) (w_sess w) (w_sess w') \<and> w_scope w' = w_scope w) m"

named_theorems confined_intros \<open>operations that stay within their tenant\<close>

lemma confined_order:
  "reflp (\<lambda>w w'. isolated (w_scope w) (w_sess w) (w_sess w') \<and> w_scope w' = w_scope w)"
  "transp (\<lambda>w w'. isolated (w_scope w) (w_sess w) (w_sess w') \<and> w_scope w' = w_scope w)"
  by (auto simp: reflp_def transp_def intro: isolated_trans)

lemma confined_bnd [confined_intros]:
  "confined m \<Longrightarrow> (\<And>x. confined (f x)) \<Longrightarrow> confined (bnd m f)"
  unfolding confined_def by (rule stays_bnd [OF confined_order(2)])

lemma confined_try [confined_intros]:
  "confined m \<Longrightarrow> (\<And>e. confined (h e)) \<Longrightarrow> confined (try_except m h)"
  unfolding confined_def by (rule stays_try_except [OF confined_order(2)])

lemma confined_refl [confined_intros]:
  "confined (ret x)" "confined (raise e)" "confined (lift_result r)"
  "confined (raise_if b e)" "confined (from_some e opt)"
  unfolding confined_def by (rule stays_refl_steps [OF confined_order(1)])+

lemma confined_map_each [confined_intros]:
  "(\<And>x. confined (f x)) \<Longrightarrow> confined (map_each f xs)"
  unfolding confined_def by (rule stays_map_each [OF confined_order])

lemma confined_if [confined_intros]: "confined m \<Longrightarrow> confined n \<Longrightarrow> confined (if b then m else n)"
  by simp

lemma confined_case_option [confined_intros]:
  "confined m \<Longrightarrow> (\<And>x. confined (f x)) \<Longrightarrow> confined (case opt of None \<Rightarrow> m | Some x \<Rightarrow> f x)"
  by (cases opt) auto

lemma confined_case_prod [confined_intros]:
  "(\<And>x y. confined (f x y)) \<Longrightarrow> confined (case q of (x, y) \<Rightarrow> f x y)"
  by (cases q) auto

lemma confined_case_error [confined_intros]:
  "(\<And>m. confined (f m)) \<Longrightarrow> (\<And>e. confined (g e)) \<Longrightarrow>
   confined (case e of IntegrityError m \<Rightarrow> f m | _ \<Rightarrow> g e)"
  by (cases e) auto

lemma confined_primitives [confined_intros]:
  "confined (clock_now env)" "confined (generate_id env)" "confined (at_now env g)"
  "confined (query q)" "confined (external h)"
  by (auto simp: confined_def stays_def at_now_def external_def split: sum.splits prod.splits)

lemma confined_execute:
  "(\<And>scope d d'. f scope d = Inr d' \<Longrightarrow> isolated scope d d') \<Longrightarrow> confined (execute f)"
  by (auto simp: confined_def stays_def execute_def split: sum.splits)

lemma confinedD: "confined m \<Longrightarrow> m w = (r, w') \<Longrightarrow> isolated (w_scope w) (w_sess w) (w_sess w')"
  unfolding confined_def by (drule staysD) auto

text \<open>Every insert checks the row against the tenant of the session.\<close>

lemma confined_inserts [confined_intros]:
  "confined (execute (insert_applicant r1))" "confined (execute (insert_application r2))"
  "confined (execute (insert_version r3))" "confined (execute (insert_idempotency r4))"
  "confined (execute (insert_document r5))" "confined (execute (insert_review r6))"
  "confined (execute (insert_extraction_run r7))" "confined (execute (insert_fact r8))"
  "confined (execute (insert_verification_run r9))" "confined (execute (insert_check r10))"
  "confined (execute (insert_contradiction r11))" "confined (execute (insert_snapshot r12))"
  "confined (execute (insert_outbox r13))" "confined (execute (insert_audit_event r14))"
  "confined (execute (insert_audit_hash r15))"
  by (rule confined_execute,
      auto simp: insert_defs bind_result_Inr_iff guard_row_Inr_iff isolated_def others_def)+

lemma others_update:
  assumes "\<And>r. pk r = k \<Longrightarrow> tenant r = t \<Longrightarrow> tenant (f r) = t"
  shows "others tenant t (tbl_update pk k (\<lambda>r. if tenant r = t then f r else r) rows) = others tenant t rows"
  using assms by (induction rows) (auto simp: others_def)

lemma confined_updates [confined_intros]:
  "confined (execute (update_checkpoint h))"
  "confined (execute (update_application k (saved_row a)))"
  "confined (execute (\<lambda>scope d. Inr (d\<lparr>db_review_queue := tbl_update rr_application k'
     (\<lambda>r. if rr_tenant r = scope then decided_row dec rea rvw now r else r) (db_review_queue d)\<rparr>)))"
  by (rule confined_execute, auto simp: update_checkpoint_def update_application_def saved_row_def
      decided_row_def bind_result_Inr_iff isolated_def others_update split: option.splits)+

lemma confined_queries [confined_intros]:
  "confined (get_application_row k)" "confined (application_get t k)" "confined (applicant_get t k)"
  "confined (product_get k)" "confined (product_get_by_code k)" "confined (count_documents t k)"
  "confined (list_documents env t k)" "confined (get_facts env t k)" "confined (get_checks env t k)"
  "confined (review_row_of k)" "confined (review_get t k)" "confined (load_application t k)"
  "confined (get_checkpoint t pl)" "confined (stage_event env e pl)" "confined (start_best_effort runner start)"
  unfolding get_application_row_def application_get_def applicant_get_def product_get_def
    product_get_by_code_def count_documents_def list_documents_def get_facts_def get_checks_def
    review_row_of_def review_get_def load_application_def get_checkpoint_def stage_event_def
    start_best_effort_def Let_def
  by (intro confined_intros)+

lemma confined_stage_events [confined_intros]: "confined (stage_events env es pl)"
  by (induction es arbitrary: pl) (auto intro: confined_intros simp del: ret_run)

lemma confined_operations [confined_intros]:
  "confined (reserve_or_raise env t k op)" "confined (applicant_add env p)"
  "confined (document_add d)" "confined (review_add e)"
  "confined (application_add env a)" "confined (application_save env a)"
  "confined (save_and_move env s r a)" "confined (enter_human_review env rea a)"
  "confined (mark_decided t k dec rea' rvw now)" "confined (record_domain_events env es)"
  "confined (publish env a)" "confined (add_extraction_run run t k doc cl fs ids now)"
  "confined (add_verification_run env run t k cs cids ss sids now)"
  unfolding reserve_or_raise_def reserve_idempotency_key_def applicant_add_def document_add_def
    review_add_def application_add_def application_save_def save_and_move_def enter_human_review_def
    mark_decided_def record_domain_events_def flush_plan_def execute_all_def publish_def
    add_extraction_run_def add_verification_run_def case_prod_beta Let_def
  by (intro confined_intros)+

lemma confined_bodies [confined_intros]:
  "confined (create_application_body env cc)" "confined (move_and_attach env op move c)"
  "confined (advance_intake_body env c)" "confined (advance_documents_body env c)"
  "confined (enter_review_body env rc)" "confined (apply_decision_body env dc)"
  unfolding create_application_body_def move_and_attach_def advance_intake_body_def
    advance_documents_body_def enter_review_body_def apply_decision_body_def Let_def
  by (intro confined_intros)+

text \<open>A committed transaction of a tenant changes no row of another tenant.\<close>

lemma transaction_isolated:
  assumes "quiet m" "confined m" "transaction t m w = (r, w')"
  shows "isolated t (w_db w) (w_db w')"
proof (cases r)
  case (Inl e)
  with transaction_error [OF assms(1)] assms(3) show ?thesis by simp
next
  case (Inr y)
  with assms(3) obtain w1 where w1: "m (aenter t w) = (Inr y, w1)" "w_db w' = w_sess w1"
    by (auto elim: transaction_success)
  from confinedD [OF assms(2) w1(1)] w1(2) show ?thesis by simp
qed

end
