(* ===== verification/Cases.thy ===== *)
theory Cases
  imports Frames
begin

text \<open>
  The stored history of a case.  \<open>case_inv\<close>: every application row has one snapshot per version,
  numbered 1, 2, ... up to its version; the snapshots' statuses form a legal history of the state
  machine starting in \<open>DRAFT\<close>; and the last snapshot agrees with the row.  \<open>synced a d\<close>: the
  aggregate \<open>a\<close> in memory is what the database holds for it, which is what optimistic concurrency
  is about.
\<close>

definition snapshot_of :: "version_row \<Rightarrow> application_row \<Rightarrow> bool" where
  "snapshot_of v r \<longleftrightarrow>
     vr_application v = ap_id r \<and> vr_tenant v = ap_tenant r \<and> vr_version v = ap_version r \<and>
     vr_status v = ap_status r \<and> vr_amount v = ap_amount r \<and> vr_currency v = ap_currency r \<and>
     vr_term v = ap_term r \<and> vr_applicant v = ap_applicant r \<and> vr_product v = ap_product r \<and>
     vr_recorded_at v = ap_updated_at r"

definition snapshots_of :: "string \<Rightarrow> db \<Rightarrow> version_row list" where
  "snapshots_of k d = filter (\<lambda>v. vr_application v = k) (db_versions d)"

definition history_ok :: "application_row \<Rightarrow> version_row list \<Rightarrow> bool" where
  "history_ok r vs \<longleftrightarrow>
     map vr_version vs = [1..ap_version r] \<and> vs \<noteq> [] \<and> snapshot_of (last vs) r \<and>
     (\<exists>ss. map vr_status vs = map status_value ss \<and> legal_history ss \<and> hd ss = DRAFT)"

definition case_inv :: "db \<Rightarrow> bool" where
  "case_inv d \<longleftrightarrow>
     distinct (map ap_id (db_applications d)) \<and>
     (\<forall>v \<in> set (db_versions d). vr_application v \<in> application_ids d) \<and>
     (\<forall>r \<in> set (db_applications d). history_ok r (snapshots_of (ap_id r) d))"

definition agrees :: "application \<Rightarrow> application_row \<Rightarrow> bool" where
  "agrees a r \<longleftrightarrow>
     ap_id r = app_id a \<and> ap_tenant r = app_tenant a \<and> ap_applicant r = app_applicant a \<and>
     ap_product r = app_product a \<and> ap_currency r = currency (app_amount a) \<and>
     ap_status r = status_value (app_status a) \<and> ap_version r = app_version a"

definition synced :: "application \<Rightarrow> db \<Rightarrow> bool" where
  "synced a d \<longleftrightarrow> (\<exists>r. tbl_find ap_id (app_id a) (db_applications d) = Some r \<and> agrees a r)"

lemma case_part_inv: "case_part d = case_part d' \<Longrightarrow> case_inv d \<longleftrightarrow> case_inv d'"
  by (simp add: case_part_def case_inv_def application_ids_def snapshots_of_def)

lemma case_part_synced: "case_part d = case_part d' \<Longrightarrow> synced a d \<longleftrightarrow> synced a d'"
  by (simp add: case_part_def synced_def)

lemma find_visible_row:
  assumes "tbl_find pk k (visible tenant t rows) = Some r" "distinct (map pk rows)"
  shows "tbl_find pk k rows = Some r" "tenant r = t"
proof -
  from tbl_find_SomeD [OF assms(1)] have r: "r \<in> set rows" "tenant r = t" "pk r = k"
    by (auto simp: visible_def)
  then show "tbl_find pk k rows = Some r" "tenant r = t"
    using tbl_find_eq_Some [OF assms(2) r(1)] by auto
qed

lemma row_to_application_agrees:
  "row_to_application r = Inr a \<Longrightarrow> agrees a r \<and> app_pending a = [] \<and> app_workflow a = ap_workflow r"
  by (auto simp: row_to_application_def bind_result_Inr_iff agrees_def
      dest!: status_of_value_Some mk_Money_Inr(3) split: option.splits)

lemma load_application_synced:
  assumes "load_application t k w = (Inr a, w')" "case_inv (w_sess w)"
  shows "w' = w" "synced a (w_sess w)" "app_id a = k" "app_tenant a = t" "app_pending a = []"
proof -
  from assms(1) obtain r where r: "tbl_find ap_id k (visible ap_tenant (w_scope w) (db_applications (w_sess w))) = Some r"
    "ap_tenant r = t" "row_to_application r = Inr a" "w' = w"
    by (auto simp: load_application_def application_get_def get_application_row_def bnd_def
        split: option.splits if_splits sum.splits)
  from find_visible_row [OF r(1)] assms(2)
  have find: "tbl_find ap_id k (db_applications (w_sess w)) = Some r" by (simp add: case_inv_def)
  from row_to_application_agrees [OF r(3)] tbl_find_SomeD [OF find] r find
  show "w' = w" "synced a (w_sess w)" "app_id a = k" "app_tenant a = t" "app_pending a = []"
    by (auto simp: synced_def agrees_def)
qed

text \<open>The next version of an aggregate, as the handlers make it.\<close>

definition next_version :: "application \<Rightarrow> application \<Rightarrow> bool" where
  "next_version a b \<longleftrightarrow>
     app_id b = app_id a \<and> app_tenant b = app_tenant a \<and> app_applicant b = app_applicant a \<and>
     app_product b = app_product a \<and> app_amount b = app_amount a \<and> app_term b = app_term a \<and>
     app_version b = app_version a + 1 \<and> is_legal_transition (app_status a) (app_status b)"

lemma transition_next: "transition_to s reason now a = Inr b \<Longrightarrow> next_version a b"
  by (auto simp: transition_to_Inr_iff next_version_def)

lemma next_version_bookkeeping:
  "next_version a b \<Longrightarrow> next_version a (attach_workflow wid b)"
  "next_version a b \<Longrightarrow> next_version a (detach_workflow b)"
  by (simp_all add: next_version_def attach_workflow_def detach_workflow_def)

lemma upto_snoc: "0 \<le> n \<Longrightarrow> [1..n + 1] = [1..n] @ [n + (1::int)]"
  using upto_rec2 [of 1 "n + 1"] by simp

lemma legal_history_append:
  "legal_history ss \<Longrightarrow> ss \<noteq> [] \<Longrightarrow> is_legal_transition (last ss) t \<Longrightarrow> legal_history (ss @ [t])"
  by (metis append.assoc append_Cons append_Nil append_butlast_last_id legal_history_snoc)

lemma history_ok_snoc:
  assumes "history_ok r vs" "snapshot_of v r'" "ap_version r' = ap_version r + 1"
    "ap_status r = status_value s" "ap_status r' = status_value s'" "is_legal_transition s s'"
  shows "history_ok r' (vs @ [v])"
proof -
  from assms(1) obtain ss where ss: "map vr_status vs = map status_value ss" "legal_history ss"
    "hd ss = DRAFT" "vs \<noteq> []" "snapshot_of (last vs) r" "map vr_version vs = [1..ap_version r]"
    by (auto simp: history_ok_def)
  then have ne: "ss \<noteq> []" by auto
  have "status_value (last ss) = vr_status (last vs)"
    using ss(1) ss(4) ne by (metis last_map)
  then have "last ss = s" using ss(5) assms(4) by (simp add: snapshot_of_def)
  then have "legal_history (ss @ [s'])" using legal_history_append ss(2) ne assms(6) by blast
  moreover have "map vr_status (vs @ [v]) = map status_value (ss @ [s'])"
    using ss(1) assms(2,5) by (simp add: snapshot_of_def)
  moreover have "hd (ss @ [s']) = DRAFT" using ss(3) ne by simp
  moreover have "1 \<le> ap_version r" using ss(4,6) by (cases "1 \<le> ap_version r") auto
  then have "map vr_version (vs @ [v]) = [1..ap_version r']"
    using ss(6) assms(2,3) upto_snoc [of "ap_version r"] by (simp add: snapshot_of_def)
  ultimately show ?thesis using assms(2) unfolding history_ok_def by (auto simp del: map_append)
qed

subsection \<open>Saving\<close>

text \<open>What a successful save did: the one row of the aggregate, updated, and one snapshot.\<close>

lemma application_save_effect:
  assumes "application_save env b w = (Inr u, w')" "distinct (map ap_id (db_applications (w_sess w)))"
  obtains r where "tbl_find ap_id (app_id b) (db_applications (w_sess w)) = Some r"
    "ap_version r = app_version b - 1" "ap_tenant r = w_scope w" "app_tenant b = w_scope w"
    "w_sess w' = (w_sess w)\<lparr>db_applications := tbl_update ap_id (app_id b)
        (\<lambda>r. if ap_tenant r = w_scope w then saved_row b r else r) (db_applications (w_sess w)),
      db_versions := db_versions (w_sess w) @ [version_snapshot_row b (e_uuid env (w_ids w))]\<rparr>"
    "w_scope w' = w_scope w" "w_clk w' = w_clk w" "w_ext w' = w_ext w" "w_ids w' = w_ids w + 1"
proof -
  from assms(1) obtain r where r: "tbl_find ap_id (app_id b) (visible ap_tenant (w_scope w) (db_applications (w_sess w))) = Some r"
    "ap_version r = app_version b - 1"
    by (auto simp: application_save_def get_application_row_def bnd_def Let_def split: option.splits if_splits)
  note row = find_visible_row [OF r(1) assms(2)]
  from assms(1) r have
    "w_sess w' = (w_sess w)\<lparr>db_applications := tbl_update ap_id (app_id b)
        (\<lambda>r. if ap_tenant r = w_scope w then saved_row b r else r) (db_applications (w_sess w)),
      db_versions := db_versions (w_sess w) @ [version_snapshot_row b (e_uuid env (w_ids w))]\<rparr>"
    "app_tenant b = w_scope w" "w_scope w' = w_scope w" "w_clk w' = w_clk w" "w_ext w' = w_ext w"
    "w_ids w' = w_ids w + 1"
    by (auto simp: application_save_def get_application_row_def Let_def update_application_def
        insert_version_def bind_result_Inr_iff guard_row_Inr_iff version_snapshot_row_def
        elim!: bnd_InrE execute_InrE)
  with row r(2) that show thesis by blast
qed

lemma save_keeps_case_inv:
  assumes "application_save env b w = (Inr u, w')" "case_inv (w_sess w)" "synced a (w_sess w)"
    "next_version a b"
  shows "case_inv (w_sess w')" "synced b (w_sess w')"
proof -
  define d where "d = w_sess w"
  have dist: "distinct (map ap_id (db_applications d))" using assms(2) by (simp add: case_inv_def d_def)
  from application_save_effect [OF assms(1) dist [unfolded d_def]]
  obtain r where r: "tbl_find ap_id (app_id b) (db_applications d) = Some r"
    and scope: "ap_tenant r = w_scope w" "app_tenant b = w_scope w"
    and d': "w_sess w' = d\<lparr>db_applications := tbl_update ap_id (app_id b)
        (\<lambda>r. if ap_tenant r = w_scope w then saved_row b r else r) (db_applications d),
      db_versions := db_versions d @ [version_snapshot_row b (e_uuid env (w_ids w))]\<rparr>"
    unfolding d_def by blast
  have agr: "agrees a r" using assms(3,4) r by (auto simp: synced_def next_version_def d_def)
  define v where "v = version_snapshot_row b (e_uuid env (w_ids w))"
  define r' where "r' = saved_row b r"
  have rin: "r \<in> set (db_applications d)" "ap_id r = app_id b" using tbl_find_SomeD [OF r] by auto
  have upd: "x \<in> set (db_applications (w_sess w')) \<longleftrightarrow>
      (x = r' \<or> x \<in> set (db_applications d) \<and> ap_id x \<noteq> app_id b)" for x
    unfolding d' r'_def using tbl_update_mem_iff [OF dist rin] scope by simp
  have ids: "map ap_id (db_applications (w_sess w')) = map ap_id (db_applications d)"
    unfolding d' by (simp add: tbl_update_def saved_row_def)
  have snap: "snapshot_of v r'"
    using agr assms(4) scope rin
    by (simp add: v_def r'_def snapshot_of_def version_snapshot_row_def saved_row_def agrees_def next_version_def)
  have hist: "history_ok r' (snapshots_of (app_id b) d @ [v])"
  proof (rule history_ok_snoc [OF _ snap])
    show "history_ok r (snapshots_of (app_id b) d)" using assms(2) rin by (auto simp: case_inv_def d_def)
    show "ap_version r' = ap_version r + 1" "ap_status r = status_value (app_status a)"
      "ap_status r' = status_value (app_status b)" "is_legal_transition (app_status a) (app_status b)"
      using agr assms(4) by (simp_all add: r'_def saved_row_def agrees_def next_version_def)
  qed
  have snaps: "snapshots_of k (w_sess w') = snapshots_of k d @ (if k = app_id b then [v] else [])" for k
    by (simp add: snapshots_of_def d' v_def version_snapshot_row_def)
  have r'id: "ap_id r' = app_id b" using rin by (simp add: r'_def saved_row_def)
  have aids: "application_ids (w_sess w') = application_ids d"
    unfolding application_ids_def using ids by (metis list.set_map)
  have bid: "app_id b \<in> application_ids d" unfolding application_ids_def using rin by (metis imageI)
  show "case_inv (w_sess w')"
    unfolding case_inv_def
  proof (intro conjI ballI)
    show "distinct (map ap_id (db_applications (w_sess w')))" using dist ids by simp
    show "vr_application x \<in> application_ids (w_sess w')" if "x \<in> set (db_versions (w_sess w'))" for x
      using that assms(2) bid unfolding aids
      by (auto simp: d' case_inv_def d_def [symmetric] v_def version_snapshot_row_def)
    show "history_ok x (snapshots_of (ap_id x) (w_sess w'))" if "x \<in> set (db_applications (w_sess w'))" for x
      using that hist r'id assms(2) by (auto simp: upd snaps case_inv_def d_def [symmetric])
  qed
  have "agrees b r'" using agr assms(4) scope by (simp add: agrees_def r'_def saved_row_def next_version_def)
  moreover have "tbl_find ap_id (app_id b) (db_applications (w_sess w')) = Some r'"
    using tbl_find_eq_Some [of ap_id "db_applications (w_sess w')" r'] dist ids upd r'id by simp
  ultimately show "synced b (w_sess w')" by (auto simp: synced_def)
qed

lemma add_keeps_case_inv:
  assumes "application_add env a w = (Inr u, w')" "case_inv (w_sess w)"
    "app_status a = DRAFT" "app_version a = 1"
  shows "case_inv (w_sess w')" "synced a (w_sess w')"
proof -
  define d where "d = w_sess w"
  define r where "r = application_to_row a"
  define v where "v = version_snapshot_row a (e_uuid env (w_ids w))"
  from assms(1) have d': "w_sess w' = d\<lparr>db_applications := db_applications d @ [r],
      db_versions := db_versions d @ [v]\<rparr>" and new: "ap_id r \<notin> application_ids d"
    by (auto simp: application_add_def try_except_def bnd_def execute_def insert_application_def
        insert_version_def bind_result_Inr_iff guard_row_Inr_iff d_def r_def v_def
        split: sum.splits prod.splits py_error.splits)
  have old: "snapshots_of (ap_id r) d = []"
    using assms(2) new by (auto simp: snapshots_of_def case_inv_def d_def filter_empty_conv)
  have rid: "ap_id r = app_id a" "vr_application v = app_id a"
    by (simp_all add: r_def v_def application_to_row_def version_snapshot_row_def)
  have snap: "snapshot_of v r"
    by (simp add: snapshot_of_def v_def r_def version_snapshot_row_def application_to_row_def)
  have "map vr_status [v] = map status_value [DRAFT]" "vr_version v = 1" "ap_version r = 1"
    using assms(3,4) by (simp_all add: v_def r_def version_snapshot_row_def application_to_row_def)
  then have hist: "history_ok r [v]"
    unfolding history_ok_def using snap by (intro conjI exI [of _ "[DRAFT]"]) auto
  have snaps: "snapshots_of k (w_sess w') = snapshots_of k d @ (if k = app_id a then [v] else [])" for k
    using rid by (simp add: snapshots_of_def d')
  show "case_inv (w_sess w')"
    unfolding case_inv_def
  proof (intro conjI ballI)
    show "distinct (map ap_id (db_applications (w_sess w')))"
      using assms(2) new by (simp add: d' case_inv_def d_def application_ids_def)
    show "vr_application x \<in> application_ids (w_sess w')" if "x \<in> set (db_versions (w_sess w'))" for x
      using that assms(2) rid by (auto simp: d' case_inv_def d_def application_ids_def)
    show "history_ok x (snapshots_of (ap_id x) (w_sess w'))" if "x \<in> set (db_applications (w_sess w'))" for x
    proof (cases "x = r")
      case True
      then show ?thesis using hist old rid by (simp add: snaps)
    next
      case False
      then have "x \<in> set (db_applications d)" using that by (simp add: d')
      moreover then have "ap_id x \<noteq> app_id a" using new rid unfolding application_ids_def by (metis imageI)
      ultimately show ?thesis using assms(2) by (simp add: snaps case_inv_def d_def)
    qed
  qed
  have "tbl_find ap_id (app_id a) (db_applications d) = None"
    using new rid by (simp add: tbl_find_None_iff application_ids_def)
  then show "synced a (w_sess w')"
    using rid by (simp add: synced_def d' tbl_find_append agrees_def r_def application_to_row_def)
qed

end
