(* ===== verification/Ledger.thy ===== *)
theory Ledger
  imports Frames
begin

text \<open>
  The audit log as a hash chain per tenant, and its correspondence with the outbox.
  \<open>chain_ok sha h rows\<close>: each row links to the hash before it, starting at \<open>h\<close>, and carries the
  hash of its own fields.  \<open>audit_ok\<close>: a tenant's rows form a chain from \<open>GENESIS_HASH\<close>, and the
  checkpoint row holds the identifier and the hash of the last one.  \<open>outbox_matches\<close>: the same
  events, in the same order, are in the outbox and in the audit log.
\<close>

fun chain_ok :: "(string \<Rightarrow> string) \<Rightarrow> string \<Rightarrow> audit_row list \<Rightarrow> bool" where
  "chain_ok sha h [] \<longleftrightarrow> True"
| "chain_ok sha h (r # rs) \<longleftrightarrow>
     au_prev_hash r = h \<and>
     au_hash r = compute_audit_hash sha h (au_id r) (au_event_type r) (au_aggregate_id r)
       (au_occurred_at r) (au_payload r) \<and>
     chain_ok sha (au_hash r) rs"

fun chain_end :: "string \<Rightarrow> audit_row list \<Rightarrow> string" where
  "chain_end h [] = h"
| "chain_end h (r # rs) = chain_end (au_hash r) rs"

definition tenant_log :: "string \<Rightarrow> db \<Rightarrow> audit_row list" where
  "tenant_log t d = filter (\<lambda>r. au_tenant r = t) (db_audit_events d)"

definition checkpoint_ok :: "audit_hash_row option \<Rightarrow> audit_row list \<Rightarrow> bool" where
  "checkpoint_ok h rows =
     (case h of
        None \<Rightarrow> rows = []
      | Some c \<Rightarrow> rows \<noteq> [] \<and> ah_latest_hash c = chain_end GENESIS_HASH rows
          \<and> ah_latest_event_id c = Some (au_id (last rows)))"

definition audit_ok :: "(string \<Rightarrow> string) \<Rightarrow> db \<Rightarrow> string \<Rightarrow> bool" where
  "audit_ok sha d t \<longleftrightarrow>
     chain_ok sha GENESIS_HASH (tenant_log t d) \<and>
     checkpoint_ok (tbl_find ah_tenant t (db_audit_hashes d)) (tenant_log t d)"

definition outbox_key :: "outbox_row \<Rightarrow> string \<times> string \<times> string \<times> string \<times> datetime \<times> pyval" where
  "outbox_key r = (ob_id r, ob_tenant r, ob_event_type r, ob_aggregate_id r, ob_occurred_at r, ob_payload r)"

definition audit_key :: "audit_row \<Rightarrow> string \<times> string \<times> string \<times> string \<times> datetime \<times> pyval" where
  "audit_key r = (au_id r, au_tenant r, au_event_type r, au_aggregate_id r, au_occurred_at r, au_payload r)"

definition outbox_matches :: "db \<Rightarrow> bool" where
  "outbox_matches d \<longleftrightarrow> map outbox_key (db_outbox d) = map audit_key (db_audit_events d)"

definition ledger_ok :: "(string \<Rightarrow> string) \<Rightarrow> db \<Rightarrow> bool" where
  "ledger_ok sha d \<longleftrightarrow> (\<forall>t. audit_ok sha d t) \<and> outbox_matches d"

lemma ledger_ok_part: "ledger_part d = ledger_part d' \<Longrightarrow> ledger_ok sha d \<longleftrightarrow> ledger_ok sha d'"
  by (simp add: ledger_part_def ledger_ok_def audit_ok_def outbox_matches_def tenant_log_def)

lemma chain_ok_append:
  "chain_ok sha h (xs @ ys) \<longleftrightarrow> chain_ok sha h xs \<and> chain_ok sha (chain_end h xs) ys"
  by (induction xs arbitrary: h) auto

lemma chain_end_append: "chain_end h (xs @ ys) = chain_end (chain_end h xs) ys"
  by (induction xs arbitrary: h) auto

subsection \<open>Staging\<close>

text \<open>The link a staged event adds.\<close>

lemma audit_row_link:
  "au_prev_hash (audit_row_of env e i now h) = h"
  "au_hash (audit_row_of env e i now h) = compute_audit_hash (e_sha256 env) h
     (au_id (audit_row_of env e i now h)) (au_event_type (audit_row_of env e i now h))
     (au_aggregate_id (audit_row_of env e i now h)) (au_occurred_at (audit_row_of env e i now h))
     (au_payload (audit_row_of env e i now h))"
  "au_id (audit_row_of env e i now h) = i"
  "au_tenant (audit_row_of env e i now h) = ev_tenant_id e"
  by (simp_all add: audit_row_of_def split: prod.splits)

lemma staged_keys:
  "outbox_key (outbox_row_of e i now) = audit_key (audit_row_of env e i now h)"
  "ob_tenant (outbox_row_of e i now) = ev_tenant_id e"
  by (simp_all add: outbox_row_of_def audit_row_of_def outbox_key_def audit_key_def split: prod.splits)

text \<open>
  What the plan holds after staging events of one tenant, from a session whose checkpoint for that
  tenant is \<open>c\<close>: with a checkpoint, the staged rows continue its chain and the loaded copy follows;
  without one, every staged row starts at \<open>GENESIS_HASH\<close> and adds a checkpoint of its own.
\<close>

definition staged :: "(string \<Rightarrow> string) \<Rightarrow> string \<Rightarrow> audit_hash_row option \<Rightarrow> plan \<Rightarrow> bool" where
  "staged sha t c p \<longleftrightarrow>
     map outbox_key (pl_outbox p) = map audit_key (pl_audit p) \<and>
     (\<forall>r \<in> set (pl_audit p). au_tenant r = t) \<and>
     (case c of
        Some h \<Rightarrow>
          pl_new_hashes p = [] \<and> chain_ok sha (ah_latest_hash h) (pl_audit p) \<and>
          (if pl_audit p = [] then pl_loaded p = []
           else \<exists>h'. pl_loaded p = [h'] \<and> ah_tenant h' = t
             \<and> ah_latest_hash h' = chain_end (ah_latest_hash h) (pl_audit p)
             \<and> ah_latest_event_id h' = Some (au_id (last (pl_audit p))))
      | None \<Rightarrow>
          pl_loaded p = [] \<and> length (pl_new_hashes p) = length (pl_audit p) \<and>
          (\<forall>n \<in> set (pl_new_hashes p). ah_tenant n = t) \<and>
          (\<forall>r. pl_audit p = [r] \<longrightarrow> chain_ok sha GENESIS_HASH [r] \<and>
             (\<exists>n. pl_new_hashes p = [n] \<and> ah_latest_hash n = au_hash r
                \<and> ah_latest_event_id n = Some (au_id r))))"

lemma staged_empty: "staged sha t c empty_plan"
  by (simp add: staged_def empty_plan_def split: option.split)

definition session_checkpoint :: "'x world \<Rightarrow> string \<Rightarrow> audit_hash_row option" where
  "session_checkpoint w t = tbl_find ah_tenant t (visible ah_tenant (w_scope w) (db_audit_hashes (w_sess w)))"

lemma find_visible: "tbl_find tenant t (visible tenant t rows) = tbl_find tenant t rows"
  by (induction rows) (auto simp: visible_def)

lemma stage_event_staged:
  assumes "stage_event env e p w = (Inr p', w')" "ev_tenant_id e = t"
    "staged (e_sha256 env) t (session_checkpoint w t) p"
  shows "staged (e_sha256 env) t (session_checkpoint w t) p'"
    "w_sess w' = w_sess w" "w_scope w' = w_scope w"
proof -
  show "w_sess w' = w_sess w" "w_scope w' = w_scope w"
    using assms(1) unfolding stage_event_def get_checkpoint_def
    by (auto simp: bnd_def Let_def split: option.splits)
  show "staged (e_sha256 env) t (session_checkpoint w t) p'"
  proof (cases "session_checkpoint w t")
    case None
    then have loaded: "pl_loaded p = []"
      and none: "tbl_find ah_tenant t (visible ah_tenant (w_scope w) (db_audit_hashes (w_sess w))) = None"
      using assms(3) by (simp_all add: staged_def session_checkpoint_def)
    obtain r where p': "p' = p\<lparr>pl_outbox := pl_outbox p @ [outbox_row_of e (e_uuid env (w_ids w)) (e_clock env (w_clk w))],
        pl_audit := pl_audit p @ [r], pl_new_hashes := pl_new_hashes p @
          [\<lparr>ah_tenant = t, ah_latest_event_id = Some (e_uuid env (w_ids w)), ah_latest_hash = au_hash r,
            ah_updated_at = e_clock env (w_clk w)\<rparr>]\<rparr>"
      and r: "r = audit_row_of env e (e_uuid env (w_ids w)) (e_clock env (w_clk w)) GENESIS_HASH"
      using assms(1,2) loaded none
      by (auto simp: stage_event_def get_checkpoint_def bnd_def Let_def)
    have link: "chain_ok (e_sha256 env) GENESIS_HASH [r]"
      using audit_row_link(1,2) [of env e] by (simp add: r)
    show ?thesis
      using assms(2,3) link None loaded unfolding p' staged_def
      by (auto simp: r staged_keys audit_row_link(3,4))
  next
    case (Some h)
    define ch where "ch = (if pl_audit p = [] then h else hd (pl_loaded p))"
    from assms(3) Some have st: "pl_new_hashes p = []" "chain_ok (e_sha256 env) (ah_latest_hash h) (pl_audit p)"
      "if pl_audit p = [] then pl_loaded p = [] else \<exists>h'. pl_loaded p = [h'] \<and> ah_tenant h' = t
             \<and> ah_latest_hash h' = chain_end (ah_latest_hash h) (pl_audit p)
             \<and> ah_latest_event_id h' = Some (au_id (last (pl_audit p)))"
      by (simp_all add: staged_def)
    have vis: "tbl_find ah_tenant t (visible ah_tenant (w_scope w) (db_audit_hashes (w_sess w))) = Some h"
      using Some by (simp add: session_checkpoint_def)
    then have ht: "ah_tenant h = t" using tbl_find_SomeD by fastforce
    have get: "get_checkpoint t p w'' = (Inr (Some ch), w'')"
      if "w_scope w'' = w_scope w" "w_sess w'' = w_sess w" for w'' :: "'a world"
      using st(3) vis that by (auto simp: get_checkpoint_def ch_def split: if_splits)
    have latest: "ah_latest_hash ch = chain_end (ah_latest_hash h) (pl_audit p)" "ah_tenant ch = t"
      using st(3) ht by (auto simp: ch_def split: if_splits)
    obtain r where p': "p' = p\<lparr>pl_outbox := pl_outbox p @ [outbox_row_of e (e_uuid env (w_ids w)) (e_clock env (w_clk w))],
        pl_audit := pl_audit p @ [r], pl_loaded := put_loaded
          (ch\<lparr>ah_latest_event_id := Some (e_uuid env (w_ids w)), ah_latest_hash := au_hash r,
            ah_updated_at := e_clock env (w_clk w)\<rparr>) (pl_loaded p)\<rparr>"
      and r: "r = audit_row_of env e (e_uuid env (w_ids w)) (e_clock env (w_clk w)) (ah_latest_hash ch)"
      using assms(1,2)
      by (auto simp: stage_event_def bnd_def Let_def get)
    have link: "chain_ok (e_sha256 env) (ah_latest_hash ch) [r]"
      using audit_row_link(1,2) [of env e] by (simp add: r)
    have put: "put_loaded h' (pl_loaded p) = [h']" if "ah_tenant h' = t" for h'
      using st(3) that by (auto simp: put_loaded_def split: if_splits)
    show ?thesis
      using assms(2,3) link Some st latest unfolding p' staged_def
      by (auto simp: r staged_keys audit_row_link(3,4) chain_ok_append chain_end_append put)
  qed
qed

lemma stage_events_staged:
  assumes "stage_events env es p w = (Inr p', w')" "\<forall>e \<in> set es. ev_tenant_id e = t"
    "staged (e_sha256 env) t (session_checkpoint w t) p"
  shows "staged (e_sha256 env) t (session_checkpoint w t) p'
    \<and> w_sess w' = w_sess w \<and> w_scope w' = w_scope w"
  using assms
proof (induction es arbitrary: p w)
  case Nil
  then show ?case by simp
next
  case (Cons e es)
  from Cons.prems(1) obtain p1 w1 where s1: "stage_event env e p w = (Inr p1, w1)"
    and s2: "stage_events env es p1 w1 = (Inr p', w')" by (auto elim: bnd_InrE)
  note st = stage_event_staged [OF s1 _ Cons.prems(3)]
  have "session_checkpoint w1 t = session_checkpoint w t"
    using st(2,3) Cons.prems(2) by (simp add: session_checkpoint_def)
  with Cons.IH [OF s2] st Cons.prems(2) show ?case by simp
qed

lemma stage_event_outbox:
  "stage_event env e p w = (Inr p', w') \<Longrightarrow>
   map ob_tenant (pl_outbox p') = map ob_tenant (pl_outbox p) @ [ev_tenant_id e]"
  unfolding stage_event_def get_checkpoint_def
  by (auto simp: bnd_def Let_def staged_keys split: option.splits)

lemma stage_events_outbox:
  "stage_events env es p w = (Inr p', w') \<Longrightarrow>
   map ob_tenant (pl_outbox p') = map ob_tenant (pl_outbox p) @ map ev_tenant_id es"
proof (induction es arbitrary: p w)
  case (Cons e es)
  then obtain p1 w1 where "stage_event env e p w = (Inr p1, w1)"
    "stage_events env es p1 w1 = (Inr p', w')" by (auto elim: bnd_InrE)
  with Cons.IH stage_event_outbox show ?case by fastforce
qed simp

subsection \<open>Flushing\<close>

lemma distinct_same_key:
  assumes "distinct (map f xs)" "\<forall>x \<in> set xs. f x = t"
  shows "length xs \<le> 1"
proof -
  have "card (set (map f xs)) = length xs" using assms(1) by (metis distinct_card length_map)
  moreover have "set (map f xs) \<subseteq> {t}" using assms(2) by auto
  then have "card (set (map f xs)) \<le> 1" by (metis card_mono card.empty card.insert
      empty_iff finite.emptyI finite.insertI One_nat_def)
  ultimately show ?thesis by simp
qed

lemma execute_all_Nil [simp]: "execute_all f [] w = (Inr (), w)"
  by (simp add: execute_all_def)

lemma execute_all_ConsE:
  assumes "execute_all f (r # rs) w = (Inr u, w')"
  obtains d where "f r (w_scope w) (w_sess w) = Inr d" "execute_all f rs (w\<lparr>w_sess := d\<rparr>) = (Inr (), w')"
proof -
  from assms obtain d ys w1 where "f r (w_scope w) (w_sess w) = Inr d"
    "map_each (\<lambda>r. execute (f r)) rs (w\<lparr>w_sess := d\<rparr>) = (Inr ys, w1)" "w' = w1"
    unfolding execute_all_def by (auto elim!: bnd_InrE execute_InrE)
  with that show thesis by (auto simp: execute_all_def bnd_def)
qed

lemma flush_outbox:
  "execute_all insert_outbox rows w = (Inr u, w') \<Longrightarrow>
   w' = w\<lparr>w_sess := (w_sess w)\<lparr>db_outbox := db_outbox (w_sess w) @ rows\<rparr>\<rparr>
   \<and> (\<forall>r \<in> set rows. ob_tenant r = w_scope w)"
proof (induction rows arbitrary: w)
  case (Cons r rows)
  from Cons.prems obtain d where d: "insert_outbox r (w_scope w) (w_sess w) = Inr d"
    "execute_all insert_outbox rows (w\<lparr>w_sess := d\<rparr>) = (Inr (), w')" by (rule execute_all_ConsE)
  from d(1) have "d = (w_sess w)\<lparr>db_outbox := db_outbox (w_sess w) @ [r]\<rparr>" "ob_tenant r = w_scope w"
    by (auto simp: insert_outbox_def bind_result_Inr_iff guard_row_Inr_iff)
  with Cons.IH [of "w\<lparr>w_sess := d\<rparr>"] d(2) show ?case by simp
qed simp

lemma flush_audit:
  "execute_all insert_audit_event rows w = (Inr u, w') \<Longrightarrow>
   w' = w\<lparr>w_sess := (w_sess w)\<lparr>db_audit_events := db_audit_events (w_sess w) @ rows\<rparr>\<rparr>"
proof (induction rows arbitrary: w)
  case (Cons r rows)
  from Cons.prems obtain d where d: "insert_audit_event r (w_scope w) (w_sess w) = Inr d"
    "execute_all insert_audit_event rows (w\<lparr>w_sess := d\<rparr>) = (Inr (), w')" by (rule execute_all_ConsE)
  from d(1) have "d = (w_sess w)\<lparr>db_audit_events := db_audit_events (w_sess w) @ [r]\<rparr>"
    by (auto simp: insert_audit_event_def bind_result_Inr_iff guard_row_Inr_iff)
  with Cons.IH [of "w\<lparr>w_sess := d\<rparr>"] d(2) show ?case by simp
qed simp

lemma flush_hashes:
  "execute_all insert_audit_hash rows w = (Inr u, w') \<Longrightarrow>
   w' = w\<lparr>w_sess := (w_sess w)\<lparr>db_audit_hashes := db_audit_hashes (w_sess w) @ rows\<rparr>\<rparr>
   \<and> distinct (map ah_tenant rows)"
proof (induction rows arbitrary: w)
  case (Cons r rows)
  from Cons.prems obtain d where d: "insert_audit_hash r (w_scope w) (w_sess w) = Inr d"
    "execute_all insert_audit_hash rows (w\<lparr>w_sess := d\<rparr>) = (Inr (), w')" by (rule execute_all_ConsE)
  from d(1) have de: "d = (w_sess w)\<lparr>db_audit_hashes := db_audit_hashes (w_sess w) @ [r]\<rparr>"
    by (auto simp: insert_audit_hash_def bind_result_Inr_iff guard_row_Inr_iff)
  have "ah_tenant r \<notin> ah_tenant ` set rows"
  proof
    assume "ah_tenant r \<in> ah_tenant ` set rows"
    then obtain q where "q \<in> set rows" "ah_tenant q = ah_tenant r" by auto
    then have "\<not> (\<exists>u. execute_all insert_audit_hash rows v = (Inr u, w'))"
      if "ah_tenant r \<in> ah_tenant ` set (db_audit_hashes (w_sess v))" for v :: "'a world"
      using that
    proof (induction rows arbitrary: v)
      case (Cons x xs)
      show ?case
      proof
        assume "\<exists>u. execute_all insert_audit_hash (x # xs) v = (Inr u, w')"
        then obtain e where e: "insert_audit_hash x (w_scope v) (w_sess v) = Inr e"
          "execute_all insert_audit_hash xs (v\<lparr>w_sess := e\<rparr>) = (Inr (), w')"
          by (auto elim: execute_all_ConsE)
        from e(1) have "ah_tenant x \<notin> ah_tenant ` set (db_audit_hashes (w_sess v))"
          "e = (w_sess v)\<lparr>db_audit_hashes := db_audit_hashes (w_sess v) @ [x]\<rparr>"
          by (auto simp: insert_audit_hash_def bind_result_Inr_iff guard_row_Inr_iff)
        with Cons e(2) show False by (cases "x = q") (auto dest: Cons.IH [rotated 2])
      qed
    qed simp
    with d(2) de show False by fastforce
  qed
  with Cons.IH [of "w\<lparr>w_sess := d\<rparr>"] d(2) de show ?case by simp
qed simp

text \<open>What a successful flush of a staged plan does to the three tables.\<close>

definition flushed :: "string \<Rightarrow> audit_hash_row option \<Rightarrow> plan \<Rightarrow> db \<Rightarrow> db \<Rightarrow> bool" where
  "flushed t c p d d' \<longleftrightarrow>
     db_outbox d' = db_outbox d @ pl_outbox p \<and>
     db_audit_events d' = db_audit_events d @ pl_audit p \<and>
     distinct (map ah_tenant (pl_new_hashes p)) \<and>
     db_audit_hashes d' =
       (case c of
          None \<Rightarrow> db_audit_hashes d @ pl_new_hashes p
        | Some _ \<Rightarrow>
            (case pl_loaded p of [] \<Rightarrow> db_audit_hashes d
             | h # _ \<Rightarrow> tbl_update ah_tenant t (\<lambda>r. if ah_tenant r = t then h else r) (db_audit_hashes d)))"

lemma flush_plan_flushed:
  assumes "flush_plan p w = (Inr u, w')" "staged sha (w_scope w) c p"
  shows "flushed (w_scope w) c p (w_sess w) (w_sess w')"
    and "\<forall>r \<in> set (pl_outbox p). ob_tenant r = w_scope w"
proof -
  from assms(1) obtain w2 w3 w4 where f1: "execute_all insert_outbox (pl_outbox p) w = (Inr (), w2)"
    and f2: "execute_all insert_audit_event (pl_audit p) w2 = (Inr (), w3)"
    and f3: "execute_all insert_audit_hash (pl_new_hashes p) w3 = (Inr (), w4)"
    and f4: "execute_all update_checkpoint (pl_loaded p) w4 = (Inr (), w')"
    unfolding flush_plan_def by (auto elim!: bnd_InrE)
  have w4: "w_sess w4 = (w_sess w)\<lparr>db_outbox := db_outbox (w_sess w) @ pl_outbox p,
      db_audit_events := db_audit_events (w_sess w) @ pl_audit p,
      db_audit_hashes := db_audit_hashes (w_sess w) @ pl_new_hashes p\<rparr>" "w_scope w4 = w_scope w"
    and one: "distinct (map ah_tenant (pl_new_hashes p))"
    using flush_outbox [OF f1] flush_audit [OF f2] flush_hashes [OF f3] by simp_all
  show "\<forall>r \<in> set (pl_outbox p). ob_tenant r = w_scope w" using flush_outbox [OF f1] by simp
  show "flushed (w_scope w) c p (w_sess w) (w_sess w')"
  proof (cases "pl_loaded p")
    case Nil
    with f4 have "w' = w4" by simp
    with Nil w4 one assms(2) show ?thesis
      by (auto simp: flushed_def staged_def split: option.splits)
  next
    case (Cons h rest)
    with assms(2) obtain c' where c: "c = Some c'" "rest = []" "ah_tenant h = w_scope w"
      "pl_new_hashes p = []"
      by (auto simp: staged_def split: option.splits if_splits)
    with f4 Cons have "w_sess w' = (w_sess w4)\<lparr>db_audit_hashes := tbl_update ah_tenant (w_scope w)
        (\<lambda>r. if ah_tenant r = w_scope w4 then h else r) (db_audit_hashes (w_sess w4))\<rparr>"
      by (auto elim!: execute_all_ConsE simp: update_checkpoint_def)
    with w4 one c Cons show ?thesis by (simp add: flushed_def)
  qed
qed

lemma find_update_own:
  assumes "ah_tenant h = t"
  shows "tbl_find ah_tenant s (tbl_update ah_tenant t (\<lambda>r. if ah_tenant r = t then h else r) rows)
    = (if s = t then map_option (\<lambda>_. h) (tbl_find ah_tenant t rows) else tbl_find ah_tenant s rows)"
  using assms by (induction rows) auto

lemma flushed_log:
  assumes "flushed t c p d d'" "staged sha t c p"
  shows "tenant_log s d' = tenant_log s d @ (if s = t then pl_audit p else [])"
  using assms by (auto simp: tenant_log_def flushed_def staged_def filter_empty_conv intro!: filter_True)

text \<open>The checkpoint of any tenant after the flush.\<close>

lemma flushed_checkpoint:
  assumes "flushed t c p d d'" "staged sha t c p" "c = tbl_find ah_tenant t (db_audit_hashes d)"
  shows "tbl_find ah_tenant s (db_audit_hashes d') =
    (if s \<noteq> t then tbl_find ah_tenant s (db_audit_hashes d)
     else case c of
       None \<Rightarrow> (case pl_new_hashes p of [] \<Rightarrow> None | n # _ \<Rightarrow> Some n)
     | Some h \<Rightarrow> (case pl_loaded p of [] \<Rightarrow> Some h | h' # _ \<Rightarrow> Some h'))"
proof (cases c)
  case None
  with assms(2) have "\<forall>n \<in> set (pl_new_hashes p). ah_tenant n = t" by (simp add: staged_def)
  then have "tbl_find ah_tenant s (pl_new_hashes p)
      = (if s = t then case pl_new_hashes p of [] \<Rightarrow> None | n # _ \<Rightarrow> Some n else None)"
    by (cases "pl_new_hashes p") (auto simp: tbl_find_None_iff)
  with assms(1,3) None show ?thesis
    by (auto simp: flushed_def tbl_find_append split: option.splits)
next
  case (Some h)
  with assms(3) have h: "tbl_find ah_tenant t (db_audit_hashes d) = Some h" by simp
  show ?thesis
  proof (cases "pl_loaded p")
    case Nil
    with assms(1) Some have "db_audit_hashes d' = db_audit_hashes d" by (simp add: flushed_def)
    with Nil Some h show ?thesis by simp
  next
    case (Cons h' rest)
    with assms(2) Some have "ah_tenant h' = t" by (auto simp: staged_def split: if_splits)
    moreover have "db_audit_hashes d' = tbl_update ah_tenant t (\<lambda>r. if ah_tenant r = t then h' else r)
        (db_audit_hashes d)" using assms(1) Some Cons by (simp add: flushed_def)
    ultimately show ?thesis using Some h Cons by (simp add: find_update_own)
  qed
qed

lemma flushed_new_log:
  assumes "flushed t None p d d'" "staged sha t None p" "tenant_log t d = []"
    "tbl_find ah_tenant t (db_audit_hashes d) = None"
  shows "audit_ok sha d' t"
proof -
  note cp = flushed_checkpoint [OF assms(1,2) assms(4) [symmetric], of t]
  note lg = flushed_log [OF assms(1,2), of t]
  from assms(2) have new: "length (pl_new_hashes p) = length (pl_audit p)"
    "\<forall>n \<in> set (pl_new_hashes p). ah_tenant n = t" by (simp_all add: staged_def)
  have "length (pl_new_hashes p) \<le> 1"
    using assms(1) new(2) by (intro distinct_same_key) (auto simp: flushed_def)
  then consider "pl_audit p = []" | r where "pl_audit p = [r]"
    using new(1) by (cases "pl_audit p"; cases "tl (pl_audit p)") auto
  then show ?thesis
  proof cases
    case 1
    with new(1) cp lg assms(3) show ?thesis by (simp add: audit_ok_def checkpoint_ok_def)
  next
    case 2
    with assms(2) obtain n where "pl_new_hashes p = [n]" "ah_latest_hash n = au_hash r"
      "ah_latest_event_id n = Some (au_id r)" "chain_ok sha GENESIS_HASH [r]"
      by (auto simp: staged_def)
    with 2 cp lg assms(3) show ?thesis by (simp add: audit_ok_def checkpoint_ok_def)
  qed
qed

lemma flushed_longer_log:
  assumes "flushed t (Some h) p d d'" "staged sha t (Some h) p" "audit_ok sha d t"
    "tbl_find ah_tenant t (db_audit_hashes d) = Some h"
  shows "audit_ok sha d' t"
proof -
  note cp = flushed_checkpoint [OF assms(1,2) assms(4) [symmetric], of t]
  note lg = flushed_log [OF assms(1,2), of t]
  from assms(3,4) have ok: "chain_ok sha GENESIS_HASH (tenant_log t d)" "tenant_log t d \<noteq> []"
    "ah_latest_hash h = chain_end GENESIS_HASH (tenant_log t d)"
    "ah_latest_event_id h = Some (au_id (last (tenant_log t d)))"
    by (simp_all add: audit_ok_def checkpoint_ok_def)
  show ?thesis
  proof (cases "pl_audit p = []")
    case True
    with assms(2) have "pl_loaded p = []" by (simp add: staged_def)
    with True cp lg ok show ?thesis by (simp add: audit_ok_def checkpoint_ok_def)
  next
    case False
    with assms(2) obtain h' where "pl_loaded p = [h']" "ah_tenant h' = t"
      "ah_latest_hash h' = chain_end (ah_latest_hash h) (pl_audit p)"
      "ah_latest_event_id h' = Some (au_id (last (pl_audit p)))"
      "chain_ok sha (ah_latest_hash h) (pl_audit p)"
      by (auto simp: staged_def)
    with False cp lg ok show ?thesis
      by (simp add: audit_ok_def checkpoint_ok_def chain_ok_append chain_end_append)
  qed
qed

text \<open>A successful recording extends the log by a valid chain and moves the checkpoint along.\<close>

lemma record_keeps_ledger:
  assumes "record_domain_events env es w = (Inr u, w')" "ledger_ok (e_sha256 env) (w_sess w)"
  shows "ledger_ok (e_sha256 env) (w_sess w')"
proof -
  define t where "t = w_scope w"
  define c where "c = session_checkpoint w t"
  from assms(1) obtain p w1 where stage: "stage_events env es empty_plan w = (Inr p, w1)"
    and flush: "flush_plan p w1 = (Inr u, w')"
    unfolding record_domain_events_def by (rule bnd_InrE)
  have w1: "w_scope w1 = t" "w_sess w1 = w_sess w"
    using leavesD [OF leaves_stage_events stage, of id] by (simp_all add: t_def)
  from flush obtain w2 where "execute_all insert_outbox (pl_outbox p) w1 = (Inr (), w2)"
    unfolding flush_plan_def by (auto elim!: bnd_InrE)
  then have "\<forall>x \<in> set (map ob_tenant (pl_outbox p)). x = t"
    using flush_outbox w1 by fastforce
  then have tenants: "\<forall>e \<in> set es. ev_tenant_id e = t"
    unfolding stage_events_outbox [OF stage] by auto
  have st: "staged (e_sha256 env) t c p"
    using stage_events_staged [OF stage tenants staged_empty] by (simp add: c_def)
  have fl: "flushed t c p (w_sess w) (w_sess w')"
    using flush_plan_flushed(1) [OF flush] st w1 by simp
  have c: "c = tbl_find ah_tenant t (db_audit_hashes (w_sess w))"
    by (simp add: c_def session_checkpoint_def t_def find_visible)
  have old: "audit_ok (e_sha256 env) (w_sess w) s" "outbox_matches (w_sess w)" for s
    using assms(2) by (simp_all add: ledger_ok_def)
  have "audit_ok (e_sha256 env) (w_sess w') s" if "s \<noteq> t" for s
    using old(1) [of s] flushed_log [OF fl st, of s] flushed_checkpoint [OF fl st c, of s] that
    by (simp add: audit_ok_def)
  moreover have "audit_ok (e_sha256 env) (w_sess w') t"
  proof (cases c)
    case None
    moreover have "tenant_log t (w_sess w) = []"
      using old(1) [of t] c None by (simp add: audit_ok_def checkpoint_ok_def)
    ultimately show ?thesis using flushed_new_log fl st c by simp
  next
    case (Some h)
    then show ?thesis using flushed_longer_log fl st c old(1) [of t] by simp
  qed
  moreover have "outbox_matches (w_sess w')"
    using old(2) fl st by (simp add: outbox_matches_def flushed_def staged_def)
  ultimately show ?thesis unfolding ledger_ok_def by metis
qed

subsection \<open>Tampering\<close>

text \<open>The fields of an audit row its hash covers; a payload counts up to the order of its keys.\<close>

definition covered :: "audit_row \<Rightarrow> string \<times> string \<times> string \<times> string \<times> datetime \<times> pyval" where
  "covered r = (au_prev_hash r, au_id r, au_event_type r, au_aggregate_id r, au_occurred_at r,
     sort_keys (au_payload r))"

text \<open>The text that was hashed for a row, and the two ways the hash can fail two given logs: two of their
  rows with different texts of one hash, or a row hashed to the genesis hash.\<close>

definition hashed_text :: "audit_row \<Rightarrow> string" where
  "hashed_text r = canonical_json (audit_material (au_prev_hash r) (au_id r) (au_event_type r) (au_aggregate_id r)
     (au_occurred_at r) (au_payload r))"

definition colliding_rows :: "(string \<Rightarrow> string) \<Rightarrow> audit_row list \<Rightarrow> audit_row list \<Rightarrow> bool" where
  "colliding_rows sha xs ys \<longleftrightarrow>
     (\<exists>x \<in> set xs. \<exists>y \<in> set ys. hashed_text x \<noteq> hashed_text y \<and> sha (hashed_text x) = sha (hashed_text y))"

definition hashed_to_genesis :: "(string \<Rightarrow> string) \<Rightarrow> audit_row list \<Rightarrow> bool" where
  "hashed_to_genesis sha rows \<longleftrightarrow> (\<exists>r \<in> set rows. sha (hashed_text r) = GENESIS_HASH)"

definition rows_dated :: "audit_row list \<Rightarrow> bool" where
  "rows_dated rows \<longleftrightarrow> list_all (\<lambda>r. valid_datetime (au_occurred_at r)) rows"

lemma chain_end_snoc: "chain_end h (xs @ [r]) = au_hash r"
  by (simp add: chain_end_append)

lemma chain_ok_snocD:
  "chain_ok sha h (xs @ [r]) \<Longrightarrow> chain_ok sha h xs \<and> au_prev_hash r = chain_end h xs \<and>
     au_hash r = compute_audit_hash sha (chain_end h xs) (au_id r) (au_event_type r)
       (au_aggregate_id r) (au_occurred_at r) (au_payload r)"
  by (simp add: chain_ok_append)

lemma chain_hash:
  "chain_ok sha h (xs @ [r]) \<Longrightarrow> au_prev_hash r = chain_end h xs \<and> au_hash r = sha (hashed_text r)"
  by (auto dest!: chain_ok_snocD simp: compute_audit_hash_def hashed_text_def)

lemma chain_end_genesis:
  "chain_ok sha h (xs @ [r]) \<Longrightarrow> au_hash r = GENESIS_HASH \<Longrightarrow> hashed_to_genesis sha (xs @ [r])"
  using chain_hash [of sha h xs r] by (auto simp: hashed_to_genesis_def)

lemma same_text_covered:
  assumes "hashed_text x = hashed_text y" "valid_datetime (au_occurred_at x)" "valid_datetime (au_occurred_at y)"
  shows "covered x = covered y"
  using audit_material_inject [OF assms(1) [unfolded hashed_text_def] assms(2,3)] by (simp add: covered_def)

text \<open>C34: the audit log is tamper evident.  Two logs that both verify from the genesis hash and end in the same
  checkpoint hash agree row by row on every field the hash covers (previous hash, identifier, event type, aggregate
  identifier, instant, payload up to the order of its keys); the fields it leaves out (aggregate type, tenant,
  correlation identifier, time of insertion) may differ.  The only ways out are in the logs themselves: a row of one and
  a row of the other whose different hashed texts have the same SHA-256 value, or a row whose hashed text has the
  genesis hash of 64 zeros as its value.\<close>

theorem audit_log_tamper_evident:
  assumes "chain_ok sha GENESIS_HASH xs" "chain_ok sha GENESIS_HASH ys"
    "chain_end GENESIS_HASH xs = chain_end GENESIS_HASH ys" "rows_dated xs" "rows_dated ys"
  shows "map covered xs = map covered ys \<or> colliding_rows sha xs ys \<or> hashed_to_genesis sha (xs @ ys)"
  using assms
proof (induction xs arbitrary: ys rule: rev_induct)
  case Nil
  then show ?case
    by (cases ys rule: rev_cases) (auto simp: chain_end_snoc dest: chain_end_genesis)
next
  case (snoc x xs)
  show ?case
  proof (cases ys rule: rev_cases)
    case Nil
    with snoc.prems show ?thesis by (auto simp: chain_end_snoc dest: chain_end_genesis)
  next
    case (snoc zs y)
    note x = chain_hash [OF snoc.prems(1)] chain_ok_snocD [OF snoc.prems(1)]
    note y = chain_hash [OF snoc.prems(2) [unfolded snoc]] chain_ok_snocD [OF snoc.prems(2) [unfolded snoc]]
    have dated: "valid_datetime (au_occurred_at x)" "valid_datetime (au_occurred_at y)"
      using snoc.prems(4,5) snoc by (simp_all add: rows_dated_def)
    have same: "sha (hashed_text x) = sha (hashed_text y)" using snoc.prems(3) snoc x(1) y(1) by (simp add: chain_end_snoc)
    show ?thesis
    proof (cases "hashed_text x = hashed_text y")
      case True
      note eq = same_text_covered [OF this dated]
      have "map covered xs = map covered zs \<or> colliding_rows sha xs zs \<or> hashed_to_genesis sha (xs @ zs)"
        using snoc.prems snoc x y eq by (intro snoc.IH) (auto simp: covered_def rows_dated_def)
      with eq snoc show ?thesis by (auto simp: colliding_rows_def hashed_to_genesis_def)
    next
      case False
      with same snoc show ?thesis by (auto simp: colliding_rows_def)
    qed
  qed
qed

definition prefix_hash :: "string \<Rightarrow> string" where
  "prefix_hash s = CHR ''x'' # s"

text \<open>A recorded event, and the forgery of another product in its place, hashed anew.\<close>

definition sample_audit_row :: "string \<Rightarrow> audit_row" where
  "sample_audit_row product = audit_row_of
     \<lparr>e_clock = (\<lambda>_. sample_instant), e_uuid = new_id, e_sha256 = prefix_hash, e_order_facts = id,
      e_order_checks = id, e_order_documents = id\<rparr>
     (ApplicationCreated ''a'' ''t'' sample_instant product) ''e1'' sample_instant GENESIS_HASH"

theorem audit_log_tamper_evident_witness:
  "chain_ok prefix_hash GENESIS_HASH [sample_audit_row ''p''] \<and> chain_ok prefix_hash GENESIS_HASH [sample_audit_row ''q''] \<and>
   chain_end GENESIS_HASH [sample_audit_row ''p''] \<noteq> chain_end GENESIS_HASH [sample_audit_row ''q'']"
proof -
  have ok: "chain_ok prefix_hash GENESIS_HASH [sample_audit_row p]" for p
    using audit_row_link(1,2) [of "\<lparr>e_clock = (\<lambda>_. sample_instant), e_uuid = new_id,
      e_sha256 = prefix_hash, e_order_facts = id, e_order_checks = id, e_order_documents = id\<rparr>"]
    by (simp add: sample_audit_row_def)
  have dated: "rows_dated [sample_audit_row p]" for p
    by (simp add: rows_dated_def sample_audit_row_def audit_row_of_def sample_instant_def days_in_month_def)
  have "\<not> colliding_rows prefix_hash xs ys" for xs ys by (auto simp: colliding_rows_def prefix_hash_def)
  moreover have "\<not> hashed_to_genesis prefix_hash xs" for xs
    by (simp add: hashed_to_genesis_def prefix_hash_def GENESIS_HASH_def numeral_eq_Suc)
  moreover have "map covered [sample_audit_row ''p''] \<noteq> map covered [sample_audit_row ''q'']"
    by (simp add: covered_def sample_audit_row_def audit_row_of_def)
  ultimately show ?thesis
    using ok audit_log_tamper_evident [OF ok ok _ dated dated, of "''p''" "''q''"] by blast
qed

end
