(* ===== verification/Invariants.thy ===== *)
theory Invariants
  imports Cases Ledger
begin

text \<open>
  The two database invariants, kept by the lifecycle handlers.  \<open>keeps I m\<close>: when \<open>m\<close> returns,
  \<open>I\<close> of the session's database is preserved (on an exception the session is rolled back, so
  nothing is asked).
\<close>

definition keeps :: "(db \<Rightarrow> bool) \<Rightarrow> ('x, 'a) handler \<Rightarrow> bool" where
  "keeps I m \<longleftrightarrow> (\<forall>w y w'. m w = (Inr y, w') \<longrightarrow> I (w_sess w) \<longrightarrow> I (w_sess w'))"

named_theorems keeps_intros \<open>operations that keep an invariant\<close>

lemma keepsD: "keeps I m \<Longrightarrow> m w = (Inr y, w') \<Longrightarrow> I (w_sess w) \<Longrightarrow> I (w_sess w')"
  by (auto simp: keeps_def)

lemma keeps_bnd [keeps_intros]: "keeps I m \<Longrightarrow> (\<And>x. keeps I (f x)) \<Longrightarrow> keeps I (bnd m f)"
  unfolding keeps_def by (auto elim!: bnd_InrE)

lemma keeps_if [keeps_intros]: "keeps I m \<Longrightarrow> keeps I n \<Longrightarrow> keeps I (if b then m else n)"
  by simp

lemma keeps_leaves: "leaves p m \<Longrightarrow> (\<And>d d'. p d = p d' \<Longrightarrow> I d \<longleftrightarrow> I d') \<Longrightarrow> keeps I m"
  unfolding keeps_def by (metis leavesD)

lemma keeps_leaves_self: "leaves I m \<Longrightarrow> keeps I m"
  unfolding keeps_def by (metis leavesD)

lemma keeps_ledger_leaves: "leaves ledger_part m \<Longrightarrow> keeps (ledger_ok sha) m"
  using keeps_leaves [OF _ ledger_ok_part] .

lemma keeps_case_leaves: "leaves case_part m \<Longrightarrow> keeps case_inv m"
  using keeps_leaves [OF _ case_part_inv] .

lemma keeps_primitives [keeps_intros]:
  "keeps I (ret x)" "keeps I (raise e)" "keeps I (lift_result r)" "keeps I (raise_if b e)"
  "keeps I (from_some e opt)" "keeps I (clock_now env)" "keeps I (generate_id env)"
  "keeps I (at_now env g)" "keeps I (query q)" "keeps I (external h)"
  by (rule keeps_leaves_self, intro leaves_intros)+

lemma keeps_queries [keeps_intros]:
  "keeps I (get_application_row k)" "keeps I (application_get t k)" "keeps I (applicant_get t k)"
  "keeps I (product_get k)" "keeps I (product_get_by_code k)" "keeps I (count_documents t k)"
  "keeps I (list_documents env t k)" "keeps I (get_facts env t k)" "keeps I (get_checks env t k)"
  "keeps I (review_get t k)" "keeps I (load_application t k)"
  by (rule keeps_leaves_self, intro leaves_intros)+

text \<open>A transaction whose body keeps an invariant keeps it of the committed database.\<close>

lemma transaction_keeps:
  assumes "quiet m" "keeps I m" "transaction t m w = (r, w')" "I (w_db w)"
  shows "I (w_db w')"
proof (cases r)
  case (Inl e)
  with transaction_error [OF assms(1)] assms(3,4) show ?thesis by simp
next
  case (Inr y)
  with assms(3) obtain w1 where w1: "m (aenter t w) = (Inr y, w1)" "w_db w' = w_sess w1"
    by (auto elim: transaction_success)
  from keepsD [OF assms(2) w1(1)] assms(4) w1(2) show ?thesis by simp
qed

subsection \<open>The ledger\<close>

lemma keeps_ledger_operations [keeps_intros]:
  "keeps (ledger_ok sha) (reserve_or_raise env t k op)" "keeps (ledger_ok sha) (applicant_add env p)"
  "keeps (ledger_ok sha) (document_add d)" "keeps (ledger_ok sha) (review_add e)"
  "keeps (ledger_ok sha) (application_add env a)" "keeps (ledger_ok sha) (application_save env a)"
  "keeps (ledger_ok sha) (save_and_move env s r a)" "keeps (ledger_ok sha) (enter_human_review env r a)"
  "keeps (ledger_ok sha) (mark_decided t k dec r rvw now)"
  "keeps (ledger_ok sha) (add_extraction_run run t k doc cl fs ids now)"
  "keeps (ledger_ok sha) (add_verification_run env run t k cs cids ss sids now)"
  by (rule keeps_ledger_leaves, intro leaves_intros)+

lemma keeps_ledger_record [keeps_intros]: "keeps (ledger_ok (e_sha256 env)) (record_domain_events env es)"
  unfolding keeps_def using record_keeps_ledger by blast

lemma keeps_ledger_publish [keeps_intros]: "keeps (ledger_ok (e_sha256 env)) (publish env a)"
  unfolding publish_def pull_events_def prod.case by (intro keeps_intros)

lemma keeps_ledger_bodies [keeps_intros]:
  "keeps (ledger_ok (e_sha256 env)) (create_application_body env cc)"
  "keeps (ledger_ok (e_sha256 env)) (move_and_attach env op move c)"
  "keeps (ledger_ok (e_sha256 env)) (advance_intake_body env c)"
  "keeps (ledger_ok (e_sha256 env)) (advance_documents_body env c)"
  "keeps (ledger_ok (e_sha256 env)) (enter_review_body env rc)"
  "keeps (ledger_ok (e_sha256 env)) (apply_decision_body env dc)"
  unfolding create_application_body_def move_and_attach_def advance_intake_body_def
    advance_documents_body_def enter_review_body_def apply_decision_body_def Let_def
  by (intro keeps_intros)+

subsection \<open>Case histories\<close>

definition tracks :: "'x world \<Rightarrow> application \<Rightarrow> bool" where
  "tracks w a \<longleftrightarrow> case_inv (w_sess w) \<and> synced a (w_sess w)"

lemma tracks_leaves:
  "leaves case_part m \<Longrightarrow> m w = (r, w') \<Longrightarrow> tracks w' a \<longleftrightarrow> tracks w a"
  unfolding tracks_def by (metis leavesD case_part_inv case_part_synced)

lemma case_inv_leaves:
  "leaves case_part m \<Longrightarrow> m w = (r, w') \<Longrightarrow> case_inv (w_sess w') \<longleftrightarrow> case_inv (w_sess w)"
  by (metis leavesD case_part_inv)

lemma tracks_load:
  "load_application t k w = (Inr a, w') \<Longrightarrow> case_inv (w_sess w) \<Longrightarrow> tracks w' a"
  using load_application_synced by (simp add: tracks_def) blast

lemma tracks_save:
  "application_save env b w = (Inr u, w') \<Longrightarrow> tracks w a \<Longrightarrow> next_version a b \<Longrightarrow> tracks w' b"
  unfolding tracks_def by (metis save_keeps_case_inv)

lemma at_now_InrE:
  assumes "at_now env f w = (Inr x, w')"
  obtains "f (e_clock env (w_clk w)) = Inr x" "w' = w\<lparr>w_clk := w_clk w + 1\<rparr>"
  using assms by (auto simp: at_now_def split: sum.splits)

lemma tracks_clk [simp]: "tracks (w\<lparr>w_clk := n\<rparr>) a \<longleftrightarrow> tracks w a"
  by (simp add: tracks_def)

lemma tracks_move:
  assumes "save_and_move env s reason a w = (Inr b, w')" "tracks w a"
  shows "tracks w' b" "next_version a b" "app_status b = s"
    "app_pending b = app_pending a @ [ApplicationStateChanged (app_id a) (app_tenant a)
       (app_updated_at b) (app_status a) s reason (app_version b)]"
    "app_workflow b = app_workflow a" "app_tenant b = app_tenant a"
proof -
  from assms(1) obtain w1 where m: "transition_to s reason (e_clock env (w_clk w)) a = Inr b"
    "w1 = w\<lparr>w_clk := w_clk w + 1\<rparr>" "application_save env b w1 = (Inr (), w')"
    unfolding save_and_move_def by (auto elim!: bnd_InrE at_now_InrE)
  show "tracks w' b" using tracks_save [OF m(3)] m(2) assms(2) transition_next [OF m(1)] by simp
  show "next_version a b" using transition_next [OF m(1)] .
  show "app_status b = s" "app_pending b = app_pending a @ [ApplicationStateChanged (app_id a) (app_tenant a)
       (app_updated_at b) (app_status a) s reason (app_version b)]"
    "app_workflow b = app_workflow a" "app_tenant b = app_tenant a"
    using m(1) by (auto simp: transition_to_Inr_iff)
qed

lemma tracks_review:
  assumes "enter_human_review env reason a w = (Inr b, w')" "tracks w a"
  shows "tracks w' b" "app_status b = AWAITING_HUMAN_REVIEW" "next_version a b"
proof -
  from assms(1) obtain w1 w2 x where m: "save_and_move env AWAITING_HUMAN_REVIEW reason a w = (Inr b, w1)"
    "clock_now env w1 = (Inr x, w2)" "\<exists>e. review_add e w2 = (Inr (), w')"
    unfolding enter_human_review_def by (auto elim!: bnd_InrE; blast)
  note mv = tracks_move [OF m(1) assms(2)]
  from mv(1) m(2,3) show "tracks w' b"
    using tracks_leaves [OF leaves_primitives(1)] tracks_leaves [OF leaves_case_operations(4)] by blast
  show "app_status b = AWAITING_HUMAN_REVIEW" "next_version a b" using mv by simp_all
qed

lemma keeps_case_publish: "keeps case_inv (publish env a)"
  by (intro keeps_case_leaves leaves_intros)

lemma keepsI: "(\<And>w y w'. m w = (Inr y, w') \<Longrightarrow> I (w_sess w) \<Longrightarrow> I (w_sess w')) \<Longrightarrow> keeps I m"
  by (auto simp: keeps_def)

lemma tracks_inv: "tracks w a \<Longrightarrow> case_inv (w_sess w)"
  by (simp add: tracks_def)

lemma reserve_case: "reserve_or_raise env t k op w = (r, w') \<Longrightarrow> case_inv (w_sess w') \<longleftrightarrow> case_inv (w_sess w)"
  by (rule case_inv_leaves [OF leaves_case_operations(1)])

lemma keeps_case_move_and_attach:
  assumes "\<And>now a b. move now a = Inr b \<Longrightarrow> next_version a b"
  shows "keeps case_inv (move_and_attach env op move c)"
proof (rule keepsI)
  fix w :: "'a world" and y w'
  assume run: "move_and_attach env op move c w = (Inr y, w')" and inv: "case_inv (w_sess w)"
  from run obtain w1 w2 a b w4 where s: "reserve_or_raise env (c_tenant c) (c_key c) op w = (Inr (), w1)"
    "load_application (c_tenant c) (c_application c) w1 = (Inr a, w2)"
    "move (e_clock env (w_clk w2)) a = Inr b"
    "application_save env (attach_workflow (application_workflow_id (c_tenant c) (c_application c)
       (app_version b)) b) (w2\<lparr>w_clk := w_clk w2 + 1\<rparr>) = (Inr (), w4)"
    "publish env (attach_workflow (application_workflow_id (c_tenant c) (c_application c)
       (app_version b)) b) w4 = (Inr y, w')"
    unfolding move_and_attach_def Let_def by (auto elim!: bnd_InrE at_now_InrE)
  have "tracks w2 a" using tracks_load [OF s(2)] reserve_case [OF s(1)] inv by simp
  then have "tracks w4 (attach_workflow (application_workflow_id (c_tenant c) (c_application c) (app_version b)) b)"
    using tracks_save [OF s(4)] next_version_bookkeeping(1) [OF assms [OF s(3)]] by simp
  then show "case_inv (w_sess w')" using keepsD [OF keeps_case_publish s(5)] tracks_inv by blast
qed

lemma keeps_case_intake: "keeps case_inv (advance_intake_body env c)"
proof (rule keepsI)
  fix w :: "'a world" and y w'
  assume run: "advance_intake_body env c w = (Inr y, w')" and inv: "case_inv (w_sess w)"
  from run obtain w1 w2 a p w3 b ok w4 b' w5 where s:
    "reserve_or_raise env (c_tenant c) (c_key c) ''advance_intake_validation'' w = (Inr (), w1)"
    "load_application (c_tenant c) (c_application c) w1 = (Inr a, w2)"
    "product_get (app_product a) w2 = (Inr p, w3)"
    "save_and_move env INTAKE_VALIDATION ''entering automated intake validation'' a w3 = (Inr b, w4)"
    "(if ok then save_and_move env DOCUMENT_PROCESSING
         ''intake validation passed: within product catalog bounds'' b
      else enter_human_review env (intake_flag_reason b) b) w4 = (Inr b', w5)"
    "\<exists>z. publish env b' w5 = (Inr z, w')"
    unfolding advance_intake_body_def by (auto elim!: bnd_InrE)
  have "tracks w2 a" using tracks_load [OF s(2)] reserve_case [OF s(1)] inv by simp
  then have "tracks w3 a" using tracks_leaves [OF leaves_queries(4) s(3)] by simp
  then have "tracks w4 b" using tracks_move(1) [OF s(4)] by blast
  then have "tracks w5 b'" using s(5) tracks_move(1) tracks_review(1) by (auto split: if_splits)
  then show "case_inv (w_sess w')" using s(6) keepsD [OF keeps_case_publish] tracks_inv by blast
qed

lemma keeps_case_documents: "keeps case_inv (advance_documents_body env c)"
proof (rule keepsI)
  fix w :: "'a world" and y w'
  assume run: "advance_documents_body env c w = (Inr y, w')" and inv: "case_inv (w_sess w)"
  from run obtain w1 w2 a n w3 b w4 where s:
    "reserve_or_raise env (c_tenant c) (c_key c) ''advance_document_processing'' w = (Inr (), w1)"
    "load_application (c_tenant c) (c_application c) w1 = (Inr a, w2)"
    "count_documents (c_tenant c) (c_application c) w2 = (Inr n, w3)"
    "(if 1 \<le> n then save_and_move env VERIFICATION (show_nat n @ '' document(s) present'') a
      else enter_human_review env ''no documents uploaded -- requires human review'' a) w3 = (Inr b, w4)"
    "\<exists>z. publish env b w4 = (Inr z, w')"
    unfolding advance_documents_body_def by (auto elim!: bnd_InrE)
  have "tracks w2 a" using tracks_load [OF s(2)] reserve_case [OF s(1)] inv by simp
  then have "tracks w3 a" using tracks_leaves [OF leaves_queries(6) s(3)] by simp
  then have "tracks w4 b" using s(4) tracks_move(1) tracks_review(1) by (auto split: if_splits)
  then show "case_inv (w_sess w')" using s(5) keepsD [OF keeps_case_publish] tracks_inv by blast
qed

lemma keeps_case_enter_review: "keeps case_inv (enter_review_body env c)"
proof (rule keepsI)
  fix w :: "'a world" and y w'
  assume run: "enter_review_body env c w = (Inr y, w')" and inv: "case_inv (w_sess w)"
  from run obtain w1 w2 a b w3 where s:
    "reserve_or_raise env (c_tenant c) (c_key c) ''enter_human_review'' w = (Inr (), w1)"
    "load_application (c_tenant c) (c_application c) w1 = (Inr a, w2)"
    "enter_human_review env (c_reason c) a w2 = (Inr b, w3)" "\<exists>z. publish env b w3 = (Inr z, w')"
    unfolding enter_review_body_def by (auto elim!: bnd_InrE)
  have "tracks w2 a" using tracks_load [OF s(2)] reserve_case [OF s(1)] inv by simp
  then have "tracks w3 b" using tracks_review(1) [OF s(3)] by blast
  then show "case_inv (w_sess w')" using s(4) keepsD [OF keeps_case_publish] tracks_inv by blast
qed

lemma keeps_case_decision: "keeps case_inv (apply_decision_body env c)"
proof (rule keepsI)
  fix w :: "'a world" and y w'
  assume run: "apply_decision_body env c w = (Inr y, w')" and inv: "case_inv (w_sess w)"
  from run obtain w1 w2 a b w4 w5 where s:
    "reserve_or_raise env (c_tenant c) (c_key c) ''apply_review_decision'' w = (Inr (), w1)"
    "load_application (c_tenant c) (c_application c) w1 = (Inr a, w2)"
    "transition_to (c_decision c) (c_reason c) (e_clock env (w_clk w2)) a = Inr b"
    "\<exists>now. mark_decided (c_tenant c) (c_application c) (status_value (c_decision c)) (c_reason c)
       (c_reviewer c) now (w2\<lparr>w_clk := Suc (Suc (w_clk w2))\<rparr>) = (Inr (), w4)"
    "application_save env (detach_workflow b) w4 = (Inr (), w5)"
    "\<exists>z. publish env (detach_workflow b) w5 = (Inr z, w')"
    unfolding apply_decision_body_def Let_def by (auto elim!: bnd_InrE at_now_InrE; blast)
  have "tracks w2 a" using tracks_load [OF s(2)] reserve_case [OF s(1)] inv by simp
  then have "tracks w4 a" using s(4) tracks_leaves [OF leaves_mark_decided(2)] by (metis tracks_clk)
  then have "tracks w5 (detach_workflow b)"
    using tracks_save [OF s(5)] next_version_bookkeeping(2) [OF transition_next [OF s(3)]] by blast
  then show "case_inv (w_sess w')" using s(6) keepsD [OF keeps_case_publish] tracks_inv by blast
qed

lemma keeps_case_operations:
  "keeps case_inv (reserve_or_raise env t k op)" "keeps case_inv (applicant_add env p)"
  "keeps case_inv (document_add d)" "keeps case_inv (record_domain_events env es)"
  "keeps case_inv (add_extraction_run run t k doc cl fs ids now)"
  "keeps case_inv (add_verification_run env run t k cs cids ss sids now)"
  by (rule keeps_case_leaves, intro leaves_intros)+

lemma keeps_bnd_at_now:
  "(\<And>x now. g now = Inr x \<Longrightarrow> keeps I (f x)) \<Longrightarrow> keeps I (bnd (at_now env g) f)"
  unfolding keeps_def by (auto elim!: bnd_InrE at_now_InrE)

lemma keeps_case_add:
  "app_status a = DRAFT \<Longrightarrow> app_version a = 1 \<Longrightarrow> keeps case_inv (application_add env a)"
  unfolding keeps_def using add_keeps_case_inv(1) by blast

lemma create_draft: "create k t p q m n now = Inr a \<Longrightarrow> app_status a = DRAFT \<and> app_version a = 1"
  by (auto simp: create_def bind_result_Inr_iff)

lemma keeps_case_create: "keeps case_inv (create_application_body env c)"
  unfolding create_application_body_def
  by (intro keeps_bnd_at_now keeps_bnd keeps_primitives keeps_queries keeps_case_operations
      keeps_case_publish keeps_case_add) (auto dest: create_draft)

end
