(* ===== verification/Initial_State.thy ===== *)
theory Initial_State
  imports Invariants
begin

text \<open>
  The database as the migrations leave it, with the demo tenant and its product, and a concrete
  environment to run the handlers in.
\<close>

definition DEMO_TENANT_ID :: string where
  "DEMO_TENANT_ID = ''00000000-0000-4000-8000-000000000001''"

definition initial_db :: "datetime \<Rightarrow> db" where
  "initial_db now =
     \<lparr>db_tenants = [DEMO_TENANT_ID],
      db_products = [\<lparr>pr_id = prod_id demo_product, pr_tenant = DEMO_TENANT_ID,
        pr_code = prod_code demo_product, pr_name = prod_name demo_product,
        pr_currency = prod_currency demo_product, pr_min_amount = amount (prod_min_amount demo_product),
        pr_max_amount = amount (prod_max_amount demo_product), pr_min_term = prod_min_term demo_product,
        pr_max_term = prod_max_term demo_product, pr_is_active = prod_is_active demo_product,
        pr_created_at = now\<rparr>],
      db_applicants = [], db_applications = [], db_versions = [], db_outbox = [],
      db_idempotency_keys = [], db_audit_events = [], db_audit_hashes = [], db_inbox = [],
      db_documents = [], db_review_queue = [], db_projections = [], db_extraction_runs = [],
      db_facts = [], db_verification_runs = [], db_checks = [], db_contradictions = [],
      db_snapshots = []\<rparr>"

text \<open>An environment whose identifiers are the version-4 UUIDs of a counter.\<close>

definition sample_env :: env where
  "sample_env =
     \<lparr>e_clock = (\<lambda>_. sample_instant), e_uuid = new_id, e_sha256 = (\<lambda>_. replicate 64 CHR ''a''),
      e_order_facts = (\<lambda>rows. rows), e_order_checks = (\<lambda>rows. rows), e_order_documents = (\<lambda>rows. rows)\<rparr>"

definition world_of :: "db \<Rightarrow> 'x \<Rightarrow> 'x world" where
  "world_of d x = \<lparr>w_db = d, w_sess = d, w_scope = [], w_done = False, w_ids = 0, w_clk = 0, w_ext = x\<rparr>"

definition sample_create :: create_command where
  "sample_create =
     \<lparr>cc_tenant = DEMO_TENANT_ID, cc_key = ''k1'', cc_given_name = ''Ada'', cc_family_name = ''Lovelace'',
      cc_date_of_birth = Date 1980 5 17, cc_email = ''ada@synthetic.test'', cc_product = prod_id demo_product,
      cc_amount = \<lparr>amount = Finite False 1000000 (- 2), currency = ''USD''\<rparr>, cc_term = 24\<rparr>"

lemma valid_demo: "valid_uuid DEMO_TENANT_ID" "valid_uuid (prod_id demo_product)"
  by (rule valid_uuid_hex; simp add: DEMO_TENANT_ID_def demo_product_def is_hex_def hex_val_def char_code_def)+

lemma demo_money: "mk_Money (Finite False c (- 2)) ''USD'' = Inr \<lparr>amount = Finite False c (- 2), currency = ''USD''\<rparr>"
  if "c < 10 ^ decimal_precision"
  using that by (simp add: mk_Money_supported SUPPORTED_CURRENCIES_def dec_quantize_same)

lemma demo_product_row:
  "row_to_product \<lparr>pr_id = prod_id demo_product, pr_tenant = t,
        pr_code = prod_code demo_product, pr_name = prod_name demo_product,
        pr_currency = prod_currency demo_product, pr_min_amount = amount (prod_min_amount demo_product),
        pr_max_amount = amount (prod_max_amount demo_product), pr_min_term = prod_min_term demo_product,
        pr_max_term = prod_max_term demo_product, pr_is_active = prod_is_active demo_product,
        pr_created_at = now\<rparr> = Inr demo_product"
  using valid_demo(2)
  by (simp add: row_to_product_def) (simp add: demo_product_def demo_money decimal_precision_def mk_Product_def
    money_gt_def require_same_currency_def dec_less_def signed_def)

lemma demo_accepts:
  "accepts demo_product \<lparr>amount = Finite False 1000000 (- 2), currency = ''USD''\<rparr> 24 = Inr True"
  by (simp add: accepts_def demo_product_def money_le_def require_same_currency_def dec_less_eq_def signed_def)

lemma sample_guards: "create_guards \<lparr>amount = Finite False 1000000 (- 2), currency = ''USD''\<rparr> 24 = Inr ()"
  by (simp add: create_guards_def is_negative_def is_zero_def dec_less_def dec_equal_def dec_zero_def signed_def)

lemmas run_defs = bnd_def try_except_def transaction_def with_uow_def aenter_def aexit_def commit_def
  execute_def at_now_def reserve_or_raise_cases reserved_def visible_def guard_row_def insert_defs
  record_domain_events_def stage_event_def get_checkpoint_def flush_plan_def execute_all_def
  empty_plan_def put_loaded_def update_checkpoint_def

lemma sample_create_runs:
  "case create_application sample_env sample_create (world_of (initial_db sample_instant) ()) of
     (Inr r, w) \<Rightarrow> res_status r = DRAFT \<and> length (db_outbox (w_db w)) = 1 \<and>
       map ap_id (db_applications (w_db w)) = [res_application r]
   | _ \<Rightarrow> False"
  using valid_demo
  by (simp add: create_application_def create_application_body_def run_defs sample_env_def
    sample_create_def world_of_def initial_db_def product_get_def demo_product_row demo_accepts valid_new_id
    mk_Applicant_def str_strip_def strip_by_def is_space_def char_code_def starts_with_def applicant_add_def
    application_add_def application_to_row_def application_row_ok_def application_row_fits_def fits_int32_def
    create_def sample_guards publish_def pull_events_def outbox_row_of_def audit_row_of_def version_snapshot_row_def
    application_ids_def SCHEMA_VERSION_def Let_def result_of_def case_result.extend_def APPLICATION_STATUSES_def)

text \<open>A database that holds one case, in a given status and version.\<close>

definition sample_row :: "application_status \<Rightarrow> int \<Rightarrow> application_row" where
  "sample_row s v = application_to_row (sample_application\<lparr>app_status := s, app_version := v\<rparr>)"

definition case_db :: "application_status \<Rightarrow> int \<Rightarrow> db" where
  "case_db s v = (initial_db sample_instant)
     \<lparr>db_applicants := [\<lparr>ar_id = app_applicant sample_application, ar_tenant = DEMO_TENANT_ID,
        ar_given_name = ''Ada'', ar_family_name = ''Lovelace'', ar_date_of_birth = Date 1980 5 17,
        ar_email = ''ada@synthetic.test'', ar_created_at = sample_instant\<rparr>],
      db_applications := [sample_row s v]\<rparr>"

lemma valid_sample:
  "valid_uuid (app_id sample_application)" "valid_uuid (app_applicant sample_application)"
  "valid_uuid (app_product sample_application)" "app_tenant sample_application = DEMO_TENANT_ID"
  "app_product sample_application = prod_id demo_product"
proof -
  show "valid_uuid (app_id sample_application)" "valid_uuid (app_applicant sample_application)"
    by (rule valid_uuid_hex; simp add: sample_application_def is_hex_def hex_val_def char_code_def)+
  show "app_tenant sample_application = DEMO_TENANT_ID" "app_product sample_application = prod_id demo_product"
    by (simp_all add: sample_application_def DEMO_TENANT_ID_def demo_product_def)
  with valid_demo show "valid_uuid (app_product sample_application)" by simp
qed

lemma sample_row_read: "row_to_application (sample_row s v) = Inr (sample_application\<lparr>app_status := s, app_version := v\<rparr>)"
  using valid_sample valid_demo(1)
  by (simp add: row_to_application_def sample_row_def application_to_row_def)
    (simp add: sample_application_def demo_money decimal_precision_def)

lemma sample_row_fields [simp]:
  "ap_id (sample_row s v) = app_id sample_application" "ap_tenant (sample_row s v) = DEMO_TENANT_ID"
  "ap_version (sample_row s v) = v" "ap_status (sample_row s v) = status_value s"
  by (simp_all add: sample_row_def application_to_row_def valid_sample)

lemma load_sample:
  "w_scope w = DEMO_TENANT_ID \<Longrightarrow> db_applications (w_sess w) = [sample_row s v] \<Longrightarrow>
   load_application DEMO_TENANT_ID (app_id sample_application) w
     = (Inr (sample_application\<lparr>app_status := s, app_version := v\<rparr>), w)"
  by (simp add: load_application_def application_get_def get_application_row_def bnd_def visible_def sample_row_read)

lemma new_id_chars: "CHR ''/'' \<notin> set (new_id n)" "CHR ''.'' \<notin> set (new_id n)"
proof -
  have "\<forall>c \<in> set (new_id n). is_hex c \<or> c = CHR ''-''"
    unfolding new_id_def format_uuid_def set_append using hex_digits_chars by auto
  then show "CHR ''/'' \<notin> set (new_id n)" "CHR ''.'' \<notin> set (new_id n)"
    by (auto simp: is_hex_def hex_val_def char_code_def)
qed

lemma good_sample_env: "good_env sample_env"
  by (simp add: good_env_def sample_env_def valid_new_id sample_instant_def days_in_month_def)

end
