(* ===== verification/Recording.thy ===== *)
theory Recording
  imports Ledger Invariants
begin

text \<open>
  What recording domain events adds to the outbox, and which steps leave the outside world alone.
\<close>

lemma map_each_lift:
  "map_each (\<lambda>r. lift_result (f r)) rs w = (Inr ys, w') \<Longrightarrow> w' = w \<and> list_all2 (\<lambda>r y. f r = Inr y) rs ys"
  by (induction rs arbitrary: ys w) (auto elim!: bnd_InrE; blast)+

subsection \<open>The outbox rows of a recording\<close>

type_synonym published = "string \<times> string \<times> pyval \<times> string \<times> string \<times> datetime"

definition published :: "outbox_row \<Rightarrow> published" where
  "published r = (ob_event_type r, ob_aggregate_type r, ob_payload r, ob_tenant r, ob_aggregate_id r,
     ob_occurred_at r)"

definition event_image :: "domain_event \<Rightarrow> published" where
  "event_image e = (case event_to_record e of (event_type, aggregate_type, payload) \<Rightarrow>
     (event_type, aggregate_type, payload, ev_tenant_id e, ev_application_id e, ev_occurred_at e))"

lemma published_row: "published (outbox_row_of e i now) = event_image e" "ob_published_at (outbox_row_of e i now) = None"
  by (simp_all add: published_def event_image_def outbox_row_of_def split: prod.split)

lemma stage_event_row:
  "stage_event env e p w = (Inr p', w') \<Longrightarrow>
   pl_outbox p' = pl_outbox p @ [outbox_row_of e (e_uuid env (w_ids w)) (e_clock env (w_clk w))]"
  unfolding stage_event_def get_checkpoint_def
  by (auto simp: bnd_def Let_def split: option.splits)

lemma stage_events_rows:
  "stage_events env es p w = (Inr p', w') \<Longrightarrow>
   \<exists>rows. pl_outbox p' = pl_outbox p @ rows \<and> map published rows = map event_image es
     \<and> (\<forall>r \<in> set rows. ob_published_at r = None)"
proof (induction es arbitrary: p w)
  case (Cons e es)
  then obtain p1 w1 where "stage_event env e p w = (Inr p1, w1)" "stage_events env es p1 w1 = (Inr p', w')"
    by (auto elim: bnd_InrE)
  with Cons.IH [of p1 w1] stage_event_row [of env e p w p1 w1] show ?case
    by (fastforce simp: published_row)
qed simp

lemma execute_all_leaves:
  "(\<And>r. leaves p (execute (f r) :: ('x, unit) handler)) \<Longrightarrow> leaves p (execute_all f rows :: ('x, unit) handler)"
  unfolding execute_all_def by (intro leaves_bnd leaves_map_each leaves_refl) blast

lemma leaves_outbox_updates:
  "leaves db_outbox (execute (insert_audit_event r1))" "leaves db_outbox (execute (insert_audit_hash r2))"
  "leaves db_outbox (execute (update_checkpoint r3))"
  by (rule leaves_execute, auto simp: insert_defs bind_result_Inr_iff update_checkpoint_def)+

text \<open>A successful recording appends one unpublished row per event, in order, and nothing else.\<close>

lemma record_outbox:
  assumes "record_domain_events env es w = (Inr u, w')"
  shows "\<exists>rows. db_outbox (w_sess w') = db_outbox (w_sess w) @ rows \<and> map published rows = map event_image es
     \<and> (\<forall>r \<in> set rows. ob_published_at r = None)"
proof -
  from assms obtain p w1 w2 w3 w4 where stage: "stage_events env es empty_plan w = (Inr p, w1)"
    and out: "execute_all insert_outbox (pl_outbox p) w1 = (Inr (), w2)"
    and rest: "execute_all insert_audit_event (pl_audit p) w2 = (Inr (), w3)"
      "execute_all insert_audit_hash (pl_new_hashes p) w3 = (Inr (), w4)"
      "execute_all update_checkpoint (pl_loaded p) w4 = (Inr u, w')"
    unfolding record_domain_events_def flush_plan_def by (auto elim!: bnd_InrE)
  have "w_sess w1 = w_sess w" using leavesD [OF leaves_stage_events stage, of id] by simp
  moreover have "db_outbox (w_sess w') = db_outbox (w_sess w2)"
    using leavesD [OF execute_all_leaves [OF leaves_outbox_updates(1)] rest(1)]
      leavesD [OF execute_all_leaves [OF leaves_outbox_updates(2)] rest(2)]
      leavesD [OF execute_all_leaves [OF leaves_outbox_updates(3)] rest(3)] by simp
  moreover obtain rows where "pl_outbox p = rows" "map published rows = map event_image es"
    "\<forall>r \<in> set rows. ob_published_at r = None"
    using stage_events_rows [OF stage] by (auto simp: empty_plan_def)
  ultimately show ?thesis using flush_outbox [OF out] by auto
qed

subsection \<open>Tables no reservation or recording touches\<close>

text \<open>A projection that ignores the key table ignores reservations; one that ignores the three
  ledger tables ignores recordings.\<close>

lemma leaves_reserve:
  fixes p :: "db \<Rightarrow> 'p"
  assumes "\<And>d ks. p (d\<lparr>db_idempotency_keys := ks\<rparr>) = p d"
  shows "leaves p (reserve_or_raise env t k op :: ('x, unit) handler)"
proof -
  have "leaves p (execute (insert_idempotency r) :: ('x, unit) handler)" for r
    by (rule leaves_execute) (auto simp: insert_defs bind_result_Inr_iff assms)
  then show ?thesis
    unfolding reserve_or_raise_def reserve_idempotency_key_def by (intro leaves_intros) simp_all
qed

lemma leaves_record:
  fixes p :: "db \<Rightarrow> 'p"
  assumes "\<And>d r. p (d\<lparr>db_outbox := r\<rparr>) = p d" "\<And>d r. p (d\<lparr>db_audit_events := r\<rparr>) = p d"
    "\<And>d r. p (d\<lparr>db_audit_hashes := r\<rparr>) = p d"
  shows "leaves p (record_domain_events env es :: ('x, unit) handler)"
proof -
  have "leaves p (execute (insert_outbox r1) :: ('x, unit) handler)"
    "leaves p (execute (insert_audit_event r2) :: ('x, unit) handler)"
    "leaves p (execute (insert_audit_hash r3) :: ('x, unit) handler)"
    "leaves p (execute (update_checkpoint r4) :: ('x, unit) handler)" for r1 r2 r3 r4
    by (rule leaves_execute; auto simp: insert_defs bind_result_Inr_iff update_checkpoint_def assms)+
  then show ?thesis
    unfolding record_domain_events_def flush_plan_def
    by (intro leaves_bnd leaves_stage_events execute_all_leaves) simp_all
qed

subsection \<open>Steps that leave the outside world alone\<close>

abbreviation silent :: "('x, 'a) handler \<Rightarrow> bool" where
  "silent m \<equiv> stays (\<lambda>w w'. w_ext w' = w_ext w) m"

named_theorems silent_intros \<open>steps that leave the outside world alone\<close>

lemma silent_order: "reflp (\<lambda>w w'. w_ext w' = w_ext w)" "transp (\<lambda>w w'. w_ext w' = w_ext w)"
  by (auto simp: reflp_def transp_def)

lemmas silent_bnd [silent_intros] = stays_bnd [OF silent_order(2)]
lemmas silent_try [silent_intros] = stays_try_except [OF silent_order(2)]
lemmas silent_refl [silent_intros] = stays_refl_steps [OF silent_order(1)]
lemmas silent_map_each [silent_intros] = stays_map_each [OF silent_order]

lemma silent_if [silent_intros]: "silent m \<Longrightarrow> silent n \<Longrightarrow> silent (if b then m else n)"
  by simp

lemma silent_primitives [silent_intros]:
  "silent (clock_now env)" "silent (generate_id env)" "silent (at_now env g)" "silent (query q)"
  "silent (execute f)"
  by (auto simp: stays_def at_now_def execute_def split: sum.splits)

lemma silent_case_option [silent_intros]:
  "silent m \<Longrightarrow> (\<And>x. silent (f x)) \<Longrightarrow> silent (case opt of None \<Rightarrow> m | Some x \<Rightarrow> f x)"
  by (cases opt) auto

lemma silent_case_error [silent_intros]:
  "(\<And>m. silent (f m)) \<Longrightarrow> (\<And>e. silent (g e)) \<Longrightarrow>
   silent (case e of IntegrityError m \<Rightarrow> f m | _ \<Rightarrow> g e)"
  by (cases e) auto

lemma silent_operations [silent_intros]:
  "silent (reserve_or_raise env t k op)" "silent (application_get t k)" "silent (load_application t k)"
  "silent (applicant_get t k)" "silent (get_facts env t k)" "silent (get_checks env t k)"
  "silent (list_documents env t k)" "silent (document_add d)"
  unfolding reserve_or_raise_def reserve_idempotency_key_def application_get_def load_application_def
    get_application_row_def applicant_get_def get_facts_def get_checks_def list_documents_def document_add_def
  by (intro silent_intros)+

lemma silent_stage_events: "silent (stage_events env es p)"
proof (induction es arbitrary: p)
  case Nil
  show ?case unfolding stage_events.simps by (intro silent_intros)
next
  case (Cons e es)
  show ?case
    unfolding stage_events.simps stage_event_def get_checkpoint_def Let_def
    by (intro silent_intros Cons.IH)
qed

lemma silent_record [silent_intros]: "silent (record_domain_events env es)"
  unfolding record_domain_events_def flush_plan_def execute_all_def
  by (intro silent_intros silent_stage_events)

end
