(* ===== verification/Object_Store.thy ===== *)
theory Object_Store
  imports Documents Identifiers
begin

text \<open>
  \<open>infrastructure/object_store/minio_client.py\<close> over the S3 client, which is a parameter: each of
  its calls takes the state of the outside world and returns a response or an exception and the new
  state.  Tenant isolation in the bucket is the key prefix \<open>scoped_key\<close> adds.
\<close>

record head_response =
  hr_metadata :: "(string \<times> string) list"
  hr_content_length :: nat
  hr_content_type :: "string option"
  hr_version_id :: "string option"
  hr_last_modified :: datetime

record 'x s3_client =
  s3_put_object :: "string \<Rightarrow> string \<Rightarrow> string \<Rightarrow> (string \<times> string) list \<Rightarrow> 'x \<Rightarrow> (py_error + string option) \<times> 'x"
  s3_get_object :: "string \<Rightarrow> 'x \<Rightarrow> (py_error + string) \<times> 'x"
  s3_head_object :: "string \<Rightarrow> 'x \<Rightarrow> (py_error + head_response) \<times> 'x"
  s3_presign :: "string \<Rightarrow> nat \<Rightarrow> 'x \<Rightarrow> (py_error + string) \<times> 'x"
  s3_head_bucket :: "'x \<Rightarrow> (py_error + unit) \<times> 'x"
  s3_create_bucket :: "'x \<Rightarrow> (py_error + unit) \<times> 'x"
  s3_put_bucket_versioning :: "'x \<Rightarrow> (py_error + unit) \<times> 'x"
  s3_now :: "'x \<Rightarrow> datetime"

type_synonym ('x, 'a) call = "('x, py_error, 'a) computation"

definition CHECKSUM_METADATA_KEY :: string where
  "CHECKSUM_METADATA_KEY = ''sha256''"

definition scoped_key :: "string \<Rightarrow> string \<Rightarrow> py_error + string" where
  "scoped_key tenant_id key =
     (if starts_with ''/'' key \<or> ''..'' \<in> set (str_split CHR ''/'' key)
      then Inl (ValueError (''object key '' @ py_repr key
             @ '' must be a relative path with no '' @ py_repr ''..'' @ '' segments''))
      else Inr (tenant_id @ ''/'' @ key))"

definition raise_mapped :: "py_error \<Rightarrow> string \<Rightarrow> ('x, 'a) call" where
  "raise_mapped exc key =
     (case exc of
        ClientError code \<Rightarrow>
          if code \<in> {''NoSuchKey'', ''404''} then raise (ObjectNotFoundError key) else raise exc
      | _ \<Rightarrow> raise exc)"

definition ensure_ready :: "'x s3_client \<Rightarrow> ('x, unit) call" where
  "ensure_ready s3 =
     bnd (try_except (s3_head_bucket s3)
            (\<lambda>e. case e of ClientError _ \<Rightarrow> s3_create_bucket s3 | _ \<Rightarrow> raise e))
       (\<lambda>_. s3_put_bucket_versioning s3)"

definition put_object ::
  "(string \<Rightarrow> string) \<Rightarrow> 'x s3_client \<Rightarrow> string \<Rightarrow> string \<Rightarrow> string \<Rightarrow> string \<Rightarrow> ('x, object_metadata) call" where
  "put_object sha256 s3 tenant_id key data content_type =
     bnd (lift_result (scoped_key tenant_id key)) (\<lambda>k.
     let checksum = sha256 data in
     bnd (s3_put_object s3 k data content_type [(CHECKSUM_METADATA_KEY, checksum)]) (\<lambda>version_id.
     bnd (gets (s3_now s3)) (\<lambda>now. ret
       \<lparr>om_key = key, om_checksum = checksum, om_size_bytes = length data,
        om_content_type = content_type, om_version_id = version_id, om_uploaded_at = now\<rparr>)))"

definition get_object :: "'x s3_client \<Rightarrow> string \<Rightarrow> string \<Rightarrow> ('x, string) call" where
  "get_object s3 tenant_id key =
     bnd (lift_result (scoped_key tenant_id key)) (\<lambda>k.
       try_except (s3_get_object s3 k) (\<lambda>e. raise_mapped e key))"

definition get_object_metadata :: "'x s3_client \<Rightarrow> string \<Rightarrow> string \<Rightarrow> ('x, object_metadata) call" where
  "get_object_metadata s3 tenant_id key =
     bnd (lift_result (scoped_key tenant_id key)) (\<lambda>k.
     bnd (try_except (s3_head_object s3 k) (\<lambda>e. raise_mapped e key)) (\<lambda>r. ret
       \<lparr>om_key = key,
        om_checksum = (case map_of (hr_metadata r) CHECKSUM_METADATA_KEY of None \<Rightarrow> [] | Some c \<Rightarrow> c),
        om_size_bytes = hr_content_length r,
        om_content_type = (case hr_content_type r of None \<Rightarrow> ''application/octet-stream'' | Some t \<Rightarrow> t),
        om_version_id = hr_version_id r, om_uploaded_at = hr_last_modified r\<rparr>))"

definition generate_presigned_get_url ::
  "'x s3_client \<Rightarrow> string \<Rightarrow> string \<Rightarrow> nat \<Rightarrow> ('x, string) call" where
  "generate_presigned_get_url s3 tenant_id key expires_in_seconds =
     bnd (lift_result (scoped_key tenant_id key)) (\<lambda>k. s3_presign s3 k expires_in_seconds)"

subsection \<open>Isolation of the key space\<close>

lemma str_split_no_sep: "w \<in> set (str_split c s) \<Longrightarrow> c \<notin> set w"
  by (induction s arbitrary: w) (auto split: if_splits list.splits)

text \<open>C40: tenants cannot reach each other's objects.  Two scoped keys that coincide were made from
  the same tenant and the same key, whenever the tenant identifiers contain no slash (a valid
  identifier never does); and no accepted key is absolute or has a \<open>..\<close> segment.\<close>

theorem scoped_key_isolates_tenants:
  assumes "CHR ''/'' \<notin> set t" "CHR ''/'' \<notin> set u" "scoped_key t k = Inr s" "scoped_key u l = Inr s"
  shows "t = u \<and> k = l \<and> ''..'' \<notin> set (str_split CHR ''/'' k) \<and> \<not> starts_with ''/'' k"
proof -
  from assms(3,4) have "t @ CHR ''/'' # k = u @ CHR ''/'' # l"
    by (auto simp: scoped_key_def split: if_splits)
  then have "str_split CHR ''/'' (t @ CHR ''/'' # k) = str_split CHR ''/'' (u @ CHR ''/'' # l)" by simp
  then have "t = u" by (simp add: str_split_append assms(1,2))
  with assms(3,4) show ?thesis by (auto simp: scoped_key_def split: if_splits)
qed

theorem scoped_key_isolates_tenants_witness:
  "scoped_key ''t1'' ''applications/a/doc.pdf'' = Inr ''t1/applications/a/doc.pdf'' \<and>
   ''..'' \<notin> set (str_split CHR ''/'' ''applications/a/doc.pdf'')"
proof -
  have run: "scoped_key ''t1'' ''applications/a/doc.pdf'' = Inr ''t1/applications/a/doc.pdf''"
    by (simp add: scoped_key_def starts_with_def)
  with scoped_key_isolates_tenants [OF _ _ run run] show ?thesis by simp
qed

end
