(* ===== verification/File_Safety.thy ===== *)
theory File_Safety
  imports Documents
begin

text \<open>
  \<open>infrastructure/documents/file_safety_scanner.py\<close> and \<open>pdf_parser.py\<close>.  The pypdf reader is a
  parameter: what it makes of a byte string (a \<open>PdfReadError\<close>, another exception, or a document
  with its encryption flag and its pages, the text of each of which may again fail to extract).
\<close>

datatype pdf_failure = PdfReadError string | OtherPdfFailure py_error

record pdf =
  pdf_encrypted :: bool
  pdf_pages :: "(pdf_failure + string) list"

type_synonym pdf_reader = "string \<Rightarrow> pdf_failure + pdf"

definition MAGIC_BYTES_BY_CONTENT_TYPE :: "(string \<times> string) list" where
  "MAGIC_BYTES_BY_CONTENT_TYPE =
     [(''application/pdf'', ''%PDF-''),
      (''image/png'', [CHR 0x89, CHR ''P'', CHR ''N'', CHR ''G'', CHR 0x0D, CHR 0x0A, CHR 0x1A, CHR 0x0A]),
      (''image/jpeg'', [CHR 0xFF, CHR 0xD8, CHR 0xFF])]"

definition ALLOWED_EXTENSIONS :: "(string \<times> string) list" where
  "ALLOWED_EXTENSIONS =
     [(''.pdf'', ''application/pdf''), (''.png'', ''image/png''), (''.jpg'', ''image/jpeg''),
      (''.jpeg'', ''image/jpeg'')]"

definition extension_of :: "string \<Rightarrow> string" where
  "extension_of filename =
     (case str_rpartition CHR ''.'' filename of (_, _, suffix) \<Rightarrow>
        if suffix \<noteq> [] then ''.'' @ str_lower suffix else [])"

definition sniff_content_type :: "string \<Rightarrow> string option" where
  "sniff_content_type data =
     map_option fst (find (\<lambda>(content_type, magic). starts_with magic data) MAGIC_BYTES_BY_CONTENT_TYPE)"

definition unreadable :: "pdf_failure \<Rightarrow> py_error" where
  "unreadable f =
     (case f of PdfReadError msg \<Rightarrow> ExtractionFailedError ''unknown'' (''unreadable PDF: '' @ msg)
      | OtherPdfFailure e \<Rightarrow> e)"

definition pdf_page_count :: "pdf_reader \<Rightarrow> string \<Rightarrow> py_error + nat" where
  "pdf_page_count reader data =
     (case reader data of
        Inl f \<Rightarrow> Inl (unreadable f)
      | Inr doc \<Rightarrow>
          if pdf_encrypted doc
          then Inl (UnsupportedDocumentTypeError ''application/pdf (encrypted)'')
          else Inr (length (pdf_pages doc)))"

record safety_report =
  sr_content_type :: string
  sr_page_count :: nat

text \<open>\<open>_malware_scan\<close> is a stub that always passes.\<close>

definition malware_scan :: "string \<Rightarrow> py_error + unit" where
  "malware_scan data = Inr ()"

definition scan ::
  "pdf_reader \<Rightarrow> nat \<Rightarrow> nat \<Rightarrow> string \<Rightarrow> string \<Rightarrow> string \<Rightarrow> py_error + safety_report" where
  "scan reader max_size_bytes max_pages data filename declared_content_type =
     (if length data > max_size_bytes
      then Inl (DocumentTooLargeError (length data) max_size_bytes)
      else case map_of ALLOWED_EXTENSIONS (extension_of filename) of
        None \<Rightarrow> Inl (UnsupportedDocumentTypeError declared_content_type)
      | Some expected \<Rightarrow>
          (case sniff_content_type data of
             None \<Rightarrow> Inl (UnsupportedDocumentTypeError declared_content_type)
           | Some detected \<Rightarrow>
               if detected \<noteq> expected then Inl (UnsupportedDocumentTypeError declared_content_type)
               else
                 bind_result (if detected = ''application/pdf'' then pdf_page_count reader data else Inr 1)
                 (\<lambda>page_count.
                   if page_count > max_pages then Inl (PageLimitExceededError page_count max_pages)
                   else bind_result (malware_scan data) (\<lambda>_.
                     Inr \<lparr>sr_content_type = detected, sr_page_count = page_count\<rparr>))))"

definition SUPPORTED_CONTENT_TYPES :: "string list" where
  "SUPPORTED_CONTENT_TYPES = [''application/pdf'']"

text \<open>The list comprehension over the pages: the first page that fails raises.\<close>

fun page_texts :: "int \<Rightarrow> (pdf_failure + string) list \<Rightarrow> pdf_failure + page_text list" where
  "page_texts index [] = Inr []"
| "page_texts index (p # ps) =
     (case p of
        Inl f \<Rightarrow> Inl f
      | Inr text \<Rightarrow>
          (case page_texts (index + 1) ps of
             Inl f \<Rightarrow> Inl f | Inr rest \<Rightarrow> Inr (\<lparr>pt_page = index, pt_text = text\<rparr> # rest)))"

definition extract_text :: "pdf_reader \<Rightarrow> string \<Rightarrow> string \<Rightarrow> py_error + page_text list" where
  "extract_text reader data content_type =
     (if content_type \<notin> set SUPPORTED_CONTENT_TYPES
      then Inl (UnsupportedDocumentTypeError content_type)
      else case reader data of
        Inl f \<Rightarrow> Inl (unreadable f)
      | Inr doc \<Rightarrow>
          (case page_texts 1 (pdf_pages doc) of Inl f \<Rightarrow> Inl (unreadable f) | Inr pages \<Rightarrow> Inr pages))"

lemma sniff_magic:
  "sniff_content_type data = Some t \<Longrightarrow>
   \<exists>magic. (t, magic) \<in> set MAGIC_BYTES_BY_CONTENT_TYPE \<and> starts_with magic data"
  by (auto simp: sniff_content_type_def find_Some_iff) (metis nth_mem)

lemma page_texts_pages: "page_texts i ps = Inr ts \<Longrightarrow> map pt_page ts = [i..i + int (length ps) - 1]"
proof (induction ps arbitrary: i ts)
  case Nil
  then show ?case by simp
next
  case (Cons p ps)
  then obtain tx rest where "p = Inr tx" "page_texts (i + 1) ps = Inr rest"
    "ts = \<lparr>pt_page = i, pt_text = tx\<rparr> # rest" by (auto split: sum.splits)
  with Cons.IH [of "i + 1" rest] show ?case
    by (simp add: upto_rec1 [of i] algebra_simps)
qed

text \<open>C39: what a passed scan means.  The scanner accepts a file only when it is within the size
  limit, its extension is an allowed one, its leading bytes are the signature of exactly the type
  that extension stands for, a PDF opens, is not encrypted, and the page count is within the limit;
  the reported type comes from the bytes.  The content type the client declared plays no part: any other declaration
  passes with the same report, although the scanner's comment says that it must match the bytes.\<close>

theorem scan_accepts_only_genuine_files:
  assumes "scan reader max_size max_pages data filename declared = Inr report"
  shows "length data \<le> max_size \<and> sr_page_count report \<le> max_pages \<and>
    map_of ALLOWED_EXTENSIONS (extension_of filename) = Some (sr_content_type report) \<and>
    (\<exists>magic. (sr_content_type report, magic) \<in> set MAGIC_BYTES_BY_CONTENT_TYPE \<and> starts_with magic data) \<and>
    (sr_content_type report = ''application/pdf'' \<longrightarrow>
       (\<exists>doc. reader data = Inr doc \<and> \<not> pdf_encrypted doc \<and> sr_page_count report = length (pdf_pages doc))) \<and>
    (\<forall>other. scan reader max_size max_pages data filename other = Inr report)"
  using assms
  by (auto simp: scan_def bind_result_Inr_iff pdf_page_count_def
      dest: sniff_magic split: option.splits if_splits sum.splits)

definition one_page_reader :: pdf_reader where
  "one_page_reader data = Inr \<lparr>pdf_encrypted = False, pdf_pages = [Inr ''text'']\<rparr>"

theorem scan_accepts_only_genuine_files_witness:
  "scan one_page_reader 100 5 ''%PDF-1.4'' ''stub.pdf'' ''text/html''
     = Inr \<lparr>sr_content_type = ''application/pdf'', sr_page_count = 1\<rparr> \<and> length ''%PDF-1.4'' \<le> 100"
proof -
  have run: "scan one_page_reader 100 5 ''%PDF-1.4'' ''stub.pdf'' ''text/html''
     = Inr \<lparr>sr_content_type = ''application/pdf'', sr_page_count = 1\<rparr>"
    by (simp add: scan_def extension_of_def str_rpartition_def str_lower_def char_code_def
        ALLOWED_EXTENSIONS_def sniff_content_type_def MAGIC_BYTES_BY_CONTENT_TYPE_def starts_with_def
        pdf_page_count_def one_page_reader_def malware_scan_def Let_def)
  with scan_accepts_only_genuine_files [OF run] show ?thesis by blast
qed

end
