(* ===== verification/Regex.thy ===== *)
theory Regex
  imports PyStrings
begin

text \<open>
  The part of Python's \<open>re\<close> the extractor uses, as the backtracking matcher it is: a pattern is a
  sequence of literals, greedy repetitions of a character class and capturing groups that do not
  nest; \<open>search\<close> takes the leftmost position at which the sequence matches, and there the
  repetition counts a backtracking matcher finds first.  Strings hold code points below 256.
\<close>

datatype char_class = Space | NonSpace | Digit | WordOrDash | DigitOrComma | NotNewline

definition is_word :: "char \<Rightarrow> bool" where
  "is_word c \<longleftrightarrow> (let n = char_code c in
     (48 \<le> n \<and> n \<le> 57) \<or> (65 \<le> n \<and> n \<le> 90) \<or> n = 95 \<or> (97 \<le> n \<and> n \<le> 122) \<or> n = 170
     \<or> n = 178 \<or> n = 179 \<or> n = 181 \<or> n = 185 \<or> n = 186 \<or> (188 \<le> n \<and> n \<le> 190)
     \<or> (192 \<le> n \<and> n \<le> 255 \<and> n \<noteq> 215 \<and> n \<noteq> 247))"

fun in_class :: "char_class \<Rightarrow> char \<Rightarrow> bool" where
  "in_class Space c = is_space c"
| "in_class NonSpace c = (\<not> is_space c)"
| "in_class Digit c = is_digit c"
| "in_class WordOrDash c = (is_word c \<or> c = CHR ''-'')"
| "in_class DigitOrComma c = (is_digit c \<or> c = CHR '','')"
| "in_class NotNewline c = (c \<noteq> CHR 0x0A)"

datatype piece = Lit char | Some_of char_class nat | Times char_class nat | Open | Close

definition push :: "string \<Rightarrow> string option \<Rightarrow> string option" where
  "push s cap = map_option (\<lambda>g. g @ s) cap"

fun first_some :: "'a option list \<Rightarrow> 'a option" where
  "first_some [] = None"
| "first_some (None # xs) = first_some xs"
| "first_some (Some x # xs) = Some x"

text \<open>
  \<open>match_pieces ps s cap\<close>: the captures of the groups of \<open>ps\<close> when it matches a prefix of \<open>s\<close>;
  \<open>cap\<close> is what the open group has captured so far.  \<open>Some_of c n\<close> stands for at least \<open>n\<close>
  characters of the class, the most first.
\<close>

primrec match_pieces :: "piece list \<Rightarrow> string \<Rightarrow> string option \<Rightarrow> string list option" where
  "match_pieces [] s cap = Some []"
| "match_pieces (p # ps) s cap =
     (case p of
        Lit c \<Rightarrow>
          (case s of [] \<Rightarrow> None
           | x # xs \<Rightarrow> if x = c then match_pieces ps xs (push [x] cap) else None)
      | Some_of cls n \<Rightarrow>
          first_some (map (\<lambda>k. match_pieces ps (drop k s) (push (take k s) cap))
            (rev [n ..< Suc (length (takeWhile (in_class cls) s))]))
      | Times cls n \<Rightarrow>
          if n \<le> length (takeWhile (in_class cls) s)
          then match_pieces ps (drop n s) (push (take n s) cap) else None
      | Open \<Rightarrow> match_pieces ps s (Some [])
      | Close \<Rightarrow>
          (case cap of None \<Rightarrow> match_pieces ps s None
           | Some g \<Rightarrow> map_option (\<lambda>gs. g # gs) (match_pieces ps s None)))"

fun search :: "piece list \<Rightarrow> string \<Rightarrow> string list option" where
  "search ps [] = match_pieces ps [] None"
| "search ps (c # s) =
     (case match_pieces ps (c # s) None of Some gs \<Rightarrow> Some gs | None \<Rightarrow> search ps s)"

definition lits :: "string \<Rightarrow> piece list" where
  "lits s = map Lit s"

subsection \<open>Matching literals and greedy repetitions\<close>

lemma first_some_append: "first_some (xs @ ys) = (case first_some xs of None \<Rightarrow> first_some ys | Some x \<Rightarrow> Some x)"
  by (induction xs rule: first_some.induct) auto

lemma first_some_none: "\<forall>x \<in> set xs. x = None \<Longrightarrow> first_some xs = None"
  by (induction xs rule: first_some.induct) auto

lemma push_simps [simp]: "push s None = None" "push s (Some g) = Some (g @ s)"
  by (simp_all add: push_def)

text \<open>Stepping through a pattern; a greedy repetition is left to the rules below.\<close>

lemma match_steps [simp]:
  "match_pieces (Lit c # ps) [] cap = None"
  "match_pieces (Lit c # ps) (x # xs) cap = (if x = c then match_pieces ps xs (push [x] cap) else None)"
  "match_pieces (Times cls n # ps) s cap =
     (if n \<le> length (takeWhile (in_class cls) s)
      then match_pieces ps (drop n s) (push (take n s) cap) else None)"
  "match_pieces (Open # ps) s cap = match_pieces ps s (Some [])"
  "match_pieces (Close # ps) s (Some g) = map_option (\<lambda>gs. g # gs) (match_pieces ps s None)"
  "match_pieces (Close # ps) s None = match_pieces ps s None"
  by simp_all

lemma match_rep:
  "match_pieces (Some_of cls n # ps) s cap =
     first_some (map (\<lambda>k. match_pieces ps (drop k s) (push (take k s) cap))
       (rev [n ..< Suc (length (takeWhile (in_class cls) s))]))"
  by simp

declare match_pieces.simps(2) [simp del]

lemma match_lits:
  "match_pieces (lits l @ ps) s None = (if starts_with l s then match_pieces ps (drop (length l) s) None else None)"
proof (induction l arbitrary: s)
  case Nil
  then show ?case by (simp add: lits_def starts_with_def)
next
  case (Cons c l)
  then show ?case by (cases s) (auto simp: lits_def starts_with_def)
qed

lemma takeWhile_run:
  assumes "\<forall>c \<in> set a. P c" "r = [] \<or> \<not> P (hd r)"
  shows "takeWhile P (a @ r) = a"
proof -
  have "takeWhile P r = []" using assms(2) by (cases r) auto
  with assms(1) show ?thesis by simp
qed

text \<open>A greedy repetition that takes the whole run of its class, when the rest then matches.\<close>

lemma match_greedy:
  assumes "\<forall>c \<in> set a. in_class cls c" "r = [] \<or> \<not> in_class cls (hd r)" "n \<le> length a"
    "match_pieces ps r (push a cap) = Some gs"
  shows "match_pieces (Some_of cls n # ps) (a @ r) cap = Some gs"
proof -
  have run: "takeWhile (in_class cls) (a @ r) = a" using takeWhile_run [OF assms(1,2)] .
  have "rev [n ..< Suc (length a)] = length a # rev [n ..< length a]" using assms(3) by simp
  with assms(4) show ?thesis by (simp add: run match_rep)
qed

text \<open>A greedy repetition that has to give back everything from the last \<open>c\<close> of the run, because
  what follows it in the pattern can only start with \<open>c\<close>.\<close>

lemma match_until_last:
  assumes "\<forall>x \<in> set (a @ c # b). in_class cls x" "r = [] \<or> \<not> in_class cls (hd r)" "c \<notin> set b"
    "n \<le> length a" "match_pieces ps (c # b @ r) (push a cap) = Some gs"
    "\<And>s g. s = [] \<or> hd s \<noteq> c \<Longrightarrow> match_pieces ps s g = None"
  shows "match_pieces (Some_of cls n # ps) (a @ c # b @ r) cap = Some gs"
proof -
  let ?s = "a @ c # b @ r"
  let ?m = "\<lambda>k. match_pieces ps (drop k ?s) (push (take k ?s) cap)"
  have run: "takeWhile (in_class cls) ?s = a @ c # b"
    using takeWhile_run [OF assms(1,2)] by simp
  have "rev [n ..< Suc (length (a @ c # b))] = rev [Suc (length a) ..< Suc (length (a @ c # b))] @ rev [n ..< Suc (length a)]"
    using assms(4) upt_add_eq_append [of n "Suc (length a)" "length b + 1"] by simp
  moreover have "first_some (map ?m (rev [Suc (length a) ..< Suc (length (a @ c # b))])) = None"
  proof (rule first_some_none, clarsimp simp only: set_map set_rev set_upt)
    fix k assume "k \<in> {Suc (length a) ..< Suc (length (a @ c # b))}"
    then have "Suc (length a) \<le> k" "k \<le> Suc (length a) + length b" by simp_all
    then obtain j where j: "k = Suc (length a) + j" "j \<le> length b"
      using le_Suc_ex [of "Suc (length a)" k] by auto
    have rest: "drop k ?s = drop j b @ r" using j by simp
    have "drop j b @ r = [] \<or> hd (drop j b @ r) \<noteq> c"
    proof (cases "drop j b")
      case Nil
      with assms(1,2) show ?thesis by auto
    next
      case (Cons x xs)
      then have "x \<in> set b" by (metis in_set_dropD list.set_intros(1))
      with Cons assms(3) show ?thesis by auto
    qed
    then show "?m k = None" unfolding rest by (rule assms(6))
  qed
  moreover have "rev [n ..< Suc (length a)] = length a # rev [n ..< length a]" using assms(4) by simp
  moreover have "?m (length a) = Some gs" using assms(5) by simp
  ultimately have "first_some (map ?m (rev [n ..< Suc (length (a @ c # b))])) = Some gs"
    by (simp only: map_append first_some_append list.map option.case first_some.simps)
  then show ?thesis by (simp add: run match_rep)
qed

subsection \<open>Where a pattern that begins with a literal can match\<close>

text \<open>
  A literal that ends in its only \<open>c\<close> can match only so that this \<open>c\<close> is the first one of the text
  after the match's start; so a search walks the text from one \<open>c\<close> to the next.
\<close>

definition ends_with :: "string \<Rightarrow> string \<Rightarrow> bool" where
  "ends_with l s \<longleftrightarrow> starts_with (rev l) (rev s)"

lemma ends_with_iff: "ends_with l s \<longleftrightarrow> (\<exists>a. s = a @ l)"
  unfolding ends_with_def starts_with_iff by (metis rev_append rev_rev_ident)

lemma starts_with_first:
  assumes "c \<notin> set l" "c \<notin> set seg"
  shows "starts_with (l @ [c]) (seg @ c # rest) \<longleftrightarrow> l = seg"
  using assms
proof (induction l arbitrary: seg)
  case Nil
  then show ?case by (cases seg) (auto simp: starts_with_def)
next
  case (Cons x l)
  then show ?case by (cases seg) (auto simp: starts_with_def)
qed

lemma search_segment:
  assumes "c \<notin> set l" "c \<notin> set seg"
  shows "search (lits (l @ [c]) @ ps) (seg @ c # rest) =
    (if ends_with l seg
     then case match_pieces ps rest None of Some gs \<Rightarrow> Some gs
          | None \<Rightarrow> search (lits (l @ [c]) @ ps) rest
     else search (lits (l @ [c]) @ ps) rest)"
  using assms(2)
proof (induction seg)
  case Nil
  have "ends_with l [] \<longleftrightarrow> l = []" by (auto simp: ends_with_iff)
  with starts_with_first [OF assms(1), of "[]" rest] show ?case
    by (simp add: match_lits split: option.split)
next
  case (Cons x seg)
  have ew: "ends_with l (x # seg) \<longleftrightarrow> l = x # seg \<or> ends_with l seg"
    unfolding ends_with_iff by (metis Cons_eq_append_conv append_Nil)
  have sw: "starts_with (l @ [c]) (x # seg @ c # rest) \<longleftrightarrow> l = x # seg"
    using starts_with_first [OF assms(1), of "x # seg" rest] Cons.prems by simp
  have long: "\<not> ends_with l seg" if "l = x # seg"
    using that by (auto simp: ends_with_iff)
  show ?case
    using Cons.IH Cons.prems ew sw long
    by (auto simp: match_lits split: option.split)
qed

lemma search_skip:
  assumes "search (lits (l @ [c]) @ ps) rest = result" "c \<notin> set l" "c \<notin> set seg" "\<not> ends_with l seg"
  shows "search (lits (l @ [c]) @ ps) (seg @ c # rest) = result"
  using assms by (simp add: search_segment)

lemma search_hit:
  assumes "match_pieces ps rest None = Some gs" "c \<notin> set l" "c \<notin> set seg" "ends_with l seg"
  shows "search (lits (l @ [c]) @ ps) (seg @ c # rest) = Some gs"
  using assms by (simp add: search_segment)

lemma search_absent:
  assumes "c \<notin> set s" "c \<in> set l"
  shows "search (lits l @ ps) s = None"
  using assms(1)
proof (induction s)
  case Nil
  have "\<not> starts_with l []" using assms(2) by (auto simp: starts_with_def)
  then show ?case by (simp add: match_lits)
next
  case (Cons x s)
  have "\<not> starts_with l (x # s)" using assms(2) Cons.prems by (metis in_set_takeD starts_with_def)
  with Cons show ?case by (simp add: match_lits)
qed

end
