(* ===== verification/Synthetic.thy ===== *)
theory Synthetic
  imports Documents
begin

text \<open>
  \<open>services/synthetic_data/documents.py\<close>: the generated documents, from an applicant and an
  employment record to the bytes of a one-page PDF.
\<close>

record synthetic_applicant =
  sa_synthetic_id :: string
  sa_given_name :: string
  sa_family_name :: string
  sa_date_of_birth :: date
  sa_email :: string
  sa_street :: string
  sa_city :: string
  sa_employer :: string
  sa_income :: int

record synthetic_employment =
  se_applicant :: string
  se_employer :: string
  se_confirmed :: bool
  se_income :: int
  se_tenure :: int

subsection \<open>Money as text\<close>

text \<open>\<open>f"{x:,.2f}"\<close>: the digits of the whole part in groups of three.\<close>

fun group_digits :: "string \<Rightarrow> string" where
  "group_digits (a # b # c # d # ds) = a # b # c # CHR '','' # group_digits (d # ds)"
| "group_digits ds = ds"

definition show_grouped2 :: "rat \<Rightarrow> string" where
  "show_grouped2 x =
     (let c = nat (round_half_even (\<bar>x\<bar> * 100))
      in (if x < 0 then ''-'' else []) @ rev (group_digits (rev (show_nat (c div 100))))
           @ ''.'' @ show_padded 2 (c mod 100))"

subsection \<open>The lines of the documents\<close>

definition pay_stub_lines :: "synthetic_applicant \<Rightarrow> synthetic_employment \<Rightarrow> py_error + string list" where
  "pay_stub_lines applicant employment =
     bind_result (int_truediv (se_income employment) 12) (\<lambda>monthly_gross. Inr
       [''SYNTHETIC PAY STUB -- '' @ se_employer employment,
        ''Employee: '' @ sa_given_name applicant @ '' '' @ sa_family_name applicant,
        ''Pay period: Monthly    Gross pay: $'' @ show_grouped2 monthly_gross,
        ''Tenure: '' @ show_int (se_tenure employment) @ '' months'',
        ''This is a synthetic document generated for demo/testing purposes only.''])"

definition identity_document_lines :: "synthetic_applicant \<Rightarrow> string list" where
  "identity_document_lines applicant =
     [''SYNTHETIC GOVERNMENT-ISSUED ID (DEMO ONLY)'',
      ''Name: '' @ sa_given_name applicant @ '' '' @ sa_family_name applicant,
      ''Date of birth: '' @ date_isoformat (sa_date_of_birth applicant),
      ''Address: '' @ sa_street applicant @ '', '' @ sa_city applicant,
      ''Synthetic ID: '' @ sa_synthetic_id applicant,
      ''This is a synthetic document generated for demo/testing purposes only.'']"

subsection \<open>The PDF\<close>

definition newline :: char where
  "newline = CHR 0x0A"

definition escape_pdf_text :: "string \<Rightarrow> string" where
  "escape_pdf_text text =
     str_replace [CHR '')''] [CHR 0x5C, CHR '')'']
       (str_replace [CHR ''(''] [CHR 0x5C, CHR ''(''] (str_replace [CHR 0x5C] [CHR 0x5C, CHR 0x5C] text))"

fun text_operators :: "string list \<Rightarrow> string list" where
  "text_operators [] = []"
| "text_operators (line # rest) =
     (''('' @ escape_pdf_text line @ '') Tj'') # concat (map (\<lambda>l. [''T*'', ''('' @ escape_pdf_text l @ '') Tj'']) rest)"

definition content_stream :: "string list \<Rightarrow> string" where
  "content_stream lines =
     str_join [newline] ([''BT'', ''/F1 12 Tf'', ''72 720 Td'', ''14 TL''] @ text_operators lines @ [''ET''])"

definition pdf_objects :: "string \<Rightarrow> string list" where
  "pdf_objects stream =
     [''<< /Type /Catalog /Pages 2 0 R >>'',
      ''<< /Type /Pages /Kids [3 0 R] /Count 1 >>'',
      ''<< /Type /Page /Parent 2 0 R /Resources << /Font << /F1 4 0 R >> >> /MediaBox [0 0 612 792] /Contents 5 0 R >>'',
      ''<< /Type /Font /Subtype /Type1 /BaseFont /Helvetica >>'',
      ''<< /Length '' @ show_nat (length stream) @ '' >>'' @ [newline] @ ''stream'' @ [newline]
        @ stream @ [newline] @ ''endstream'']"

text \<open>The loop over the objects: the buffer, the offsets so far, the number of the next object.\<close>

fun write_objects :: "nat \<Rightarrow> string list \<Rightarrow> string \<Rightarrow> nat list \<Rightarrow> string \<times> nat list" where
  "write_objects i [] buffer offsets = (buffer, offsets)"
| "write_objects i (body # bodies) buffer offsets =
     write_objects (i + 1) bodies
       (buffer @ show_nat i @ '' 0 obj'' @ [newline] @ body @ [newline] @ ''endobj'' @ [newline])
       (offsets @ [length buffer])"

definition xref_entry :: "nat \<Rightarrow> string" where
  "xref_entry offset = show_padded 10 offset @ '' 00000 n '' @ [newline]"

definition xref_table :: "nat list \<Rightarrow> string" where
  "xref_table offsets =
     ''xref'' @ [newline] @ ''0 '' @ show_nat (length offsets + 1) @ [newline]
       @ ''0000000000 65535 f '' @ [newline] @ concat (map xref_entry offsets)"

definition trailer :: "nat \<Rightarrow> string \<Rightarrow> nat \<Rightarrow> string" where
  "trailer object_count title xref_offset =
     ''trailer'' @ [newline] @ ''<< /Size '' @ show_nat object_count @ '' /Root 1 0 R /Info << /Title (''
       @ escape_pdf_text title @ '') >> >>'' @ [newline] @ ''startxref'' @ [newline]
       @ show_nat xref_offset @ [newline] @ ''%%EOF''"

text \<open>\<open>None\<close> stands for the \<open>UnicodeEncodeError\<close> of a title that is not ASCII.\<close>

definition build_minimal_pdf :: "string \<Rightarrow> string list \<Rightarrow> string option" where
  "build_minimal_pdf title lines =
     (let (buffer, offsets) = write_objects 1 (pdf_objects (content_stream lines))
            (''%PDF-1.4'' @ [newline]) []
      in if \<forall>c \<in> set title. char_code c < 128
         then Some (buffer @ xref_table offsets @ trailer (length offsets + 1) title (length buffer))
         else None)"

definition generate_pay_stub_pdf ::
  "synthetic_applicant \<Rightarrow> synthetic_employment \<Rightarrow> py_error + string option" where
  "generate_pay_stub_pdf applicant employment =
     bind_result (pay_stub_lines applicant employment) (\<lambda>lines.
       Inr (build_minimal_pdf ''Synthetic Pay Stub'' lines))"

definition generate_identity_document_pdf :: "synthetic_applicant \<Rightarrow> string option" where
  "generate_identity_document_pdf applicant =
     build_minimal_pdf ''Synthetic Identity Document'' (identity_document_lines applicant)"

subsection \<open>The cross-reference table\<close>

text \<open>\<open>objects_at\<close>: at every listed offset of the buffer there is an object with the right number.\<close>

definition object_at :: "string \<Rightarrow> nat \<Rightarrow> nat \<Rightarrow> string \<Rightarrow> bool" where
  "object_at pdf offset i body \<longleftrightarrow>
     starts_with (show_nat i @ '' 0 obj'' @ [newline] @ body @ [newline] @ ''endobj'' @ [newline]) (drop offset pdf)"

lemma object_at_append: "object_at pdf offset i body \<Longrightarrow> offset \<le> length pdf \<Longrightarrow> object_at (pdf @ s) offset i body"
  by (auto simp: object_at_def starts_with_iff)

lemma write_objects_spec:
  assumes "write_objects i bodies buffer offsets = (buffer', offsets')"
    "length offsets = length done" "\<forall>k < length done. object_at buffer (offsets ! k) (k + 1) (done ! k)"
    "\<forall>k < length done. offsets ! k \<le> length buffer" "i = length done + 1"
  shows "\<exists>s. buffer' = buffer @ s \<and> length offsets' = length (done @ bodies)
    \<and> (\<forall>k < length offsets'. object_at buffer' (offsets' ! k) (k + 1) ((done @ bodies) ! k)
         \<and> offsets' ! k \<le> length buffer')"
  using assms
proof (induction bodies arbitrary: i buffer offsets "done")
  case Nil
  then show ?case by simp
next
  case (Cons body bodies)
  let ?s = "show_nat i @ '' 0 obj'' @ [newline] @ body @ [newline] @ ''endobj'' @ [newline]"
  have run: "write_objects (i + 1) bodies (buffer @ ?s) (offsets @ [length buffer]) = (buffer', offsets')"
    using Cons.prems(1) by simp
  have here: "object_at (buffer @ ?s) (length buffer) i body" by (simp add: object_at_def starts_with_def)
  have "\<exists>s. buffer' = (buffer @ ?s) @ s \<and> length offsets' = length ((done @ [body]) @ bodies)
    \<and> (\<forall>k < length offsets'. object_at buffer' (offsets' ! k) (k + 1) (((done @ [body]) @ bodies) ! k)
         \<and> offsets' ! k \<le> length buffer')"
  proof (rule Cons.IH [OF run])
    show "\<forall>k < length (done @ [body]).
        object_at (buffer @ ?s) ((offsets @ [length buffer]) ! k) (k + 1) ((done @ [body]) ! k)"
      using Cons.prems(2-5) here by (auto simp: nth_append less_Suc_eq intro: object_at_append)
    show "\<forall>k < length (done @ [body]). (offsets @ [length buffer]) ! k \<le> length (buffer @ ?s)"
      using Cons.prems(2,4) by (auto simp: nth_append less_Suc_eq intro: trans_le_add1)
  qed (use Cons.prems in simp_all)
  then show ?case by auto
qed

text \<open>The generated PDF is well formed.  The trailer's \<open>startxref\<close> number is where the
  cross-reference table starts, the table lists one offset per object, and at each listed offset
  the file holds the object of that number with its whole body.\<close>

lemma pdf_cross_references_resolve:
  assumes "build_minimal_pdf title lines = Some pdf"
  shows "\<exists>body offsets. pdf = body @ xref_table offsets @ trailer (length offsets + 1) title (length body) \<and>
    length offsets = 5 \<and>
    (\<forall>k < 5. object_at pdf (offsets ! k) (k + 1) (pdf_objects (content_stream lines) ! k))"
proof -
  obtain buffer offsets where w: "write_objects 1 (pdf_objects (content_stream lines))
      (''%PDF-1.4'' @ [newline]) [] = (buffer, offsets)" by fastforce
  have five: "length (pdf_objects s) = 5" for s by (simp add: pdf_objects_def)
  from write_objects_spec [OF w, of "[]"] have len: "length offsets = 5"
    and at: "\<forall>k < length offsets. object_at buffer (offsets ! k) (k + 1) (pdf_objects (content_stream lines) ! k)
      \<and> offsets ! k \<le> length buffer" by (simp_all add: five)
  have "pdf = buffer @ xref_table offsets @ trailer (length offsets + 1) title (length buffer)"
    using assms w unfolding build_minimal_pdf_def Let_def by (simp split: if_splits)
  with len at show ?thesis using object_at_append by metis
qed

lemma pdf_cross_references_resolve_witness:
  "\<exists>pdf. build_minimal_pdf ''Stub'' [''hi''] = Some pdf \<and>
     (\<exists>body offsets. pdf = body @ xref_table offsets @ trailer (length offsets + 1) ''Stub'' (length body))"
proof -
  have "\<forall>c \<in> set ''Stub''. char_code c < 128" by (simp add: char_code_def)
  then obtain pdf where "build_minimal_pdf ''Stub'' [''hi''] = Some pdf"
    unfolding build_minimal_pdf_def Let_def by (simp add: case_prod_beta)
  with pdf_cross_references_resolve [OF this] show ?thesis by blast
qed

end
