(* ===== verification/Extractor.thy ===== *)
theory Extractor
  imports Regex Synthetic
begin

text \<open>
  \<open>infrastructure/documents/regex_extractor.py\<close>: classification by marker, and one pattern per
  fact.  The round trip at the end relates it to the documents \<open>Synthetic\<close> generates.
\<close>

definition EXTRACTOR_VERSION :: string where
  "EXTRACTOR_VERSION = ''regex-v1''"

definition PAY_STUB_MARKER :: string where
  "PAY_STUB_MARKER = ''SYNTHETIC PAY STUB''"

definition IDENTITY_DOCUMENT_MARKER :: string where
  "IDENTITY_DOCUMENT_MARKER = ''GOVERNMENT-ISSUED ID''"

definition EMPLOYER_NAME_RE :: "piece list" where
  "EMPLOYER_NAME_RE = lits ''SYNTHETIC PAY STUB'' @ [Some_of Space 0] @ lits ''--'' @
     [Some_of Space 0, Open, Some_of NotNewline 1, Close]"

definition EMPLOYEE_NAME_RE :: "piece list" where
  "EMPLOYEE_NAME_RE = lits ''Employee:'' @
     [Some_of Space 0, Open, Some_of NonSpace 1, Close, Some_of Space 1, Open, Some_of NonSpace 1, Close]"

definition GROSS_PAY_RE :: "piece list" where
  "GROSS_PAY_RE = lits ''Gross pay:'' @
     [Some_of Space 0, Lit CHR ''$'', Open, Some_of DigitOrComma 1, Lit CHR ''.'', Times Digit 2, Close]"

definition TENURE_RE :: "piece list" where
  "TENURE_RE = lits ''Tenure:'' @ [Some_of Space 0, Open, Some_of Digit 1, Close, Some_of Space 0] @ lits ''months''"

definition IDENTITY_NAME_RE :: "piece list" where
  "IDENTITY_NAME_RE = lits ''Name:'' @
     [Some_of Space 0, Open, Some_of NonSpace 1, Close, Some_of Space 1, Open, Some_of NonSpace 1, Close]"

definition DATE_OF_BIRTH_RE :: "piece list" where
  "DATE_OF_BIRTH_RE = lits ''Date of birth:'' @
     [Some_of Space 0, Open, Times Digit 4, Lit CHR ''-'', Times Digit 2, Lit CHR ''-'', Times Digit 2, Close]"

definition ADDRESS_RE :: "piece list" where
  "ADDRESS_RE = lits ''Address:'' @
     [Some_of Space 0, Open, Some_of NotNewline 1, Close, Lit CHR '','', Some_of Space 0,
      Open, Some_of NotNewline 1, Close]"

definition SYNTHETIC_ID_RE :: "piece list" where
  "SYNTHETIC_ID_RE = lits ''Synthetic ID:'' @ [Some_of Space 0, Open, Some_of WordOrDash 1, Close]"

fun find_page :: "page_text list \<Rightarrow> piece list \<Rightarrow> (int \<times> string list) option" where
  "find_page [] pattern = None"
| "find_page (page # pages) pattern =
     (case search pattern (pt_text page) of
        Some groups \<Rightarrow> Some (pt_page page, groups) | None \<Rightarrow> find_page pages pattern)"

definition regex_fact :: "fact_type \<Rightarrow> string \<Rightarrow> string \<Rightarrow> int \<Rightarrow> string \<Rightarrow> py_error + extracted_fact" where
  "regex_fact ft value normalized page checksum =
     mk_ExtractedFact
       \<lparr>fact_type_of = ft, fact_value = value, fact_normalized = normalized, fact_confidence = 1,
        fact_page = page, fact_method = ''regex_pattern_match'', fact_extractor = EXTRACTOR_VERSION,
        fact_checksum = checksum\<rparr>"

definition classify :: "page_text list \<Rightarrow> document_classification" where
  "classify pages =
     (let joined = str_join [newline] (map pt_text pages) in
      if str_contains PAY_STUB_MARKER joined then INCOME_PROOF
      else if str_contains IDENTITY_DOCUMENT_MARKER joined then IDENTITY_DOCUMENT
      else UNKNOWN)"

text \<open>One \<open>if (found := ...) is not None\<close> block, appending its facts.\<close>

definition add_facts ::
  "(int \<times> string list) option \<Rightarrow> (int \<Rightarrow> string list \<Rightarrow> py_error + extracted_fact list)
     \<Rightarrow> extracted_fact list \<Rightarrow> py_error + extracted_fact list" where
  "add_facts found build facts =
     (case found of
        None \<Rightarrow> Inr facts
      | Some (page, groups) \<Rightarrow> bind_result (build page groups) (\<lambda>new. Inr (facts @ new)))"

definition one_fact :: "py_error + extracted_fact \<Rightarrow> py_error + extracted_fact list" where
  "one_fact f = bind_result f (\<lambda>x. Inr [x])"

definition two_facts :: "py_error + extracted_fact \<Rightarrow> py_error + extracted_fact \<Rightarrow> py_error + extracted_fact list" where
  "two_facts f g = bind_result f (\<lambda>x. bind_result g (\<lambda>y. Inr [x, y]))"

definition extract_income_proof_facts :: "page_text list \<Rightarrow> string \<Rightarrow> py_error + extracted_fact list" where
  "extract_income_proof_facts pages checksum =
     bind_result
       (add_facts (find_page pages EMPLOYER_NAME_RE) (\<lambda>page gs.
          let employer_name = str_strip (gs ! 0) in
          one_fact (regex_fact EMPLOYER_NAME employer_name employer_name page checksum)) []) (\<lambda>facts.
     bind_result
       (add_facts (find_page pages GROSS_PAY_RE) (\<lambda>page gs.
          let raw = gs ! 0 in
          one_fact (regex_fact GROSS_MONTHLY_INCOME raw (str_replace '','' [] raw) page checksum)) facts) (\<lambda>facts.
       add_facts (find_page pages TENURE_RE) (\<lambda>page gs.
          let months = gs ! 0 in
          one_fact (regex_fact TENURE_MONTHS months months page checksum)) facts))"

definition normalized_date :: "string \<Rightarrow> string" where
  "normalized_date raw = (case date_fromisoformat raw of Inr d \<Rightarrow> date_isoformat d | Inl _ \<Rightarrow> raw)"

definition extract_identity_facts :: "page_text list \<Rightarrow> string \<Rightarrow> py_error + extracted_fact list" where
  "extract_identity_facts pages checksum =
     bind_result
       (add_facts (find_page pages IDENTITY_NAME_RE) (\<lambda>page gs.
          let given_name = gs ! 0; family_name = gs ! 1 in
          two_facts (regex_fact APPLICANT_GIVEN_NAME given_name (str_lower given_name) page checksum)
            (regex_fact APPLICANT_FAMILY_NAME family_name (str_lower family_name) page checksum)) []) (\<lambda>facts.
     bind_result
       (add_facts (find_page pages DATE_OF_BIRTH_RE) (\<lambda>page gs.
          let raw = gs ! 0 in
          one_fact (regex_fact DATE_OF_BIRTH raw (normalized_date raw) page checksum)) facts) (\<lambda>facts.
     bind_result
       (add_facts (find_page pages ADDRESS_RE) (\<lambda>page gs.
          let street = str_strip (gs ! 0); city = str_strip (gs ! 1) in
          two_facts (regex_fact STREET_ADDRESS street street page checksum)
            (regex_fact CITY city city page checksum)) facts) (\<lambda>facts.
       add_facts (find_page pages SYNTHETIC_ID_RE) (\<lambda>page gs.
          let synthetic_id = gs ! 0 in
          one_fact (regex_fact SYNTHETIC_ID synthetic_id synthetic_id page checksum)) facts)))"

definition extract_facts ::
  "page_text list \<Rightarrow> document_classification \<Rightarrow> string \<Rightarrow> py_error + extracted_fact list" where
  "extract_facts pages classification checksum =
     (case classification of
        INCOME_PROOF \<Rightarrow> extract_income_proof_facts pages checksum
      | IDENTITY_DOCUMENT \<Rightarrow> extract_identity_facts pages checksum
      | UNKNOWN \<Rightarrow> Inr [])"

subsection \<open>Reading back a generated pay stub\<close>

text \<open>Text that survives a line of the document: not blank at its ends, on one line, no colon.\<close>

definition plain_line :: "string \<Rightarrow> bool" where
  "plain_line s \<longleftrightarrow> s \<noteq> [] \<and> \<not> is_space (hd s) \<and> \<not> is_space (last s) \<and> newline \<notin> set s \<and> CHR '':'' \<notin> set s"

definition plain_word :: "string \<Rightarrow> bool" where
  "plain_word s \<longleftrightarrow> s \<noteq> [] \<and> (\<forall>c \<in> set s. \<not> is_space c) \<and> CHR '':'' \<notin> set s"

lemma str_replace_nothing: "str_replace [c] [] s = filter (\<lambda>x. x \<noteq> c) s"
  by (induction s) (auto simp: starts_with_def)

lemma group_digits_spec:
  "filter (\<lambda>x. x \<noteq> CHR '','') (group_digits ds) = filter (\<lambda>x. x \<noteq> CHR '','') ds"
  "set (group_digits ds) \<subseteq> insert (CHR '','') (set ds)" "group_digits ds = [] \<longleftrightarrow> ds = []"
  by (induction ds rule: group_digits.induct) auto

lemma digit_facts:
  "is_digit c \<Longrightarrow> c \<noteq> CHR '',''" "is_digit c \<Longrightarrow> c \<noteq> CHR '':''" "is_digit c \<Longrightarrow> c \<noteq> CHR ''.''"
  "is_digit c \<Longrightarrow> \<not> is_space c"
  by (auto simp: is_digit_def is_space_def char_code_def Let_def)

lemma space_facts [simp]:
  "is_space CHR '' ''" "is_space newline" "\<not> is_space CHR ''$''" "\<not> is_space CHR ''-''"
  "\<not> is_digit CHR ''.''" "\<not> is_digit CHR '' ''" "\<not> is_digit newline" "\<not> is_digit CHR '',''"
  by (simp_all add: is_space_def char_code_def Let_def newline_def is_digit_def)

text \<open>The two-digit amounts: what the pattern captures, and the amount without its commas.\<close>

lemma show_grouped2_parts:
  assumes "0 \<le> x"
  obtains w f where "show_grouped2 x = w @ ''.'' @ f" "w \<noteq> []" "\<forall>c \<in> set w. in_class DigitOrComma c"
    "length f = 2" "\<forall>c \<in> set f. is_digit c" "show_fixed2 x = filter (\<lambda>c. c \<noteq> CHR '','') (w @ ''.'' @ f)"
proof
  let ?c = "nat (round_half_even (\<bar>x\<bar> * 100))"
  let ?w = "rev (group_digits (rev (show_nat (?c div 100))))" and ?f = "show_padded 2 (?c mod 100)"
  have dig: "\<forall>c \<in> set (show_nat n). is_digit c" for n by (rule show_nat_digits)
  have fdig: "\<forall>c \<in> set ?f. is_digit c" by (rule show_padded_digits)
  show "show_grouped2 x = ?w @ ''.'' @ ?f" using assms by (simp add: show_grouped2_def Let_def)
  show "?w \<noteq> []" using group_digits_spec(3) by simp
  show "\<forall>c \<in> set ?w. in_class DigitOrComma c"
    using group_digits_spec(2) [of "rev (show_nat (?c div 100))"] dig by auto
  show "length ?f = 2" by (rule length_show_padded) simp_all
  show "\<forall>c \<in> set ?f. is_digit c" by (rule fdig)
  have "filter (\<lambda>c. c \<noteq> CHR '','') ?f = ?f" using fdig digit_facts(1) by (auto simp: filter_id_conv)
  moreover have "filter (\<lambda>c. c \<noteq> CHR '','') ?w = show_nat (?c div 100)"
    using dig [of "?c div 100"] digit_facts(1)
    by (auto simp: group_digits_spec(1) rev_filter [symmetric] filter_id_conv)
  ultimately show "show_fixed2 x = filter (\<lambda>c. c \<noteq> CHR '','') (?w @ ''.'' @ ?f)"
    using assms by (simp add: show_fixed2_def Let_def)
qed

lemma strip_plain: "plain_line s \<Longrightarrow> str_strip s = s"
proof -
  assume p: "plain_line s"
  then have "dropWhile is_space s = s" by (cases s) (auto simp: plain_line_def)
  moreover have "dropWhile is_space (rev s) = rev s"
    using p by (cases s rule: rev_cases) (auto simp: plain_line_def)
  ultimately show ?thesis by (simp add: str_strip_def strip_by_def)
qed

text \<open>One step of a pattern over the text, for each shape the patterns use.\<close>

lemma match_spaces:
  assumes "match_pieces ps s None = Some gs" "n \<le> 1" "s = [] \<or> \<not> is_space (hd s)"
  shows "match_pieces (Some_of Space n # ps) (CHR '' '' # s) None = Some gs"
  using assms match_greedy [of "'' ''" Space s n ps None gs] by simp

lemma match_line_end:
  assumes "plain_line s"
  shows "match_pieces [Some_of Space 0, Open, Some_of NotNewline 1, Close] (CHR '' '' # s @ newline # rest) None = Some [s]"
proof -
  have "match_pieces [Some_of NotNewline 1, Close] (s @ newline # rest) (Some []) = Some [s]"
    using assms by (intro match_greedy) (auto simp: plain_line_def newline_def Suc_le_eq)
  moreover have "hd (s @ newline # rest) = hd s" using assms by (simp add: plain_line_def)
  ultimately show ?thesis using assms by (intro match_spaces) (auto simp: plain_line_def)
qed

lemma match_amount:
  assumes "w \<noteq> []" "\<forall>c \<in> set w. in_class DigitOrComma c" "length f = 2" "\<forall>c \<in> set f. is_digit c"
  shows "match_pieces [Some_of Space 0, Lit CHR ''$'', Open, Some_of DigitOrComma 1, Lit CHR ''.'', Times Digit 2, Close]
    ('' $'' @ w @ ''.'' @ f @ newline # rest) None = Some [w @ ''.'' @ f]"
proof -
  have run: "takeWhile is_digit (f @ newline # rest) = f" using assms(4) takeWhile_run [of f is_digit] by simp
  have "match_pieces [Some_of DigitOrComma 1, Lit CHR ''.'', Times Digit 2, Close]
      (w @ (''.'' @ f @ newline # rest)) (Some []) = Some [w @ ''.'' @ f]"
    using assms run by (intro match_greedy) (auto simp: Suc_le_eq)
  then have "match_pieces [Lit CHR ''$'', Open, Some_of DigitOrComma 1, Lit CHR ''.'', Times Digit 2, Close]
      (''$'' @ w @ ''.'' @ f @ newline # rest) None = Some [w @ ''.'' @ f]" by simp
  from match_spaces [OF this, of 0] show ?thesis by simp
qed

lemma match_number_then:
  assumes "d \<noteq> []" "\<forall>c \<in> set d. is_digit c"
  shows "match_pieces ([Some_of Space 0, Open, Some_of Digit 1, Close, Some_of Space 0] @ lits ''months'')
    ('' '' @ d @ '' months'' @ rest) None = Some [d]"
proof -
  have "match_pieces (lits ''months'') (''months'' @ rest) None = Some []"
    using match_lits [of "''months''" "[]" "''months'' @ rest"] by (simp add: starts_with_def)
  from match_spaces [OF this, of 0]
  have "match_pieces (Some_of Space 0 # lits ''months'') ('' months'' @ rest) None = Some []"
    by (simp add: is_space_def char_code_def)
  then have "match_pieces (Some_of Digit 1 # Close # Some_of Space 0 # lits ''months'') (d @ ('' months'' @ rest)) (Some []) = Some [d]"
    using assms by (intro match_greedy) (auto simp: Suc_le_eq)
  then have "match_pieces (Open # Some_of Digit 1 # Close # Some_of Space 0 # lits ''months'') (d @ ('' months'' @ rest)) None = Some [d]"
    by simp
  from match_spaces [OF this, of 0] show ?thesis
    using assms digit_facts(4) by (cases d) auto
qed

definition pay_stub_page :: "string \<Rightarrow> string \<Rightarrow> string \<Rightarrow> string \<Rightarrow> string \<Rightarrow> string" where
  "pay_stub_page employer given family gross tenure =
     (''SYNTHETIC PAY STUB -- '' @ employer @ newline # ''Employee'') @ CHR '':'' #
     ('' '' @ given @ '' '' @ family @ newline # ''Pay period'') @ CHR '':'' #
     '' Monthly    Gross pay'' @ CHR '':'' #
     ('' $'' @ gross @ newline # ''Tenure'') @ CHR '':'' #
     ('' '' @ tenure @ '' months'' @ newline #
        ''This is a synthetic document generated for demo/testing purposes only.'')"

lemma pay_stub_text:
  assumes "pay_stub_lines a e = Inr lines"
  obtains x where "int_truediv (se_income e) 12 = Inr x"
    "str_join [newline] lines = pay_stub_page (se_employer e) (sa_given_name a) (sa_family_name a)
       (show_grouped2 x) (show_int (se_tenure e))"
  using assms by (auto simp: pay_stub_lines_def bind_result_Inr_iff pay_stub_page_def)

lemmas ends_with_simps = ends_with_def starts_with_def

text \<open>What each pattern finds on such a page.\<close>

lemma pay_stub_searches:
  assumes "plain_line employer" "CHR '':'' \<notin> set given" "CHR '':'' \<notin> set family"
    "w \<noteq> []" "\<forall>c \<in> set w. in_class DigitOrComma c" "length f = 2" "\<forall>c \<in> set f. is_digit c"
    "d \<noteq> []" "\<forall>c \<in> set d. is_digit c"
  defines "page \<equiv> pay_stub_page employer given family (w @ ''.'' @ f) d"
  shows "search EMPLOYER_NAME_RE page = Some [employer]" "search GROSS_PAY_RE page = Some [w @ ''.'' @ f]"
    "search TENURE_RE page = Some [d]"
proof -
  have col: "CHR '':'' \<notin> set (w @ ''.'' @ f)"
    using assms(5,7) digit_facts(2) by auto
  obtain rest where page: "page = ''SYNTHETIC PAY STU'' @ CHR ''B'' # '' -- '' @ employer @ newline # rest"
    by (simp add: page_def pay_stub_page_def)
  let ?name = "[Some_of Space 0, Open, Some_of NotNewline 1, Close]"
  have "match_pieces (lits ''--'' @ ?name) (''-- '' @ employer @ newline # rest) None = Some [employer]"
    using match_line_end [OF assms(1), of rest] by (simp add: match_lits starts_with_def)
  from match_spaces [OF this, of 0]
  have "match_pieces (Some_of Space 0 # lits ''--'' @ ?name) ('' -- '' @ employer @ newline # rest) None = Some [employer]"
    by simp
  then have "search (lits (''SYNTHETIC PAY STU'' @ [CHR ''B'']) @ Some_of Space 0 # lits ''--'' @ ?name) page = Some [employer]"
    unfolding page by (subst search_segment) (simp_all add: ends_with_iff)
  then show "search EMPLOYER_NAME_RE page = Some [employer]" by (simp add: EMPLOYER_NAME_RE_def)
  have clean: "CHR '':'' \<notin> set employer" using assms(1) by (simp add: plain_line_def)
  note ends = ends_with_def starts_with_def newline_def
  have "search (lits (''Gross pay'' @ [CHR '':'']) @ [Some_of Space 0, Lit CHR ''$'', Open,
      Some_of DigitOrComma 1, Lit CHR ''.'', Times Digit 2, Close]) page = Some [w @ ''.'' @ f]"
    unfolding page_def pay_stub_page_def
    by (rule search_skip, rule search_skip, rule search_hit)
      (use clean assms(2,3) match_amount [OF assms(4-7)] in \<open>simp_all add: ends\<close>)
  then show "search GROSS_PAY_RE page = Some [w @ ''.'' @ f]" by (simp add: GROSS_PAY_RE_def)
  have "search (lits (''Tenure'' @ [CHR '':'']) @ ([Some_of Space 0, Open, Some_of Digit 1, Close, Some_of Space 0]
      @ lits ''months'')) page = Some [d]"
    unfolding page_def pay_stub_page_def
    by (rule search_skip, rule search_skip, rule search_skip, rule search_hit)
      (use clean assms(2,3) col match_number_then [OF assms(8,9)] in \<open>simp_all add: ends\<close>)
  then show "search TENURE_RE page = Some [d]" by (simp add: TENURE_RE_def)
qed

definition fact_triple :: "extracted_fact \<Rightarrow> fact_type \<times> string \<times> string" where
  "fact_triple f = (fact_type_of f, fact_value f, fact_normalized f)"

definition page_of_lines :: "int \<Rightarrow> string list \<Rightarrow> page_text" where
  "page_of_lines n lines = \<lparr>pt_page = n, pt_text = str_join [newline] lines\<rparr>"

lemma regex_fact_Inr:
  "1 \<le> page \<Longrightarrow> \<exists>f. regex_fact ft v n page ck = Inr f \<and> fact_triple f = (ft, v, n) \<and> fact_page f = page
     \<and> fact_checksum f = ck \<and> fact_confidence f = 1"
  by (simp add: regex_fact_def mk_ExtractedFact_def fact_triple_def)

lemma find_one_page:
  "search pattern (str_join [newline] lines) = Some gs \<Longrightarrow>
   find_page [page_of_lines n lines] pattern = Some (n, gs)"
  by (simp add: page_of_lines_def)

lemma pay_stub_facts:
  assumes "pay_stub_lines a e = Inr lines" "plain_line (se_employer e)"
    "CHR '':'' \<notin> set (sa_given_name a)" "CHR '':'' \<notin> set (sa_family_name a)"
    "0 \<le> se_income e" "0 \<le> se_tenure e" "1 \<le> n"
  shows "classify [page_of_lines n lines] = INCOME_PROOF \<and>
    (\<exists>x facts. int_truediv (se_income e) 12 = Inr x \<and>
       extract_facts [page_of_lines n lines] INCOME_PROOF checksum = Inr facts \<and>
       map fact_triple facts =
         [(EMPLOYER_NAME, se_employer e, se_employer e),
          (GROSS_MONTHLY_INCOME, show_grouped2 x, show_fixed2 x),
          (TENURE_MONTHS, show_int (se_tenure e), show_int (se_tenure e))] \<and>
       (\<forall>f \<in> set facts. fact_page f = n \<and> fact_checksum f = checksum \<and> fact_confidence f = 1))"
proof -
  obtain x where x: "int_truediv (se_income e) 12 = Inr x"
    and shape: "str_join [newline] lines = pay_stub_page (se_employer e) (sa_given_name a)
      (sa_family_name a) (show_grouped2 x) (show_int (se_tenure e))"
    using pay_stub_text [OF assms(1)] by blast
  have "0 \<le> x" using x fl_mono [of 0 "of_int (se_income e) / 12"] assms(5)
    by (auto simp: int_truediv_def split: if_splits)
  from show_grouped2_parts [OF this] obtain w f where amt: "show_grouped2 x = w @ ''.'' @ f" "w \<noteq> []"
    "\<forall>c \<in> set w. in_class DigitOrComma c" "length f = 2" "\<forall>c \<in> set f. is_digit c"
    "show_fixed2 x = filter (\<lambda>c. c \<noteq> CHR '','') (w @ ''.'' @ f)" by metis
  have ten: "show_int (se_tenure e) \<noteq> []" "\<forall>c \<in> set (show_int (se_tenure e)). is_digit c"
    using assms(6) show_nat_digits by (simp_all add: show_int_def)
  note found = pay_stub_searches [OF assms(2-4) amt(2-5) ten, folded amt(1), folded shape]
  have marker: "str_contains PAY_STUB_MARKER (str_join [newline] lines)"
    using str_contains_append [of PAY_STUB_MARKER "[]"]
    by (simp add: shape pay_stub_page_def PAY_STUB_MARKER_def starts_with_def)
  let ?is = "\<lambda>f t v m. regex_fact t v m n checksum = Inr f \<and> fact_triple f = (t, v, m) \<and>
    fact_page f = n \<and> fact_checksum f = checksum \<and> fact_confidence f = 1"
  obtain f1 where f1: "?is f1 EMPLOYER_NAME (se_employer e) (se_employer e)"
    using regex_fact_Inr [OF assms(7)] by blast
  obtain f2 where f2: "?is f2 GROSS_MONTHLY_INCOME (show_grouped2 x) (show_fixed2 x)"
    using regex_fact_Inr [OF assms(7)] by blast
  obtain f3 where f3: "?is f3 TENURE_MONTHS (show_int (se_tenure e)) (show_int (se_tenure e))"
    using regex_fact_Inr [OF assms(7)] by blast
  have "str_replace '','' [] (show_grouped2 x) = show_fixed2 x"
    by (simp add: amt(1,6) str_replace_nothing)
  then have "extract_facts [page_of_lines n lines] INCOME_PROOF checksum = Inr [f1, f2, f3]"
    by (simp add: extract_facts_def extract_income_proof_facts_def find_one_page [OF found(1)]
        find_one_page [OF found(2)] find_one_page [OF found(3)] add_facts_def one_fact_def
        strip_plain [OF assms(2)] f1 f2 f3 Let_def del: find_page.simps)
  with marker f1 f2 f3 x show ?thesis by (auto simp: classify_def page_of_lines_def)
qed

definition sample_applicant :: synthetic_applicant where
  "sample_applicant =
     \<lparr>sa_synthetic_id = ''900-12-3456'', sa_given_name = ''Ada'', sa_family_name = ''Lovelace'',
      sa_date_of_birth = Date 1980 5 17, sa_email = ''ada.lovelace.0@synthetic.test'',
      sa_street = ''12 Maple St'', sa_city = ''Fairview'', sa_employer = ''Initech Software'',
      sa_income = 60000\<rparr>"

definition sample_employment :: synthetic_employment where
  "sample_employment =
     \<lparr>se_applicant = ''900-12-3456'', se_employer = ''Initech Software'', se_confirmed = True,
      se_income = 60000, se_tenure = 24\<rparr>"

text \<open>C37: reading back a generated pay stub.  For an employer name that fits a line and names
  without colons, the page of a generated pay stub is classified as income proof, and extraction
  returns exactly three facts: the employer, the gross pay as printed with its value without
  thousands separators, and the tenure, all on that page with the document's checksum.\<close>

theorem extractor_reads_back_pay_stub:
  assumes "pay_stub_lines a e = Inr lines" "plain_line (se_employer e)"
    "CHR '':'' \<notin> set (sa_given_name a)" "CHR '':'' \<notin> set (sa_family_name a)"
    "0 \<le> se_income e" "0 \<le> se_tenure e" "1 \<le> n"
  shows "classify [page_of_lines n lines] = INCOME_PROOF \<and>
    (\<exists>x facts. int_truediv (se_income e) 12 = Inr x \<and>
       extract_facts [page_of_lines n lines] INCOME_PROOF checksum = Inr facts \<and>
       map fact_triple facts =
         [(EMPLOYER_NAME, se_employer e, se_employer e),
          (GROSS_MONTHLY_INCOME, show_grouped2 x, show_fixed2 x),
          (TENURE_MONTHS, show_int (se_tenure e), show_int (se_tenure e))] \<and>
       (\<forall>f \<in> set facts. fact_page f = n \<and> fact_checksum f = checksum \<and> fact_confidence f = 1))"
  using assms by (rule pay_stub_facts)

lemma sample_pay_stub: "\<exists>lines. pay_stub_lines sample_applicant sample_employment = Inr lines"
proof -
  have "\<not> fl_overflows (of_int 60000 / of_int 12)" by (rule fl_no_overflow) simp
  then show ?thesis by (simp add: pay_stub_lines_def int_truediv_def sample_employment_def)
qed

lemma sample_plain:
  "plain_line (se_employer sample_employment)"
  "CHR '':'' \<notin> set (sa_given_name sample_applicant)" "CHR '':'' \<notin> set (sa_family_name sample_applicant)"
  by (simp_all add: plain_line_def sample_employment_def sample_applicant_def is_space_def
      char_code_def newline_def Let_def)

theorem extractor_reads_back_pay_stub_witness:
  "\<exists>lines facts. pay_stub_lines sample_applicant sample_employment = Inr lines \<and>
     extract_facts [page_of_lines 1 lines] INCOME_PROOF ''ck'' = Inr facts \<and> length facts = 3"
proof -
  obtain lines where lines: "pay_stub_lines sample_applicant sample_employment = Inr lines"
    using sample_pay_stub by blast
  obtain facts where "extract_facts [page_of_lines 1 lines] INCOME_PROOF ''ck'' = Inr facts"
    "length (map fact_triple facts) = 3"
    using extractor_reads_back_pay_stub [OF lines sample_plain, of 1 "''ck''"]
    by (auto simp: sample_employment_def)
  with lines show ?thesis by auto
qed

subsection \<open>Reading back a generated identity document\<close>

lemma match_two_words:
  assumes "plain_word g" "plain_word f"
  shows "match_pieces [Some_of Space 0, Open, Some_of NonSpace 1, Close, Some_of Space 1, Open, Some_of NonSpace 1, Close]
    ('' '' @ g @ '' '' @ f @ newline # rest) None = Some [g, f]"
proof -
  have "match_pieces [Some_of NonSpace 1, Close] (f @ newline # rest) (Some []) = Some [f]"
    using assms(2) by (intro match_greedy) (auto simp: plain_word_def Suc_le_eq)
  then have "match_pieces (Some_of Space 1 # [Open, Some_of NonSpace 1, Close]) (CHR '' '' # f @ newline # rest) None = Some [f]"
    using assms(2) by (intro match_spaces) (auto simp: plain_word_def hd_append)
  then have "match_pieces [Some_of NonSpace 1, Close, Some_of Space 1, Open, Some_of NonSpace 1, Close]
      (g @ CHR '' '' # f @ newline # rest) (Some []) = Some [g, f]"
    using assms(1) by (intro match_greedy) (auto simp: plain_word_def Suc_le_eq)
  then have "match_pieces (Some_of Space 0 # [Open, Some_of NonSpace 1, Close, Some_of Space 1, Open, Some_of NonSpace 1, Close])
      (CHR '' '' # g @ CHR '' '' # f @ newline # rest) None = Some [g, f]"
    using assms(1) by (intro match_spaces) (auto simp: plain_word_def hd_append)
  then show ?thesis by simp
qed

lemma match_date:
  assumes "length y = 4" "length m = 2" "length d = 2" "\<forall>c \<in> set (y @ m @ d). is_digit c"
  shows "match_pieces [Some_of Space 0, Open, Times Digit 4, Lit CHR ''-'', Times Digit 2, Lit CHR ''-'', Times Digit 2, Close]
    ('' '' @ (y @ ''-'' @ m @ ''-'' @ d) @ newline # rest) None = Some [y @ ''-'' @ m @ ''-'' @ d]"
proof -
  have minus: "\<not> is_digit CHR ''-''" by (simp add: is_digit_def)
  have run: "takeWhile (in_class Digit) (y @ CHR ''-'' # s) = y" "takeWhile (in_class Digit) (m @ CHR ''-'' # s) = m"
    "takeWhile (in_class Digit) (d @ newline # s) = d" for s
    using assms(4) minus by (simp_all add: takeWhile_run)
  have "match_pieces [Open, Times Digit 4, Lit CHR ''-'', Times Digit 2, Lit CHR ''-'', Times Digit 2, Close]
      (y @ CHR ''-'' # m @ CHR ''-'' # d @ newline # rest) None = Some [y @ ''-'' @ m @ ''-'' @ d]"
    using assms(1-3) by (simp add: run)
  moreover have "y \<noteq> []" "\<not> is_space (hd y)" using assms(1,4) digit_facts(4) by (cases y; auto)+
  ultimately have "match_pieces (Some_of Space 0 # [Open, Times Digit 4, Lit CHR ''-'', Times Digit 2, Lit CHR ''-'', Times Digit 2, Close])
      (CHR '' '' # y @ CHR ''-'' # m @ CHR ''-'' # d @ newline # rest) None = Some [y @ ''-'' @ m @ ''-'' @ d]"
    by (intro match_spaces) auto
  then show ?thesis by simp
qed

lemma match_address:
  assumes "plain_line street" "plain_line city" "CHR '','' \<notin> set city"
  shows "match_pieces [Some_of Space 0, Open, Some_of NotNewline 1, Close, Lit CHR '','', Some_of Space 0,
      Open, Some_of NotNewline 1, Close]
    ('' '' @ street @ '', '' @ city @ newline # rest) None = Some [street, city]"
proof -
  let ?tail = "[Close, Lit CHR '','', Some_of Space 0, Open, Some_of NotNewline 1, Close]"
  have "match_pieces (Some_of NotNewline 1 # ?tail) (street @ CHR '','' # ('' '' @ city) @ newline # rest) (Some [])
      = Some [street, city]"
  proof (rule match_until_last)
    show "match_pieces ?tail (CHR '','' # ('' '' @ city) @ newline # rest) (push street (Some [])) = Some [street, city]"
      using match_line_end [OF assms(2), of rest] by simp
    show "match_pieces ?tail s g = None" if "s = [] \<or> hd s \<noteq> CHR '',''" for s g
      using that by (cases s; cases g) auto
  qed (use assms in \<open>auto simp: plain_line_def newline_def Suc_le_eq\<close>)
  then have "match_pieces (Some_of Space 0 # Open # Some_of NotNewline 1 # ?tail)
      (CHR '' '' # street @ CHR '','' # ('' '' @ city) @ newline # rest) None = Some [street, city]"
    using assms(1) by (intro match_spaces) (auto simp: plain_line_def hd_append)
  then show ?thesis by simp
qed

lemma match_id:
  assumes "sid \<noteq> []" "\<forall>c \<in> set sid. in_class WordOrDash c"
  shows "match_pieces [Some_of Space 0, Open, Some_of WordOrDash 1, Close] ('' '' @ sid @ newline # rest) None = Some [sid]"
proof -
  have "\<not> in_class WordOrDash newline" by (simp add: is_word_def newline_def char_code_def Let_def)
  then have "match_pieces [Some_of WordOrDash 1, Close] (sid @ newline # rest) (Some []) = Some [sid]"
    using assms by (intro match_greedy) (auto simp: Suc_le_eq)
  moreover have "\<not> is_space (hd (sid @ newline # rest))"
  proof -
    have "in_class WordOrDash (hd sid)" using assms by simp
    then have "\<not> is_space (hd sid)"
      by (auto simp: is_word_def is_space_def char_code_def Let_def)
    with assms(1) show ?thesis by simp
  qed
  ultimately have "match_pieces (Some_of Space 0 # [Open, Some_of WordOrDash 1, Close]) (CHR '' '' # sid @ newline # rest) None = Some [sid]"
    by (intro match_spaces) auto
  then show ?thesis by simp
qed

definition identity_page :: "string \<Rightarrow> string \<Rightarrow> string \<Rightarrow> string \<Rightarrow> string \<Rightarrow> string \<Rightarrow> string" where
  "identity_page given family born street city sid =
     (''SYNTHETIC GOVERNMENT-ISSUED ID (DEMO ONLY)'' @ newline # ''Name'') @ CHR '':'' #
     ('' '' @ given @ '' '' @ family @ newline # ''Date of birth'') @ CHR '':'' #
     ('' '' @ born @ newline # ''Address'') @ CHR '':'' #
     ('' '' @ street @ '', '' @ city @ newline # ''Synthetic ID'') @ CHR '':'' #
     ('' '' @ sid @ newline #
        ''This is a synthetic document generated for demo/testing purposes only.'')"

lemma identity_searches:
  assumes "plain_word given" "plain_word family" "plain_line street" "plain_line city" "CHR '','' \<notin> set city"
    "sid \<noteq> []" "\<forall>c \<in> set sid. in_class WordOrDash c"
    "born = y @ ''-'' @ m @ ''-'' @ d" "length y = 4" "length m = 2" "length d = 2" "\<forall>c \<in> set (y @ m @ d). is_digit c"
  defines "page \<equiv> identity_page given family born street city sid"
  shows "search IDENTITY_NAME_RE page = Some [given, family]" "search DATE_OF_BIRTH_RE page = Some [born]"
    "search ADDRESS_RE page = Some [street, city]" "search SYNTHETIC_ID_RE page = Some [sid]"
proof -
  have clean: "CHR '':'' \<notin> set given" "CHR '':'' \<notin> set family" "CHR '':'' \<notin> set street" "CHR '':'' \<notin> set city"
    "CHR '':'' \<notin> set born"
    using assms(1-4,8,12) digit_facts(2) by (auto simp: plain_word_def plain_line_def)
  note ends = ends_with_def starts_with_def newline_def
  have "search (lits (''Name'' @ [CHR '':'']) @ [Some_of Space 0, Open, Some_of NonSpace 1, Close, Some_of Space 1,
      Open, Some_of NonSpace 1, Close]) page = Some [given, family]"
    unfolding page_def identity_page_def
    by (rule search_hit) (use match_two_words [OF assms(1,2)] in \<open>simp_all add: ends\<close>)
  then show "search IDENTITY_NAME_RE page = Some [given, family]" by (simp add: IDENTITY_NAME_RE_def)
  have "search (lits (''Date of birth'' @ [CHR '':'']) @ [Some_of Space 0, Open, Times Digit 4, Lit CHR ''-'',
      Times Digit 2, Lit CHR ''-'', Times Digit 2, Close]) page = Some [born]"
    unfolding page_def identity_page_def
    by (rule search_skip, rule search_hit)
      (use clean match_date [OF assms(9-12), folded assms(8)] in \<open>simp_all add: ends\<close>)
  then show "search DATE_OF_BIRTH_RE page = Some [born]" by (simp add: DATE_OF_BIRTH_RE_def)
  have "search (lits (''Address'' @ [CHR '':'']) @ [Some_of Space 0, Open, Some_of NotNewline 1, Close,
      Lit CHR '','', Some_of Space 0, Open, Some_of NotNewline 1, Close]) page = Some [street, city]"
    unfolding page_def identity_page_def
    by (rule search_skip, rule search_skip, rule search_hit)
      (use clean match_address [OF assms(3-5)] in \<open>simp_all add: ends\<close>)
  then show "search ADDRESS_RE page = Some [street, city]" by (simp add: ADDRESS_RE_def)
  have "search (lits (''Synthetic ID'' @ [CHR '':'']) @ [Some_of Space 0, Open, Some_of WordOrDash 1, Close]) page = Some [sid]"
    unfolding page_def identity_page_def
    by (rule search_skip, rule search_skip, rule search_skip, rule search_hit)
      (use clean match_id [OF assms(6,7)] in \<open>simp_all add: ends\<close>)
  then show "search SYNTHETIC_ID_RE page = Some [sid]" by (simp add: SYNTHETIC_ID_RE_def)
qed

lemma date_digits:
  assumes "valid_date b"
  obtains y m d where "date_isoformat b = y @ ''-'' @ m @ ''-'' @ d" "length y = 4" "length m = 2" "length d = 2"
    "\<forall>c \<in> set (y @ m @ d). is_digit c"
proof -
  obtain y m d where b: "b = Date y m d" by (cases b)
  have "days_in_month y m \<le> 31" by (simp add: days_in_month_def split: if_splits)
  then have "y < 10 ^ 4" "m < 10 ^ 2" "d < 10 ^ 2" using assms b by auto
  then have "length (show_padded 4 y) = 4" "length (show_padded 2 m) = 2" "length (show_padded 2 d) = 2"
    by (simp_all add: length_show_padded)
  moreover have "\<forall>c \<in> set (show_padded 4 y @ show_padded 2 m @ show_padded 2 d). is_digit c"
    using show_padded_digits by auto
  ultimately show thesis using that [of "show_padded 4 y" "show_padded 2 m" "show_padded 2 d"] b by simp
qed

text \<open>Reading back a generated identity document.  For names that are words, an address that
  fits its line and an identifier of word characters, the page of a generated identity document is
  classified as one, unless its text happens to contain the pay-stub marker, and extraction
  returns exactly the six facts, the names normalised to lower case.\<close>

theorem extractor_reads_back_identity_document:
  assumes "plain_word (sa_given_name a)" "plain_word (sa_family_name a)" "valid_date (sa_date_of_birth a)"
    "plain_line (sa_street a)" "plain_line (sa_city a)" "CHR '','' \<notin> set (sa_city a)"
    "sa_synthetic_id a \<noteq> []" "\<forall>c \<in> set (sa_synthetic_id a). in_class WordOrDash c" "1 \<le> n"
  defines "page \<equiv> page_of_lines n (identity_document_lines a)"
  assumes "\<not> str_contains PAY_STUB_MARKER (pt_text page)"
  shows "classify [page] = IDENTITY_DOCUMENT \<and>
    (\<exists>facts. extract_facts [page] IDENTITY_DOCUMENT checksum = Inr facts \<and>
       map fact_triple facts =
         [(APPLICANT_GIVEN_NAME, sa_given_name a, str_lower (sa_given_name a)),
          (APPLICANT_FAMILY_NAME, sa_family_name a, str_lower (sa_family_name a)),
          (DATE_OF_BIRTH, date_isoformat (sa_date_of_birth a), date_isoformat (sa_date_of_birth a)),
          (STREET_ADDRESS, sa_street a, sa_street a), (CITY, sa_city a, sa_city a),
          (SYNTHETIC_ID, sa_synthetic_id a, sa_synthetic_id a)])"
proof -
  let ?born = "date_isoformat (sa_date_of_birth a)"
  have shape: "str_join [newline] (identity_document_lines a) =
      identity_page (sa_given_name a) (sa_family_name a) ?born (sa_street a) (sa_city a) (sa_synthetic_id a)"
    by (simp add: identity_document_lines_def identity_page_def del: date_isoformat.simps)
  obtain y m d where "?born = y @ ''-'' @ m @ ''-'' @ d" "length y = 4" "length m = 2" "length d = 2"
    "\<forall>c \<in> set (y @ m @ d). is_digit c" using date_digits [OF assms(3)] by metis
  note found = identity_searches [OF assms(1,2,4-8) this, folded shape]
  have "normalized_date ?born = ?born"
    by (simp add: normalized_date_def date_iso_roundtrip [OF assms(3)] del: date_isoformat.simps)
  moreover let ?is = "\<lambda>f t v m. regex_fact t v m n checksum = Inr f \<and> fact_triple f = (t, v, m)"
  obtain f1 where "?is f1 APPLICANT_GIVEN_NAME (sa_given_name a) (str_lower (sa_given_name a))"
    using regex_fact_Inr [OF assms(9)] by blast
  moreover obtain f2 where "?is f2 APPLICANT_FAMILY_NAME (sa_family_name a) (str_lower (sa_family_name a))"
    using regex_fact_Inr [OF assms(9)] by blast
  moreover obtain f3 where "?is f3 DATE_OF_BIRTH ?born ?born" using regex_fact_Inr [OF assms(9)] by blast
  moreover obtain f4 where "?is f4 STREET_ADDRESS (sa_street a) (sa_street a)"
    using regex_fact_Inr [OF assms(9)] by blast
  moreover obtain f5 where "?is f5 CITY (sa_city a) (sa_city a)" using regex_fact_Inr [OF assms(9)] by blast
  moreover obtain f6 where "?is f6 SYNTHETIC_ID (sa_synthetic_id a) (sa_synthetic_id a)"
    using regex_fact_Inr [OF assms(9)] by blast
  ultimately have "extract_facts [page] IDENTITY_DOCUMENT checksum = Inr [f1, f2, f3, f4, f5, f6] \<and>
      map fact_triple [f1, f2, f3, f4, f5, f6] =
         [(APPLICANT_GIVEN_NAME, sa_given_name a, str_lower (sa_given_name a)),
          (APPLICANT_FAMILY_NAME, sa_family_name a, str_lower (sa_family_name a)),
          (DATE_OF_BIRTH, ?born, ?born), (STREET_ADDRESS, sa_street a, sa_street a),
          (CITY, sa_city a, sa_city a), (SYNTHETIC_ID, sa_synthetic_id a, sa_synthetic_id a)]"
    by (simp add: page_def extract_facts_def extract_identity_facts_def find_one_page [OF found(1)]
        find_one_page [OF found(2)] find_one_page [OF found(3)] find_one_page [OF found(4)]
        add_facts_def one_fact_def two_facts_def strip_plain assms(4,5) Let_def
        del: find_page.simps date_isoformat.simps)
  moreover have "str_contains IDENTITY_DOCUMENT_MARKER (pt_text page)"
    using str_contains_append [of IDENTITY_DOCUMENT_MARKER "''SYNTHETIC ''"]
    by (simp add: page_def page_of_lines_def shape identity_page_def IDENTITY_DOCUMENT_MARKER_def starts_with_def)
  ultimately show ?thesis using assms(11) by (auto simp: classify_def page_def page_of_lines_def)
qed

theorem extractor_reads_back_identity_document_witness:
  "\<exists>facts. extract_facts [page_of_lines 1 (identity_document_lines sample_applicant)] IDENTITY_DOCUMENT ''ck''
     = Inr facts \<and> length facts = 6"
proof -
  have ok: "plain_word (sa_given_name sample_applicant)" "plain_word (sa_family_name sample_applicant)"
    "valid_date (sa_date_of_birth sample_applicant)"
    "plain_line (sa_street sample_applicant)" "plain_line (sa_city sample_applicant)"
    "CHR '','' \<notin> set (sa_city sample_applicant)" "sa_synthetic_id sample_applicant \<noteq> []"
    "\<forall>c \<in> set (sa_synthetic_id sample_applicant). in_class WordOrDash c"
    by (simp_all add: plain_word_def plain_line_def sample_applicant_def is_space_def is_word_def
        char_code_def newline_def Let_def days_in_month_def)
  have "\<not> str_contains PAY_STUB_MARKER
      (pt_text (page_of_lines 1 (identity_document_lines sample_applicant)))"
    by code_simp
  then obtain facts where "extract_facts [page_of_lines 1 (identity_document_lines sample_applicant)]
      IDENTITY_DOCUMENT ''ck'' = Inr facts" "length (map fact_triple facts) = 6"
    using extractor_reads_back_identity_document [OF ok, of 1 "''ck''"] by auto
  then show ?thesis by auto
qed

end
