(* ===== verification/Document_Commands.thy ===== *)
theory Document_Commands
  imports Initial_State Recording Object_Store File_Safety Extractor
begin

text \<open>
  \<open>application/commands/upload_document.py\<close> and \<open>process_document.py\<close>: the safety scan before
  anything is stored, the object and its metadata row, and one extraction run per document, with
  unreadable or unrecognised documents recorded as such.
\<close>

record upload_command = case_command +
  c_document_type :: string
  c_filename :: string
  c_content_type :: string
  c_data :: string

record upload_result =
  up_document :: string
  up_application :: string
  up_object_key :: string
  up_checksum :: string

record process_command = case_command +
  c_document :: string

record process_result =
  pd_document :: string
  pd_classification :: document_classification
  pd_fact_count :: nat
  pd_extraction_error :: "string option"

text \<open>What the handlers are configured with: the S3 client, the PDF reader, the upload limits and
  the extractor behind the \<open>DocumentExtractor\<close> port.\<close>

record 'x document_ports =
  dp_s3 :: "'x s3_client"
  dp_reader :: pdf_reader
  dp_max_size :: nat
  dp_max_pages :: nat
  dp_classify :: "page_text list \<Rightarrow> document_classification"
  dp_extract :: "page_text list \<Rightarrow> document_classification \<Rightarrow> string \<Rightarrow> py_error + extracted_fact list"

definition object_key_of :: "string \<Rightarrow> string \<Rightarrow> string \<Rightarrow> string" where
  "object_key_of application_id document_id filename =
     ''applications/'' @ application_id @ ''/'' @ document_id @ ''/'' @ filename"

subsection \<open>Upload\<close>

text \<open>Everything up to the write to the object store.\<close>

definition upload_checks ::
  "env \<Rightarrow> 'x document_ports \<Rightarrow> upload_command \<Rightarrow> ('x, safety_report) handler" where
  "upload_checks env ports c =
     bnd (reserve_or_raise env (c_tenant c) (c_key c) ''upload_document'') (\<lambda>_.
     bnd (load_application (c_tenant c) (c_application c)) (\<lambda>_.
       lift_result (scan (dp_reader ports) (dp_max_size ports) (dp_max_pages ports)
         (c_data c) (c_filename c) (c_content_type c))))"

definition upload_store ::
  "env \<Rightarrow> 'x document_ports \<Rightarrow> upload_command \<Rightarrow> safety_report \<Rightarrow> ('x, upload_result) handler" where
  "upload_store env ports c report =
     bnd (generate_id env) (\<lambda>document_id.
     let object_key = object_key_of (c_application c) document_id (c_filename c) in
     bnd (external (put_object (e_sha256 env) (dp_s3 ports) (c_tenant c) object_key (c_data c)
            (sr_content_type report))) (\<lambda>metadata.
     bnd (clock_now env) (\<lambda>now.
     bnd (document_add
            \<lparr>doc_id = document_id, doc_tenant = c_tenant c, doc_application = c_application c,
             doc_type = c_document_type c, doc_object_key = object_key,
             doc_checksum = om_checksum metadata, doc_size = om_size_bytes metadata,
             doc_uploaded_at = now\<rparr>) (\<lambda>_.
     bnd (record_domain_events env
            [DocumentUploaded (c_application c) (c_tenant c) now document_id (c_document_type c) object_key])
       (\<lambda>_. ret
         \<lparr>up_document = document_id, up_application = c_application c, up_object_key = object_key,
          up_checksum = om_checksum metadata\<rparr>)))))"

definition upload_body ::
  "env \<Rightarrow> 'x document_ports \<Rightarrow> upload_command \<Rightarrow> ('x, upload_result) handler" where
  "upload_body env ports c = bnd (upload_checks env ports c) (upload_store env ports c)"

definition upload_document ::
  "env \<Rightarrow> 'x document_ports \<Rightarrow> upload_command \<Rightarrow> ('x, upload_result) handler" where
  "upload_document env ports c = transaction (c_tenant c) (upload_body env ports c)"

subsection \<open>Process\<close>

text \<open>\<open>except (UnsupportedDocumentTypeError, ExtractionFailedError)\<close>: the rest propagates.\<close>

definition is_extraction_failure :: "py_error \<Rightarrow> bool" where
  "is_extraction_failure e =
     (case e of UnsupportedDocumentTypeError _ \<Rightarrow> True | ExtractionFailedError _ _ \<Rightarrow> True | _ \<Rightarrow> False)"

definition attempt :: "('x, 'a) handler \<Rightarrow> ('x, string + 'a) handler" where
  "attempt m = try_except (bnd m (\<lambda>x. ret (Inr x)))
     (\<lambda>e. if is_extraction_failure e then ret (Inl (error_str e)) else raise e)"

text \<open>
  The \<open>try\<close> block: \<open>(classification, facts, extraction_error)\<close>.  The classification is assigned
  before the facts are extracted, so it survives a failure of the extraction.
\<close>

definition read_document ::
  "'x document_ports \<Rightarrow> string \<Rightarrow> string \<Rightarrow> string \<Rightarrow> string
     \<Rightarrow> ('x, document_classification \<times> extracted_fact list \<times> string option) handler" where
  "read_document ports tenant_id object_key content_type checksum =
     bnd (attempt
           (bnd (external (get_object (dp_s3 ports) tenant_id object_key)) (\<lambda>data.
              lift_result (extract_text (dp_reader ports) data content_type)))) (\<lambda>pages.
       case pages of
         Inl err \<Rightarrow> ret (UNKNOWN, [], Some err)
       | Inr ps \<Rightarrow>
           let classification = dp_classify ports ps in
           bnd (attempt (lift_result (dp_extract ports ps classification checksum))) (\<lambda>facts.
             case facts of
               Inl err \<Rightarrow> ret (classification, [], Some err)
             | Inr fs \<Rightarrow> ret (classification, fs, None)))"

definition process_body ::
  "env \<Rightarrow> 'x document_ports \<Rightarrow> process_command \<Rightarrow> ('x, process_result) handler" where
  "process_body env ports c =
     bnd (reserve_or_raise env (c_tenant c) (c_key c) ''process_document'') (\<lambda>_.
     bnd (list_documents env (c_tenant c) (c_application c)) (\<lambda>documents.
     bnd (from_some (DocumentNotFoundError (c_document c))
            (find (\<lambda>d. doc_id d = c_document c) documents)) (\<lambda>document.
     bnd (external (get_object_metadata (dp_s3 ports) (c_tenant c) (doc_object_key document))) (\<lambda>metadata.
     bnd (read_document ports (c_tenant c) (doc_object_key document) (om_content_type metadata)
            (doc_checksum document)) (\<lambda>(classification, facts, extraction_error).
     bnd (map_each (\<lambda>_. generate_id env) facts) (\<lambda>fact_ids.
     bnd (generate_id env) (\<lambda>run_id.
     bnd (clock_now env) (\<lambda>now.
     bnd (add_extraction_run run_id (c_tenant c) (c_application c) (c_document c) classification
            facts fact_ids now) (\<lambda>_. ret
       \<lparr>pd_document = c_document c, pd_classification = classification,
        pd_fact_count = length facts, pd_extraction_error = extraction_error\<rparr>)))))))))"

definition process_document ::
  "env \<Rightarrow> 'x document_ports \<Rightarrow> process_command \<Rightarrow> ('x, process_result) handler" where
  "process_document env ports c = transaction (c_tenant c) (process_body env ports c)"

subsection \<open>Frames and invariants\<close>

lemma quiet_case_sum [quiet_intros]:
  "(\<And>e. quiet (f e)) \<Longrightarrow> (\<And>x. quiet (g x)) \<Longrightarrow> quiet (case r of Inl e \<Rightarrow> f e | Inr x \<Rightarrow> g x)"
  by (cases r) auto

lemma leaves_case_sum [leaves_intros]:
  "(\<And>e. leaves p (f e)) \<Longrightarrow> (\<And>x. leaves p (g x)) \<Longrightarrow> leaves p (case r of Inl e \<Rightarrow> f e | Inr x \<Rightarrow> g x)"
  by (cases r) auto

lemma confined_case_sum [confined_intros]:
  "(\<And>e. confined (f e)) \<Longrightarrow> (\<And>x. confined (g x)) \<Longrightarrow> confined (case r of Inl e \<Rightarrow> f e | Inr x \<Rightarrow> g x)"
  by (cases r) auto

lemma read_document_frames:
  "quiet (read_document ports t key ct ck)" "leaves p (read_document ports t key ct ck)"
  "confined (read_document ports t key ct ck)"
  unfolding read_document_def attempt_def Let_def
  by (intro quiet_intros, intro leaves_intros, intro confined_intros)

declare read_document_frames(1) [quiet_intros] read_document_frames(2) [leaves_intros]
  read_document_frames(3) [confined_intros]

lemma quiet_document_bodies [quiet_intros]:
  "quiet (upload_body env ports uc)" "quiet (process_body env ports pc)"
  unfolding upload_body_def upload_checks_def upload_store_def process_body_def Let_def
  by (intro quiet_intros)+

lemma confined_document_bodies [confined_intros]:
  "confined (upload_body env ports uc)" "confined (process_body env ports pc)"
  unfolding upload_body_def upload_checks_def upload_store_def process_body_def Let_def
  by (intro confined_intros)+

lemma case_document_bodies:
  "leaves case_part (upload_body env ports uc)" "leaves case_part (process_body env ports pc)"
  unfolding upload_body_def upload_checks_def upload_store_def process_body_def Let_def
  by (intro leaves_intros)+

lemma keeps_document_bodies [keeps_intros]:
  "keeps case_inv (upload_body env ports uc)" "keeps case_inv (process_body env ports pc)"
  "keeps (ledger_ok (e_sha256 env)) (process_body env ports pc)"
  "keeps (ledger_ok (e_sha256 env)) (upload_body env ports uc)"
proof -
  show "keeps case_inv (upload_body env ports uc)" "keeps case_inv (process_body env ports pc)"
    by (intro keeps_case_leaves case_document_bodies)+
  have "leaves ledger_part (process_body env ports pc)"
    unfolding process_body_def by (intro leaves_intros)
  then show "keeps (ledger_ok (e_sha256 env)) (process_body env ports pc)" by (rule keeps_ledger_leaves)
  show "keeps (ledger_ok (e_sha256 env)) (upload_body env ports uc)"
    unfolding upload_body_def upload_checks_def upload_store_def Let_def by (intro keeps_intros)
qed

subsection \<open>Upload: nothing unsafe is stored\<close>

lemma silent_upload_checks: "silent (upload_checks env ports c)"
  unfolding upload_checks_def by (intro silent_intros)

lemma upload_checks_scan:
  "upload_checks env ports c w = (Inr report, w') \<Longrightarrow>
   scan (dp_reader ports) (dp_max_size ports) (dp_max_pages ports) (c_data c) (c_filename c)
     (c_content_type c) = Inr report"
  unfolding upload_checks_def by (auto elim!: bnd_InrE)

text \<open>C32: a file that fails the safety scan leaves no trace.  Whatever else happens, the upload
  raises, the database is what it was (the idempotency key included, so the request can be retried)
  and the object store was never called.\<close>

theorem unsafe_upload_leaves_no_trace:
  assumes "scan (dp_reader ports) (dp_max_size ports) (dp_max_pages ports) (c_data c) (c_filename c)
      (c_content_type c) = Inl e"
    and "upload_document env ports c w = (r, w')"
  shows "(\<exists>e'. r = Inl e') \<and> w_db w' = w_db w \<and> w_ext w' = w_ext w"
proof -
  obtain e' w1 where run: "upload_checks env ports c (aenter (c_tenant c) w) = (Inl e', w1)"
    using upload_checks_scan [of env ports c "aenter (c_tenant c) w"] assms(1)
    by (cases "upload_checks env ports c (aenter (c_tenant c) w)"; cases "fst (upload_checks env ports c (aenter (c_tenant c) w))")
      auto
  then have "r = Inl e'" "w' = aexit w1"
    using assms(2) by (simp_all add: upload_document_def upload_body_def transaction_def with_uow_def)
  moreover have "w_ext w1 = w_ext w" using staysD [OF silent_upload_checks run] by simp
  moreover have "w_db w' = w_db w"
    using transaction_error [OF quiet_document_bodies(1)] assms(2) \<open>r = Inl e'\<close>
    unfolding upload_document_def by blast
  ultimately show ?thesis by (simp add: aexit_def Let_def)
qed

subsection \<open>Upload: what a success stored\<close>

lemma put_object_success:
  assumes "put_object sha s3 t key data ct x = (Inr m, x')"
  shows "om_checksum m = sha data" "om_size_bytes m = length data" "scoped_key t key = Inr (t @ ''/'' @ key)"
    "\<exists>v. s3_put_object s3 (t @ ''/'' @ key) data ct [(CHECKSUM_METADATA_KEY, sha data)] x = (Inr v, x')"
  using assms by (auto simp: put_object_def Let_def scoped_key_def elim!: bnd_InrE split: if_splits)

lemma document_add_effect:
  "document_add d w = (Inr u, w') \<Longrightarrow> 0 < doc_size d \<and>
   w' = w\<lparr>w_sess := (w_sess w)\<lparr>db_documents := db_documents (w_sess w) @
     [\<lparr>dr_id = doc_id d, dr_tenant = doc_tenant d, dr_application = doc_application d,
       dr_type = doc_type d, dr_object_key = doc_object_key d, dr_checksum = doc_checksum d,
       dr_size = doc_size d, dr_uploaded_at = doc_uploaded_at d\<rparr>]\<rparr>\<rparr>"
  unfolding document_add_def
  by (auto elim!: execute_InrE simp: insert_document_def bind_result_Inr_iff guard_row_Inr_iff)

lemma leaves_upload_checks:
  assumes "\<And>d ks. p (d\<lparr>db_idempotency_keys := ks\<rparr>) = p d"
  shows "leaves p (upload_checks env ports c)"
  unfolding upload_checks_def by (intro leaves_intros leaves_reserve assms)

text \<open>C31: what a successful upload did.  The file passed the scan; the object store was asked once to
  put exactly these bytes under the tenant's prefix with the detected type and their SHA-256; one
  document row with that key, checksum and size was committed; and one unpublished
  \<open>DocumentUploaded\<close> row, for that document, went into the outbox with it.\<close>

theorem upload_document_effect:
  assumes "upload_document env ports c w = (Inr res, w')"
  shows "\<exists>report now row ob v.
    scan (dp_reader ports) (dp_max_size ports) (dp_max_pages ports) (c_data c) (c_filename c)
      (c_content_type c) = Inr report \<and>
    up_object_key res = object_key_of (c_application c) (up_document res) (c_filename c) \<and>
    s3_put_object (dp_s3 ports) (c_tenant c @ ''/'' @ up_object_key res) (c_data c)
      (sr_content_type report) [(CHECKSUM_METADATA_KEY, e_sha256 env (c_data c))] (w_ext w) = (Inr v, w_ext w') \<and>
    db_documents (w_db w') = db_documents (w_db w) @ [row] \<and>
    row = \<lparr>dr_id = up_document res, dr_tenant = c_tenant c, dr_application = c_application c,
      dr_type = c_document_type c, dr_object_key = up_object_key res,
      dr_checksum = e_sha256 env (c_data c), dr_size = length (c_data c), dr_uploaded_at = now\<rparr> \<and>
    db_outbox (w_db w') = db_outbox (w_db w) @ [ob] \<and> ob_published_at ob = None \<and>
    published ob = event_image (DocumentUploaded (c_application c) (c_tenant c) now (up_document res)
      (c_document_type c) (up_object_key res))"
proof -
  from assms obtain w1 where body: "upload_body env ports c (aenter (c_tenant c) w) = (Inr res, w1)"
    "w_db w' = w_sess w1" "w_ext w' = w_ext w1"
    unfolding upload_document_def by (rule transaction_success)
  from body(1) obtain report wa where checks: "upload_checks env ports c (aenter (c_tenant c) w) = (Inr report, wa)"
    and store: "upload_store env ports c report wa = (Inr res, w1)"
    unfolding upload_body_def by (rule bnd_InrE)
  define i where "i = e_uuid env (w_ids wa)"
  define key where "key = object_key_of (c_application c) i (c_filename c)"
  from store obtain m x now wc wd where
    put: "put_object (e_sha256 env) (dp_s3 ports) (c_tenant c) key (c_data c) (sr_content_type report) (w_ext wa) = (Inr m, x)"
    and add: "document_add \<lparr>doc_id = i, doc_tenant = c_tenant c, doc_application = c_application c,
        doc_type = c_document_type c, doc_object_key = key, doc_checksum = om_checksum m,
        doc_size = om_size_bytes m, doc_uploaded_at = now\<rparr> wc = (Inr (), wd)"
    and wc: "w_sess wc = w_sess wa" "w_ext wc = x"
    and rec: "record_domain_events env [DocumentUploaded (c_application c) (c_tenant c) now i (c_document_type c) key] wd = (Inr (), w1)"
    and res: "res = \<lparr>up_document = i, up_application = c_application c, up_object_key = key, up_checksum = om_checksum m\<rparr>"
    unfolding upload_store_def Let_def
    by (auto elim!: bnd_InrE simp: i_def [symmetric] key_def [symmetric] external_def split: prod.splits)
  have same: "db_documents (w_sess wa) = db_documents (w_db w)" "db_outbox (w_sess wa) = db_outbox (w_db w)"
    "w_ext wa = w_ext w"
    using leavesD [OF leaves_upload_checks [of db_documents] checks] leavesD [OF leaves_upload_checks [of db_outbox] checks]
      staysD [OF silent_upload_checks checks] by simp_all
  note added = document_add_effect [OF add, simplified]
  obtain ob where out: "db_outbox (w_sess w1) = db_outbox (w_sess wd) @ [ob]" "ob_published_at ob = None"
    "published ob = event_image (DocumentUploaded (c_application c) (c_tenant c) now i (c_document_type c) key)"
    using record_outbox [OF rec] by (auto simp: map_eq_Cons_conv)
  have "db_documents (w_sess w1) = db_documents (w_sess wd)"
    using leavesD [OF leaves_record [of db_documents] rec] by simp
  moreover have "w_ext w1 = w_ext wd" using staysD [OF silent_record rec] by simp
  ultimately show ?thesis
    using upload_checks_scan [OF checks] added same wc out put_object_success [OF put] body(2,3) res
    by (intro exI [of _ report] exI [of _ now]) (auto simp: key_def)
qed

subsection \<open>The extractor as an interface\<close>

text \<open>What the command relies on of the \<open>DocumentExtractor\<close> port: an unknown document yields no
  facts, every fact is well formed and carries the checksum of its document, and extraction has no
  failure of the kind the command would record as an unreadable document.\<close>

locale document_extractor =
  fixes cls :: "page_text list \<Rightarrow> document_classification"
    and ext :: "page_text list \<Rightarrow> document_classification \<Rightarrow> string \<Rightarrow> py_error + extracted_fact list"
  assumes unknown_yields_nothing: "ext pages UNKNOWN checksum = Inr []"
    and carries_checksum: "ext pages cl checksum = Inr fs \<Longrightarrow> f \<in> set fs \<Longrightarrow> fact_checksum f = checksum"
    and well_formed: "ext pages cl checksum = Inr fs \<Longrightarrow> f \<in> set fs \<Longrightarrow> mk_ExtractedFact f = Inr f"
    and no_extraction_failure: "ext pages cl checksum = Inl e \<Longrightarrow> \<not> is_extraction_failure e"
begin

lemma read_document_outcome:
  assumes "dp_classify ports = cls" "dp_extract ports = ext"
    "read_document ports t key ct checksum w = (Inr (cl, fs, err), w')"
  shows "err \<noteq> None \<longrightarrow> cl = UNKNOWN" "cl = UNKNOWN \<longrightarrow> fs = []"
    "f \<in> set fs \<Longrightarrow> fact_checksum f = checksum \<and> mk_ExtractedFact f = Inr f"
proof -
  from assms(3) obtain pages w1 where "attempt (bnd (external (get_object (dp_s3 ports) t key)) (\<lambda>data.
        lift_result (extract_text (dp_reader ports) data ct))) w = (Inr pages, w1)"
    and rest: "(case pages of Inl err \<Rightarrow> ret (UNKNOWN, [], Some err)
       | Inr ps \<Rightarrow> bnd (attempt (lift_result (ext ps (cls ps) checksum))) (\<lambda>facts.
             case facts of Inl err \<Rightarrow> ret (cls ps, [], Some err)
             | Inr fs \<Rightarrow> ret (cls ps, fs, None))) w1 = (Inr (cl, fs, err), w')"
    unfolding read_document_def assms(1,2) Let_def by (rule bnd_InrE)
  have "(\<exists>e. cl = UNKNOWN \<and> fs = [] \<and> err = Some e) \<or> (\<exists>ps. err = None \<and> cl = cls ps \<and> ext ps cl checksum = Inr fs)"
  proof (cases pages)
    case (Inl e)
    with rest show ?thesis by auto
  next
    case (Inr ps)
    with rest no_extraction_failure [of ps "cls ps" checksum] show ?thesis
      by (cases "ext ps (cls ps) checksum") (auto simp: attempt_def try_except_def bnd_def)
  qed
  then show "err \<noteq> None \<longrightarrow> cl = UNKNOWN" "cl = UNKNOWN \<longrightarrow> fs = []"
    "f \<in> set fs \<Longrightarrow> fact_checksum f = checksum \<and> mk_ExtractedFact f = Inr f"
    using unknown_yields_nothing carries_checksum well_formed by fastforce+
qed

end

lemma regex_fact_shape:
  "regex_fact t v n page ck = Inr f \<Longrightarrow> fact_checksum f = ck \<and> mk_ExtractedFact f = Inr f"
  "regex_fact t v n page ck = Inl e \<Longrightarrow> \<not> is_extraction_failure e"
  by (auto simp: regex_fact_def mk_ExtractedFact_def is_extraction_failure_def split: if_splits)

definition facts_from :: "string \<Rightarrow> py_error + extracted_fact list \<Rightarrow> bool" where
  "facts_from ck r = (case r of Inl e \<Rightarrow> \<not> is_extraction_failure e
     | Inr fs \<Rightarrow> \<forall>f \<in> set fs. fact_checksum f = ck \<and> mk_ExtractedFact f = Inr f)"

lemma facts_from_steps:
  "facts_from ck (one_fact (regex_fact t v n page ck))"
  "facts_from ck (two_facts (regex_fact t v n page ck) (regex_fact t' v' n' page ck))"
  "facts_from ck (Inr [])"
  by (auto simp: facts_from_def one_fact_def two_facts_def bind_result_def
      dest: regex_fact_shape split: sum.splits)

lemma facts_from_add:
  "(\<And>page gs. facts_from ck (build page gs)) \<Longrightarrow> facts_from ck (Inr facts) \<Longrightarrow> facts_from ck (add_facts found build facts)"
proof -
  assume new: "\<And>page gs. facts_from ck (build page gs)" and old: "facts_from ck (Inr facts)"
  show "facts_from ck (add_facts found build facts)"
  proof (cases found)
    case None
    with old show ?thesis by (simp add: add_facts_def)
  next
    case (Some hit)
    then obtain page gs where "found = Some (page, gs)" by (cases hit) simp
    with new [of page gs] old show ?thesis
      by (cases "build page gs") (auto simp: add_facts_def facts_from_def)
  qed
qed

lemma facts_from_bind:
  "facts_from ck r \<Longrightarrow> (\<And>fs. facts_from ck (Inr fs) \<Longrightarrow> facts_from ck (g fs)) \<Longrightarrow> facts_from ck (bind_result r g)"
  by (cases r) (auto simp: facts_from_def)

lemma facts_from_extract: "facts_from ck (extract_facts pages cl ck)"
  unfolding extract_facts_def extract_income_proof_facts_def extract_identity_facts_def Let_def
  by (cases cl) (auto intro!: facts_from_bind facts_from_add facts_from_steps)

interpretation regex: document_extractor classify extract_facts
proof unfold_locales
  fix pages cl ck e fs f
  show "extract_facts pages UNKNOWN ck = Inr []" by (simp add: extract_facts_def)
  show "extract_facts pages cl ck = Inr fs \<Longrightarrow> f \<in> set fs \<Longrightarrow> fact_checksum f = ck"
    "extract_facts pages cl ck = Inr fs \<Longrightarrow> f \<in> set fs \<Longrightarrow> mk_ExtractedFact f = Inr f"
    "extract_facts pages cl ck = Inl e \<Longrightarrow> \<not> is_extraction_failure e"
    using facts_from_extract [of ck pages cl] by (auto simp: facts_from_def)
qed

subsection \<open>Process: what a success stored\<close>

text \<open>Inserts that each append one row append the rows in order.\<close>

lemma map_each_appends:
  assumes "map_each (\<lambda>x. execute (ins (row x))) xs w = (Inr ys, w')"
    "\<And>r scope d d'. ins r scope d = Inr d' \<Longrightarrow> d' = upd (\<lambda>rows. rows @ [r]) d"
    "\<And>d. upd (\<lambda>rows. rows) d = d" "\<And>a b d. upd (\<lambda>rows. rows @ b) (upd (\<lambda>rows. rows @ a) d) = upd (\<lambda>rows. rows @ a @ b) d"
  shows "w' = w\<lparr>w_sess := upd (\<lambda>rows. rows @ map row xs) (w_sess w)\<rparr>"
  using assms(1)
proof (induction xs arbitrary: w ys)
  case Nil
  then show ?case by (cases w) (simp add: assms(3))
next
  case (Cons x xs)
  from Cons.prems obtain d zs where d: "ins (row x) (w_scope w) (w_sess w) = Inr d"
    "map_each (\<lambda>x. execute (ins (row x))) xs (w\<lparr>w_sess := d\<rparr>) = (Inr zs, w')"
    by (auto elim!: bnd_InrE execute_InrE)
  from Cons.IH [OF d(2)] assms(2) [OF d(1)] show ?case by (simp add: assms(4))
qed

lemma generate_ids_effect:
  "map_each (\<lambda>_. generate_id env) xs w = (Inr ids, w') \<Longrightarrow>
   length ids = length xs \<and> w' = w\<lparr>w_ids := w_ids w + length xs\<rparr>"
proof (induction xs arbitrary: w ids)
  case Nil
  then show ?case by simp
next
  case (Cons x xs)
  obtain y w1 js w2 where "generate_id env w = (Inr y, w1)"
    "map_each (\<lambda>_. generate_id env) xs w1 = (Inr js, w2)" "ids = y # js" "w' = w2"
    using Cons.prems unfolding map_each.simps by (elim bnd_InrE) (auto simp only: ret_run intro: that)
  with Cons.IH show ?case by fastforce
qed

definition fact_row_of :: "string \<Rightarrow> process_command \<Rightarrow> datetime \<Rightarrow> string \<Rightarrow> extracted_fact \<Rightarrow> fact_row" where
  "fact_row_of run c now i f =
     \<lparr>fr_id = i, fr_run = run, fr_tenant = c_tenant c, fr_application = c_application c,
      fr_document = c_document c, fr_type = fact_type_value (fact_type_of f), fr_value = fact_value f,
      fr_normalized = fact_normalized f, fr_confidence = fact_confidence f, fr_page = fact_page f,
      fr_method = fact_method f, fr_extractor = fact_extractor f, fr_checksum = fact_checksum f,
      fr_status = ''extracted'', fr_created_at = now\<rparr>"

lemma add_extraction_run_effect:
  assumes "add_extraction_run run (c_tenant c) (c_application c) (c_document c) cl fs ids now w = (Inr u, w')"
  shows "length ids = length fs \<and> w_sess w' = (w_sess w)
      \<lparr>db_extraction_runs := db_extraction_runs (w_sess w) @
         [\<lparr>er_run = run, er_tenant = c_tenant c, er_application = c_application c,
           er_document = c_document c, er_classification = classification_value cl,
           er_fact_count = length fs, er_completed_at = now\<rparr>],
       db_facts := db_facts (w_sess w) @ map2 (fact_row_of run c now) ids fs\<rparr>"
proof -
  from assms obtain w1 ys w2 where len: "length fs = length ids"
    and run: "execute (insert_extraction_run \<lparr>er_run = run, er_tenant = c_tenant c,
       er_application = c_application c, er_document = c_document c,
       er_classification = classification_value cl, er_fact_count = length fs, er_completed_at = now\<rparr>) w = (Inr (), w1)"
    and facts: "map_each (\<lambda>x. execute (insert_fact (case x of (i, f) \<Rightarrow> fact_row_of run c now i f))) (zip ids fs) w1 = (Inr ys, w2)"
    and w': "w' = w2"
    unfolding add_extraction_run_def fact_row_of_def case_prod_beta by (auto elim!: bnd_InrE split: if_splits)
  have "w2 = w1\<lparr>w_sess := (w_sess w1)\<lparr>db_facts := db_facts (w_sess w1) @ map2 (fact_row_of run c now) ids fs\<rparr>\<rparr>"
    using map_each_appends [where ins = insert_fact and row = "\<lambda>x. case x of (i, f) \<Rightarrow> fact_row_of run c now i f"
        and upd = "\<lambda>g d. d\<lparr>db_facts := g (db_facts d)\<rparr>", OF facts]
    by (auto simp: insert_fact_def bind_result_Inr_iff)
  with run len w' show ?thesis
    by (auto elim!: execute_InrE simp: insert_extraction_run_def bind_result_Inr_iff)
qed

lemma find_listed_document:
  assumes "list_documents env t k w = (Inr ds, w')" "find (\<lambda>d. doc_id d = i) ds = Some d"
  shows "\<exists>r \<in> set (e_order_documents env (application_documents t k (w_scope w) (w_sess w))).
    dr_id r = i \<and> doc_checksum d = dr_checksum r"
proof -
  from assms(1) have "map_each (\<lambda>r. lift_result (row_to_document r)) (sort_key dr_uploaded_at
      (e_order_documents env (application_documents t k (w_scope w) (w_sess w)))) w = (Inr ds, w')"
    unfolding list_documents_def by (auto elim!: bnd_InrE)
  note rows = map_each_lift [OF this]
  from assms(2) obtain n where "n < length ds" "d = ds ! n" "doc_id d = i" by (auto simp: find_Some_iff)
  with rows obtain r where "r \<in> set (e_order_documents env (application_documents t k (w_scope w) (w_sess w)))"
    "row_to_document r = Inr d"
    by (auto simp: list_all2_conv_all_nth) (metis nth_mem set_sort length_sort)
  with \<open>doc_id d = i\<close> show ?thesis
    by (intro bexI [of _ r]) (auto simp: row_to_document_def bind_result_Inr_iff)
qed

text \<open>What the run's reading comes to: one external call, and the \<open>except\<close> clause.\<close>

lemma read_document_run:
  assumes "get_object (dp_s3 ports) t key (w_ext w) = (got, x)"
  shows "read_document ports t key ct ck w =
    (case bind_result got (\<lambda>data. extract_text (dp_reader ports) data ct) of
       Inl e \<Rightarrow> if is_extraction_failure e then Inr (UNKNOWN, [], Some (error_str e)) else Inl e
     | Inr pages \<Rightarrow> (case dp_extract ports pages (dp_classify ports pages) ck of
         Inl e \<Rightarrow> if is_extraction_failure e then Inr (dp_classify ports pages, [], Some (error_str e)) else Inl e
       | Inr fs \<Rightarrow> Inr (dp_classify ports pages, fs, None)), w\<lparr>w_ext := x\<rparr>)"
proof (cases got)
  case (Inl e)
  with assms show ?thesis
    by (simp add: read_document_def attempt_def try_except_def bnd_def external_def)
next
  case (Inr data)
  show ?thesis
  proof (cases "extract_text (dp_reader ports) data ct")
    case (Inl e)
    with assms Inr show ?thesis
      by (simp add: read_document_def attempt_def try_except_def bnd_def external_def)
  next
    case (Inr pages)
    with assms \<open>got = Inr data\<close> show ?thesis
      by (cases "dp_extract ports pages (dp_classify ports pages) ck")
        (simp_all add: read_document_def attempt_def try_except_def bnd_def external_def Let_def)
  qed
qed

text \<open>What the database may answer to an insert besides accepting it.\<close>

definition refusal :: "py_error \<Rightarrow> bool" where
  "refusal e = (case e of IntegrityError _ \<Rightarrow> True | DataError _ \<Rightarrow> True | RowSecurityError _ \<Rightarrow> True | _ \<Rightarrow> False)"

lemma guard_refuses: "guard_row fits own table cs = Inl e \<Longrightarrow> refusal e"
  by (auto simp: guard_row_def refusal_def split: if_splits option.splits)

lemma map_each_Inl:
  assumes "map_each m xs w = (Inl e, w')" "\<And>x w w'. m x w = (Inl e, w') \<Longrightarrow> P"
  shows P
  using assms(1) by (induction xs arbitrary: w) (auto simp: bnd_def assms(2) split: sum.splits prod.splits)

lemma add_extraction_run_refused:
  assumes "add_extraction_run run t k doc cl fs ids now w = (Inl e, w')" "length ids = length fs"
  shows "refusal e"
proof -
  have fact: "execute (insert_fact r) w1 = (Inl e, w2) \<Longrightarrow> refusal e" for r and w1 w2 :: "'x world"
    by (auto simp: execute_def insert_fact_def bind_result_def dest: guard_refuses split: sum.splits)
  have run: "execute (insert_extraction_run r) w1 = (Inl e, w2) \<Longrightarrow> refusal e" for r and w1 w2 :: "'x world"
    by (auto simp: execute_def insert_extraction_run_def bind_result_def dest: guard_refuses split: sum.splits)
  from assms show ?thesis
    unfolding add_extraction_run_def case_prod_beta
    by (auto elim!: bnd_InlE dest: fact run elim: map_each_Inl)
qed

lemma list_documents_run:
  fixes w w' :: "'x world"
  assumes "fst (list_documents env t k w) = Inr ds" "db_documents (w_sess w') = db_documents (w_sess w)" "w_scope w' = w_scope w"
  shows "list_documents env t k w' = (Inr ds, w')"
proof -
  have same: "map_each (\<lambda>r. lift_result (f r)) rs v = (fst (map_each (\<lambda>r. lift_result (f r)) rs u), v)"
    for f :: "document_row \<Rightarrow> py_error + uploaded_document" and rs and u v :: "'x world"
  proof (induction rs)
    case (Cons r rs)
    then show ?case by (cases "f r") (simp_all add: bnd_def split: prod.splits sum.splits)
  qed simp
  show ?thesis
    using assms same [of row_to_document _ w' w] by (simp add: list_documents_def bnd_def application_documents_def)
qed

lemma generate_ids_run: "\<exists>ids. map_each (\<lambda>_. generate_id env) xs w = (Inr ids, w\<lparr>w_ids := w_ids w + length xs\<rparr>) \<and> length ids = length xs"
proof (induction xs arbitrary: w)
  case (Cons x xs)
  from Cons.IH [of "w\<lparr>w_ids := w_ids w + 1\<rparr>"] show ?case by (auto simp: bnd_def)
qed simp

text \<open>What processing commits: the key, one run row for the document, and one fact row for each fact.\<close>

definition processed ::
  "process_command \<Rightarrow> document_classification \<Rightarrow> extracted_fact list \<Rightarrow> string \<Rightarrow> string list \<Rightarrow> idempotency_row \<Rightarrow> datetime \<Rightarrow> db \<Rightarrow> db" where
  "processed c cl fs run ids key now d = d
     \<lparr>db_idempotency_keys := db_idempotency_keys d @ [key],
      db_extraction_runs := db_extraction_runs d @
        [\<lparr>er_run = run, er_tenant = c_tenant c, er_application = c_application c, er_document = c_document c,
          er_classification = classification_value cl, er_fact_count = length fs, er_completed_at = now\<rparr>],
      db_facts := db_facts d @ map2 (fact_row_of run c now) ids fs\<rparr>"

text \<open>A request that committed such a run and reports it, and one that raised and left the database alone.\<close>

definition recorded ::
  "process_command \<Rightarrow> db \<Rightarrow> py_error + process_result \<Rightarrow> db \<Rightarrow> document_classification \<Rightarrow> extracted_fact list \<Rightarrow> string option \<Rightarrow> bool" where
  "recorded c d r d' cl fs err \<longleftrightarrow>
     r = Inr \<lparr>pd_document = c_document c, pd_classification = cl, pd_fact_count = length fs, pd_extraction_error = err\<rparr> \<and>
     (\<exists>run ids key now. length ids = length fs \<and> ik_tenant key = c_tenant c \<and> ik_operation key = ''process_document'' \<and>
        ik_key key = c_key c \<and> d' = processed c cl fs run ids key now d)"

definition raised :: "db \<Rightarrow> py_error + 'a \<Rightarrow> db \<Rightarrow> py_error \<Rightarrow> bool" where
  "raised d r d' e \<longleftrightarrow> r = Inl e \<and> d' = d"

lemma process_tail:
  assumes "process_document env ports c w = (r, w')" "\<not> reserved (w_db w) (c_tenant c) ''process_document'' (c_key c)"
    "fst (list_documents env (c_tenant c) (c_application c) (aenter (c_tenant c) w)) = Inr ds"
    "find (\<lambda>d. doc_id d = c_document c) ds = Some doc"
    "get_object_metadata (dp_s3 ports) (c_tenant c) (doc_object_key doc) (w_ext w) = (Inr m, x1)"
    "get_object (dp_s3 ports) (c_tenant c) (doc_object_key doc) x1 = (got, x2)"
    "fst (read_document ports (c_tenant c) (doc_object_key doc) (om_content_type m) (doc_checksum doc)
       ((aenter (c_tenant c) w)\<lparr>w_ext := x1\<rparr>)) = res"
  shows "case res of Inl e \<Rightarrow> r = Inl e
    | Inr (cl, fs, err) \<Rightarrow> (\<exists>e. r = Inl e \<and> refusal e) \<or> recorded c (w_db w) r (w_db w') cl fs err"
proof -
  let ?key = "\<lparr>ik_tenant = c_tenant c, ik_operation = ''process_document'', ik_key = c_key c, ik_reserved_at = e_clock env (w_clk w)\<rparr>"
  define wa where "wa = (aenter (c_tenant c) w)\<lparr>w_clk := w_clk w + 1,
    w_sess := (w_db w)\<lparr>db_idempotency_keys := db_idempotency_keys (w_db w) @ [?key]\<rparr>\<rparr>"
  have r: "reserve_or_raise env (c_tenant c) (c_key c) ''process_document'' (aenter (c_tenant c) w) = (Inr (), wa)"
    using assms(2) by (simp add: reserve_or_raise_cases wa_def)
  have l: "list_documents env (c_tenant c) (c_application c) wa = (Inr ds, wa)"
    by (rule list_documents_run [OF assms(3)]) (simp_all add: wa_def)
  have m: "external (get_object_metadata (dp_s3 ports) (c_tenant c) (doc_object_key doc)) wa = (Inr m, wa\<lparr>w_ext := x1\<rparr>)"
    using assms(5) by (simp add: external_def wa_def)
  define we where "we = wa\<lparr>w_ext := x2\<rparr>"
  have rd: "read_document ports (c_tenant c) (doc_object_key doc) (om_content_type m) (doc_checksum doc) (wa\<lparr>w_ext := x1\<rparr>) = (res, we)"
    using assms(6,7) by (simp add: read_document_run we_def)
  obtain r1 w1 where body: "process_body env ports c (aenter (c_tenant c) w) = (r1, w1)" by fastforce
  have out: "r = r1" "r1 = Inr y \<Longrightarrow> w_db w' = w_sess w1" for y
    using assms(1) body by (auto simp: process_document_def transaction_def with_uow_def bnd_def commit_def aexit_def split: sum.splits)
  show ?thesis
  proof (cases res)
    case (Inl e)
    with body rd show ?thesis
      by (simp add: out(1) process_body_def bnd_def r l m assms(4))
  next
    case (Inr read)
    obtain cl fs err where read: "read = (cl, fs, err)" by (cases read) auto
    obtain ids where ids: "map_each (\<lambda>_. generate_id env) fs we = (Inr ids, we\<lparr>w_ids := w_ids we + length fs\<rparr>)" "length ids = length fs"
      using generate_ids_run [of env fs we] by blast
    define wf where "wf = we\<lparr>w_ids := w_ids we + length fs + 1, w_clk := w_clk we + 1\<rparr>"
    let ?run = "e_uuid env (w_ids we + length fs)" and ?now = "e_clock env (w_clk we)"
    obtain u w2 where add: "add_extraction_run ?run (c_tenant c) (c_application c) (c_document c) cl fs ids ?now wf = (u, w2)" by fastforce
    have tail: "r1 = (case u of Inl e \<Rightarrow> Inl e | Inr _ \<Rightarrow>
          Inr \<lparr>pd_document = c_document c, pd_classification = cl, pd_fact_count = length fs, pd_extraction_error = err\<rparr>) \<and> w1 = w2"
      using body rd add ids(1) unfolding Inr read
      by (simp add: process_body_def bnd_def r l m assms(4) wf_def split: sum.splits)
    show ?thesis
    proof (cases u)
      case (Inl e)
      with add_extraction_run_refused [OF add [unfolded Inl] ids(2)] tail out(1) show ?thesis by (simp add: \<open>res = Inr read\<close> read)
    next
      case (Inr z)
      have "w_sess w2 = processed c cl fs ?run ids ?key ?now (w_db w)"
        using add_extraction_run_effect [OF add [unfolded Inr]] by (simp add: wf_def we_def wa_def processed_def)
      with tail out ids(2) Inr show ?thesis
        by (auto simp: \<open>res = Inr read\<close> read recorded_def intro!: exI [of _ ?run] exI [of _ ids] exI [of _ ?key] exI [of _ ?now])
    qed
  qed
qed

text \<open>C33: what processing a document comes to, with the regex extractor.  If the object store has the document's
  metadata, the outcome is fixed by what the store then answers for the bytes and the parser makes of them, except that
  the request is refused when its key was used before or the database refuses a row, which changes nothing.  Pages that
  were read are classified, and the run is committed with that class and one row for each fact, with the fact's own
  content.  A document of an unsupported type, or one that could not be extracted, is not an error of the request: the
  run is committed with class UNKNOWN and no facts and the result carries the message.  Any other exception is raised
  and leaves the database as it was.  Every fact carries the checksum recorded at upload, and an unrecognised document
  has none.\<close>

theorem process_document_effect:
  assumes "dp_classify ports = classify" "dp_extract ports = extract_facts"
    "fst (list_documents env (c_tenant c) (c_application c) (aenter (c_tenant c) w)) = Inr ds"
    "find (\<lambda>d. doc_id d = c_document c) ds = Some doc"
    "get_object_metadata (dp_s3 ports) (c_tenant c) (doc_object_key doc) (w_ext w) = (Inr m, x1)"
    "get_object (dp_s3 ports) (c_tenant c) (doc_object_key doc) x1 = (got, x2)"
    "process_document env ports c w = (r, w')"
  shows "if reserved (w_db w) (c_tenant c) ''process_document'' (c_key c)
    then raised (w_db w) r (w_db w') (DuplicateRequestError ''process_document'' (c_key c))
    else (\<exists>e. refusal e \<and> raised (w_db w) r (w_db w') e) \<or>
      (case bind_result got (\<lambda>data. extract_text (dp_reader ports) data (om_content_type m)) of
         Inl e \<Rightarrow> (case e of
             UnsupportedDocumentTypeError _ \<Rightarrow> recorded c (w_db w) r (w_db w') UNKNOWN [] (Some (error_str e))
           | ExtractionFailedError _ _ \<Rightarrow> recorded c (w_db w) r (w_db w') UNKNOWN [] (Some (error_str e))
           | _ \<Rightarrow> raised (w_db w) r (w_db w') e)
       | Inr pages \<Rightarrow> (case extract_facts pages (classify pages) (doc_checksum doc) of
           Inl e \<Rightarrow> raised (w_db w) r (w_db w') e
         | Inr fs \<Rightarrow> recorded c (w_db w) r (w_db w') (classify pages) fs None \<and>
             (\<forall>f \<in> set fs. fact_checksum f = doc_checksum doc) \<and> (classify pages = UNKNOWN \<longrightarrow> fs = [])))"
proof (cases "reserved (w_db w) (c_tenant c) ''process_document'' (c_key c)")
  case True
  with assms(7) have "r = Inl (DuplicateRequestError ''process_document'' (c_key c)) \<and> w_db w' = w_db w"
    by (auto simp: process_document_def transaction_def with_uow_def process_body_def bnd_def reserve_or_raise_cases)
  with True show ?thesis by (simp add: raised_def)
next
  case False
  have same: "w_db w' = w_db w" if "r = Inl e" for e
    using transaction_error [OF quiet_document_bodies(2)] assms(7) that unfolding process_document_def by blast
  note tail = process_tail [OF assms(7) False assms(3-6) refl]
  note read = read_document_run [where w = "(aenter (c_tenant c) w)\<lparr>w_ext := x1\<rparr>" and ports = ports, simplified, OF assms(6)]
  show ?thesis
  proof (cases "bind_result got (\<lambda>data. extract_text (dp_reader ports) data (om_content_type m))")
    case (Inl e)
    with tail False same show ?thesis
      by (cases e) (auto simp: read is_extraction_failure_def raised_def)
  next
    case (Inr pages)
    show ?thesis
    proof (cases "extract_facts pages (classify pages) (doc_checksum doc)")
      case (Inl e)
      with tail False same Inr regex.no_extraction_failure [OF Inl] show ?thesis
        by (auto simp: read assms(1,2) raised_def)
    next
      case (Inr fs)
      have "classify pages = UNKNOWN \<longrightarrow> fs = []" "\<forall>f \<in> set fs. fact_checksum f = doc_checksum doc"
        using Inr regex.unknown_yields_nothing regex.carries_checksum [OF Inr] by auto
      with tail False same Inr \<open>bind_result _ _ = _\<close> show ?thesis
        by (auto simp: read assms(1,2) raised_def)
    qed
  qed
qed

subsection \<open>Concrete runs\<close>

definition sample_s3 :: "unit s3_client" where
  "sample_s3 =
     \<lparr>s3_put_object = (\<lambda>_ _ _ _ x. (Inr None, x)), s3_get_object = (\<lambda>_ x. (Inr ''%PDF-1.4'', x)),
      s3_head_object = (\<lambda>_ x. (Inr \<lparr>hr_metadata = [], hr_content_length = 8,
         hr_content_type = Some ''application/pdf'', hr_version_id = None, hr_last_modified = sample_instant\<rparr>, x)),
      s3_presign = (\<lambda>_ _ x. (Inr [], x)), s3_head_bucket = (\<lambda>x. (Inr (), x)),
      s3_create_bucket = (\<lambda>x. (Inr (), x)), s3_put_bucket_versioning = (\<lambda>x. (Inr (), x)),
      s3_now = (\<lambda>_. sample_instant)\<rparr>"

definition sample_ports :: "unit document_ports" where
  "sample_ports =
     \<lparr>dp_s3 = sample_s3, dp_reader = one_page_reader, dp_max_size = 100, dp_max_pages = 5,
      dp_classify = classify, dp_extract = extract_facts\<rparr>"

definition sample_upload :: "string \<Rightarrow> upload_command" where
  "sample_upload data =
     \<lparr>c_tenant = DEMO_TENANT_ID, c_application = app_id sample_application, c_key = ''k'',
      c_document_type = ''INCOME_PROOF'', c_filename = ''stub.pdf'', c_content_type = ''text/html'',
      c_data = data\<rparr>"

lemma sample_scan:
  "scan one_page_reader 100 5 ''%PDF-1.4'' ''stub.pdf'' ''text/html''
     = Inr \<lparr>sr_content_type = ''application/pdf'', sr_page_count = 1\<rparr>"
  by (simp add: scan_def extension_of_def str_rpartition_def str_lower_def char_code_def
      ALLOWED_EXTENSIONS_def sniff_content_type_def MAGIC_BYTES_BY_CONTENT_TYPE_def starts_with_def
      pdf_page_count_def one_page_reader_def malware_scan_def Let_def)

theorem unsafe_upload_leaves_no_trace_witness:
  "w_db (snd (upload_document sample_env sample_ports (sample_upload (replicate 101 CHR ''x''))
     (world_of (case_db SUBMITTED 2) ()))) = case_db SUBMITTED 2"
proof -
  let ?c = "sample_upload (replicate 101 CHR ''x'')" and ?w = "world_of (case_db SUBMITTED 2) ()"
  obtain e where "scan (dp_reader sample_ports) (dp_max_size sample_ports) (dp_max_pages sample_ports)
      (c_data ?c) (c_filename ?c) (c_content_type ?c) = Inl e"
    by (simp add: scan_def sample_ports_def sample_upload_def)
  moreover obtain r w' where "upload_document sample_env sample_ports ?c ?w = (r, w')" by fastforce
  ultimately show ?thesis using unsafe_upload_leaves_no_trace [of sample_ports ?c e sample_env ?w r w']
    by (simp add: world_of_def)
qed

lemma sample_key_segments:
  "''..'' \<notin> set (str_split CHR ''/'' (app_id sample_application @ CHR ''/'' # new_id n @ ''/stub.pdf''))"
proof -
  have "CHR ''/'' \<notin> set (app_id sample_application)" by (simp add: sample_application_def)
  moreover have "new_id n \<noteq> ''..''" using new_id_chars(2) [of n] by auto
  moreover have "app_id sample_application \<noteq> ''..''" by (simp add: sample_application_def)
  ultimately show ?thesis using new_id_chars(1) [of n] by (simp add: str_split_append)
qed

lemma sample_upload_runs:
  "\<exists>res w'. upload_document sample_env sample_ports (sample_upload ''%PDF-1.4'')
     (world_of (case_db SUBMITTED 2) ()) = (Inr res, w')"
  using valid_demo
  by (simp add: upload_document_def upload_body_def upload_checks_def upload_store_def run_defs
      sample_ports_def sample_upload_def world_of_def case_db_def initial_db_def sample_env_def load_sample
      sample_scan sample_s3_def external_def put_object_def scoped_key_def object_key_of_def starts_with_def
      document_add_def outbox_row_of_def audit_row_of_def Let_def fits_int32_def document_ids_def
      application_ids_def SCHEMA_VERSION_def sample_key_segments)

theorem upload_document_effect_witness:
  "\<exists>res w' row. upload_document sample_env sample_ports (sample_upload ''%PDF-1.4'')
     (world_of (case_db SUBMITTED 2) ()) = (Inr res, w') \<and> db_documents (w_db w') = [row] \<and> dr_size row = 8"
proof -
  obtain res w' where run: "upload_document sample_env sample_ports (sample_upload ''%PDF-1.4'')
     (world_of (case_db SUBMITTED 2) ()) = (Inr res, w')" using sample_upload_runs by blast
  from upload_document_effect [OF run] obtain row where
    "db_documents (w_db w') = db_documents (case_db SUBMITTED 2) @ [row]" "dr_size row = length ''%PDF-1.4''"
    by (auto simp: world_of_def sample_upload_def)
  with run show ?thesis by (auto simp: case_db_def initial_db_def)
qed

definition sample_document :: document_row where
  "sample_document =
     \<lparr>dr_id = ''d1'', dr_tenant = DEMO_TENANT_ID, dr_application = app_id sample_application,
      dr_type = ''INCOME_PROOF'', dr_object_key = ''applications/a/d1/stub.pdf'', dr_checksum = ''ck'',
      dr_size = 8, dr_uploaded_at = sample_instant\<rparr>"

definition sample_process :: process_command where
  "sample_process =
     \<lparr>c_tenant = DEMO_TENANT_ID, c_application = app_id sample_application, c_key = ''k'', c_document = ''d1''\<rparr>"

definition sample_processing :: "pdf_reader \<Rightarrow> (py_error + process_result) \<times> unit world" where
  "sample_processing reader = process_document sample_env (sample_ports\<lparr>dp_reader := reader\<rparr>) sample_process
     (world_of ((case_db DOCUMENT_PROCESSING 4)\<lparr>db_documents := [sample_document]\<rparr>) ())"

lemmas process_simps = process_document_def process_body_def read_document_def attempt_def run_defs
  sample_ports_def sample_process_def sample_document_def world_of_def case_db_def initial_db_def
  sample_env_def sample_s3_def external_def list_documents_def application_documents_def
  row_to_document_def get_object_metadata_def get_object_def scoped_key_def starts_with_def
  add_extraction_run_def Let_def fits_int32_def document_ids_def application_ids_def

lemma sample_processing_unread:
  assumes "extract_text reader ''%PDF-1.4'' ''application/pdf'' = Inl e" "is_extraction_failure e"
  shows "\<exists>res w'. sample_processing reader = (Inr res, w')"
  using valid_demo valid_sample(1) assms by (simp add: sample_processing_def process_simps)

lemma sample_processing_read:
  assumes "extract_text reader ''%PDF-1.4'' ''application/pdf'' = Inr pages" "extract_facts pages (classify pages) ''ck'' = Inr [f1, f2, f3]"
    "\<forall>f \<in> {f1, f2, f3}. fact_page f = 1 \<and> fact_confidence f = 1"
  shows "\<exists>res w'. sample_processing reader = (Inr res, w')"
  using valid_demo valid_sample(1) assms by (simp add: sample_processing_def process_simps new_id_inject)

text \<open>A file that is no PDF after all is recorded as unreadable; a generated pay stub yields three rows.\<close>

theorem process_document_effect_witness:
  "(\<exists>w'. sample_processing (\<lambda>_. Inl (PdfReadError ''EOF'')) = (Inr \<lparr>pd_document = ''d1'', pd_classification = UNKNOWN,
       pd_fact_count = 0, pd_extraction_error = Some (error_str (ExtractionFailedError ''unknown'' ''unreadable PDF: EOF''))\<rparr>, w') \<and>
     map er_classification (db_extraction_runs (w_db w')) = [''UNKNOWN''] \<and> db_facts (w_db w') = []) \<and>
   (\<exists>lines res w'. pay_stub_lines sample_applicant sample_employment = Inr lines \<and>
     sample_processing (\<lambda>_. Inr \<lparr>pdf_encrypted = False, pdf_pages = [Inr (str_join [newline] lines)]\<rparr>) = (Inr res, w') \<and>
     map er_classification (db_extraction_runs (w_db w')) = [''INCOME_PROOF''] \<and>
     map fr_type (db_facts (w_db w')) = [''EMPLOYER_NAME'', ''GROSS_MONTHLY_INCOME'', ''TENURE_MONTHS''])"
proof
  let ?w = "world_of ((case_db DOCUMENT_PROCESSING 4)\<lparr>db_documents := [sample_document]\<rparr>) ()"
  define doc where "doc = \<lparr>doc_id = ''d1'', doc_tenant = DEMO_TENANT_ID, doc_application = app_id sample_application,
    doc_type = ''INCOME_PROOF'', doc_object_key = ''applications/a/d1/stub.pdf'', doc_checksum = ''ck'', doc_size = 8,
    doc_uploaded_at = sample_instant\<rparr>"
  have listed: "fst (list_documents sample_env (c_tenant sample_process) (c_application sample_process)
      (aenter (c_tenant sample_process) ?w)) = Inr [doc]" "find (\<lambda>d. doc_id d = c_document sample_process) [doc] = Some doc"
    using valid_demo valid_sample(1) by (simp_all add: process_simps doc_def)
  have meta: "\<exists>m. get_object_metadata sample_s3 (c_tenant sample_process) (doc_object_key doc) (w_ext ?w) = (Inr m, ()) \<and>
      om_content_type m = ''application/pdf''"
    and got: "get_object sample_s3 (c_tenant sample_process) (doc_object_key doc) () = (Inr ''%PDF-1.4'', ())"
    by (simp_all add: process_simps doc_def)
  obtain m where m: "get_object_metadata sample_s3 (c_tenant sample_process) (doc_object_key doc) (w_ext ?w) = (Inr m, ())"
    "om_content_type m = ''application/pdf''" using meta by blast
  have free: "\<not> reserved (w_db ?w) (c_tenant sample_process) ''process_document'' (c_key sample_process)"
    by (simp add: process_simps)
  have at: "case extract_text reader ''%PDF-1.4'' ''application/pdf'' of
       Inl e \<Rightarrow> is_extraction_failure e \<longrightarrow> recorded sample_process (w_db ?w) (Inr res) (w_db w') UNKNOWN [] (Some (error_str e))
     | Inr pages \<Rightarrow> (\<forall>fs. extract_facts pages (classify pages) ''ck'' = Inr fs \<longrightarrow>
         recorded sample_process (w_db ?w) (Inr res) (w_db w') (classify pages) fs None)"
    if "sample_processing reader = (Inr res, w')" for reader res w'
  proof -
    have p: "dp_classify (sample_ports\<lparr>dp_reader := reader\<rparr>) = classify" "dp_extract (sample_ports\<lparr>dp_reader := reader\<rparr>) = extract_facts"
      "dp_s3 (sample_ports\<lparr>dp_reader := reader\<rparr>) = sample_s3" "dp_reader (sample_ports\<lparr>dp_reader := reader\<rparr>) = reader"
      by (simp_all add: sample_ports_def)
    have ck: "doc_checksum doc = ''ck''" by (simp add: doc_def)
    from process_document_effect [OF p(1,2) listed, unfolded p(3), OF m(1) got that [unfolded sample_processing_def]]
    show ?thesis
      using free by (auto simp: m(2) p(4) ck raised_def is_extraction_failure_def split: sum.splits py_error.splits)
  qed
  show "\<exists>w'. sample_processing (\<lambda>_. Inl (PdfReadError ''EOF'')) = (Inr \<lparr>pd_document = ''d1'', pd_classification = UNKNOWN,
       pd_fact_count = 0, pd_extraction_error = Some (error_str (ExtractionFailedError ''unknown'' ''unreadable PDF: EOF''))\<rparr>, w') \<and>
     map er_classification (db_extraction_runs (w_db w')) = [''UNKNOWN''] \<and> db_facts (w_db w') = []"
  proof -
    let ?reader = "\<lambda>_. Inl (PdfReadError ''EOF'')"
    have e: "extract_text ?reader ''%PDF-1.4'' ''application/pdf'' = Inl (ExtractionFailedError ''unknown'' ''unreadable PDF: EOF'')"
      "is_extraction_failure (ExtractionFailedError ''unknown'' ''unreadable PDF: EOF'')"
      by (simp_all add: extract_text_def SUPPORTED_CONTENT_TYPES_def unreadable_def is_extraction_failure_def)
    obtain res w' where run: "sample_processing ?reader = (Inr res, w')" using sample_processing_unread [OF e] by blast
    have "recorded sample_process (w_db ?w) (Inr res) (w_db w') UNKNOWN []
        (Some (error_str (ExtractionFailedError ''unknown'' ''unreadable PDF: EOF'')))"
      using at [OF run] e by (simp only: sum.case simp_thms)
    then show ?thesis
      using run by (auto simp: recorded_def processed_def sample_process_def world_of_def case_db_def initial_db_def)
  qed
  obtain lines where lines: "pay_stub_lines sample_applicant sample_employment = Inr lines" using sample_pay_stub by blast
  show "\<exists>lines res w'. pay_stub_lines sample_applicant sample_employment = Inr lines \<and>
     sample_processing (\<lambda>_. Inr \<lparr>pdf_encrypted = False, pdf_pages = [Inr (str_join [newline] lines)]\<rparr>) = (Inr res, w') \<and>
     map er_classification (db_extraction_runs (w_db w')) = [''INCOME_PROOF''] \<and>
     map fr_type (db_facts (w_db w')) = [''EMPLOYER_NAME'', ''GROSS_MONTHLY_INCOME'', ''TENURE_MONTHS'']"
  proof -
    let ?reader = "\<lambda>_. Inr \<lparr>pdf_encrypted = False, pdf_pages = [Inr (str_join [newline] lines)]\<rparr>"
    have pages: "extract_text ?reader ''%PDF-1.4'' ''application/pdf'' = Inr [page_of_lines 1 lines]"
      by (simp add: extract_text_def SUPPORTED_CONTENT_TYPES_def page_of_lines_def)
    obtain facts where cl: "classify [page_of_lines 1 lines] = INCOME_PROOF"
      and facts: "extract_facts [page_of_lines 1 lines] INCOME_PROOF ''ck'' = Inr facts"
      and types: "map fact_type_of facts = [EMPLOYER_NAME, GROSS_MONTHLY_INCOME, TENURE_MONTHS]"
      and shape: "\<forall>f \<in> set facts. fact_page f = 1 \<and> fact_confidence f = 1"
      using pay_stub_facts [OF lines sample_plain, of 1 "''ck''"] arg_cong [of _ _ "map fst"]
      by (auto simp: sample_employment_def fact_triple_def comp_def dest!: arg_cong [of _ _ "map fst"])
    obtain f1 f2 f3 where three: "facts = [f1, f2, f3]" using types by (auto simp: map_eq_Cons_conv)
    obtain res w' where run: "sample_processing ?reader = (Inr res, w')"
      using sample_processing_read [OF pages] cl facts shape unfolding three by auto
    have "recorded sample_process (w_db ?w) (Inr res) (w_db w') INCOME_PROOF facts None"
      using at [OF run] facts unfolding pages sum.case cl by blast
    then have "map er_classification (db_extraction_runs (w_db w')) = [''INCOME_PROOF''] \<and>
        map fr_type (db_facts (w_db w')) = map (fact_type_value \<circ> fact_type_of) facts"
      by (auto simp: recorded_def processed_def world_of_def case_db_def initial_db_def fact_row_of_def three length_Suc_conv)
    with lines run types show ?thesis by (auto simp: three)
  qed
qed

end
