(* ===== verification/Verification.thy ===== *)
theory Verification
  imports Document_Commands
begin

text \<open>
  \<open>application/commands/verify_application_facts.py\<close>: the extracted facts of a case are checked
  against four external systems, which are parameters (\<open>application/ports/external_verification.py\<close>
  says what they return).  Scores and deviations are Python floats, the rationals of \<open>Floats\<close>.
\<close>

subsection \<open>The external systems\<close>

record kyc_result =
  kyc_status :: string
  kyc_name_score :: rat
  kyc_address_score :: rat
  kyc_birth_match :: bool
  kyc_reference :: string

record employment_result =
  emp_confirmed :: bool
  emp_income :: int
  emp_tenure :: int

record tradeline =
  tl_account_type :: string
  tl_opened_years_ago :: int
  tl_balance :: int
  tl_credit_limit :: int
  tl_delinquent :: bool

record credit_report =
  crr_score :: int
  crr_tradelines :: "tradeline list"
  crr_inquiries :: int
  crr_duplicate_flag :: bool

record bank_transaction =
  tx_occurred_at :: datetime
  tx_amount_cents :: int
  tx_description :: string

record transaction_history =
  th_average_balance :: int
  th_nsf_count :: int
  th_transactions :: "bank_transaction list"

record 'x verifiers =
  vf_kyc :: "string \<Rightarrow> string \<Rightarrow> date \<Rightarrow> string \<Rightarrow> string \<Rightarrow> string \<Rightarrow> 'x \<Rightarrow> (py_error + kyc_result) \<times> 'x"
  vf_employer :: "string \<Rightarrow> string \<Rightarrow> string \<Rightarrow> string \<Rightarrow> int \<Rightarrow> 'x \<Rightarrow> (py_error + employment_result) \<times> 'x"
  vf_bureau :: "string \<Rightarrow> string \<Rightarrow> date \<Rightarrow> string \<Rightarrow> 'x \<Rightarrow> (py_error + credit_report) \<times> 'x"
  vf_bank :: "string \<Rightarrow> string \<Rightarrow> string \<Rightarrow> int \<Rightarrow> 'x \<Rightarrow> (py_error + transaction_history) \<times> 'x"

subsection \<open>\<open>float(text)\<close>\<close>

datatype float_value = FiniteFloat rat | InfFloat | NanFloat

text \<open>An underscore is allowed between two digits only.\<close>

fun underscores_ok :: "char \<Rightarrow> string \<Rightarrow> bool" where
  "underscores_ok before [] \<longleftrightarrow> before \<noteq> CHR ''_''"
| "underscores_ok before (c # cs) \<longleftrightarrow>
     (c = CHR ''_'' \<longrightarrow> is_digit before) \<and> (before = CHR ''_'' \<longrightarrow> is_digit c) \<and> underscores_ok c cs"

definition read_exponent :: "string \<Rightarrow> int option" where
  "read_exponent s =
     (case s of
        [] \<Rightarrow> Some 0
      | c # cs \<Rightarrow>
          if c \<noteq> CHR ''e'' \<and> c \<noteq> CHR ''E'' then None
          else let (sign, ds) = (case cs of
                 d # ds' \<Rightarrow> if d = CHR ''-'' then (- 1, ds') else if d = CHR ''+'' then (1, ds') else (1, cs)
               | [] \<Rightarrow> (1, cs))
               in if ds \<noteq> [] \<and> list_all is_digit ds then Some (sign * int (read_nat ds)) else None)"

definition read_unsigned_float :: "string \<Rightarrow> float_value option" where
  "read_unsigned_float s =
     (if str_lower s = ''inf'' \<or> str_lower s = ''infinity'' then Some InfFloat
      else if str_lower s = ''nan'' then Some NanFloat
      else let ip = takeWhile is_digit s; r1 = dropWhile is_digit s;
             (fp, r2) = (case r1 of
               c # cs \<Rightarrow> if c = CHR ''.'' then (takeWhile is_digit cs, dropWhile is_digit cs) else ([], r1)
             | [] \<Rightarrow> ([], []))
           in if ip @ fp = [] then None
              else map_option (\<lambda>e.
                let x = of_nat (read_nat (ip @ fp)) * 10 powi (e - int (length fp))
                in if fl_overflows x then InfFloat else FiniteFloat (fl x)) (read_exponent r2))"

definition negate_float :: "float_value \<Rightarrow> float_value" where
  "negate_float v = (case v of FiniteFloat x \<Rightarrow> FiniteFloat (- x) | InfFloat \<Rightarrow> InfFloat | NanFloat \<Rightarrow> NanFloat)"

definition py_float :: "string \<Rightarrow> py_error + float_value" where
  "py_float text =
     (let s = str_strip text; digits = filter (\<lambda>c. c \<noteq> CHR ''_'') s;
        failed = Inl (ValueError (''could not convert string to float: '' @ py_repr text))
      in if \<not> underscores_ok CHR '' '' s then failed
         else case (case digits of
             c # cs \<Rightarrow> if c = CHR ''-'' then map_option negate_float (read_unsigned_float cs)
                       else if c = CHR ''+'' then read_unsigned_float cs else read_unsigned_float digits
           | [] \<Rightarrow> None) of
           None \<Rightarrow> failed | Some v \<Rightarrow> Inr v)"

text \<open>\<open>round(float(text) * 12)\<close>\<close>

definition annual_income :: "string \<Rightarrow> py_error + int" where
  "annual_income text =
     bind_result (py_float text) (\<lambda>v. case v of
       NanFloat \<Rightarrow> Inl (ValueError ''cannot convert float NaN to integer'')
     | InfFloat \<Rightarrow> Inl OverflowError
     | FiniteFloat x \<Rightarrow> if fl_overflows (x * 12) then Inl OverflowError else Inr (round_half_even (fl (x * 12))))"

subsection \<open>The checks\<close>

definition latest_fact :: "fact_type \<Rightarrow> stored_fact list \<Rightarrow> extracted_fact option" where
  "latest_fact t facts = find (\<lambda>f. fact_type_of f = t) (rev (map sf_fact facts))"

definition show_bool :: "bool \<Rightarrow> string" where
  "show_bool b = (if b then ''True'' else ''False'')"

definition verdict_of :: "bool \<Rightarrow> verification_verdict" where
  "verdict_of matched = (if matched then MATCHED else CONTRADICTED)"

definition kyc_matched :: "kyc_result \<Rightarrow> bool" where
  "kyc_matched r \<longleftrightarrow> kyc_status r = ''PASS'' \<and> kyc_birth_match r \<and>
     float_0_8 \<le> kyc_name_score r \<and> float_0_8 \<le> kyc_address_score r"

definition kyc_check :: "applicant \<Rightarrow> kyc_result \<Rightarrow> py_error + verification_check" where
  "kyc_check applicant r =
     mk_VerificationCheck
       \<lparr>chk_source = MOCK_KYC, chk_fact_type = fact_type_value SYNTHETIC_ID,
        chk_declared = Some (apl_given_name applicant @ '' '' @ apl_family_name applicant),
        chk_external = Some (''status='' @ kyc_status r @ '' name_score='' @ show_fixed2 (kyc_name_score r)
          @ '' address_score='' @ show_fixed2 (kyc_address_score r)),
        chk_verdict = verdict_of (kyc_matched r),
        chk_confidence = min (kyc_name_score r) (kyc_address_score r),
        chk_detail = ''KYC reference '' @ kyc_reference r\<rparr>"

definition kyc_snapshot :: "kyc_result \<Rightarrow> response_snapshot" where
  "kyc_snapshot r = (MOCK_KYC,
     [(''status'', SStr (kyc_status r)), (''name_match_score'', SFloat (kyc_name_score r)),
      (''address_match_score'', SFloat (kyc_address_score r)),
      (''date_of_birth_match'', SBool (kyc_birth_match r)), (''reference_id'', SStr (kyc_reference r))])"

definition missing_check :: "source_system \<Rightarrow> fact_type \<Rightarrow> string \<Rightarrow> verification_check" where
  "missing_check src t detail =
     \<lparr>chk_source = src, chk_fact_type = fact_type_value t, chk_declared = None, chk_external = None,
      chk_verdict = INSUFFICIENT_EVIDENCE, chk_confidence = 0, chk_detail = detail\<rparr>"

definition employment_matched :: "employment_result \<Rightarrow> rat \<Rightarrow> bool" where
  "employment_matched r deviation \<longleftrightarrow> emp_confirmed r \<and> deviation \<le> float_0_2"

definition employment_check :: "extracted_fact \<Rightarrow> int \<Rightarrow> employment_result \<Rightarrow> py_error + verification_check" where
  "employment_check employer_name declared r =
     bind_result (int_truediv \<bar>emp_income r - declared\<bar> declared) (\<lambda>deviation.
     mk_VerificationCheck
       \<lparr>chk_source = MOCK_EMPLOYER, chk_fact_type = fact_type_value EMPLOYER_NAME,
        chk_declared = Some (fact_value employer_name @ '', $'' @ show_int declared @ ''/yr''),
        chk_external = Some (''confirmed='' @ show_bool (emp_confirmed r) @ '' verified_income=$''
          @ show_int (emp_income r)),
        chk_verdict = verdict_of (employment_matched r deviation),
        chk_confidence = max 0 (fl (1 - min deviation 1)),
        chk_detail = ''tenure '' @ show_int (emp_tenure r) @ '' months''\<rparr>)"

definition employment_snapshot :: "employment_result \<Rightarrow> response_snapshot" where
  "employment_snapshot r = (MOCK_EMPLOYER,
     [(''is_employment_confirmed'', SBool (emp_confirmed r)), (''verified_annual_income'', SInt (emp_income r)),
      (''tenure_months'', SInt (emp_tenure r))])"

definition bureau_snapshot :: "credit_report \<Rightarrow> response_snapshot" where
  "bureau_snapshot r = (MOCK_BUREAU,
     [(''credit_score'', SInt (crr_score r)), (''hard_inquiries_last_12_months'', SInt (crr_inquiries r)),
      (''is_duplicate_identity_flag'', SBool (crr_duplicate_flag r)),
      (''tradeline_count'', SInt (int (length (crr_tradelines r))))])"

definition bank_snapshot :: "transaction_history \<Rightarrow> response_snapshot" where
  "bank_snapshot r = (MOCK_CORE_BANKING,
     [(''average_daily_balance_cents'', SInt (th_average_balance r)),
      (''nsf_count_last_90_days'', SInt (th_nsf_count r))])"

definition build_verification_summary :: "verification_check list \<Rightarrow> string" where
  "build_verification_summary checks =
     (if checks = []
      then ''no verification checks could be run: no identity/employment facts were extracted''
      else
        let matched = length (filter (\<lambda>c. chk_verdict c = MATCHED) checks);
          contradicted = filter (\<lambda>c. chk_verdict c = CONTRADICTED) checks;
          insufficient = length (filter (\<lambda>c. chk_verdict c = INSUFFICIENT_EVIDENCE) checks);
          reasons = str_join '', '' (map (\<lambda>c. source_system_value (chk_source c) @ '': '' @ chk_detail c) contradicted);
          parts = [show_nat matched @ '' matched'']
            @ (if contradicted \<noteq> []
               then [show_nat (length contradicted) @ '' contradicted ('' @ reasons @ '')''] else [])
            @ (if insufficient \<noteq> 0 then [show_nat insufficient @ '' insufficient evidence''] else [])
        in ''verification complete: '' @ str_join ''; '' parts)"

subsection \<open>The handler\<close>

record verification_result =
  ver_checks :: "verification_check list"
  ver_contradictions :: nat
  ver_summary :: string

text \<open>The facts the handler reads, by name.\<close>

record evidence =
  ev_synthetic_id :: "extracted_fact option"
  ev_street :: "extracted_fact option"
  ev_city :: "extracted_fact option"
  ev_employer :: "extracted_fact option"
  ev_income :: "extracted_fact option"

definition evidence_of :: "stored_fact list \<Rightarrow> evidence" where
  "evidence_of facts =
     \<lparr>ev_synthetic_id = latest_fact SYNTHETIC_ID facts, ev_street = latest_fact STREET_ADDRESS facts,
      ev_city = latest_fact CITY facts, ev_employer = latest_fact EMPLOYER_NAME facts,
      ev_income = latest_fact GROSS_MONTHLY_INCOME facts\<rparr>"

type_synonym findings = "verification_check list \<times> response_snapshot list"

definition identity_step :: "'x verifiers \<Rightarrow> applicant \<Rightarrow> evidence \<Rightarrow> ('x, findings) handler" where
  "identity_step vf applicant ev =
     (case (ev_synthetic_id ev, ev_street ev, ev_city ev) of
        (Some sid, Some street, Some city) \<Rightarrow>
          bnd (external (vf_kyc vf (apl_given_name applicant) (apl_family_name applicant)
                 (apl_date_of_birth applicant) (fact_normalized sid) (fact_normalized street)
                 (fact_normalized city))) (\<lambda>r.
          bnd (lift_result (kyc_check applicant r)) (\<lambda>c. ret ([c], [kyc_snapshot r])))
      | _ \<Rightarrow> bnd (lift_result (mk_VerificationCheck (missing_check MOCK_KYC SYNTHETIC_ID
               ''identity document facts (synthetic ID / address) were not extracted'')))
             (\<lambda>c. ret ([c], [])))"

text \<open>\<open>declared_annual_income\<close>: \<open>None\<close> without the fact; zero is as good as none further on.\<close>

definition declared_income :: "evidence \<Rightarrow> py_error + int option" where
  "declared_income ev =
     (case ev_income ev of
        None \<Rightarrow> Inr None
      | Some f \<Rightarrow> bind_result (annual_income (fact_normalized f)) (\<lambda>n. Inr (Some n)))"

definition truthy :: "int option \<Rightarrow> int option" where
  "truthy n = (case n of Some i \<Rightarrow> if i = 0 then None else Some i | None \<Rightarrow> None)"

definition employment_step :: "'x verifiers \<Rightarrow> applicant \<Rightarrow> evidence \<Rightarrow> int option \<Rightarrow> ('x, findings) handler" where
  "employment_step vf applicant ev income =
     (case (ev_synthetic_id ev, ev_employer ev, truthy income) of
        (Some sid, Some employer, Some declared) \<Rightarrow>
          bnd (external (vf_employer vf (apl_given_name applicant) (apl_family_name applicant)
                 (fact_normalized sid) (fact_normalized employer) declared)) (\<lambda>r.
          bnd (lift_result (employment_check employer declared r)) (\<lambda>c. ret ([c], [employment_snapshot r])))
      | _ \<Rightarrow> bnd (lift_result (mk_VerificationCheck (missing_check MOCK_EMPLOYER EMPLOYER_NAME
               ''pay-stub facts (employer / income) were not extracted''))) (\<lambda>c. ret ([c], [])))"

definition bureau_step :: "'x verifiers \<Rightarrow> applicant \<Rightarrow> evidence \<Rightarrow> ('x, findings) handler" where
  "bureau_step vf applicant ev =
     (case ev_synthetic_id ev of
        Some sid \<Rightarrow>
          bnd (external (vf_bureau vf (apl_given_name applicant) (apl_family_name applicant)
                 (apl_date_of_birth applicant) (fact_normalized sid))) (\<lambda>r. ret ([], [bureau_snapshot r]))
      | None \<Rightarrow> ret ([], []))"

definition bank_step :: "'x verifiers \<Rightarrow> applicant \<Rightarrow> evidence \<Rightarrow> int option \<Rightarrow> ('x, findings) handler" where
  "bank_step vf applicant ev income =
     (case (ev_synthetic_id ev, truthy income) of
        (Some sid, Some declared) \<Rightarrow>
          bnd (external (vf_bank vf (apl_given_name applicant) (apl_family_name applicant)
                 (fact_normalized sid) declared)) (\<lambda>r. ret ([], [bank_snapshot r]))
      | _ \<Rightarrow> ret ([], []))"

text \<open>The four consultations in the order of the code.\<close>

definition consult :: "'x verifiers \<Rightarrow> applicant \<Rightarrow> evidence \<Rightarrow> ('x, findings) handler" where
  "consult vf applicant ev =
     bnd (identity_step vf applicant ev) (\<lambda>(c1, s1).
     bnd (lift_result (declared_income ev)) (\<lambda>income.
     bnd (employment_step vf applicant ev income) (\<lambda>(c2, s2).
     bnd (bureau_step vf applicant ev) (\<lambda>(c3, s3).
     bnd (bank_step vf applicant ev income) (\<lambda>(c4, s4).
       ret (c1 @ c2 @ c3 @ c4, s1 @ s2 @ s3 @ s4))))))"

definition verify_body :: "env \<Rightarrow> 'x verifiers \<Rightarrow> case_command \<Rightarrow> ('x, verification_result) handler" where
  "verify_body env vf c =
     bnd (reserve_or_raise env (c_tenant c) (c_key c) ''verify_application_facts'') (\<lambda>_.
     bnd (load_application (c_tenant c) (c_application c)) (\<lambda>a.
     bnd (applicant_get (c_tenant c) (app_applicant a)) (\<lambda>found.
     bnd (from_some (ApplicationNotFoundError (c_application c)) found) (\<lambda>applicant.
     bnd (get_facts env (c_tenant c) (c_application c)) (\<lambda>stored.
     bnd (consult vf applicant (evidence_of stored)) (\<lambda>(checks, snapshots).
     bnd (generate_id env) (\<lambda>run_id.
     bnd (map_each (\<lambda>_. generate_id env) checks) (\<lambda>check_ids.
     bnd (map_each (\<lambda>_. generate_id env) snapshots) (\<lambda>snapshot_ids.
     bnd (clock_now env) (\<lambda>now.
     bnd (add_verification_run env run_id (c_tenant c) (c_application c) checks check_ids snapshots
            snapshot_ids now) (\<lambda>_. ret
       \<lparr>ver_checks = checks, ver_contradictions = count_contradicted checks,
        ver_summary = build_verification_summary checks\<rparr>)))))))))))"

definition verify_application_facts ::
  "env \<Rightarrow> 'x verifiers \<Rightarrow> case_command \<Rightarrow> ('x, verification_result) handler" where
  "verify_application_facts env vf c = transaction (c_tenant c) (verify_body env vf c)"

subsection \<open>Frames and invariants\<close>

lemma consult_frames: "quiet (consult vf p ev)" "leaves q (consult vf p ev)" "confined (consult vf p ev)"
  unfolding consult_def identity_step_def employment_step_def bureau_step_def bank_step_def
  by (intro quiet_intros, intro leaves_intros, intro confined_intros)

declare consult_frames(1) [quiet_intros] consult_frames(2) [leaves_intros] consult_frames(3) [confined_intros]

lemma verify_frames:
  "quiet (verify_body env vf c)" "leaves case_part (verify_body env vf c)"
  "leaves ledger_part (verify_body env vf c)" "confined (verify_body env vf c)"
  unfolding verify_body_def
  by (intro quiet_intros, intro leaves_intros, intro leaves_intros, intro confined_intros)

declare verify_frames(1) [quiet_intros] verify_frames(4) [confined_intros]

lemma keeps_verify_body [keeps_intros]:
  "keeps case_inv (verify_body env vf c)" "keeps (ledger_ok sha) (verify_body env vf c)"
  using keeps_case_leaves [OF verify_frames(2)] keeps_ledger_leaves [OF verify_frames(3)] by blast+

end
