(* ===== verification/Verdicts.thy ===== *)
theory Verdicts
  imports Verification
begin

text \<open>
  What fact verification concludes: the exact meaning of the income check behind its float
  arithmetic, the way a declared income survives the pay stub, the rows a run leaves behind, and
  the external calls that are not made without an identity.
\<close>

subsection \<open>The income check\<close>

lemma fl_one [simp]: "fl 1 = 1"
  by (simp add: fl_def fl_pos_def Let_def exponent2_eqI [of 1 0] pow2_def)
    (metis of_int_numeral of_int_power round_half_even_of_int)

lemma truediv_no_overflow:
  assumes "\<bar>n\<bar> < 2 ^ 950" "0 < d"
  shows "int_truediv n d = Inr (fl (of_int n / of_int d))"
proof -
  have "\<bar>of_int n / of_int d :: rat\<bar> \<le> \<bar>of_int n\<bar>"
    using assms(2) by (simp add: abs_div divide_le_eq mult_le_cancel_left1)
  also have "\<dots> \<le> 2 ^ 950"
    using assms(1) by (metis of_int_abs of_int_le_iff of_int_numeral of_int_power order_less_imp_le)
  also have "\<dots> \<le> 2 ^ 1000" by (rule power_increasing) simp_all
  finally have "\<not> fl_overflows (of_int n / of_int d)" by (rule fl_no_overflow)
  with assms(2) show ?thesis by (simp add: int_truediv_def)
qed

lemma employment_check_exact:
  assumes "0 < declared" "declared < 2 ^ 50" "\<bar>emp_income r\<bar> < 2 ^ 900"
  shows "\<exists>c. employment_check f declared r = Inr c \<and>
    (chk_verdict c = MATCHED \<longleftrightarrow> emp_confirmed r \<and> 5 * \<bar>emp_income r - declared\<bar> \<le> declared) \<and>
    (chk_verdict c \<noteq> MATCHED \<longrightarrow> chk_verdict c = CONTRADICTED) \<and>
    0 \<le> chk_confidence c \<and> chk_confidence c \<le> 1"
proof -
  define gap where "gap = \<bar>emp_income r - declared\<bar>"
  define x :: rat where "x = fl (of_int gap / of_int declared)"
  have "gap < 2 ^ 900 + 2 ^ 50" using assms by (simp add: gap_def abs_if split: if_splits)
  also have "(2 :: int) ^ 900 + 2 ^ 50 < 2 ^ 950" by simp
  finally have "\<bar>gap\<bar> < 2 ^ 950" by (simp add: gap_def)
  from truediv_no_overflow [OF this assms(1)] have div: "int_truediv gap declared = Inr x"
    by (simp add: x_def)
  have le: "x \<le> float_0_2 \<longleftrightarrow> 5 * gap \<le> declared"
    using truediv_le_fifth [of gap declared] assms(1,2) by (simp add: x_def gap_def)
  have "0 \<le> x" using fl_mono [of 0 "of_int gap / of_int declared"] assms(1) by (simp add: x_def gap_def)
  then have "fl (1 - min x 1) \<le> 1" using fl_mono [of "1 - min x 1" 1] by simp
  with div le show ?thesis
    by (auto simp: employment_check_def gap_def employment_matched_def verdict_of_def)
qed

text \<open>C38: the income check is exact.  For a positive declared income below \<open>2^50\<close> dollars and a
  verified income of any realistic size the check is built without an error, and its verdict is
  MATCHED exactly when employment is confirmed and the two incomes differ by at most one fifth of
  the declared one, as integers: the float division and the float threshold \<open>0.2\<close> lose nothing.
  Otherwise it is CONTRADICTED.\<close>

theorem employment_verdict_exact:
  assumes "0 < declared" "declared < 2 ^ 50" "\<bar>emp_income r\<bar> < 2 ^ 900"
  shows "\<exists>c. employment_check f declared r = Inr c \<and>
    (chk_verdict c = MATCHED \<longleftrightarrow> emp_confirmed r \<and> 5 * \<bar>emp_income r - declared\<bar> \<le> declared) \<and>
    (chk_verdict c \<noteq> MATCHED \<longrightarrow> chk_verdict c = CONTRADICTED) \<and>
    0 \<le> chk_confidence c \<and> chk_confidence c \<le> 1"
  by (rule employment_check_exact [OF assms])

theorem employment_verdict_exact_witness:
  "\<forall>f. (\<exists>c. employment_check f 60000 \<lparr>emp_confirmed = True, emp_income = 72000, emp_tenure = 3\<rparr> = Inr c
     \<and> chk_verdict c = MATCHED) \<and>
   (\<exists>c. employment_check f 60000 \<lparr>emp_confirmed = True, emp_income = 72001, emp_tenure = 3\<rparr> = Inr c
     \<and> chk_verdict c = CONTRADICTED)"
  using employment_verdict_exact [of 60000 "\<lparr>emp_confirmed = True, emp_income = 72000, emp_tenure = 3\<rparr>"]
    employment_verdict_exact [of 60000 "\<lparr>emp_confirmed = True, emp_income = 72001, emp_tenure = 3\<rparr>"]
  by auto

subsection \<open>The rows of a run\<close>

definition check_row_of :: "string \<Rightarrow> case_command \<Rightarrow> datetime \<Rightarrow> string \<times> verification_check \<Rightarrow> check_row" where
  "check_row_of run c now x = (case x of (i, k) \<Rightarrow>
     \<lparr>cr_id = i, cr_run = run, cr_tenant = c_tenant c, cr_application = c_application c,
      cr_source = source_system_value (chk_source k), cr_fact_type = chk_fact_type k,
      cr_declared = chk_declared k, cr_external = chk_external k,
      cr_verdict = verdict_value (chk_verdict k), cr_confidence = chk_confidence k,
      cr_detail = chk_detail k, cr_created_at = now\<rparr>)"

definition snapshot_row_of :: "string \<Rightarrow> case_command \<Rightarrow> datetime \<Rightarrow> string \<times> response_snapshot \<Rightarrow> snapshot_row" where
  "snapshot_row_of run c now x = (case x of (i, src, payload) \<Rightarrow>
     \<lparr>sr_id = i, sr_run = run, sr_tenant = c_tenant c, sr_application = c_application c,
      sr_source = source_system_value src, sr_payload = payload, sr_captured_at = now\<rparr>)"

definition contradiction_row_of :: "case_command \<Rightarrow> datetime \<Rightarrow> string \<Rightarrow> string \<times> verification_check \<Rightarrow> contradiction_row" where
  "contradiction_row_of c now j x = (case x of (i, k) \<Rightarrow>
     \<lparr>co_id = j, co_check = i, co_tenant = c_tenant c, co_application = c_application c,
      co_source = source_system_value (chk_source k), co_fact_type = chk_fact_type k,
      co_detail = chk_detail k, co_created_at = now\<rparr>)"

abbreviation contradicted :: "string \<times> verification_check \<Rightarrow> bool" where
  "contradicted x \<equiv> chk_verdict (snd x) = CONTRADICTED"

lemma contradictions_effect:
  assumes "map_each (\<lambda>x. if contradicted x
      then bnd (generate_id env) (\<lambda>j. execute (insert_contradiction (contradiction_row_of c now j x)))
      else ret ()) xs w = (Inr us, w')"
  shows "\<exists>js. length js = length (filter contradicted xs) \<and> w_sess w' = (w_sess w)
    \<lparr>db_contradictions := db_contradictions (w_sess w) @ map2 (contradiction_row_of c now) js (filter contradicted xs)\<rparr>"
  using assms
proof (induction xs arbitrary: w us)
  case (Cons x xs)
  from Cons.prems obtain w1 vs where step: "(if contradicted x
      then bnd (generate_id env) (\<lambda>j. execute (insert_contradiction (contradiction_row_of c now j x)))
      else ret ()) w = (Inr (), w1)"
    and rest: "map_each (\<lambda>x. if contradicted x
      then bnd (generate_id env) (\<lambda>j. execute (insert_contradiction (contradiction_row_of c now j x)))
      else ret ()) xs w1 = (Inr vs, w')"
    by (auto elim!: bnd_InrE)
  from Cons.IH [OF rest] obtain js where js: "length js = length (filter contradicted xs)"
    "w_sess w' = (w_sess w1)\<lparr>db_contradictions := db_contradictions (w_sess w1) @
       map2 (contradiction_row_of c now) js (filter contradicted xs)\<rparr>" by blast
  show ?case
  proof (cases "contradicted x")
    case True
    with step have "w_sess w1 = (w_sess w)\<lparr>db_contradictions := db_contradictions (w_sess w) @
        [contradiction_row_of c now (e_uuid env (w_ids w)) x]\<rparr>"
      by (auto elim!: bnd_InrE execute_InrE simp: insert_contradiction_def bind_result_Inr_iff)
    with True js show ?thesis by (intro exI [of _ "e_uuid env (w_ids w) # js"]) simp
  next
    case False
    with step js show ?thesis by auto
  qed
qed auto

lemma add_verification_run_effect:
  assumes "add_verification_run env run (c_tenant c) (c_application c) checks cids snaps sids now w = (Inr u, w')"
  shows "length cids = length checks \<and> length sids = length snaps \<and>
    (\<exists>js. length js = count_contradicted checks \<and> w_sess w' = (w_sess w)
      \<lparr>db_verification_runs := db_verification_runs (w_sess w) @
         [\<lparr>vn_run = run, vn_tenant = c_tenant c, vn_application = c_application c,
           vn_check_count = length checks, vn_contradiction_count = count_contradicted checks,
           vn_completed_at = now\<rparr>],
       db_checks := db_checks (w_sess w) @ map (check_row_of run c now) (zip cids checks),
       db_snapshots := db_snapshots (w_sess w) @ map (snapshot_row_of run c now) (zip sids snaps),
       db_contradictions := db_contradictions (w_sess w) @
         map2 (contradiction_row_of c now) js (filter contradicted (zip cids checks))\<rparr>)"
proof -
  from assms obtain w1 w2 w3 us vs ks where len: "length checks = length cids" "length snaps = length sids"
    and run: "execute (insert_verification_run \<lparr>vn_run = run, vn_tenant = c_tenant c,
        vn_application = c_application c, vn_check_count = length checks,
        vn_contradiction_count = count_contradicted checks, vn_completed_at = now\<rparr>) w = (Inr (), w1)"
    and cs: "map_each (\<lambda>x. execute (insert_check (check_row_of run c now x))) (zip cids checks) w1 = (Inr us, w2)"
    and ss: "map_each (\<lambda>x. execute (insert_snapshot (snapshot_row_of run c now x))) (zip sids snaps) w2 = (Inr vs, w3)"
    and ks: "map_each (\<lambda>x. if contradicted x
      then bnd (generate_id env) (\<lambda>j. execute (insert_contradiction (contradiction_row_of c now j x)))
      else ret ()) (zip cids checks) w3 = (Inr ks, w')"
    unfolding add_verification_run_def check_row_of_def snapshot_row_of_def contradiction_row_of_def case_prod_beta
    by (auto elim!: bnd_InrE split: if_splits)
  have "w2 = w1\<lparr>w_sess := (w_sess w1)\<lparr>db_checks := db_checks (w_sess w1) @ map (check_row_of run c now) (zip cids checks)\<rparr>\<rparr>"
    by (rule map_each_appends [where ins = insert_check and upd = "\<lambda>g d. d\<lparr>db_checks := g (db_checks d)\<rparr>", OF cs])
      (auto simp: insert_check_def bind_result_Inr_iff)
  moreover have "w3 = w2\<lparr>w_sess := (w_sess w2)\<lparr>db_snapshots := db_snapshots (w_sess w2) @ map (snapshot_row_of run c now) (zip sids snaps)\<rparr>\<rparr>"
    by (rule map_each_appends [where ins = insert_snapshot and upd = "\<lambda>g d. d\<lparr>db_snapshots := g (db_snapshots d)\<rparr>", OF ss])
      (auto simp: insert_snapshot_def bind_result_Inr_iff)
  moreover have "length (filter contradicted (zip cids checks)) = count_contradicted checks"
  proof -
    have "map snd (filter (\<lambda>x. chk_verdict (snd x) = CONTRADICTED) (zip cids checks))
        = filter (\<lambda>k. chk_verdict k = CONTRADICTED) (map snd (zip cids checks))"
      by (simp add: filter_map comp_def)
    then show ?thesis using len(1) unfolding count_contradicted_def by (metis length_map map_snd_zip)
  qed
  ultimately show ?thesis using run len contradictions_effect [OF ks]
    by (auto elim!: execute_InrE simp: insert_verification_run_def bind_result_Inr_iff)
qed

lemma reserve_effect:
  assumes "reserve_or_raise env t k op w = (Inr u, w')" "w_scope w = t"
  shows "\<not> reserved (w_sess w) t op k" "w' = w\<lparr>w_clk := w_clk w + 1,
    w_sess := (w_sess w)\<lparr>db_idempotency_keys := db_idempotency_keys (w_sess w) @
      [\<lparr>ik_tenant = t, ik_operation = op, ik_key = k, ik_reserved_at = e_clock env (w_clk w)\<rparr>]\<rparr>\<rparr>"
  using assms(1) by (simp_all add: reserve_or_raise_cases [OF assms(2)] split: if_splits)

lemma consult_checks:
  assumes "consult vf p ev w = (Inr (cs, ss), w')"
  shows "map chk_source cs = [MOCK_KYC, MOCK_EMPLOYER]" "list_all (\<lambda>k. mk_VerificationCheck k = Inr k) cs"
proof -
  from assms obtain c1 s1 c2 s2 c3 s3 c4 s4 wa wb wc wd we income where
    a: "identity_step vf p ev w = (Inr (c1, s1), wa)"
    and b: "employment_step vf p ev income wb = (Inr (c2, s2), wc)"
    and c: "bureau_step vf p ev wc = (Inr (c3, s3), wd)"
    and d: "bank_step vf p ev income wd = (Inr (c4, s4), we)"
    and cs: "cs = c1 @ c2 @ c3 @ c4"
    unfolding consult_def by (auto elim!: bnd_InrE split: prod.splits)
  have "map chk_source c1 = [MOCK_KYC] \<and> list_all (\<lambda>k. mk_VerificationCheck k = Inr k) c1"
    using a unfolding identity_step_def
    by (auto elim!: bnd_InrE simp: kyc_check_def missing_check_def split: option.splits)
  moreover have "map chk_source c2 = [MOCK_EMPLOYER] \<and> list_all (\<lambda>k. mk_VerificationCheck k = Inr k) c2"
    using b unfolding employment_step_def
    by (auto elim!: bnd_InrE simp: employment_check_def missing_check_def bind_result_Inr_iff split: option.splits)
  moreover have "c3 = []" "c4 = []"
    using c d unfolding bureau_step_def bank_step_def by (auto elim!: bnd_InrE split: option.splits)
  ultimately show "map chk_source cs = [MOCK_KYC, MOCK_EMPLOYER]"
    "list_all (\<lambda>k. mk_VerificationCheck k = Inr k) cs" by (simp_all add: cs)
qed

subsection \<open>The answers of the external systems\<close>

text \<open>What a system answered, and the snapshot that records it.\<close>

datatype response = Kyc_Response kyc_result | Employment_Response employment_result
  | Bureau_Response credit_report | Bank_Response transaction_history

primrec snapshot_for :: "response \<Rightarrow> response_snapshot" where
  "snapshot_for (Kyc_Response r) = kyc_snapshot r"
| "snapshot_for (Employment_Response r) = employment_snapshot r"
| "snapshot_for (Bureau_Response r) = bureau_snapshot r"
| "snapshot_for (Bank_Response r) = bank_snapshot r"

text \<open>\<open>answered vf x rs y\<close>: calls to the systems, one after the other, took the outside world from \<open>x\<close> to \<open>y\<close>,
  and \<open>rs\<close> are their answers.\<close>

inductive answered :: "'x verifiers \<Rightarrow> 'x \<Rightarrow> response list \<Rightarrow> 'x \<Rightarrow> bool" where
  No_Call: "answered vf x [] x"
| Kyc_Call: "vf_kyc vf g f b i s c x = (Inr r, y) \<Longrightarrow> answered vf y rs z \<Longrightarrow> answered vf x (Kyc_Response r # rs) z"
| Employer_Call: "vf_employer vf g f i e n x = (Inr r, y) \<Longrightarrow> answered vf y rs z \<Longrightarrow>
    answered vf x (Employment_Response r # rs) z"
| Bureau_Call: "vf_bureau vf g f b i x = (Inr r, y) \<Longrightarrow> answered vf y rs z \<Longrightarrow> answered vf x (Bureau_Response r # rs) z"
| Bank_Call: "vf_bank vf g f i n x = (Inr r, y) \<Longrightarrow> answered vf y rs z \<Longrightarrow> answered vf x (Bank_Response r # rs) z"

inductive_cases answered_KycE: "answered vf x (Kyc_Response r # rs) z"

lemma answered_append: "answered vf x rs y \<Longrightarrow> answered vf y ss z \<Longrightarrow> answered vf x (rs @ ss) z"
  by (induction rule: answered.induct) (auto intro: answered.intros)

text \<open>Which systems the evidence lets the handler ask, and the verdict on the identity an answer gives.\<close>

definition consulted :: "evidence \<Rightarrow> int option \<Rightarrow> source_system list" where
  "consulted ev income =
     (let known = ev_synthetic_id ev \<noteq> None; paid = truthy income \<noteq> None in
      (if known \<and> ev_street ev \<noteq> None \<and> ev_city ev \<noteq> None then [MOCK_KYC] else []) @
      (if known \<and> ev_employer ev \<noteq> None \<and> paid then [MOCK_EMPLOYER] else []) @
      (if known then [MOCK_BUREAU] else []) @ (if known \<and> paid then [MOCK_CORE_BANKING] else []))"

definition identity_verdict :: "response list \<Rightarrow> verification_verdict" where
  "identity_verdict rs = (case rs of Kyc_Response r # _ \<Rightarrow> verdict_of (kyc_matched r) | _ \<Rightarrow> INSUFFICIENT_EVIDENCE)"

lemma external_InrE:
  assumes "external f w = (Inr r, w')"
  shows "f (w_ext w) = (Inr r, w_ext w')"
  using assms by (auto simp: external_def split: prod.splits)

lemma identity_answers:
  assumes "identity_step vf p ev w = (Inr (cs, ss), w')"
  shows "\<exists>rs. answered vf (w_ext w) rs (w_ext w') \<and> ss = map snapshot_for rs \<and>
    map fst ss = (if ev_synthetic_id ev \<noteq> None \<and> ev_street ev \<noteq> None \<and> ev_city ev \<noteq> None then [MOCK_KYC] else []) \<and>
    map chk_verdict cs = [identity_verdict rs] \<and> (\<forall>r \<in> set rs. \<exists>k. r = Kyc_Response k)"
proof (cases "ev_synthetic_id ev \<noteq> None \<and> ev_street ev \<noteq> None \<and> ev_city ev \<noteq> None")
  case True
  then obtain sid street city where ev: "ev_synthetic_id ev = Some sid" "ev_street ev = Some street" "ev_city ev = Some city"
    by auto
  from assms obtain r k w1 where ask: "external (vf_kyc vf (apl_given_name p) (apl_family_name p)
      (apl_date_of_birth p) (fact_normalized sid) (fact_normalized street) (fact_normalized city)) w = (Inr r, w1)"
    and k: "kyc_check p r = Inr k" and out: "cs = [k]" "ss = [kyc_snapshot r]" "w' = w1"
    unfolding identity_step_def ev by (auto elim!: bnd_InrE)
  have "answered vf (w_ext w) [Kyc_Response r] (w_ext w')"
    unfolding out(3) by (rule Kyc_Call [OF external_InrE [OF ask] No_Call])
  with ev k show ?thesis
    by (intro exI [of _ "[Kyc_Response r]"]) (auto simp: out kyc_snapshot_def identity_verdict_def kyc_check_def)
next
  case False
  with assms show ?thesis
    unfolding identity_step_def
    by (intro exI [of _ "[]"]) (auto elim!: bnd_InrE simp: No_Call identity_verdict_def missing_check_def split: option.splits)
qed

lemma employment_answers:
  assumes "employment_step vf p ev income w = (Inr (cs, ss), w')"
  shows "\<exists>rs. answered vf (w_ext w) rs (w_ext w') \<and> ss = map snapshot_for rs \<and>
    map fst ss = (if ev_synthetic_id ev \<noteq> None \<and> ev_employer ev \<noteq> None \<and> truthy income \<noteq> None then [MOCK_EMPLOYER] else []) \<and>
    map (\<lambda>k. chk_verdict k = INSUFFICIENT_EVIDENCE) cs = [rs = []] \<and> (\<forall>r \<in> set rs. \<exists>k. r = Employment_Response k)"
proof (cases "ev_synthetic_id ev \<noteq> None \<and> ev_employer ev \<noteq> None \<and> truthy income \<noteq> None")
  case True
  then obtain sid employer declared where ev: "ev_synthetic_id ev = Some sid" "ev_employer ev = Some employer"
    "truthy income = Some declared" by auto
  from assms obtain r k w1 where ask: "external (vf_employer vf (apl_given_name p) (apl_family_name p)
      (fact_normalized sid) (fact_normalized employer) declared) w = (Inr r, w1)"
    and k: "employment_check employer declared r = Inr k" and out: "cs = [k]" "ss = [employment_snapshot r]" "w' = w1"
    unfolding employment_step_def ev by (auto elim!: bnd_InrE)
  have "answered vf (w_ext w) [Employment_Response r] (w_ext w')"
    unfolding out(3) by (rule Employer_Call [OF external_InrE [OF ask] No_Call])
  with ev k show ?thesis
    by (intro exI [of _ "[Employment_Response r]"])
      (auto simp: out employment_snapshot_def employment_check_def verdict_of_def bind_result_Inr_iff split: if_splits)
next
  case False
  with assms show ?thesis
    unfolding employment_step_def
    by (intro exI [of _ "[]"]) (auto elim!: bnd_InrE simp: No_Call missing_check_def split: option.splits)
qed

lemma bureau_answers:
  assumes "bureau_step vf p ev w = (Inr (cs, ss), w')"
  shows "\<exists>rs. answered vf (w_ext w) rs (w_ext w') \<and> ss = map snapshot_for rs \<and>
    map fst ss = (if ev_synthetic_id ev \<noteq> None then [MOCK_BUREAU] else []) \<and> (\<forall>r \<in> set rs. \<exists>k. r = Bureau_Response k)"
proof (cases "ev_synthetic_id ev")
  case None
  with assms show ?thesis by (intro exI [of _ "[]"]) (simp add: bureau_step_def No_Call)
next
  case (Some sid)
  with assms obtain r w1 where ask: "external (vf_bureau vf (apl_given_name p) (apl_family_name p)
      (apl_date_of_birth p) (fact_normalized sid)) w = (Inr r, w1)" and out: "ss = [bureau_snapshot r]" "w' = w1"
    unfolding bureau_step_def by (auto elim!: bnd_InrE)
  have "answered vf (w_ext w) [Bureau_Response r] (w_ext w')"
    unfolding out(2) by (rule Bureau_Call [OF external_InrE [OF ask] No_Call])
  with Some show ?thesis by (intro exI [of _ "[Bureau_Response r]"]) (simp add: out bureau_snapshot_def)
qed

lemma bank_answers:
  assumes "bank_step vf p ev income w = (Inr (cs, ss), w')"
  shows "\<exists>rs. answered vf (w_ext w) rs (w_ext w') \<and> ss = map snapshot_for rs \<and>
    map fst ss = (if ev_synthetic_id ev \<noteq> None \<and> truthy income \<noteq> None then [MOCK_CORE_BANKING] else []) \<and>
    (\<forall>r \<in> set rs. \<exists>k. r = Bank_Response k)"
proof (cases "ev_synthetic_id ev \<noteq> None \<and> truthy income \<noteq> None")
  case False
  with assms show ?thesis
    by (intro exI [of _ "[]"]) (auto simp: bank_step_def No_Call split: option.splits)
next
  case True
  then obtain sid declared where ev: "ev_synthetic_id ev = Some sid" "truthy income = Some declared" by auto
  with assms obtain r w1 where ask: "external (vf_bank vf (apl_given_name p) (apl_family_name p)
      (fact_normalized sid) declared) w = (Inr r, w1)" and out: "ss = [bank_snapshot r]" "w' = w1"
    unfolding bank_step_def by (auto elim!: bnd_InrE)
  have "answered vf (w_ext w) [Bank_Response r] (w_ext w')"
    unfolding out(2) by (rule Bank_Call [OF external_InrE [OF ask] No_Call])
  with ev show ?thesis by (intro exI [of _ "[Bank_Response r]"]) (simp add: out bank_snapshot_def)
qed

lemma lift_ext: "lift_result r w = (Inr x, w') \<Longrightarrow> w_ext w' = w_ext w \<and> r = Inr x"
  by simp

lemma consult_answers:
  assumes "consult vf p ev w = (Inr (cs, ss), w')"
  shows "\<exists>rs income. declared_income ev = Inr income \<and> answered vf (w_ext w) rs (w_ext w') \<and> ss = map snapshot_for rs \<and>
    map fst ss = consulted ev income \<and> chk_verdict (cs ! 0) = identity_verdict rs \<and>
    (chk_verdict (cs ! 1) = INSUFFICIENT_EVIDENCE \<longleftrightarrow> MOCK_EMPLOYER \<notin> set (consulted ev income))"
proof -
  from assms obtain c1 s1 c2 s2 c3 s3 c4 s4 wa wb wc wd income where
    a: "identity_step vf p ev w = (Inr (c1, s1), wa)"
    and i: "lift_result (declared_income ev) wa = (Inr income, wb)"
    and b: "employment_step vf p ev income wb = (Inr (c2, s2), wc)"
    and c: "bureau_step vf p ev wc = (Inr (c3, s3), wd)"
    and d: "bank_step vf p ev income wd = (Inr (c4, s4), w')"
    and out: "cs = c1 @ c2 @ c3 @ c4" "ss = s1 @ s2 @ s3 @ s4"
    unfolding consult_def by (auto elim!: bnd_InrE split: prod.splits)
  obtain r1 where r1: "answered vf (w_ext w) r1 (w_ext wa)" "s1 = map snapshot_for r1"
    "map fst s1 = (if ev_synthetic_id ev \<noteq> None \<and> ev_street ev \<noteq> None \<and> ev_city ev \<noteq> None then [MOCK_KYC] else [])"
    "map chk_verdict c1 = [identity_verdict r1]" "\<forall>r \<in> set r1. \<exists>k. r = Kyc_Response k"
    using identity_answers [OF a] by (elim exE conjE) (rule that)
  obtain r2 where r2: "answered vf (w_ext wb) r2 (w_ext wc)" "s2 = map snapshot_for r2"
    "map fst s2 = (if ev_synthetic_id ev \<noteq> None \<and> ev_employer ev \<noteq> None \<and> truthy income \<noteq> None then [MOCK_EMPLOYER] else [])"
    "map (\<lambda>k. chk_verdict k = INSUFFICIENT_EVIDENCE) c2 = [r2 = []]" "\<forall>r \<in> set r2. \<exists>k. r = Employment_Response k"
    using employment_answers [OF b] by (elim exE conjE) (rule that)
  obtain r3 where r3: "answered vf (w_ext wc) r3 (w_ext wd)" "s3 = map snapshot_for r3"
    "map fst s3 = (if ev_synthetic_id ev \<noteq> None then [MOCK_BUREAU] else [])" "\<forall>r \<in> set r3. \<exists>k. r = Bureau_Response k"
    using bureau_answers [OF c] by (elim exE conjE) (rule that)
  obtain r4 where r4: "answered vf (w_ext wd) r4 (w_ext w')" "s4 = map snapshot_for r4"
    "map fst s4 = (if ev_synthetic_id ev \<noteq> None \<and> truthy income \<noteq> None then [MOCK_CORE_BANKING] else [])"
    "\<forall>r \<in> set r4. \<exists>k. r = Bank_Response k"
    using bank_answers [OF d] by (elim exE conjE) (rule that)
  from i have income: "declared_income ev = Inr income" "w_ext wb = w_ext wa" using lift_ext [OF i] by auto
  obtain k1 k2 where ks: "c1 = [k1]" "c2 = [k2]" using r1(4) r2(4) by (auto simp: map_eq_Cons_conv)
  have verdict: "identity_verdict (r1 @ r2 @ r3 @ r4) = identity_verdict r1"
    using r2(5) r3(4) r4(4) by (cases r1; cases r2; cases r3; cases r4) (simp_all add: identity_verdict_def split: response.split, auto)
  have fsts: "map fst ss = consulted ev income"
    by (simp only: out map_append r1(3) r2(3) r3(3) r4(3)) (simp add: consulted_def Let_def)
  have "r2 = [] \<longleftrightarrow> map fst s2 = []" by (simp add: r2(2))
  also have "\<dots> \<longleftrightarrow> MOCK_EMPLOYER \<notin> set (consulted ev income)" unfolding r2(3) by (auto simp: consulted_def Let_def)
  finally have second: "chk_verdict k2 = INSUFFICIENT_EVIDENCE \<longleftrightarrow> MOCK_EMPLOYER \<notin> set (consulted ev income)"
    using r2(4) by (simp add: ks)
  have "answered vf (w_ext w) (r1 @ r2 @ r3 @ r4) (w_ext w')"
    by (intro answered_append [OF r1(1)] answered_append [OF r2(1) [unfolded income(2)]] answered_append [OF r3(1)] r4(1))
  then show ?thesis
    using income(1) fsts second verdict r1(2,4) r2(2) r3(2) r4(2)
    by (intro exI [of _ "r1 @ r2 @ r3 @ r4"] exI [of _ income]) (simp add: out ks)
qed

lemma silent_add_verification_run [silent_intros]:
  "silent (add_verification_run env run t k cs cids ss sids now)"
  unfolding add_verification_run_def case_prod_beta by (intro silent_intros)

lemma get_facts_rows:
  assumes "get_facts env t k w = (Inr stored, w')" "w_scope w = t"
  shows "list_all2 (\<lambda>r sf. row_to_stored_fact r = Inr sf)
    (e_order_facts env (filter (\<lambda>r. fr_tenant r = t \<and> fr_application r = k) (db_facts (w_sess w)))) stored"
proof -
  have "filter (\<lambda>r. fr_tenant r = t \<and> fr_application r = k) (visible fr_tenant t (db_facts (w_sess w))) =
      filter (\<lambda>r. fr_tenant r = t \<and> fr_application r = k) (db_facts (w_sess w))"
    by (induction "db_facts (w_sess w)") (auto simp: visible_def intro: filter_cong)
  with assms show ?thesis
    unfolding get_facts_def by (auto elim!: bnd_InrE dest!: map_each_lift)
qed

text \<open>C28: what a successful verification run stored.  From the case's stored facts it is fixed which external
  systems are asked, and \<open>rs\<close> are the answers they gave, in the order of the calls.  Exactly two checks were made,
  the identity check, whose verdict is the one its answer calls for, and then the income check, which lacks evidence
  exactly when the employer was not asked.  The run row counts them and the contradicted ones; there is one
  contradiction row for each contradicted check and for no other; there is one snapshot row for each answer, in
  order, with the answering system and the payload of that answer; and apart from these rows and the reserved key
  the database is what it was: verification never changes the case, the facts it read, or the audit log.\<close>

theorem verify_application_facts_effect:
  assumes "verify_application_facts env vf c w = (Inr res, w')"
  shows "\<exists>stored income rs run now cids sids js key.
    list_all2 (\<lambda>r sf. row_to_stored_fact r = Inr sf)
      (e_order_facts env (filter (\<lambda>r. fr_tenant r = c_tenant c \<and> fr_application r = c_application c) (db_facts (w_db w)))) stored \<and>
    declared_income (evidence_of stored) = Inr income \<and>
    answered vf (w_ext w) rs (w_ext w') \<and>
    map (fst \<circ> snapshot_for) rs = consulted (evidence_of stored) income \<and>
    map chk_source (ver_checks res) = [MOCK_KYC, MOCK_EMPLOYER] \<and>
    chk_verdict (ver_checks res ! 0) = identity_verdict rs \<and>
    (chk_verdict (ver_checks res ! 1) = INSUFFICIENT_EVIDENCE \<longleftrightarrow> MOCK_EMPLOYER \<notin> set (consulted (evidence_of stored) income)) \<and>
    ver_contradictions res = count_contradicted (ver_checks res) \<and>
    ver_summary res = build_verification_summary (ver_checks res) \<and>
    length cids = 2 \<and> length sids = length rs \<and> length js = ver_contradictions res \<and>
    ik_operation key = ''verify_application_facts'' \<and> ik_key key = c_key c \<and> ik_tenant key = c_tenant c \<and>
    w_db w' = (w_db w)
      \<lparr>db_idempotency_keys := db_idempotency_keys (w_db w) @ [key],
       db_verification_runs := db_verification_runs (w_db w) @
         [\<lparr>vn_run = run, vn_tenant = c_tenant c, vn_application = c_application c, vn_check_count = 2,
           vn_contradiction_count = ver_contradictions res, vn_completed_at = now\<rparr>],
       db_checks := db_checks (w_db w) @ map (check_row_of run c now) (zip cids (ver_checks res)),
       db_snapshots := db_snapshots (w_db w) @ map (snapshot_row_of run c now) (zip sids (map snapshot_for rs)),
       db_contradictions := db_contradictions (w_db w) @
         map2 (contradiction_row_of c now) js (filter contradicted (zip cids (ver_checks res)))\<rparr>"
proof -
  let ?key = "\<lparr>ik_tenant = c_tenant c, ik_operation = ''verify_application_facts'', ik_key = c_key c, ik_reserved_at = e_clock env (w_clk w)\<rparr>"
  from assms obtain w1 where body: "verify_body env vf c (aenter (c_tenant c) w) = (Inr res, w1)"
    "w_db w' = w_sess w1" "w_ext w' = w_ext w1"
    unfolding verify_application_facts_def by (rule transaction_success)
  from body(1) obtain wa a wb p wc stored wd checks snaps we cids wf sids wg run now where
    r: "reserve_or_raise env (c_tenant c) (c_key c) ''verify_application_facts'' (aenter (c_tenant c) w) = (Inr (), wa)"
    and l: "load_application (c_tenant c) (c_application c) wa = (Inr a, wb)"
    and p: "applicant_get (c_tenant c) (app_applicant a) wb = (Inr (Some p), wc)"
    and f: "get_facts env (c_tenant c) (c_application c) wc = (Inr stored, wd)"
    and k: "consult vf p (evidence_of stored) wd = (Inr (checks, snaps), we)"
    and ci: "map_each (\<lambda>_. generate_id env) checks (we\<lparr>w_ids := Suc (w_ids we)\<rparr>) = (Inr cids, wf)"
    and si: "map_each (\<lambda>_. generate_id env) snaps wf = (Inr sids, wg)"
    and add: "add_verification_run env run (c_tenant c) (c_application c) checks cids snaps sids now
      (wg\<lparr>w_clk := Suc (w_clk wg)\<rparr>) = (Inr (), w1)"
    and res: "res = \<lparr>ver_checks = checks, ver_contradictions = count_contradicted checks,
        ver_summary = build_verification_summary checks\<rparr>"
    unfolding verify_body_def by (auto elim!: bnd_InrE split: option.splits prod.splits)
  have wa: "wa = (aenter (c_tenant c) w)\<lparr>w_clk := w_clk w + 1, w_sess := (w_db w)\<lparr>db_idempotency_keys := db_idempotency_keys (w_db w) @ [?key]\<rparr>\<rparr>"
    using reserve_effect(2) [OF r] by simp
  have wc: "w_sess wc = w_sess wa" "w_scope wc = c_tenant c" "w_ext wc = w_ext w"
    using leavesD [OF leaves_queries(12) l, of id] leavesD [OF leaves_queries(3) p, of id]
      staysD [OF quiet_shared(1) l] staysD [OF quiet_repositories(5) p]
      staysD [OF silent_operations(3) l] staysD [OF silent_operations(4) p] by (simp_all add: wa same_committed_def)
  obtain rs income where rs: "declared_income (evidence_of stored) = Inr income" "answered vf (w_ext wd) rs (w_ext we)"
      "snaps = map snapshot_for rs" "map fst snaps = consulted (evidence_of stored) income"
      "chk_verdict (checks ! 0) = identity_verdict rs"
      "chk_verdict (checks ! 1) = INSUFFICIENT_EVIDENCE \<longleftrightarrow> MOCK_EMPLOYER \<notin> set (consulted (evidence_of stored) income)"
    using consult_answers [OF k] by (elim exE conjE) (rule that)
  have ext: "w_ext wd = w_ext w" "w_ext we = w_ext w'"
    using wc(3) staysD [OF silent_operations(5) f] staysD [OF silent_map_each [OF silent_primitives(2)] ci]
      staysD [OF silent_map_each [OF silent_primitives(2)] si] staysD [OF silent_add_verification_run add]
    by (simp_all add: body(3))
  have sess: "w_sess wg = w_sess wa"
    using wc(1) leavesD [OF leaves_queries(8) f, of id] leavesD [OF consult_frames(2) k, of id]
      generate_ids_effect [OF ci] generate_ids_effect [OF si] by simp
  note sources = consult_checks(1) [OF k]
  have two: "length checks = 2" using arg_cong [OF sources, of length] by simp
  obtain js where js: "length js = count_contradicted checks" "length cids = 2" "length sids = length rs"
    and stored: "w_sess w1 = (w_sess wa)
      \<lparr>db_verification_runs := db_verification_runs (w_sess wa) @
         [\<lparr>vn_run = run, vn_tenant = c_tenant c, vn_application = c_application c, vn_check_count = 2,
           vn_contradiction_count = count_contradicted checks, vn_completed_at = now\<rparr>],
       db_checks := db_checks (w_sess wa) @ map (check_row_of run c now) (zip cids checks),
       db_snapshots := db_snapshots (w_sess wa) @ map (snapshot_row_of run c now) (zip sids snaps),
       db_contradictions := db_contradictions (w_sess wa) @
         map2 (contradiction_row_of c now) js (filter contradicted (zip cids checks))\<rparr>"
    using add_verification_run_effect [OF add] sess two by (auto simp: rs(3))
  have "list_all2 (\<lambda>r sf. row_to_stored_fact r = Inr sf)
      (e_order_facts env (filter (\<lambda>r. fr_tenant r = c_tenant c \<and> fr_application r = c_application c) (db_facts (w_db w)))) stored"
    using get_facts_rows [OF f wc(2)] by (simp add: wc(1) wa)
  then show ?thesis
    by (intro exI [of _ stored] exI [of _ income] exI [of _ rs] exI [of _ run] exI [of _ now] exI [of _ cids] exI [of _ sids]
        exI [of _ js] exI [of _ ?key])
      (use rs js sources in \<open>simp add: body(2) stored wa ext [symmetric] res comp_def\<close>)
qed

definition no_verifiers :: "unit verifiers" where
  "no_verifiers =
     \<lparr>vf_kyc = (\<lambda>_ _ _ _ _ _ x. (Inl OverflowError, x)), vf_employer = (\<lambda>_ _ _ _ _ x. (Inl OverflowError, x)),
      vf_bureau = (\<lambda>_ _ _ _ x. (Inl OverflowError, x)), vf_bank = (\<lambda>_ _ _ _ x. (Inl OverflowError, x))\<rparr>"

definition sample_verify :: case_command where
  "sample_verify = \<lparr>c_tenant = DEMO_TENANT_ID, c_application = app_id sample_application, c_key = ''k''\<rparr>"

text \<open>A case whose identity document was read, and systems that do not recognise the person.\<close>

definition sample_fact :: "nat \<Rightarrow> fact_type \<Rightarrow> string \<Rightarrow> fact_row" where
  "sample_fact i t v = \<lparr>fr_id = new_id i, fr_run = new_id 800, fr_tenant = DEMO_TENANT_ID, fr_application = app_id sample_application,
     fr_document = new_id 801, fr_type = fact_type_value t, fr_value = v, fr_normalized = v, fr_confidence = 1, fr_page = 1,
     fr_method = ''regex'', fr_extractor = ''v1'', fr_checksum = ''c'', fr_status = ''extracted'', fr_created_at = sample_instant\<rparr>"

definition identified_db :: db where
  "identified_db = (case_db VERIFICATION 5)\<lparr>db_facts := [sample_fact 802 SYNTHETIC_ID ''SYN-1'',
     sample_fact 803 STREET_ADDRESS ''1 Main St'', sample_fact 804 CITY ''Springfield'']\<rparr>"

definition unrecognised :: kyc_result where
  "unrecognised = \<lparr>kyc_status = ''FAIL'', kyc_name_score = 1, kyc_address_score = 1, kyc_birth_match = False, kyc_reference = ''KYC-1''\<rparr>"

definition doubting_verifiers :: "unit verifiers" where
  "doubting_verifiers = no_verifiers\<lparr>vf_kyc := (\<lambda>_ _ _ _ _ _ x. (Inr unrecognised, x)),
     vf_bureau := (\<lambda>_ _ _ _ x. (Inr \<lparr>crr_score = 640, crr_tradelines = [], crr_inquiries = 1, crr_duplicate_flag = False\<rparr>, x))\<rparr>"

lemma sample_fact_read: "row_to_stored_fact (sample_fact i t v) = Inr
    \<lparr>sf_fact_id = new_id i, sf_document_id = new_id 801, sf_run_id = new_id 800, sf_fact =
     \<lparr>fact_type_of = t, fact_value = v, fact_normalized = v, fact_confidence = 1, fact_page = 1, fact_method = ''regex'',
      fact_extractor = ''v1'', fact_checksum = ''c''\<rparr>\<rparr>"
  by (simp add: row_to_stored_fact_def sample_fact_def mk_ExtractedFact_def)

lemma doubting_run:
  "\<exists>res w'. verify_application_facts sample_env doubting_verifiers sample_verify (world_of identified_db ()) = (Inr res, w')"
  using valid_demo valid_sample
  apply (simp add: verify_application_facts_def verify_body_def run_defs sample_verify_def world_of_def identified_db_def
      case_db_def initial_db_def sample_env_def load_sample applicant_get_def mk_Applicant_def
      str_strip_def strip_by_def is_space_def char_code_def starts_with_def get_facts_def sample_fact_read)
  apply (simp add: sample_fact_def
      evidence_of_def latest_fact_def consult_def identity_step_def declared_income_def
      employment_step_def truthy_def bureau_step_def bank_step_def missing_check_def external_def doubting_verifiers_def
      kyc_check_def mk_VerificationCheck_def unrecognised_def kyc_matched_def verdict_of_def kyc_snapshot_def bureau_snapshot_def bnd_def)
  apply (simp add: add_verification_run_def application_ids_def count_contradicted_def new_id_inject Let_def run_defs initial_db_def case_db_def)
  done

theorem verify_application_facts_effect_witness:
  "\<exists>res w'. verify_application_facts sample_env doubting_verifiers sample_verify (world_of identified_db ()) = (Inr res, w') \<and>
     map chk_verdict (ver_checks res) = [CONTRADICTED, INSUFFICIENT_EVIDENCE] \<and> length (db_contradictions (w_db w')) = 1 \<and>
     map sr_source (db_snapshots (w_db w')) = [''MOCK_KYC'', ''MOCK_BUREAU'']"
proof -
  obtain res w' where run: "verify_application_facts sample_env doubting_verifiers sample_verify (world_of identified_db ()) = (Inr res, w')"
    using doubting_run by blast
  let ?w = "world_of identified_db ()" and ?c = sample_verify
  from verify_application_facts_effect [OF run] obtain stored income rs run_id now cids sids js key where
    raw: "list_all2 (\<lambda>r sf. row_to_stored_fact r = Inr sf)
      (e_order_facts sample_env (filter (\<lambda>r. fr_tenant r = c_tenant ?c \<and> fr_application r = c_application ?c) (db_facts (w_db ?w)))) stored"
    and income: "declared_income (evidence_of stored) = Inr income"
    and rs: "answered doubting_verifiers (w_ext ?w) rs (w_ext w')" "map (fst \<circ> snapshot_for) rs = consulted (evidence_of stored) income"
    and sources: "map chk_source (ver_checks res) = [MOCK_KYC, MOCK_EMPLOYER]"
    and first: "chk_verdict (ver_checks res ! 0) = identity_verdict rs"
    and second: "chk_verdict (ver_checks res ! 1) = INSUFFICIENT_EVIDENCE \<longleftrightarrow> MOCK_EMPLOYER \<notin> set (consulted (evidence_of stored) income)"
    and counted: "ver_contradictions res = count_contradicted (ver_checks res)"
    and len: "length cids = 2" "length sids = length rs" "length js = ver_contradictions res"
    and db: "w_db w' = (w_db ?w)
      \<lparr>db_idempotency_keys := db_idempotency_keys (w_db ?w) @ [key],
       db_verification_runs := db_verification_runs (w_db ?w) @
         [\<lparr>vn_run = run_id, vn_tenant = c_tenant ?c, vn_application = c_application ?c, vn_check_count = 2,
           vn_contradiction_count = ver_contradictions res, vn_completed_at = now\<rparr>],
       db_checks := db_checks (w_db ?w) @ map (check_row_of run_id ?c now) (zip cids (ver_checks res)),
       db_snapshots := db_snapshots (w_db ?w) @ map (snapshot_row_of run_id ?c now) (zip sids (map snapshot_for rs)),
       db_contradictions := db_contradictions (w_db ?w) @
         map2 (contradiction_row_of ?c now) js (filter contradicted (zip cids (ver_checks res)))\<rparr>"
    by (elim exE conjE) (rule that)
  have snapshots: "db_snapshots (w_db w') = map (snapshot_row_of run_id ?c now) (zip sids (map snapshot_for rs))"
    and contradictions: "db_contradictions (w_db w') = map2 (contradiction_row_of ?c now) js (filter contradicted (zip cids (ver_checks res)))"
    unfolding db by (simp_all add: world_of_def identified_db_def case_db_def initial_db_def)
  have stored: "list_all2 (\<lambda>r sf. row_to_stored_fact r = Inr sf) (db_facts identified_db) stored"
    using raw by (simp add: world_of_def identified_db_def sample_env_def sample_fact_def sample_verify_def)
  have ev: "ev_synthetic_id (evidence_of stored) \<noteq> None" "ev_street (evidence_of stored) \<noteq> None" "ev_city (evidence_of stored) \<noteq> None"
    "ev_employer (evidence_of stored) = None" "ev_income (evidence_of stored) = None"
    using stored by (auto simp: identified_db_def sample_fact_read list_all2_Cons1 evidence_of_def latest_fact_def)
  have asked: "consulted (evidence_of stored) income = [MOCK_KYC, MOCK_BUREAU]"
    using income ev by (simp add: declared_income_def consulted_def truthy_def)
  note payloads = kyc_snapshot_def employment_snapshot_def bureau_snapshot_def bank_snapshot_def
  obtain a b where two: "rs = [a, b]" "fst (snapshot_for a) = MOCK_KYC" and second_answer: "fst (snapshot_for b) = MOCK_BUREAU"
    using rs(2) unfolding asked by (auto simp: map_eq_Cons_conv)
  then obtain r where answers: "rs = [Kyc_Response r, b]" "fst (snapshot_for b) = MOCK_BUREAU"
    by (cases a) (simp_all add: payloads)
  have "r = unrecognised" using rs(1) unfolding answers(1) by (auto elim: answered_KycE simp: doubting_verifiers_def)
  then have "identity_verdict rs = CONTRADICTED"
    by (simp add: answers(1) identity_verdict_def unrecognised_def kyc_matched_def verdict_of_def)
  moreover obtain k1 k2 where checks: "ver_checks res = [k1, k2]" using sources by (auto simp: map_eq_Cons_conv)
  ultimately have verdicts: "chk_verdict k1 = CONTRADICTED" "chk_verdict k2 = INSUFFICIENT_EVIDENCE"
    using first second by (simp_all add: asked)
  obtain i1 i2 j1 j2 where ids: "cids = [i1, i2]" "sids = [j1, j2]"
    using len(1,2) by (auto simp: answers(1) length_Suc_conv numeral_2_eq_2)
  have "length (db_contradictions (w_db w')) = 1"
    unfolding contradictions using len(3) counted by (simp add: checks ids verdicts count_contradicted_def)
  moreover have "map sr_source (db_snapshots (w_db w')) = [''MOCK_KYC'', ''MOCK_BUREAU'']"
    using answers(2) unfolding snapshots by (cases b) (simp_all add: answers(1) ids snapshot_row_of_def payloads)
  ultimately show ?thesis using run checks verdicts by auto
qed

subsection \<open>No identity, no calls\<close>

lemma enum_of_value_Inr: "enum_of_value cls members value v = Inr m \<Longrightarrow> value m = v"
  by (auto simp: enum_of_value_def find_Some_iff split: option.splits)

lemma stored_fact_type: "row_to_stored_fact r = Inr sf \<Longrightarrow> fact_type_value (fact_type_of (sf_fact sf)) = fr_type r"
  by (auto simp: row_to_stored_fact_def bind_result_Inr_iff fact_type_of_value_def dest!: enum_of_value_Inr)

lemma latest_fact_absent:
  assumes "get_facts env t k w = (Inr stored, w')" "\<And>rows. mset (e_order_facts env rows) = mset rows"
    and "\<forall>r \<in> set (db_facts (w_sess w)). fr_tenant r = t \<and> fr_application r = k \<longrightarrow> fr_type r \<noteq> fact_type_value ft"
  shows "latest_fact ft stored = None"
proof -
  obtain rows where rows: "set rows = {r \<in> set (db_facts (w_sess w)). fr_tenant r = t \<and> fr_application r = k \<and> fr_tenant r = w_scope w}"
    and lifted: "map_each (\<lambda>r. lift_result (row_to_stored_fact r)) rows w = (Inr stored, w')"
  proof
    let ?q = "filter (\<lambda>r. fr_tenant r = t \<and> fr_application r = k) (visible fr_tenant (w_scope w) (db_facts (w_sess w)))"
    show "map_each (\<lambda>r. lift_result (row_to_stored_fact r)) (e_order_facts env ?q) w = (Inr stored, w')"
      using assms(1) unfolding get_facts_def by (auto elim!: bnd_InrE)
    show "set (e_order_facts env ?q) = {r \<in> set (db_facts (w_sess w)). fr_tenant r = t \<and> fr_application r = k \<and> fr_tenant r = w_scope w}"
      using arg_cong [OF assms(2) [of ?q], of set_mset] by (auto simp: visible_def)
  qed
  have "fact_type_of (sf_fact sf) \<noteq> ft" if "sf \<in> set stored" for sf
  proof -
    from map_each_lift [OF lifted] that obtain r where "r \<in> set rows" "row_to_stored_fact r = Inr sf"
      by (auto simp: list_all2_conv_all_nth in_set_conv_nth) (metis nth_mem)
    with rows assms(3) stored_fact_type [of r sf] show ?thesis by auto
  qed
  then show ?thesis by (auto simp: latest_fact_def find_None_iff)
qed

text \<open>Without the synthetic identifier the consultation is a pure function of the facts.\<close>

lemma consult_unidentified:
  assumes "ev_synthetic_id ev = None"
  shows "consult vf p ev w = (case declared_income ev of Inl e \<Rightarrow> (Inl e, w)
    | Inr _ \<Rightarrow> (Inr ([missing_check MOCK_KYC SYNTHETIC_ID ''identity document facts (synthetic ID / address) were not extracted'',
        missing_check MOCK_EMPLOYER EMPLOYER_NAME ''pay-stub facts (employer / income) were not extracted''], []), w))"
  using assms
  by (simp add: consult_def identity_step_def employment_step_def bureau_step_def bank_step_def bnd_def
      missing_check_def mk_VerificationCheck_def split: sum.splits)

abbreviation unidentified :: "string \<Rightarrow> string \<Rightarrow> 'x \<Rightarrow> 'x world \<Rightarrow> bool" where
  "unidentified t k x w \<equiv> w_ext w = x \<and> (\<forall>r \<in> set (db_facts (w_sess w)).
     fr_tenant r = t \<and> fr_application r = k \<longrightarrow> fr_type r \<noteq> fact_type_value SYNTHETIC_ID)"

lemma hoare_silent:
  assumes "silent m" "leaves db_facts m"
  shows "hoare (unidentified t k x) m (\<lambda>_. unidentified t k x) (\<lambda>_ w. w_ext w = x)"
  using staysD [OF assms(1)] leavesD [OF assms(2)]
  by (auto simp: hoare_def split: prod.splits sum.splits)

lemma hoare_silent_result:
  assumes "silent m" "\<And>w res w'. P \<Longrightarrow> m w = (Inr res, w') \<Longrightarrow> Q res"
  shows "hoare (\<lambda>w. w_ext w = x \<and> P) m (\<lambda>res w. w_ext w = x \<and> Q res) (\<lambda>_ w. w_ext w = x)"
  using assms by (auto simp: hoare_def split: prod.splits sum.splits dest: staysD)

lemma hoare_verify_unidentified:
  assumes "\<And>rows. mset (e_order_facts env rows) = mset rows"
  shows "hoare (unidentified (c_tenant c) (c_application c) x) (verify_body env vf c)
    (\<lambda>res w. w_ext w = x \<and> (\<forall>k \<in> set (ver_checks res). chk_verdict k = INSUFFICIENT_EVIDENCE))
    (\<lambda>_ w. w_ext w = x)"
  unfolding verify_body_def
proof (intro hoare_bnd)
  let ?I = "unidentified (c_tenant c) (c_application c) x"
  let ?E = "\<lambda>_ w. w_ext w = x"
  show "hoare ?I (reserve_or_raise env (c_tenant c) (c_key c) ''verify_application_facts'') (\<lambda>_. ?I) ?E"
    by (intro hoare_silent leaves_reserve silent_intros) simp
  show "hoare ?I (load_application (c_tenant c) (c_application c)) (\<lambda>_. ?I) ?E"
    by (intro hoare_silent leaves_intros silent_intros)
  show "hoare ?I (applicant_get (c_tenant c) (app_applicant a)) (\<lambda>_. ?I) ?E" for a
    by (intro hoare_silent leaves_intros silent_intros)
  show "hoare ?I (from_some e found) (\<lambda>_. ?I) ?E" for e :: py_error and found :: "applicant option"
    by (intro hoare_silent leaves_intros silent_intros)
  show "hoare ?I (get_facts env (c_tenant c) (c_application c))
      (\<lambda>stored w. w_ext w = x \<and> latest_fact SYNTHETIC_ID stored = None) ?E"
    using latest_fact_absent [OF _ assms] staysD [OF silent_operations(5)]
    by (fastforce simp: hoare_def split: prod.splits sum.splits)
  show "hoare (\<lambda>w. w_ext w = x \<and> latest_fact SYNTHETIC_ID stored = None) (consult vf p (evidence_of stored))
      (\<lambda>f w. w_ext w = x \<and> (\<forall>k \<in> set (fst f). chk_verdict k = INSUFFICIENT_EVIDENCE)) ?E" for p stored
    by (auto simp: hoare_def consult_unidentified evidence_of_def missing_check_def split: sum.splits)
  show "hoare (\<lambda>w. w_ext w = x \<and> (\<forall>k \<in> set (fst f). chk_verdict k = INSUFFICIENT_EVIDENCE))
     (case f of (checks, snapshots) \<Rightarrow>
       bnd (generate_id env) (\<lambda>run_id. bnd (map_each (\<lambda>_. generate_id env) checks) (\<lambda>check_ids.
       bnd (map_each (\<lambda>_. generate_id env) snapshots) (\<lambda>snapshot_ids. bnd (clock_now env) (\<lambda>now.
       bnd (add_verification_run env run_id (c_tenant c) (c_application c) checks check_ids snapshots snapshot_ids now)
         (\<lambda>_. ret \<lparr>ver_checks = checks, ver_contradictions = count_contradicted checks,
            ver_summary = build_verification_summary checks\<rparr>))))))
     (\<lambda>res w. w_ext w = x \<and> (\<forall>k \<in> set (ver_checks res). chk_verdict k = INSUFFICIENT_EVIDENCE)) ?E" for f
  proof (cases f)
    case (Pair checks snaps)
    show ?thesis unfolding Pair prod.case fst_conv
      by (intro hoare_silent_result silent_intros) (auto elim!: bnd_InrE)
  qed
qed

text \<open>C29: nobody is asked about a person who was not identified.  If no SYNTHETIC_ID fact was
  extracted for the case, verification calls none of the four external systems (the outside world
  is unchanged, whether the handler returns or raises), and every check it reports is
  INSUFFICIENT_EVIDENCE: never a match, never a contradiction.\<close>

theorem unidentified_case_contacts_nobody:
  assumes "good_env env"
    and "\<forall>r \<in> set (db_facts (w_db w)). fr_tenant r = c_tenant c \<and> fr_application r = c_application c
           \<longrightarrow> fr_type r \<noteq> fact_type_value SYNTHETIC_ID"
    and "verify_application_facts env vf c w = (r, w')"
  shows "w_ext w' = w_ext w \<and> (\<forall>res. r = Inr res \<longrightarrow> ver_contradictions res = 0 \<and>
    (\<forall>k \<in> set (ver_checks res). chk_verdict k = INSUFFICIENT_EVIDENCE))"
proof -
  have order: "mset (e_order_facts env rows) = mset rows" for rows
    using assms(1) by (simp add: good_env_def)
  obtain r1 w1 where body: "verify_body env vf c (aenter (c_tenant c) w) = (r1, w1)" by fastforce
  have pre: "unidentified (c_tenant c) (c_application c) (w_ext w) (aenter (c_tenant c) w)"
    using assms(2) by simp
  have out: "r = r1 \<and> w_ext w' = w_ext w1"
    using assms(3) body by (cases r1)
      (auto simp: verify_application_facts_def transaction_def with_uow_def bnd_def commit_def aexit_def Let_def)
  show ?thesis
  proof (cases r1)
    case (Inl e)
    from hoareD_Inl [OF hoare_verify_unidentified [OF order] pre body [unfolded Inl]] out Inl show ?thesis by simp
  next
    case (Inr res)
    from hoareD_Inr [OF hoare_verify_unidentified [OF order] pre body [unfolded Inr]] out Inr
    have "w_ext w' = w_ext w" and checks: "\<forall>k \<in> set (ver_checks res). chk_verdict k = INSUFFICIENT_EVIDENCE" by simp_all
    moreover have "ver_contradictions res = count_contradicted (ver_checks res)"
      using body [unfolded Inr] unfolding verify_body_def by (auto elim!: bnd_InrE split: prod.splits)
    ultimately show ?thesis using out Inr
      by (auto simp: count_contradicted_def filter_empty_conv)
  qed
qed

lemma sample_verify_runs:
  "\<exists>res w'. verify_application_facts sample_env no_verifiers sample_verify
     (world_of (case_db VERIFICATION 5) ()) = (Inr res, w')"
  using valid_demo valid_sample
  by (simp add: verify_application_facts_def verify_body_def run_defs sample_verify_def world_of_def
      case_db_def initial_db_def sample_env_def load_sample applicant_get_def mk_Applicant_def
      str_strip_def strip_by_def is_space_def char_code_def starts_with_def get_facts_def
      evidence_of_def latest_fact_def consult_def identity_step_def declared_income_def
      employment_step_def truthy_def bureau_step_def bank_step_def missing_check_def
      mk_VerificationCheck_def add_verification_run_def application_ids_def count_contradicted_def new_id_inject Let_def)

theorem unidentified_case_contacts_nobody_witness:
  "\<exists>res w'. verify_application_facts sample_env no_verifiers sample_verify
     (world_of (case_db VERIFICATION 5) ()) = (Inr res, w') \<and> ver_contradictions res = 0"
proof -
  obtain res w' where run: "verify_application_facts sample_env no_verifiers sample_verify
     (world_of (case_db VERIFICATION 5) ()) = (Inr res, w')" using sample_verify_runs by blast
  from unidentified_case_contacts_nobody [OF good_sample_env _ run] have "ver_contradictions res = 0"
    by (simp add: world_of_def case_db_def initial_db_def)
  with run show ?thesis by blast
qed

subsection \<open>A declared income survives its pay stub\<close>

lemma fl_close:
  assumes "0 \<le> y" "y < 2 ^ 40"
  shows "\<bar>fl y - y\<bar> \<le> 1 / 2 ^ 14"
proof (cases "y = 0")
  case False
  with assms have y: "0 < y" by simp
  have "pow2 (exponent2 y) < pow2 40" using exponent2_spec(1) [OF y] assms(2) by (simp add: pow2_def)
  then have "exponent2 y < 40" by (simp add: pow2_less_iff)
  then have "pow2 (ulp_exponent y) \<le> pow2 (- 13)" by (intro pow2_mono) simp
  then have "pow2 (ulp_exponent y) / 2 \<le> 1 / 2 ^ 14" by (simp add: pow2_def)
  with fl_pos_error [of y] y show ?thesis by (simp add: fl_def)
qed simp

lemma round_half_even_eqI:
  assumes "\<bar>z - of_int n\<bar> < 1 / 2"
  shows "round_half_even z = n"
proof -
  have "\<bar>of_int (round_half_even z) - of_int n :: rat\<bar> < 1"
    using round_half_even_near [of z] assms by linarith
  then have "\<bar>of_int (round_half_even z - n) :: rat\<bar> < 1" by simp
  then have "\<bar>round_half_even z - n\<bar> < 1" by (metis of_int_abs of_int_less_1_iff)
  then show ?thesis by simp
qed

lemma read_nat_append: "read_nat (s @ t) = read_nat s * 10 ^ length t + read_nat t"
proof (induction t rule: rev_induct)
  case Nil
  then show ?case by (simp add: read_nat_def)
next
  case (snoc c t)
  show ?case by (simp only: append_assoc [symmetric] read_nat_snoc snoc length_append) (simp add: algebra_simps)
qed

lemma read_cents:
  assumes "\<not> fl_overflows (of_nat c / 100)"
  shows "py_float (show_nat (c div 100) @ ''.'' @ show_padded 2 (c mod 100)) = Inr (FiniteFloat (fl (of_nat c / 100)))"
proof -
  define w f where "w = show_nat (c div 100)" and "f = show_padded 2 (c mod 100)"
  have len: "length f = 2" unfolding f_def by (rule length_show_padded) simp_all
  have dig: "\<forall>x \<in> set w. is_digit x" "\<forall>x \<in> set f. is_digit x"
    unfolding w_def f_def by (rule show_nat_digits, rule show_padded_digits)
  have other: "x \<noteq> CHR ''_'' \<and> x \<noteq> CHR ''-'' \<and> x \<noteq> CHR ''+'' \<and> x \<noteq> CHR ''i'' \<and> x \<noteq> CHR ''n'' \<and> \<not> is_space x"
    if "is_digit x \<or> x = CHR ''.''" for x
    using that by (auto simp: is_digit_def is_space_def char_code_def)
  let ?s = "w @ ''.'' @ f"
  have all: "\<forall>x \<in> set ?s. is_digit x \<or> x = CHR ''.''" using dig by auto
  have strip: "str_strip ?s = ?s" unfolding str_strip_def
    using all other by (intro strip_by_none) blast
  have keep: "filter (\<lambda>c. c \<noteq> CHR ''_'') ?s = ?s" using all other by (auto simp: filter_id_conv)
  have under: "underscores_ok b s" if "b \<noteq> CHR ''_''" "\<forall>x \<in> set s. is_digit x \<or> x = CHR ''.''" for b s
    using that other by (induction s arbitrary: b) auto
  have w: "w \<noteq> []" by (simp add: w_def)
  then obtain d ds where ds: "w = d # ds" by (cases w) auto
  have "str_lower ?s \<noteq> ''inf'' \<and> str_lower ?s \<noteq> ''infinity'' \<and> str_lower ?s \<noteq> ''nan''"
  proof -
    have d: "is_digit d" using dig(1) ds by simp
    then have "hd (str_lower ?s) = d" unfolding ds
      by (simp add: str_lower_def Let_def) (auto simp: is_digit_def char_code_def)
    with other [of d] d show ?thesis by auto
  qed
  moreover have "takeWhile is_digit ?s = w" "dropWhile is_digit ?s = CHR ''.'' # f"
    using dig(1) by (simp_all add: takeWhile_append dropWhile_append takeWhile_eq_all_conv dropWhile_eq_Nil_conv)
  moreover have "read_nat (w @ f) = c" by (simp add: read_nat_append len) (simp add: w_def f_def)
  moreover have tail: "takeWhile is_digit f = f" "dropWhile is_digit f = []"
    using dig(2) by (simp_all add: takeWhile_eq_all_conv dropWhile_eq_Nil_conv)
  moreover have cents: "(10 :: rat) powi (- 2) = 1 / 100" by (simp add: power_int_def power2_eq_square)
  ultimately have "read_unsigned_float ?s = Some (FiniteFloat (fl (of_nat c / 100)))"
    using assms w len by (simp add: read_unsigned_float_def read_exponent_def Let_def tail)
  moreover have "d \<noteq> CHR ''-''" "d \<noteq> CHR ''+''" using other [of d] dig(1) ds by auto
  moreover have "underscores_ok CHR '' '' ?s" using all by (intro under) simp_all
  moreover have shape: "?s = d # (ds @ ''.'' @ f)" by (simp add: ds)
  ultimately have "py_float ?s = Inr (FiniteFloat (fl (of_nat c / 100)))"
    unfolding py_float_def strip Let_def keep by (simp only: shape list.case if_False if_True simp_thms option.case)
  then show ?thesis by (simp only: w_def f_def)
qed

lemma annual_income_roundtrip:
  assumes "0 \<le> n" "n < 2 ^ 36"
  shows "annual_income (show_fixed2 (fl (of_int n / 12))) = Inr n"
proof -
  define x :: rat where "x = fl (of_int n / 12)"
  define c where "c = nat (round_half_even (\<bar>x\<bar> * 100))"
  define v :: rat where "v = fl (of_nat c / 100)"
  have N: "(0 :: rat) \<le> of_int n" "(of_int n :: rat) < 2 ^ 36"
    using assms(1) of_int_less_iff [of n "2 ^ 36", where ?'a = rat, THEN iffD2, OF assms(2)] by simp_all
  then have "\<bar>x - of_int n / 12\<bar> \<le> 1 / 2 ^ 14" unfolding x_def by (intro fl_close) simp_all
  then have near_x: "x \<le> of_int n / 12 + 1 / 2 ^ 14" "of_int n / 12 - 1 / 2 ^ 14 \<le> x"
    unfolding abs_le_iff by linarith+
  have x0: "0 \<le> x" using fl_mono [of 0 "of_int n / 12"] N by (simp add: x_def)
  have "0 \<le> round_half_even (\<bar>x\<bar> * 100)"
    using round_half_even_mono [of 0 "\<bar>x\<bar> * 100"] round_half_even_of_int [of 0] by simp
  then have "(of_nat c :: rat) = of_int (round_half_even (\<bar>x\<bar> * 100))" by (simp add: c_def)
  then have "\<bar>of_nat c - x * 100\<bar> \<le> 1 / 2" using round_half_even_near [of "\<bar>x\<bar> * 100"] x0 by simp
  then have near_c: "of_nat c / 100 \<le> x + 1 / 200" "x - 1 / 200 \<le> of_nat c / 100"
    unfolding abs_le_iff by linarith+
  have small: "(of_nat c :: rat) / 100 < 2 ^ 40" using near_c(1) near_x(1) N by simp
  then have "\<bar>v - of_nat c / 100\<bar> \<le> 1 / 2 ^ 14" unfolding v_def by (intro fl_close) simp_all
  then have near_v: "v \<le> of_nat c / 100 + 1 / 2 ^ 14" "of_nat c / 100 - 1 / 2 ^ 14 \<le> v"
    unfolding abs_le_iff by linarith+
  have v0: "0 \<le> v" using fl_mono [of 0 "of_nat c / 100"] by (simp add: v_def)
  have big: "v * 12 < 2 ^ 40" using near_v(1) near_c(1) near_x(1) N by simp
  then have "\<bar>fl (v * 12) - v * 12\<bar> \<le> 1 / 2 ^ 14" using v0 by (intro fl_close) simp_all
  then have near_y: "fl (v * 12) \<le> v * 12 + 1 / 2 ^ 14" "v * 12 - 1 / 2 ^ 14 \<le> fl (v * 12)"
    unfolding abs_le_iff by linarith+
  have "\<bar>fl (v * 12) - of_int n\<bar> < 1 / 2"
    unfolding abs_less_iff using near_x near_c near_v near_y by (auto simp: field_simps)
  then have round: "round_half_even (fl (v * 12)) = n" by (rule round_half_even_eqI)
  have "(2 :: rat) ^ 40 \<le> 2 ^ 1000" by (rule power_increasing) simp_all
  then have "\<not> fl_overflows (v * 12)" "\<not> fl_overflows (of_nat c / 100)"
    using big small v0 by (intro fl_no_overflow; simp)+
  moreover have "show_fixed2 x = show_nat (c div 100) @ ''.'' @ show_padded 2 (c mod 100)"
    using x0 by (simp add: show_fixed2_def c_def Let_def)
  ultimately show ?thesis
    using read_cents [of c] round by (simp add: annual_income_def x_def [symmetric] v_def)
qed

text \<open>A declared income survives the whole way from the generator to the check.  The monthly gross
  that a generated pay stub prints, read back by the extractor and multiplied by twelve in floating
  point, gives exactly the annual income the stub was generated for, for every income below
  \<open>2^36\<close> dollars: no rounding on the way (to cents, to doubles, twice) shows.\<close>

theorem declared_income_survives:
  assumes "pay_stub_lines a e = Inr lines" "plain_line (se_employer e)"
    "CHR '':'' \<notin> set (sa_given_name a)" "CHR '':'' \<notin> set (sa_family_name a)"
    "0 \<le> se_income e" "se_income e < 2 ^ 36" "0 \<le> se_tenure e" "1 \<le> n"
  shows "\<exists>facts. extract_facts [page_of_lines n lines] (classify [page_of_lines n lines]) checksum = Inr facts \<and>
    (\<forall>stored. map sf_fact stored = facts \<longrightarrow> declared_income (evidence_of stored) = Inr (Some (se_income e)))"
proof -
  from pay_stub_facts [OF assms(1-5,7,8), of checksum] obtain x facts where cls: "classify [page_of_lines n lines] = INCOME_PROOF"
    and x: "int_truediv (se_income e) 12 = Inr x"
    and facts: "extract_facts [page_of_lines n lines] INCOME_PROOF checksum = Inr facts"
    and shape: "map fact_triple facts = [(EMPLOYER_NAME, se_employer e, se_employer e),
          (GROSS_MONTHLY_INCOME, show_grouped2 x, show_fixed2 x),
          (TENURE_MONTHS, show_int (se_tenure e), show_int (se_tenure e))]"
    by (elim conjE exE) (rule that)
  from x have "x = fl (of_int (se_income e) / 12)" by (simp add: int_truediv_def split: if_splits)
  with annual_income_roundtrip [OF assms(5,6)] have same: "annual_income (show_fixed2 x) = Inr (se_income e)" by simp
  have "declared_income (evidence_of stored) = Inr (Some (se_income e))" if "map sf_fact stored = facts" for stored
  proof -
    from shape obtain f1 f2 f3 where "facts = [f1, f2, f3]" "fact_type_of f1 = EMPLOYER_NAME"
      "fact_type_of f2 = GROSS_MONTHLY_INCOME" "fact_type_of f3 = TENURE_MONTHS" "fact_normalized f2 = show_fixed2 x"
      by (auto simp: map_eq_Cons_conv fact_triple_def)
    with that same show ?thesis by (simp add: declared_income_def evidence_of_def latest_fact_def)
  qed
  with cls facts show ?thesis by auto
qed

theorem declared_income_survives_witness:
  "\<exists>lines facts. pay_stub_lines sample_applicant sample_employment = Inr lines \<and>
     extract_facts [page_of_lines 1 lines] INCOME_PROOF ''ck'' = Inr facts \<and>
     declared_income (evidence_of (map (\<lambda>f. \<lparr>sf_fact_id = ''f'', sf_document_id = ''d'', sf_run_id = ''r'', sf_fact = f\<rparr>) facts))
       = Inr (Some 60000)"
proof -
  obtain lines where lines: "pay_stub_lines sample_applicant sample_employment = Inr lines"
    using sample_pay_stub by blast
  from declared_income_survives [OF lines sample_plain, of 1 "''ck''"] pay_stub_facts [OF lines sample_plain, of 1 "''ck''"]
  show ?thesis using lines by (auto simp: sample_employment_def comp_def)
qed

end
