(* ===== verification/Commands.thy ===== *)
theory Commands
  imports Verdicts
begin

text \<open>
  The ten command handlers as one interface.  \<open>serve\<close> dispatches a request to the handler the
  composition root (\<open>bootstrap/container.py\<close>) wires for it.  The locale \<open>idempotent_command\<close> states
  the contract every handler body shares (its key is claimed first, nothing is committed inside the
  body, only rows of the tenant are touched) and derives from it, once, what a caller may rely on:
  a duplicate changes nothing, an error changes nothing, a success happens at most once, and other
  tenants see nothing.
\<close>

subsection \<open>The contract\<close>

definition claims :: "env \<Rightarrow> string \<Rightarrow> string \<Rightarrow> string \<Rightarrow> ('x, 'a) handler \<Rightarrow> bool" where
  "claims env t op k m \<longleftrightarrow> (\<forall>w. w_scope w = t \<longrightarrow>
     (if reserved (w_sess w) t op k
      then m w = (Inl (DuplicateRequestError op k), w\<lparr>w_clk := w_clk w + 1\<rparr>)
      else \<forall>y w'. m w = (Inr y, w') \<longrightarrow> db_idempotency_keys (w_sess w') = db_idempotency_keys (w_sess w) @
        [\<lparr>ik_tenant = t, ik_operation = op, ik_key = k, ik_reserved_at = e_clock env (w_clk w)\<rparr>]))"

lemma claims_reserve:
  assumes "\<And>x. leaves db_idempotency_keys (f x)"
  shows "claims env t op k (bnd (reserve_or_raise env t k op) f)"
  unfolding claims_def
  using assms by (auto simp: reserve_or_raise_cases elim!: bnd_InrE dest!: leavesD)

lemma claims_bnd:
  assumes "claims env t op k m" "\<And>x. leaves db_idempotency_keys (f x)"
  shows "claims env t op k (bnd m f)"
  unfolding claims_def
proof (intro allI impI)
  fix w :: "'a world" assume "w_scope w = t"
  with assms(1) show "if reserved (w_sess w) t op k
      then bnd m f w = (Inl (DuplicateRequestError op k), w\<lparr>w_clk := w_clk w + 1\<rparr>)
      else \<forall>y w'. bnd m f w = (Inr y, w') \<longrightarrow> db_idempotency_keys (w_sess w') = db_idempotency_keys (w_sess w) @
        [\<lparr>ik_tenant = t, ik_operation = op, ik_key = k, ik_reserved_at = e_clock env (w_clk w)\<rparr>]"
    by (auto simp: claims_def elim!: bnd_InrE dest!: leavesD [OF assms(2)])
qed

text \<open>A key once reserved stays reserved as long as rows are only appended.\<close>

definition keys_kept :: "db \<Rightarrow> db \<Rightarrow> bool" where
  "keys_kept d d' \<longleftrightarrow> (\<forall>t op k. reserved d t op k \<longrightarrow> reserved d' t op k)"

lemma keys_kept_refl [simp]: "keys_kept d d"
  by (simp add: keys_kept_def)

lemma keys_kept_trans: "keys_kept a b \<Longrightarrow> keys_kept b c \<Longrightarrow> keys_kept a c"
  by (simp add: keys_kept_def)

lemma keys_kept_append: "db_idempotency_keys d' = db_idempotency_keys d @ ks \<Longrightarrow> keys_kept d d'"
  by (auto simp: keys_kept_def reserved_def)

locale idempotent_command =
  fixes env :: env and tenant :: "'c \<Rightarrow> string" and operation :: "'c \<Rightarrow> string" and key :: "'c \<Rightarrow> string"
    and body :: "'c \<Rightarrow> ('x, 'a) handler"
  assumes claims_key: "claims env (tenant c) (operation c) (key c) (body c)"
    and never_commits: "quiet (body c)"
    and stays_in_tenant: "confined (body c)"
begin

lemma duplicate_rejected:
  assumes "reserved (w_db w) (tenant c) (operation c) (key c)"
  shows "\<exists>w'. transaction (tenant c) (body c) w = (Inl (DuplicateRequestError (operation c) (key c)), w') \<and>
    w_db w' = w_db w \<and> w_ext w' = w_ext w"
proof -
  have "w_scope (aenter (tenant c) w) = tenant c" "reserved (w_sess (aenter (tenant c) w)) (tenant c) (operation c) (key c)"
    using assms by simp_all
  then have "body c (aenter (tenant c) w) = (Inl (DuplicateRequestError (operation c) (key c)),
      (aenter (tenant c) w)\<lparr>w_clk := w_clk w + 1\<rparr>)"
    using claims_key [of c] unfolding claims_def by (metis aenter_simps(6))
  then show ?thesis
    by (simp add: transaction_def with_uow_def aexit_def Let_def)
qed

lemma error_changes_nothing: "transaction (tenant c) (body c) w = (Inl e, w') \<Longrightarrow> w_db w' = w_db w"
  by (rule transaction_error [OF never_commits])

lemma success_claims:
  assumes "transaction (tenant c) (body c) w = (Inr y, w')"
  shows "\<not> reserved (w_db w) (tenant c) (operation c) (key c)"
    "db_idempotency_keys (w_db w') = db_idempotency_keys (w_db w) @
      [\<lparr>ik_tenant = tenant c, ik_operation = operation c, ik_key = key c, ik_reserved_at = e_clock env (w_clk w)\<rparr>]"
proof -
  from assms obtain w1 where w1: "body c (aenter (tenant c) w) = (Inr y, w1)" "w_db w' = w_sess w1"
    by (rule transaction_success)
  show new: "\<not> reserved (w_db w) (tenant c) (operation c) (key c)"
    using duplicate_rejected [of w c] assms by fastforce
  with claims_key [of c] w1 show "db_idempotency_keys (w_db w') = db_idempotency_keys (w_db w) @
      [\<lparr>ik_tenant = tenant c, ik_operation = operation c, ik_key = key c, ik_reserved_at = e_clock env (w_clk w)\<rparr>]"
    unfolding claims_def by (metis aenter_simps(2,3,6))
qed

lemma keys_stay: "transaction (tenant c) (body c) w = (r, w') \<Longrightarrow> keys_kept (w_db w) (w_db w')"
  using error_changes_nothing success_claims(2) keys_kept_append by (cases r) fastforce+

lemma at_most_once:
  assumes "transaction (tenant c) (body c) w = (Inr y, w1)" "keys_kept (w_db w1) (w_db w2)"
    "transaction (tenant c) (body c') w2 = (r, w3)"
    "tenant c' = tenant c" "operation c' = operation c" "key c' = key c"
  shows "r = Inl (DuplicateRequestError (operation c) (key c))" "w_db w3 = w_db w2" "w_ext w3 = w_ext w2"
proof -
  have "reserved (w_db w1) (tenant c) (operation c) (key c)"
    using success_claims(2) [OF assms(1)] by (simp add: reserved_def)
  then have "reserved (w_db w2) (tenant c') (operation c') (key c')"
    using assms(2,4-6) by (simp add: keys_kept_def)
  from duplicate_rejected [OF this] assms(3-6)
  show "r = Inl (DuplicateRequestError (operation c) (key c))" "w_db w3 = w_db w2" "w_ext w3 = w_ext w2"
    by simp_all
qed

lemma other_tenants_unseen: "transaction (tenant c) (body c) w = (r, w') \<Longrightarrow> isolated (tenant c) (w_db w) (w_db w')"
  by (rule transaction_isolated [OF never_commits stays_in_tenant])

end

subsection \<open>Requests\<close>

datatype request =
    Create create_command | Submit case_command | Resubmit case_command
  | Advance_Intake case_command | Advance_Documents case_command | Enter_Review review_command
  | Decide decision_command | Upload upload_command | Process process_command | Verify case_command

record 'x deployment =
  dep_env :: env
  dep_ports :: "'x document_ports"
  dep_verifiers :: "'x verifiers"
  dep_runner :: "'x workflow_runner option"

definition discard :: "('x, 'a) handler \<Rightarrow> ('x, unit) handler" where
  "discard m = bnd m (\<lambda>_. ret ())"

definition serve :: "'x deployment \<Rightarrow> request \<Rightarrow> ('x, unit) handler" where
  "serve d r = (let env = dep_env d in case r of
      Create c \<Rightarrow> discard (create_application env c)
    | Submit c \<Rightarrow> discard (submit_application env (dep_runner d) c)
    | Resubmit c \<Rightarrow> discard (resubmit_application env (dep_runner d) c)
    | Advance_Intake c \<Rightarrow> discard (advance_intake_validation env c)
    | Advance_Documents c \<Rightarrow> discard (advance_document_processing env c)
    | Enter_Review c \<Rightarrow> discard (enter_human_review_handler env c)
    | Decide c \<Rightarrow> discard (apply_review_decision env c)
    | Upload c \<Rightarrow> discard (upload_document env (dep_ports d) c)
    | Process c \<Rightarrow> discard (process_document env (dep_ports d) c)
    | Verify c \<Rightarrow> discard (verify_application_facts env (dep_verifiers d) c))"

fun req_tenant :: "request \<Rightarrow> string" where
  "req_tenant (Create c) = cc_tenant c"
| "req_tenant (Submit c) = c_tenant c"
| "req_tenant (Resubmit c) = c_tenant c"
| "req_tenant (Advance_Intake c) = c_tenant c"
| "req_tenant (Advance_Documents c) = c_tenant c"
| "req_tenant (Enter_Review c) = c_tenant c"
| "req_tenant (Decide c) = c_tenant c"
| "req_tenant (Upload c) = c_tenant c"
| "req_tenant (Process c) = c_tenant c"
| "req_tenant (Verify c) = c_tenant c"

fun req_key :: "request \<Rightarrow> string" where
  "req_key (Create c) = cc_key c"
| "req_key (Submit c) = c_key c"
| "req_key (Resubmit c) = c_key c"
| "req_key (Advance_Intake c) = c_key c"
| "req_key (Advance_Documents c) = c_key c"
| "req_key (Enter_Review c) = c_key c"
| "req_key (Decide c) = c_key c"
| "req_key (Upload c) = c_key c"
| "req_key (Process c) = c_key c"
| "req_key (Verify c) = c_key c"

text \<open>The \<open>_OPERATION_NAME\<close> of each handler.\<close>

fun req_operation :: "request \<Rightarrow> string" where
  "req_operation (Create c) = ''create_application''"
| "req_operation (Submit c) = ''submit_application''"
| "req_operation (Resubmit c) = ''resubmit_application''"
| "req_operation (Advance_Intake c) = ''advance_intake_validation''"
| "req_operation (Advance_Documents c) = ''advance_document_processing''"
| "req_operation (Enter_Review c) = ''enter_human_review''"
| "req_operation (Decide c) = ''apply_review_decision''"
| "req_operation (Upload c) = ''upload_document''"
| "req_operation (Process c) = ''process_document''"
| "req_operation (Verify c) = ''verify_application_facts''"

text \<open>What a request does inside its transaction.\<close>

definition core :: "'x deployment \<Rightarrow> request \<Rightarrow> ('x, unit) handler" where
  "core d r = (let env = dep_env d in case r of
      Create c \<Rightarrow> discard (create_application_body env c)
    | Submit c \<Rightarrow> discard (move_and_attach env ''submit_application'' submit c)
    | Resubmit c \<Rightarrow> discard (move_and_attach env ''resubmit_application''
        (transition_to DOCUMENT_PROCESSING ''applicant resubmitted with additional information'') c)
    | Advance_Intake c \<Rightarrow> discard (advance_intake_body env c)
    | Advance_Documents c \<Rightarrow> discard (advance_documents_body env c)
    | Enter_Review c \<Rightarrow> discard (enter_review_body env c)
    | Decide c \<Rightarrow> discard (apply_decision_body env c)
    | Upload c \<Rightarrow> discard (upload_body env (dep_ports d) c)
    | Process c \<Rightarrow> discard (process_body env (dep_ports d) c)
    | Verify c \<Rightarrow> discard (verify_body env (dep_verifiers d) c))"

subsection \<open>Every request honours the contract\<close>

lemma claims_bodies:
  "claims env (cc_tenant cc) ''create_application'' (cc_key cc) (create_application_body env cc)"
  "claims env (c_tenant c) op (c_key c) (move_and_attach env op move c)"
  "claims env (c_tenant c) ''advance_intake_validation'' (c_key c) (advance_intake_body env c)"
  "claims env (c_tenant c) ''advance_document_processing'' (c_key c) (advance_documents_body env c)"
  "claims env (c_tenant rc) ''enter_human_review'' (c_key rc) (enter_review_body env rc)"
  "claims env (c_tenant dc) ''apply_review_decision'' (c_key dc) (apply_decision_body env dc)"
  "claims env (c_tenant pc) ''process_document'' (c_key pc) (process_body env ports pc)"
  "claims env (c_tenant c) ''verify_application_facts'' (c_key c) (verify_body env vf c)"
  unfolding create_application_body_def move_and_attach_def advance_intake_body_def advance_documents_body_def
    enter_review_body_def apply_decision_body_def process_body_def verify_body_def Let_def
  by (intro claims_reserve leaves_intros)+

lemma claims_upload: "claims env (c_tenant uc) ''upload_document'' (c_key uc) (upload_body env ports uc)"
  unfolding upload_body_def upload_checks_def upload_store_def Let_def
  by (intro claims_bnd claims_reserve leaves_intros)

lemma discard_frames:
  "quiet m \<Longrightarrow> quiet (discard m)" "confined m \<Longrightarrow> confined (discard m)" "keeps I m \<Longrightarrow> keeps I (discard m)"
  "claims env t op k m \<Longrightarrow> claims env t op k (discard m)"
  unfolding discard_def
  by (intro quiet_intros, assumption, intro confined_intros, assumption, intro keeps_intros, assumption,
      intro claims_bnd leaves_intros, assumption)

lemma core_claims: "claims (dep_env d) (req_tenant r) (req_operation r) (req_key r) (core d r)"
  by (cases r) (simp_all add: core_def claims_bodies claims_upload discard_frames(4))

lemma core_quiet: "quiet (core d r)"
  by (cases r) (simp_all add: core_def quiet_bodies quiet_document_bodies verify_frames discard_frames(1))

lemma core_confined: "confined (core d r)"
  by (cases r) (simp_all add: core_def confined_bodies confined_document_bodies verify_frames discard_frames(2))

interpretation requests: idempotent_command "dep_env d" req_tenant req_operation req_key "core d"
  for d :: "'x deployment"
  by unfold_locales (rule core_claims, rule core_quiet, rule core_confined)

text \<open>Each handler interprets the contract on its own, too: the callers of one handler need not know
  of the others.\<close>

interpretation create: idempotent_command env cc_tenant "\<lambda>_. ''create_application''" cc_key "create_application_body env"
  for env
  by unfold_locales (rule claims_bodies, intro quiet_intros, intro confined_intros)

interpretation upload: idempotent_command env c_tenant "\<lambda>_. ''upload_document''" c_key "upload_body env ports"
  for env and ports :: "'x document_ports"
  by unfold_locales (rule claims_upload, intro quiet_intros, intro confined_intros)

interpretation decision: idempotent_command env c_tenant "\<lambda>_. ''apply_review_decision''" c_key "apply_decision_body env"
  for env
  by unfold_locales (rule claims_bodies, intro quiet_intros, intro confined_intros)

subsection \<open>Serving a request is running its transaction\<close>

text \<open>A decision outside the allowed four is refused before the transaction.\<close>

fun refused :: "request \<Rightarrow> bool" where
  "refused (Decide c) \<longleftrightarrow> c_decision c \<notin> set ALLOWED_DECISIONS"
| "refused _ \<longleftrightarrow> False"

lemma transaction_discard: "discard (transaction t m) w = transaction t (discard m) w"
  by (auto simp: discard_def transaction_def with_uow_def bnd_def split: prod.splits sum.splits)

lemma start_after_db: "\<exists>y w'. start_after runner s c a w = (Inr y, w') \<and> w_db w' = w_db w"
  by (auto simp: start_after_def start_best_effort_def bnd_def try_except_def external_def Let_def
      split: option.splits prod.splits sum.splits)

lemma discard_start_after:
  assumes "transaction t m w = (r0, w0)"
  shows "\<exists>w1. discard (bnd (transaction t m) (start_after runner s c)) w = (map_sum id (\<lambda>_. ()) r0, w1) \<and>
    w_db w1 = w_db w0 \<and> (isl r0 \<longrightarrow> w1 = w0)"
proof (cases r0)
  case (Inl e)
  with assms show ?thesis by (simp add: discard_def bnd_def)
next
  case (Inr a)
  obtain y w1 where "start_after runner s c a w0 = (Inr y, w1)" "w_db w1 = w_db w0"
    using start_after_db [of runner s c a w0] by blast
  with assms Inr show ?thesis by (simp add: discard_def bnd_def)
qed

lemma transaction_discard_result:
  "transaction t m w = (r0, w0) \<Longrightarrow> transaction t (discard m) w = (map_sum id (\<lambda>_. ()) r0, w0)"
  using transaction_discard [of t m w] by (cases r0) (auto simp: discard_def bnd_def)

lemma serve_core:
  assumes "\<not> refused r" "transaction (req_tenant r) (core d r) w = (r0, w0)"
  shows "\<exists>w1. serve d r w = (r0, w1) \<and> w_db w1 = w_db w0 \<and> (isl r0 \<longrightarrow> w1 = w0)"
proof -
  have tail: "\<exists>w1. discard (bnd (transaction t m) (start_after runner s c)) w = (r0, w1) \<and>
      w_db w1 = w_db w0 \<and> (isl r0 \<longrightarrow> w1 = w0)"
    if "transaction t (discard m) w = (r0, w0)" for t m runner s c
  proof -
    obtain q v where q: "transaction t m w = (q, v)" by fastforce
    from transaction_discard_result [OF q] that have "r0 = map_sum id (\<lambda>_. ()) q" "w0 = v" by simp_all
    with discard_start_after [OF q, of runner s c] show ?thesis by (cases q) auto
  qed
  show ?thesis
    using assms tail
    by (cases r) (simp_all add: core_def serve_def create_application_def submit_application_def
        resubmit_application_def advance_intake_validation_def advance_document_processing_def
        enter_human_review_handler_def apply_review_decision_def upload_document_def process_document_def
        verify_application_facts_def transaction_discard raise_if_def Let_def)
qed

lemma serve_refused: "refused r \<Longrightarrow> \<exists>e. serve d r w = (Inl e, w)"
  by (cases r) (simp_all add: serve_def apply_review_decision_def discard_def raise_if_def bnd_def Let_def)

end
