(* ===== verification/Messaging.thy ===== *)
theory Messaging
  imports Commands
begin

text \<open>
  \<open>infrastructure/kafka\<close>: the relay that publishes unpublished outbox rows, tenant by tenant, and
  the consumer that maintains the status projection from the published events, with the inbox table
  as its memory of what it has applied.  The broker is a parameter: \<open>publish\<close> of a key and a value
  may succeed or raise.  Rows are not locked by other relays (no transaction runs beside another in
  the model), so \<open>SKIP LOCKED\<close> skips nothing; the order of rows with the same creation time is the
  database's choice.
\<close>

subsection \<open>The envelope\<close>

definition PRODUCER_NAME :: string where
  "PRODUCER_NAME = ''finassist-api''"

definition DATA_CLASSIFICATION :: string where
  "DATA_CLASSIFICATION = ''internal''"

definition opt_str :: "string option \<Rightarrow> pyval" where
  "opt_str s = (case s of None \<Rightarrow> PNone | Some t \<Rightarrow> PStr t)"

definition build_envelope :: "outbox_row \<Rightarrow> pyval" where
  "build_envelope row = PDict
     [(''event_id'', PStr (ob_id row)), (''event_type'', PStr (ob_event_type row)),
      (''schema_version'', PInt (ob_schema_version row)),
      (''occurred_at'', PStr (isoformat (ob_occurred_at row))), (''producer'', PStr PRODUCER_NAME),
      (''tenant_id'', PStr (ob_tenant row)), (''application_id'', PStr (ob_aggregate_id row)),
      (''correlation_id'', opt_str (ob_correlation_id row)),
      (''causation_id'', opt_str (ob_causation_id row)), (''traceparent'', PNone),
      (''data_classification'', PStr DATA_CLASSIFICATION), (''payload'', ob_payload row)]"

text \<open>\<open>json.dumps(envelope).encode()\<close>: ASCII, with the default separators.\<close>

definition message_of :: "outbox_row \<Rightarrow> string" where
  "message_of row = json_dumps '', '' '': '' (build_envelope row)"

subsection \<open>The relay\<close>

record 'x broker =
  br_publish :: "string \<Rightarrow> string \<Rightarrow> 'x \<Rightarrow> (py_error + unit) \<times> 'x"
  br_order :: "outbox_row list \<Rightarrow> outbox_row list"

definition unpublished :: "string \<Rightarrow> string \<Rightarrow> db \<Rightarrow> outbox_row list" where
  "unpublished tenant_id scope d =
     filter (\<lambda>r. ob_tenant r = tenant_id \<and> ob_published_at r = None) (visible ob_tenant scope (db_outbox d))"

definition mark_published :: "string \<Rightarrow> datetime \<Rightarrow> string \<Rightarrow> db \<Rightarrow> py_error + db" where
  "mark_published event_id now scope d =
     Inr (d\<lparr>db_outbox := tbl_update ob_id event_id
       (\<lambda>r. if ob_tenant r = scope then r\<lparr>ob_published_at := Some now\<rparr> else r) (db_outbox d)\<rparr>)"

definition relay_row :: "env \<Rightarrow> 'x broker \<Rightarrow> outbox_row \<Rightarrow> ('x, unit) handler" where
  "relay_row env br row =
     bnd (external (br_publish br (ob_aggregate_id row) (message_of row))) (\<lambda>_.
     bnd (clock_now env) (\<lambda>now. execute (mark_published (ob_id row) now)))"

definition relay_body :: "env \<Rightarrow> 'x broker \<Rightarrow> string \<Rightarrow> nat \<Rightarrow> ('x, nat) handler" where
  "relay_body env br tenant_id batch_size =
     bnd (query (\<lambda>scope d. take batch_size (sort_key ob_created_at (br_order br (unpublished tenant_id scope d)))))
       (\<lambda>rows. bnd (map_each (relay_row env br) rows) (\<lambda>_. ret (length rows)))"

definition relay_tenant_batch :: "env \<Rightarrow> 'x broker \<Rightarrow> nat \<Rightarrow> string \<Rightarrow> ('x, nat) handler" where
  "relay_tenant_batch env br batch_size tenant_id = transaction tenant_id (relay_body env br tenant_id batch_size)"

text \<open>A session without a tenant setting, closed without a commit.\<close>

definition list_tenant_ids :: "('x, string list) handler" where
  "list_tenant_ids = with_uow [] (query (\<lambda>_ d. db_tenants d))"

definition relay_once :: "env \<Rightarrow> 'x broker \<Rightarrow> nat \<Rightarrow> ('x, nat) handler" where
  "relay_once env br batch_size =
     bnd list_tenant_ids (\<lambda>tenant_ids.
     bnd (map_each (relay_tenant_batch env br batch_size) tenant_ids) (\<lambda>ns. ret (sum_list ns)))"

definition unpublished_backlog_size :: "('x, nat) handler" where
  "unpublished_backlog_size =
     bnd list_tenant_ids (\<lambda>tenant_ids.
     bnd (map_each (\<lambda>t. with_uow t (query (\<lambda>scope d. length (unpublished t scope d)))) tenant_ids)
       (\<lambda>ns. ret (sum_list ns)))"

subsection \<open>The consumer\<close>

definition PROJECTED_EVENT_TYPES :: "string list" where
  "PROJECTED_EVENT_TYPES = [''ApplicationCreated'', ''ApplicationStateChanged'']"

text \<open>A value on its way into a text or an integer column.\<close>

definition as_text :: "pyval \<Rightarrow> py_error + string" where
  "as_text v = (case v of PStr s \<Rightarrow> Inr s | _ \<Rightarrow> Inl (DataError ''expected a text value''))"

definition as_integer :: "pyval \<Rightarrow> py_error + int" where
  "as_integer v = (case v of PInt i \<Rightarrow> Inr i | _ \<Rightarrow> Inl (DataError ''expected an integer value''))"

definition field :: "pyval \<Rightarrow> string \<Rightarrow> py_error + string" where
  "field envelope k = bind_result (dict_get envelope k) as_text"

definition projected_fields :: "pyval \<Rightarrow> string \<Rightarrow> py_error + string \<times> int" where
  "projected_fields envelope event_type =
     (if event_type = ''ApplicationCreated'' then Inr (''DRAFT'', 1)
      else bind_result (dict_get envelope ''payload'') (\<lambda>payload.
           bind_result (field payload ''new_status'') (\<lambda>status.
           bind_result (bind_result (dict_get payload ''version'') as_integer) (\<lambda>version. Inr (status, version)))))"

definition update_projection ::
  "string \<Rightarrow> (projection_row \<Rightarrow> projection_row) \<Rightarrow> string \<Rightarrow> db \<Rightarrow> py_error + db" where
  "update_projection application_id f scope d =
     (case tbl_find sp_application application_id (visible sp_tenant scope (db_projections d)) of
        None \<Rightarrow> Inr d
      | Some r \<Rightarrow> bind_result (guard_row (fits_int32 (sp_version (f r))) True ''status_projection'' [])
          (\<lambda>_. Inr (d\<lparr>db_projections := tbl_update sp_application application_id
             (\<lambda>r. if sp_tenant r = scope then f r else r) (db_projections d)\<rparr>)))"

definition project_event :: "pyval \<Rightarrow> string \<Rightarrow> ('x, unit) handler" where
  "project_event envelope event_type =
     bnd (lift_result (field envelope ''application_id'')) (\<lambda>application_id.
     bnd (query (\<lambda>scope d. tbl_find sp_application application_id (visible sp_tenant scope (db_projections d)))) (\<lambda>row.
     bnd (lift_result (bind_result (field envelope ''occurred_at'') fromisoformat)) (\<lambda>occurred_at.
     bnd (lift_result (projected_fields envelope event_type)) (\<lambda>(status, version).
       case row of
         None \<Rightarrow> bnd (lift_result (field envelope ''tenant_id'')) (\<lambda>tenant_id.
           execute (insert_projection
             \<lparr>sp_application = application_id, sp_tenant = tenant_id, sp_status = status,
              sp_version = version, sp_updated_at = occurred_at\<rparr>))
       | Some r \<Rightarrow>
           if sp_version r \<le> version
           then execute (update_projection application_id
             (\<lambda>r. r\<lparr>sp_status := status, sp_version := version, sp_updated_at := occurred_at\<rparr>))
           else ret ()))))"

text \<open>\<open>_apply_event\<close>: \<open>False\<close> when the inbox already knows the event.\<close>

definition apply_event :: "env \<Rightarrow> string \<Rightarrow> pyval \<Rightarrow> ('x, bool) handler" where
  "apply_event env consumer_name envelope =
     bnd (lift_result (field envelope ''event_id'')) (\<lambda>event_id.
     bnd (clock_now env) (\<lambda>now.
     bnd (try_except
            (bnd (execute (insert_inbox
               \<lparr>in_event_id = event_id, in_consumer = consumer_name, in_processed_at = now\<rparr>)) (\<lambda>_. ret True))
            (\<lambda>e. case e of IntegrityError _ \<Rightarrow> bnd rollback (\<lambda>_. ret False) | _ \<Rightarrow> raise e)) (\<lambda>fresh.
       if \<not> fresh then ret False
       else bnd (lift_result (field envelope ''event_type'')) (\<lambda>event_type.
         bnd (if event_type \<in> set PROJECTED_EVENT_TYPES then project_event envelope event_type else ret ()) (\<lambda>_.
         bnd commit (\<lambda>_. ret True))))))"

definition process_record :: "env \<Rightarrow> string \<Rightarrow> string \<Rightarrow> ('x, bool) handler" where
  "process_record env consumer_group value =
     bnd (lift_result (json_loads value)) (\<lambda>envelope.
     bnd (lift_result (field envelope ''tenant_id'')) (\<lambda>tenant_id.
       with_uow tenant_id (apply_event env consumer_group envelope)))"

text \<open>One polled partition batch, and the polls of the loop until it is told to stop: the offset is
  committed after the records of a batch.\<close>

definition consume_batch ::
  "env \<Rightarrow> string \<Rightarrow> ('x \<Rightarrow> (py_error + unit) \<times> 'x) \<Rightarrow> string list \<Rightarrow> ('x, unit) handler" where
  "consume_batch env consumer_group commit_offsets records =
     bnd (map_each (process_record env consumer_group) records) (\<lambda>_. external commit_offsets)"

definition run_projection_consumer ::
  "env \<Rightarrow> string \<Rightarrow> ('x \<Rightarrow> (py_error + unit) \<times> 'x) \<Rightarrow> string list list list \<Rightarrow> ('x, unit) handler" where
  "run_projection_consumer env consumer_group commit_offsets polls =
     bnd (map_each (\<lambda>batches. bnd (map_each (consume_batch env consumer_group commit_offsets) batches) (\<lambda>_. ret ())) polls)
       (\<lambda>_. ret ())"

end
