(* ===== verification/Relay.thy ===== *)
theory Relay
  imports Messaging
begin

text \<open>
  What the outbox relay guarantees: no event is marked published before the broker took it, whatever
  fails and wherever; a sweep that meets no failure publishes the oldest unpublished rows of every
  tenant and shrinks each backlog by the batch size; and the audit log keeps matching the outbox.
\<close>

definition strip :: "outbox_row \<Rightarrow> outbox_row" where
  "strip r = r\<lparr>ob_published_at := None\<rparr>"

lemma strip_fields [simp]:
  "ob_id (strip r) = ob_id r" "ob_tenant (strip r) = ob_tenant r" "ob_aggregate_id (strip r) = ob_aggregate_id r"
  "message_of (strip r) = message_of r" "outbox_key (strip r) = outbox_key r"
  by (simp_all add: strip_def message_of_def build_envelope_def outbox_key_def)

lemma strip_eqD:
  "strip r = strip q \<Longrightarrow> ob_id r = ob_id q \<and> ob_tenant r = ob_tenant q \<and> ob_aggregate_id r = ob_aggregate_id q
     \<and> message_of r = message_of q"
  by (metis strip_fields)

text \<open>The log of a broker: what has been acknowledged.  Nothing is ever taken out of it.\<close>

definition delivers :: "('x \<Rightarrow> (string \<times> string) set) \<Rightarrow> 'x broker \<Rightarrow> bool" where
  "delivers acked br \<longleftrightarrow> (\<forall>k v x. case br_publish br k v x of
     (Inl _, x') \<Rightarrow> acked x \<subseteq> acked x' | (Inr _, x') \<Rightarrow> insert (k, v) (acked x) \<subseteq> acked x')"

lemma deliversD:
  assumes "delivers acked br" "br_publish br k v x = (r, x')"
  shows "acked x \<subseteq> acked x'" "r = Inr u \<Longrightarrow> (k, v) \<in> acked x'"
  using assms(1) [unfolded delivers_def, rule_format, where k = k and v = v and x = x] assms(2) by (auto split: sum.splits)

definition sent :: "('x \<Rightarrow> (string \<times> string) set) \<Rightarrow> db \<Rightarrow> 'x \<Rightarrow> bool" where
  "sent acked d x \<longleftrightarrow> (\<forall>r \<in> set (db_outbox d). ob_published_at r \<noteq> None \<longrightarrow>
     (ob_aggregate_id r, message_of r) \<in> acked x)"

lemma sent_mono: "sent acked d x \<Longrightarrow> acked x \<subseteq> acked x' \<Longrightarrow> sent acked d x'"
  by (auto simp: sent_def)

lemma aexit_ext [simp]: "w_ext (aexit w) = w_ext w"
  by (simp add: aexit_def Let_def)

subsection \<open>One row\<close>

lemma mark_published_strip:
  "mark_published i now scope d = Inr d' \<Longrightarrow> map strip (db_outbox d') = map strip (db_outbox d)"
  by (auto simp: mark_published_def tbl_update_def strip_def)

lemma mark_published_sent:
  assumes "mark_published (ob_id row) now scope d = Inr d'" "sent acked d x" "(ob_aggregate_id row, message_of row) \<in> acked x"
    "distinct (map ob_id (db_outbox d))" "strip row \<in> strip ` set (db_outbox d)"
  shows "sent acked d' x"
proof -
  have "(ob_aggregate_id r, message_of r) \<in> acked x" if "r \<in> set (db_outbox d)" "ob_id r = ob_id row" for r
  proof -
    from assms(5) obtain q where q: "q \<in> set (db_outbox d)" "strip q = strip row" by auto
    then have "ob_id q = ob_id row" using strip_eqD by blast
    with that q(1) assms(4) have "r = q" by (metis distinct_map inj_onD)
    with q(2) assms(3) show ?thesis using strip_eqD [of q row] by simp
  qed
  moreover have "db_outbox d' = tbl_update ob_id (ob_id row)
      (\<lambda>r. if ob_tenant r = scope then r\<lparr>ob_published_at := Some now\<rparr> else r) (db_outbox d)"
    using assms(1) by (auto simp: mark_published_def)
  moreover have "message_of (r\<lparr>ob_published_at := p\<rparr>) = message_of r" for r p
    by (simp add: message_of_def build_envelope_def)
  ultimately show ?thesis using assms(2)
    by (auto simp: sent_def tbl_update_def split: if_splits)
qed

text \<open>The state inside a batch: the rows are those of the committed outbox but for the publication
  times, and whatever is marked, in the session or in the committed database, was acknowledged.\<close>

definition relaying :: "('x \<Rightarrow> (string \<times> string) set) \<Rightarrow> outbox_row list \<Rightarrow> 'x world \<Rightarrow> bool" where
  "relaying acked rows w \<longleftrightarrow> map strip (db_outbox (w_sess w)) = rows \<and>
     sent acked (w_sess w) (w_ext w) \<and> sent acked (w_db w) (w_ext w)"

lemma hoare_relay_row:
  assumes "delivers acked br" "distinct (map ob_id rows)" "strip row \<in> set rows"
  shows "hoare (relaying acked rows) (relay_row env br row) (\<lambda>_. relaying acked rows) (\<lambda>_ w. sent acked (w_db w) (w_ext w))"
  unfolding hoare_def
proof (intro allI impI)
  fix w :: "'a world" assume I: "relaying acked rows w"
  obtain r x where p: "br_publish br (ob_aggregate_id row) (message_of row) (w_ext w) = (r, x)" by fastforce
  show "case relay_row env br row w of (Inl e, s') \<Rightarrow> sent acked (w_db s') (w_ext s') | (Inr y, s') \<Rightarrow> relaying acked rows s'"
  proof (cases r)
    case (Inl e)
    with I p Inl deliversD(1) [OF assms(1) p] show ?thesis by (auto simp: relay_row_def external_def bnd_def relaying_def intro: sent_mono)
  next
    case (Inr u)
    note x = deliversD(1) [OF assms(1) p] deliversD(2) [OF assms(1) p Inr]
    obtain d where d: "mark_published (ob_id row) (e_clock env (w_clk w)) (w_scope w) (w_sess w) = Inr d"
      by (simp add: mark_published_def)
    have ids: "map ob_id (db_outbox (w_sess w)) = map ob_id rows"
      using I by (auto simp: relaying_def comp_def)
    have "sent acked d x"
      using mark_published_sent [OF d sent_mono [where x = "w_ext w", OF _ x(1)] x(2)] I assms(2,3) ids
      by (auto simp: relaying_def)
    moreover have "map strip (db_outbox d) = rows"
      using mark_published_strip [OF d] I by (simp add: relaying_def)
    moreover have "sent acked (w_db w) x" using I x(1) by (auto simp: relaying_def intro: sent_mono)
    ultimately show ?thesis using p Inr d
      by (simp add: relay_row_def external_def bnd_def execute_def relaying_def)
  qed
qed

lemma hoare_map_each:
  assumes "\<And>x. x \<in> set xs \<Longrightarrow> hoare I (f x) (\<lambda>_. I) E"
  shows "hoare I (map_each f xs) (\<lambda>_. I) E"
  using assms
proof (induction xs)
  case (Cons x xs)
  show ?case unfolding map_each.simps
    by (intro hoare_bnd [OF Cons.prems] hoare_bnd [OF Cons.IH] Cons.prems) (auto simp: hoare_def)
qed (auto simp: hoare_def)

lemma relay_tenant_batch_sent:
  assumes "delivers acked br" "distinct (map ob_id (db_outbox (w_db w)))" "\<And>rows. mset (br_order br rows) = mset rows"
    "sent acked (w_db w) (w_ext w)" "relay_tenant_batch env br n t w = (r, w')"
  shows "sent acked (w_db w') (w_ext w') \<and> map strip (db_outbox (w_db w')) = map strip (db_outbox (w_db w))"
proof -
  let ?w = "aenter t w"
  define S where "S = map strip (db_outbox (w_db w))"
  define rows where "rows = take n (sort_key ob_created_at (br_order br (unpublished t t (w_db w))))"
  have "set rows \<subseteq> set (br_order br (unpublished t t (w_db w)))"
    unfolding rows_def by (metis set_sort set_take_subset)
  also have "\<dots> = set (unpublished t t (w_db w))" using assms(3) by (metis set_mset_mset)
  finally have sub: "strip row \<in> set S" if "row \<in> set rows" for row
    using that by (auto simp: S_def unpublished_def visible_def)
  have dist: "distinct (map ob_id S)" using assms(2) by (simp add: S_def comp_def)
  have pre: "relaying acked S ?w" using assms(4) by (simp add: relaying_def S_def)
  obtain q v where loop: "map_each (relay_row env br) rows ?w = (q, v)" by fastforce
  have triple: "hoare (relaying acked S) (map_each (relay_row env br) rows) (\<lambda>_. relaying acked S)
      (\<lambda>_ w. sent acked (w_db w) (w_ext w))"
    by (intro hoare_map_each hoare_relay_row assms(1) dist sub)
  have run: "relay_body env br t n ?w = (case q of Inl e \<Rightarrow> (Inl e, v) | Inr _ \<Rightarrow> (Inr (length rows), v))"
    using loop by (simp add: relay_body_def bnd_def rows_def split: sum.splits)
  have quiet: "quiet (map_each (relay_row env br) rows)"
    unfolding relay_row_def by (intro quiet_intros)
  show ?thesis
  proof (cases q)
    case (Inl e)
    then have "sent acked (w_db v) (w_ext v)" "w_db v = w_db w"
      using hoareD_Inl [OF triple pre] loop staysD [OF quiet loop] by (simp_all add: same_committed_def)
    with run Inl assms(5) show ?thesis
      by (auto simp: relay_tenant_batch_def transaction_def with_uow_def bnd_def)
  next
    case (Inr us)
    then have "relaying acked S v" using hoareD_Inr [OF triple pre] loop by simp
    with run Inr assms(5) show ?thesis
      by (auto simp: relay_tenant_batch_def transaction_def with_uow_def bnd_def commit_def relaying_def S_def)
  qed
qed

lemma list_tenant_ids_run: "\<exists>w'. list_tenant_ids w = (Inr (db_tenants (w_db w)), w') \<and> w_db w' = w_db w \<and> w_ext w' = w_ext w"
  by (simp add: list_tenant_ids_def with_uow_def)

subsection \<open>A sweep never marks what was not taken\<close>

lemma hoare_relay_once:
  assumes "delivers acked br" "\<And>rows. mset (br_order br rows) = mset rows" "distinct (map ob_id rows)"
  defines "I \<equiv> \<lambda>w. sent acked (w_db w) (w_ext w) \<and> map strip (db_outbox (w_db w)) = rows"
  shows "hoare I (relay_once env br n) (\<lambda>_. I) (\<lambda>_. I)"
proof -
  have batch: "hoare I (relay_tenant_batch env br n t) (\<lambda>_. I) (\<lambda>_. I)" for t
    unfolding hoare_def
  proof (intro allI impI)
    fix w assume I: "I w"
    then have "map ob_id (db_outbox (w_db w)) = map ob_id rows" by (auto simp: I_def comp_def)
    with I assms(3) relay_tenant_batch_sent [OF assms(1) _ assms(2), of w env n t]
    show "case relay_tenant_batch env br n t w of (Inl e, s') \<Rightarrow> I s' | (Inr x, s') \<Rightarrow> I s'"
      by (cases "relay_tenant_batch env br n t w") (auto simp: I_def split: sum.splits)
  qed
  have listed: "hoare I list_tenant_ids (\<lambda>_. I) (\<lambda>_. I)"
    unfolding hoare_def
  proof (intro allI impI)
    fix w assume "I w"
    with list_tenant_ids_run [of w]
    show "case list_tenant_ids w of (Inl e, s') \<Rightarrow> I s' | (Inr x, s') \<Rightarrow> I s'" by (auto simp: I_def)
  qed
  show ?thesis unfolding relay_once_def
    by (intro hoare_bnd [OF listed] hoare_bnd [OF hoare_map_each] batch) (auto simp: hoare_def)
qed

text \<open>C18: the relay never loses an event.  Whatever the broker does, and wherever a sweep stops, every
  outbox row that is marked as published is a message the broker has acknowledged (under its case's
  key, with the event's own envelope); and a sweep changes nothing of the outbox but publication
  times.  A row whose publication failed is still unmarked and will be sent by a later sweep.\<close>

theorem relay_marks_only_acknowledged:
  assumes "delivers acked br" "\<And>rows. mset (br_order br rows) = mset rows"
    "distinct (map ob_id (db_outbox (w_db w)))" "sent acked (w_db w) (w_ext w)"
    "relay_once env br n w = (r, w')"
  shows "sent acked (w_db w') (w_ext w') \<and> map strip (db_outbox (w_db w')) = map strip (db_outbox (w_db w))"
proof -
  have "distinct (map ob_id (map strip (db_outbox (w_db w))))" using assms(3) by (simp add: comp_def)
  note triple = hoare_relay_once [OF assms(1,2) this, of env n]
  show ?thesis
  proof (cases r)
    case (Inl e)
    from hoareD_Inl [OF triple _ assms(5) [unfolded Inl]] assms(4) show ?thesis by simp
  next
    case (Inr y)
    from hoareD_Inr [OF triple _ assms(5) [unfolded Inr]] assms(4) show ?thesis by simp
  qed
qed

subsection \<open>A sweep that meets no failure\<close>

definition healthy :: "'x broker \<Rightarrow> bool" where
  "healthy br \<longleftrightarrow> (\<forall>k v x. \<exists>x'. br_publish br k v x = (Inr (), x'))"

definition backlog :: "string \<Rightarrow> db \<Rightarrow> nat" where
  "backlog t d = length (unpublished t t d)"

lemma unpublished_mark:
  assumes "mark_published i now t d = Inr d'"
  shows "unpublished u u d' = (if u = t then filter (\<lambda>r. ob_id r \<noteq> i) (unpublished u u d) else unpublished u u d)"
proof -
  have out: "db_outbox d' = tbl_update ob_id i
      (\<lambda>r. if ob_tenant r = t then r\<lparr>ob_published_at := Some now\<rparr> else r) (db_outbox d)"
    using assms by (auto simp: mark_published_def)
  have "filter (\<lambda>r. ob_tenant r = u \<and> ob_published_at r = None) (tbl_update ob_id i
      (\<lambda>r. if ob_tenant r = t then r\<lparr>ob_published_at := Some now\<rparr> else r) rows)
    = filter (\<lambda>r. (u = t \<longrightarrow> ob_id r \<noteq> i) \<and> ob_tenant r = u \<and> ob_published_at r = None) rows" for rows
    by (induction rows) auto
  then show ?thesis by (auto simp: unpublished_def visible_def out conj_ac)
qed

lemma relay_rows_run:
  assumes "healthy br" "w_scope w = t"
  shows "\<exists>us v. map_each (relay_row env br) rows w = (Inr us, v) \<and> w_scope v = t \<and> w_db v = w_db w \<and>
    map strip (db_outbox (w_sess v)) = map strip (db_outbox (w_sess w)) \<and> db_tenants (w_sess v) = db_tenants (w_sess w) \<and>
    (\<forall>u. unpublished u u (w_sess v) = (if u = t then filter (\<lambda>r. ob_id r \<notin> ob_id ` set rows) (unpublished u u (w_sess w))
       else unpublished u u (w_sess w)))"
  using assms(2)
proof (induction rows arbitrary: w)
  case Nil
  then show ?case by simp
next
  case (Cons row rows)
  obtain x where x: "br_publish br (ob_aggregate_id row) (message_of row) (w_ext w) = (Inr (), x)"
    using assms(1) unfolding healthy_def by blast
  obtain d where d: "mark_published (ob_id row) (e_clock env (w_clk w)) t (w_sess w) = Inr d"
    by (simp add: mark_published_def)
  define w1 where "w1 = w\<lparr>w_ext := x, w_clk := w_clk w + 1, w_sess := d\<rparr>"
  have one: "relay_row env br row w = (Inr (), w1)"
    using x d Cons.prems by (simp add: relay_row_def external_def bnd_def execute_def w1_def)
  have "w_scope w1 = t" using Cons.prems by (simp add: w1_def)
  from Cons.IH [OF this] obtain us v where v: "map_each (relay_row env br) rows w1 = (Inr us, v)" "w_scope v = t"
    "w_db v = w_db w1" "map strip (db_outbox (w_sess v)) = map strip (db_outbox (w_sess w1))"
    "db_tenants (w_sess v) = db_tenants (w_sess w1)"
    "\<forall>u. unpublished u u (w_sess v) = (if u = t then filter (\<lambda>r. ob_id r \<notin> ob_id ` set rows) (unpublished u u (w_sess w1))
       else unpublished u u (w_sess w1))" by blast
  have "db_tenants d = db_tenants (w_sess w)" using d by (auto simp: mark_published_def)
  with one v unpublished_mark [OF d] mark_published_strip [OF d] show ?case
    by (auto simp: bnd_def w1_def conj_commute)
qed

lemma relay_tenant_batch_run:
  assumes "healthy br" "\<And>rows. mset (br_order br rows) = mset rows" "distinct (map ob_id (db_outbox (w_db w)))"
  shows "\<exists>w'. relay_tenant_batch env br n t w = (Inr (min n (backlog t (w_db w))), w') \<and>
    map strip (db_outbox (w_db w')) = map strip (db_outbox (w_db w)) \<and> db_tenants (w_db w') = db_tenants (w_db w) \<and>
    (\<forall>u. backlog u (w_db w') = (if u = t then backlog u (w_db w) - n else backlog u (w_db w)))"
proof -
  define U where "U = unpublished t t (w_db w)"
  define sorted where "sorted = sort_key ob_created_at (br_order br U)"
  have perm: "mset sorted = mset U" by (simp add: sorted_def assms(2))
  have len: "length (take n sorted) = min n (length U)" using mset_eq_length [OF perm] by simp
  have "distinct (map ob_id U)"
    unfolding U_def unpublished_def visible_def using assms(3) by (simp add: distinct_map_filter)
  then have dist: "distinct (map ob_id (take n sorted @ drop n sorted))"
    using mset_eq_imp_distinct_iff [of "map ob_id sorted" "map ob_id U"] perm by simp
  obtain us v where v: "map_each (relay_row env br) (take n sorted) (aenter t w) = (Inr us, v)"
    "map strip (db_outbox (w_sess v)) = map strip (db_outbox (w_db w))" "db_tenants (w_sess v) = db_tenants (w_db w)"
    "\<forall>u. unpublished u u (w_sess v) = (if u = t then filter (\<lambda>r. ob_id r \<notin> ob_id ` set (take n sorted)) (unpublished u u (w_db w))
       else unpublished u u (w_db w))"
    using relay_rows_run [OF assms(1), of "aenter t w" t env "take n sorted"] by auto
  have "length (filter (\<lambda>r. ob_id r \<notin> ob_id ` set (take n sorted)) U)
      = length (filter (\<lambda>r. ob_id r \<notin> ob_id ` set (take n sorted)) (take n sorted @ drop n sorted))"
    using perm by (metis append_take_drop_id mset_filter size_mset)
  also have "filter (\<lambda>r. ob_id r \<notin> ob_id ` set (take n sorted)) (take n sorted @ drop n sorted) = drop n sorted"
    using dist by (auto simp: filter_empty_conv filter_id_conv disjoint_iff simp del: append_take_drop_id)
  finally have "length (filter (\<lambda>r. ob_id r \<notin> ob_id ` set (take n sorted)) U) = length U - n"
    using mset_eq_length [OF perm] by simp
  moreover have "relay_tenant_batch env br n t w = (Inr (min n (backlog t (w_db w))),
      aexit (v\<lparr>w_db := w_sess v, w_done := True\<rparr>))"
    using v(1) len by (simp add: relay_tenant_batch_def transaction_def with_uow_def relay_body_def bnd_def
        commit_def sorted_def U_def backlog_def)
  ultimately show ?thesis using v(2-4) by (simp add: backlog_def U_def)
qed

lemma relay_sweep_run:
  assumes "healthy br" "\<And>rows. mset (br_order br rows) = mset rows"
  shows "distinct ts \<Longrightarrow> distinct (map ob_id (db_outbox (w_db w))) \<Longrightarrow>
    \<exists>w'. map_each (relay_tenant_batch env br n) ts w = (Inr (map (\<lambda>t. min n (backlog t (w_db w))) ts), w') \<and>
      map strip (db_outbox (w_db w')) = map strip (db_outbox (w_db w)) \<and> db_tenants (w_db w') = db_tenants (w_db w) \<and>
      (\<forall>u. backlog u (w_db w') = (if u \<in> set ts then backlog u (w_db w) - n else backlog u (w_db w)))"
proof (induction ts arbitrary: w)
  case Nil
  then show ?case by simp
next
  case (Cons t ts)
  obtain w1 where w1: "relay_tenant_batch env br n t w = (Inr (min n (backlog t (w_db w))), w1)"
    "map strip (db_outbox (w_db w1)) = map strip (db_outbox (w_db w))" "db_tenants (w_db w1) = db_tenants (w_db w)"
    "\<forall>u. backlog u (w_db w1) = (if u = t then backlog u (w_db w) - n else backlog u (w_db w))"
    using relay_tenant_batch_run [OF assms Cons.prems(2)] by blast
  have "map ob_id (db_outbox (w_db w1)) = map ob_id (db_outbox (w_db w))"
    using arg_cong [OF w1(2), of "map ob_id"] by (simp add: comp_def)
  with Cons.prems Cons.IH [of w1] obtain w' where
    "map_each (relay_tenant_batch env br n) ts w1 = (Inr (map (\<lambda>t. min n (backlog t (w_db w1))) ts), w')"
    "map strip (db_outbox (w_db w')) = map strip (db_outbox (w_db w1))" "db_tenants (w_db w') = db_tenants (w_db w1)"
    "\<forall>u. backlog u (w_db w') = (if u \<in> set ts then backlog u (w_db w1) - n else backlog u (w_db w1))" by auto
  moreover have "map (\<lambda>t. min n (backlog t (w_db w1))) ts = map (\<lambda>t. min n (backlog t (w_db w))) ts"
    using Cons.prems(1) w1(4) by auto
  ultimately show ?case using w1 Cons.prems(1) by (auto simp: bnd_def)
qed

text \<open>One sweep returns, publishes up to \<open>batch_size\<close> rows of every tenant and shrinks the backlog of every
  tenant by exactly that many, so that one tenant's backlog never holds up another's.\<close>

lemma relay_sweep:
  assumes "healthy br" "\<And>rows. mset (br_order br rows) = mset rows"
    "distinct (map ob_id (db_outbox (w_db w)))" "distinct (db_tenants (w_db w))"
  shows "\<exists>w'. relay_once env br batch_size w
      = (Inr (\<Sum>t\<leftarrow>db_tenants (w_db w). min batch_size (backlog t (w_db w))), w') \<and>
    map strip (db_outbox (w_db w')) = map strip (db_outbox (w_db w)) \<and> db_tenants (w_db w') = db_tenants (w_db w) \<and>
    (\<forall>t \<in> set (db_tenants (w_db w)). backlog t (w_db w') = backlog t (w_db w) - batch_size)"
proof -
  obtain w1 where w1: "list_tenant_ids w = (Inr (db_tenants (w_db w)), w1)" "w_db w1 = w_db w"
    using list_tenant_ids_run by blast
  from relay_sweep_run [OF assms(1,2,4), of w1 env batch_size] assms(3) w1 show ?thesis
    by (auto simp: relay_once_def bnd_def)
qed

text \<open>\<open>unpublished_backlog_size\<close> measures what is left.\<close>

lemma backlog_size_run: "\<exists>w'. unpublished_backlog_size w = (Inr (\<Sum>t\<leftarrow>db_tenants (w_db w). backlog t (w_db w)), w')"
proof -
  have counts: "\<exists>w'. map_each (\<lambda>t. with_uow t (query (\<lambda>scope d. length (unpublished t scope d)))) ts w =
      (Inr (map (\<lambda>t. backlog t (w_db w)) ts), w') \<and> w_db w' = w_db w" for ts and w :: "'a world"
  proof (induction ts arbitrary: w)
    case (Cons t ts)
    have "\<exists>w1. with_uow t (query (\<lambda>scope d. length (unpublished t scope d))) w = (Inr (backlog t (w_db w)), w1) \<and> w_db w1 = w_db w"
      by (simp add: with_uow_def backlog_def)
    then obtain w1 where w1: "with_uow t (query (\<lambda>scope d. length (unpublished t scope d))) w = (Inr (backlog t (w_db w)), w1)"
      "w_db w1 = w_db w" by blast
    from Cons [of w1] obtain w2 where "map_each (\<lambda>t. with_uow t (query (\<lambda>scope d. length (unpublished t scope d)))) ts w1 =
      (Inr (map (\<lambda>t. backlog t (w_db w1)) ts), w2)" "w_db w2 = w_db w1" by blast
    with w1 show ?case by (intro exI [of _ w2]) (simp only: map_each.simps bnd_Inr list.map ret_def simp_thms)
  qed simp
  obtain w1 where w1: "list_tenant_ids w = (Inr (db_tenants (w_db w)), w1)" "w_db w1 = w_db w"
    using list_tenant_ids_run by blast
  with counts [of "db_tenants (w_db w)" w1] show ?thesis by (auto simp: unpublished_backlog_size_def bnd_def)
qed

text \<open>C19: the relay makes progress.  While the broker answers, sweeps return and empty the backlog: if no tenant
  has more than \<open>k\<close> batches of unpublished rows, then \<open>k\<close> sweeps publish exactly the rows that were unpublished,
  each once, and afterwards no tenant has a backlog and the program's own count of it is zero.\<close>

theorem relay_drains_backlog:
  assumes "healthy br" "\<And>rows. mset (br_order br rows) = mset rows"
    "distinct (map ob_id (db_outbox (w_db w)))" "distinct (db_tenants (w_db w))"
    "\<And>t. t \<in> set (db_tenants (w_db w)) \<Longrightarrow> backlog t (w_db w) \<le> k * batch_size"
  shows "\<exists>ns w'. map_each (\<lambda>_. relay_once env br batch_size) (replicate k ()) w = (Inr ns, w') \<and>
    sum_list ns = (\<Sum>t\<leftarrow>db_tenants (w_db w). backlog t (w_db w)) \<and>
    (\<forall>t \<in> set (db_tenants (w_db w)). backlog t (w_db w') = 0) \<and> fst (unpublished_backlog_size w') = Inr 0"
proof -
  have "\<exists>ns w'. map_each (\<lambda>_. relay_once env br batch_size) (replicate k ()) w = (Inr ns, w') \<and>
    db_tenants (w_db w') = db_tenants (w_db w) \<and> sum_list ns = (\<Sum>t\<leftarrow>db_tenants (w_db w). backlog t (w_db w)) \<and>
    (\<forall>t \<in> set (db_tenants (w_db w)). backlog t (w_db w') = 0)"
    using assms(3-5)
  proof (induction k arbitrary: w)
    case 0
    then show ?case by (auto intro!: sum_list_0 [symmetric] simp: map_idI)
  next
    case (Suc k)
    let ?ts = "db_tenants (w_db w)"
    obtain w1 where w1: "relay_once env br batch_size w = (Inr (\<Sum>t\<leftarrow>?ts. min batch_size (backlog t (w_db w))), w1)"
      "map strip (db_outbox (w_db w1)) = map strip (db_outbox (w_db w))" "db_tenants (w_db w1) = ?ts"
      "\<forall>t \<in> set ?ts. backlog t (w_db w1) = backlog t (w_db w) - batch_size"
      using relay_sweep [OF assms(1,2) Suc.prems(1,2)] by blast
    have "map ob_id (db_outbox (w_db w1)) = map ob_id (db_outbox (w_db w))"
      using arg_cong [OF w1(2), of "map ob_id"] by (simp add: comp_def)
    moreover have "backlog t (w_db w1) \<le> k * batch_size" if "t \<in> set ?ts" for t
      using Suc.prems(3) [OF that] w1(4) that by simp
    ultimately obtain ns w' where rest: "map_each (\<lambda>_. relay_once env br batch_size) (replicate k ()) w1 = (Inr ns, w')"
      "db_tenants (w_db w') = ?ts" "sum_list ns = (\<Sum>t\<leftarrow>?ts. backlog t (w_db w1))" "\<forall>t \<in> set ?ts. backlog t (w_db w') = 0"
      using Suc.IH [of w1] Suc.prems(1,2) w1(3) by auto
    have "(\<Sum>t\<leftarrow>?ts. min batch_size (backlog t (w_db w))) + (\<Sum>t\<leftarrow>?ts. backlog t (w_db w1)) =
        (\<Sum>t\<leftarrow>?ts. min batch_size (backlog t (w_db w)) + backlog t (w_db w1))"
      by (simp add: sum_list_addf)
    also have "\<dots> = (\<Sum>t\<leftarrow>?ts. backlog t (w_db w))"
      using w1(4) by (intro arg_cong [of _ _ sum_list] map_cong) auto
    finally show ?case using w1(1) rest by (auto simp: bnd_def)
  qed
  then obtain ns w' where run: "map_each (\<lambda>_. relay_once env br batch_size) (replicate k ()) w = (Inr ns, w')"
    "db_tenants (w_db w') = db_tenants (w_db w)" "sum_list ns = (\<Sum>t\<leftarrow>db_tenants (w_db w). backlog t (w_db w))"
    "\<forall>t \<in> set (db_tenants (w_db w)). backlog t (w_db w') = 0" by blast
  have "(\<Sum>t\<leftarrow>db_tenants (w_db w'). backlog t (w_db w')) = 0" using run(2,4) by (auto intro!: sum_list_0 simp: sum_list_eq_0_iff)
  with backlog_size_run [of w'] run show ?thesis by auto
qed

subsection \<open>A concrete sweep\<close>

text \<open>A broker that keeps what it is given, and an outbox with one row.\<close>

definition sample_broker :: "(string \<times> string) list broker" where
  "sample_broker = \<lparr>br_publish = (\<lambda>k v x. (Inr (), x @ [(k, v)])), br_order = (\<lambda>rows. rows)\<rparr>"

definition sample_outbox :: outbox_row where
  "sample_outbox = outbox_row_of
     (ApplicationCreated (app_id sample_application) DEMO_TENANT_ID sample_instant (prod_id demo_product)) ''e1'' sample_instant"

definition sample_backlog :: "(string \<times> string) list world" where
  "sample_backlog = world_of ((initial_db sample_instant)\<lparr>db_outbox := [sample_outbox]\<rparr>) []"

lemma sample_broker_good:
  "delivers set sample_broker" "healthy sample_broker" "mset (br_order sample_broker rows) = mset rows"
  by (auto simp: delivers_def healthy_def sample_broker_def)

lemma sample_backlog_state:
  "db_outbox (w_db sample_backlog) = [sample_outbox]" "ob_published_at sample_outbox = None"
  "ob_tenant sample_outbox = DEMO_TENANT_ID" "db_tenants (w_db sample_backlog) = [DEMO_TENANT_ID]"
  by (simp_all add: sample_backlog_def world_of_def sample_outbox_def outbox_row_of_def initial_db_def)

theorem relay_marks_only_acknowledged_witness:
  "\<exists>r w'. relay_once sample_env sample_broker 10 sample_backlog = (r, w') \<and> sent set (w_db w') (w_ext w')"
proof -
  obtain r w' where run: "relay_once sample_env sample_broker 10 sample_backlog = (r, w')" by fastforce
  from relay_marks_only_acknowledged [OF sample_broker_good(1,3) _ _ run] run show ?thesis
    by (simp add: sample_backlog_state sent_def)
qed

theorem relay_drains_backlog_witness:
  "\<exists>ns w'. map_each (\<lambda>_. relay_once sample_env sample_broker 1) (replicate 2 ()) sample_backlog = (Inr ns, w') \<and>
     sum_list ns = 1 \<and> backlog DEMO_TENANT_ID (w_db sample_backlog) = 1 \<and> backlog DEMO_TENANT_ID (w_db w') = 0"
proof -
  have "backlog DEMO_TENANT_ID (w_db sample_backlog) = 1"
    by (simp add: backlog_def unpublished_def visible_def sample_backlog_state)
  with relay_drains_backlog [OF sample_broker_good(2,3), of sample_backlog 2 1 sample_env]
  obtain ns w' where "map_each (\<lambda>_. relay_once sample_env sample_broker 1) (replicate 2 ()) sample_backlog = (Inr ns, w')"
    "sum_list ns = 1" "backlog DEMO_TENANT_ID (w_db w') = 0" by (auto simp: sample_backlog_state simp del: One_nat_def)
  with \<open>backlog DEMO_TENANT_ID (w_db sample_backlog) = 1\<close> show ?thesis by blast
qed

end
