(* ===== verification/Projection.thy ===== *)
theory Projection
  imports Relay
begin

text \<open>
  What the projection consumer guarantees: an event is applied at most once, a message of the relay
  never makes it raise, and whatever the order and the number of deliveries, the projection of a case
  ends at the newest of the delivered events.
\<close>

subsection \<open>The messages of recorded events\<close>

text \<open>An event with the identifier and the time it was recorded under.\<close>

type_synonym recorded = "domain_event \<times> string \<times> datetime"

definition row_of :: "recorded \<Rightarrow> outbox_row" where
  "row_of m = (case m of (e, i, now) \<Rightarrow> outbox_row_of e i now)"

definition event_of :: "recorded \<Rightarrow> domain_event" where
  "event_of m = fst m"

definition id_of :: "recorded \<Rightarrow> string" where
  "id_of m = fst (snd m)"

text \<open>The status and version an event projects, if it projects any.\<close>

fun point :: "domain_event \<Rightarrow> (string \<times> int) option" where
  "point (ApplicationCreated _ _ _ _) = Some (''DRAFT'', 1)"
| "point (ApplicationStateChanged _ _ _ _ new_status _ version) = Some (status_value new_status, version)"
| "point (DocumentUploaded _ _ _ _ _ _) = None"

lemma message_decodes: "json_loads (message_of row) = Inr (build_envelope row)"
  using json_roundtrip [of "'' ''" "'' ''" "build_envelope row"] by (simp add: message_of_def blank_def char_code_def)

lemma envelope_fields:
  "field (build_envelope row) ''event_id'' = Inr (ob_id row)"
  "field (build_envelope row) ''event_type'' = Inr (ob_event_type row)"
  "field (build_envelope row) ''tenant_id'' = Inr (ob_tenant row)"
  "field (build_envelope row) ''application_id'' = Inr (ob_aggregate_id row)"
  "field (build_envelope row) ''occurred_at'' = Inr (isoformat (ob_occurred_at row))"
  "dict_get (build_envelope row) ''payload'' = Inr (ob_payload row)"
  by (simp_all add: field_def build_envelope_def as_text_def)

lemma row_of_fields:
  "ob_id (row_of m) = id_of m" "ob_tenant (row_of m) = ev_tenant_id (event_of m)"
  "ob_aggregate_id (row_of m) = ev_application_id (event_of m)"
  "ob_occurred_at (row_of m) = ev_occurred_at (event_of m)"
  by (cases m; simp add: row_of_def event_of_def id_of_def outbox_row_of_def split: prod.splits)+

lemma projected_event:
  "ob_event_type (row_of m) \<in> set PROJECTED_EVENT_TYPES \<longleftrightarrow> point (event_of m) \<noteq> None"
  by (cases m; cases "fst m") (simp_all add: row_of_def event_of_def outbox_row_of_def PROJECTED_EVENT_TYPES_def)

lemma projected_point:
  "point (event_of m) = Some p \<Longrightarrow> projected_fields (build_envelope (row_of m)) (ob_event_type (row_of m)) = Inr p"
  by (cases m; cases "fst m") (auto simp: row_of_def event_of_def outbox_row_of_def projected_fields_def
      envelope_fields field_def as_text_def as_integer_def)

subsection \<open>One delivery\<close>

definition projection_of :: "string \<Rightarrow> db \<Rightarrow> (string \<times> int) option" where
  "projection_of k d = map_option (\<lambda>r. (sp_status r, sp_version r)) (tbl_find sp_application k (db_projections d))"

text \<open>The newer of a stored and a delivered point.\<close>

definition newer :: "(string \<times> int) option \<Rightarrow> string \<times> int \<Rightarrow> string \<times> int" where
  "newer old p = (case old of None \<Rightarrow> p | Some q \<Rightarrow> if snd q \<le> snd p then p else q)"

definition seen :: "string \<Rightarrow> db \<Rightarrow> string set" where
  "seen consumer d = in_event_id ` {r \<in> set (db_inbox d). in_consumer r = consumer}"

text \<open>Every projection row belongs to the tenant the application is registered with.\<close>

definition owned :: "(string \<Rightarrow> string) \<Rightarrow> db \<Rightarrow> bool" where
  "owned owner d \<longleftrightarrow> (\<forall>r \<in> set (db_projections d). sp_tenant r = owner (sp_application r))"

definition deliverable :: "(string \<Rightarrow> string) \<Rightarrow> string list \<Rightarrow> recorded \<Rightarrow> bool" where
  "deliverable owner tenants m \<longleftrightarrow>
     ev_tenant_id (event_of m) \<in> set tenants \<and> ev_tenant_id (event_of m) = owner (ev_application_id (event_of m)) \<and>
     valid_datetime (ev_occurred_at (event_of m)) \<and>
     (case point (event_of m) of None \<Rightarrow> True | Some (s, v) \<Rightarrow> fits_int32 v)"

lemma find_owned:
  assumes "owned owner d" "owner k = t"
  shows "tbl_find sp_application k (visible sp_tenant t (db_projections d)) = tbl_find sp_application k (db_projections d)"
proof -
  have "\<forall>r \<in> set rows. sp_tenant r = owner (sp_application r) \<Longrightarrow>
      tbl_find sp_application k (visible sp_tenant t rows) = tbl_find sp_application k rows" for rows
    using assms(2) by (induction rows) (auto simp: visible_def)
  with assms(1) show ?thesis by (simp add: owned_def)
qed

lemma project_event_run:
  assumes "deliverable owner (db_tenants (w_sess w)) m" "owned owner (w_sess w)" "point (event_of m) = Some p"
    "w_scope w = ev_tenant_id (event_of m)"
  shows "\<exists>d. project_event (build_envelope (row_of m)) (ob_event_type (row_of m)) w = (Inr (), w\<lparr>w_sess := d\<rparr>) \<and>
    owned owner d \<and> db_inbox d = db_inbox (w_sess w) \<and> db_tenants d = db_tenants (w_sess w) \<and>
    (\<forall>k. projection_of k d = (if k = ev_application_id (event_of m)
       then Some (newer (projection_of k (w_sess w)) p) else projection_of k (w_sess w)))"
proof -
  obtain s v where p: "p = (s, v)" by fastforce
  define k t where "k = ev_application_id (event_of m)" and "t = ev_tenant_id (event_of m)"
  have ok: "t \<in> set (db_tenants (w_sess w))" "owner k = t" "fits_int32 v" "valid_datetime (ev_occurred_at (event_of m))"
    using assms(1,3) by (auto simp: deliverable_def k_def t_def p)
  note find = find_owned [OF assms(2) ok(2)]
  note steps = project_event_def envelope_fields row_of_fields iso_roundtrip [OF ok(4)]
    projected_point [OF assms(3)] p k_def [symmetric] t_def [symmetric] bnd_def
  show ?thesis
  proof (cases "tbl_find sp_application k (db_projections (w_sess w))")
    case None
    let ?r = "\<lparr>sp_application = k, sp_tenant = t, sp_status = s, sp_version = v, sp_updated_at = ev_occurred_at (event_of m)\<rparr>"
    from None have fresh: "k \<notin> sp_application ` set (db_projections (w_sess w))" by (simp add: tbl_find_None_iff)
    then have "insert_projection ?r (w_scope w) (w_sess w)
        = Inr ((w_sess w)\<lparr>db_projections := db_projections (w_sess w) @ [?r]\<rparr>)"
      using ok assms(4) by (simp add: insert_projection_def guard_row_def t_def)
    with None find assms(2,4) ok(2) show ?thesis
      by (intro exI [of _ "(w_sess w)\<lparr>db_projections := db_projections (w_sess w) @ [?r]\<rparr>"])
        (auto simp: steps execute_def owned_def projection_of_def newer_def tbl_find_append split: option.splits)
  next
    case (Some r)
    let ?u = "\<lambda>r. r\<lparr>sp_status := s, sp_version := v, sp_updated_at := ev_occurred_at (event_of m)\<rparr>"
    let ?rows = "tbl_update sp_application k (\<lambda>r. if sp_tenant r = t then ?u r else r) (db_projections (w_sess w))"
    have r: "sp_tenant r = t" "sp_application r = k"
      using tbl_find_SomeD [OF Some] assms(2) ok(2) by (auto simp: owned_def)
    show ?thesis
    proof (cases "sp_version r \<le> v")
      case True
      have "update_projection k ?u (w_scope w) (w_sess w) = Inr ((w_sess w)\<lparr>db_projections := ?rows\<rparr>)"
        using Some find assms(4) ok(3) by (simp add: update_projection_def guard_row_def t_def)
      moreover have "owned owner ((w_sess w)\<lparr>db_projections := ?rows\<rparr>)"
        using assms(2) by (auto simp: owned_def tbl_update_def)
      moreover have "projection_of j ((w_sess w)\<lparr>db_projections := ?rows\<rparr>)
          = (if j = k then Some p else projection_of j (w_sess w))" for j
        using Some r p by (simp add: projection_of_def tbl_find_update)
      ultimately show ?thesis using Some find assms(4) True p
        by (intro exI [of _ "(w_sess w)\<lparr>db_projections := ?rows\<rparr>"])
          (auto simp: steps execute_def newer_def projection_of_def)
    next
      case False
      with Some find assms(2,4) p show ?thesis
        by (intro exI [of _ "w_sess w"]) (auto simp: steps newer_def projection_of_def)
    qed
  qed
qed

lemma apply_event_run:
  assumes "deliverable owner (db_tenants (w_db w)) m" "owned owner (w_db w)"
  shows "\<exists>w'. process_record env consumer (message_of (row_of m)) w = (Inr (id_of m \<notin> seen consumer (w_db w)), w') \<and>
    db_tenants (w_db w') = db_tenants (w_db w) \<and> owned owner (w_db w') \<and> w_ext w' = w_ext w \<and>
    (if id_of m \<in> seen consumer (w_db w) then w_db w' = w_db w
     else seen consumer (w_db w') = insert (id_of m) (seen consumer (w_db w)) \<and>
       (\<forall>k. projection_of k (w_db w') = (case point (event_of m) of
          Some p \<Rightarrow> if k = ev_application_id (event_of m) then Some (newer (projection_of k (w_db w)) p)
                    else projection_of k (w_db w)
        | None \<Rightarrow> projection_of k (w_db w))))"
proof -
  define t where "t = ev_tenant_id (event_of m)"
  define env' where "env' = build_envelope (row_of m)"
  define r where "r = \<lparr>in_event_id = id_of m, in_consumer = consumer, in_processed_at = e_clock env (w_clk w)\<rparr>"
  define w1 where "w1 = (aenter t w)\<lparr>w_clk := w_clk w + 1\<rparr>"
  have start: "process_record env consumer (message_of (row_of m)) w = with_uow t (apply_event env consumer env') w"
    by (simp add: process_record_def bnd_def message_decodes envelope_fields row_of_fields env'_def t_def)
  have known: "id_of m \<in> seen consumer (w_db w) \<longleftrightarrow>
      (in_event_id r, in_consumer r) \<in> (\<lambda>i. (in_event_id i, in_consumer i)) ` set (db_inbox (w_db w))"
    by (auto simp: seen_def r_def)
  show ?thesis
  proof (cases "id_of m \<in> seen consumer (w_db w)")
    case True
    then have "insert_inbox r t (w_db w) = Inl (IntegrityError ''inbox_messages_pkey'')"
      using known by (simp add: insert_inbox_def guard_row_def)
    then have "apply_event env consumer env' (aenter t w) = (Inr False, w1\<lparr>w_sess := w_db w\<rparr>)"
      by (simp add: apply_event_def bnd_def env'_def envelope_fields row_of_fields try_except_def execute_def
          rollback_def r_def w1_def)
    with start True assms(2) show ?thesis by (simp add: with_uow_def w1_def)
  next
    case False
    define d0 where "d0 = (w_db w)\<lparr>db_inbox := db_inbox (w_db w) @ [r]\<rparr>"
    from False known have "insert_inbox r t (w_db w) = Inr d0"
      by (simp add: insert_inbox_def guard_row_def d0_def)
    then have fresh: "apply_event env consumer env' (aenter t w) =
        bnd (if ob_event_type (row_of m) \<in> set PROJECTED_EVENT_TYPES
             then project_event env' (ob_event_type (row_of m)) else ret ()) (\<lambda>_. bnd commit (\<lambda>_. ret True)) (w1\<lparr>w_sess := d0\<rparr>)"
      by (simp add: apply_event_def bnd_def env'_def envelope_fields row_of_fields try_except_def execute_def
          r_def w1_def)
    have seen: "seen consumer d0 = insert (id_of m) (seen consumer (w_db w))"
    proof -
      have "{x \<in> set (db_inbox d0). in_consumer x = consumer} = insert r {x \<in> set (db_inbox (w_db w)). in_consumer x = consumer}"
        by (auto simp: d0_def r_def)
      then show ?thesis by (simp add: seen_def) (simp add: r_def)
    qed
    have same: "projection_of k d0 = projection_of k (w_db w)" for k by (simp add: projection_of_def d0_def)
    have own: "owned owner d0" using assms(2) by (simp add: owned_def d0_def)
    show ?thesis
    proof (cases "point (event_of m)")
      case None
      then have "ob_event_type (row_of m) \<notin> set PROJECTED_EVENT_TYPES" using projected_event by blast
      with fresh start None False own seen same show ?thesis
        by (simp add: bnd_def commit_def with_uow_def w1_def) (simp add: d0_def)
    next
      case (Some p)
      have "deliverable owner (db_tenants (w_sess (w1\<lparr>w_sess := d0\<rparr>))) m" "owned owner (w_sess (w1\<lparr>w_sess := d0\<rparr>))"
        using assms(1) own by (simp_all add: d0_def)
      from project_event_run [OF this Some] obtain d where d:
        "project_event env' (ob_event_type (row_of m)) (w1\<lparr>w_sess := d0\<rparr>) = (Inr (), w1\<lparr>w_sess := d\<rparr>)"
        "owned owner d" "db_inbox d = db_inbox d0" "db_tenants d = db_tenants d0"
        "\<forall>k. projection_of k d = (if k = ev_application_id (event_of m)
           then Some (newer (projection_of k d0) p) else projection_of k d0)"
        by (auto simp: w1_def t_def env'_def)
      moreover have "seen consumer d = seen consumer d0" using d(3) by (simp add: seen_def)
      moreover have "db_tenants d0 = db_tenants (w_db w)" by (simp add: d0_def)
      moreover have "ob_event_type (row_of m) \<in> set PROJECTED_EVENT_TYPES" using Some projected_event by blast
      ultimately show ?thesis using fresh start Some False seen same
        by (simp add: bnd_def commit_def with_uow_def w1_def)
    qed
  qed
qed

text \<open>An event is projected at most once, and a message of the relay never stops the consumer.  The
  message of a recorded event is always processed without an error; the first delivery reports
  \<open>True\<close>, and every delivery after that reports \<open>False\<close> and leaves the database exactly as it was.\<close>

theorem redelivery_changes_nothing:
  assumes "deliverable owner (db_tenants (w_db w)) m" "owned owner (w_db w)"
    "process_record env consumer (message_of (row_of m)) w = (r1, w1)"
    "process_record env consumer (message_of (row_of m)) w1 = (r2, w2)"
  shows "r1 = Inr (id_of m \<notin> seen consumer (w_db w)) \<and> r2 = Inr False \<and> w_db w2 = w_db w1"
proof -
  from apply_event_run [OF assms(1,2), of env consumer] assms(3) have first:
    "r1 = Inr (id_of m \<notin> seen consumer (w_db w))" "db_tenants (w_db w1) = db_tenants (w_db w)" "owned owner (w_db w1)"
    "id_of m \<in> seen consumer (w_db w1)"
    by (auto split: if_splits)
  from apply_event_run [of owner w1 m env consumer] assms(1,4) first show ?thesis by auto
qed

subsection \<open>Any number of deliveries, in any order\<close>

definition points :: "string \<Rightarrow> recorded set \<Rightarrow> (string \<times> int) set" where
  "points k ms = {p. \<exists>m \<in> ms. ev_application_id (event_of m) = k \<and> point (event_of m) = Some p}"

definition newest :: "(string \<times> int) set \<Rightarrow> (string \<times> int) option \<Rightarrow> bool" where
  "newest ps q \<longleftrightarrow> (case q of None \<Rightarrow> ps = {} | Some p \<Rightarrow> p \<in> ps \<and> (\<forall>p' \<in> ps. snd p' \<le> snd p))"

lemma newest_newer: "newest ps q \<Longrightarrow> newest (insert p ps) (Some (newer q p))"
  by (auto simp: newest_def newer_def split: option.splits)

lemma points_insert:
  "points k (insert m ms) = (case point (event_of m) of
     Some p \<Rightarrow> if k = ev_application_id (event_of m) then insert p (points k ms) else points k ms | None \<Rightarrow> points k ms)"
  by (auto simp: points_def split: option.splits)

text \<open>A database that has caught up with a set of recorded events.\<close>

definition caught_up :: "(string \<Rightarrow> string) \<Rightarrow> string \<Rightarrow> recorded set \<Rightarrow> db \<Rightarrow> bool" where
  "caught_up owner consumer ms d \<longleftrightarrow> owned owner d \<and> seen consumer d = id_of ` ms \<and>
     (\<forall>k. newest (points k ms) (projection_of k d))"

abbreviation message :: "recorded \<Rightarrow> string" where
  "message m \<equiv> message_of (row_of m)"

lemma delivery_catches_up:
  assumes "deliverable owner (db_tenants (w_db w)) m" "inj_on id_of (insert m old)" "caught_up owner consumer old (w_db w)"
  shows "\<exists>b w'. process_record env consumer (message m) w = (Inr b, w') \<and> db_tenants (w_db w') = db_tenants (w_db w) \<and>
    caught_up owner consumer (insert m old) (w_db w')"
proof -
  from assms(3) have old: "owned owner (w_db w)" "seen consumer (w_db w) = id_of ` old"
    "\<forall>k. newest (points k old) (projection_of k (w_db w))" by (simp_all add: caught_up_def)
  from apply_event_run [OF assms(1) old(1), of env consumer] obtain b w1 where
    w1: "process_record env consumer (message m) w = (Inr b, w1)"
    "db_tenants (w_db w1) = db_tenants (w_db w)" "owned owner (w_db w1)"
    and effect: "if id_of m \<in> seen consumer (w_db w) then w_db w1 = w_db w
     else seen consumer (w_db w1) = insert (id_of m) (seen consumer (w_db w)) \<and>
       (\<forall>k. projection_of k (w_db w1) = (case point (event_of m) of
          Some p \<Rightarrow> if k = ev_application_id (event_of m) then Some (newer (projection_of k (w_db w)) p)
                    else projection_of k (w_db w)
        | None \<Rightarrow> projection_of k (w_db w)))" by blast
  have known: "id_of m \<in> seen consumer (w_db w) \<longleftrightarrow> m \<in> old"
    using assms(2) old(2) by (auto simp: inj_on_def)
  have "caught_up owner consumer (insert m old) (w_db w1)"
  proof (cases "m \<in> old")
    case True
    then have "insert m old = old" by blast
    with True effect known assms(3) show ?thesis by simp
  next
    case False
    with effect known old w1(3) show ?thesis
      by (auto simp: caught_up_def points_insert intro: newest_newer split: option.splits)
  qed
  with w1 show ?thesis by blast
qed

lemma deliveries_catch_up:
  assumes "\<forall>m \<in> set ms. deliverable owner (db_tenants (w_db w)) m" "inj_on id_of (old \<union> set ms)"
    "caught_up owner consumer old (w_db w)"
  shows "\<exists>bs w'. map_each (process_record env consumer) (map message ms) w = (Inr bs, w') \<and>
    db_tenants (w_db w') = db_tenants (w_db w) \<and> caught_up owner consumer (old \<union> set ms) (w_db w')"
  using assms
proof (induction ms arbitrary: w old)
  case Nil
  then show ?case by simp
next
  case (Cons m ms)
  have "inj_on id_of (insert m old)" by (rule inj_on_subset [OF Cons.prems(2)]) auto
  with Cons.prems(1,3) obtain b w1 where w1: "process_record env consumer (message m) w = (Inr b, w1)"
    "db_tenants (w_db w1) = db_tenants (w_db w)" "caught_up owner consumer (insert m old) (w_db w1)"
    using delivery_catches_up [of owner w m old consumer env] by auto
  have "inj_on id_of (insert m old \<union> set ms)" using Cons.prems(2) by simp
  moreover have "\<forall>m \<in> set ms. deliverable owner (db_tenants (w_db w1)) m" using Cons.prems(1) w1(2) by simp
  ultimately obtain bs w' where "map_each (process_record env consumer) (map message ms) w1 = (Inr bs, w')"
    "db_tenants (w_db w') = db_tenants (w_db w1)" "caught_up owner consumer (insert m old \<union> set ms) (w_db w')"
    using Cons.IH [of w1 "insert m old"] w1(3) by blast
  with w1 show ?case by (auto simp: bnd_def)
qed

text \<open>Offsets that can be committed.\<close>

definition commits :: "('x \<Rightarrow> (py_error + unit) \<times> 'x) \<Rightarrow> bool" where
  "commits f \<longleftrightarrow> (\<forall>x. \<exists>x'. f x = (Inr (), x'))"

lemma batches_catch_up:
  assumes "commits f" "\<forall>m \<in> set (concat bss). deliverable owner (db_tenants (w_db w)) m"
    "inj_on id_of (old \<union> set (concat bss))" "caught_up owner consumer old (w_db w)"
  shows "\<exists>us w'. map_each (consume_batch env consumer f) (map (map message) bss) w = (Inr us, w') \<and>
    db_tenants (w_db w') = db_tenants (w_db w) \<and> caught_up owner consumer (old \<union> set (concat bss)) (w_db w')"
  using assms(2-)
proof (induction bss arbitrary: w old)
  case Nil
  then show ?case by simp
next
  case (Cons ms bss)
  have "inj_on id_of (old \<union> set ms)" by (rule inj_on_subset [OF Cons.prems(2)]) auto
  with Cons.prems(1,3) obtain bs w1 where w1: "map_each (process_record env consumer) (map message ms) w = (Inr bs, w1)"
    "db_tenants (w_db w1) = db_tenants (w_db w)" "caught_up owner consumer (old \<union> set ms) (w_db w1)"
    using deliveries_catch_up [of ms owner w old consumer env] by auto
  obtain x where "f (w_ext w1) = (Inr (), x)" using assms(1) unfolding commits_def by blast
  with w1(1) have batch: "consume_batch env consumer f (map message ms) w = (Inr (), w1\<lparr>w_ext := x\<rparr>)"
    by (simp add: consume_batch_def bnd_def external_def)
  have "inj_on id_of ((old \<union> set ms) \<union> set (concat bss))" using Cons.prems(2) by (simp add: Un_assoc)
  moreover have "\<forall>m \<in> set (concat bss). deliverable owner (db_tenants (w_db w1)) m" using Cons.prems(1) w1(2) by simp
  ultimately obtain us w' where "map_each (consume_batch env consumer f) (map (map message) bss) (w1\<lparr>w_ext := x\<rparr>) = (Inr us, w')"
    "db_tenants (w_db w') = db_tenants (w_db w1)" "caught_up owner consumer ((old \<union> set ms) \<union> set (concat bss)) (w_db w')"
    using Cons.IH [of "w1\<lparr>w_ext := x\<rparr>" "old \<union> set ms"] w1(3) by auto
  with batch w1(2) show ?case by (auto simp: bnd_def Un_assoc)
qed

lemma consumer_catches_up:
  assumes "commits f" "\<forall>m \<in> set (concat (concat polls)). deliverable owner (db_tenants (w_db w)) m"
    "inj_on id_of (old \<union> set (concat (concat polls)))" "caught_up owner consumer old (w_db w)"
  shows "\<exists>w'. run_projection_consumer env consumer f (map (map (map message)) polls) w = (Inr (), w') \<and>
    caught_up owner consumer (old \<union> set (concat (concat polls))) (w_db w')"
proof -
  define poll where "poll = (\<lambda>batches. bnd (map_each (consume_batch env consumer f) batches) (\<lambda>_. ret ()))"
  have "\<exists>us w'. map_each poll (map (map (map message)) polls) w = (Inr us, w') \<and>
    caught_up owner consumer (old \<union> set (concat (concat polls))) (w_db w')"
    using assms(2-)
  proof (induction polls arbitrary: w old)
    case Nil
    then show ?case by simp
  next
    case (Cons bss polls)
    have "inj_on id_of (old \<union> set (concat bss))" by (rule inj_on_subset [OF Cons.prems(2)]) auto
    with Cons.prems(1,3) obtain us w1 where w1: "map_each (consume_batch env consumer f) (map (map message) bss) w = (Inr us, w1)"
      "db_tenants (w_db w1) = db_tenants (w_db w)" "caught_up owner consumer (old \<union> set (concat bss)) (w_db w1)"
      using batches_catch_up [OF assms(1), of bss owner w old consumer env] by auto
    have "inj_on id_of ((old \<union> set (concat bss)) \<union> set (concat (concat polls)))"
      using Cons.prems(2) by (simp add: Un_assoc)
    moreover have "\<forall>m \<in> set (concat (concat polls)). deliverable owner (db_tenants (w_db w1)) m"
      using Cons.prems(1) w1(2) by simp
    ultimately obtain vs w' where "map_each poll (map (map (map message)) polls) w1 = (Inr vs, w')"
      "caught_up owner consumer ((old \<union> set (concat bss)) \<union> set (concat (concat polls))) (w_db w')"
      using Cons.IH [of w1 "old \<union> set (concat bss)"] w1(3) by blast
    moreover have "poll (map (map message) bss) w = (Inr (), w1)" using w1(1) by (simp add: poll_def)
    ultimately show ?case by (auto simp: Un_assoc)
  qed
  then show ?thesis by (auto simp: run_projection_consumer_def bnd_def poll_def)
qed

text \<open>C11: the projection converges.  Starting from nothing, whatever recorded events are delivered, in
  whatever order, batching and number of repetitions, the consumer never raises and the projection
  of every application ends at its newest delivered event (the one with the highest version), or is
  absent if none of its events was delivered.\<close>

theorem projection_converges:
  assumes "commits f" "\<forall>m \<in> set (concat (concat polls)). deliverable owner (db_tenants (w_db w)) m"
    "inj_on id_of (set (concat (concat polls)))" "db_inbox (w_db w) = []" "db_projections (w_db w) = []"
  shows "\<exists>w'. run_projection_consumer env consumer f (map (map (map message)) polls) w = (Inr (), w') \<and>
    (\<forall>k. newest (points k (set (concat (concat polls)))) (projection_of k (w_db w')))"
proof -
  have "caught_up owner consumer {} (w_db w)"
    using assms(4,5) by (simp add: caught_up_def owned_def seen_def newest_def points_def projection_of_def)
  with consumer_catches_up [OF assms(1,2), of "{}" consumer env] assms(3) show ?thesis
    by (auto simp: caught_up_def)
qed

text \<open>A case created, then submitted, with the later event delivered first, and twice.\<close>

definition sample_events :: "recorded list" where
  "sample_events =
     [(ApplicationStateChanged (app_id sample_application) DEMO_TENANT_ID sample_instant DRAFT SUBMITTED ''r'' 2, ''e2'', sample_instant),
      (ApplicationCreated (app_id sample_application) DEMO_TENANT_ID sample_instant (prod_id demo_product), ''e1'', sample_instant),
      (ApplicationStateChanged (app_id sample_application) DEMO_TENANT_ID sample_instant DRAFT SUBMITTED ''r'' 2, ''e2'', sample_instant)]"

lemma sample_events_good:
  "\<forall>m \<in> set sample_events. deliverable (\<lambda>_. DEMO_TENANT_ID) (db_tenants (w_db (world_of (initial_db sample_instant) ()))) m"
  "inj_on id_of (set sample_events)"
proof -
  have "valid_datetime sample_instant" by (simp add: sample_instant_def days_in_month_def)
  then show "\<forall>m \<in> set sample_events. deliverable (\<lambda>_. DEMO_TENANT_ID) (db_tenants (w_db (world_of (initial_db sample_instant) ()))) m"
    by (simp add: sample_events_def deliverable_def event_of_def world_of_def initial_db_def fits_int32_def)
qed (auto simp: sample_events_def id_of_def inj_on_def)

theorem redelivery_changes_nothing_witness:
  "\<exists>r1 w1 r2 w2. process_record sample_env ''g'' (message (hd sample_events)) (world_of (initial_db sample_instant) ()) = (r1, w1) \<and>
     process_record sample_env ''g'' (message (hd sample_events)) w1 = (r2, w2) \<and> w_db w2 = w_db w1"
proof -
  let ?m = "hd sample_events" and ?w = "world_of (initial_db sample_instant) ()"
  obtain r1 w1 where one: "process_record sample_env ''g'' (message ?m) ?w = (r1, w1)" by fastforce
  obtain r2 w2 where two: "process_record sample_env ''g'' (message ?m) w1 = (r2, w2)" by fastforce
  have "deliverable (\<lambda>_. DEMO_TENANT_ID) (db_tenants (w_db ?w)) ?m"
    using sample_events_good(1) by (simp add: sample_events_def)
  moreover have "owned (\<lambda>_. DEMO_TENANT_ID) (w_db ?w)" by (simp add: owned_def world_of_def initial_db_def)
  ultimately have "w_db w2 = w_db w1" using redelivery_changes_nothing [OF _ _ one two] by blast
  with one two show ?thesis by blast
qed

theorem projection_converges_witness:
  "\<exists>w'. run_projection_consumer sample_env ''g'' (\<lambda>x. (Inr (), x)) [[map message sample_events]]
      (world_of (initial_db sample_instant) ()) = (Inr (), w') \<and>
    projection_of (app_id sample_application) (w_db w') = Some (''SUBMITTED'', 2)"
proof -
  have commits: "commits (\<lambda>x :: unit. (Inr (), x))" by (simp add: commits_def)
  let ?w = "world_of (initial_db sample_instant) ()"
  have empty: "db_inbox (w_db ?w) = []" "db_projections (w_db ?w) = []" by (simp_all add: world_of_def initial_db_def)
  have all: "set (concat (concat [[sample_events]])) = set sample_events" by simp
  from projection_converges [OF commits _ _ empty, of "[[sample_events]]" "\<lambda>_. DEMO_TENANT_ID" sample_env "''g''",
      unfolded all list.map, OF sample_events_good]
  obtain w' where run: "run_projection_consumer sample_env ''g'' (\<lambda>x. (Inr (), x)) [[map message sample_events]] ?w = (Inr (), w')"
    and new: "\<forall>k. newest (points k (set sample_events)) (projection_of k (w_db w'))"
    by (elim exE conjE) (rule that)
  have "points (app_id sample_application) (set sample_events) = {(''SUBMITTED'', 2), (''DRAFT'', 1)}"
    by (auto simp: points_def sample_events_def event_of_def)
  then have "newest {(''SUBMITTED'', 2), (''DRAFT'', 1)} (projection_of (app_id sample_application) (w_db w'))"
    using new by metis
  then have "projection_of (app_id sample_application) (w_db w') = Some (''SUBMITTED'', 2)"
    by (cases "projection_of (app_id sample_application) (w_db w')") (auto simp: newest_def)
  with run show ?thesis by (intro exI conjI)
qed

end
