(* ===== verification/System.thy ===== *)
theory System
  imports Projection
begin

text \<open>
  The running system: requests served one after the other, sweeps of the relay, messages read by the
  projection consumer, and anything at all happening outside, in any order.  The invariants of the
  database hold in every reachable state.
\<close>

subsection \<open>What the relay and the consumer leave alone\<close>

definition recorded_part :: "db \<Rightarrow> _" where
  "recorded_part d = (map outbox_key (db_outbox d), db_audit_events d, db_audit_hashes d)"

lemma ledger_ok_recorded: "recorded_part d = recorded_part d' \<Longrightarrow> ledger_ok sha d \<longleftrightarrow> ledger_ok sha d'"
  by (simp add: recorded_part_def ledger_ok_def audit_ok_def outbox_matches_def tenant_log_def)

definition kept_part :: "db \<Rightarrow> _" where
  "kept_part d = (recorded_part d, case_part d, db_idempotency_keys d, db_review_queue d)"

lemma leaves_relay: "leaves kept_part (relay_row env br row)" "leaves kept_part (relay_body env br t n)"
proof -
  have "leaves kept_part (execute (mark_published i now))" for i now
    by (rule leaves_execute) (auto simp: mark_published_def kept_part_def recorded_part_def case_part_def
        tbl_update_def outbox_key_def)
  then show "leaves kept_part (relay_row env br row)" for row
    unfolding relay_row_def by (intro leaves_intros)
  then show "leaves kept_part (relay_body env br t n)"
    unfolding relay_body_def by (intro leaves_intros)
qed

lemma quiet_relay_body: "quiet (relay_body env br t n)"
  unfolding relay_body_def relay_row_def by (intro quiet_intros)

text \<open>A step between transactions, as a relation on the committed database.\<close>

abbreviation settled :: "('x, 'a) handler \<Rightarrow> bool" where
  "settled m \<equiv> stays (\<lambda>w w'. kept_part (w_db w') = kept_part (w_db w)) m"

lemma settled_order:
  "reflp (\<lambda>w w'. kept_part (w_db w') = kept_part (w_db w))" "transp (\<lambda>w w'. kept_part (w_db w') = kept_part (w_db w))"
  by (auto simp: reflp_def transp_def)

lemmas settled_bnd = stays_bnd [OF settled_order(2)]
lemmas settled_map_each = stays_map_each [OF settled_order]
lemmas settled_refl = stays_refl_steps [OF settled_order(1)]

lemma settled_relay_once: "settled (relay_once env br n)"
proof -
  have batch: "settled (relay_tenant_batch env br n t)" for t
    unfolding stays_def
  proof
    fix w
    obtain r w' where run: "relay_tenant_batch env br n t w = (r, w')" by fastforce
    have "kept_part (w_db w') = kept_part (w_db w)"
    proof (cases r)
      case (Inl e)
      with run transaction_error [OF quiet_relay_body] show ?thesis unfolding relay_tenant_batch_def by metis
    next
      case (Inr k)
      with run obtain w1 where "relay_body env br t n (aenter t w) = (Inr k, w1)" "w_db w' = w_sess w1"
        unfolding relay_tenant_batch_def by (auto elim: transaction_success)
      with leavesD [OF leaves_relay(2)] show ?thesis by fastforce
    qed
    with run show "kept_part (w_db (snd (relay_tenant_batch env br n t w))) = kept_part (w_db w)" by simp
  qed
  moreover have "settled list_tenant_ids"
    by (simp add: stays_def list_tenant_ids_def with_uow_def)
  ultimately show ?thesis
    unfolding relay_once_def by (intro settled_bnd settled_map_each settled_refl)
qed

text \<open>The consumer commits in the middle of its body, so its frame speaks of both the session and the
  committed database.\<close>

definition in_step :: "'x world \<Rightarrow> 'x world \<Rightarrow> bool" where
  "in_step w w' \<longleftrightarrow> (kept_part (w_sess w) = kept_part (w_db w) \<longrightarrow>
     kept_part (w_db w') = kept_part (w_db w) \<and> kept_part (w_sess w') = kept_part (w_db w))"

lemma in_step_order: "reflp in_step" "transp in_step"
  by (auto simp: reflp_def transp_def in_step_def)

lemmas in_step_bnd = stays_bnd [OF in_step_order(2)]
lemmas in_step_try = stays_try_except [OF in_step_order(2)]
lemmas in_step_refl = stays_refl_steps [OF in_step_order(1)]

lemma in_step_execute:
  assumes "\<And>scope d d'. f scope d = Inr d' \<Longrightarrow> kept_part d' = kept_part d"
  shows "stays in_step (execute f)"
  using assms by (auto simp: stays_def in_step_def execute_def split: sum.splits)

lemma in_step_primitives:
  "stays in_step (query q)" "stays in_step (clock_now env)" "stays in_step rollback" "stays in_step commit"
  by (auto simp: stays_def in_step_def rollback_def commit_def)

lemma in_step_consumer_rows:
  "stays in_step (execute (insert_inbox r))" "stays in_step (execute (insert_projection p))"
  "stays in_step (execute (update_projection k f))"
  by (intro in_step_execute, auto simp: insert_inbox_def insert_projection_def update_projection_def
      bind_result_Inr_iff kept_part_def recorded_part_def case_part_def split: option.splits)+

lemma in_step_apply_event: "stays in_step (apply_event env consumer envelope)"
proof -
  have cases: "stays in_step (case row of None \<Rightarrow> m | Some r \<Rightarrow> f r)"
    if "stays in_step m" "\<And>r. stays in_step (f r)" for row :: "projection_row option" and m f
    using that by (cases row) auto
  have errors: "stays in_step (case e of IntegrityError s \<Rightarrow> f s | _ \<Rightarrow> g e)"
    if "\<And>s. stays in_step (f s)" "\<And>e. stays in_step (g e)" for e f g
    using that by (cases e) auto
  have pairs: "stays in_step (case p of (x, y) \<Rightarrow> f x y)" if "\<And>x y. stays in_step (f x y)"
    for p :: "string \<times> int" and f :: "_ \<Rightarrow> _ \<Rightarrow> ('b, unit) handler"
    using that by (cases p) auto
  have project: "stays in_step (project_event envelope event_type)" for event_type
    unfolding project_event_def
    by (intro in_step_bnd in_step_refl in_step_primitives in_step_consumer_rows cases pairs stays_if)
  show ?thesis
    unfolding apply_event_def
    by (intro in_step_bnd in_step_try in_step_refl in_step_primitives in_step_consumer_rows errors project stays_if)
qed

lemma settled_process_record: "settled (process_record env consumer value)"
proof -
  have "settled (with_uow t (apply_event env consumer envelope))" for t envelope
    unfolding stays_def
  proof
    fix w
    obtain r w1 where run: "apply_event env consumer envelope (aenter t w) = (r, w1)" by fastforce
    from staysD [OF in_step_apply_event run] have "kept_part (w_db w1) = kept_part (w_db w)"
      by (simp add: in_step_def)
    with run show "kept_part (w_db (snd (with_uow t (apply_event env consumer envelope) w))) = kept_part (w_db w)"
      by (simp add: with_uow_def)
  qed
  then show ?thesis
    unfolding process_record_def by (intro settled_bnd settled_refl)
qed

subsection \<open>The step relation\<close>

record 'x system =
  sys_deployment :: "'x deployment"
  sys_broker :: "'x broker"
  sys_batch_size :: nat
  sys_consumer_group :: string

inductive system_step :: "'x system \<Rightarrow> 'x world \<Rightarrow> 'x world \<Rightarrow> bool" for s where
  request: "serve (sys_deployment s) r w = (res, w') \<Longrightarrow> system_step s w w'"
| relay: "relay_once (dep_env (sys_deployment s)) (sys_broker s) (sys_batch_size s) w = (n, w') \<Longrightarrow> system_step s w w'"
| consume: "process_record (dep_env (sys_deployment s)) (sys_consumer_group s) value w = (fresh, w') \<Longrightarrow> system_step s w w'"
| outside: "w_db w' = w_db w \<Longrightarrow> system_step s w w'"

inductive_cases system_stepE: "system_step s w w'"

inductive reachable :: "'x system \<Rightarrow> 'x world \<Rightarrow> bool" for s where
  start: "w_db w = initial_db now \<Longrightarrow> reachable s w"
| step: "reachable s w \<Longrightarrow> system_step s w w' \<Longrightarrow> reachable s w'"

inductive runs :: "'x system \<Rightarrow> 'x world \<Rightarrow> 'x world \<Rightarrow> bool" for s where
  none: "runs s w w"
| more: "runs s w w' \<Longrightarrow> system_step s w' w'' \<Longrightarrow> runs s w w''"

lemma serve_cases:
  assumes "serve d r w = (res, w')"
  obtains "isl res" "w_db w' = w_db w" | r0 w0 where "transaction (req_tenant r) (core d r) w = (r0, w0)" "res = r0" "w_db w' = w_db w0"
proof (cases "refused r")
  case True
  with serve_refused [of r d w] assms that(1) show thesis by auto
next
  case False
  obtain r0 w0 where run: "transaction (req_tenant r) (core d r) w = (r0, w0)" by fastforce
  from serve_core [OF False run] assms that(2) [OF run] show thesis by auto
qed

text \<open>What every step keeps: an invariant of the case and ledger tables that the request bodies keep.\<close>

lemma core_keeps: "keeps (ledger_ok (e_sha256 (dep_env d))) (core d r)" "keeps case_inv (core d r)"
proof -
  show "keeps (ledger_ok (e_sha256 (dep_env d))) (core d r)"
    by (cases r) (simp_all add: core_def keeps_ledger_bodies keeps_document_bodies keeps_verify_body discard_frames(3))
  have moves: "keeps case_inv (move_and_attach env op submit c)" "keeps case_inv (move_and_attach env op (transition_to st re) c)"
    for env op c st re
    by (rule keeps_case_move_and_attach, auto simp: submit_def dest: transition_next)+
  show "keeps case_inv (core d r)"
    by (cases r) (simp_all add: core_def moves keeps_case_create keeps_case_intake keeps_case_documents
        keeps_case_enter_review keeps_case_decision keeps_document_bodies keeps_verify_body discard_frames(3))
qed

lemma system_step_keeps_unrefused:
  assumes "system_step s w w'" "\<And>d d'. kept_part d = kept_part d' \<Longrightarrow> I d \<longleftrightarrow> I d'"
    "\<And>r. \<not> refused r \<Longrightarrow> keeps I (core (sys_deployment s) r)" "I (w_db w)"
  shows "I (w_db w')"
  using assms(1)
proof cases
  case (request r res)
  show ?thesis
  proof (cases "refused r")
    case True
    with serve_refused [of r "sys_deployment s" w] request assms(4) show ?thesis by auto
  next
    case False
    from request show ?thesis
    proof (cases rule: serve_cases)
      case (2 r0 w0)
      with transaction_keeps [OF core_quiet assms(3) [OF False] 2(1) assms(4)] show ?thesis by simp
    qed (simp add: assms(4))
  qed
next
  case (relay n)
  with staysD [OF settled_relay_once relay] assms(2) [of "w_db w'" "w_db w"] assms(4) show ?thesis by simp
next
  case (consume v fresh)
  with staysD [OF settled_process_record consume] assms(2) [of "w_db w'" "w_db w"] assms(4) show ?thesis by simp
next
  case outside
  with assms(4) show ?thesis by simp
qed

lemma system_step_keeps:
  assumes "system_step s w w'" "\<And>d d'. kept_part d = kept_part d' \<Longrightarrow> I d \<longleftrightarrow> I d'"
    "\<And>r. keeps I (core (sys_deployment s) r)" "I (w_db w)"
  shows "I (w_db w')"
  by (rule system_step_keeps_unrefused [OF assms(1)]) (use assms(2-4) in blast)+

lemma system_step_keys: "system_step s w w' \<Longrightarrow> keys_kept (w_db w) (w_db w')"
proof (erule system_stepE)
  fix r res assume run: "serve (sys_deployment s) r w = (res, w')"
  then show "keys_kept (w_db w) (w_db w')"
    by (cases rule: serve_cases) (auto dest: requests.keys_stay)
next
  fix n assume "relay_once (dep_env (sys_deployment s)) (sys_broker s) (sys_batch_size s) w = (n, w')"
  from staysD [OF settled_relay_once this] show "keys_kept (w_db w) (w_db w')"
    by (simp add: kept_part_def keys_kept_def reserved_def)
next
  fix v fresh assume "process_record (dep_env (sys_deployment s)) (sys_consumer_group s) v w = (fresh, w')"
  from staysD [OF settled_process_record this] show "keys_kept (w_db w) (w_db w')"
    by (simp add: kept_part_def keys_kept_def reserved_def)
qed simp

lemma runs_keys: "runs s w w' \<Longrightarrow> keys_kept (w_db w) (w_db w')"
  by (induction rule: runs.induct) (auto intro: keys_kept_trans system_step_keys)

subsection \<open>Invariants of the reachable states\<close>

lemma initial_invariants: "ledger_ok sha (initial_db now)" "case_inv (initial_db now)"
  by (simp_all add: initial_db_def ledger_ok_def audit_ok_def tenant_log_def checkpoint_ok_def
      outbox_matches_def case_inv_def)

lemma reachable_case_inv: "reachable s w \<Longrightarrow> case_inv (w_db w)"
proof (induction rule: reachable.induct)
  case (step w w')
  have cases: "kept_part d = kept_part d' \<Longrightarrow> case_inv d \<longleftrightarrow> case_inv d'" for d d'
    by (rule case_part_inv) (simp add: kept_part_def)
  from system_step_keeps [OF step.hyps(2) cases core_keeps(2) step.IH] show ?case .
qed (simp add: initial_invariants)

text \<open>C1: in every reachable state of the system, whatever was requested, relayed, consumed or happened
  outside, in whatever order, the audit log of every tenant is one unbroken hash chain ending at its
  checkpoint and matches the outbox event for event; and every case has one snapshot per version,
  numbered without gaps, forming a legal history from DRAFT that ends at its current row.\<close>

theorem reachable_database_ok:
  assumes "reachable s w"
  shows "ledger_ok (e_sha256 (dep_env (sys_deployment s))) (w_db w) \<and> case_inv (w_db w)"
  using assms
proof induction
  case (start w now)
  then show ?case by (simp add: initial_invariants)
next
  case (step w w')
  have ledger: "kept_part d = kept_part d' \<Longrightarrow> ledger_ok sha d \<longleftrightarrow> ledger_ok sha d'" for d d' sha
    by (rule ledger_ok_recorded) (simp add: kept_part_def)
  have cases: "kept_part d = kept_part d' \<Longrightarrow> case_inv d \<longleftrightarrow> case_inv d'" for d d'
    by (rule case_part_inv) (simp add: kept_part_def)
  from step system_step_keeps [OF step.hyps(2) ledger core_keeps(1)] system_step_keeps [OF step.hyps(2) cases core_keeps(2)]
  show ?case by blast
qed

text \<open>A status that only a human can give.\<close>

definition decided_statuses :: "application_status set" where
  "decided_statuses = {APPROVED, DECLINED, NEEDS_MORE_INFORMATION, ESCALATED}"

lemma decided_needs_review:
  assumes "legal_history ss" "hd ss = DRAFT" "ss \<noteq> []" "last ss \<in> decided_statuses"
  shows "AWAITING_HUMAN_REVIEW \<in> set ss"
proof (rule ccontr)
  assume none: "AWAITING_HUMAN_REVIEW \<notin> set ss"
  obtain rest where ss: "ss = DRAFT # rest" using assms(2,3) by (cases ss) auto
  then have "set rest \<subseteq> automated_statuses"
    using history_before_review [of DRAFT rest] assms(1) none by (simp add: automated_statuses_def)
  then have "set ss \<subseteq> automated_statuses" using ss by (simp add: automated_statuses_def)
  then have "last ss \<in> automated_statuses" using assms(3) last_in_set by blast
  with assms(4) show False by (auto simp: decided_statuses_def automated_statuses_def)
qed

lemma case_inv_decided:
  assumes "case_inv d" "r \<in> set (db_applications d)" "ap_status r \<in> status_value ` decided_statuses"
  shows "\<exists>v \<in> set (db_versions d). vr_application v = ap_id r \<and> vr_version v < ap_version r \<and>
    vr_status v = status_value AWAITING_HUMAN_REVIEW"
proof -
  define vs where "vs = snapshots_of (ap_id r) d"
  from assms(1,2) have "history_ok r vs" by (simp add: case_inv_def vs_def)
  then obtain ss where ss: "map vr_status vs = map status_value ss" "legal_history ss" "hd ss = DRAFT"
    and vs: "vs \<noteq> []" "snapshot_of (last vs) r" "map vr_version vs = [1..ap_version r]"
    by (auto simp: history_ok_def)
  have ne: "ss \<noteq> []" using ss(1) vs(1) by auto
  have "status_value (last ss) = vr_status (last vs)" using ss(1) vs(1) ne by (metis last_map)
  also have "\<dots> = ap_status r" using vs(2) by (simp add: snapshot_of_def)
  finally have "last ss \<in> decided_statuses" using assms(3) by auto
  from decided_needs_review [OF ss(2,3) ne this] obtain i where i: "i < length ss" "ss ! i = AWAITING_HUMAN_REVIEW"
    by (auto simp: in_set_conv_nth)
  have len: "length ss = length vs" "length vs = nat (ap_version r)"
    using arg_cong [OF ss(1), of length] arg_cong [OF vs(3), of length] by simp_all
  have "i \<noteq> length ss - 1"
    using i \<open>last ss \<in> decided_statuses\<close> ne by (auto simp: last_conv_nth decided_statuses_def)
  with i len have lt: "i < length vs - 1" "i < length vs" by simp_all
  have "vr_status (vs ! i) = status_value AWAITING_HUMAN_REVIEW"
    using arg_cong [OF ss(1), of "\<lambda>l. l ! i"] i lt by simp
  moreover have "vr_version (vs ! i) = int i + 1"
    using arg_cong [OF vs(3), of "\<lambda>l. l ! i"] lt len by (simp add: nth_upto)
  moreover have "vs ! i \<in> set vs" using lt by simp
  ultimately show ?thesis using lt len by (intro bexI [of _ "vs ! i"]) (auto simp: vs_def snapshots_of_def)
qed

text \<open>C2: no case is decided without a human review.  In every reachable state, a case that is APPROVED,
  DECLINED, ESCALATED or NEEDS_MORE_INFORMATION has in its stored history an earlier version that
  was AWAITING_HUMAN_REVIEW: there is no automated path to a decision.\<close>

theorem reachable_decision_was_reviewed:
  assumes "reachable s w" "r \<in> set (db_applications (w_db w))" "ap_status r \<in> status_value ` decided_statuses"
  shows "\<exists>v \<in> set (db_versions (w_db w)). vr_application v = ap_id r \<and> vr_version v < ap_version r \<and>
    vr_status v = status_value AWAITING_HUMAN_REVIEW"
proof -
  have "case_inv (w_db w)" using reachable_case_inv [OF assms(1)] .
  from case_inv_decided [OF this assms(2,3)] show ?thesis .
qed

subsection \<open>What a request may rely on\<close>

text \<open>C4: a request takes effect at most once.  After a request has succeeded, and after whatever else
  happens in the system, a request of the same tenant, operation and idempotency key fails, changes
  nothing in the database and calls nothing outside.\<close>

theorem request_at_most_once:
  assumes "serve (sys_deployment s) r w = (Inr (), w1)" "runs s w1 w2"
    "serve (sys_deployment s) r' w2 = (res, w3)"
    "req_tenant r' = req_tenant r" "req_operation r' = req_operation r" "req_key r' = req_key r"
  shows "(\<exists>e. res = Inl e) \<and> w_db w3 = w_db w2 \<and> w_ext w3 = w_ext w2"
proof (cases "refused r'")
  case True
  with serve_refused [of r' "sys_deployment s" w2] assms(3) show ?thesis by auto
next
  case False
  from assms(1) obtain w0 where first: "transaction (req_tenant r) (core (sys_deployment s) r) w = (Inr (), w0)"
    "w_db w1 = w_db w0" by (cases rule: serve_cases) auto
  obtain r0 v where second: "transaction (req_tenant r) (core (sys_deployment s) r') w2 = (r0, v)" by fastforce
  have "keys_kept (w_db w0) (w_db w2)" using runs_keys [OF assms(2)] first(2) by simp
  from requests.at_most_once [OF first(1) this second assms(4-6)] serve_core [OF False, of "sys_deployment s" w2 r0 v]
    second assms(3,4) show ?thesis by auto
qed

text \<open>C7: a request is all or nothing.  If a request raises, whatever the exception and wherever it came
  from, the committed database is exactly what it was.\<close>

theorem request_atomic:
  assumes "serve d r w = (Inl e, w')"
  shows "w_db w' = w_db w"
  using assms by (cases rule: serve_cases) (auto dest: requests.error_changes_nothing)

text \<open>C6: tenants are isolated.  A request of one tenant leaves every row of every other tenant, in every
  table, as it was, and so the tables without a tenant.\<close>

theorem request_isolated: "serve d r w = (res, w') \<Longrightarrow> isolated (req_tenant r) (w_db w) (w_db w')"
  by (erule serve_cases) (auto dest: requests.other_tenants_unseen)

end
