(* ===== verification/Queries.thy ===== *)
theory Queries
  imports Invariants
begin

text \<open>
  The read-only handlers \<open>application/queries/get_application_status.py\<close> and
  \<open>get_application_evidence.py\<close>, and what a case reads back as after it was written: \<open>reads w a\<close>
  says that the row of \<open>a\<close> in the session parses to \<open>a\<close> again, amount, dates and workflow included.
\<close>

subsection \<open>The handlers\<close>

record status_query =
  gs_tenant :: string
  gs_application :: string

record status_result =
  st_application :: string
  st_status :: application_status
  st_version :: int
  st_workflow :: "string option"

record evidence_result =
  ge_application :: string
  ge_facts :: "stored_fact list"
  ge_checks :: "verification_check list"

definition get_application_status :: "status_query \<Rightarrow> ('x, status_result) handler" where
  "get_application_status q = with_uow (gs_tenant q)
     (bnd (application_get (gs_tenant q) (gs_application q)) (\<lambda>found.
      bnd (from_some (ApplicationNotFoundError (gs_application q)) found) (\<lambda>a. ret
        \<lparr>st_application = app_id a, st_status = app_status a, st_version = app_version a,
         st_workflow = app_workflow a\<rparr>)))"

definition get_application_evidence :: "env \<Rightarrow> status_query \<Rightarrow> ('x, evidence_result) handler" where
  "get_application_evidence env q = with_uow (gs_tenant q)
     (bnd (application_get (gs_tenant q) (gs_application q)) (\<lambda>found.
      bnd (from_some (ApplicationNotFoundError (gs_application q)) found) (\<lambda>_.
      bnd (get_facts env (gs_tenant q) (gs_application q)) (\<lambda>facts.
      bnd (get_checks env (gs_tenant q) (gs_application q)) (\<lambda>checks. ret
        \<lparr>ge_application = gs_application q, ge_facts = facts, ge_checks = checks\<rparr>)))))"

text \<open>A query changes nothing: it is quiet, and the transaction it opens is never committed.\<close>

lemma with_uow_quiet:
  assumes "quiet m" "with_uow t m w = (r, w')"
  shows "w_db w' = w_db w"
proof -
  obtain w1 where w1: "m (aenter t w) = (r, w1)" "w' = aexit w1"
    using assms(2) by (auto simp: with_uow_def split: prod.splits)
  from staysD [OF assms(1) w1(1)] w1(2) show ?thesis by (simp add: same_committed_def)
qed

lemma query_changes_nothing:
  "get_application_status q w = (r, w') \<Longrightarrow> w_db w' = w_db w"
  "get_application_evidence env q w = (r', w'') \<Longrightarrow> w_db w'' = w_db w"
  unfolding get_application_status_def get_application_evidence_def
  by (erule with_uow_quiet [rotated], intro quiet_intros)+

text \<open>Its answer depends on the committed database alone.\<close>

lemma status_answer: "w_db v = w_db w \<Longrightarrow> fst (get_application_status q v) = fst (get_application_status q w)"
  by (simp add: get_application_status_def with_uow_def application_get_def get_application_row_def bnd_run
      split: option.splits sum.splits prod.splits)

subsection \<open>What was written is read back\<close>

lemma mk_Money_again: "mk_Money amt cur = Inr m \<Longrightarrow> mk_Money (amount m) (currency m) = Inr m"
proof -
  assume made: "mk_Money amt cur = Inr m"
  note parts = mk_Money_Inr [OF made]
  have "quantised (amount m)" using quantised_quantize [OF parts(2)] .
  then have "dec_quantize (amount m) (- 2) = Inr (amount m)"
    by (cases "amount m") (auto simp: dec_quantize_same simp del: dec_quantize.simps(1))
  with parts show ?thesis by (simp add: mk_Money_supported)
qed

text \<open>The row of a read application, overwritten with the next version of it, parses to that version.\<close>

lemma saved_row_reads:
  assumes "row_to_application r = Inr a" "next_version a b" "app_created_at b = app_created_at a"
  shows "row_to_application (saved_row b r) = Inr (b\<lparr>app_pending := []\<rparr>)"
proof -
  from assms(1) obtain m s where a: "valid_uuid (ap_id r)" "valid_uuid (ap_tenant r)" "valid_uuid (ap_applicant r)"
    "valid_uuid (ap_product r)" "mk_Money (ap_amount r) (ap_currency r) = Inr m" "status_of_value (ap_status r) = Some s"
    "a = \<lparr>app_id = ap_id r, app_tenant = ap_tenant r, app_applicant = ap_applicant r, app_product = ap_product r, app_amount = m,
          app_term = ap_term r, app_status = s, app_version = ap_version r,
          app_created_at = ap_created_at r, app_updated_at = ap_updated_at r, app_workflow = ap_workflow r, app_pending = []\<rparr>"
    by (auto simp: row_to_application_def bind_result_Inr_iff split: option.splits)
  have "currency m = ap_currency r" using mk_Money_Inr [OF a(5)] by simp
  with mk_Money_again [OF a(5)] a assms(2,3) show ?thesis
    by (simp add: row_to_application_def saved_row_def next_version_def)
qed

definition loaded :: "application \<Rightarrow> db \<Rightarrow> bool" where
  "loaded a d \<longleftrightarrow> (\<exists>r. tbl_find ap_id (app_id a) (db_applications d) = Some r \<and> ap_tenant r = app_tenant a \<and>
     row_to_application r = Inr (a\<lparr>app_pending := []\<rparr>))"

definition reads :: "'x world \<Rightarrow> application \<Rightarrow> bool" where
  "reads w a \<longleftrightarrow> case_inv (w_sess w) \<and> loaded a (w_sess w)"

lemma reads_tracks: "reads w a \<Longrightarrow> tracks w a"
  using row_to_application_agrees
  by (fastforce simp: reads_def loaded_def tracks_def synced_def agrees_def)

lemma case_part_loaded: "case_part d = case_part d' \<Longrightarrow> loaded a d \<longleftrightarrow> loaded a d'"
  by (simp add: case_part_def loaded_def)

lemma reads_leaves: "leaves case_part m \<Longrightarrow> m w = (r, w') \<Longrightarrow> reads w' a \<longleftrightarrow> reads w a"
  unfolding reads_def by (metis leavesD case_part_inv case_part_loaded)

lemma reads_clk [simp]: "reads (w\<lparr>w_clk := n\<rparr>) a \<longleftrightarrow> reads w a"
  by (simp add: reads_def)

lemma loaded_pending [simp]: "loaded (a\<lparr>app_pending := es\<rparr>) d \<longleftrightarrow> loaded a d"
  by (simp add: loaded_def)

lemma reads_load:
  assumes "load_application t k w = (Inr a, w')" "case_inv (w_sess w)"
  shows "reads w' a" "app_id a = k" "app_tenant a = t"
proof -
  from assms(1) obtain r where r: "tbl_find ap_id k (visible ap_tenant (w_scope w) (db_applications (w_sess w))) = Some r"
    "ap_tenant r = t" "row_to_application r = Inr a" "w' = w"
    by (auto simp: load_application_def application_get_def get_application_row_def bnd_def
        split: option.splits if_splits sum.splits)
  have dist: "distinct (map ap_id (db_applications (w_sess w)))" using assms(2) by (simp add: case_inv_def)
  note find = find_visible_row [OF r(1) dist]
  have k: "ap_id r = k" using tbl_find_SomeD [OF find(1)] by simp
  note agr = row_to_application_agrees [OF r(3)]
  with k r(2) show "app_id a = k" "app_tenant a = t" by (auto simp: agrees_def)
  have "a\<lparr>app_pending := []\<rparr> = a" using agr by (cases a) simp
  with find r k agr assms(2) show "reads w' a"
    by (auto simp: reads_def loaded_def agrees_def)
qed

lemma reads_save:
  assumes "application_save env b w = (Inr u, w')" "reads w a" "next_version a b" "app_created_at b = app_created_at a"
  shows "reads w' b"
proof -
  have inv: "case_inv (w_sess w)" "synced a (w_sess w)" using reads_tracks [OF assms(2)] by (simp_all add: tracks_def)
  have dist: "distinct (map ap_id (db_applications (w_sess w)))" using inv(1) by (simp add: case_inv_def)
  from application_save_effect [OF assms(1) dist] obtain r where
    r: "tbl_find ap_id (app_id b) (db_applications (w_sess w)) = Some r" "ap_tenant r = w_scope w" "app_tenant b = w_scope w"
    and d': "w_sess w' = (w_sess w)\<lparr>db_applications := tbl_update ap_id (app_id b)
        (\<lambda>r. if ap_tenant r = w_scope w then saved_row b r else r) (db_applications (w_sess w)),
      db_versions := db_versions (w_sess w) @ [version_snapshot_row b (e_uuid env (w_ids w))]\<rparr>" by blast
  have "row_to_application r = Inr (a\<lparr>app_pending := []\<rparr>)"
    using assms(2,3) r(1) by (auto simp: reads_def loaded_def next_version_def)
  from saved_row_reads [OF this, of b] assms(3,4)
  have parse: "row_to_application (saved_row b r) = Inr (b\<lparr>app_pending := []\<rparr>)" by (simp add: next_version_def)
  have rin: "r \<in> set (db_applications (w_sess w))" "ap_id r = app_id b" using tbl_find_SomeD [OF r(1)] by auto
  have ids: "map ap_id (db_applications (w_sess w')) = map ap_id (db_applications (w_sess w))"
    unfolding d' by (simp add: tbl_update_def saved_row_def)
  have "saved_row b r \<in> set (db_applications (w_sess w'))"
    unfolding d' using tbl_update_mem_iff [OF dist rin] r(2) by simp
  then have "tbl_find ap_id (app_id b) (db_applications (w_sess w')) = Some (saved_row b r)"
    using tbl_find_eq_Some [of ap_id "db_applications (w_sess w')" "saved_row b r"] dist ids rin(2)
    by (simp add: saved_row_def)
  with parse r(2,3) save_keeps_case_inv(1) [OF assms(1) inv assms(3)] show ?thesis
    by (auto simp: reads_def loaded_def saved_row_def)
qed

lemma next_version_ids: "next_version a b \<Longrightarrow> app_id b = app_id a \<and> app_tenant b = app_tenant a"
  by (simp add: next_version_def)

lemma transition_created: "transition_to s reason now a = Inr b \<Longrightarrow> app_created_at b = app_created_at a"
  by (auto simp: transition_to_Inr_iff)

text \<open>The two building blocks that move a case.\<close>

definition follows :: "application \<Rightarrow> application \<Rightarrow> bool" where
  "follows a b \<longleftrightarrow> app_id b = app_id a \<and> app_tenant b = app_tenant a"

lemma reads_move:
  assumes "save_and_move env s reason a w = (Inr b, w')" "reads w a"
  shows "reads w' b" "follows a b"
proof -
  from assms(1) obtain w1 where m: "transition_to s reason (e_clock env (w_clk w)) a = Inr b"
    "w1 = w\<lparr>w_clk := w_clk w + 1\<rparr>" "application_save env b w1 = (Inr (), w')"
    unfolding save_and_move_def by (auto elim!: bnd_InrE at_now_InrE)
  show "reads w' b"
    using reads_save [OF m(3) _ transition_next [OF m(1)] transition_created [OF m(1)]] m(2) assms(2) by simp
  show "follows a b" using next_version_ids [OF transition_next [OF m(1)]] by (simp add: follows_def)
qed

lemma reads_review:
  assumes "enter_human_review env reason a w = (Inr b, w')" "reads w a"
  shows "reads w' b" "follows a b"
proof -
  from assms(1) obtain w1 w2 x where m: "save_and_move env AWAITING_HUMAN_REVIEW reason a w = (Inr b, w1)"
    "clock_now env w1 = (Inr x, w2)" "\<exists>e. review_add e w2 = (Inr (), w')"
    unfolding enter_human_review_def by (auto elim!: bnd_InrE; blast)
  note mv = reads_move [OF m(1) assms(2)]
  from mv(1) m(2,3) show "reads w' b"
    using reads_leaves [OF leaves_primitives(1)] reads_leaves [OF leaves_case_operations(4)] by blast
  show "follows a b" using mv by simp
qed

lemma reads_publish:
  assumes "publish env a w = (Inr b, w')" "reads w a"
  shows "reads w' b" "follows a b" "app_status b = app_status a" "app_version b = app_version a"
proof -
  have b: "b = a\<lparr>app_pending := []\<rparr>" using assms(1) by (auto simp: publish_def pull_events_def elim!: bnd_InrE)
  have "reads w' a" using reads_leaves [OF leaves_case_operations(6) assms(1)] assms(2) by simp
  then show "reads w' b" by (simp add: b reads_def)
  show "follows a b" "app_status b = app_status a" "app_version b = app_version a" by (simp_all add: b follows_def)
qed

subsection \<open>The status query after a write\<close>

lemma status_of_loaded:
  assumes "case_inv (w_db w)" "loaded a (w_db w)"
  shows "\<exists>w'. get_application_status \<lparr>gs_tenant = app_tenant a, gs_application = app_id a\<rparr> w =
    (Inr \<lparr>st_application = app_id a, st_status = app_status a, st_version = app_version a, st_workflow = app_workflow a\<rparr>, w') \<and>
    w_db w' = w_db w"
proof -
  from assms(2) obtain r where r: "tbl_find ap_id (app_id a) (db_applications (w_db w)) = Some r" "ap_tenant r = app_tenant a"
    "row_to_application r = Inr (a\<lparr>app_pending := []\<rparr>)" by (auto simp: loaded_def)
  have mem: "r \<in> set (db_applications (w_db w))" "ap_id r = app_id a" using tbl_find_SomeD [OF r(1)] by auto
  have "distinct (map ap_id (db_applications (w_db w)))" using assms(1) by (simp add: case_inv_def)
  then have "distinct (map ap_id (visible ap_tenant (app_tenant a) (db_applications (w_db w))))"
    by (simp add: visible_def distinct_map_filter)
  moreover have "r \<in> set (visible ap_tenant (app_tenant a) (db_applications (w_db w)))"
    using mem r(2) by (simp add: visible_def)
  ultimately have "tbl_find ap_id (app_id a) (visible ap_tenant (app_tenant a) (db_applications (w_db w))) = Some r"
    using tbl_find_eq_Some mem(2) by metis
  with r show ?thesis
    by (simp add: get_application_status_def with_uow_def application_get_def get_application_row_def bnd_run)
qed

end
