(* ===== verification/Activities.thy ===== *)
theory Activities
  imports System Queries
begin

text \<open>
  \<open>infrastructure/temporal/activities.py\<close> and \<open>activity_io.py\<close>: the six activities, each one command
  handler called with an idempotency key made of the workflow and activity identifiers, so that a
  retry of an activity whose first attempt was committed finds its key taken and reads the current
  state back instead.  The locale \<open>reporting_command\<close> extends the contract of the handlers with what
  their results report; from it, once, a retry is shown to return what the lost attempt returned.
\<close>

subsection \<open>Inputs, results, keys\<close>

record activity_info =
  ai_workflow :: string
  ai_activity :: string

record activity_context =
  ax_tenant :: string
  ax_application :: string

datatype activity_call =
    Validate_Intake | Check_Required_Documents | Extract_Document_Facts | Verify_Facts
  | Enter_Human_Review string
  | Apply_Review_Decision string string "string option"

record activity_status =
  as_status :: string
  as_version :: int

datatype activity_value =
    Status_Result activity_status
  | Extract_Result nat nat
  | Verify_Result nat string

definition activity_key :: "activity_info \<Rightarrow> string option \<Rightarrow> string" where
  "activity_key info suffix =
     (let key = ai_workflow info @ '':'' @ ai_activity info in
      case suffix of None \<Rightarrow> key | Some s \<Rightarrow> key @ '':'' @ s)"

text \<open>\<open>except DuplicateRequestError\<close>\<close>

definition on_duplicate :: "('x, 'a) handler \<Rightarrow> ('x, 'a) handler \<Rightarrow> ('x, 'a) handler" where
  "on_duplicate m otherwise =
     try_except m (\<lambda>e. case e of DuplicateRequestError _ _ \<Rightarrow> otherwise | _ \<Rightarrow> raise e)"

definition current_status :: "string \<Rightarrow> string \<Rightarrow> ('x, activity_status) handler" where
  "current_status tenant_id application_id =
     bnd (get_application_status \<lparr>gs_tenant = tenant_id, gs_application = application_id\<rparr>)
       (\<lambda>r. ret \<lparr>as_status = status_value (st_status r), as_version = st_version r\<rparr>)"

definition status_reported :: "'z case_result_scheme \<Rightarrow> activity_status" where
  "status_reported r = \<lparr>as_status = status_value (res_status r), as_version = res_version r\<rparr>"

text \<open>The shape the four activities that move the case share.\<close>

definition report_status ::
  "string \<Rightarrow> string \<Rightarrow> ('x, 'z case_result_scheme) handler \<Rightarrow> ('x, activity_status) handler" where
  "report_status tenant_id application_id m =
     on_duplicate (bnd m (\<lambda>r. ret (status_reported r))) (current_status tenant_id application_id)"

definition with_ids ::
  "activity_context \<Rightarrow> (string \<Rightarrow> string \<Rightarrow> ('x, 'a) handler) \<Rightarrow> ('x, 'a) handler" where
  "with_ids ctx f =
     bnd (lift_result (mk_id TenantId (ax_tenant ctx))) (\<lambda>tenant_id.
     bnd (lift_result (mk_id ApplicationId (ax_application ctx))) (\<lambda>application_id.
       f tenant_id application_id))"

subsection \<open>The activities\<close>

definition validate_intake_activity ::
  "env \<Rightarrow> activity_info \<Rightarrow> activity_context \<Rightarrow> ('x, activity_status) handler" where
  "validate_intake_activity env info ctx = with_ids ctx (\<lambda>t k.
     report_status t k (advance_intake_validation env
       \<lparr>c_tenant = t, c_application = k, c_key = activity_key info None\<rparr>))"

definition check_required_documents_activity ::
  "env \<Rightarrow> activity_info \<Rightarrow> activity_context \<Rightarrow> ('x, activity_status) handler" where
  "check_required_documents_activity env info ctx = with_ids ctx (\<lambda>t k.
     report_status t k (advance_document_processing env
       \<lparr>c_tenant = t, c_application = k, c_key = activity_key info None\<rparr>))"

definition extract_one ::
  "env \<Rightarrow> 'x document_ports \<Rightarrow> activity_info \<Rightarrow> string \<Rightarrow> string \<Rightarrow> uploaded_document \<Rightarrow> ('x, nat) handler" where
  "extract_one env ports info t k document =
     on_duplicate (bnd (process_document env ports
         \<lparr>c_tenant = t, c_application = k, c_key = activity_key info (Some (doc_id document)), c_document = doc_id document\<rparr>)
       (\<lambda>r. ret (pd_fact_count r))) (ret 0)"

definition extract_document_facts_activity ::
  "env \<Rightarrow> 'x document_ports \<Rightarrow> activity_info \<Rightarrow> activity_context \<Rightarrow> ('x, nat \<times> nat) handler" where
  "extract_document_facts_activity env ports info ctx = with_ids ctx (\<lambda>t k.
     bnd (with_uow t (list_documents env t k)) (\<lambda>documents.
     bnd (map_each (extract_one env ports info t k) documents) (\<lambda>counts.
       ret (length documents, sum_list counts))))"

definition verify_facts_activity ::
  "env \<Rightarrow> 'x verifiers \<Rightarrow> activity_info \<Rightarrow> activity_context \<Rightarrow> ('x, nat \<times> string) handler" where
  "verify_facts_activity env vf info ctx = with_ids ctx (\<lambda>t k.
     on_duplicate
       (bnd (verify_application_facts env vf
           \<lparr>c_tenant = t, c_application = k, c_key = activity_key info None\<rparr>)
         (\<lambda>r. ret (ver_contradictions r, ver_summary r)))
       (bnd (with_uow t (get_checks env t k))
         (\<lambda>checks. ret (count_contradicted checks, build_verification_summary checks))))"

definition enter_human_review_activity ::
  "env \<Rightarrow> activity_info \<Rightarrow> activity_context \<Rightarrow> string \<Rightarrow> ('x, activity_status) handler" where
  "enter_human_review_activity env info ctx reason = with_ids ctx (\<lambda>t k.
     report_status t k (enter_human_review_handler env
       \<lparr>c_tenant = t, c_application = k, c_key = activity_key info None, c_reason = reason\<rparr>))"

text \<open>\<open>ApplicationStatus(name)\<close>\<close>

definition status_named :: "string \<Rightarrow> py_error + application_status" where
  "status_named name =
     (case status_of_value name of
        None \<Rightarrow> Inl (ValueError (py_repr name @ '' is not a valid ApplicationStatus''))
      | Some s \<Rightarrow> Inr s)"

definition apply_review_decision_activity ::
  "env \<Rightarrow> activity_info \<Rightarrow> activity_context \<Rightarrow> string \<Rightarrow> string \<Rightarrow> string option \<Rightarrow> ('x, activity_status) handler" where
  "apply_review_decision_activity env info ctx decision reason reviewer_id = with_ids ctx (\<lambda>t k.
     report_status t k (bnd (lift_result (status_named decision)) (\<lambda>s.
       apply_review_decision env
         \<lparr>c_tenant = t, c_application = k, c_key = activity_key info None, c_reason = reason,
          c_decision = s, c_reviewer = reviewer_id\<rparr>)))"

text \<open>\<open>workflow.execute_activity\<close> finds the activity by its registered name.\<close>

definition run_activity ::
  "'x deployment \<Rightarrow> activity_info \<Rightarrow> activity_context \<Rightarrow> activity_call \<Rightarrow> ('x, activity_value) handler" where
  "run_activity d info ctx call = (let env = dep_env d; status = (\<lambda>m. bnd m (\<lambda>s. ret (Status_Result s))) in
     case call of
       Validate_Intake \<Rightarrow> status (validate_intake_activity env info ctx)
     | Check_Required_Documents \<Rightarrow> status (check_required_documents_activity env info ctx)
     | Extract_Document_Facts \<Rightarrow>
         bnd (extract_document_facts_activity env (dep_ports d) info ctx) (\<lambda>(n, m). ret (Extract_Result n m))
     | Verify_Facts \<Rightarrow>
         bnd (verify_facts_activity env (dep_verifiers d) info ctx) (\<lambda>(n, s). ret (Verify_Result n s))
     | Enter_Human_Review reason \<Rightarrow> status (enter_human_review_activity env info ctx reason)
     | Apply_Review_Decision decision reason reviewer \<Rightarrow>
         status (apply_review_decision_activity env info ctx decision reason reviewer))"

subsection \<open>What the handlers report\<close>

locale reporting_command = idempotent_command env tenant operation key body
  for env :: env and tenant operation key and body :: "'c \<Rightarrow> ('x, 'z case_result_scheme) handler" +
  fixes application :: "'c \<Rightarrow> string"
  assumes reports: "body c w = (Inr y, w') \<Longrightarrow> case_inv (w_sess w) \<Longrightarrow>
    \<exists>b. reads w' b \<and> app_id b = application c \<and> app_tenant b = tenant c \<and>
      res_status y = app_status b \<and> res_version y = app_version b"
begin

lemma duplicate_reads_back:
  assumes "reserved (w_db w) (tenant c) (operation c) (key c)" "case_inv (w_db w)" "loaded b (w_db w)"
    "app_id b = application c" "app_tenant b = tenant c"
  shows "\<exists>w'. report_status (tenant c) (application c) (transaction (tenant c) (body c)) w =
    (Inr \<lparr>as_status = status_value (app_status b), as_version = app_version b\<rparr>, w') \<and> w_db w' = w_db w"
proof -
  obtain w1 where w1: "transaction (tenant c) (body c) w = (Inl (DuplicateRequestError (operation c) (key c)), w1)"
    "w_db w1 = w_db w" using duplicate_rejected [OF assms(1)] by blast
  obtain w2 where "get_application_status \<lparr>gs_tenant = tenant c, gs_application = application c\<rparr> w1 =
      (Inr \<lparr>st_application = app_id b, st_status = app_status b, st_version = app_version b, st_workflow = app_workflow b\<rparr>, w2)"
    "w_db w2 = w_db w1"
    using status_of_loaded [of w1 b] w1(2) assms(2-5) by auto
  with w1 show ?thesis
    by (simp add: report_status_def on_duplicate_def try_except_def current_status_def bnd_run)
qed

lemma success_leaves_loaded:
  assumes "transaction (tenant c) (body c) w = (Inr y, w')" "case_inv (w_db w)"
  shows "\<exists>b. case_inv (w_db w') \<and> loaded b (w_db w') \<and> app_id b = application c \<and> app_tenant b = tenant c \<and>
    status_reported y = \<lparr>as_status = status_value (app_status b), as_version = app_version b\<rparr>"
proof -
  from assms(1) obtain w1 where w1: "body c (aenter (tenant c) w) = (Inr y, w1)" "w_db w' = w_sess w1"
    by (rule transaction_success)
  from reports [OF w1(1)] assms(2) w1(2) show ?thesis by (auto simp: reads_def status_reported_def)
qed

text \<open>A second attempt, after a first that was committed or found its key taken, returns the same and
  changes nothing.\<close>

lemma retry_transparent:
  assumes "report_status (tenant c) (application c) (transaction (tenant c) (body c)) w = (Inr r, w1)" "case_inv (w_db w)"
    "reserved (w_db w1) (tenant c) (operation c) (key c)"
  shows "\<exists>w2. report_status (tenant c) (application c) (transaction (tenant c) (body c)) w1 = (Inr r, w2) \<and> w_db w2 = w_db w1"
proof -
  let ?m = "transaction (tenant c) (body c)" and ?q = "\<lparr>gs_tenant = tenant c, gs_application = application c\<rparr>"
  obtain o1 v where run: "?m w = (o1, v)" by fastforce
  show ?thesis
  proof (cases o1)
    case (Inr y)
    with run assms(1) have now: "r = status_reported y" "w1 = v"
      by (simp_all add: report_status_def on_duplicate_def try_except_def bnd_run)
    from success_leaves_loaded [OF run [unfolded Inr] assms(2)] obtain b where
      b: "case_inv (w_db v)" "loaded b (w_db v)" "app_id b = application c" "app_tenant b = tenant c"
      "status_reported y = \<lparr>as_status = status_value (app_status b), as_version = app_version b\<rparr>" by blast
    from duplicate_reads_back [OF assms(3) [unfolded now(2)] b(1-4)] b(5) now show ?thesis by simp
  next
    case (Inl e)
    from run Inl assms(1) have status: "current_status (tenant c) (application c) v = (Inr r, w1)"
      by (cases e) (simp_all add: report_status_def on_duplicate_def try_except_def bnd_run)
    then obtain s where s: "get_application_status ?q v = (Inr s, w1)"
      "r = \<lparr>as_status = status_value (st_status s), as_version = st_version s\<rparr>"
      unfolding current_status_def by (auto elim!: bnd_InrE)
    obtain v1 where v1: "?m w1 = (Inl (DuplicateRequestError (operation c) (key c)), v1)" "w_db v1 = w_db w1"
      using duplicate_rejected [OF assms(3)] by blast
    obtain a w2 where w2: "get_application_status ?q v1 = (a, w2)" by fastforce
    have "fst (get_application_status ?q v1) = fst (get_application_status ?q v)"
      by (rule status_answer) (use query_changes_nothing(1) [OF s(1)] v1(2) in simp)
    with s(1) w2 have "get_application_status ?q v1 = (Inr s, w2)" by simp
    with v1 query_changes_nothing(1) [OF this] s(2) show ?thesis
      by (simp add: report_status_def on_duplicate_def try_except_def current_status_def bnd_run)
  qed
qed

end

subsection \<open>The four handlers report what they stored\<close>

lemma reports_intake:
  assumes "advance_intake_body env c w = (Inr y, w')" "case_inv (w_sess w)"
  shows "\<exists>b. reads w' b \<and> app_id b = c_application c \<and> app_tenant b = c_tenant c \<and>
    res_status y = app_status b \<and> res_version y = app_version b"
proof -
  from assms(1) obtain w1 w2 a p w3 b ok w4 b' w5 b'' where s:
    "reserve_or_raise env (c_tenant c) (c_key c) ''advance_intake_validation'' w = (Inr (), w1)"
    "load_application (c_tenant c) (c_application c) w1 = (Inr a, w2)"
    "product_get (app_product a) w2 = (Inr p, w3)"
    "save_and_move env INTAKE_VALIDATION ''entering automated intake validation'' a w3 = (Inr b, w4)"
    "(if ok then save_and_move env DOCUMENT_PROCESSING
         ''intake validation passed: within product catalog bounds'' b
      else enter_human_review env (intake_flag_reason b) b) w4 = (Inr b', w5)"
    "publish env b' w5 = (Inr b'', w')" "y = case_result.extend (result_of b'') \<lparr>res_accepted = ok\<rparr>"
    unfolding advance_intake_body_def by (auto elim!: bnd_InrE)
  have inv: "case_inv (w_sess w1)" using reserve_case [OF s(1)] assms(2) by simp
  note a = reads_load [OF s(2) inv]
  have "reads w3 a" using reads_leaves [OF leaves_queries(4) s(3)] a(1) by simp
  note b = reads_move [OF s(4) this]
  have b': "reads w5 b' \<and> follows b b'"
    using s(5) reads_move [OF _ b(1)] reads_review [OF _ b(1)] by (auto split: if_splits)
  from reads_publish [OF s(6)] b' b(2) a(2,3) s(7) show ?thesis
    by (intro exI [of _ b'']) (auto simp: follows_def result_of_def case_result.extend_def)
qed

lemma reports_documents:
  assumes "advance_documents_body env c w = (Inr y, w')" "case_inv (w_sess w)"
  shows "\<exists>b. reads w' b \<and> app_id b = c_application c \<and> app_tenant b = c_tenant c \<and>
    res_status y = app_status b \<and> res_version y = app_version b"
proof -
  from assms(1) obtain w1 w2 a n w3 b w4 b' where s:
    "reserve_or_raise env (c_tenant c) (c_key c) ''advance_document_processing'' w = (Inr (), w1)"
    "load_application (c_tenant c) (c_application c) w1 = (Inr a, w2)"
    "count_documents (c_tenant c) (c_application c) w2 = (Inr n, w3)"
    "(if 1 \<le> n then save_and_move env VERIFICATION (show_nat n @ '' document(s) present'') a
      else enter_human_review env ''no documents uploaded -- requires human review'' a) w3 = (Inr b, w4)"
    "publish env b w4 = (Inr b', w')" "y = case_result.extend (result_of b') \<lparr>res_document_count = n\<rparr>"
    unfolding advance_documents_body_def by (auto elim!: bnd_InrE)
  have inv: "case_inv (w_sess w1)" using reserve_case [OF s(1)] assms(2) by simp
  note a = reads_load [OF s(2) inv]
  have a3: "reads w3 a" using reads_leaves [OF leaves_queries(6) s(3)] a(1) by simp
  have b: "reads w4 b \<and> follows a b"
    using s(4) reads_move [OF _ a3] reads_review [OF _ a3] by (auto split: if_splits)
  from reads_publish [OF s(5)] b a(2,3) s(6) show ?thesis
    by (intro exI [of _ b']) (auto simp: follows_def result_of_def case_result.extend_def)
qed

lemma reports_enter_review:
  assumes "enter_review_body env c w = (Inr y, w')" "case_inv (w_sess w)"
  shows "\<exists>b. reads w' b \<and> app_id b = c_application c \<and> app_tenant b = c_tenant c \<and>
    res_status y = app_status b \<and> res_version y = app_version b"
proof -
  from assms(1) obtain w1 w2 a b w3 b' where s:
    "reserve_or_raise env (c_tenant c) (c_key c) ''enter_human_review'' w = (Inr (), w1)"
    "load_application (c_tenant c) (c_application c) w1 = (Inr a, w2)"
    "enter_human_review env (c_reason c) a w2 = (Inr b, w3)" "publish env b w3 = (Inr b', w')" "y = result_of b'"
    unfolding enter_review_body_def by (auto elim!: bnd_InrE)
  have inv: "case_inv (w_sess w1)" using reserve_case [OF s(1)] assms(2) by simp
  note a = reads_load [OF s(2) inv]
  note b = reads_review [OF s(3) a(1)]
  from reads_publish [OF s(4) b(1)] b(2) a(2,3) s(5) show ?thesis
    by (intro exI [of _ b']) (auto simp: follows_def result_of_def)
qed

lemma reports_decision:
  assumes "apply_decision_body env c w = (Inr y, w')" "case_inv (w_sess w)"
  shows "\<exists>b. reads w' b \<and> app_id b = c_application c \<and> app_tenant b = c_tenant c \<and>
    res_status y = app_status b \<and> res_version y = app_version b"
proof -
  from assms(1) obtain w1 w2 a b w4 w5 b' where s:
    "reserve_or_raise env (c_tenant c) (c_key c) ''apply_review_decision'' w = (Inr (), w1)"
    "load_application (c_tenant c) (c_application c) w1 = (Inr a, w2)"
    "transition_to (c_decision c) (c_reason c) (e_clock env (w_clk w2)) a = Inr b"
    "\<exists>now. mark_decided (c_tenant c) (c_application c) (status_value (c_decision c)) (c_reason c)
       (c_reviewer c) now (w2\<lparr>w_clk := Suc (Suc (w_clk w2))\<rparr>) = (Inr (), w4)"
    "application_save env (detach_workflow b) w4 = (Inr (), w5)"
    "publish env (detach_workflow b) w5 = (Inr b', w')" "y = result_of b'"
    unfolding apply_decision_body_def Let_def by (auto elim!: bnd_InrE at_now_InrE; blast)
  have inv: "case_inv (w_sess w1)" using reserve_case [OF s(1)] assms(2) by simp
  note a = reads_load [OF s(2) inv]
  have "reads w4 a" using s(4) reads_leaves [OF leaves_mark_decided(2)] a(1) by (metis reads_clk)
  moreover have "next_version a (detach_workflow b)" "app_created_at (detach_workflow b) = app_created_at a"
    using next_version_bookkeeping(2) [OF transition_next [OF s(3)]] transition_created [OF s(3)]
    by (simp_all add: detach_workflow_def)
  ultimately have "reads w5 (detach_workflow b)" using reads_save [OF s(5)] by blast
  with reads_publish [OF s(6)] a(2,3) s(3,7) show ?thesis
    by (intro exI [of _ b']) (auto simp: follows_def result_of_def detach_workflow_def transition_to_Inr_iff)
qed

interpretation intake_activity: reporting_command env c_tenant "\<lambda>_. ''advance_intake_validation''" c_key
    "advance_intake_body env" c_application for env
  by unfold_locales (rule claims_bodies, intro quiet_intros, intro confined_intros, rule reports_intake)

interpretation documents_activity: reporting_command env c_tenant "\<lambda>_. ''advance_document_processing''" c_key
    "advance_documents_body env" c_application for env
  by unfold_locales (rule claims_bodies, intro quiet_intros, intro confined_intros, rule reports_documents)

interpretation review_activity: reporting_command env c_tenant "\<lambda>_. ''enter_human_review''" c_key
    "enter_review_body env" c_application for env
  by unfold_locales (rule claims_bodies, intro quiet_intros, intro confined_intros, rule reports_enter_review)

interpretation decision_activity: reporting_command env c_tenant "\<lambda>_. ''apply_review_decision''" c_key
    "apply_decision_body env" c_application for env
  by unfold_locales (rule claims_bodies, intro quiet_intros, intro confined_intros, rule reports_decision)

subsection \<open>A retry is transparent\<close>

text \<open>The operation whose key an activity reserves, for the four that move the case.\<close>

fun moving_operation :: "activity_call \<Rightarrow> string option" where
  "moving_operation Validate_Intake = Some ''advance_intake_validation''"
| "moving_operation Check_Required_Documents = Some ''advance_document_processing''"
| "moving_operation (Enter_Human_Review _) = Some ''enter_human_review''"
| "moving_operation (Apply_Review_Decision _ _ _) = Some ''apply_review_decision''"
| "moving_operation Extract_Document_Facts = None"
| "moving_operation Verify_Facts = None"

lemma with_ids_Inr:
  "with_ids ctx f w = (Inr r, w') \<Longrightarrow>
     f (ax_tenant ctx) (ax_application ctx) w = (Inr r, w') \<and> with_ids ctx f = f (ax_tenant ctx) (ax_application ctx)"
  by (auto simp: with_ids_def fun_eq_iff bnd_run split: sum.splits)

lemma status_result_Inr:
  "bnd m (\<lambda>s. ret (Status_Result s)) w = (Inr v, w') \<longleftrightarrow> (\<exists>s. m w = (Inr s, w') \<and> v = Status_Result s)"
  by (auto simp: bnd_run split: sum.splits prod.splits)

text \<open>A decision the activity accepts is one of the four, so its transaction is all there is.\<close>

lemma accepted_decision:
  assumes "report_status t k (bnd (lift_result (status_named decision)) (\<lambda>s. apply_review_decision env
      \<lparr>c_tenant = t, c_application = k, c_key = key, c_reason = reason, c_decision = s, c_reviewer = reviewer\<rparr>)) w = (Inr r, w')"
  obtains s where "status_named decision = Inr s" "s \<in> set ALLOWED_DECISIONS"
    "bnd (lift_result (status_named decision)) (\<lambda>s. apply_review_decision env
      \<lparr>c_tenant = t, c_application = k, c_key = key, c_reason = reason, c_decision = s, c_reviewer = reviewer\<rparr>) =
     transaction t (apply_decision_body env
      \<lparr>c_tenant = t, c_application = k, c_key = key, c_reason = reason, c_decision = s, c_reviewer = reviewer\<rparr> :: ('x, case_result) handler)"
proof (cases "status_named decision")
  case (Inl e)
  then have "\<exists>m. e = ValueError m" by (auto simp: status_named_def split: option.splits)
  with Inl assms show thesis
    by (auto simp: report_status_def on_duplicate_def try_except_def bnd_run)
next
  case (Inr s)
  show thesis
  proof (cases "s \<in> set ALLOWED_DECISIONS")
    case True
    with Inr that show thesis by (simp add: fun_eq_iff bnd_run apply_review_decision_def)
  next
    case False
    with Inr assms show thesis
      by (simp add: report_status_def on_duplicate_def try_except_def bnd_run apply_review_decision_def)
  qed
qed

text \<open>C10: retrying an activity that moves the case is transparent.  If an attempt was committed but its
  result was lost on the way to the workflow, the next attempt of the same activity changes nothing in
  the database and returns exactly the status and version the lost one returned.\<close>

theorem retried_activity_is_transparent:
  assumes "run_activity d info ctx call w = (Inr v, w1)" "case_inv (w_db w)" "moving_operation call = Some op"
    "reserved (w_db w1) (ax_tenant ctx) op (activity_key info None)"
  shows "\<exists>w2. run_activity d info ctx call w1 = (Inr v, w2) \<and> w_db w2 = w_db w1"
proof -
  let ?t = "ax_tenant ctx" and ?k = "ax_application ctx"
  note status = run_activity_def Let_def status_result_Inr
  show ?thesis
  proof (cases call)
    case Validate_Intake
    with assms(1) obtain s where run: "validate_intake_activity (dep_env d) info ctx w = (Inr s, w1)" "v = Status_Result s"
      by (auto simp: status)
    note ids = with_ids_Inr [OF run(1) [unfolded validate_intake_activity_def]]
    let ?c = "\<lparr>c_tenant = ?t, c_application = ?k, c_key = activity_key info None\<rparr>"
    have "report_status ?t ?k (transaction ?t (advance_intake_body (dep_env d) ?c)) w = (Inr s, w1)"
      using ids by (simp add: advance_intake_validation_def)
    from intake_activity.retry_transparent [where c = ?c, simplified, OF this] assms(2-4) Validate_Intake run(2) ids show ?thesis
      by (auto simp: status validate_intake_activity_def advance_intake_validation_def)
  next
    case Check_Required_Documents
    with assms(1) obtain s where run: "check_required_documents_activity (dep_env d) info ctx w = (Inr s, w1)" "v = Status_Result s"
      by (auto simp: status)
    note ids = with_ids_Inr [OF run(1) [unfolded check_required_documents_activity_def]]
    let ?c = "\<lparr>c_tenant = ?t, c_application = ?k, c_key = activity_key info None\<rparr>"
    have "report_status ?t ?k (transaction ?t (advance_documents_body (dep_env d) ?c)) w = (Inr s, w1)"
      using ids by (simp add: advance_document_processing_def)
    from documents_activity.retry_transparent [where c = ?c, simplified, OF this] assms(2-4) Check_Required_Documents run(2) ids show ?thesis
      by (auto simp: status check_required_documents_activity_def advance_document_processing_def)
  next
    case (Enter_Human_Review reason)
    with assms(1) obtain s where run: "enter_human_review_activity (dep_env d) info ctx reason w = (Inr s, w1)" "v = Status_Result s"
      by (auto simp: status)
    note ids = with_ids_Inr [OF run(1) [unfolded enter_human_review_activity_def]]
    let ?c = "\<lparr>c_tenant = ?t, c_application = ?k, c_key = activity_key info None, c_reason = reason\<rparr>"
    have "report_status ?t ?k (transaction ?t (enter_review_body (dep_env d) ?c)) w = (Inr s, w1)"
      using ids by (simp add: enter_human_review_handler_def)
    from review_activity.retry_transparent [where c = ?c, simplified, OF this] assms(2-4) Enter_Human_Review run(2) ids show ?thesis
      by (auto simp: status enter_human_review_activity_def enter_human_review_handler_def)
  next
    case (Apply_Review_Decision decision reason reviewer)
    with assms(1) obtain s where run: "apply_review_decision_activity (dep_env d) info ctx decision reason reviewer w = (Inr s, w1)"
      "v = Status_Result s" by (auto simp: status)
    note ids = with_ids_Inr [OF run(1) [unfolded apply_review_decision_activity_def]]
    let ?c = "\<lambda>x. \<lparr>c_tenant = ?t, c_application = ?k, c_key = activity_key info None, c_reason = reason,
       c_decision = x, c_reviewer = reviewer\<rparr>"
    from accepted_decision [OF conjunct1 [OF ids]] obtain x where
      x: "bnd (lift_result (status_named decision)) (\<lambda>s. apply_review_decision (dep_env d) (?c s)) =
        (transaction ?t (apply_decision_body (dep_env d) (?c x)) :: ('a, case_result) handler)" by blast
    have "report_status ?t ?k (transaction ?t (apply_decision_body (dep_env d) (?c x))) w = (Inr s, w1)"
      using ids by (simp add: x)
    from decision_activity.retry_transparent [where c = "?c x", simplified, OF this]
      assms(2-4) Apply_Review_Decision run(2) ids show ?thesis
      by (auto simp: status apply_review_decision_activity_def x)
  qed (use assms(3) in simp_all)
qed

end
