(* ===== verification/Walkthrough.thy ===== *)
theory Walkthrough
  imports System
begin

text \<open>
  One case of the demo tenant, from its creation to the human decision, in the database the first
  migration leaves: the handlers run one after the other and each finds what the one before left.
\<close>

definition sample_deployment :: "unit deployment" where
  "sample_deployment = \<lparr>dep_env = sample_env, dep_ports = sample_ports, dep_verifiers = no_verifiers, dep_runner = None\<rparr>"

definition sample_system :: "unit system" where
  "sample_system =
     \<lparr>sys_deployment = sample_deployment,
      sys_broker = \<lparr>br_publish = (\<lambda>_ _ x. (Inr (), x)), br_order = (\<lambda>rows. rows)\<rparr>,
      sys_batch_size = 100, sys_consumer_group = ''applications-projection''\<rparr>"

definition demo_product_row :: product_row where
  "demo_product_row = hd (db_products (initial_db sample_instant))"

definition walked_row :: "application_status \<Rightarrow> int \<Rightarrow> datetime \<Rightarrow> string option \<Rightarrow> application_row" where
  "walked_row s v updated flow =
     \<lparr>ap_id = new_id 1, ap_tenant = DEMO_TENANT_ID, ap_applicant = new_id 0, ap_product = prod_id demo_product,
      ap_amount = Finite False 1000000 (- 2), ap_currency = ''USD'', ap_term = 24, ap_status = status_value s,
      ap_version = v, ap_created_at = sample_instant, ap_updated_at = updated, ap_workflow = flow\<rparr>"

definition walked_case :: "application_status \<Rightarrow> int \<Rightarrow> datetime \<Rightarrow> string option \<Rightarrow> application" where
  "walked_case s v updated flow =
     \<lparr>app_id = new_id 1, app_tenant = DEMO_TENANT_ID, app_applicant = new_id 0, app_product = prod_id demo_product,
      app_amount = \<lparr>amount = Finite False 1000000 (- 2), currency = ''USD''\<rparr>, app_term = 24, app_status = s,
      app_version = v, app_created_at = sample_instant, app_updated_at = updated, app_workflow = flow, app_pending = []\<rparr>"

lemma product_read:
  "row_to_product demo_product_row = Inr demo_product" "pr_id demo_product_row = prod_id demo_product"
  "pr_tenant demo_product_row = DEMO_TENANT_ID"
  by (simp_all add: demo_product_row_def initial_db_def demo_product_row)

lemma walked_row_read: "row_to_application (walked_row s v updated flow) = Inr (walked_case s v updated flow)"
  using valid_demo valid_new_id
  by (simp add: row_to_application_def walked_row_def walked_case_def demo_money decimal_precision_def)

text \<open>The database of the case in a given status and version, after \<open>n\<close> identifiers were drawn: what the
  next handler needs to know of it.\<close>

definition case_world :: "application_status \<Rightarrow> int \<Rightarrow> nat \<Rightarrow> (string \<times> string) list \<Rightarrow> review_row list \<Rightarrow> 'x world \<Rightarrow> bool" where
  "case_world s v n ops queue w \<longleftrightarrow>
     w_ids w = n \<and> db_tenants (w_db w) = [DEMO_TENANT_ID] \<and> db_products (w_db w) = [demo_product_row] \<and>
     (\<exists>updated flow. db_applications (w_db w) = [walked_row s v updated flow]) \<and>
     (\<forall>x \<in> set (db_versions (w_db w)). vr_version x \<le> v \<and> vr_id x \<in> new_id ` {..<n}) \<and>
     (\<forall>x \<in> set (db_outbox (w_db w)). ob_id x \<in> new_id ` {..<n}) \<and>
     (\<forall>x \<in> set (db_audit_events (w_db w)). au_id x \<in> new_id ` {..<n}) \<and>
     (\<exists>h. db_audit_hashes (w_db w) = [h] \<and> ah_tenant h = DEMO_TENANT_ID) \<and>
     map (\<lambda>i. (ik_operation i, ik_key i)) (db_idempotency_keys (w_db w)) = ops \<and> db_review_queue (w_db w) = queue \<and> db_documents (w_db w) = []"

lemma created:
  "\<exists>w. serve sample_deployment (Create sample_create) (world_of (initial_db sample_instant) ()) = (Inr (), w) \<and>
     case_world DRAFT 1 4 [(''create_application'', ''k1'')] [] w"
  using valid_demo
  apply (simp add: serve_def sample_deployment_def discard_def create_application_def create_application_body_def run_defs sample_env_def
    sample_create_def world_of_def initial_db_def product_get_def demo_product_row demo_accepts valid_new_id
    mk_Applicant_def str_strip_def strip_by_def is_space_def char_code_def starts_with_def applicant_add_def
    application_add_def application_to_row_def application_row_ok_def application_row_fits_def fits_int32_def
    create_def sample_guards publish_def pull_events_def outbox_row_of_def audit_row_of_def version_snapshot_row_def
    application_ids_def SCHEMA_VERSION_def Let_def result_of_def case_result.extend_def APPLICATION_STATUSES_def)
  apply (simp add: case_world_def)
  apply (simp add: walked_row_def demo_product_row_def initial_db_def)
  done

lemma fresh_id: "n \<le> m \<Longrightarrow> m < 2 ^ 48 \<Longrightarrow> new_id m \<notin> new_id ` {..<n}"
  by (auto simp: new_id_inject)

lemma unseen: "\<forall>x \<in> xs. f x \<in> new_id ` {..<n} \<Longrightarrow> n \<le> m \<Longrightarrow> m < 2 ^ 48 \<Longrightarrow> new_id m \<notin> f ` xs"
  using fresh_id by fastforce

lemma grown_ids: "\<forall>x \<in> xs. f x \<in> new_id ` {..<n} \<Longrightarrow> n \<le> m \<Longrightarrow> \<forall>x \<in> xs. f x \<in> new_id ` {..<m}"
  by fastforce

lemma grown_versions:
  assumes "\<forall>x \<in> xs. vr_version x \<le> v \<and> vr_id x \<in> new_id ` {..<n}" "n \<le> m" "v \<le> v'" "x \<in> xs"
  shows "vr_version x \<le> v'" "vr_id x \<in> new_id ` {..<m}"
  using assms by fastforce+

lemma case_worldE:
  assumes "case_world s v n ops queue w" "n < 2 ^ 40" "(op, key) \<notin> set ops"
  obtains updated flow h where "w_ids w = n" "db_tenants (w_db w) = [DEMO_TENANT_ID]"
    "db_products (w_db w) = [demo_product_row]" "db_applications (w_db w) = [walked_row s v updated flow]"
    "db_audit_hashes (w_db w) = [h]" "ah_tenant h = DEMO_TENANT_ID"
    "map (\<lambda>i. (ik_operation i, ik_key i)) (db_idempotency_keys (w_db w)) = ops" "db_review_queue (w_db w) = queue" "db_documents (w_db w) = []"
    "\<forall>x \<in> set (db_versions (w_db w)). vr_version x \<le> v \<and> vr_id x \<in> new_id ` {..<n}"
    "\<forall>x \<in> set (db_outbox (w_db w)). ob_id x \<in> new_id ` {..<n}"
    "\<forall>x \<in> set (db_audit_events (w_db w)). au_id x \<in> new_id ` {..<n}"
    "\<And>m. n \<le> m \<Longrightarrow> m < 2 ^ 48 \<Longrightarrow> new_id m \<notin> vr_id ` set (db_versions (w_db w))"
    "\<And>m. n \<le> m \<Longrightarrow> m < 2 ^ 48 \<Longrightarrow> new_id m \<notin> ob_id ` set (db_outbox (w_db w))"
    "\<And>m. n \<le> m \<Longrightarrow> m < 2 ^ 48 \<Longrightarrow> new_id m \<notin> au_id ` set (db_audit_events (w_db w))"
    "\<And>k v'. v < v' \<Longrightarrow> (k, v') \<notin> (\<lambda>x. (vr_application x, vr_version x)) ` set (db_versions (w_db w))"
    "\<And>t. (t, op, key) \<notin> (\<lambda>i. (ik_tenant i, ik_operation i, ik_key i)) ` set (db_idempotency_keys (w_db w))"
proof -
  from assms(1) obtain updated flow h where w: "w_ids w = n" "db_tenants (w_db w) = [DEMO_TENANT_ID]"
    "db_products (w_db w) = [demo_product_row]" "db_applications (w_db w) = [walked_row s v updated flow]"
    "db_audit_hashes (w_db w) = [h]" "ah_tenant h = DEMO_TENANT_ID"
    "map (\<lambda>i. (ik_operation i, ik_key i)) (db_idempotency_keys (w_db w)) = ops" "db_review_queue (w_db w) = queue" "db_documents (w_db w) = []"
    "\<forall>x \<in> set (db_versions (w_db w)). vr_version x \<le> v \<and> vr_id x \<in> new_id ` {..<n}"
    "\<forall>x \<in> set (db_outbox (w_db w)). ob_id x \<in> new_id ` {..<n}"
    "\<forall>x \<in> set (db_audit_events (w_db w)). au_id x \<in> new_id ` {..<n}"
    unfolding case_world_def by (elim exE conjE) (rule that)
  have "(op, key) \<notin> (\<lambda>i. (ik_operation i, ik_key i)) ` set (db_idempotency_keys (w_db w))"
    using assms(3) w(7) by (metis set_map)
  then have op: "(t, op, key) \<notin> (\<lambda>i. (ik_tenant i, ik_operation i, ik_key i)) ` set (db_idempotency_keys (w_db w))" for t
    by blast
  have version: "v < v' \<Longrightarrow> (k, v') \<notin> (\<lambda>x. (vr_application x, vr_version x)) ` set (db_versions (w_db w))" for k v'
    using w(10) by fastforce
  have fresh: "n \<le> m \<Longrightarrow> m < 2 ^ 48 \<Longrightarrow> new_id m \<notin> vr_id ` set (db_versions (w_db w))"
    "n \<le> m \<Longrightarrow> m < 2 ^ 48 \<Longrightarrow> new_id m \<notin> ob_id ` set (db_outbox (w_db w))"
    "n \<le> m \<Longrightarrow> m < 2 ^ 48 \<Longrightarrow> new_id m \<notin> au_id ` set (db_audit_events (w_db w))" for m
    using unseen [OF w(11)] unseen [OF w(12)] unseen [where f = vr_id and xs = "set (db_versions (w_db w))"] w(10) by blast+
  show thesis by (rule that [OF w fresh version op])
qed

definition walk_command :: "string \<Rightarrow> case_command" where
  "walk_command k = \<lparr>c_tenant = DEMO_TENANT_ID, c_application = new_id 1, c_key = k\<rparr>"

lemmas walk_simps = run_defs serve_def sample_deployment_def sample_env_def discard_def
  load_application_def application_get_def get_application_row_def walked_row_read application_save_def visible_def
  valid_new_id walk_command_def walked_case_def transition_to_def is_legal_transition_def update_application_def
  saved_row_def save_and_move_def application_row_ok_def application_row_fits_def fits_int32_def
  publish_def pull_events_def outbox_row_of_def audit_row_of_def version_snapshot_row_def
  application_ids_def SCHEMA_VERSION_def Let_def result_of_def case_result.extend_def APPLICATION_STATUSES_def

subsection \<open>The steps\<close>

lemma submitted:
  assumes "case_world DRAFT 1 4 ops [] w" "(''submit_application'', k) \<notin> set ops"
  shows "\<exists>w'. serve sample_deployment (Submit (walk_command k)) w = (Inr (), w') \<and>
     case_world SUBMITTED 2 6 (ops @ [(''submit_application'', k)]) [] w'"
proof (cases rule: case_worldE [OF assms(1) _ assms(2)])
  case (2 updated flow h)
  note fresh = 2(13-15) [of 4] 2(13-15) [of 5] 2(16,17)
  show ?thesis
    using valid_demo 2(1-9) fresh
    apply (simp add: walk_simps submit_application_def move_and_attach_def submit_def attach_workflow_def start_after_def start_best_effort_def)
    apply (simp add: case_world_def 2(10-12))
    apply (simp add: new_id_inject walked_row_def grown_ids [OF 2(11)] grown_ids [OF 2(12)]
        grown_versions(2) [OF 2(10) _ order_refl] grown_versions(1) [OF 2(10) order_refl])
    done
qed simp

lemma taken_in:
  assumes "case_world SUBMITTED 2 6 ops [] w" "(''advance_intake_validation'', k) \<notin> set ops"
  shows "\<exists>w'. serve sample_deployment (Advance_Intake (walk_command k)) w = (Inr (), w') \<and>
     case_world DOCUMENT_PROCESSING 4 10 (ops @ [(''advance_intake_validation'', k)]) [] w'"
proof (cases rule: case_worldE [OF assms(1) _ assms(2)])
  case (2 updated flow h)
  note fresh = 2(13-15) [of 6] 2(13-15) [of 7] 2(13-15) [of 8] 2(13-15) [of 9] 2(16,17)
  show ?thesis
    using valid_demo 2(1-9) fresh
    apply (simp add: walk_simps advance_intake_validation_def advance_intake_body_def product_get_def product_read demo_accepts)
    apply (simp add: case_world_def 2(10-12))
    apply (simp add: new_id_inject walked_row_def grown_ids [OF 2(11)] grown_ids [OF 2(12)]
        grown_versions(2) [OF 2(10) _ order_refl] grown_versions(1) [OF 2(10) order_refl])
    done
qed simp

definition queued :: "string option \<Rightarrow> review_row" where
  "queued decision =
     \<lparr>rr_application = new_id 1, rr_tenant = DEMO_TENANT_ID, rr_entered_at = sample_instant,
      rr_status = (if decision = None then ''pending'' else ''decided''), rr_decision = decision,
      rr_reason = map_option (\<lambda>_. ''income covers the payments'') decision, rr_reviewer = map_option (\<lambda>_. new_id 900) decision,
      rr_decided_at = map_option (\<lambda>_. sample_instant) decision\<rparr>"

definition walk_decision :: "string \<Rightarrow> application_status \<Rightarrow> decision_command" where
  "walk_decision k s = \<lparr>c_tenant = DEMO_TENANT_ID, c_application = new_id 1, c_key = k,
     c_reason = ''income covers the payments'', c_decision = s, c_reviewer = Some (new_id 900)\<rparr>"

lemma queued_for_review:
  assumes "case_world DOCUMENT_PROCESSING 4 10 ops [] w" "(''advance_document_processing'', k) \<notin> set ops"
  shows "\<exists>w'. serve sample_deployment (Advance_Documents (walk_command k)) w = (Inr (), w') \<and>
     case_world AWAITING_HUMAN_REVIEW 5 12 (ops @ [(''advance_document_processing'', k)]) [queued None] w'"
proof (cases rule: case_worldE [OF assms(1) _ assms(2)])
  case (2 updated flow h)
  note fresh = 2(13-15) [of 10] 2(13-15) [of 11] 2(16,17)
  show ?thesis
    using valid_demo 2(1-9) fresh
    apply (simp add: walk_simps advance_document_processing_def advance_documents_body_def count_documents_def enter_human_review_def
        review_add_def insert_review_def review_status_ok_def application_documents_def queued_def)
    apply (simp add: case_world_def 2(10-12))
    apply (simp add: new_id_inject walked_row_def grown_ids [OF 2(11)] grown_ids [OF 2(12)]
        grown_versions(2) [OF 2(10) _ order_refl] grown_versions(1) [OF 2(10) order_refl])
    done
qed simp

lemma approved:
  assumes "case_world AWAITING_HUMAN_REVIEW 5 12 ops [queued None] w" "(''apply_review_decision'', k) \<notin> set ops"
  shows "\<exists>w'. serve sample_deployment (Decide (walk_decision k APPROVED)) w = (Inr (), w') \<and>
     case_world APPROVED 6 14 (ops @ [(''apply_review_decision'', k)]) [queued (Some ''APPROVED'')] w'"
proof (cases rule: case_worldE [OF assms(1) _ assms(2)])
  case (2 updated flow h)
  note fresh = 2(13-15) [of 12] 2(13-15) [of 13] 2(16,17)
  show ?thesis
    using valid_demo 2(1-9) fresh
    apply (simp add: walk_simps apply_review_decision_def apply_decision_body_def walk_decision_def ALLOWED_DECISIONS_def
        detach_workflow_def mark_decided_def review_row_of_def decided_row_def tbl_update_def tbl_find_def queued_def)
    apply (simp add: case_world_def 2(10-12))
    apply (simp add: new_id_inject walked_row_def grown_ids [OF 2(11)] grown_ids [OF 2(12)]
        grown_versions(2) [OF 2(10) _ order_refl] grown_versions(1) [OF 2(10) order_refl])
    done
qed simp

lemma sent_back:
  assumes "case_world AWAITING_HUMAN_REVIEW 5 12 ops [queued None] w" "(''apply_review_decision'', k) \<notin> set ops"
  shows "\<exists>w'. serve sample_deployment (Decide (walk_decision k NEEDS_MORE_INFORMATION)) w = (Inr (), w') \<and>
     case_world NEEDS_MORE_INFORMATION 6 14 (ops @ [(''apply_review_decision'', k)]) [queued (Some ''NEEDS_MORE_INFORMATION'')] w'"
proof (cases rule: case_worldE [OF assms(1) _ assms(2)])
  case (2 updated flow h)
  note fresh = 2(13-15) [of 12] 2(13-15) [of 13] 2(16,17)
  show ?thesis
    using valid_demo 2(1-9) fresh
    apply (simp add: walk_simps apply_review_decision_def apply_decision_body_def walk_decision_def ALLOWED_DECISIONS_def
        detach_workflow_def mark_decided_def review_row_of_def decided_row_def tbl_update_def tbl_find_def queued_def)
    apply (simp add: case_world_def 2(10-12))
    apply (simp add: new_id_inject walked_row_def grown_ids [OF 2(11)] grown_ids [OF 2(12)]
        grown_versions(2) [OF 2(10) _ order_refl] grown_versions(1) [OF 2(10) order_refl])
    done
qed simp

lemma resubmitted:
  assumes "case_world NEEDS_MORE_INFORMATION 6 14 ops [queued (Some ''NEEDS_MORE_INFORMATION'')] w" "(''resubmit_application'', k) \<notin> set ops"
  shows "\<exists>w'. serve sample_deployment (Resubmit (walk_command k)) w = (Inr (), w') \<and>
     case_world DOCUMENT_PROCESSING 7 16 (ops @ [(''resubmit_application'', k)]) [queued (Some ''NEEDS_MORE_INFORMATION'')] w'"
proof (cases rule: case_worldE [OF assms(1) _ assms(2)])
  case (2 updated flow h)
  note fresh = 2(13-15) [of 14] 2(13-15) [of 15] 2(16,17)
  show ?thesis
    using valid_demo 2(1-9) fresh
    apply (simp add: walk_simps resubmit_application_def move_and_attach_def attach_workflow_def start_after_def start_best_effort_def)
    apply (simp add: case_world_def 2(10-12))
    apply (simp add: new_id_inject walked_row_def grown_ids [OF 2(11)] grown_ids [OF 2(12)]
        grown_versions(2) [OF 2(10) _ order_refl] grown_versions(1) [OF 2(10) order_refl])
    done
qed simp

subsection \<open>The walk\<close>

abbreviation start_world :: "unit world" where
  "start_world \<equiv> world_of (initial_db sample_instant) ()"

lemma start_reachable: "reachable sample_system start_world"
  by (rule reachable.start [where now = sample_instant]) (simp add: world_of_def)

lemma step_request:
  "serve sample_deployment r w = (res, w') \<Longrightarrow> system_step sample_system w w'"
  by (rule system_step.request [where r = r and res = res]) (simp add: sample_system_def)

lemma walk_to_review:
  obtains w1 w2 w3 w4 where "serve sample_deployment (Create sample_create) start_world = (Inr (), w1)"
    "serve sample_deployment (Submit (walk_command ''k2'')) w1 = (Inr (), w2)"
    "serve sample_deployment (Advance_Intake (walk_command ''k3'')) w2 = (Inr (), w3)"
    "serve sample_deployment (Advance_Documents (walk_command ''k4'')) w3 = (Inr (), w4)"
    "case_world AWAITING_HUMAN_REVIEW 5 12 [(''create_application'', ''k1''), (''submit_application'', ''k2''),
       (''advance_intake_validation'', ''k3''), (''advance_document_processing'', ''k4'')] [queued None] w4"
proof -
  obtain w1 where 1: "serve sample_deployment (Create sample_create) start_world = (Inr (), w1)"
    "case_world DRAFT 1 4 [(''create_application'', ''k1'')] [] w1" using created by blast
  obtain w2 where 2: "serve sample_deployment (Submit (walk_command ''k2'')) w1 = (Inr (), w2)"
    "case_world SUBMITTED 2 6 [(''create_application'', ''k1''), (''submit_application'', ''k2'')] [] w2"
    using submitted [OF 1(2), of "''k2''"] by auto
  obtain w3 where 3: "serve sample_deployment (Advance_Intake (walk_command ''k3'')) w2 = (Inr (), w3)"
    "case_world DOCUMENT_PROCESSING 4 10 [(''create_application'', ''k1''), (''submit_application'', ''k2''),
       (''advance_intake_validation'', ''k3'')] [] w3"
    using taken_in [OF 2(2), of "''k3''"] by auto
  obtain w4 where "serve sample_deployment (Advance_Documents (walk_command ''k4'')) w3 = (Inr (), w4)"
    "case_world AWAITING_HUMAN_REVIEW 5 12 [(''create_application'', ''k1''), (''submit_application'', ''k2''),
       (''advance_intake_validation'', ''k3''), (''advance_document_processing'', ''k4'')] [queued None] w4"
    using queued_for_review [OF 3(2), of "''k4''"] by auto
  from that [OF 1(1) 2(1) 3(1) this] show thesis .
qed

lemma walk_to_approval:
  obtains w where "reachable sample_system w" "\<exists>ops. case_world APPROVED 6 14 ops [queued (Some ''APPROVED'')] w"
proof (rule walk_to_review)
  fix w1 w2 w3 w4
  assume walk: "serve sample_deployment (Create sample_create) start_world = (Inr (), w1)"
    "serve sample_deployment (Submit (walk_command ''k2'')) w1 = (Inr (), w2)"
    "serve sample_deployment (Advance_Intake (walk_command ''k3'')) w2 = (Inr (), w3)"
    "serve sample_deployment (Advance_Documents (walk_command ''k4'')) w3 = (Inr (), w4)"
    and there: "case_world AWAITING_HUMAN_REVIEW 5 12 [(''create_application'', ''k1''), (''submit_application'', ''k2''),
       (''advance_intake_validation'', ''k3''), (''advance_document_processing'', ''k4'')] [queued None] w4"
  obtain w5 where 5: "serve sample_deployment (Decide (walk_decision ''k5'' APPROVED)) w4 = (Inr (), w5)"
    "\<exists>ops. case_world APPROVED 6 14 ops [queued (Some ''APPROVED'')] w5"
    using approved [OF there, of "''k5''"] by auto
  have "reachable sample_system w5"
    using start_reachable walk 5(1) by (meson reachable.step step_request)
  from that [OF this 5(2)] show thesis .
qed

subsection \<open>Witnesses of the system's properties\<close>

theorem reachable_database_ok_witness:
  "\<exists>w. reachable sample_system w \<and> map ap_status (db_applications (w_db w)) = [''APPROVED''] \<and>
     ledger_ok (e_sha256 sample_env) (w_db w) \<and> case_inv (w_db w)"
proof -
  obtain w ops where w: "reachable sample_system w" "case_world APPROVED 6 14 ops [queued (Some ''APPROVED'')] w"
    using walk_to_approval by blast
  from reachable_database_ok [OF w(1)] w show ?thesis
    by (intro exI [of _ w]) (auto simp: case_world_def walked_row_def sample_system_def sample_deployment_def)
qed

theorem reachable_decision_was_reviewed_witness:
  "\<exists>w. reachable sample_system w \<and> map ap_status (db_applications (w_db w)) = [''APPROVED''] \<and>
     (\<exists>v \<in> set (db_versions (w_db w)). vr_application v = new_id 1 \<and> vr_status v = ''AWAITING_HUMAN_REVIEW'')"
proof -
  obtain w ops updated flow where w: "reachable sample_system w" "db_applications (w_db w) = [walked_row APPROVED 6 updated flow]"
    using walk_to_approval unfolding case_world_def by metis
  have "\<exists>v \<in> set (db_versions (w_db w)). vr_application v = ap_id (walked_row APPROVED 6 updated flow) \<and>
      vr_version v < ap_version (walked_row APPROVED 6 updated flow) \<and> vr_status v = status_value AWAITING_HUMAN_REVIEW"
    by (rule reachable_decision_was_reviewed [OF w(1)]) (simp_all add: w walked_row_def decided_statuses_def)
  with w show ?thesis by (intro exI [of _ w]) (auto simp: walked_row_def)
qed

theorem request_at_most_once_witness:
  "\<exists>w1 w2 w3 e. serve sample_deployment (Create sample_create) start_world = (Inr (), w1) \<and>
     serve sample_deployment (Submit (walk_command ''k2'')) w1 = (Inr (), w2) \<and>
     serve sample_deployment (Create sample_create) w2 = (Inl e, w3) \<and> w_db w3 = w_db w2"
proof (rule walk_to_review)
  fix w1 w2
  assume walk: "serve sample_deployment (Create sample_create) start_world = (Inr (), w1)"
    "serve sample_deployment (Submit (walk_command ''k2'')) w1 = (Inr (), w2)"
  obtain res w3 where again: "serve sample_deployment (Create sample_create) w2 = (res, w3)" by fastforce
  have runs: "runs sample_system w1 w2" using runs.more [OF runs.none step_request [OF walk(2)]] .
  have sys: "sys_deployment sample_system = sample_deployment" by (simp add: sample_system_def)
  have "(\<exists>e. res = Inl e) \<and> w_db w3 = w_db w2 \<and> w_ext w3 = w_ext w2"
    by (rule request_at_most_once [of sample_system "Create sample_create" start_world w1 w2 "Create sample_create"])
      (simp_all only: sys walk again runs)
  with walk again show ?thesis by blast
qed

theorem request_atomic_witness:
  "\<exists>w'. serve sample_deployment (Submit (walk_command ''k2'')) start_world = (Inl (ApplicationNotFoundError (new_id 1)), w') \<and>
     w_db w' = initial_db sample_instant"
proof -
  obtain w' where "serve sample_deployment (Submit (walk_command ''k2'')) start_world = (Inl (ApplicationNotFoundError (new_id 1)), w')"
    using valid_demo
    by (simp add: walk_simps submit_application_def move_and_attach_def world_of_def initial_db_def)
  with request_atomic [OF this] show ?thesis by (auto simp: world_of_def)
qed

theorem request_isolated_witness:
  "\<exists>w1. serve sample_deployment (Create sample_create) start_world = (Inr (), w1) \<and>
     isolated DEMO_TENANT_ID (w_db start_world) (w_db w1)"
proof -
  obtain w1 where run: "serve sample_deployment (Create sample_create) start_world = (Inr (), w1)"
    using created by blast
  with request_isolated [OF run] show ?thesis by (auto simp: sample_create_def)
qed

end
