(* ===== verification/Review_Once.thy ===== *)
theory Review_Once
  imports Walkthrough
begin

text \<open>
  A case is queued for review once in its life.  The queue's primary key is the application and no
  operation removes an entry, so the second \<open>review_add\<close> of a case fails; and no other step moves a
  case to \<open>AWAITING_HUMAN_REVIEW\<close>.  A case sent back for more information can be resubmitted and
  processed, but its next review never starts.
\<close>

definition queue_part :: "db \<Rightarrow> application_row list \<times> string list" where
  "queue_part d = (db_applications d, map rr_application (db_review_queue d))"

definition spent :: "string \<Rightarrow> db \<Rightarrow> bool" where
  "spent k d \<longleftrightarrow> k \<in> rr_application ` set (db_review_queue d) \<and>
     (\<forall>r \<in> set (db_applications d). ap_id r = k \<longrightarrow> ap_status r \<noteq> status_value AWAITING_HUMAN_REVIEW)"

lemma queue_part_spent: "queue_part d = queue_part d' \<Longrightarrow> spent k d \<longleftrightarrow> spent k d'"
  by (metis (mono_tags, lifting) Pair_inject list.set_map queue_part_def spent_def)

lemma leaves_queue_inserts:
  "leaves queue_part (execute (insert_applicant r1))" "leaves queue_part (execute (insert_outbox r2))"
  "leaves queue_part (execute (insert_audit_event r3))" "leaves queue_part (execute (insert_idempotency r4))"
  "leaves queue_part (execute (insert_document r5))" "leaves queue_part (execute (insert_version r6))"
  "leaves queue_part (execute (insert_extraction_run r7))" "leaves queue_part (execute (insert_fact r8))"
  "leaves queue_part (execute (insert_verification_run r9))" "leaves queue_part (execute (insert_check r10))"
  "leaves queue_part (execute (insert_contradiction r11))" "leaves queue_part (execute (insert_snapshot r12))"
  "leaves queue_part (execute (insert_audit_hash r13))" "leaves queue_part (execute (update_checkpoint r14))"
  by (rule leaves_execute, auto simp: insert_defs bind_result_Inr_iff queue_part_def update_checkpoint_def)+

declare leaves_queue_inserts [leaves_intros]

lemma leaves_queue_operations:
  "leaves queue_part (reserve_or_raise env t k op)" "leaves queue_part (applicant_add env p)"
  "leaves queue_part (document_add d)"
  "leaves queue_part (record_domain_events env es)" "leaves queue_part (publish env a)"
  "leaves queue_part (add_extraction_run run t k doc cl fs ids now)"
  "leaves queue_part (add_verification_run env run t k cs cids ss sids now)"
  unfolding reserve_or_raise_def reserve_idempotency_key_def applicant_add_def document_add_def
    record_domain_events_def flush_plan_def execute_all_def publish_def
    add_extraction_run_def add_verification_run_def case_prod_beta
  by (intro leaves_intros)+

declare leaves_queue_operations [leaves_intros]

lemma leaves_queue_decided: "leaves queue_part (mark_decided t k dec rea rvw now)"
proof -
  have "map rr_application (tbl_update rr_application k f rows) = map rr_application rows"
    if "\<And>r. rr_application (f r) = rr_application r" for f and rows :: "review_row list"
    using that by (simp add: tbl_update_def)
  then show ?thesis
    unfolding mark_decided_def Let_def
    by (intro leaves_intros leaves_execute) (auto simp: queue_part_def decided_row_def)
qed

lemma keeps_spent_leaves: "leaves queue_part m \<Longrightarrow> keeps (spent k) m"
  using keeps_leaves [OF _ queue_part_spent] .

subsection \<open>The operations that write the two tables\<close>

lemma application_save_rows:
  assumes "application_save env b w = (Inr u, w')"
  shows "db_review_queue (w_sess w') = db_review_queue (w_sess w)"
    "db_applications (w_sess w') = tbl_update ap_id (app_id b)
       (\<lambda>r. if ap_tenant r = w_scope w then saved_row b r else r) (db_applications (w_sess w))"
  using assms
  by (auto simp: application_save_def get_application_row_def Let_def update_application_def
      insert_version_def bind_result_Inr_iff elim!: bnd_InrE execute_InrE split: option.splits if_splits)

lemma keeps_spent_save:
  assumes "app_status b \<noteq> AWAITING_HUMAN_REVIEW \<or> app_id b \<noteq> k"
  shows "keeps (spent k) (application_save env b)"
proof (rule keepsI)
  fix w :: "'x world" and u w' assume run: "application_save env b w = (Inr u, w')" and sp: "spent k (w_sess w)"
  note rows = application_save_rows [OF run]
  have "ap_status r' \<noteq> status_value AWAITING_HUMAN_REVIEW" if r': "r' \<in> set (db_applications (w_sess w'))" "ap_id r' = k" for r'
  proof -
    from r' obtain r where r: "r \<in> set (db_applications (w_sess w))"
      "r' = r \<or> app_id b = ap_id r \<and> r' = saved_row b r"
      by (auto simp: rows tbl_update_def split: if_splits)
    from r(2) show ?thesis
    proof
      assume "r' = r"
      with r(1) r'(2) sp show ?thesis by (simp add: spent_def)
    next
      assume "app_id b = ap_id r \<and> r' = saved_row b r"
      with r'(2) assms have "ap_status r' = status_value (app_status b)" "app_status b \<noteq> AWAITING_HUMAN_REVIEW"
        by (auto simp: saved_row_def)
      then show ?thesis by (simp del: status_value.simps)
    qed
  qed
  with sp rows(1) show "spent k (w_sess w')" by (simp add: spent_def del: status_value.simps)
qed

lemma application_add_rows:
  "application_add env a w = (Inr u, w') \<Longrightarrow> db_review_queue (w_sess w') = db_review_queue (w_sess w) \<and>
     db_applications (w_sess w') = db_applications (w_sess w) @ [application_to_row a]"
  by (auto simp: application_add_def try_except_def bnd_def execute_def insert_application_def
      insert_version_def bind_result_Inr_iff split: sum.splits prod.splits py_error.splits)

lemma keeps_spent_add: "app_status a \<noteq> AWAITING_HUMAN_REVIEW \<Longrightarrow> keeps (spent k) (application_add env a)"
  by (rule keepsI) (auto simp: spent_def application_to_row_def simp del: status_value.simps dest!: application_add_rows)

lemma keeps_spent_move:
  assumes "s \<noteq> AWAITING_HUMAN_REVIEW \<or> app_id a \<noteq> k"
  shows "keeps (spent k) (save_and_move env s reason a)"
  unfolding save_and_move_def
proof (rule keeps_bnd_at_now, rule keeps_bnd)
  fix b now assume "transition_to s reason now a = Inr b"
  then show "keeps (spent k) (application_save env b)"
    using assms by (intro keeps_spent_save) (auto simp: transition_to_Inr_iff)
qed (rule keeps_primitives)

text \<open>Queueing a case that is in the queue fails.\<close>

lemma review_add_unqueued:
  "review_add e w = (Inr u, w') \<Longrightarrow> rq_application e \<notin> rr_application ` set (db_review_queue (w_sess w))"
  by (auto simp: review_add_def insert_review_def bind_result_Inr_iff guard_row_Inr_iff elim!: execute_InrE)

lemma keeps_spent_review_add: "keeps (spent k) (review_add e)"
  by (rule keepsI) (auto simp: spent_def review_add_def insert_review_def bind_result_Inr_iff elim!: execute_InrE)

lemma enter_human_review_unqueued:
  assumes "enter_human_review env reason a w = (Inr b, w')"
  shows "app_id a \<notin> rr_application ` set (db_review_queue (w_sess w))"
proof -
  from assms obtain w1 w2 x now e where m: "transition_to AWAITING_HUMAN_REVIEW reason now a = Inr b"
    "application_save env b (w\<lparr>w_clk := w_clk w + 1\<rparr>) = (Inr (), w1)" "clock_now env w1 = (Inr x, w2)"
    "review_add e w2 = (Inr (), w')" "rq_application e = app_id b"
    unfolding enter_human_review_def save_and_move_def by (auto elim!: bnd_InrE at_now_InrE)
  from review_add_unqueued [OF m(4)] m(3,5) application_save_rows(1) [OF m(2)] m(1)
  show ?thesis by (auto simp: transition_to_Inr_iff)
qed

lemma keeps_spent_review: "keeps (spent k) (enter_human_review env reason a)"
proof (cases "app_id a = k")
  case True
  then show ?thesis by (auto simp: keeps_def spent_def dest!: enter_human_review_unqueued)
next
  case False
  then show ?thesis
    unfolding enter_human_review_def
    by (intro keeps_bnd keeps_spent_move keeps_spent_review_add keeps_primitives) simp
qed

subsection \<open>Every request\<close>

lemma keeps_spent_bodies:
  "keeps (spent k) (create_application_body env cc)"
  "(\<And>now a b. move now a = Inr b \<Longrightarrow> app_status b \<noteq> AWAITING_HUMAN_REVIEW) \<Longrightarrow>
     keeps (spent k) (move_and_attach env op move c)"
  "keeps (spent k) (advance_intake_body env c)"
  "keeps (spent k) (advance_documents_body env c)"
  "keeps (spent k) (enter_review_body env rc)"
  "c_decision dc \<in> set ALLOWED_DECISIONS \<Longrightarrow> keeps (spent k) (apply_decision_body env dc)"
proof -
  note steps = keeps_bnd_at_now keeps_bnd keeps_primitives keeps_queries keeps_if keeps_spent_add keeps_spent_save
    keeps_spent_move keeps_spent_review leaves_queue_operations [THEN keeps_spent_leaves]
    leaves_queue_decided [THEN keeps_spent_leaves]
  show "keeps (spent k) (create_application_body env cc)"
    unfolding create_application_body_def by (intro steps) (auto dest: create_draft)
  show "keeps (spent k) (move_and_attach env op move c)"
    if "\<And>now a b. move now a = Inr b \<Longrightarrow> app_status b \<noteq> AWAITING_HUMAN_REVIEW"
    unfolding move_and_attach_def Let_def by (intro steps) (auto simp: attach_workflow_def dest: that)
  show "keeps (spent k) (advance_intake_body env c)" "keeps (spent k) (advance_documents_body env c)"
    "keeps (spent k) (enter_review_body env rc)"
    unfolding advance_intake_body_def advance_documents_body_def enter_review_body_def by (intro steps; simp)+
  show "keeps (spent k) (apply_decision_body env dc)" if "c_decision dc \<in> set ALLOWED_DECISIONS"
    unfolding apply_decision_body_def Let_def
    by (intro steps) (use that in \<open>auto simp: detach_workflow_def transition_to_Inr_iff ALLOWED_DECISIONS_def\<close>)
qed

lemma keeps_spent_core:
  assumes "\<not> refused r"
  shows "keeps (spent k) (core d r)"
proof -
  have discard: "keeps (spent k) m \<Longrightarrow> keeps (spent k) (discard m)" for m :: "('x, 'b) handler"
    by (rule discard_frames(3))
  have documents: "keeps (spent k) (upload_body env ports uc)" "keeps (spent k) (process_body env ports pc)"
    "keeps (spent k) (verify_body env vf vc)" for env uc pc vc and ports :: "'x document_ports" and vf :: "'x verifiers"
    unfolding upload_body_def upload_checks_def upload_store_def process_body_def verify_body_def Let_def
    by (rule keeps_spent_leaves, intro leaves_intros)+
  show ?thesis
    using assms
    by (cases r) (auto simp: core_def intro!: discard documents keeps_spent_bodies simp: submit_def transition_to_Inr_iff)
qed

lemma system_step_spent:
  assumes "system_step s w w'" "spent k (w_db w)"
  shows "spent k (w_db w')"
proof -
  have outside: "spent k d \<longleftrightarrow> spent k d'" if "kept_part d = kept_part d'" for d d'
    using that by (intro queue_part_spent) (auto simp: kept_part_def queue_part_def case_part_def)
  show ?thesis
    using assms(1) by (rule system_step_keeps_unrefused) (use outside assms(2) keeps_spent_core in blast)+
qed

lemma runs_spent: "runs s w w' \<Longrightarrow> spent k (w_db w) \<Longrightarrow> spent k (w_db w')"
  by (induction rule: runs.induct) (auto intro: system_step_spent)

text \<open>C26: a reviewed case is never reviewed again.  Once a case is in the review queue and has left
  \<open>AWAITING_HUMAN_REVIEW\<close> (because it was sent back for more information, say), then whatever is
  requested, relayed or consumed afterwards, it never has that status again: resubmission leads
  nowhere, since the only way to a decision is through a review.\<close>

theorem reviewed_case_never_reviewed_again:
  assumes "runs s w w'" "k \<in> rr_application ` set (db_review_queue (w_db w))"
    "\<forall>r \<in> set (db_applications (w_db w)). ap_id r = k \<longrightarrow> ap_status r \<noteq> status_value AWAITING_HUMAN_REVIEW"
    "r \<in> set (db_applications (w_db w'))" "ap_id r = k"
  shows "ap_status r \<noteq> status_value AWAITING_HUMAN_REVIEW"
proof -
  have "spent k (w_db w)" using assms(2,3) by (simp add: spent_def)
  from runs_spent [OF assms(1) this] have "spent k (w_db w')" .
  with assms(4,5) show ?thesis by (simp add: spent_def)
qed

text \<open>The case of the walk, sent back for more information and resubmitted.\<close>

theorem reviewed_case_never_reviewed_again_witness:
  "\<exists>w w' r. runs sample_system w w' \<and> reachable sample_system w \<and>
     map ap_status (db_applications (w_db w)) = [''NEEDS_MORE_INFORMATION''] \<and>
     db_applications (w_db w') = [r] \<and> ap_status r = ''DOCUMENT_PROCESSING'' \<and>
     ap_status r \<noteq> status_value AWAITING_HUMAN_REVIEW"
proof (rule walk_to_review)
  fix w1 w2 w3 w4
  assume walk: "serve sample_deployment (Create sample_create) start_world = (Inr (), w1)"
    "serve sample_deployment (Submit (walk_command ''k2'')) w1 = (Inr (), w2)"
    "serve sample_deployment (Advance_Intake (walk_command ''k3'')) w2 = (Inr (), w3)"
    "serve sample_deployment (Advance_Documents (walk_command ''k4'')) w3 = (Inr (), w4)"
    and there: "case_world AWAITING_HUMAN_REVIEW 5 12 [(''create_application'', ''k1''), (''submit_application'', ''k2''),
       (''advance_intake_validation'', ''k3''), (''advance_document_processing'', ''k4'')] [queued None] w4"
  obtain w5 ops where 5: "serve sample_deployment (Decide (walk_decision ''k5'' NEEDS_MORE_INFORMATION)) w4 = (Inr (), w5)"
    "case_world NEEDS_MORE_INFORMATION 6 14 ops [queued (Some ''NEEDS_MORE_INFORMATION'')] w5"
    "(''resubmit_application'', ''k6'') \<notin> set ops"
    using sent_back [OF there, of "''k5''"] by auto
  obtain w6 ops' where 6: "serve sample_deployment (Resubmit (walk_command ''k6'')) w5 = (Inr (), w6)"
    "case_world DOCUMENT_PROCESSING 7 16 ops' [queued (Some ''NEEDS_MORE_INFORMATION'')] w6"
    using resubmitted [OF 5(2,3)] by blast
  have reach: "reachable sample_system w5"
    using start_reachable walk 5(1) by (meson reachable.step step_request)
  have runs: "runs sample_system w5 w6" using runs.more [OF runs.none step_request [OF 6(1)]] .
  from 5(2) obtain u f where before: "db_applications (w_db w5) = [walked_row NEEDS_MORE_INFORMATION 6 u f]"
    "db_review_queue (w_db w5) = [queued (Some ''NEEDS_MORE_INFORMATION'')]" by (auto simp: case_world_def)
  from 6(2) obtain u' f' where after: "db_applications (w_db w6) = [walked_row DOCUMENT_PROCESSING 7 u' f']"
    by (auto simp: case_world_def)
  have "ap_status (walked_row DOCUMENT_PROCESSING 7 u' f') \<noteq> status_value AWAITING_HUMAN_REVIEW"
    by (rule reviewed_case_never_reviewed_again [OF runs, where k = "new_id 1"])
      (simp_all add: before after walked_row_def queued_def)
  with reach runs before(1) after show ?thesis
    by (intro exI [of _ w5] exI [of _ w6] exI [of _ "walked_row DOCUMENT_PROCESSING 7 u' f'"]) (simp add: walked_row_def)
qed

end
