(* ===== verification/Engagement.thy ===== *)
theory Engagement
  imports Review_Once Queries
begin

text \<open>
  Which cases have a workflow.  \<open>attach_workflow\<close> and \<open>detach_workflow\<close> are called far apart (submit,
  resubmit; the decision), and the decision endpoint relies on the result: a case names an active
  workflow exactly while it is on its way to a decision.
\<close>

definition open_statuses :: "application_status set" where
  "open_statuses = {SUBMITTED, INTAKE_VALIDATION, DOCUMENT_PROCESSING, VERIFICATION, POLICY_EVALUATION,
     AFFORDABILITY_EVALUATION, FRAUD_ANALYSIS, RISK_SYNTHESIS, AWAITING_HUMAN_REVIEW}"

definition queued_ids :: "db \<Rightarrow> string set" where
  "queued_ids d = rr_application ` set (db_review_queue d)"

definition good_row :: "string set \<Rightarrow> application_row \<Rightarrow> bool" where
  "good_row q r \<longleftrightarrow> (ap_workflow r \<noteq> None \<longleftrightarrow> ap_status r \<in> status_value ` open_statuses) \<and>
     (ap_status r = status_value ESCALATED \<longrightarrow> ap_id r \<in> q)"

definition good_case :: "string set \<Rightarrow> application \<Rightarrow> bool" where
  "good_case q a \<longleftrightarrow> (app_workflow a \<noteq> None \<longleftrightarrow> app_status a \<in> open_statuses) \<and>
     (app_status a = ESCALATED \<longrightarrow> app_id a \<in> q)"

definition engaged :: "db \<Rightarrow> bool" where
  "engaged d \<longleftrightarrow> (\<forall>r \<in> set (db_applications d). good_row (queued_ids d) r)"

definition follows_case :: "'x world \<Rightarrow> application \<Rightarrow> bool" where
  "follows_case w a \<longleftrightarrow> engaged (w_sess w) \<and> good_case (queued_ids (w_sess w)) a"

lemma value_in_open: "status_value s \<in> status_value ` open_statuses \<longleftrightarrow> s \<in> open_statuses"
  by (auto simp del: status_value.simps)

lemma good_row_read: "row_to_application r = Inr a \<Longrightarrow> good_row q r \<longleftrightarrow> good_case q a"
  using row_to_application_agrees [of r a]
  by (auto simp: good_row_def good_case_def agrees_def value_in_open simp del: status_value.simps)

lemma good_row_saved: "ap_id r = app_id b \<Longrightarrow> good_row q (saved_row b r) \<longleftrightarrow> good_case q b"
  by (simp add: good_row_def good_case_def saved_row_def value_in_open del: status_value.simps)

lemma queue_part_engaged: "queue_part d = queue_part d' \<Longrightarrow> engaged d \<longleftrightarrow> engaged d'"
  "queue_part d = queue_part d' \<Longrightarrow> queued_ids d = queued_ids d'"
  unfolding engaged_def queued_ids_def queue_part_def by (metis Pair_inject list.set_map)+

lemma keeps_engaged_leaves: "leaves queue_part m \<Longrightarrow> keeps engaged m"
  using keeps_leaves [OF _ queue_part_engaged(1)] .

lemma follows_case_leaves: "leaves queue_part m \<Longrightarrow> m w = (r, w') \<Longrightarrow> follows_case w' a \<longleftrightarrow> follows_case w a"
  unfolding follows_case_def by (metis leavesD queue_part_engaged)

lemma follows_case_clk [simp]: "follows_case (w\<lparr>w_clk := n\<rparr>) a \<longleftrightarrow> follows_case w a"
  by (simp add: follows_case_def)

subsection \<open>Loading, saving, queueing\<close>

lemma follows_case_load:
  assumes "load_application t k w = (Inr a, w')" "engaged (w_sess w)"
  shows "follows_case w' a"
proof -
  from assms(1) obtain r where r: "tbl_find ap_id k (visible ap_tenant (w_scope w) (db_applications (w_sess w))) = Some r"
    "row_to_application r = Inr a" "w' = w"
    by (auto simp: load_application_def application_get_def get_application_row_def bnd_def
        split: option.splits if_splits sum.splits)
  from tbl_find_SomeD [OF r(1)] have "r \<in> set (db_applications (w_sess w))" by (auto simp: visible_def)
  with assms(2) r show ?thesis by (auto simp: follows_case_def engaged_def good_row_read [OF r(2)])
qed

lemma follows_case_save:
  assumes "application_save env b w = (Inr u, w')" "engaged (w_sess w)" "good_case (queued_ids (w_sess w)) b"
  shows "follows_case w' b"
proof -
  note rows = application_save_rows [OF assms(1)]
  have q: "queued_ids (w_sess w') = queued_ids (w_sess w)" by (simp add: queued_ids_def rows)
  have "good_row (queued_ids (w_sess w)) r" if "r \<in> set (db_applications (w_sess w'))" for r
    using that assms(2,3) by (auto simp: rows tbl_update_def engaged_def good_row_saved split: if_splits)
  with q assms(3) show ?thesis by (simp add: follows_case_def engaged_def)
qed

lemma follows_case_move:
  assumes "save_and_move env s reason a w = (Inr b, w')" "follows_case w a" "s \<in> open_statuses" "app_status a \<in> open_statuses"
  shows "follows_case w' b" "app_status b = s" "app_id b = app_id a"
proof -
  from assms(1) obtain now where m: "transition_to s reason now a = Inr b"
    "application_save env b (w\<lparr>w_clk := w_clk w + 1\<rparr>) = (Inr (), w')"
    unfolding save_and_move_def by (auto elim!: bnd_InrE at_now_InrE)
  from m(1) show b: "app_status b = s" "app_id b = app_id a" by (auto simp: transition_to_Inr_iff)
  have "good_case (queued_ids (w_sess w)) b"
    using m(1) assms(2-4) by (auto simp: transition_to_Inr_iff follows_case_def good_case_def open_statuses_def)
  with follows_case_save [OF m(2)] assms(2) show "follows_case w' b" by (simp add: follows_case_def)
qed

lemma keeps_engaged_review_add: "keeps engaged (review_add e)"
  by (rule keepsI) (auto simp: engaged_def good_row_def queued_ids_def review_add_def insert_review_def
      bind_result_Inr_iff elim!: execute_InrE)

text \<open>Only an open case, or an escalated one, may enter review; the escalated one is in the queue already.\<close>

lemma into_review: "is_legal_transition s AWAITING_HUMAN_REVIEW \<Longrightarrow> s \<in> open_statuses \<or> s = ESCALATED"
  by (cases s) (simp_all add: is_legal_transition_def open_statuses_def)

lemma into_stage:
  "is_legal_transition s INTAKE_VALIDATION \<Longrightarrow> s \<in> open_statuses" "is_legal_transition s VERIFICATION \<Longrightarrow> s \<in> open_statuses"
  by (cases s, simp_all add: is_legal_transition_def open_statuses_def)+

lemma save_and_move_legal: "save_and_move env s reason a w = (Inr b, w') \<Longrightarrow> is_legal_transition (app_status a) s"
  unfolding save_and_move_def by (auto elim!: bnd_InrE at_now_InrE simp: transition_to_Inr_iff)

lemma follows_case_review:
  assumes "enter_human_review env reason a w = (Inr b, w')" "follows_case w a"
  shows "engaged (w_sess w')"
proof -
  from assms(1) obtain w1 w2 x e where m: "save_and_move env AWAITING_HUMAN_REVIEW reason a w = (Inr b, w1)"
    "clock_now env w1 = (Inr x, w2)" "review_add e w2 = (Inr (), w')"
    unfolding enter_human_review_def by (auto elim!: bnd_InrE; blast)
  have "app_status a \<noteq> ESCALATED"
    using enter_human_review_unqueued [OF assms(1)] assms(2) by (auto simp: follows_case_def good_case_def queued_ids_def)
  with into_review [OF save_and_move_legal [OF m(1)]] have "app_status a \<in> open_statuses" by blast
  with follows_case_move(1) [OF m(1) assms(2)] have "engaged (w_sess w1)" by (simp add: open_statuses_def follows_case_def)
  with m(2) keepsD [OF keeps_engaged_review_add m(3)] show ?thesis by auto
qed

subsection \<open>The handlers\<close>

lemmas keeps_engaged_operations =
  leaves_queue_operations [THEN keeps_engaged_leaves] leaves_queue_decided [THEN keeps_engaged_leaves]

lemma engaged_reserve: "reserve_or_raise env t k op w = (r, w') \<Longrightarrow> engaged (w_sess w') \<longleftrightarrow> engaged (w_sess w)"
  using leavesD [OF leaves_queue_operations(1)] queue_part_engaged(1) by metis

lemma engaged_publish: "publish env a w = (r, w') \<Longrightarrow> engaged (w_sess w') \<longleftrightarrow> engaged (w_sess w)"
  using leavesD [OF leaves_queue_operations(5)] queue_part_engaged(1) by metis

lemma keeps_engaged_move_and_attach:
  assumes "\<And>now a b. move now a = Inr b \<Longrightarrow> app_status b \<in> open_statuses"
  shows "keeps engaged (move_and_attach env op move c)"
proof (rule keepsI)
  fix w :: "'x world" and y w'
  assume run: "move_and_attach env op move c w = (Inr y, w')" and inv: "engaged (w_sess w)"
  let ?attach = "\<lambda>b. attach_workflow (application_workflow_id (c_tenant c) (c_application c) (app_version b)) b"
  from run obtain w1 w2 a b w4 where s: "reserve_or_raise env (c_tenant c) (c_key c) op w = (Inr (), w1)"
    "load_application (c_tenant c) (c_application c) w1 = (Inr a, w2)" "move (e_clock env (w_clk w2)) a = Inr b"
    "application_save env (?attach b) (w2\<lparr>w_clk := w_clk w2 + 1\<rparr>) = (Inr (), w4)" "publish env (?attach b) w4 = (Inr y, w')"
    unfolding move_and_attach_def Let_def by (auto elim!: bnd_InrE at_now_InrE)
  have e2: "engaged (w_sess w2)" using follows_case_load [OF s(2)] engaged_reserve [OF s(1)] inv by (simp add: follows_case_def)
  have "good_case (queued_ids (w_sess w2)) (?attach b)"
    using assms [OF s(3)] by (auto simp: good_case_def attach_workflow_def open_statuses_def)
  with follows_case_save [OF s(4)] e2 engaged_publish [OF s(5)] show "engaged (w_sess w')" by (simp add: follows_case_def)
qed

lemma keeps_engaged_intake: "keeps engaged (advance_intake_body env c)"
proof (rule keepsI)
  fix w :: "'x world" and y w'
  assume run: "advance_intake_body env c w = (Inr y, w')" and inv: "engaged (w_sess w)"
  from run obtain w1 w2 a p w3 b ok w4 b' w5 where s:
    "reserve_or_raise env (c_tenant c) (c_key c) ''advance_intake_validation'' w = (Inr (), w1)"
    "load_application (c_tenant c) (c_application c) w1 = (Inr a, w2)"
    "product_get (app_product a) w2 = (Inr p, w3)"
    "save_and_move env INTAKE_VALIDATION ''entering automated intake validation'' a w3 = (Inr b, w4)"
    "(if ok then save_and_move env DOCUMENT_PROCESSING
         ''intake validation passed: within product catalog bounds'' b
      else enter_human_review env (intake_flag_reason b) b) w4 = (Inr b', w5)"
    "\<exists>z. publish env b' w5 = (Inr z, w')"
    unfolding advance_intake_body_def by (auto elim!: bnd_InrE)
  have "follows_case w2 a" using follows_case_load [OF s(2)] engaged_reserve [OF s(1)] inv by simp
  then have "follows_case w3 a" using follows_case_leaves [OF leaves_queries(4) s(3)] by simp
  note b = follows_case_move [OF s(4) this _ into_stage(1) [OF save_and_move_legal [OF s(4)]]]
  have b4: "follows_case w4 b" "app_status b \<in> open_statuses" using b by (simp_all add: open_statuses_def)
  have "engaged (w_sess w5)"
    using s(5) follows_case_move(1) [OF _ b4(1) _ b4(2)] follows_case_review [OF _ b4(1)]
    by (auto simp: follows_case_def open_statuses_def split: if_splits)
  with s(6) engaged_publish show "engaged (w_sess w')" by blast
qed

lemma keeps_engaged_documents: "keeps engaged (advance_documents_body env c)"
proof (rule keepsI)
  fix w :: "'x world" and y w'
  assume run: "advance_documents_body env c w = (Inr y, w')" and inv: "engaged (w_sess w)"
  from run obtain w1 w2 a n w3 b w4 where s:
    "reserve_or_raise env (c_tenant c) (c_key c) ''advance_document_processing'' w = (Inr (), w1)"
    "load_application (c_tenant c) (c_application c) w1 = (Inr a, w2)"
    "count_documents (c_tenant c) (c_application c) w2 = (Inr n, w3)"
    "(if 1 \<le> n then save_and_move env VERIFICATION (show_nat n @ '' document(s) present'') a
      else enter_human_review env ''no documents uploaded -- requires human review'' a) w3 = (Inr b, w4)"
    "\<exists>z. publish env b w4 = (Inr z, w')"
    unfolding advance_documents_body_def by (auto elim!: bnd_InrE)
  have "follows_case w2 a" using follows_case_load [OF s(2)] engaged_reserve [OF s(1)] inv by simp
  then have a3: "follows_case w3 a" using follows_case_leaves [OF leaves_queries(6) s(3)] by simp
  have "engaged (w_sess w4)"
  proof (cases "1 \<le> n")
    case True
    with s(4) have mv: "save_and_move env VERIFICATION (show_nat n @ '' document(s) present'') a w3 = (Inr b, w4)" by simp
    from follows_case_move(1) [OF mv a3 _ into_stage(2) [OF save_and_move_legal [OF mv]]] show ?thesis
      by (simp add: follows_case_def open_statuses_def)
  next
    case False
    with s(4) follows_case_review [OF _ a3] show ?thesis by auto
  qed
  with s(5) engaged_publish show "engaged (w_sess w')" by blast
qed

lemma keeps_engaged_enter_review: "keeps engaged (enter_review_body env c)"
proof (rule keepsI)
  fix w :: "'x world" and y w'
  assume run: "enter_review_body env c w = (Inr y, w')" and inv: "engaged (w_sess w)"
  from run obtain w1 w2 a b w3 where s:
    "reserve_or_raise env (c_tenant c) (c_key c) ''enter_human_review'' w = (Inr (), w1)"
    "load_application (c_tenant c) (c_application c) w1 = (Inr a, w2)"
    "enter_human_review env (c_reason c) a w2 = (Inr b, w3)" "\<exists>z. publish env b w3 = (Inr z, w')"
    unfolding enter_review_body_def by (auto elim!: bnd_InrE)
  have "follows_case w2 a" using follows_case_load [OF s(2)] engaged_reserve [OF s(1)] inv by simp
  with follows_case_review [OF s(3)] s(4) engaged_publish show "engaged (w_sess w')" by blast
qed

lemma mark_decided_queued:
  assumes "mark_decided t k dec rea rvw now w = (Inr u, w')"
  shows "k \<in> queued_ids (w_sess w')"
proof -
  from assms obtain r where "tbl_find rr_application k (visible rr_tenant (w_scope w) (db_review_queue (w_sess w))) = Some r"
    by (auto simp: mark_decided_def review_row_of_def Let_def bnd_run split: option.splits)
  from tbl_find_SomeD [OF this] have "k \<in> queued_ids (w_sess w)" by (auto simp: queued_ids_def visible_def)
  with leavesD [OF leaves_queue_decided assms] queue_part_engaged(2) show ?thesis by metis
qed

lemma keeps_engaged_decision:
  assumes "c_decision c \<in> set ALLOWED_DECISIONS"
  shows "keeps engaged (apply_decision_body env c)"
proof (rule keepsI)
  fix w :: "'x world" and y w'
  assume run: "apply_decision_body env c w = (Inr y, w')" and inv: "engaged (w_sess w)"
  from run obtain w1 w2 a b w4 w5 now where s:
    "reserve_or_raise env (c_tenant c) (c_key c) ''apply_review_decision'' w = (Inr (), w1)"
    "load_application (c_tenant c) (c_application c) w1 = (Inr a, w2)"
    "transition_to (c_decision c) (c_reason c) (e_clock env (w_clk w2)) a = Inr b"
    "mark_decided (c_tenant c) (c_application c) (status_value (c_decision c)) (c_reason c)
       (c_reviewer c) now (w2\<lparr>w_clk := Suc (Suc (w_clk w2))\<rparr>) = (Inr (), w4)"
    "application_save env (detach_workflow b) w4 = (Inr (), w5)"
    "\<exists>z. publish env (detach_workflow b) w5 = (Inr z, w')"
    unfolding apply_decision_body_def Let_def by (auto elim!: bnd_InrE at_now_InrE; blast)
  have a: "follows_case w2 a" using follows_case_load [OF s(2)] engaged_reserve [OF s(1)] inv by simp
  have id: "app_id a = c_application c"
    using s(2) by (auto simp: load_application_def application_get_def get_application_row_def bnd_def visible_def
        dest!: tbl_find_SomeD row_to_application_agrees split: option.splits if_splits sum.splits simp: agrees_def)
  have "engaged (w_sess w4)"
    using keepsD [OF keeps_engaged_leaves [OF leaves_queue_decided] s(4)] a by (simp add: follows_case_def)
  moreover have "good_case (queued_ids (w_sess w4)) (detach_workflow b)"
    using s(3) assms mark_decided_queued [OF s(4)] id
    by (auto simp: good_case_def detach_workflow_def transition_to_Inr_iff ALLOWED_DECISIONS_def open_statuses_def)
  ultimately have "engaged (w_sess w5)" using follows_case_save [OF s(5)] by (simp add: follows_case_def)
  with s(6) engaged_publish show "engaged (w_sess w')" by blast
qed

lemma keeps_engaged_core:
  assumes "\<not> refused r"
  shows "keeps engaged (core d r)"
proof -
  have create: "keeps engaged (create_application_body env cc)" for env cc
  proof -
    have "keeps engaged (application_add env a)" if "app_status a = DRAFT \<and> app_workflow a = None" for a
      using that by (intro keepsI) (auto simp: engaged_def queued_ids_def good_row_def application_to_row_def
          value_in_open open_statuses_def simp del: status_value.simps dest!: application_add_rows)
    moreover have "create i t p q m n now = Inr a \<Longrightarrow> app_status a = DRAFT \<and> app_workflow a = None" for i t p q m n now a
      by (auto simp: create_def bind_result_Inr_iff)
    ultimately show ?thesis
      unfolding create_application_body_def
      by (intro keeps_bnd_at_now keeps_bnd keeps_primitives keeps_queries keeps_engaged_operations) blast
  qed
  have documents: "keeps engaged (upload_body env ports uc)" "keeps engaged (process_body env ports pc)"
    "keeps engaged (verify_body env vf vc)" for env uc pc vc and ports :: "'x document_ports" and vf :: "'x verifiers"
    unfolding upload_body_def upload_checks_def upload_store_def process_body_def verify_body_def Let_def
    by (rule keeps_engaged_leaves, intro leaves_intros)+
  show ?thesis
    using assms
    by (cases r) (auto simp: core_def submit_def transition_to_Inr_iff open_statuses_def intro!: discard_frames(3) documents create
        keeps_engaged_move_and_attach keeps_engaged_intake keeps_engaged_documents keeps_engaged_enter_review keeps_engaged_decision)
qed

lemma system_step_engaged:
  assumes "system_step s w w'" "engaged (w_db w)"
  shows "engaged (w_db w')"
proof -
  have outside: "engaged d \<longleftrightarrow> engaged d'" if "kept_part d = kept_part d'" for d d'
    using that by (intro queue_part_engaged) (auto simp: kept_part_def queue_part_def case_part_def)
  show ?thesis
    using assms(1)
    by (rule system_step_keeps_unrefused) (use outside assms(2) keeps_engaged_core in blast)+
qed

lemma reachable_engaged: "reachable s w \<Longrightarrow> engaged (w_db w)"
  by (induction rule: reachable.induct) (simp add: engaged_def initial_db_def, blast intro: system_step_engaged)

text \<open>C12: a case names an active workflow exactly while it is open.  In every reachable state, a case has a
  workflow identifier if and only if it has been submitted and is not yet decided, sent back or cancelled.\<close>

theorem workflow_while_open:
  assumes "reachable s w" "r \<in> set (db_applications (w_db w))"
  shows "ap_workflow r \<noteq> None \<longleftrightarrow> ap_status r \<in> status_value ` open_statuses"
  using reachable_engaged [OF assms(1)] assms(2) by (simp add: engaged_def good_row_def)

theorem workflow_while_open_witness:
  "\<exists>w r. reachable sample_system w \<and> db_applications (w_db w) = [r] \<and> ap_status r = ''APPROVED'' \<and> ap_workflow r = None"
proof -
  obtain w ops updated flow where w: "reachable sample_system w" "db_applications (w_db w) = [walked_row APPROVED 6 updated flow]"
    using walk_to_approval unfolding case_world_def by metis
  have "ap_workflow (walked_row APPROVED 6 updated flow) = None"
    using workflow_while_open [OF w(1), of "walked_row APPROVED 6 updated flow"] w(2)
    by (auto simp: walked_row_def open_statuses_def)
  with w show ?thesis by (intro exI [of _ w]) (auto simp: walked_row_def)
qed

end
