(* ===== verification/Workflow.thy ===== *)
theory Workflow
  imports Activities Review_Once
begin

text \<open>
  \<open>infrastructure/temporal/workflows.py\<close>: \<open>ApplicationWorkflow\<close> as a state machine.  Between two
  events a workflow is at an activity, waits for the decision signal, or has ended.  What Temporal
  does is a parameter: the order of events, and the fate of each attempt of an activity (it may be
  lost before it ran, or have run with its result lost, as in a worker crash or a timeout).  The
  retry policy is the code's: at most five attempts, and four exceptions that are not retried.  The
  wait between attempts is not modelled.  An exception that the workflow code itself raises is not the
  workflow's failure: Temporal fails the workflow task and replays it, which raises again, so such a
  workflow never ends.  The code raises one for an unknown starting status.
\<close>

subsection \<open>Data\<close>

record workflow_input =
  wi_tenant :: string
  wi_application :: string
  wi_version :: int
  wi_starting_status :: string
  wi_sla_seconds :: rat

record review_signal =
  rs_decision :: string
  rs_reason :: string
  rs_reviewer :: string

datatype workflow_end =
    Completed string int
  | Activity_Failed py_error

datatype phase =
    At activity_call nat
  | Awaiting_Decision
  | Task_Failing py_error
  | Ended workflow_end

record workflow_state =
  wf_id :: string
  wf_input :: workflow_input
  wf_phase :: phase
  wf_decision :: "review_signal option"
  wf_scheduled :: nat

definition SLA_TIMEOUT_REASON :: string where
  "SLA_TIMEOUT_REASON = ''human review SLA timeout: no decision recorded within the review window''"

definition MAXIMUM_ATTEMPTS :: nat where
  "MAXIMUM_ATTEMPTS = 5"

definition NON_RETRYABLE_ERROR_TYPES :: "string list" where
  "NON_RETRYABLE_ERROR_TYPES =
     [''ApplicationNotFoundError'', ''ProductNotFoundError'', ''InvalidApplicationDataError'',
      ''IllegalStateTransitionError'']"

subsection \<open>The run method\<close>

text \<open>Up to the first \<open>await\<close>.\<close>

definition first_phase :: "workflow_input \<Rightarrow> phase" where
  "first_phase i =
     (if wi_starting_status i = status_value SUBMITTED then At Validate_Intake 0
      else if wi_starting_status i \<noteq> status_value DOCUMENT_PROCESSING
      then Task_Failing (ValueError (''ApplicationWorkflow does not support starting_status=''
             @ py_repr (wi_starting_status i)))
      else At Check_Required_Documents 0)"

definition start_workflow :: "string \<Rightarrow> workflow_input \<Rightarrow> workflow_state" where
  "start_workflow workflow_id i =
     \<lparr>wf_id = workflow_id, wf_input = i, wf_phase = first_phase i, wf_decision = None, wf_scheduled = 1\<rparr>"

text \<open>From the result of one activity to the next \<open>await\<close>.\<close>

fun phase_after :: "activity_call \<Rightarrow> activity_value \<Rightarrow> phase" where
  "phase_after Validate_Intake (Status_Result s) =
     (if as_status s = status_value AWAITING_HUMAN_REVIEW then Awaiting_Decision else At Check_Required_Documents 0)"
| "phase_after Check_Required_Documents (Status_Result s) =
     (if as_status s = status_value AWAITING_HUMAN_REVIEW then Awaiting_Decision else At Extract_Document_Facts 0)"
| "phase_after Extract_Document_Facts _ = At Verify_Facts 0"
| "phase_after Verify_Facts (Verify_Result _ summary) = At (Enter_Human_Review summary) 0"
| "phase_after (Enter_Human_Review _) _ = Awaiting_Decision"
| "phase_after (Apply_Review_Decision _ _ _) (Status_Result s) = Ended (Completed (as_status s) (as_version s))"
| "phase_after _ _ = Ended (Activity_Failed (RuntimeError ''activity result of the wrong type''))"

text \<open>From the end of \<open>wait_condition\<close>: \<open>reviewer_id or None\<close>.\<close>

definition decision_call :: "review_signal \<Rightarrow> activity_call" where
  "decision_call s = Apply_Review_Decision (rs_decision s) (rs_reason s)
     (if rs_reviewer s = [] then None else Some (rs_reviewer s))"

definition timeout_signal :: review_signal where
  "timeout_signal = \<lparr>rs_decision = status_value ESCALATED, rs_reason = SLA_TIMEOUT_REASON, rs_reviewer = []\<rparr>"

subsection \<open>Events\<close>

datatype fate = Lost_Before | Lost_After | Delivered

datatype workflow_event = Attempt fate | Signal review_signal | Resume | Timer

definition workflow_context :: "workflow_state \<Rightarrow> activity_context" where
  "workflow_context s = \<lparr>ax_tenant = wi_tenant (wf_input s), ax_application = wi_application (wf_input s)\<rparr>"

definition enter_phase :: "phase \<Rightarrow> workflow_state \<Rightarrow> workflow_state" where
  "enter_phase p s = s\<lparr>wf_phase := p, wf_scheduled :=
     (case p of At _ _ \<Rightarrow> wf_scheduled s + 1 | _ \<Rightarrow> wf_scheduled s)\<rparr>"

text \<open>After an attempt that did not deliver: the retry policy.\<close>

definition retry_or_fail :: "activity_call \<Rightarrow> nat \<Rightarrow> py_error \<Rightarrow> workflow_state \<Rightarrow> workflow_state" where
  "retry_or_fail call n e s =
     (if n + 1 < MAXIMUM_ATTEMPTS \<and> error_class e \<notin> set NON_RETRYABLE_ERROR_TYPES
      then s\<lparr>wf_phase := At call (n + 1)\<rparr>
      else s\<lparr>wf_phase := Ended (Activity_Failed e)\<rparr>)"

definition timed_out :: py_error where
  "timed_out = ExternalError ''activity task timed out''"

fun handle_event ::
  "'x deployment \<Rightarrow> (nat \<Rightarrow> string) \<Rightarrow> workflow_event \<Rightarrow> workflow_state \<times> 'x world \<Rightarrow> workflow_state \<times> 'x world" where
  "handle_event d activity_id (Attempt fate) (s, w) =
     (case wf_phase s of
        At call n \<Rightarrow>
          if fate = Lost_Before then (retry_or_fail call n timed_out s, w)
          else (case run_activity d \<lparr>ai_workflow = wf_id s, ai_activity = activity_id (wf_scheduled s)\<rparr>
                       (workflow_context s) call w of
                  (r, w') \<Rightarrow> (case (fate, r) of
                      (Lost_After, _) \<Rightarrow> (retry_or_fail call n timed_out s, w')
                    | (_, Inl e) \<Rightarrow> (retry_or_fail call n e s, w')
                    | (_, Inr v) \<Rightarrow> (enter_phase (phase_after call v) s, w')))
      | _ \<Rightarrow> (s, w))"
| "handle_event d activity_id (Signal x) (s, w) =
     (case wf_phase s of Ended _ \<Rightarrow> (s, w) | _ \<Rightarrow> (s\<lparr>wf_decision := Some x\<rparr>, w))"
| "handle_event d activity_id Resume (s, w) =
     (case (wf_phase s, wf_decision s) of
        (Awaiting_Decision, Some x) \<Rightarrow> (enter_phase (At (decision_call x) 0) s, w)
      | _ \<Rightarrow> (s, w))"
| "handle_event d activity_id Timer (s, w) =
     (case (wf_phase s, wf_decision s) of
        (Awaiting_Decision, None) \<Rightarrow> (enter_phase (At (decision_call timeout_signal) 0) s, w)
      | _ \<Rightarrow> (s, w))"

abbreviation workflow_events ::
  "'x deployment \<Rightarrow> (nat \<Rightarrow> string) \<Rightarrow> workflow_event list \<Rightarrow> workflow_state \<times> 'x world \<Rightarrow> workflow_state \<times> 'x world" where
  "workflow_events d activity_id evs sw \<equiv> fold (handle_event d activity_id) evs sw"

subsection \<open>Only a human decides\<close>

definition signals_of :: "workflow_event list \<Rightarrow> review_signal set" where
  "signals_of evs = {x. Signal x \<in> set evs}"

text \<open>What the state of a workflow may be, given the signals it was sent.\<close>

definition decided_by :: "review_signal set \<Rightarrow> workflow_state \<Rightarrow> bool" where
  "decided_by sigs s \<longleftrightarrow> set_option (wf_decision s) \<subseteq> sigs \<and>
     (\<forall>dec rea rvw n. wf_phase s = At (Apply_Review_Decision dec rea rvw) n \<longrightarrow>
        Apply_Review_Decision dec rea rvw \<in> decision_call ` insert timeout_signal sigs)"

lemma decided_by_mono: "decided_by sigs s \<Longrightarrow> sigs \<subseteq> sigs' \<Longrightarrow> decided_by sigs' s"
  unfolding decided_by_def by blast

lemma phase_after_not_apply: "phase_after call v \<noteq> At (Apply_Review_Decision dec rea rvw) n"
  by (cases "(call, v)" rule: phase_after.cases) auto

lemma decided_by_attempt:
  assumes "handle_event d aid (Attempt f) (s, w) = (s', w')" "decided_by sigs s"
  shows "decided_by sigs s'"
proof (cases "wf_phase s")
  case (At call n)
  then have "wf_decision s' = wf_decision s \<and>
      (wf_phase s' = At call (n + 1) \<or> (\<exists>e. wf_phase s' = Ended e) \<or> (\<exists>v. wf_phase s' = phase_after call v))"
    using assms(1) by (cases f) (auto simp: retry_or_fail_def enter_phase_def split: if_splits sum.splits prod.splits)
  with At assms(2) show ?thesis by (auto simp: decided_by_def phase_after_not_apply)
qed (use assms in auto)

lemma decided_by_step:
  assumes "handle_event d aid e (s, w) = (s', w')" "decided_by sigs s"
  shows "decided_by (sigs \<union> signals_of [e]) s'"
proof -
  have more: "decided_by (sigs \<union> signals_of [e]) s" using decided_by_mono [OF assms(2)] by blast
  show ?thesis
  proof (cases e)
    case (Attempt f)
    with decided_by_attempt assms(1) more show ?thesis by simp
  next
    case (Signal x)
    with assms(1) more show ?thesis by (auto simp: decided_by_def signals_of_def split: phase.splits)
  next
    case Resume
    show ?thesis
    proof (cases "\<exists>x. wf_phase s = Awaiting_Decision \<and> wf_decision s = Some x")
      case True
      then obtain x where x: "wf_phase s = Awaiting_Decision" "wf_decision s = Some x" by blast
      with assms(2) have "x \<in> sigs" by (simp add: decided_by_def)
      with x Resume assms(1) more show ?thesis by (auto simp: decided_by_def enter_phase_def intro: rev_image_eqI)
    next
      case False
      with Resume assms(1) more show ?thesis by (auto split: phase.splits option.splits)
    qed
  next
    case Timer
    with assms(1) more show ?thesis
      by (auto simp: decided_by_def signals_of_def enter_phase_def split: phase.splits option.splits)
  qed
qed

lemma decided_by_events:
  "decided_by sigs s \<Longrightarrow> workflow_events d aid evs (s, w) = (s', w') \<Longrightarrow> decided_by (sigs \<union> signals_of evs) s'"
proof (induction evs arbitrary: sigs s w)
  case Nil
  then show ?case by (simp add: signals_of_def)
next
  case (Cons e evs)
  obtain s1 w1 where one: "handle_event d aid e (s, w) = (s1, w1)" by fastforce
  have "sigs \<union> signals_of [e] \<union> signals_of evs = sigs \<union> signals_of (e # evs)" by (auto simp: signals_of_def)
  with Cons.IH [OF decided_by_step [OF one Cons.prems(1)]] Cons.prems(2) one show ?case by simp
qed

lemma decided_by_start: "decided_by {} (start_workflow i inp)"
  by (auto simp: decided_by_def start_workflow_def first_phase_def)

text \<open>C8: a workflow decides nothing by itself.  Whatever happens to its attempts and in whatever order
  its events come, the decision it applies to the case is one that was signalled to it, reason and
  reviewer included, or else the escalation of the review timeout, which names no reviewer.\<close>

theorem workflow_applies_only_signalled_decisions:
  assumes "workflow_events d activity_id evs (start_workflow workflow_id i, w) = (s, w')"
    "wf_phase s = At (Apply_Review_Decision decision reason reviewer) n"
  shows "(\<exists>x. Signal x \<in> set evs \<and> decision = rs_decision x \<and> reason = rs_reason x \<and>
      reviewer = (if rs_reviewer x = [] then None else Some (rs_reviewer x))) \<or>
    decision = ''ESCALATED'' \<and> reason = SLA_TIMEOUT_REASON \<and> reviewer = None"
  using decided_by_events [OF decided_by_start assms(1)] assms(2)
  by (auto simp: decided_by_def signals_of_def timeout_signal_def decision_call_def)

subsection \<open>Every workflow ends\<close>

text \<open>How many attempts are left before the workflow waits, at most; and how many after.\<close>

fun activities_left :: "activity_call \<Rightarrow> nat" where
  "activities_left Validate_Intake = 4"
| "activities_left Check_Required_Documents = 3"
| "activities_left Extract_Document_Facts = 2"
| "activities_left Verify_Facts = 1"
| "activities_left _ = 0"

fun is_decision :: "activity_call \<Rightarrow> bool" where
  "is_decision (Apply_Review_Decision _ _ _) \<longleftrightarrow> True"
| "is_decision _ \<longleftrightarrow> False"

definition before_wait :: "workflow_state \<Rightarrow> nat" where
  "before_wait s = (case wf_phase s of
     At call n \<Rightarrow> if is_decision call then 0 else activities_left call * MAXIMUM_ATTEMPTS + (MAXIMUM_ATTEMPTS - n)
   | _ \<Rightarrow> 0)"

definition after_wait :: "workflow_state \<Rightarrow> nat option" where
  "after_wait s = (case wf_phase s of
     At call n \<Rightarrow> if is_decision call then Some (MAXIMUM_ATTEMPTS - n) else None
   | Ended _ \<Rightarrow> Some 0
   | _ \<Rightarrow> None)"

fun phase_bounded :: "phase \<Rightarrow> bool" where
  "phase_bounded (At _ n) \<longleftrightarrow> n < MAXIMUM_ATTEMPTS"
| "phase_bounded (Task_Failing _) \<longleftrightarrow> False"
| "phase_bounded _ \<longleftrightarrow> True"

definition attempts_bounded :: "workflow_state \<Rightarrow> bool" where
  "attempts_bounded s \<longleftrightarrow> phase_bounded (wf_phase s)"

fun is_attempt :: "workflow_event \<Rightarrow> bool" where
  "is_attempt (Attempt _) \<longleftrightarrow> True"
| "is_attempt _ \<longleftrightarrow> False"

lemma phase_after_left:
  "\<not> is_decision call \<Longrightarrow> phase_after call v = At call' n \<Longrightarrow>
     n = 0 \<and> \<not> is_decision call' \<and> Suc (activities_left call') = activities_left call"
  by (cases "(call, v)" rule: phase_after.cases) (auto split: if_splits)

lemma phase_after_decision: "is_decision call \<Longrightarrow> \<exists>e. phase_after call v = Ended e"
  by (cases "(call, v)" rule: phase_after.cases) auto

lemma phase_after_first: "phase_after call v = At call' n \<Longrightarrow> n = 0"
  by (cases "(call, v)" rule: phase_after.cases) (auto split: if_splits)

lemma phase_after_bounded: "phase_bounded (phase_after call v)"
  by (cases "(call, v)" rule: phase_after.cases) (auto simp: MAXIMUM_ATTEMPTS_def)

lemma attempt_outcome:
  assumes "handle_event d aid (Attempt f) (s, w) = (s', w')" "wf_phase s = At call n"
  shows "wf_phase s' = At call (n + 1) \<and> n + 1 < MAXIMUM_ATTEMPTS \<or> (\<exists>e. wf_phase s' = Ended e) \<or>
    (\<exists>v. wf_phase s' = phase_after call v)"
  using assms by (cases f) (auto simp: retry_or_fail_def enter_phase_def split: if_splits sum.splits prod.splits)

lemma decision_outcome:
  assumes "handle_event d aid (Attempt f) (s, w) = (s', w')" "wf_phase s = At call n" "is_decision call"
  shows "wf_phase s' = At call (n + 1) \<or> (\<exists>e. wf_phase s' = Ended e)"
  using attempt_outcome [OF assms(1,2)] phase_after_decision [OF assms(3)] by metis

lemma attempt_measure:
  assumes "handle_event d aid (Attempt f) (s, w) = (s', w')" "attempts_bounded s"
  shows "attempts_bounded s'" "before_wait s' \<le> before_wait s - 1"
    "after_wait s = Some k \<Longrightarrow> \<exists>k'. after_wait s' = Some k' \<and> k' \<le> k - 1"
proof -
  have idle: "s' = s" if "\<And>call n. wf_phase s \<noteq> At call n"
    using assms(1) that by (auto split: phase.splits)
  have pos: "0 < MAXIMUM_ATTEMPTS" by (simp add: MAXIMUM_ATTEMPTS_def)
  show "attempts_bounded s'"
  proof (cases "wf_phase s")
    case (At call n)
    from attempt_outcome [OF assms(1) this] show ?thesis
      unfolding attempts_bounded_def by (auto simp: phase_after_bounded)
  qed (use idle assms(2) in auto)
  show "before_wait s' \<le> before_wait s - 1"
  proof (cases "wf_phase s")
    case (At call n)
    have n: "n < MAXIMUM_ATTEMPTS" using At assms(2) by (simp add: attempts_bounded_def)
    show ?thesis
    proof (cases "is_decision call")
      case True
      with decision_outcome [OF assms(1) At True] show ?thesis by (auto simp: before_wait_def)
    next
      case False
      from attempt_outcome [OF assms(1) At] show ?thesis
      proof (elim disjE exE)
        fix v assume ph: "wf_phase s' = phase_after call v"
        show ?thesis
        proof (cases "phase_after call v")
          case (At call' m)
          note left = phase_after_left [OF False At]
          have "activities_left call = Suc (activities_left call')" using left by simp
          with \<open>wf_phase s = At call n\<close> At ph False left n pos show ?thesis
            by (simp add: before_wait_def)
        qed (use ph in \<open>simp_all add: before_wait_def\<close>)
      qed (use At False n in \<open>auto simp: before_wait_def\<close>)
    qed
  qed (use idle in \<open>auto simp: before_wait_def\<close>)
  show "\<exists>k'. after_wait s' = Some k' \<and> k' \<le> k - 1" if k: "after_wait s = Some k"
  proof (cases "wf_phase s")
    case (At call n)
    with k have call: "is_decision call" "k = MAXIMUM_ATTEMPTS - n" by (auto simp: after_wait_def split: if_splits)
    with decision_outcome [OF assms(1) At call(1)] show ?thesis by (auto simp: after_wait_def)
  qed (use idle k in \<open>auto simp: after_wait_def\<close>)
qed

lemma event_measure:
  assumes "handle_event d aid e (s, w) = (s', w')" "attempts_bounded s" "\<not> is_attempt e"
  shows "attempts_bounded s'" "before_wait s' \<le> before_wait s" "after_wait s = Some k \<Longrightarrow> after_wait s' = Some k"
proof -
  have "wf_phase s' = wf_phase s \<or> wf_phase s = Awaiting_Decision \<and> (\<exists>x. wf_phase s' = At (decision_call x) 0)"
    using assms(1,3) by (cases e) (auto simp: enter_phase_def split: phase.splits option.splits)
  then show "attempts_bounded s'" "before_wait s' \<le> before_wait s" "after_wait s = Some k \<Longrightarrow> after_wait s' = Some k"
    using assms(2) by (auto simp: attempts_bounded_def before_wait_def after_wait_def decision_call_def MAXIMUM_ATTEMPTS_def)
qed

lemma events_measure:
  assumes "workflow_events d aid evs (s, w) = (s', w')" "attempts_bounded s"
  shows "attempts_bounded s' \<and> before_wait s' \<le> before_wait s - length (filter is_attempt evs) \<and>
    (\<forall>k. after_wait s = Some k \<longrightarrow> (\<exists>k'. after_wait s' = Some k' \<and> k' \<le> k - length (filter is_attempt evs)))"
  using assms
proof (induction evs arbitrary: s w)
  case Nil
  then show ?case by simp
next
  case (Cons e evs)
  obtain s1 w1 where one: "handle_event d aid e (s, w) = (s1, w1)" by fastforce
  with Cons.prems(1) have rest: "workflow_events d aid evs (s1, w1) = (s', w')" by simp
  show ?case
  proof (cases "is_attempt e")
    case True
    then obtain f where f: "e = Attempt f" by (cases e) auto
    note m = attempt_measure [OF one [unfolded f] Cons.prems(2)]
    note ih = Cons.IH [OF rest m(1)]
    have "\<exists>k'. after_wait s' = Some k' \<and> k' \<le> k - length (filter is_attempt (e # evs))" if k: "after_wait s = Some k" for k
    proof -
      from m(3) [OF k] obtain k1 where k1: "after_wait s1 = Some k1" "k1 \<le> k - 1" by blast
      with ih obtain k' where "after_wait s' = Some k'" "k' \<le> k1 - length (filter is_attempt evs)" by blast
      with k1 True show ?thesis by auto
    qed
    with m(2) ih True show ?thesis by auto
  next
    case False
    note m = event_measure [OF one Cons.prems(2) False]
    with Cons.IH [OF rest m(1)] False show ?thesis by fastforce
  qed
qed

lemma after_resume:
  assumes "workflow_events d aid [Resume, Timer] (s, w) = (s', w')" "before_wait s = 0" "attempts_bounded s"
  shows "\<exists>k \<le> MAXIMUM_ATTEMPTS. after_wait s' = Some k"
proof (cases "wf_phase s")
  case (At call n)
  with assms(2,3) have "is_decision call" by (auto simp: before_wait_def attempts_bounded_def split: if_splits)
  with At assms(1) show ?thesis by (auto simp: after_wait_def)
next
  case Awaiting_Decision
  with assms(1) show ?thesis
    by (cases "wf_decision s") (auto simp: after_wait_def enter_phase_def decision_call_def)
qed (use assms(1,3) in \<open>auto simp: after_wait_def attempts_bounded_def\<close>)

text \<open>A workflow with any other starting status never does anything: its task fails at every replay.\<close>

lemma unsupported_workflow_never_ends:
  assumes "wi_starting_status i \<noteq> ''SUBMITTED''" "wi_starting_status i \<noteq> ''DOCUMENT_PROCESSING''"
  shows "\<exists>e. wf_phase (fst (workflow_events d activity_id evs (start_workflow workflow_id i, w))) = Task_Failing e"
proof -
  have "wf_phase (fst (workflow_events d activity_id evs sw)) = wf_phase (fst sw)" if "wf_phase (fst sw) = Task_Failing e" for e sw
    using that
  proof (induction evs arbitrary: sw)
    case (Cons ev evs)
    have "wf_phase (fst (handle_event d activity_id ev sw)) = Task_Failing e"
      using Cons.prems by (cases sw; cases ev) auto
    with Cons show ?case by simp
  qed simp
  then show ?thesis using assms by (simp add: start_workflow_def first_phase_def)
qed

text \<open>C9: every workflow started for a submitted or a resubmitted case ends.  Five attempts for each of at most
  five activities bring it to the review; then a decision that was signalled, or the timer, ends the wait;
  five more attempts end it, whatever the attempts meet with and whatever else happens in between.  The two
  starting statuses are those the run method supports and the submit and resubmit handlers pass.\<close>

theorem workflow_ends:
  assumes "wi_starting_status i \<in> {''SUBMITTED'', ''DOCUMENT_PROCESSING''}"
    "25 \<le> length (filter is_attempt before)" "5 \<le> length (filter is_attempt after)"
  shows "\<exists>e. wf_phase (fst (workflow_events d activity_id (before @ [Resume, Timer] @ after) (start_workflow workflow_id i, w)))
    = Ended e"
proof -
  let ?run = "\<lambda>evs sw. workflow_events d activity_id evs sw"
  obtain s1 w1 where 1: "?run before (start_workflow workflow_id i, w) = (s1, w1)" by fastforce
  obtain s2 w2 where 2: "?run [Resume, Timer] (s1, w1) = (s2, w2)" by fastforce
  obtain s3 w3 where 3: "?run after (s2, w2) = (s3, w3)" by fastforce
  have start: "attempts_bounded (start_workflow workflow_id i)" "before_wait (start_workflow workflow_id i) \<le> 25"
    using assms(1) by (auto simp: attempts_bounded_def before_wait_def start_workflow_def first_phase_def MAXIMUM_ATTEMPTS_def)
  from events_measure [OF 1 start(1)] start(2) assms(2) have b: "attempts_bounded s1" "before_wait s1 = 0" by auto
  from after_resume [OF 2 b(2,1)] obtain k where k: "k \<le> 5" "after_wait s2 = Some k" by (auto simp: MAXIMUM_ATTEMPTS_def)
  have "attempts_bounded s2" using events_measure [OF 2 b(1)] by blast
  from events_measure [OF 3 this] k assms(3) have finish: "attempts_bounded s3" "after_wait s3 = Some 0" by auto
  then have "\<exists>e. wf_phase s3 = Ended e"
    by (cases "wf_phase s3") (auto simp: after_wait_def attempts_bounded_def split: if_splits)
  with 1 2 3 show ?thesis by simp
qed

subsection \<open>Workflows run inside the system\<close>

lemma runs_order: "reflp (runs s)" "transp (runs s)"
proof -
  have "runs s b c \<Longrightarrow> runs s a b \<Longrightarrow> runs s a c" for a b c
    by (induction rule: runs.induct) (auto intro: runs.more)
  then show "reflp (runs s)" "transp (runs s)" by (auto simp: reflp_def transp_def intro: runs.none)
qed

lemma reachable_runs: "runs s w w' \<Longrightarrow> reachable s w \<Longrightarrow> reachable s w'"
  by (induction rule: runs.induct) (auto intro: reachable.step)

text \<open>\<open>inside s m\<close>: everything \<open>m\<close> does is a run of the system.\<close>

abbreviation inside :: "'x system \<Rightarrow> ('x, 'a) handler \<Rightarrow> bool" where
  "inside s m \<equiv> stays (runs s) m"

lemmas inside_bnd = stays_bnd [OF runs_order(2)]
lemmas inside_try = stays_try_except [OF runs_order(2)]
lemmas inside_each = stays_map_each [OF runs_order]
lemmas inside_refl = stays_refl_steps [OF runs_order(1)]

lemma inside_unchanged: "(\<And>w r w'. m w = (r, w') \<Longrightarrow> w_db w' = w_db w) \<Longrightarrow> inside s m"
  unfolding stays_def by (metis prod.collapse runs.more runs.none system_step.outside)

lemma inside_request:
  assumes "\<And>w. serve (sys_deployment s) r w = discard m w"
  shows "inside s m"
  unfolding stays_def
proof
  fix w
  obtain r0 w' where run: "m w = (r0, w')" by fastforce
  then have "\<exists>r1. serve (sys_deployment s) r w = (r1, w')"
    using assms by (cases r0) (auto simp: discard_def bnd_run)
  then have "system_step s w w'" using system_step.request by blast
  with run show "runs s w (snd (m w))" by (auto intro: runs.more runs.none)
qed

lemma inside_handlers:
  fixes s :: "'x system"
  shows "inside s (advance_intake_validation (dep_env (sys_deployment s)) c)" "inside s (advance_document_processing (dep_env (sys_deployment s)) c)"
    "inside s (process_document (dep_env (sys_deployment s)) (dep_ports (sys_deployment s)) pc)" "inside s (verify_application_facts (dep_env (sys_deployment s)) (dep_verifiers (sys_deployment s)) c)"
    "inside s (enter_human_review_handler (dep_env (sys_deployment s)) rc)" "inside s (apply_review_decision (dep_env (sys_deployment s)) dc)"
  by (rule inside_request [of s "Advance_Intake c"], simp add: serve_def)
    (rule inside_request [of s "Advance_Documents c"], simp add: serve_def,
     rule inside_request [of s "Process pc"], simp add: serve_def,
     rule inside_request [of s "Verify c"], simp add: serve_def,
     rule inside_request [of s "Enter_Review rc"], simp add: serve_def,
     rule inside_request [of s "Decide dc"], simp add: serve_def)

lemma inside_queries:
  "inside s (get_application_status q)" "inside s (with_uow t (list_documents env t' k))" "inside s (with_uow t (get_checks env t' k))"
  by (rule inside_unchanged, erule query_changes_nothing(1),
      (rule inside_unchanged, erule with_uow_quiet [rotated], intro quiet_intros)+)

lemma inside_on_duplicate: "inside s m \<Longrightarrow> inside s m' \<Longrightarrow> inside s (on_duplicate m m')"
  unfolding on_duplicate_def
  by (rule inside_try) (auto simp: inside_refl split: py_error.split)

lemma inside_activity: "inside s (run_activity (sys_deployment s) info ctx call)"
proof -
  have pairs: "inside s (case p of (x, y) \<Rightarrow> f x y)" if "\<And>x y. inside s (f x y)" for p :: "'b \<times> 'c" and f :: "'b \<Rightarrow> 'c \<Rightarrow> ('a, 'd) handler"
    using that by (cases p) auto
  note defs = with_ids_def report_status_def current_status_def extract_one_def
    validate_intake_activity_def check_required_documents_activity_def extract_document_facts_activity_def
    verify_facts_activity_def enter_human_review_activity_def apply_review_decision_activity_def
  show ?thesis
    unfolding run_activity_def Let_def defs
    by (cases call; simp only: activity_call.simps; intro inside_bnd inside_on_duplicate inside_each inside_handlers inside_queries inside_refl pairs)
qed

lemma inside_event: "handle_event (sys_deployment s) aid e (st, w) = (st', w') \<Longrightarrow> runs s w w'"
proof (cases e)
  case (Attempt f)
  assume step: "handle_event (sys_deployment s) aid e (st, w) = (st', w')"
  show ?thesis
  proof (cases "wf_phase st")
    case (At call n)
    obtain r w1 where run: "run_activity (sys_deployment s) \<lparr>ai_workflow = wf_id st, ai_activity = aid (wf_scheduled st)\<rparr>
        (workflow_context st) call w = (r, w1)" by fastforce
    have "w' = w \<or> w' = w1" using step Attempt At run by (cases f; cases r) (auto split: if_splits)
    with staysD [OF inside_activity run] show ?thesis by (auto intro: runs.none)
  qed (use step Attempt in \<open>auto intro: runs.none\<close>)
qed (auto intro: runs.none split: phase.splits option.splits)

text \<open>C16: a workflow does to the database only what requests can do.  From a reachable state of the
  system, any events of any workflow lead to a reachable state, so that everything shown of reachable
  states holds of a system with workflows.\<close>

theorem workflow_stays_in_system:
  assumes "reachable s w" "workflow_events (sys_deployment s) activity_id evs (st, w) = (st', w')"
  shows "reachable s w'"
  using assms
proof (induction evs arbitrary: st w)
  case (Cons e evs)
  obtain st1 w1 where one: "handle_event (sys_deployment s) activity_id e (st, w) = (st1, w1)" by fastforce
  with Cons.IH [OF reachable_runs [OF inside_event [OF one] Cons.prems(1)]] Cons.prems(2) show ?case by simp
qed simp

subsection \<open>A concrete workflow\<close>

definition walk_input :: workflow_input where
  "walk_input = \<lparr>wi_tenant = DEMO_TENANT_ID, wi_application = new_id 1, wi_version = 2,
     wi_starting_status = ''SUBMITTED'', wi_sla_seconds = 60\<rparr>"

definition walk_info :: "nat \<Rightarrow> activity_info" where
  "walk_info n = \<lparr>ai_workflow = ''wf'', ai_activity = show_nat n\<rparr>"

definition walk_context :: activity_context where
  "walk_context = \<lparr>ax_tenant = DEMO_TENANT_ID, ax_application = new_id 1\<rparr>"

lemma status_in_row:
  assumes "loaded b d" "db_applications d = [walked_row s v u f]"
  shows "app_status b = s \<and> app_version b = v"
proof -
  have "b\<lparr>app_pending := []\<rparr> = walked_case s v u f"
    using assms by (auto simp: loaded_def walked_row_read split: if_splits)
  from arg_cong [OF this, of app_status] arg_cong [OF this, of app_version] show ?thesis
    by (simp add: walked_case_def)
qed

text \<open>The two activities of the walk, from the requests they make.\<close>

lemma served_result: "discard m w = (Inr (), w') \<Longrightarrow> \<exists>y. m w = (Inr y, w')"
  by (auto simp: discard_def elim!: bnd_InrE)

lemma walk_ids: "with_ids walk_context f w = f DEMO_TENANT_ID (new_id 1) w"
  using valid_demo valid_new_id by (simp add: with_ids_def walk_context_def bnd_run)

lemma walked_intake:
  assumes "serve sample_deployment (Advance_Intake (walk_command (activity_key info None))) w = (Inr (), w')"
    "case_inv (w_db w)" "db_applications (w_db w') = [walked_row s v u f]"
  shows "run_activity sample_deployment info walk_context Validate_Intake w =
      (Inr (Status_Result \<lparr>as_status = status_value s, as_version = v\<rparr>), w')"
    "reserved (w_db w') DEMO_TENANT_ID ''advance_intake_validation'' (activity_key info None)"
proof -
  from assms(1) obtain y where run: "transaction DEMO_TENANT_ID (advance_intake_body sample_env (walk_command (activity_key info None))) w = (Inr y, w')"
    by (auto simp: serve_def sample_deployment_def advance_intake_validation_def walk_command_def dest!: served_result)
  have tenant: "c_tenant (walk_command k) = DEMO_TENANT_ID" "c_key (walk_command k) = k" for k by (simp_all add: walk_command_def)
  from intake_activity.success_leaves_loaded [of "walk_command (activity_key info None)", unfolded tenant, OF run assms(2)]
  obtain b where "loaded b (w_db w')" "status_reported y = \<lparr>as_status = status_value (app_status b), as_version = app_version b\<rparr>" by blast
  with status_in_row [OF _ assms(3)] have "status_reported y = \<lparr>as_status = status_value s, as_version = v\<rparr>" by blast
  with run show "run_activity sample_deployment info walk_context Validate_Intake w =
      (Inr (Status_Result \<lparr>as_status = status_value s, as_version = v\<rparr>), w')"
    by (simp add: run_activity_def validate_intake_activity_def walk_ids report_status_def on_duplicate_def try_except_def
        advance_intake_validation_def walk_command_def sample_deployment_def bnd_run)
  from intake_activity.success_claims(2) [of "walk_command (activity_key info None)", unfolded tenant, OF run]
  show "reserved (w_db w') DEMO_TENANT_ID ''advance_intake_validation'' (activity_key info None)"
    by (simp add: reserved_def)
qed

lemma walked_documents:
  assumes "serve sample_deployment (Advance_Documents (walk_command (activity_key info None))) w = (Inr (), w')"
    "case_inv (w_db w)" "db_applications (w_db w') = [walked_row s v u f]"
  shows "run_activity sample_deployment info walk_context Check_Required_Documents w =
      (Inr (Status_Result \<lparr>as_status = status_value s, as_version = v\<rparr>), w')"
proof -
  from assms(1) obtain y where run: "transaction DEMO_TENANT_ID (advance_documents_body sample_env (walk_command (activity_key info None))) w = (Inr y, w')"
    by (auto simp: serve_def sample_deployment_def advance_document_processing_def walk_command_def dest!: served_result)
  have tenant: "c_tenant (walk_command k) = DEMO_TENANT_ID" for k by (simp add: walk_command_def)
  from documents_activity.success_leaves_loaded [of "walk_command (activity_key info None)", unfolded tenant, OF run assms(2)]
  obtain b where "loaded b (w_db w')" "status_reported y = \<lparr>as_status = status_value (app_status b), as_version = app_version b\<rparr>" by blast
  with status_in_row [OF _ assms(3)] have "status_reported y = \<lparr>as_status = status_value s, as_version = v\<rparr>" by blast
  with run show ?thesis
    by (simp add: run_activity_def check_required_documents_activity_def walk_ids report_status_def on_duplicate_def
        try_except_def advance_document_processing_def walk_command_def sample_deployment_def bnd_run)
qed

text \<open>The world in which the case has been submitted, and the first activity in it.\<close>

lemma walk_to_intake:
  obtains w2 w3 where "reachable sample_system w2" "reachable sample_system w3" "w_db w3 \<noteq> w_db w2"
    "run_activity sample_deployment (walk_info 1) walk_context Validate_Intake w2 =
       (Inr (Status_Result \<lparr>as_status = ''DOCUMENT_PROCESSING'', as_version = 4\<rparr>), w3)"
    "reserved (w_db w3) DEMO_TENANT_ID ''advance_intake_validation'' (activity_key (walk_info 1) None)"
    "case_world DOCUMENT_PROCESSING 4 10 [(''create_application'', ''k1''), (''submit_application'', ''k2''),
       (''advance_intake_validation'', activity_key (walk_info 1) None)] [] w3"
proof -
  obtain w1 where 1: "serve sample_deployment (Create sample_create) start_world = (Inr (), w1)"
    "case_world DRAFT 1 4 [(''create_application'', ''k1'')] [] w1" using created by blast
  obtain w2 where 2: "serve sample_deployment (Submit (walk_command ''k2'')) w1 = (Inr (), w2)"
    "case_world SUBMITTED 2 6 [(''create_application'', ''k1''), (''submit_application'', ''k2'')] [] w2"
    using submitted [OF 1(2), of "''k2''"] by auto
  obtain w3 where 3: "serve sample_deployment (Advance_Intake (walk_command (activity_key (walk_info 1) None))) w2 = (Inr (), w3)"
    "case_world DOCUMENT_PROCESSING 4 10 [(''create_application'', ''k1''), (''submit_application'', ''k2''),
       (''advance_intake_validation'', activity_key (walk_info 1) None)] [] w3"
    using taken_in [OF 2(2), of "activity_key (walk_info 1) None"] by auto
  have r2: "reachable sample_system w2" using start_reachable 1(1) 2(1) by (meson reachable.step step_request)
  then have r3: "reachable sample_system w3" using 3(1) by (meson reachable.step step_request)
  from 3(2) obtain u f where "db_applications (w_db w3) = [walked_row DOCUMENT_PROCESSING 4 u f]" by (auto simp: case_world_def)
  note intake = walked_intake [OF 3(1) reachable_case_inv [OF r2] this]
  have "w_db w3 \<noteq> w_db w2" using 2(2) 3(2) by (auto simp: case_world_def walked_row_def)
  from that [OF r2 r3 this _ intake(2) 3(2)] intake(1) show thesis by simp
qed

theorem retried_activity_is_transparent_witness:
  "\<exists>w w1 w2. w_db w1 \<noteq> w_db w \<and>
     run_activity sample_deployment (walk_info 1) walk_context Validate_Intake w =
       (Inr (Status_Result \<lparr>as_status = ''DOCUMENT_PROCESSING'', as_version = 4\<rparr>), w1) \<and>
     run_activity sample_deployment (walk_info 1) walk_context Validate_Intake w1 =
       (Inr (Status_Result \<lparr>as_status = ''DOCUMENT_PROCESSING'', as_version = 4\<rparr>), w2) \<and> w_db w2 = w_db w1"
proof (rule walk_to_intake)
  fix w w1
  assume w: "reachable sample_system w" "w_db w1 \<noteq> w_db w"
    and run: "run_activity sample_deployment (walk_info 1) walk_context Validate_Intake w =
       (Inr (Status_Result \<lparr>as_status = ''DOCUMENT_PROCESSING'', as_version = 4\<rparr>), w1)"
    and key: "reserved (w_db w1) DEMO_TENANT_ID ''advance_intake_validation'' (activity_key (walk_info 1) None)"
  have "\<exists>w2. run_activity sample_deployment (walk_info 1) walk_context Validate_Intake w1 =
       (Inr (Status_Result \<lparr>as_status = ''DOCUMENT_PROCESSING'', as_version = 4\<rparr>), w2) \<and> w_db w2 = w_db w1"
    by (rule retried_activity_is_transparent [OF run reachable_case_inv [OF w(1)], where op = "''advance_intake_validation''"])
      (use key in \<open>simp_all add: walk_context_def\<close>)
  with run w(2) show ?thesis by blast
qed

text \<open>The workflow of that case: the document check runs twice, its first result lost, and a signalled
  approval ends the wait.\<close>

lemma walk_info_eq: "\<lparr>ai_workflow = ''wf'', ai_activity = show_nat n\<rparr> = walk_info n"
  by (simp add: walk_info_def)

lemma walk_input_simps:
  "first_phase walk_input = At Validate_Intake 0" "wf_input s = walk_input \<Longrightarrow> workflow_context s = walk_context"
  by (simp_all add: walk_input_def first_phase_def workflow_context_def walk_context_def)

definition approval :: review_signal where
  "approval = \<lparr>rs_decision = ''APPROVED'', rs_reason = ''income covers the payments'', rs_reviewer = new_id 900\<rparr>"

lemma walk_workflow:
  obtains w2 s w' where "reachable sample_system w2"
    "workflow_events sample_deployment show_nat [Attempt Delivered, Attempt Delivered, Signal approval, Resume]
       (start_workflow ''wf'' walk_input, w2) = (s, w')"
    "wf_phase s = At (Apply_Review_Decision ''APPROVED'' ''income covers the payments'' (Some (new_id 900))) 0"
    "map ap_status (db_applications (w_db w')) = [''AWAITING_HUMAN_REVIEW'']"
proof (rule walk_to_intake)
  fix w2 w3
  assume w: "reachable sample_system w2" "reachable sample_system w3"
    and run: "run_activity sample_deployment (walk_info 1) walk_context Validate_Intake w2 =
       (Inr (Status_Result \<lparr>as_status = ''DOCUMENT_PROCESSING'', as_version = 4\<rparr>), w3)"
    and there: "case_world DOCUMENT_PROCESSING 4 10 [(''create_application'', ''k1''), (''submit_application'', ''k2''),
       (''advance_intake_validation'', activity_key (walk_info 1) None)] [] w3"
  obtain w4 where 4: "serve sample_deployment (Advance_Documents (walk_command (activity_key (walk_info 2) None))) w3 = (Inr (), w4)"
    "\<exists>ops. case_world AWAITING_HUMAN_REVIEW 5 12 ops [queued None] w4"
    using queued_for_review [OF there, of "activity_key (walk_info 2) None"] by auto
  from 4(2) obtain u f where row: "db_applications (w_db w4) = [walked_row AWAITING_HUMAN_REVIEW 5 u f]" by (auto simp: case_world_def)
  note documents = walked_documents [OF 4(1) reachable_case_inv [OF w(2)] row]
  let ?s0 = "start_workflow ''wf'' walk_input"
  let ?s4 = "?s0\<lparr>wf_phase := At (decision_call approval) 0, wf_scheduled := 3, wf_decision := Some approval\<rparr>"
  have "workflow_events sample_deployment show_nat [Attempt Delivered, Attempt Delivered, Signal approval, Resume] (?s0, w2) = (?s4, w4)"
    using run documents
    by (simp add: start_workflow_def walk_input_simps enter_phase_def walk_info_eq numeral_2_eq_2 numeral_3_eq_3)
  moreover have "new_id 900 \<noteq> []" using valid_new_id [of 900] by (auto simp: new_id_def format_uuid_def)
  ultimately show thesis using that [OF w(1)] row by (simp add: decision_call_def approval_def walked_row_def)
qed

lemma system_deployment [simp]: "sys_deployment sample_system = sample_deployment"
  by (simp add: sample_system_def)

theorem workflow_applies_only_signalled_decisions_witness:
  "\<exists>w s w'. workflow_events sample_deployment show_nat [Attempt Delivered, Attempt Delivered, Signal approval, Resume]
      (start_workflow ''wf'' walk_input, w) = (s, w') \<and>
    wf_phase s = At (Apply_Review_Decision ''APPROVED'' ''income covers the payments'' (Some (new_id 900))) 0 \<and>
    (\<exists>x. Signal x \<in> set [Attempt Delivered, Attempt Delivered, Signal approval, Resume] \<and> rs_decision x = ''APPROVED'')"
proof (rule walk_workflow)
  fix w s w'
  assume run: "workflow_events sample_deployment show_nat [Attempt Delivered, Attempt Delivered, Signal approval, Resume]
       (start_workflow ''wf'' walk_input, w) = (s, w')"
    and at: "wf_phase s = At (Apply_Review_Decision ''APPROVED'' ''income covers the payments'' (Some (new_id 900))) 0"
  from workflow_applies_only_signalled_decisions [OF run at] run at show ?thesis by fastforce
qed

theorem workflow_stays_in_system_witness:
  "\<exists>w s w'. workflow_events sample_deployment show_nat [Attempt Delivered, Attempt Delivered, Signal approval, Resume]
      (start_workflow ''wf'' walk_input, w) = (s, w') \<and> reachable sample_system w' \<and>
    map ap_status (db_applications (w_db w')) = [''AWAITING_HUMAN_REVIEW'']"
proof (rule walk_workflow)
  fix w s w'
  assume w: "reachable sample_system w"
    and run: "workflow_events sample_deployment show_nat [Attempt Delivered, Attempt Delivered, Signal approval, Resume]
       (start_workflow ''wf'' walk_input, w) = (s, w')"
    and queued: "map ap_status (db_applications (w_db w')) = [''AWAITING_HUMAN_REVIEW'']"
  from workflow_stays_in_system [OF w, where st = "start_workflow ''wf'' walk_input" and activity_id = show_nat
      and evs = "[Attempt Delivered, Attempt Delivered, Signal approval, Resume]" and st' = s and w' = w'] run
  have "reachable sample_system w'" by simp
  with run queued show ?thesis by (intro exI conjI)
qed

theorem workflow_ends_witness:
  "\<exists>e. wf_phase (fst (workflow_events sample_deployment show_nat
      (replicate 25 (Attempt Lost_Before) @ [Resume, Timer] @ replicate 5 (Attempt Lost_After))
      (start_workflow ''wf'' walk_input, start_world))) = Ended e"
  by (rule workflow_ends) (simp_all add: walk_input_def)

end
