(* ===== verification/Api.thy ===== *)
theory Api
  imports Engagement Workflow
begin

text \<open>
  The HTTP surface: \<open>api/routes/applications.py\<close>, \<open>api/schemas/applications.py\<close>,
  \<open>api/dependencies/tenant.py\<close>, \<open>api/error_handling/problem_details.py\<close> and
  \<open>api/middleware/request_limits.py\<close>.  A request arrives decoded: FastAPI's parsing of bytes into
  the fields of a model is not modelled, its checking of a model's declared bounds is.  FastAPI
  resolves the tenant dependency first, then reports missing headers and invalid fields together,
  and only then calls the route.
\<close>

subsection \<open>Problem details\<close>

record problem =
  pb_type :: string
  pb_title :: string
  pb_status :: int
  pb_detail :: string
  pb_code :: string
  pb_correlation :: "string option"
  pb_errors :: "string list option"

text \<open>\<open>_DOMAIN_EXCEPTION_STATUS\<close>, by class name: none of the classes has a subclass.\<close>

definition DOMAIN_EXCEPTION_STATUS :: "(string \<times> int \<times> string) list" where
  "DOMAIN_EXCEPTION_STATUS =
     [(''ApplicationNotFoundError'', 404, ''application_not_found''),
      (''ProductNotFoundError'', 404, ''product_not_found''),
      (''DuplicateRequestError'', 409, ''duplicate_request''),
      (''ConcurrencyConflictError'', 409, ''concurrency_conflict''),
      (''IllegalStateTransitionError'', 409, ''illegal_state_transition''),
      (''NoActiveWorkflowError'', 409, ''no_active_workflow''),
      (''ProductRejectedRequestError'', 422, ''product_rejected_request''),
      (''InvalidApplicationDataError'', 422, ''invalid_application_data'')]"

definition validation_problem :: "string option \<Rightarrow> string list \<Rightarrow> problem" where
  "validation_problem correlation errs =
     \<lparr>pb_type = ''about:blank'', pb_title = ''Request Validation Failed'', pb_status = 422,
      pb_detail = ''One or more request fields failed validation.'', pb_code = ''request_validation_failed'',
      pb_correlation = correlation, pb_errors = Some errs\<rparr>"

definition unexpected_problem :: "string option \<Rightarrow> problem" where
  "unexpected_problem correlation =
     \<lparr>pb_type = ''about:blank'', pb_title = ''Internal Server Error'', pb_status = 500,
      pb_detail = ''An unexpected error occurred. This has been logged for investigation.'',
      pb_code = ''internal_server_error'', pb_correlation = correlation, pb_errors = None\<rparr>"

text \<open>The handlers \<open>register_error_handlers\<close> installs, for an exception of a route.\<close>

definition problem_of :: "string option \<Rightarrow> py_error \<Rightarrow> problem" where
  "problem_of correlation e =
     (case map_of DOMAIN_EXCEPTION_STATUS (error_class e) of
        Some (http_status, code) \<Rightarrow>
          \<lparr>pb_type = ''about:blank'', pb_title = error_class e, pb_status = http_status, pb_detail = error_str e,
           pb_code = code, pb_correlation = correlation, pb_errors = None\<rparr>
      | None \<Rightarrow> unexpected_problem correlation)"

subsection \<open>Requests and responses\<close>

record create_request =
  rb_given_name :: string
  rb_family_name :: string
  rb_date_of_birth :: date
  rb_email :: string
  rb_product :: string
  rb_amount :: decimal
  rb_currency :: string
  rb_term :: int

record decision_request =
  rd_decision :: string
  rd_reason :: string
  rd_reviewer :: string

record upload_form =
  uf_document_type :: string
  uf_filename :: "string option"
  uf_content_type :: "string option"
  uf_data :: string

datatype route_call =
    Post_Application create_request
  | Post_Submit string
  | Post_Resubmit string
  | Post_Document string upload_form
  | Get_Application string
  | Get_Evidence string
  | Post_Review_Decision string decision_request

record http_request =
  hr_tenant :: "string option"
  hr_idempotency_key :: "string option"
  hr_correlation :: "string option"
  hr_call :: route_call

record fact_response =
  fp_fact_id :: string
  fp_document_id :: string
  fp_fact_type :: string
  fp_value :: string
  fp_normalized :: string
  fp_confidence :: rat
  fp_page :: int
  fp_method :: string
  fp_extractor :: string

record check_response =
  cp_source :: string
  cp_fact_type :: string
  cp_declared :: "string option"
  cp_external :: "string option"
  cp_verdict :: string
  cp_confidence :: rat
  cp_detail :: string

datatype response_body =
    Created_Body string string string int
  | Started_Body string string int "string option"
  | Uploaded_Body string string string string
  | Status_Body string string int "string option"
  | Evidence_Body string "fact_response list" "check_response list"
  | Decision_Body string string string
  | Problem_Body problem

record response =
  rsp_status :: int
  rsp_body :: response_body

text \<open>The declared bounds of \<open>CreateApplicationRequest\<close> and \<open>ReviewDecisionRequest\<close>; pydantic admits
  finite decimals only.  The names stand for pydantic's error entries.\<close>

definition create_request_errors :: "create_request \<Rightarrow> string list" where
  "create_request_errors b =
     (if rb_given_name b = [] then [''applicant_given_name''] else []) @
     (if rb_family_name b = [] then [''applicant_family_name''] else []) @
     (if length (rb_email b) < 3 then [''applicant_email''] else []) @
     (if \<not> dec_is_finite (rb_amount b) \<or> dec_less dec_zero (rb_amount b) \<noteq> Inr True then [''requested_amount''] else []) @
     (if length (rb_currency b) \<noteq> 3 then [''currency''] else []) @
     (if rb_term b < 1 then [''requested_term_months''] else [])"

definition decision_request_errors :: "decision_request \<Rightarrow> string list" where
  "decision_request_errors b =
     (if rd_reason b = [] then [''reason''] else []) @ (if rd_reviewer b = [] then [''reviewer_id''] else [])"

definition needs_key :: "route_call \<Rightarrow> bool" where
  "needs_key c = (case c of Post_Application _ \<Rightarrow> True | Post_Submit _ \<Rightarrow> True | Post_Resubmit _ \<Rightarrow> True
     | Post_Document _ _ \<Rightarrow> True | _ \<Rightarrow> False)"

definition request_errors :: "http_request \<Rightarrow> string list" where
  "request_errors r =
     (if hr_tenant r = None then [''X-Tenant-Id''] else []) @
     (if needs_key (hr_call r) \<and> hr_idempotency_key r = None then [''Idempotency-Key''] else []) @
     (case hr_call r of Post_Application b \<Rightarrow> create_request_errors b
      | Post_Review_Decision _ b \<Rightarrow> decision_request_errors b | _ \<Rightarrow> [])"

subsection \<open>Routes\<close>

text \<open>The workflow service's signal operation, beside what the command handlers use.\<close>

record 'x api =
  api_deployment :: "'x deployment"
  api_signal :: "string \<Rightarrow> review_signal \<Rightarrow> 'x \<Rightarrow> (py_error + unit) \<times> 'x"

definition get_tenant_id :: "string \<Rightarrow> py_error + string" where
  "get_tenant_id header = mk_id TenantId header"

definition REVIEW_DECISIONS :: "string list" where
  "REVIEW_DECISIONS = map status_value [APPROVED, DECLINED, NEEDS_MORE_INFORMATION, ESCALATED]"

text \<open>\<open>sorted(_REVIEW_DECISIONS)\<close>, as an f-string shows it.\<close>

definition sorted_decisions :: string where
  "sorted_decisions = ''['' @ py_repr ''APPROVED'' @ '', '' @ py_repr ''DECLINED'' @ '', '' @ py_repr ''ESCALATED''
     @ '', '' @ py_repr ''NEEDS_MORE_INFORMATION'' @ '']''"

definition create_route :: "'x api \<Rightarrow> string \<Rightarrow> string \<Rightarrow> create_request \<Rightarrow> ('x, response_body) handler" where
  "create_route a tenant_id key b =
     bnd (lift_result (mk_id ProductId (rb_product b))) (\<lambda>product_id.
     bnd (lift_result (mk_Money (rb_amount b) (rb_currency b))) (\<lambda>money.
     bnd (create_application (dep_env (api_deployment a))
            \<lparr>cc_tenant = tenant_id, cc_key = key, cc_given_name = rb_given_name b, cc_family_name = rb_family_name b,
             cc_date_of_birth = rb_date_of_birth b, cc_email = rb_email b, cc_product = product_id,
             cc_amount = money, cc_term = rb_term b\<rparr>) (\<lambda>r.
       ret (Created_Body (res_application r) (res_applicant r) (status_value (res_status r)) (res_version r)))))"

definition started_body :: "started_result \<Rightarrow> response_body" where
  "started_body r = Started_Body (res_application r) (status_value (res_status r)) (res_version r) (res_workflow r)"

definition submit_route :: "'x api \<Rightarrow> string \<Rightarrow> string \<Rightarrow> string \<Rightarrow> ('x, response_body) handler" where
  "submit_route a tenant_id key raw_id =
     bnd (lift_result (mk_id ApplicationId raw_id)) (\<lambda>k.
     bnd (submit_application (dep_env (api_deployment a)) (dep_runner (api_deployment a))
            \<lparr>c_tenant = tenant_id, c_application = k, c_key = key\<rparr>) (\<lambda>r. ret (started_body r)))"

definition resubmit_route :: "'x api \<Rightarrow> string \<Rightarrow> string \<Rightarrow> string \<Rightarrow> ('x, response_body) handler" where
  "resubmit_route a tenant_id key raw_id =
     bnd (lift_result (mk_id ApplicationId raw_id)) (\<lambda>k.
     bnd (resubmit_application (dep_env (api_deployment a)) (dep_runner (api_deployment a))
            \<lparr>c_tenant = tenant_id, c_application = k, c_key = key\<rparr>) (\<lambda>r. ret (started_body r)))"

text \<open>\<open>x or default\<close>: an empty string counts as absent.\<close>

definition or_default :: "string option \<Rightarrow> string \<Rightarrow> string" where
  "or_default s d = (case s of None \<Rightarrow> d | Some t \<Rightarrow> if t = [] then d else t)"

definition upload_route :: "'x api \<Rightarrow> string \<Rightarrow> string \<Rightarrow> string \<Rightarrow> upload_form \<Rightarrow> ('x, response_body) handler" where
  "upload_route a tenant_id key raw_id f =
     bnd (lift_result (mk_id ApplicationId raw_id)) (\<lambda>k.
     bnd (upload_document (dep_env (api_deployment a)) (dep_ports (api_deployment a))
            \<lparr>c_tenant = tenant_id, c_application = k, c_key = key, c_document_type = uf_document_type f,
             c_filename = or_default (uf_filename f) ''document'',
             c_content_type = or_default (uf_content_type f) ''application/octet-stream'', c_data = uf_data f\<rparr>) (\<lambda>r.
       ret (Uploaded_Body (up_document r) (up_application r) (up_object_key r) (up_checksum r))))"

definition status_route :: "string \<Rightarrow> string \<Rightarrow> ('x, response_body) handler" where
  "status_route tenant_id raw_id =
     bnd (lift_result (mk_id ApplicationId raw_id)) (\<lambda>k.
     bnd (get_application_status \<lparr>gs_tenant = tenant_id, gs_application = k\<rparr>) (\<lambda>r.
       ret (Status_Body (st_application r) (status_value (st_status r)) (st_version r) (st_workflow r))))"

definition fact_response_of :: "stored_fact \<Rightarrow> fact_response" where
  "fact_response_of s =
     \<lparr>fp_fact_id = sf_fact_id s, fp_document_id = sf_document_id s, fp_fact_type = fact_type_value (fact_type_of (sf_fact s)),
      fp_value = fact_value (sf_fact s), fp_normalized = fact_normalized (sf_fact s), fp_confidence = fact_confidence (sf_fact s),
      fp_page = fact_page (sf_fact s), fp_method = fact_method (sf_fact s), fp_extractor = fact_extractor (sf_fact s)\<rparr>"

definition check_response_of :: "verification_check \<Rightarrow> check_response" where
  "check_response_of c =
     \<lparr>cp_source = source_system_value (chk_source c), cp_fact_type = chk_fact_type c, cp_declared = chk_declared c,
      cp_external = chk_external c, cp_verdict = verdict_value (chk_verdict c), cp_confidence = chk_confidence c,
      cp_detail = chk_detail c\<rparr>"

definition evidence_route :: "'x api \<Rightarrow> string \<Rightarrow> string \<Rightarrow> ('x, response_body) handler" where
  "evidence_route a tenant_id raw_id =
     bnd (lift_result (mk_id ApplicationId raw_id)) (\<lambda>k.
     bnd (get_application_evidence (dep_env (api_deployment a)) \<lparr>gs_tenant = tenant_id, gs_application = k\<rparr>) (\<lambda>r.
       ret (Evidence_Body (ge_application r) (map fact_response_of (ge_facts r)) (map check_response_of (ge_checks r)))))"

definition decision_route :: "'x api \<Rightarrow> string \<Rightarrow> string \<Rightarrow> decision_request \<Rightarrow> ('x, response_body) handler" where
  "decision_route a tenant_id raw_id b =
     bnd (raise_if (rd_decision b \<notin> set REVIEW_DECISIONS) (InvalidApplicationDataError
            (''decision '' @ py_repr (rd_decision b) @ '' must be one of '' @ sorted_decisions))) (\<lambda>_.
     bnd (lift_result (mk_id ApplicationId raw_id)) (\<lambda>k.
     bnd (get_application_status \<lparr>gs_tenant = tenant_id, gs_application = k\<rparr>) (\<lambda>current.
     bnd (from_some (NoActiveWorkflowError raw_id) (st_workflow current)) (\<lambda>workflow_id.
     bnd (external (api_signal a workflow_id
            \<lparr>rs_decision = rd_decision b, rs_reason = rd_reason b, rs_reviewer = rd_reviewer b\<rparr>)) (\<lambda>_.
       ret (Decision_Body raw_id workflow_id (rd_decision b)))))))"

definition route :: "'x api \<Rightarrow> string \<Rightarrow> string \<Rightarrow> route_call \<Rightarrow> ('x, response_body) handler" where
  "route a tenant_id key c = (case c of
       Post_Application b \<Rightarrow> create_route a tenant_id key b
     | Post_Submit k \<Rightarrow> submit_route a tenant_id key k
     | Post_Resubmit k \<Rightarrow> resubmit_route a tenant_id key k
     | Post_Document k f \<Rightarrow> upload_route a tenant_id key k f
     | Get_Application k \<Rightarrow> status_route tenant_id k
     | Get_Evidence k \<Rightarrow> evidence_route a tenant_id k
     | Post_Review_Decision k b \<Rightarrow> decision_route a tenant_id k b)"

definition success_status :: "route_call \<Rightarrow> int" where
  "success_status c = (case c of Post_Application _ \<Rightarrow> 201 | Post_Document _ _ \<Rightarrow> 201 | _ \<Rightarrow> 200)"

definition problem_response :: "problem \<Rightarrow> response" where
  "problem_response p = \<lparr>rsp_status = pb_status p, rsp_body = Problem_Body p\<rparr>"

definition api_handle :: "'x api \<Rightarrow> http_request \<Rightarrow> ('x, response) handler" where
  "api_handle a r =
     try_except
       (bnd (case hr_tenant r of None \<Rightarrow> ret [] | Some h \<Rightarrow> lift_result (get_tenant_id h)) (\<lambda>tenant_id.
          if request_errors r \<noteq> []
          then ret (problem_response (validation_problem (hr_correlation r) (request_errors r)))
          else bnd (route a tenant_id (case hr_idempotency_key r of Some k \<Rightarrow> k | None \<Rightarrow> []) (hr_call r)) (\<lambda>b.
            ret \<lparr>rsp_status = success_status (hr_call r), rsp_body = b\<rparr>)))
       (\<lambda>e. ret (problem_response (problem_of (hr_correlation r) e)))"

subsection \<open>The size limit\<close>

text \<open>\<open>int(bytes)\<close>: surrounding ASCII white space, a sign, digits with single underscores between
  them, and no more than the interpreter's limit of 4300 digits.\<close>

definition ascii_space :: "char \<Rightarrow> bool" where
  "ascii_space c \<longleftrightarrow> (of_char c :: nat) \<in> {9, 10, 11, 12, 13, 32}"

definition bytes_strip :: "string \<Rightarrow> string" where
  "bytes_strip s = rev (dropWhile ascii_space (rev (dropWhile ascii_space s)))"

fun digits_underscores :: "string \<Rightarrow> bool" where
  "digits_underscores [] \<longleftrightarrow> False"
| "digits_underscores [c] \<longleftrightarrow> is_digit c"
| "digits_underscores (c # d # s) \<longleftrightarrow> is_digit c \<and> (if d = CHR ''_'' then digits_underscores s else digits_underscores (d # s))"

definition MAX_STR_DIGITS :: nat where
  "MAX_STR_DIGITS = 4300"

definition signed_body :: "string \<Rightarrow> int \<times> string" where
  "signed_body s = (case s of [] \<Rightarrow> (1, s)
     | c # t \<Rightarrow> if c = CHR ''-'' then (- 1, t) else if c = CHR ''+'' then (1, t) else (1, s))"

definition bytes_to_int :: "string \<Rightarrow> int option" where
  "bytes_to_int raw =
     (case signed_body (bytes_strip raw) of (sign, body) \<Rightarrow>
        let digits = filter (\<lambda>c. c \<noteq> CHR ''_'') body in
        if digits_underscores body \<and> length digits \<le> MAX_STR_DIGITS then Some (sign * int (read_nat digits)) else None)"

record asgi_scope =
  sc_type :: string
  sc_headers :: "(string \<times> string) list"

text \<open>\<open>dict(raw_headers)\<close> keeps the last of several headers with one name.\<close>

definition too_large :: "nat \<Rightarrow> asgi_scope \<Rightarrow> bool" where
  "too_large max_bytes scope \<longleftrightarrow> sc_type scope = ''http'' \<and>
     (case map_of (rev (sc_headers scope)) ''content-length'' of
        None \<Rightarrow> False
      | Some v \<Rightarrow> (case bytes_to_int v of None \<Rightarrow> 0 | Some n \<Rightarrow> n) > int max_bytes)"

definition too_large_problem :: "nat \<Rightarrow> problem" where
  "too_large_problem max_bytes =
     \<lparr>pb_type = ''about:blank'', pb_title = ''Payload Too Large'', pb_status = 413,
      pb_detail = ''Request body exceeds the '' @ show_nat max_bytes @ ''-byte limit.'',
      pb_code = ''request_body_too_large'', pb_correlation = None, pb_errors = None\<rparr>"

definition limit_request_size :: "nat \<Rightarrow> (asgi_scope \<Rightarrow> ('x, response) handler) \<Rightarrow> asgi_scope \<Rightarrow> ('x, response) handler" where
  "limit_request_size max_bytes app scope =
     (if too_large max_bytes scope then ret (problem_response (too_large_problem max_bytes)) else app scope)"

subsection \<open>Every answer is a documented one\<close>

text \<open>What the API answers for each exception it documents, by the exception itself: status and code.\<close>

fun documented :: "py_error \<Rightarrow> (int \<times> string) option" where
  "documented (ApplicationNotFoundError _) = Some (404, ''application_not_found'')"
| "documented (ProductNotFoundError _) = Some (404, ''product_not_found'')"
| "documented (DuplicateRequestError _ _) = Some (409, ''duplicate_request'')"
| "documented (ConcurrencyConflictError _ _ _) = Some (409, ''concurrency_conflict'')"
| "documented (IllegalStateTransitionError _ _) = Some (409, ''illegal_state_transition'')"
| "documented (NoActiveWorkflowError _) = Some (409, ''no_active_workflow'')"
| "documented (ProductRejectedRequestError _ _ _) = Some (422, ''product_rejected_request'')"
| "documented (InvalidApplicationDataError _) = Some (422, ''invalid_application_data'')"
| "documented _ = None"

lemma problem_of_documented:
  "problem_of c e = (case documented e of
     Some (http_status, code) \<Rightarrow>
       \<lparr>pb_type = ''about:blank'', pb_title = error_class e, pb_status = http_status, pb_detail = error_str e,
        pb_code = code, pb_correlation = c, pb_errors = None\<rparr>
   | None \<Rightarrow> unexpected_problem c)"
  by (cases e) (simp_all add: problem_of_def DOMAIN_EXCEPTION_STATUS_def)

lemma problem_is_no_success: "pb_status (problem_of c e) \<noteq> 200"
  by (cases e) (simp_all add: problem_of_documented unexpected_problem_def)

lemma route_never_problem: "route a t key c w = (Inr b, w') \<Longrightarrow> b \<noteq> Problem_Body p"
  by (cases c) (auto simp: route_def create_route_def submit_route_def resubmit_route_def upload_route_def status_route_def
      evidence_route_def decision_route_def started_body_def elim!: bnd_InrE)

text \<open>C35: what a client is told of a request that reaches a route.  A malformed tenant header, being a ValueError, is
  answered with the constant body of status 500; missing headers and invalid fields with 422 and the list of errors,
  and no route runs.  Otherwise the route's value is answered with its success status, and its exception with exactly
  the status and code documented for that exception, under its own name and message, or, for any other exception, with
  the constant body of status 500, which says nothing of what went wrong.  The size limit's 413 and the router's 404
  and 405 are given before a route is reached and are outside.\<close>

theorem api_reports_documented_problems:
  "case (case hr_tenant r of None \<Rightarrow> Inr [] | Some h \<Rightarrow> mk_id TenantId h) of
     Inl _ \<Rightarrow> api_handle a r w = (Inr \<lparr>rsp_status = 500, rsp_body = Problem_Body (unexpected_problem (hr_correlation r))\<rparr>, w)
   | Inr t \<Rightarrow>
       if request_errors r \<noteq> []
       then \<exists>p. api_handle a r w = (Inr \<lparr>rsp_status = 422, rsp_body = Problem_Body p\<rparr>, w) \<and> pb_status p = 422 \<and>
         pb_code p = ''request_validation_failed'' \<and> pb_errors p = Some (request_errors r) \<and> pb_correlation p = hr_correlation r
       else (case route a t (case hr_idempotency_key r of Some k \<Rightarrow> k | None \<Rightarrow> []) (hr_call r) w of
           (Inr b, w') \<Rightarrow> api_handle a r w = (Inr \<lparr>rsp_status = success_status (hr_call r), rsp_body = b\<rparr>, w') \<and>
             b \<notin> range Problem_Body
         | (Inl e, w') \<Rightarrow> (case documented e of
             Some (http_status, code) \<Rightarrow> api_handle a r w = (Inr \<lparr>rsp_status = http_status, rsp_body = Problem_Body
               \<lparr>pb_type = ''about:blank'', pb_title = error_class e, pb_status = http_status, pb_detail = error_str e,
                pb_code = code, pb_correlation = hr_correlation r, pb_errors = None\<rparr>\<rparr>, w')
           | None \<Rightarrow> api_handle a r w =
               (Inr \<lparr>rsp_status = 500, rsp_body = Problem_Body (unexpected_problem (hr_correlation r))\<rparr>, w')))"
proof -
  let ?tenant = "case hr_tenant r of None \<Rightarrow> Inr [] | Some h \<Rightarrow> mk_id TenantId h"
  let ?key = "case hr_idempotency_key r of Some k \<Rightarrow> k | None \<Rightarrow> []"
  have tenant: "(case hr_tenant r of None \<Rightarrow> ret [] | Some h \<Rightarrow> lift_result (get_tenant_id h)) w = (?tenant, w)"
    by (cases "hr_tenant r") (simp_all add: get_tenant_id_def)
  show ?thesis
  proof (cases ?tenant)
    case (Inl e)
    then have "documented e = None" by (auto simp: mk_id_def split: option.splits if_splits)
    with tenant Inl show ?thesis
      by (simp add: api_handle_def try_except_def bnd_run problem_response_def problem_of_documented unexpected_problem_def)
  next
    case (Inr t)
    show ?thesis
    proof (cases "request_errors r = []")
      case False
      with tenant Inr show ?thesis
        by (simp add: api_handle_def try_except_def bnd_run problem_response_def validation_problem_def)
    next
      case True
      obtain b0 w1 where run: "route a t ?key (hr_call r) w = (b0, w1)" by fastforce
      show ?thesis
      proof (cases b0)
        case (Inl e)
        with tenant Inr True run show ?thesis
          by (cases "documented e") (auto simp: api_handle_def try_except_def bnd_run problem_response_def
              problem_of_documented unexpected_problem_def)
      next
        case Success: (Inr b)
        then have "b \<notin> range Problem_Body" using route_never_problem [OF run [unfolded Success]] by auto
        with tenant Inr True run Success show ?thesis by (simp add: api_handle_def try_except_def bnd_run)
      qed
    qed
  qed
qed

subsection \<open>Who may still be decided\<close>

lemma find_row:
  assumes "case_inv d" "r \<in> set (db_applications d)"
  shows "tbl_find ap_id (ap_id r) (visible ap_tenant (ap_tenant r) (db_applications d)) = Some r"
proof -
  have "distinct (map ap_id (visible ap_tenant (ap_tenant r) (db_applications d)))"
    using assms(1) by (simp add: case_inv_def visible_def distinct_map_filter)
  with assms(2) show ?thesis using tbl_find_eq_Some by (fastforce simp: visible_def)
qed

lemma status_of_row:
  assumes "case_inv (w_db w)" "r \<in> set (db_applications (w_db w))" "row_to_application r = Inr c"
  shows "\<exists>w'. get_application_status \<lparr>gs_tenant = ap_tenant r, gs_application = ap_id r\<rparr> w =
    (Inr \<lparr>st_application = app_id c, st_status = app_status c, st_version = app_version c, st_workflow = ap_workflow r\<rparr>, w') \<and>
    w_db w' = w_db w \<and> w_ext w' = w_ext w"
  using find_row [OF assms(1,2)] assms(3) row_to_application_agrees [OF assms(3)]
  by (simp add: get_application_status_def with_uow_def application_get_def get_application_row_def bnd_run aexit_def Let_def)

definition review_request :: "application_row \<Rightarrow> string option \<Rightarrow> decision_request \<Rightarrow> http_request" where
  "review_request r correlation b =
     \<lparr>hr_tenant = Some (ap_tenant r), hr_idempotency_key = None, hr_correlation = correlation,
      hr_call = Post_Review_Decision (ap_id r) b\<rparr>"

text \<open>C25: the decision endpoint reaches a workflow exactly while the case is open.  In every reachable state, a
  well-formed decision for a stored case is signalled, once, to the workflow the case names, if the
  case is submitted and undecided, and answered 200 exactly when the signal was accepted; for any other
  case (a decided one, one sent back, and also an escalated one) it is answered 409 and nothing is
  signalled.\<close>

theorem decision_signalled_while_open:
  assumes "reachable s w" "r \<in> set (db_applications (w_db w))" "row_to_application r = Inr c"
    "rd_decision b \<in> set REVIEW_DECISIONS" "rd_reason b \<noteq> []" "rd_reviewer b \<noteq> []"
  shows "\<exists>rsp w'. api_handle a (review_request r correlation b) w = (Inr rsp, w') \<and> w_db w' = w_db w \<and>
    (if ap_status r \<in> status_value ` open_statuses
     then \<exists>workflow_id. ap_workflow r = Some workflow_id \<and>
       (let call = api_signal a workflow_id \<lparr>rs_decision = rd_decision b, rs_reason = rd_reason b, rs_reviewer = rd_reviewer b\<rparr> (w_ext w)
        in w_ext w' = snd call \<and> (rsp_status rsp = 200 \<longleftrightarrow> fst call = Inr ()))
     else rsp = problem_response (problem_of correlation (NoActiveWorkflowError (ap_id r))) \<and> w_ext w' = w_ext w)"
proof -
  let ?sig = "\<lparr>rs_decision = rd_decision b, rs_reason = rd_reason b, rs_reviewer = rd_reviewer b\<rparr>"
  have ids: "valid_uuid (ap_id r)" "valid_uuid (ap_tenant r)"
    using assms(3) by (auto simp: row_to_application_def bind_result_Inr_iff)
  have open_flow: "ap_workflow r \<noteq> None \<longleftrightarrow> ap_status r \<in> status_value ` open_statuses"
    using reachable_engaged [OF assms(1)] assms(2) by (simp add: engaged_def good_row_def)
  obtain w1 where st: "get_application_status \<lparr>gs_tenant = ap_tenant r, gs_application = ap_id r\<rparr> w =
      (Inr \<lparr>st_application = app_id c, st_status = app_status c, st_version = app_version c, st_workflow = ap_workflow r\<rparr>, w1)"
    "w_db w1 = w_db w" "w_ext w1 = w_ext w"
    using status_of_row [OF reachable_case_inv [OF assms(1)] assms(2,3)] by blast
  have fine: "request_errors (review_request r correlation b) = []"
    using assms(5,6) by (simp add: request_errors_def review_request_def needs_key_def decision_request_errors_def)
  note run = api_handle_def try_except_def bnd_run get_tenant_id_def route_def decision_route_def
  have shape: "hr_tenant (review_request r correlation b) = Some (ap_tenant r)" "hr_correlation (review_request r correlation b) = correlation"
    "hr_call (review_request r correlation b) = Post_Review_Decision (ap_id r) b" by (simp_all add: review_request_def)
  show ?thesis
  proof (cases "ap_workflow r")
    case None
    with fine shape ids st assms(4) open_flow show ?thesis by (simp add: run)
  next
    case (Some f)
    obtain r0 x where call: "api_signal a f ?sig (w_ext w) = (r0, x)" by fastforce
    have tenant: "get_tenant_id (ap_tenant r) = Inr (ap_tenant r)" and mk: "mk_id ApplicationId (ap_id r) = Inr (ap_id r)"
      using ids by (simp_all add: get_tenant_id_def)
    have route: "route a (ap_tenant r) k (Post_Review_Decision (ap_id r) b) w =
        (case r0 of Inl e \<Rightarrow> Inl e | Inr _ \<Rightarrow> Inr (Decision_Body (ap_id r) f (rd_decision b)), w1\<lparr>w_ext := x\<rparr>)" for k
      using st assms(4) Some call mk
      by (cases r0) (simp_all add: route_def decision_route_def bnd_run external_def)
    have body: "api_handle a (review_request r correlation b) w =
        (case r0 of Inl e \<Rightarrow> Inr (problem_response (problem_of correlation e))
         | Inr _ \<Rightarrow> Inr \<lparr>rsp_status = 200, rsp_body = Decision_Body (ap_id r) f (rd_decision b)\<rparr>, w1\<lparr>w_ext := x\<rparr>)"
      using fine shape tenant route
      by (cases r0) (simp_all add: api_handle_def try_except_def bnd_run success_status_def)
    have "w_db (w1\<lparr>w_ext := x\<rparr>) = w_db w" using st by simp
    then show ?thesis
      using body call Some open_flow problem_is_no_success
      by (cases r0) (simp_all add: problem_response_def)
  qed
qed

definition sample_api :: "unit api" where
  "sample_api = \<lparr>api_deployment = sample_deployment, api_signal = (\<lambda>_ _ x. (Inr (), x))\<rparr>"

definition sample_decision :: decision_request where
  "sample_decision = \<lparr>rd_decision = ''APPROVED'', rd_reason = ''income covers the payments'', rd_reviewer = new_id 900\<rparr>"

theorem decision_signalled_while_open_witness:
  "\<exists>w r rsp w'. reachable sample_system w \<and> db_applications (w_db w) = [r] \<and>
    api_handle sample_api (review_request r None sample_decision) w = (Inr rsp, w') \<and> rsp_status rsp = 200"
proof (rule walk_to_review)
  fix w1 w2 w3 w4
  assume walk: "serve sample_deployment (Create sample_create) start_world = (Inr (), w1)"
    "serve sample_deployment (Submit (walk_command ''k2'')) w1 = (Inr (), w2)"
    "serve sample_deployment (Advance_Intake (walk_command ''k3'')) w2 = (Inr (), w3)"
    "serve sample_deployment (Advance_Documents (walk_command ''k4'')) w3 = (Inr (), w4)"
    and there: "case_world AWAITING_HUMAN_REVIEW 5 12 [(''create_application'', ''k1''), (''submit_application'', ''k2''),
       (''advance_intake_validation'', ''k3''), (''advance_document_processing'', ''k4'')] [queued None] w4"
  have w4: "reachable sample_system w4"
    using reachable.step [OF reachable.step [OF reachable.step [OF reachable.step [OF start_reachable
      step_request [OF walk(1)]] step_request [OF walk(2)]] step_request [OF walk(3)]] step_request [OF walk(4)]] .
  from there obtain u f where row: "db_applications (w_db w4) = [walked_row AWAITING_HUMAN_REVIEW 5 u f]"
    by (auto simp: case_world_def)
  let ?r = "walked_row AWAITING_HUMAN_REVIEW 5 u f"
  have decision: "rd_decision sample_decision \<in> set REVIEW_DECISIONS" "rd_reason sample_decision \<noteq> []" "rd_reviewer sample_decision \<noteq> []"
    by (simp_all add: sample_decision_def REVIEW_DECISIONS_def new_id_def format_uuid_def)
  have status: "ap_status ?r \<in> status_value ` open_statuses" by (simp add: walked_row_def open_statuses_def)
  have "?r \<in> set (db_applications (w_db w4))" using row by simp
  from decision_signalled_while_open [OF w4 this walked_row_read decision, where a = sample_api and correlation = None] status
  show ?thesis using w4 row by (auto simp: sample_api_def Let_def)
qed

text \<open>Asking for a case that is not there.\<close>

theorem api_reports_documented_problems_witness:
  "\<exists>w'. api_handle sample_api \<lparr>hr_tenant = Some DEMO_TENANT_ID, hr_idempotency_key = None, hr_correlation = Some ''c1'',
       hr_call = Get_Application (new_id 1)\<rparr> start_world =
     (Inr \<lparr>rsp_status = 404, rsp_body = Problem_Body \<lparr>pb_type = ''about:blank'', pb_title = ''ApplicationNotFoundError'', pb_status = 404,
        pb_detail = error_str (ApplicationNotFoundError (new_id 1)), pb_code = ''application_not_found'',
        pb_correlation = Some ''c1'', pb_errors = None\<rparr>\<rparr>, w')"
proof -
  let ?r = "\<lparr>hr_tenant = Some DEMO_TENANT_ID, hr_idempotency_key = None, hr_correlation = Some ''c1'', hr_call = Get_Application (new_id 1)\<rparr>"
  have tenant: "mk_id TenantId DEMO_TENANT_ID = Inr DEMO_TENANT_ID" "request_errors ?r = []"
    using valid_demo by (simp_all add: request_errors_def needs_key_def)
  obtain w' where "route sample_api DEMO_TENANT_ID [] (Get_Application (new_id 1)) start_world = (Inl (ApplicationNotFoundError (new_id 1)), w')"
    using valid_new_id by (auto simp: route_def status_route_def get_application_status_def with_uow_def bnd_run world_of_def
        application_get_def get_application_row_def visible_def initial_db_def)
  with api_reports_documented_problems [where r = ?r and a = sample_api and w = start_world] tenant show ?thesis by auto
qed

subsection \<open>Declared sizes\<close>

lemma digits_underscores_digits: "s \<noteq> [] \<Longrightarrow> \<forall>c \<in> set s. is_digit c \<Longrightarrow> digits_underscores s"
proof (induction s rule: digits_underscores.induct)
  case (3 c d s)
  have "d \<noteq> CHR ''_''" using 3(4) by (auto simp: is_digit_def)
  with 3 show ?case by simp
qed simp_all

lemma digit_not_space: "is_digit c \<Longrightarrow> \<not> ascii_space c"
  by (auto simp: is_digit_def ascii_space_def)

lemma bytes_strip_digits: "\<forall>c \<in> set s. is_digit c \<Longrightarrow> bytes_strip s = s"
  by (simp add: bytes_strip_def dropWhile_eq_self_iff digit_not_space hd_in_set)
    (metis digit_not_space dropWhile_eq_self_iff hd_in_set list.set_sel(1) rev_rev_ident set_rev)

lemma digit_plain: "is_digit c \<Longrightarrow> c \<noteq> CHR ''_'' \<and> c \<noteq> CHR ''-'' \<and> c \<noteq> CHR ''+''"
  by (auto simp: is_digit_def)

lemma signed_body_digits: "\<forall>c \<in> set s. is_digit c \<Longrightarrow> signed_body s = (1, s)"
  by (cases s) (auto simp: signed_body_def dest: digit_plain)

lemma bytes_to_int_show:
  assumes "n < 10 ^ MAX_STR_DIGITS"
  shows "bytes_to_int (show_nat n) = Some (int n)"
proof -
  note digits = show_nat_digits [of n]
  have plain: "filter (\<lambda>c. c \<noteq> CHR ''_'') (show_nat n) = show_nat n"
    using digits by (simp add: filter_id_conv) (blast dest: digit_plain)
  have "0 < MAX_STR_DIGITS" by (simp add: MAX_STR_DIGITS_def)
  from length_show_nat_le [OF assms this] have short: "length (show_nat n) \<le> MAX_STR_DIGITS" .
  show ?thesis
    using bytes_strip_digits [OF digits] digits_underscores_digits [OF show_nat_ne_Nil digits] plain short
    by (simp add: bytes_to_int_def Let_def signed_body_digits [OF digits])
qed

text \<open>A request that declares a body larger than the limit is answered 413 and never reaches the
  application, and one that declares at most the limit always does, whatever its other headers; of
  several declarations the last counts.\<close>

lemma declared_size_limited:
  assumes "sc_type scope = ''http''" "sc_headers scope = before @ (''content-length'', show_nat n) # after"
    "''content-length'' \<notin> fst ` set after" "n < 10 ^ MAX_STR_DIGITS"
  shows "limit_request_size max_bytes app scope =
    (if max_bytes < n then ret (problem_response (too_large_problem max_bytes)) else app scope)"
proof -
  have "map_of (rev after) ''content-length'' = None"
    using assms(3) by (simp add: map_of_eq_None_iff)
  then have "map_of (rev (sc_headers scope)) ''content-length'' = Some (show_nat n)"
    by (simp add: assms(2) map_add_def)
  with bytes_to_int_show [of n] assms(1,4) show ?thesis
    by (simp add: limit_request_size_def too_large_def)
qed

lemma declared_size_limited_witness:
  "limit_request_size 10000000 (\<lambda>_. ret (problem_response (unexpected_problem None)))
     \<lparr>sc_type = ''http'', sc_headers = [(''host'', ''localhost''), (''content-length'', show_nat 10000001)]\<rparr> =
   (ret (problem_response (too_large_problem 10000000)) :: (unit, response) handler)"
proof -
  have "(10000001 :: nat) < 10 ^ 8" by simp
  also have "\<dots> \<le> 10 ^ MAX_STR_DIGITS" by (rule power_increasing) (simp_all add: MAX_STR_DIGITS_def)
  finally have "(10000001 :: nat) < 10 ^ MAX_STR_DIGITS" .
  then show ?thesis
    by (subst declared_size_limited [where before = "[(''host'', ''localhost'')]" and after = "[]" and n = 10000001]) simp_all
qed

end
