(* ===== verification/Temporal_Client.thy ===== *)
theory Temporal_Client
  imports Workflow
begin

text \<open>
  \<open>infrastructure/temporal/client.py\<close>: the adapter behind the workflow-runner port of the submit and
  resubmit handlers and behind the decision route.  The Temporal service is a parameter.  The
  adapter's own state is whether \<open>ensure_ready\<close> has connected its client.
\<close>

record workflow_options =
  wo_id :: string
  wo_task_queue :: string
  wo_reuse_policy :: string

record 'x temporal =
  tp_connect :: "string \<Rightarrow> string \<Rightarrow> bool \<Rightarrow> 'x \<Rightarrow> (py_error + unit) \<times> 'x"
  tp_list_workflows :: "nat \<Rightarrow> 'x \<Rightarrow> (py_error + unit) \<times> 'x"
  tp_start_workflow :: "workflow_options \<Rightarrow> workflow_input \<Rightarrow> 'x \<Rightarrow> (py_error + unit) \<times> 'x"
  tp_signal :: "string \<Rightarrow> review_signal \<Rightarrow> 'x \<Rightarrow> (py_error + unit) \<times> 'x"

record runner_config =
  rc_target_host :: string
  rc_namespace :: string
  rc_task_queue :: string
  rc_tls :: bool
  rc_sla_seconds :: rat

text \<open>temporalio's \<open>WorkflowAlreadyStartedError\<close>.\<close>

definition already_started :: py_error where
  "already_started = ExternalError ''Workflow execution already started''"

definition require_client :: "bool \<Rightarrow> ('x, unit) call" where
  "require_client ready =
     raise_if (\<not> ready) (RuntimeError ''TemporalWorkflowRunner used before ensure_ready() connected it'')"

text \<open>The new value of \<open>ready\<close>; an exception leaves it as it was.\<close>

definition runner_ensure_ready :: "runner_config \<Rightarrow> 'x temporal \<Rightarrow> ('x, bool) call" where
  "runner_ensure_ready cfg t = bnd (tp_connect t (rc_target_host cfg) (rc_namespace cfg) (rc_tls cfg)) (\<lambda>_. ret True)"

definition runner_check_connectivity :: "'x temporal \<Rightarrow> bool \<Rightarrow> ('x, unit) call" where
  "runner_check_connectivity t ready = bnd (require_client ready) (\<lambda>_. tp_list_workflows t 1)"

definition input_of_start :: "runner_config \<Rightarrow> workflow_start \<Rightarrow> workflow_input" where
  "input_of_start cfg s =
     \<lparr>wi_tenant = ws_tenant s, wi_application = ws_application s, wi_version = ws_version s,
      wi_starting_status = ws_starting_status s, wi_sla_seconds = rc_sla_seconds cfg\<rparr>"

definition start_application_workflow :: "runner_config \<Rightarrow> 'x temporal \<Rightarrow> bool \<Rightarrow> 'x workflow_runner" where
  "start_application_workflow cfg t ready s =
     bnd (require_client ready) (\<lambda>_.
       try_except
         (tp_start_workflow t
            \<lparr>wo_id = ws_workflow s, wo_task_queue = rc_task_queue cfg, wo_reuse_policy = ''REJECT_DUPLICATE''\<rparr>
            (input_of_start cfg s))
         (\<lambda>e. if e = already_started then ret () else raise e))"

definition signal_review_decision :: "'x temporal \<Rightarrow> bool \<Rightarrow> string \<Rightarrow> review_signal \<Rightarrow> ('x, unit) call" where
  "signal_review_decision t ready workflow_id s =
     bnd (require_client ready) (\<lambda>_. tp_signal t workflow_id s)"

subsection \<open>Starting at most once\<close>

text \<open>
  What is relied on of the service, with \<open>started\<close> reading off its state with which input an identifier was
  started: under the reuse policy \<open>REJECT_DUPLICATE\<close> a call starts nothing but its own identifier, and that
  only if it was never started; one that is answered has started it, one that is refused as a duplicate
  has not.  Any call may fail with any other error, be it that it never arrived or that its answer was lost.
\<close>

definition rejects_duplicates :: "'x temporal \<Rightarrow> ('x \<Rightarrow> string \<Rightarrow> workflow_input option) \<Rightarrow> bool" where
  "rejects_duplicates t started \<longleftrightarrow>
     (\<forall>opts i x. wo_reuse_policy opts = ''REJECT_DUPLICATE'' \<longrightarrow>
        (case tp_start_workflow t opts i x of (r, x') \<Rightarrow>
           let begun = started x (wo_id opts) = None \<and> started x' = (started x)(wo_id opts \<mapsto> i) in
           (begun \<or> started x' = started x) \<and> (r = Inr () \<longrightarrow> begun) \<and>
           (r = Inl already_started \<longrightarrow> started x (wo_id opts) \<noteq> None)))"

text \<open>One start, whatever becomes of it.\<close>

lemma start_effect:
  assumes "rejects_duplicates t started" "start_application_workflow cfg t ready s x = (r, x')"
  shows "started x' = started x \<or>
      started x (ws_workflow s) = None \<and> started x' = (started x)(ws_workflow s \<mapsto> input_of_start cfg s)"
    "r = Inr () \<Longrightarrow> started x' (ws_workflow s) \<noteq> None"
proof -
  let ?o = "\<lparr>wo_id = ws_workflow s, wo_task_queue = rc_task_queue cfg, wo_reuse_policy = ''REJECT_DUPLICATE''\<rparr>"
  obtain q y where call: "tp_start_workflow t ?o (input_of_start cfg s) x = (q, y)" by fastforce
  note law = assms(1) [unfolded rejects_duplicates_def, rule_format, of ?o x "input_of_start cfg s", simplified call, simplified, simplified Let_def]
  have "x' = x \<and> r \<noteq> Inr () \<or> x' = y \<and> (r = Inr () \<longrightarrow> q = Inr () \<or> q = Inl already_started)"
    using assms(2) call
    by (cases ready; cases q)
      (auto simp: start_application_workflow_def require_client_def raise_if_def try_except_def bnd_run split: if_splits)
  with law show "started x' = started x \<or>
      started x (ws_workflow s) = None \<and> started x' = (started x)(ws_workflow s \<mapsto> input_of_start cfg s)"
    "r = Inr () \<Longrightarrow> started x' (ws_workflow s) \<noteq> None"
    by (auto dest: fun_cong [of _ _ "ws_workflow s"])
qed

lemma start_disconnected:
  "start_application_workflow cfg t False s x =
     (Inl (RuntimeError ''TemporalWorkflowRunner used before ensure_ready() connected it''), x)"
  by (simp add: start_application_workflow_def require_client_def bnd_run)

lemma silent_move_and_attach [silent_intros]: "silent (move_and_attach env op move c)"
  unfolding move_and_attach_def Let_def application_save_def get_application_row_def publish_def pull_events_def prod.case
  by (intro silent_intros)

lemma reads_move_and_attach:
  assumes "move_and_attach env op move c w = (Inr y, w')" "case_inv (w_sess w)"
    "\<And>now a b. move now a = Inr b \<Longrightarrow> next_version a b \<and> app_created_at b = app_created_at a \<and> app_status b = s"
  shows "reads w' y" "app_tenant y = c_tenant c" "app_id y = c_application c" "app_status y = s"
    "app_workflow y = Some (application_workflow_id (c_tenant c) (c_application c) (app_version y))"
proof -
  let ?attach = "\<lambda>b. attach_workflow (application_workflow_id (c_tenant c) (c_application c) (app_version b)) b"
  from assms(1) obtain w1 w2 a b w4 where st: "reserve_or_raise env (c_tenant c) (c_key c) op w = (Inr (), w1)"
    "load_application (c_tenant c) (c_application c) w1 = (Inr a, w2)" "move (e_clock env (w_clk w2)) a = Inr b"
    "application_save env (?attach b) (w2\<lparr>w_clk := w_clk w2 + 1\<rparr>) = (Inr (), w4)" "publish env (?attach b) w4 = (Inr y, w')"
    unfolding move_and_attach_def Let_def by (auto elim!: bnd_InrE at_now_InrE)
  have "case_inv (w_sess w1)" using reserve_case [OF st(1)] assms(2) by simp
  note load = reads_load [OF st(2) this]
  note moved = assms(3) [OF st(3)]
  from moved have attached: "next_version a (?attach b)" "app_created_at (?attach b) = app_created_at a"
    by (auto simp: next_version_def attach_workflow_def)
  from load(1) have "reads (w2\<lparr>w_clk := w_clk w2 + 1\<rparr>) a" by simp
  note saved = reads_save [OF st(4) this attached]
  have y: "y = (?attach b)\<lparr>app_pending := []\<rparr>"
    using st(5) by (auto simp: publish_def pull_events_def elim!: bnd_InrE)
  show "reads w' y" using reads_publish(1) [OF st(5) saved] .
  show "app_tenant y = c_tenant c" "app_id y = c_application c" "app_status y = s"
    "app_workflow y = Some (application_workflow_id (c_tenant c) (c_application c) (app_version y))"
    using y moved load(2,3) by (auto simp: next_version_def attach_workflow_def)
qed

lemma start_after_effect:
  assumes "rejects_duplicates t started" "start_after (Some (start_application_workflow cfg t ready)) s c a w = (Inr r, w')"
    "f = application_workflow_id (c_tenant c) (c_application c) (app_version a)"
    "start = \<lparr>ws_workflow = f, ws_tenant = c_tenant c, ws_application = c_application c, ws_version = app_version a,
       ws_starting_status = status_value s\<rparr>"
  shows "res_workflow r = Some f" "res_version r = app_version a" "res_status r = app_status a" "w_db w' = w_db w"
    "started (w_ext w') = started (w_ext w) \<or>
      started (w_ext w) f = None \<and> started (w_ext w') = (started (w_ext w))(f \<mapsto> input_of_start cfg start)"
    "fst (start_application_workflow cfg t ready start (w_ext w)) = Inr () \<Longrightarrow> started (w_ext w') f \<noteq> None"
proof -
  obtain q x' where call: "start_application_workflow cfg t ready start (w_ext w) = (q, x')"
    by (rule that [OF prod.collapse [symmetric]])
  then have run: "r = case_result.extend (result_of a) \<lparr>res_workflow = Some f\<rparr>" "w' = w\<lparr>w_ext := x'\<rparr>"
    using assms(2) unfolding assms(3,4)
    by (cases q; auto simp: start_after_def start_best_effort_def Let_def external_def try_except_def bnd_run)+
  show "res_workflow r = Some f" "res_version r = app_version a" "res_status r = app_status a" "w_db w' = w_db w"
    using run by (simp_all add: case_result.defs result_of_def)
  have "ws_workflow start = f" by (simp add: assms(4))
  with start_effect [OF assms(1) call] call run(2)
  show "started (w_ext w') = started (w_ext w) \<or>
      started (w_ext w) f = None \<and> started (w_ext w') = (started (w_ext w))(f \<mapsto> input_of_start cfg start)"
    "fst (start_application_workflow cfg t ready start (w_ext w)) = Inr () \<Longrightarrow> started (w_ext w') f \<noteq> None"
    by auto
qed

lemma silent_transaction: "silent m \<Longrightarrow> silent (transaction t m)"
  unfolding stays_def transaction_def
proof
  fix w assume m: "\<forall>w. w_ext (snd (m w)) = w_ext w"
  from m [rule_format, of "aenter t w"] show "w_ext (snd (with_uow t (bnd m (\<lambda>r. bnd commit (\<lambda>_. ret r))) w)) = w_ext w"
    by (auto simp: with_uow_def aexit_def Let_def bnd_def commit_def split: prod.splits sum.splits)
qed

text \<open>C17: what a submission does to the workflow service.  A submission that raises starts nothing.  One that
  succeeds returns the identifier under which the case reads back as submitted; starting that workflow is a
  best effort: of all workflows at most this one is started, with the case's tenant, identifier and version
  and only if it never was, and it is started for certain if the runner's call returns.  If the client is not
  connected or the call fails, the submission succeeds all the same.\<close>

theorem submit_starts_its_workflow:
  assumes "rejects_duplicates t started" "case_inv (w_db w)"
    "submit_application env (Some (start_application_workflow cfg t ready)) c w = (res, w')"
  shows "case res of
      Inl e \<Rightarrow> w_db w' = w_db w \<and> started (w_ext w') = started (w_ext w)
    | Inr r \<Rightarrow> \<exists>f w''. res_workflow r = Some f \<and>
        get_application_status \<lparr>gs_tenant = c_tenant c, gs_application = c_application c\<rparr> w' =
          (Inr \<lparr>st_application = c_application c, st_status = SUBMITTED, st_version = res_version r, st_workflow = Some f\<rparr>, w'') \<and>
        (started (w_ext w') = started (w_ext w) \<or>
         started (w_ext w) f = None \<and>
         started (w_ext w') = (started (w_ext w))(f \<mapsto> \<lparr>wi_tenant = c_tenant c, wi_application = c_application c,
           wi_version = res_version r, wi_starting_status = ''SUBMITTED'', wi_sla_seconds = rc_sla_seconds cfg\<rparr>)) \<and>
        (fst (start_application_workflow cfg t ready
            \<lparr>ws_workflow = f, ws_tenant = c_tenant c, ws_application = c_application c, ws_version = res_version r,
             ws_starting_status = ''SUBMITTED''\<rparr> (w_ext w)) = Inr () \<longrightarrow> started (w_ext w') f \<noteq> None)"
proof -
  obtain r0 w0 where q: "transaction (c_tenant c) (move_and_attach env ''submit_application'' submit c) w = (r0, w0)"
    by (rule that [OF prod.collapse [symmetric]])
  have ext: "w_ext w0 = w_ext w" using staysD [OF silent_transaction [OF silent_move_and_attach] q] .
  show ?thesis
  proof (cases r0)
    case (Inl e)
    with q assms(3) have "res = Inl e" "w' = w0" by (auto simp: submit_application_def bnd_run)
    with transaction_error [OF _ q [unfolded Inl]] ext show ?thesis by (simp add: quiet_bodies)
  next
    case (Inr a)
    obtain r where s: "start_after (Some (start_application_workflow cfg t ready)) SUBMITTED c a w0 = (Inr r, w')" "res = Inr r"
      using start_after_db [of "Some (start_application_workflow cfg t ready)" SUBMITTED c a w0] q assms(3) Inr
      by (auto simp: submit_application_def bnd_run)
    from q [unfolded Inr] obtain w1 where w1: "move_and_attach env ''submit_application'' submit c (aenter (c_tenant c) w) = (Inr a, w1)"
      "w_db w0 = w_sess w1" by (rule transaction_success)
    have move: "submit now x = Inr b \<Longrightarrow> next_version x b \<and> app_created_at b = app_created_at x \<and> app_status b = SUBMITTED" for now x b
      by (auto simp: submit_def next_version_def transition_to_Inr_iff)
    have "case_inv (w_sess (aenter (c_tenant c) w))" using assms(2) by simp
    note moved = reads_move_and_attach [OF w1(1) this move]
    note after = start_after_effect [OF assms(1) s(1) refl refl]
    have "case_inv (w_db w')" "loaded a (w_db w')" using moved(1) after(4) w1(2) by (simp_all add: reads_def)
    from status_of_loaded [OF this] obtain w'' where "get_application_status \<lparr>gs_tenant = c_tenant c, gs_application = c_application c\<rparr> w' =
        (Inr \<lparr>st_application = c_application c, st_status = SUBMITTED, st_version = res_version r, st_workflow = res_workflow r\<rparr>, w'')"
      using moved after(1,2) by auto
    with moved after s(2) show ?thesis by (simp add: ext input_of_start_def)
  qed
qed

text \<open>A service that is its own table of started workflows.\<close>

definition sample_temporal :: "(string \<Rightarrow> workflow_input option) temporal" where
  "sample_temporal =
     \<lparr>tp_connect = (\<lambda>_ _ _ x. (Inr (), x)), tp_list_workflows = (\<lambda>_ x. (Inr (), x)),
      tp_start_workflow = (\<lambda>opts i x. if x (wo_id opts) = None then (Inr (), x(wo_id opts \<mapsto> i)) else (Inl already_started, x)),
      tp_signal = (\<lambda>_ _ x. (Inr (), x))\<rparr>"

definition sample_runner :: runner_config where
  "sample_runner =
     \<lparr>rc_target_host = ''localhost:7233'', rc_namespace = ''default'', rc_task_queue = ''finassist-applications'',
      rc_tls = False, rc_sla_seconds = 2592000\<rparr>"

lemma sample_temporal_rejects: "rejects_duplicates sample_temporal (\<lambda>x. x)"
  by (simp add: rejects_duplicates_def sample_temporal_def already_started_def)

lemma draft_submits:
  assumes "case_world DRAFT 1 4 ops [] w" "(''submit_application'', k) \<notin> set ops"
  shows "\<exists>a w'. transaction DEMO_TENANT_ID (move_and_attach sample_env ''submit_application'' submit (walk_command k)) w = (Inr a, w')"
proof (cases rule: case_worldE [OF assms(1) _ assms(2)])
  case (2 updated flow h)
  note fresh = 2(13-15) [of 4] 2(13-15) [of 5] 2(16,17)
  show ?thesis
    using valid_demo 2(1-9) fresh
    by (simp add: walk_simps move_and_attach_def submit_def attach_workflow_def) (simp add: walked_row_def)
qed simp

theorem submit_starts_its_workflow_witness:
  "\<exists>w r w' f. submit_application sample_env (Some (start_application_workflow sample_runner sample_temporal True))
      (walk_command ''k2'') w = (Inr r, w') \<and> res_workflow r = Some f \<and> w_ext w = Map.empty \<and>
    w_ext w' = [f \<mapsto> \<lparr>wi_tenant = DEMO_TENANT_ID, wi_application = new_id 1, wi_version = res_version r,
      wi_starting_status = ''SUBMITTED'', wi_sla_seconds = 2592000\<rparr>]"
proof -
  obtain w1 where w1: "serve sample_deployment (Create sample_create) start_world = (Inr (), w1)"
    "case_world DRAFT 1 4 [(''create_application'', ''k1'')] [] w1" using created by blast
  let ?run = "Some (start_application_workflow sample_runner sample_temporal True)"
  define w where "w = \<lparr>w_db = w_db w1, w_sess = w_db w1, w_scope = [], w_done = False, w_ids = w_ids w1, w_clk = w_clk w1,
    w_ext = (Map.empty :: string \<Rightarrow> workflow_input option)\<rparr>"
  have "case_world DRAFT 1 4 [(''create_application'', ''k1'')] [] w" using w1(2) by (simp add: case_world_def w_def)
  from draft_submits [OF this, of "''k2''"] obtain a w0 where
    moved: "transaction DEMO_TENANT_ID (move_and_attach sample_env ''submit_application'' submit (walk_command ''k2'')) w = (Inr a, w0)"
    by auto
  obtain r w' where "start_after ?run SUBMITTED (walk_command ''k2'') a w0 = (Inr r, w')" using start_after_db by blast
  with moved have run: "submit_application sample_env ?run (walk_command ''k2'') w = (Inr r, w')"
    by (simp add: submit_application_def walk_command_def bnd_run)
  have "case_inv (w_db w)"
    using reachable_case_inv [OF reachable.step [OF start_reachable step_request [OF w1(1)]]] by (simp add: w_def)
  note starts = submit_starts_its_workflow [OF sample_temporal_rejects this run, unfolded sum.case]
  have answered: "fst (start_application_workflow sample_runner sample_temporal True start (w_ext w)) = Inr ()" for start
    by (simp add: start_application_workflow_def require_client_def raise_if_def try_except_def bnd_run sample_temporal_def w_def)
  from starts obtain f where "res_workflow r = Some f" "w_ext w' f \<noteq> None"
    "w_ext w' = w_ext w \<or> w_ext w' = (w_ext w)(f \<mapsto> \<lparr>wi_tenant = DEMO_TENANT_ID, wi_application = new_id 1,
       wi_version = res_version r, wi_starting_status = ''SUBMITTED'', wi_sla_seconds = rc_sla_seconds sample_runner\<rparr>)"
    using answered by (auto simp: walk_command_def)
  with run show ?thesis by (intro exI [of _ w] exI) (auto simp: w_def sample_runner_def)
qed

end
