(* ===== verification/External_Clients.thy ===== *)
theory External_Clients
  imports Verification
begin

text \<open>
  The four HTTP adapters of \<open>infrastructure/external_systems\<close> behind the verification ports.  The HTTP
  client (httpx) is a parameter: a request carries the adapter's base URL and timeout, and is
  answered with a status and whatever the body decodes to, or raises.  Bodies are decoded JSON.
\<close>

datatype http_value =
    HNull
  | HBool bool
  | HInt int
  | HFloat rat
  | HStr string
  | HList "http_value list"
  | HDict "(string \<times> http_value) list"

record http_reply =
  rp_status :: int
  rp_json :: "py_error + http_value"

record http_endpoint =
  ep_base_url :: string
  ep_timeout :: rat

record 'x http =
  hc_get :: "http_endpoint \<Rightarrow> string \<Rightarrow> 'x \<Rightarrow> (py_error + http_reply) \<times> 'x"
  hc_post :: "http_endpoint \<Rightarrow> string \<Rightarrow> http_value \<Rightarrow> 'x \<Rightarrow> (py_error + http_reply) \<times> 'x"

text \<open>\<open>raise_for_status\<close> accepts the 2xx answers only.\<close>

definition raise_for_status :: "http_reply \<Rightarrow> py_error + unit" where
  "raise_for_status r = (if 200 \<le> rp_status r \<and> rp_status r < 300 then Inr () else Inl (HTTPStatusError (rp_status r)))"

subsection \<open>Reading a body\<close>

text \<open>\<open>body[key]\<close>.  Python does not check the type of the value it finds; an answer of another type than
  the port's dataclass declares is an error here.\<close>

definition ill_typed :: "py_error + 'a" where
  "ill_typed = Inl (ExternalError ''ill-typed answer'')"

definition item :: "http_value \<Rightarrow> string \<Rightarrow> py_error + http_value" where
  "item body k = (case body of
       HDict m \<Rightarrow> (case map_of m k of None \<Rightarrow> Inl (KeyError k) | Some v \<Rightarrow> Inr v)
     | _ \<Rightarrow> ill_typed)"

definition as_str :: "http_value \<Rightarrow> py_error + string" where
  "as_str v = (case v of HStr s \<Rightarrow> Inr s | _ \<Rightarrow> ill_typed)"

definition as_bool :: "http_value \<Rightarrow> py_error + bool" where
  "as_bool v = (case v of HBool b \<Rightarrow> Inr b | _ \<Rightarrow> ill_typed)"

definition as_int :: "http_value \<Rightarrow> py_error + int" where
  "as_int v = (case v of HInt i \<Rightarrow> Inr i | _ \<Rightarrow> ill_typed)"

definition as_float :: "http_value \<Rightarrow> py_error + rat" where
  "as_float v = (case v of HFloat r \<Rightarrow> Inr r | HInt i \<Rightarrow> Inr (of_int i) | _ \<Rightarrow> ill_typed)"

definition as_list :: "http_value \<Rightarrow> py_error + http_value list" where
  "as_list v = (case v of HList xs \<Rightarrow> Inr xs | _ \<Rightarrow> ill_typed)"

fun each :: "('a \<Rightarrow> py_error + 'b) \<Rightarrow> 'a list \<Rightarrow> py_error + 'b list" where
  "each f [] = Inr []"
| "each f (x # xs) = bind_result (f x) (\<lambda>y. bind_result (each f xs) (\<lambda>ys. Inr (y # ys)))"

lemma each_map: "(\<And>x. x \<in> set xs \<Longrightarrow> f (g x) = Inr x) \<Longrightarrow> each f (map g xs) = Inr xs"
  by (induction xs) simp_all

text \<open>\<open>datetime.fromisoformat\<close> also reads a final \<open>Z\<close> as the offset \<open>+00:00\<close>.\<close>

definition fromisoformat_z :: "string \<Rightarrow> py_error + datetime" where
  "fromisoformat_z s =
     (if s \<noteq> [] \<and> last s = CHR ''Z'' then fromisoformat (butlast s @ ''+00:00'') else fromisoformat s)"

definition as_datetime :: "http_value \<Rightarrow> py_error + datetime" where
  "as_datetime v = bind_result (as_str v) fromisoformat_z"

definition decode_kyc :: "http_value \<Rightarrow> py_error + kyc_result" where
  "decode_kyc body =
     bind_result (bind_result (item body ''status'') as_str) (\<lambda>status.
     bind_result (bind_result (item body ''name_match_score'') as_float) (\<lambda>name_score.
     bind_result (bind_result (item body ''address_match_score'') as_float) (\<lambda>address_score.
     bind_result (bind_result (item body ''date_of_birth_match'') as_bool) (\<lambda>birth.
     bind_result (bind_result (item body ''reference_id'') as_str) (\<lambda>reference.
       Inr \<lparr>kyc_status = status, kyc_name_score = name_score, kyc_address_score = address_score,
            kyc_birth_match = birth, kyc_reference = reference\<rparr>)))))"

definition decode_employment :: "http_value \<Rightarrow> py_error + employment_result" where
  "decode_employment body =
     bind_result (bind_result (item body ''is_employment_confirmed'') as_bool) (\<lambda>confirmed.
     bind_result (bind_result (item body ''verified_annual_income'') as_int) (\<lambda>income.
     bind_result (bind_result (item body ''tenure_months'') as_int) (\<lambda>tenure.
       Inr \<lparr>emp_confirmed = confirmed, emp_income = income, emp_tenure = tenure\<rparr>)))"

definition decode_tradeline :: "http_value \<Rightarrow> py_error + tradeline" where
  "decode_tradeline t =
     bind_result (bind_result (item t ''account_type'') as_str) (\<lambda>account_type.
     bind_result (bind_result (item t ''opened_years_ago'') as_int) (\<lambda>opened.
     bind_result (bind_result (item t ''balance'') as_int) (\<lambda>balance.
     bind_result (bind_result (item t ''credit_limit'') as_int) (\<lambda>credit_limit.
     bind_result (bind_result (item t ''is_delinquent'') as_bool) (\<lambda>delinquent.
       Inr \<lparr>tl_account_type = account_type, tl_opened_years_ago = opened, tl_balance = balance,
            tl_credit_limit = credit_limit, tl_delinquent = delinquent\<rparr>)))))"

definition decode_credit_report :: "http_value \<Rightarrow> py_error + credit_report" where
  "decode_credit_report body =
     bind_result (bind_result (item body ''credit_score'') as_int) (\<lambda>score.
     bind_result (bind_result (bind_result (item body ''tradelines'') as_list) (each decode_tradeline)) (\<lambda>tradelines.
     bind_result (bind_result (item body ''hard_inquiries_last_12_months'') as_int) (\<lambda>inquiries.
     bind_result (bind_result (item body ''is_duplicate_identity_flag'') as_bool) (\<lambda>duplicate.
       Inr \<lparr>crr_score = score, crr_tradelines = tradelines, crr_inquiries = inquiries, crr_duplicate_flag = duplicate\<rparr>))))"

definition decode_transaction :: "http_value \<Rightarrow> py_error + bank_transaction" where
  "decode_transaction t =
     bind_result (bind_result (item t ''occurred_at'') as_datetime) (\<lambda>occurred_at.
     bind_result (bind_result (item t ''amount_cents'') as_int) (\<lambda>amount.
     bind_result (bind_result (item t ''description'') as_str) (\<lambda>description.
       Inr \<lparr>tx_occurred_at = occurred_at, tx_amount_cents = amount, tx_description = description\<rparr>)))"

definition decode_history :: "http_value \<Rightarrow> py_error + transaction_history" where
  "decode_history body =
     bind_result (bind_result (item body ''average_daily_balance_cents'') as_int) (\<lambda>balance.
     bind_result (bind_result (item body ''nsf_count_last_90_days'') as_int) (\<lambda>nsf.
     bind_result (bind_result (bind_result (item body ''recent_transactions'') as_list) (each decode_transaction)) (\<lambda>transactions.
       Inr \<lparr>th_average_balance = balance, th_nsf_count = nsf, th_transactions = transactions\<rparr>)))"

subsection \<open>The adapters\<close>

definition ask :: "'x http \<Rightarrow> http_endpoint \<Rightarrow> string \<Rightarrow> (http_value \<Rightarrow> py_error + 'a) \<Rightarrow> http_value \<Rightarrow> ('x, 'a) call" where
  "ask http ep path decode payload =
     bnd (hc_post http ep path payload) (\<lambda>response.
     bnd (lift_result (raise_for_status response)) (\<lambda>_.
     bnd (lift_result (rp_json response)) (\<lambda>body. lift_result (decode body))))"

definition check_live :: "'x http \<Rightarrow> http_endpoint \<Rightarrow> ('x, unit) call" where
  "check_live http ep = bnd (hc_get http ep ''/health/live'') (\<lambda>response. lift_result (raise_for_status response))"

definition verify_identity ::
  "'x http \<Rightarrow> http_endpoint \<Rightarrow> string \<Rightarrow> string \<Rightarrow> date \<Rightarrow> string \<Rightarrow> string \<Rightarrow> string \<Rightarrow> ('x, kyc_result) call" where
  "verify_identity http ep given_name family_name date_of_birth synthetic_id street_address city =
     ask http ep ''/verify'' decode_kyc
       (HDict [(''given_name'', HStr given_name), (''family_name'', HStr family_name),
         (''date_of_birth'', HStr (date_isoformat date_of_birth)), (''synthetic_id'', HStr synthetic_id),
         (''street_address'', HStr street_address), (''city'', HStr city)])"

definition verify_employment ::
  "'x http \<Rightarrow> http_endpoint \<Rightarrow> string \<Rightarrow> string \<Rightarrow> string \<Rightarrow> string \<Rightarrow> int \<Rightarrow> ('x, employment_result) call" where
  "verify_employment http ep given_name family_name synthetic_id employer_name declared_annual_income =
     ask http ep ''/verify-employment'' decode_employment
       (HDict [(''given_name'', HStr given_name), (''family_name'', HStr family_name), (''synthetic_id'', HStr synthetic_id),
         (''employer_name'', HStr employer_name), (''declared_annual_income'', HInt declared_annual_income)])"

definition get_credit_report ::
  "'x http \<Rightarrow> http_endpoint \<Rightarrow> string \<Rightarrow> string \<Rightarrow> date \<Rightarrow> string \<Rightarrow> ('x, credit_report) call" where
  "get_credit_report http ep given_name family_name date_of_birth synthetic_id =
     ask http ep ''/credit-report'' decode_credit_report
       (HDict [(''given_name'', HStr given_name), (''family_name'', HStr family_name),
         (''date_of_birth'', HStr (date_isoformat date_of_birth)), (''synthetic_id'', HStr synthetic_id)])"

definition get_transaction_history ::
  "'x http \<Rightarrow> http_endpoint \<Rightarrow> string \<Rightarrow> string \<Rightarrow> string \<Rightarrow> int \<Rightarrow> ('x, transaction_history) call" where
  "get_transaction_history http ep given_name family_name synthetic_id declared_annual_income =
     ask http ep ''/transaction-history'' decode_history
       (HDict [(''given_name'', HStr given_name), (''family_name'', HStr family_name), (''synthetic_id'', HStr synthetic_id),
         (''declared_annual_income'', HInt declared_annual_income)])"

end
