(* ===== verification/Composition.thy ===== *)
theory Composition
  imports Bootstrap
begin

text \<open>
  The composition root: \<open>build_container\<close> of \<open>bootstrap/container.py\<close>, the lifespan of \<open>api/app.py\<close> and
  \<open>/health/ready\<close> of \<open>api/routes/health.py\<close>.  What the process talks to is a record of parameters;
  the container turns it and the settings into the deployment the handlers of \<open>Commands\<close> and the
  routes of \<open>Api\<close> run on.
\<close>

subsection \<open>The container\<close>

record engine_config =
  en_url :: string
  en_pool_size :: int
  en_max_overflow :: int
  en_command_timeout :: rat
  en_statement_timeout :: string

record object_store_config =
  os_access_key :: string
  os_secret_key :: string
  os_endpoint_url :: string
  os_bucket :: string
  os_use_ssl :: bool
  os_timeout :: rat

text \<open>The services of the outside world: the database's connectivity probe, boto3's client for a
  configuration, Temporal, HTTP, the PDF reader, the clock with the random identifiers, and the
  process's performance counter.\<close>

record 'x services =
  sv_env :: env
  sv_database_probe :: "engine_config \<Rightarrow> 'x \<Rightarrow> (py_error + unit) \<times> 'x"
  sv_s3 :: "object_store_config \<Rightarrow> 'x s3_client"
  sv_temporal :: "'x temporal"
  sv_http :: "'x http"
  sv_reader :: pdf_reader
  sv_perf_counter :: "'x \<Rightarrow> rat \<times> 'x"

record 'x container =
  ctr_settings :: settings
  ctr_secret_provider :: secret_provider
  ctr_authorization :: authorization_provider
  ctr_exporter :: "span_exporter option"
  ctr_engine :: engine_config
  ctr_env :: env
  ctr_s3 :: "'x s3_client"
  ctr_runner :: runner_config
  ctr_ports :: "'x document_ports"
  ctr_kyc :: http_endpoint
  ctr_employer :: http_endpoint
  ctr_bureau :: http_endpoint
  ctr_core_banking :: http_endpoint

definition build_engine :: "settings \<Rightarrow> engine_config" where
  "build_engine s =
     \<lparr>en_url = set_database_url s, en_pool_size = set_database_pool_min_size s,
      en_max_overflow = max (set_database_pool_max_size s - set_database_pool_min_size s) 0,
      en_command_timeout = set_database_statement_timeout s,
      en_statement_timeout = show_int \<lfloor>fl (set_database_statement_timeout s * 1000)\<rfloor>\<rparr>"

definition build_object_store :: "settings \<Rightarrow> object_store_config" where
  "build_object_store s =
     \<lparr>os_access_key = set_object_store_access_key s, os_secret_key = set_object_store_secret_key s,
      os_endpoint_url = set_object_store_endpoint_url s, os_bucket = set_object_store_bucket s,
      os_use_ssl = set_object_store_use_ssl s, os_timeout = set_object_store_timeout s\<rparr>"

definition build_workflow_runner :: "settings \<Rightarrow> runner_config" where
  "build_workflow_runner s =
     \<lparr>rc_target_host = set_temporal_host s @ '':'' @ show_int (set_temporal_port s),
      rc_namespace = set_temporal_namespace s, rc_task_queue = set_temporal_task_queue s,
      rc_tls = set_temporal_tls_enabled s, rc_sla_seconds = set_temporal_sla_seconds s\<rparr>"

definition build_ports :: "'x services \<Rightarrow> settings \<Rightarrow> 'x document_ports" where
  "build_ports sv s =
     \<lparr>dp_s3 = sv_s3 sv (build_object_store s), dp_reader = sv_reader sv,
      dp_max_size = nat (set_document_max_size_bytes s), dp_max_pages = nat (set_document_max_pages s),
      dp_classify = classify, dp_extract = extract_facts\<rparr>"

definition build_container :: "'x services \<Rightarrow> settings \<Rightarrow> startup_error + 'x container" where
  "build_container sv s =
     (case build_secret_provider s of Inl e \<Rightarrow> Inl e | Inr secrets \<Rightarrow>
      (case build_authorization_provider s of Inl e \<Rightarrow> Inl e | Inr authorization \<Rightarrow>
        Inr \<lparr>ctr_settings = s, ctr_secret_provider = secrets, ctr_authorization = authorization,
             ctr_exporter = configure_telemetry s, ctr_engine = build_engine s, ctr_env = sv_env sv,
             ctr_s3 = sv_s3 sv (build_object_store s), ctr_runner = build_workflow_runner s, ctr_ports = build_ports sv s,
             ctr_kyc = \<lparr>ep_base_url = set_mock_kyc_base_url s, ep_timeout = set_document_timeout s\<rparr>,
             ctr_employer = \<lparr>ep_base_url = set_mock_employer_base_url s, ep_timeout = set_document_timeout s\<rparr>,
             ctr_bureau = \<lparr>ep_base_url = set_mock_bureau_base_url s, ep_timeout = set_document_timeout s\<rparr>,
             ctr_core_banking = \<lparr>ep_base_url = set_mock_core_banking_base_url s, ep_timeout = set_document_timeout s\<rparr>\<rparr>))"

text \<open>The adapters as the handlers receive them; \<open>ready\<close> is the state of the workflow client.\<close>

definition verifiers_of :: "'x services \<Rightarrow> 'x container \<Rightarrow> 'x verifiers" where
  "verifiers_of sv c =
     \<lparr>vf_kyc = verify_identity (sv_http sv) (ctr_kyc c), vf_employer = verify_employment (sv_http sv) (ctr_employer c),
      vf_bureau = get_credit_report (sv_http sv) (ctr_bureau c),
      vf_bank = get_transaction_history (sv_http sv) (ctr_core_banking c)\<rparr>"

definition deployment_of :: "'x services \<Rightarrow> bool \<Rightarrow> 'x container \<Rightarrow> 'x deployment" where
  "deployment_of sv ready c =
     \<lparr>dep_env = ctr_env c, dep_ports = ctr_ports c, dep_verifiers = verifiers_of sv c,
      dep_runner = Some (start_application_workflow (ctr_runner c) (sv_temporal sv) ready)\<rparr>"

definition api_of :: "'x services \<Rightarrow> bool \<Rightarrow> 'x container \<Rightarrow> 'x api" where
  "api_of sv ready c =
     \<lparr>api_deployment = deployment_of sv ready c, api_signal = signal_review_decision (sv_temporal sv) ready\<rparr>"

subsection \<open>Starting\<close>

text \<open>The lifespan after the container is built: neither service being down stops the process.\<close>

definition lifespan :: "'x services \<Rightarrow> 'x container \<Rightarrow> ('x, bool) call" where
  "lifespan sv c =
     bnd (try_except (ensure_ready (ctr_s3 c)) (\<lambda>_. ret ())) (\<lambda>_.
     try_except (runner_ensure_ready (ctr_runner c) (sv_temporal sv)) (\<lambda>_. ret False))"

definition start_process :: "'x services \<Rightarrow> settings \<Rightarrow> 'x \<Rightarrow> (startup_error + 'x container \<times> bool) \<times> 'x" where
  "start_process sv s x =
     (case construct_settings s of Inl e \<Rightarrow> (Inl e, x) | Inr s' \<Rightarrow>
      (case build_container sv s' of Inl e \<Rightarrow> (Inl e, x) | Inr c \<Rightarrow>
        (case lifespan sv c x of (Inl _, x') \<Rightarrow> (Inr (c, False), x') | (Inr ready, x') \<Rightarrow> (Inr (c, ready), x'))))"

definition serve_http :: "'x services \<Rightarrow> 'x container \<Rightarrow> bool \<Rightarrow> http_request \<Rightarrow> asgi_scope \<Rightarrow> ('x, response) handler" where
  "serve_http sv c ready r =
     limit_request_size (nat (set_request_body_max_bytes (ctr_settings c))) (\<lambda>_. api_handle (api_of sv ready c) r)"

lemma lifespan_starts: "\<exists>ready x'. lifespan sv c x = (Inr ready, x')"
  by (auto simp: lifespan_def try_except_def bnd_def split: prod.splits sum.splits)

lemma construct_settings_Inr:
  "construct_settings s = Inr s' \<longleftrightarrow> s' = s \<and> settings_field_errors s = [] \<and> production_constraints s = None"
  by (auto simp: construct_settings_def split: option.splits)

lemma build_container_Inr:
  "(\<exists>c. build_container sv s = Inr c) \<longleftrightarrow> set_secret_provider s = ENV \<and> set_environment s \<noteq> PRODUCTION"
  by (auto simp: build_container_def build_secret_provider_def build_authorization_provider_def)

text \<open>Which processes start.  A process starts exactly when every field of its settings is within its
  declared bound, its environment is not production and its secrets come from the environment; the
  outside world being down never stops it.  So no production process starts, whatever its settings.\<close>

theorem process_starts_iff:
  "(\<exists>c ready x'. start_process sv s x = (Inr (c, ready), x')) \<longleftrightarrow>
     settings_field_errors s = [] \<and> set_environment s \<noteq> PRODUCTION \<and> set_secret_provider s = ENV"
proof -
  have "(\<exists>c ready x'. start_process sv s x = (Inr (c, ready), x')) \<longleftrightarrow>
      construct_settings s = Inr s \<and> (\<exists>c. build_container sv s = Inr c)"
  proof (cases "construct_settings s = Inr s")
    case True
    have "(\<exists>ready x'. start_process sv s x = (Inr (c, ready), x')) \<longleftrightarrow> build_container sv s = Inr c" for c
      using lifespan_starts [of sv c x] True by (auto simp: start_process_def split: sum.splits prod.splits)
    with True show ?thesis by blast
  next
    case False
    then show ?thesis by (auto simp: start_process_def construct_settings_Inr split: sum.splits)
  qed
  also have "\<dots> \<longleftrightarrow> settings_field_errors s = [] \<and> set_environment s \<noteq> PRODUCTION \<and> set_secret_provider s = ENV"
    unfolding construct_settings_Inr build_container_Inr by (auto simp: production_constraints_def)
  finally show ?thesis .
qed

end
