(* ===== verification/Interleaving.thy ===== *)
theory Interleaving
  imports Lifecycle Ledger Cases
begin

text \<open>
  Transactions side by side.  A handler of \<open>Lifecycle\<close> runs over one session and commits the session's view
  as a whole, which says nothing of two requests that overlap.  Here a handler is a script, the sequence
  of its clock readings, identifiers, queries and statements; alone it is the handler.  A cluster runs many
  scripts over one database at the isolation level the engine of \<open>infrastructure/postgres/database.py\<close>
  leaves at its default, READ COMMITTED: a query sees what is committed when it runs and the session's own
  statements, a statement waits while another open transaction has written one of its rows or keys, and
  only a commit makes a session's statements seen.
\<close>

subsection \<open>Statements\<close>

datatype statement =
    Insert_Key idempotency_row
  | Update_Case application
  | Insert_Version version_row
  | Insert_Review review_row
  | Decide_Review string "review_row \<Rightarrow> review_row"
  | Insert_Outbox outbox_row
  | Insert_Audit audit_row
  | Insert_Checkpoint audit_hash_row
  | Update_Checkpoint audit_hash_row

text \<open>What the database answers a statement, the session seeing \<open>d\<close>.\<close>

fun perform :: "statement \<Rightarrow> string \<Rightarrow> db \<Rightarrow> py_error + db" where
  "perform (Insert_Key r) = insert_idempotency r"
| "perform (Update_Case a) = update_application (app_id a) (saved_row a)"
| "perform (Insert_Version v) = insert_version v"
| "perform (Insert_Review r) = insert_review r"
| "perform (Decide_Review k f) = (\<lambda>scope d. Inr (d\<lparr>db_review_queue :=
     tbl_update rr_application k (\<lambda>r. if rr_tenant r = scope then f r else r) (db_review_queue d)\<rparr>))"
| "perform (Insert_Outbox r) = insert_outbox r"
| "perform (Insert_Audit r) = insert_audit_event r"
| "perform (Insert_Checkpoint h) = insert_audit_hash h"
| "perform (Update_Checkpoint h) = update_checkpoint h"

text \<open>What an accepted statement writes, whatever else was committed meanwhile.\<close>

fun written :: "string \<Rightarrow> statement \<Rightarrow> db \<Rightarrow> db" where
  "written scope (Insert_Key r) d = d\<lparr>db_idempotency_keys := db_idempotency_keys d @ [r]\<rparr>"
| "written scope (Update_Case a) d = d\<lparr>db_applications :=
     tbl_update ap_id (app_id a) (\<lambda>r. if ap_tenant r = scope then saved_row a r else r) (db_applications d)\<rparr>"
| "written scope (Insert_Version v) d = d\<lparr>db_versions := db_versions d @ [v]\<rparr>"
| "written scope (Insert_Review r) d = d\<lparr>db_review_queue := db_review_queue d @ [r]\<rparr>"
| "written scope (Decide_Review k f) d = d\<lparr>db_review_queue :=
     tbl_update rr_application k (\<lambda>r. if rr_tenant r = scope then f r else r) (db_review_queue d)\<rparr>"
| "written scope (Insert_Outbox r) d = d\<lparr>db_outbox := db_outbox d @ [r]\<rparr>"
| "written scope (Insert_Audit r) d = d\<lparr>db_audit_events := db_audit_events d @ [r]\<rparr>"
| "written scope (Insert_Checkpoint h) d = d\<lparr>db_audit_hashes := db_audit_hashes d @ [h]\<rparr>"
| "written scope (Update_Checkpoint h) d = d\<lparr>db_audit_hashes :=
     tbl_update ah_tenant (ah_tenant h) (\<lambda>r. if ah_tenant r = scope then h else r) (db_audit_hashes d)\<rparr>"

lemma tbl_update_same: "(\<And>r. r \<in> set rows \<Longrightarrow> pk r = k \<Longrightarrow> f r = r) \<Longrightarrow> tbl_update pk k f rows = rows"
  by (induction rows) auto

lemma perform_written: "perform st scope d = Inr d' \<Longrightarrow> d' = written scope st d"
proof (cases st)
  case (Update_Case a)
  assume ok: "perform st scope d = Inr d'"
  show ?thesis
  proof (cases "tbl_find ap_id (app_id a) (visible ap_tenant scope (db_applications d))")
    case None
    then have "tbl_update ap_id (app_id a) (\<lambda>r. if ap_tenant r = scope then saved_row a r else r) (db_applications d) = db_applications d"
      by (intro tbl_update_same) (auto simp: tbl_find_None_iff visible_def image_iff)
    with ok None Update_Case show ?thesis by (simp add: update_application_def)
  next
    case (Some r)
    with ok Update_Case show ?thesis by (auto simp: update_application_def bind_result_Inr_iff)
  qed
qed (auto simp: insert_defs bind_result_Inr_iff update_checkpoint_def)

text \<open>The rows and unique keys a statement holds until its transaction ends.\<close>

datatype lock =
    Key_Lock string string string
  | Case_Lock string
  | Snapshot_Lock string
  | Version_Lock string int
  | Review_Lock string
  | Outbox_Lock string
  | Audit_Lock string
  | Checkpoint_Lock string

fun locks :: "statement \<Rightarrow> lock list" where
  "locks (Insert_Key r) = [Key_Lock (ik_tenant r) (ik_operation r) (ik_key r)]"
| "locks (Update_Case a) = [Case_Lock (app_id a)]"
| "locks (Insert_Version v) = [Snapshot_Lock (vr_id v), Version_Lock (vr_application v) (vr_version v)]"
| "locks (Insert_Review r) = [Review_Lock (rr_application r)]"
| "locks (Decide_Review k f) = [Review_Lock k]"
| "locks (Insert_Outbox r) = [Outbox_Lock (ob_id r)]"
| "locks (Insert_Audit r) = [Audit_Lock (au_id r)]"
| "locks (Insert_Checkpoint h) = [Checkpoint_Lock (ah_tenant h)]"
| "locks (Update_Checkpoint h) = [Checkpoint_Lock (ah_tenant h)]"

subsection \<open>Scripts\<close>

text \<open>\<open>Now check k\<close> reads the clock where \<open>check\<close> does not raise; \<open>Send st h k\<close> executes a statement, a database
  error ends the transaction with the exception \<open>h\<close> makes of it.\<close>

datatype 'a script =
    Finish "py_error + 'a"
  | Now "datetime \<Rightarrow> py_error option" "datetime \<Rightarrow> 'a script"
  | Fresh "string \<Rightarrow> 'a script"
  | Fetch "string \<Rightarrow> db \<Rightarrow> 'a script"
  | Send statement "py_error \<Rightarrow> py_error" "'a script"

primrec andthen :: "'a script \<Rightarrow> ('a \<Rightarrow> 'b script) \<Rightarrow> 'b script" where
  "andthen (Finish r) f = (case r of Inl e \<Rightarrow> Finish (Inl e) | Inr x \<Rightarrow> f x)"
| "andthen (Now check k) f = Now check (\<lambda>t. andthen (k t) f)"
| "andthen (Fresh k) f = Fresh (\<lambda>i. andthen (k i) f)"
| "andthen (Fetch k) f = Fetch (\<lambda>scope d. andthen (k scope d) f)"
| "andthen (Send st h k) f = Send st h (andthen k f)"

primrec alone :: "env \<Rightarrow> 'a script \<Rightarrow> ('x, 'a) handler" where
  "alone env (Finish r) = lift_result r"
| "alone env (Now check k) =
     bnd (at_now env (\<lambda>t. case check t of Some e \<Rightarrow> Inl e | None \<Rightarrow> Inr t)) (\<lambda>t. alone env (k t))"
| "alone env (Fresh k) = bnd (generate_id env) (\<lambda>i. alone env (k i))"
| "alone env (Fetch k) = bnd (query (\<lambda>scope d. (scope, d))) (\<lambda>p. alone env (k (fst p) (snd p)))"
| "alone env (Send st h k) =
     bnd (try_except (execute (perform st)) (\<lambda>e. raise (h e))) (\<lambda>_. alone env k)"

lemma alone_andthen: "(alone env (andthen s f) :: ('x, 'b) handler) = bnd (alone env s) (\<lambda>x. alone env (f x))"
proof (induction s)
  case (Finish r)
  then show ?case by (cases r) (simp_all add: fun_eq_iff bnd_def)
next
  case (Fetch k)
  have "(alone env (andthen (k scope d) f) :: ('x, 'b) handler) = bnd (alone env (k scope d)) (\<lambda>x. alone env (f x))" for scope d
    by (rule Fetch [of "k scope"]) simp_all
  then show ?case by (simp only: andthen.simps alone.simps bnd_assoc)
next
  case (Fresh k)
  have "(alone env (andthen (k i) f) :: ('x, 'b) handler) = bnd (alone env (k i)) (\<lambda>x. alone env (f x))" for i
    by (rule Fresh [OF rangeI])
  then show ?case by (simp only: andthen.simps alone.simps bnd_assoc)
qed (simp_all add: bnd_assoc)

subsection \<open>The cluster\<close>

record 'a session =
  ss_scope :: string
  ss_script :: "'a script"
  ss_log :: "statement list"
  ss_ended :: bool

record 'a cluster =
  cl_db :: db
  cl_sessions :: "'a session list"
  cl_ids :: nat
  cl_clk :: nat

definition view :: "'a session \<Rightarrow> db \<Rightarrow> db" where
  "view s d = fold (written (ss_scope s)) (ss_log s) d"

definition held :: "'a session \<Rightarrow> lock list" where
  "held s = concat (map locks (ss_log s))"

definition waits :: "nat \<Rightarrow> lock list \<Rightarrow> 'a session list \<Rightarrow> bool" where
  "waits i ls ss \<longleftrightarrow> list_ex (\<lambda>(j, s). j \<noteq> i \<and> list_ex (\<lambda>l. l \<in> set ls) (held s)) (enumerate 0 ss)"

text \<open>An ended transaction holds nothing.\<close>

definition ended :: "(py_error + 'a) \<Rightarrow> 'a session \<Rightarrow> 'a session" where
  "ended r s = s\<lparr>ss_script := Finish r, ss_log := [], ss_ended := True\<rparr>"

fun proceed :: "env \<Rightarrow> nat \<Rightarrow> 'a cluster \<Rightarrow> 'a session \<Rightarrow> 'a script \<Rightarrow> 'a cluster" where
  "proceed env i c s (Finish (Inl e)) = c\<lparr>cl_sessions := (cl_sessions c)[i := ended (Inl e) s]\<rparr>"
| "proceed env i c s (Finish (Inr x)) =
     c\<lparr>cl_db := view s (cl_db c), cl_sessions := (cl_sessions c)[i := ended (Inr x) s]\<rparr>"
| "proceed env i c s (Now check k) =
     (let t = e_clock env (cl_clk c) in
      case check t of
        Some e \<Rightarrow> c\<lparr>cl_sessions := (cl_sessions c)[i := s\<lparr>ss_script := Finish (Inl e)\<rparr>]\<rparr>
      | None \<Rightarrow> c\<lparr>cl_sessions := (cl_sessions c)[i := s\<lparr>ss_script := k t\<rparr>], cl_clk := cl_clk c + 1\<rparr>)"
| "proceed env i c s (Fresh k) =
     c\<lparr>cl_sessions := (cl_sessions c)[i := s\<lparr>ss_script := k (e_uuid env (cl_ids c))\<rparr>], cl_ids := cl_ids c + 1\<rparr>"
| "proceed env i c s (Fetch k) =
     c\<lparr>cl_sessions := (cl_sessions c)[i := s\<lparr>ss_script := k (ss_scope s) (view s (cl_db c))\<rparr>]\<rparr>"
| "proceed env i c s (Send st h k) =
     (if waits i (locks st) (cl_sessions c) then c
      else case perform st (ss_scope s) (view s (cl_db c)) of
        Inl e \<Rightarrow> c\<lparr>cl_sessions := (cl_sessions c)[i := s\<lparr>ss_script := Finish (Inl (h e))\<rparr>]\<rparr>
      | Inr _ \<Rightarrow> c\<lparr>cl_sessions := (cl_sessions c)[i := s\<lparr>ss_script := k, ss_log := ss_log s @ [st]\<rparr>]\<rparr>)"

text \<open>One move of the cluster: a session goes on, or loses its transaction (the connection broke, the
  statement timed out, the database resolved a deadlock).\<close>

datatype event = Proceed nat | Break nat py_error

fun happen :: "env \<Rightarrow> 'a cluster \<Rightarrow> event \<Rightarrow> 'a cluster" where
  "happen env c (Proceed i) =
     (if i < length (cl_sessions c) \<and> \<not> ss_ended (cl_sessions c ! i)
      then proceed env i c (cl_sessions c ! i) (ss_script (cl_sessions c ! i)) else c)"
| "happen env c (Break i e) =
     (if i < length (cl_sessions c) \<and> \<not> ss_ended (cl_sessions c ! i)
      then c\<lparr>cl_sessions := (cl_sessions c)[i := ended (Inl e) (cl_sessions c ! i)]\<rparr> else c)"

definition schedule :: "env \<Rightarrow> event list \<Rightarrow> 'a cluster \<Rightarrow> 'a cluster" where
  "schedule env es c = foldl (happen env) c es"

definition opened :: "string \<times> 'a script \<Rightarrow> 'a session" where
  "opened = (\<lambda>(tenant, s). \<lparr>ss_scope = tenant, ss_script = s, ss_log = [], ss_ended = False\<rparr>)"

definition cluster_of :: "db \<Rightarrow> (string \<times> 'a script) list \<Rightarrow> 'a cluster" where
  "cluster_of d ss = \<lparr>cl_db = d, cl_sessions = map opened ss, cl_ids = 0, cl_clk = 0\<rparr>"

end
