(* ===== verification/Concurrency.thy ===== *)
theory Concurrency
  imports Interleaving
begin

text \<open>
  The commands that move a case as scripts, and that each, run alone, is its handler.  A query of a script
  sees what is committed when it runs: the row a repository has loaded is not kept after the call, and
  the session's identity map is weak, so \<open>save\<close> reads the version anew.
\<close>

subsection \<open>The commands as scripts\<close>

definition at_time :: "(datetime \<Rightarrow> py_error + 'a) \<Rightarrow> 'a script" where
  "at_time f = Now (\<lambda>t. case f t of Inl e \<Rightarrow> Some e | Inr _ \<Rightarrow> None) (\<lambda>t. Finish (f t))"

definition reads :: "(string \<Rightarrow> db \<Rightarrow> py_error + 'a) \<Rightarrow> 'a script" where
  "reads f = Fetch (\<lambda>scope d. Finish (f scope d))"

primrec sends :: "statement list \<Rightarrow> unit script" where
  "sends [] = Finish (Inr ())"
| "sends (st # sts) = Send st id (sends sts)"

definition reserve_script :: "string \<Rightarrow> string \<Rightarrow> string \<Rightarrow> unit script" where
  "reserve_script tenant_id key operation_name =
     Now (\<lambda>_. None) (\<lambda>now.
     Send (Insert_Key \<lparr>ik_tenant = tenant_id, ik_operation = operation_name, ik_key = key, ik_reserved_at = now\<rparr>)
       (\<lambda>e. case e of IntegrityError _ \<Rightarrow> DuplicateRequestError operation_name key | _ \<Rightarrow> e) (Finish (Inr ())))"

definition stored_case :: "string \<Rightarrow> string \<Rightarrow> db \<Rightarrow> application_row option" where
  "stored_case k scope d = tbl_find ap_id k (visible ap_tenant scope (db_applications d))"

definition load_script :: "string \<Rightarrow> string \<Rightarrow> application script" where
  "load_script tenant_id application_id =
     reads (\<lambda>scope d. case stored_case application_id scope d of
       None \<Rightarrow> Inl (ApplicationNotFoundError application_id)
     | Some r \<Rightarrow> if ap_tenant r \<noteq> tenant_id then Inl (ApplicationNotFoundError application_id)
                 else row_to_application r)"

definition save_script :: "application \<Rightarrow> unit script" where
  "save_script a =
     Fetch (\<lambda>scope d.
       let expected = app_version a - 1 in
       case stored_case (app_id a) scope d of
         None \<Rightarrow> Finish (Inl (ConcurrencyConflictError (app_id a) expected 0))
       | Some r \<Rightarrow>
           if ap_version r \<noteq> expected then Finish (Inl (ConcurrencyConflictError (app_id a) expected (ap_version r)))
           else Fresh (\<lambda>snapshot_id. sends [Update_Case a, Insert_Version (version_snapshot_row a snapshot_id)]))"

definition move_script :: "application_status \<Rightarrow> string \<Rightarrow> application \<Rightarrow> application script" where
  "move_script new_status reason a =
     andthen (at_time (\<lambda>now. transition_to new_status reason now a)) (\<lambda>b.
     andthen (save_script b) (\<lambda>_. Finish (Inr b)))"

definition review_script :: "string \<Rightarrow> application \<Rightarrow> application script" where
  "review_script reason a =
     andthen (move_script AWAITING_HUMAN_REVIEW reason a) (\<lambda>b.
     Now (\<lambda>_. None) (\<lambda>entered.
     Send (Insert_Review \<lparr>rr_application = app_id b, rr_tenant = app_tenant b, rr_entered_at = entered,
         rr_status = ''pending'', rr_decision = None, rr_reason = None, rr_reviewer = None, rr_decided_at = None\<rparr>) id
       (Finish (Inr b))))"

text \<open>One iteration of \<open>record_domain_events\<close>: the checkpoint is queried without a lock.\<close>

definition staged_with ::
  "env \<Rightarrow> domain_event \<Rightarrow> string \<Rightarrow> datetime \<Rightarrow> audit_hash_row option \<Rightarrow> plan \<Rightarrow> plan" where
  "staged_with env event event_id now checkpoint p =
     (let prev_hash = (case checkpoint of Some h \<Rightarrow> ah_latest_hash h | None \<Rightarrow> GENESIS_HASH);
          row = audit_row_of env event event_id now prev_hash;
          p' = p\<lparr>pl_outbox := pl_outbox p @ [outbox_row_of event event_id now], pl_audit := pl_audit p @ [row]\<rparr>
      in case checkpoint of
           None \<Rightarrow> p'\<lparr>pl_new_hashes := pl_new_hashes p' @
             [\<lparr>ah_tenant = ev_tenant_id event, ah_latest_event_id = Some event_id,
               ah_latest_hash = au_hash row, ah_updated_at = now\<rparr>]\<rparr>
         | Some h \<Rightarrow> p'\<lparr>pl_loaded := put_loaded
             (h\<lparr>ah_latest_event_id := Some event_id, ah_latest_hash := au_hash row, ah_updated_at := now\<rparr>)
             (pl_loaded p')\<rparr>)"

definition stored_checkpoint :: "string \<Rightarrow> string \<Rightarrow> db \<Rightarrow> audit_hash_row option" where
  "stored_checkpoint tenant_id scope d = tbl_find ah_tenant tenant_id (visible ah_tenant scope (db_audit_hashes d))"

definition stage_script :: "env \<Rightarrow> domain_event \<Rightarrow> plan \<Rightarrow> plan script" where
  "stage_script env event p =
     Fresh (\<lambda>event_id. Now (\<lambda>_. None) (\<lambda>now.
       case tbl_find ah_tenant (ev_tenant_id event) (pl_loaded p) of
         Some h \<Rightarrow> Finish (Inr (staged_with env event event_id now (Some h) p))
       | None \<Rightarrow> reads (\<lambda>scope d.
           Inr (staged_with env event event_id now (stored_checkpoint (ev_tenant_id event) scope d) p))))"

primrec stages_script :: "env \<Rightarrow> domain_event list \<Rightarrow> plan \<Rightarrow> plan script" where
  "stages_script env [] p = Finish (Inr p)"
| "stages_script env (e # es) p = andthen (stage_script env e p) (stages_script env es)"

definition plan_statements :: "plan \<Rightarrow> statement list" where
  "plan_statements p = map Insert_Outbox (pl_outbox p) @ map Insert_Audit (pl_audit p) @
     map Insert_Checkpoint (pl_new_hashes p) @ map Update_Checkpoint (pl_loaded p)"

definition publish_script :: "env \<Rightarrow> application \<Rightarrow> application script" where
  "publish_script env a =
     (case pull_events a of (events, a') \<Rightarrow>
       andthen (stages_script env events empty_plan) (\<lambda>p.
       andthen (sends (plan_statements p)) (\<lambda>_. Finish (Inr a'))))"

definition product_script :: "string \<Rightarrow> product script" where
  "product_script product_id =
     reads (\<lambda>scope d. case tbl_find pr_id product_id (visible pr_tenant scope (db_products d)) of
       None \<Rightarrow> Inl (ProductNotFoundError product_id) | Some r \<Rightarrow> row_to_product r)"

definition decide_script ::
  "string \<Rightarrow> string \<Rightarrow> string \<Rightarrow> string \<Rightarrow> string option \<Rightarrow> datetime \<Rightarrow> unit script" where
  "decide_script tenant_id application_id decision reason reviewer_id decided_at =
     Fetch (\<lambda>scope d.
       let missing = Finish (Inl (LookupError
             (''no review queue entry for application '' @ application_id @ '' to mark decided''))) in
       case tbl_find rr_application application_id (visible rr_tenant scope (db_review_queue d)) of
         None \<Rightarrow> missing
       | Some r \<Rightarrow> if rr_tenant r \<noteq> tenant_id then missing
                   else sends [Decide_Review application_id (decided_row decision reason reviewer_id decided_at)])"

definition attach_script ::
  "env \<Rightarrow> string \<Rightarrow> (datetime \<Rightarrow> application \<Rightarrow> py_error + application) \<Rightarrow> case_command \<Rightarrow> application script" where
  "attach_script env operation_name move c =
     andthen (reserve_script (c_tenant c) (c_key c) operation_name) (\<lambda>_.
     andthen (load_script (c_tenant c) (c_application c)) (\<lambda>a.
     andthen (at_time (\<lambda>now. move now a)) (\<lambda>b.
     let b' = attach_workflow (application_workflow_id (c_tenant c) (c_application c) (app_version b)) b in
     andthen (save_script b') (\<lambda>_. publish_script env b'))))"

definition intake_script :: "env \<Rightarrow> case_command \<Rightarrow> intake_result script" where
  "intake_script env c =
     andthen (reserve_script (c_tenant c) (c_key c) ''advance_intake_validation'') (\<lambda>_.
     andthen (load_script (c_tenant c) (c_application c)) (\<lambda>a.
     andthen (product_script (app_product a)) (\<lambda>product.
     andthen (move_script INTAKE_VALIDATION ''entering automated intake validation'' a) (\<lambda>b.
     andthen (Finish (accepts product (app_amount b) (app_term b))) (\<lambda>accepted.
     andthen (if accepted
              then move_script DOCUMENT_PROCESSING ''intake validation passed: within product catalog bounds'' b
              else review_script (intake_flag_reason b) b) (\<lambda>b'.
     andthen (publish_script env b') (\<lambda>b''.
       Finish (Inr (case_result.extend (result_of b'') \<lparr>res_accepted = accepted\<rparr>)))))))))"

definition documents_script :: "env \<Rightarrow> case_command \<Rightarrow> document_result script" where
  "documents_script env c =
     andthen (reserve_script (c_tenant c) (c_key c) ''advance_document_processing'') (\<lambda>_.
     andthen (load_script (c_tenant c) (c_application c)) (\<lambda>a.
     andthen (reads (\<lambda>scope d. Inr (length (application_documents (c_tenant c) (c_application c) scope d)))) (\<lambda>n.
     andthen (if 1 \<le> n then move_script VERIFICATION (show_nat n @ '' document(s) present'') a
              else review_script ''no documents uploaded -- requires human review'' a) (\<lambda>b.
     andthen (publish_script env b) (\<lambda>b'.
       Finish (Inr (case_result.extend (result_of b') \<lparr>res_document_count = n\<rparr>)))))))"

definition enter_script :: "env \<Rightarrow> review_command \<Rightarrow> case_result script" where
  "enter_script env c =
     andthen (reserve_script (c_tenant c) (c_key c) ''enter_human_review'') (\<lambda>_.
     andthen (load_script (c_tenant c) (c_application c)) (\<lambda>a.
     andthen (review_script (c_reason c) a) (\<lambda>b.
     andthen (publish_script env b) (\<lambda>b'. Finish (Inr (result_of b'))))))"

definition decision_script :: "env \<Rightarrow> decision_command \<Rightarrow> case_result script" where
  "decision_script env c =
     andthen (reserve_script (c_tenant c) (c_key c) ''apply_review_decision'') (\<lambda>_.
     andthen (load_script (c_tenant c) (c_application c)) (\<lambda>a.
     andthen (at_time (\<lambda>now. transition_to (c_decision c) (c_reason c) now a)) (\<lambda>b.
     let b' = detach_workflow b in
     Now (\<lambda>_. None) (\<lambda>now.
     andthen (decide_script (c_tenant c) (c_application c) (status_value (c_decision c)) (c_reason c)
        (c_reviewer c) now) (\<lambda>_.
     andthen (save_script b') (\<lambda>_.
     andthen (publish_script env b') (\<lambda>b''. Finish (Inr (result_of b'')))))))))"

subsection \<open>Alone, a script is its handler\<close>

named_theorems alone_simps \<open>scripts run alone\<close>

declare alone_andthen [alone_simps]

lemma alone_at_time [alone_simps]: "alone env (at_time f) = at_now env f"
  by (auto simp: at_time_def fun_eq_iff at_now_def bnd_def split: sum.split)

lemma alone_reads [alone_simps]: "alone env (reads f) = (\<lambda>w. (f (w_scope w) (w_sess w), w))"
  by (simp add: reads_def fun_eq_iff)

lemma alone_Now [alone_simps]: "alone env (Now (\<lambda>_. None) k) = bnd (clock_now env) (\<lambda>t. alone env (k t))"
  by (simp add: fun_eq_iff at_now_def bnd_def)

lemma alone_Send_id: "alone env (Send st id k) = bnd (execute (perform st)) (\<lambda>_. alone env k)"
  by (auto simp: fun_eq_iff bnd_def try_except_def split: sum.split prod.split)

lemma alone_sends_Cons: "alone env (sends (st # sts)) = bnd (execute (perform st)) (\<lambda>_. alone env (sends sts))"
  by (simp only: sends.simps alone_Send_id)

lemma alone_Finish: "alone env (Finish (Inr x)) = ret x"
  by (simp add: fun_eq_iff)

lemma alone_sends_append: "alone env (sends (xs @ ys)) = bnd (alone env (sends xs)) (\<lambda>_. alone env (sends ys))"
  by (induction xs) (simp_all add: alone_Send_id bnd_assoc alone_Finish del: alone.simps)

lemma alone_sends_map:
  assumes "\<And>r. perform (f r) = g r"
  shows "(alone env (sends (map f rows)) :: ('x, unit) handler) = execute_all g rows"
proof (induction rows)
  case Nil
  then show ?case by (simp add: execute_all_def alone_Finish del: alone.simps)
next
  case (Cons r rows)
  have "(execute_all g (r # rows) :: ('x, unit) handler) = bnd (execute (g r)) (\<lambda>_. execute_all g rows)"
    by (simp only: execute_all_def map_each.simps bnd_assoc bnd_ret_left)
  with Cons assms show ?case by (simp add: alone_Send_id del: alone.simps)
qed

lemma alone_reserve [alone_simps]: "(alone env (reserve_script t k op) :: ('x, unit) handler) = reserve_or_raise env t k op"
proof
  fix w :: "'x world"
  define st where "st = insert_idempotency \<lparr>ik_tenant = t, ik_operation = op, ik_key = k, ik_reserved_at = e_clock env (w_clk w)\<rparr>"
  define h where "h = (\<lambda>e. case e of IntegrityError _ \<Rightarrow> DuplicateRequestError op k | _ \<Rightarrow> e)"
  obtain r w1 where run: "execute st (w\<lparr>w_clk := w_clk w + 1\<rparr>) = (r, w1)" by fastforce
  have "alone env (reserve_script t k op) w = (case r of Inl e \<Rightarrow> (Inl (h e), w1) | Inr _ \<Rightarrow> (Inr (), w1))"
    using run by (simp add: reserve_script_def alone_Now bnd_def try_except_def st_def h_def split: sum.split del: alone.simps(2))
  moreover have "reserve_or_raise env t k op w = (case r of Inl e \<Rightarrow> (Inl (h e), w1) | Inr _ \<Rightarrow> (Inr (), w1))"
    using run
    by (cases r) (simp_all add: reserve_or_raise_def reserve_idempotency_key_def bnd_def try_except_def st_def h_def split: py_error.split)
  ultimately show "alone env (reserve_script t k op) w = reserve_or_raise env t k op w" by simp
qed

lemma alone_load [alone_simps]: "alone env (load_script t k) = load_application t k"
  by (auto simp: fun_eq_iff load_script_def alone_reads load_application_def application_get_def get_application_row_def
      stored_case_def bnd_def split: option.split sum.split)

lemma alone_save [alone_simps]: "alone env (save_script a) = application_save env a"
  by (auto simp: fun_eq_iff save_script_def application_save_def get_application_row_def stored_case_def Let_def bnd_def
      alone_Send_id alone_Finish try_except_def split: option.split sum.split prod.split)

lemma alone_move [alone_simps]: "alone env (move_script s reason a) = save_and_move env s reason a"
  by (simp add: move_script_def save_and_move_def alone_simps alone_Finish del: alone.simps)

lemma alone_review [alone_simps]: "alone env (review_script reason a) = enter_human_review env reason a"
  by (simp add: review_script_def enter_human_review_def review_add_def alone_simps alone_Finish alone_Send_id del: alone.simps)

lemma alone_stage: "(alone env (stage_script env e p) :: ('x, plan) handler) = stage_event env e p"
proof
  fix w :: "'x world"
  define w1 where "w1 = w\<lparr>w_ids := w_ids w + 1, w_clk := w_clk w + 1\<rparr>"
  have staged: "stage_event env e p w = (Inr (staged_with env e (e_uuid env (w_ids w)) (e_clock env (w_clk w)) c p), w1)"
    if "get_checkpoint (ev_tenant_id e) p w1 = (Inr c, w1)" for c
    using that by (simp add: stage_event_def staged_with_def bnd_def Let_def w1_def split: option.split)
  show "alone env (stage_script env e p) w = stage_event env e p w"
  proof (cases "tbl_find ah_tenant (ev_tenant_id e) (pl_loaded p)")
    case None
    then have "get_checkpoint (ev_tenant_id e) p w1 = (Inr (stored_checkpoint (ev_tenant_id e) (w_scope w) (w_sess w)), w1)"
      by (simp add: get_checkpoint_def stored_checkpoint_def w1_def)
    with None show ?thesis
      by (simp add: staged stage_script_def alone_Now alone_reads bnd_def w1_def del: alone.simps(2))
  next
    case (Some h)
    then have "get_checkpoint (ev_tenant_id e) p w1 = (Inr (Some h), w1)" by (simp add: get_checkpoint_def)
    with Some show ?thesis
      by (simp add: staged stage_script_def alone_Now bnd_def w1_def del: alone.simps(2))
  qed
qed

lemma alone_stages [alone_simps]: "(alone env (stages_script env es p) :: ('x, plan) handler) = stage_events env es p"
  by (induction es arbitrary: p) (simp_all add: alone_stage alone_andthen alone_Finish del: alone.simps)

lemma alone_publish [alone_simps]: "(alone env (publish_script env a) :: ('x, application) handler) = publish env a"
proof -
  have "(alone env (sends (plan_statements p)) :: ('x, unit) handler) = flush_plan p" for p
    by (simp add: plan_statements_def flush_plan_def alone_sends_append alone_sends_map bnd_assoc)
  then show ?thesis
    by (simp add: publish_script_def publish_def record_domain_events_def pull_events_def alone_simps alone_Finish bnd_assoc
        del: alone.simps)
qed

lemma alone_product: "(alone env (product_script k) :: ('x, product) handler) = bnd (product_get k) (from_some (ProductNotFoundError k))"
  by (auto simp: fun_eq_iff product_script_def product_get_def alone_reads bnd_def split: option.split sum.split)

lemma alone_decide [alone_simps]: "(alone env (decide_script t k s reason rv now) :: ('x, unit) handler) = mark_decided t k s reason rv now"
  by (auto simp: fun_eq_iff decide_script_def mark_decided_def review_row_of_def bnd_def execute_def try_except_def Let_def split: option.split)

lemma count_run: "count_documents t k = (\<lambda>w. (Inr (length (application_documents t k (w_scope w) (w_sess w))), w))"
  by (simp add: fun_eq_iff count_documents_def)

text \<open>The scripts are the commands.  Run alone, each script does exactly what the handler's transaction body
  does, on every path: the same result or exception and the same session, clock and identifiers.\<close>

theorem scripts_alone:
  "(alone env (attach_script env op move c) :: ('x, application) handler) = move_and_attach env op move c \<and>
   (alone env (intake_script env c) :: ('x, intake_result) handler) = advance_intake_body env c \<and>
   (alone env (documents_script env c) :: ('x, document_result) handler) = advance_documents_body env c \<and>
   (alone env (enter_script env rc) :: ('x, case_result) handler) = enter_review_body env rc \<and>
   (alone env (decision_script env dc) :: ('x, case_result) handler) = apply_decision_body env dc"
proof (intro conjI)
  have lifted: "(alone env (Finish r) :: ('x, 'b) handler) = lift_result r" for r :: "py_error + 'b" by simp
  note simps = alone_simps alone_product bnd_assoc Let_def alone_Finish
  show "(alone env (attach_script env op move c) :: ('x, application) handler) = move_and_attach env op move c"
    by (simp add: attach_script_def move_and_attach_def simps del: alone.simps)
  show "(alone env (intake_script env c) :: ('x, intake_result) handler) = advance_intake_body env c"
    by (simp add: intake_script_def advance_intake_body_def simps if_distrib [of "alone env"] lifted cong: if_cong
        del: alone.simps andthen.simps)
  show "(alone env (documents_script env c) :: ('x, document_result) handler) = advance_documents_body env c"
    by (simp add: documents_script_def advance_documents_body_def count_run simps if_distrib [of "alone env"] cong: if_cong del: alone.simps)
  show "(alone env (enter_script env rc) :: ('x, case_result) handler) = enter_review_body env rc"
    by (simp add: enter_script_def enter_review_body_def simps del: alone.simps)
  show "(alone env (decision_script env dc) :: ('x, case_result) handler) = apply_decision_body env dc"
    by (simp add: decision_script_def apply_decision_body_def simps del: alone.simps)
qed

subsection \<open>A session nobody disturbs\<close>

text \<open>While the other sessions have written nothing, a session that goes on ends as its handler does: with the
  same result or exception, and on success with the handler's view committed.\<close>

lemma schedule_Nil: "schedule env [] c = c"
  and schedule_Cons: "schedule env (e # es) c = schedule env es (happen env c e)"
  by (simp_all add: schedule_def)

lemma no_waiting:
  assumes "\<And>j. j < length ss \<Longrightarrow> j \<noteq> i \<Longrightarrow> ss_log (ss ! j) = []"
  shows "\<not> waits i ls ss"
  using assms by (auto simp: waits_def list_ex_iff in_set_enumerate_eq held_def)

definition turns :: "env \<Rightarrow> nat \<Rightarrow> 'a cluster \<Rightarrow> 'a cluster \<Rightarrow> bool" where
  "turns env i c c' \<longleftrightarrow> (\<exists>n. schedule env (replicate n (Proceed i)) c = c')"

lemma turns_step: "turns env i (happen env c (Proceed i)) c' \<Longrightarrow> turns env i c c'"
  unfolding turns_def by (metis replicate_Suc schedule_Cons)

lemma turns_refl: "turns env i c c"
  unfolding turns_def by (metis replicate_0 schedule_Nil)

lemma solo_step:
  assumes "\<exists>c'. turns env i c1 c' \<and> cl_sessions c' = (cl_sessions c1)[i := ended r s1] \<and>
      cl_db c' = (case r of Inl _ \<Rightarrow> cl_db c1 | Inr _ \<Rightarrow> d)"
    "happen env c (Proceed i) = c1" "cl_db c1 = cl_db c" "cl_sessions c1 = (cl_sessions c)[i := s1]" "ended r s1 = ended r s"
  shows "\<exists>c'. turns env i c c' \<and> cl_sessions c' = (cl_sessions c)[i := ended r s] \<and>
      cl_db c' = (case r of Inl _ \<Rightarrow> cl_db c | Inr _ \<Rightarrow> d)"
  using assms turns_step [of env i c] by (metis list_update_overwrite)

lemma solo_run:
  assumes "i < length (cl_sessions c)" "cl_sessions c ! i = s" "\<not> ss_ended s" "ss_script s = p"
    "\<And>j. j < length (cl_sessions c) \<Longrightarrow> j \<noteq> i \<Longrightarrow> ss_log (cl_sessions c ! j) = []"
    "(alone env p :: ('x, 'a) handler) w = (r, w')" "w_sess w = view s (cl_db c)" "w_scope w = ss_scope s"
    "w_ids w = cl_ids c" "w_clk w = cl_clk c"
  shows "\<exists>c'. turns env i c c' \<and> cl_sessions c' = (cl_sessions c)[i := ended r s] \<and>
    cl_db c' = (case r of Inl _ \<Rightarrow> cl_db c | Inr _ \<Rightarrow> w_sess w')"
  using assms
proof (induction p arbitrary: c s w)
  case (Finish q)
  have "turns env i c (happen env c (Proceed i))" by (rule turns_step [OF turns_refl])
  with Finish show ?case
    by (cases q) (auto intro!: exI [of _ "happen env c (Proceed i)"])
next
  case (Now check k)
  let ?t = "e_clock env (cl_clk c)"
  show ?case
  proof (cases "check ?t")
    case None
    let ?c1 = "happen env c (Proceed i)" and ?s1 = "s\<lparr>ss_script := k ?t\<rparr>"
    have c1: "?c1 = c\<lparr>cl_sessions := (cl_sessions c)[i := ?s1], cl_clk := cl_clk c + 1\<rparr>"
      using Now.prems(1-4) None by (simp add: Let_def)
    have "\<exists>c'. turns env i ?c1 c' \<and> cl_sessions c' = (cl_sessions ?c1)[i := ended r ?s1] \<and>
        cl_db c' = (case r of Inl _ \<Rightarrow> cl_db ?c1 | Inr _ \<Rightarrow> w_sess w')"
      by (rule Now.IH [OF rangeI, where w = "w\<lparr>w_clk := w_clk w + 1\<rparr>"])
        (use Now.prems None in \<open>auto simp: c1 at_now_def bnd_run view_def simp del: happen.simps\<close>)
    then show ?thesis by (rule solo_step) (simp_all add: c1 ended_def del: happen.simps)
  next
    case (Some e)
    let ?c1 = "happen env c (Proceed i)" and ?s1 = "s\<lparr>ss_script := Finish (Inl e)\<rparr>"
    have c1: "?c1 = c\<lparr>cl_sessions := (cl_sessions c)[i := ?s1]\<rparr>"
      using Now.prems(1-4) Some by (simp add: Let_def)
    have r: "r = Inl e" using Now.prems(6,10) Some by (simp add: at_now_def bnd_run)
    let ?c2 = "c\<lparr>cl_sessions := (cl_sessions c)[i := ended (Inl e) s]\<rparr>"
    have "happen env ?c1 (Proceed i) = ?c2" unfolding c1 using Now.prems(1-3) by (simp add: ended_def)
    then have "turns env i c ?c2" by (metis turns_step turns_refl)
    then show ?thesis using r by (intro exI [of _ ?c2]) simp
  qed
next
  case (Fresh k)
  let ?c1 = "happen env c (Proceed i)" and ?s1 = "s\<lparr>ss_script := k (e_uuid env (cl_ids c))\<rparr>"
  have c1: "?c1 = c\<lparr>cl_sessions := (cl_sessions c)[i := ?s1], cl_ids := cl_ids c + 1\<rparr>"
    using Fresh.prems(1-4) by simp
  have "\<exists>c'. turns env i ?c1 c' \<and> cl_sessions c' = (cl_sessions ?c1)[i := ended r ?s1] \<and>
      cl_db c' = (case r of Inl _ \<Rightarrow> cl_db ?c1 | Inr _ \<Rightarrow> w_sess w')"
    by (rule Fresh.IH [OF rangeI, where w = "w\<lparr>w_ids := w_ids w + 1\<rparr>"])
      (use Fresh.prems in \<open>auto simp: c1 generate_id_def bnd_run view_def simp del: happen.simps\<close>)
  then show ?case by (rule solo_step) (simp_all add: c1 ended_def del: happen.simps)
next
  case (Fetch k)
  let ?c1 = "happen env c (Proceed i)" and ?s1 = "s\<lparr>ss_script := k (ss_scope s) (view s (cl_db c))\<rparr>"
  have c1: "?c1 = c\<lparr>cl_sessions := (cl_sessions c)[i := ?s1]\<rparr>"
    using Fetch.prems(1-4) by simp
  have "\<exists>c'. turns env i ?c1 c' \<and> cl_sessions c' = (cl_sessions ?c1)[i := ended r ?s1] \<and>
      cl_db c' = (case r of Inl _ \<Rightarrow> cl_db ?c1 | Inr _ \<Rightarrow> w_sess w')"
    by (rule Fetch.IH [of "k (ss_scope s)" "k (ss_scope s) (view s (cl_db c))", OF rangeI rangeI, where w = w])
      (use Fetch.prems in \<open>auto simp: c1 query_def bnd_run view_def simp del: happen.simps\<close>)
  then show ?case by (rule solo_step) (simp_all add: c1 ended_def del: happen.simps)
next
  case (Send st h k)
  have free: "\<not> waits i (locks st) (cl_sessions c)" by (rule no_waiting [OF Send.prems(5)])
  show ?case
  proof (cases "perform st (ss_scope s) (view s (cl_db c))")
    case (Inl e)
    let ?c1 = "happen env c (Proceed i)" and ?s1 = "s\<lparr>ss_script := Finish (Inl (h e))\<rparr>"
    have c1: "?c1 = c\<lparr>cl_sessions := (cl_sessions c)[i := ?s1]\<rparr>"
      using Send.prems(1-4) free Inl by simp
    have r: "r = Inl (h e)" using Send.prems(6-8) Inl by (simp add: execute_def try_except_def bnd_run)
    let ?c2 = "c\<lparr>cl_sessions := (cl_sessions c)[i := ended (Inl (h e)) s]\<rparr>"
    have "happen env ?c1 (Proceed i) = ?c2" unfolding c1 using Send.prems(1-3) by (simp add: ended_def)
    then have "turns env i c ?c2" by (metis turns_step turns_refl)
    then show ?thesis using r by (intro exI [of _ ?c2]) simp
  next
    case (Inr d)
    let ?c1 = "happen env c (Proceed i)" and ?s1 = "s\<lparr>ss_script := k, ss_log := ss_log s @ [st]\<rparr>"
    have c1: "?c1 = c\<lparr>cl_sessions := (cl_sessions c)[i := ?s1]\<rparr>"
      using Send.prems(1-4) free Inr by simp
    have "view ?s1 (cl_db c) = d" using perform_written [OF Inr] by (simp add: view_def)
    then have "\<exists>c'. turns env i ?c1 c' \<and> cl_sessions c' = (cl_sessions ?c1)[i := ended r ?s1] \<and>
        cl_db c' = (case r of Inl _ \<Rightarrow> cl_db ?c1 | Inr _ \<Rightarrow> w_sess w')"
      by (intro Send.IH [where w = "w\<lparr>w_sess := d\<rparr>"])
        (use Send.prems Inr in \<open>auto simp: c1 execute_def try_except_def bnd_run simp del: happen.simps\<close>)
    then show ?thesis by (rule solo_step) (simp_all add: c1 ended_def del: happen.simps)
  qed
qed

end
