(* ===== verification/Ddl.thy ===== *)
theory Ddl
  imports Prelude "HOL-Library.AList"
begin

text \<open>
  The part of PostgreSQL's data definition the migrations use, as operations on a catalogue of
  schemas, tables, roles and grants.  An operation the server would refuse has the server's error
  condition as its result.  A relation is named by its table and its schema, in that order.
\<close>

type_synonym relation = "string \<times> string"

datatype sql_type =
    Sql_Text | Sql_Varchar | Sql_Integer | Sql_Numeric nat nat | Sql_Timestamptz | Sql_Timestamp | Sql_Date
  | Sql_Boolean | Sql_Float | Sql_Jsonb

record column =
  col_name :: string
  col_type :: sql_type
  col_primary_key :: bool
  col_nullable :: bool
  col_references :: "(relation \<times> string) option"
  col_unique :: bool
  col_default :: "string option"

datatype sql_value = V_Text string | V_Number int | V_Bool bool | V_Now

record policy =
  po_name :: string
  po_using :: string
  po_with_check :: string

record sql_table =
  tb_columns :: "column list"
  tb_checks :: "(string \<times> string) list"
  tb_uniques :: "(string \<times> string list) list"
  tb_indexes :: "(string \<times> string list) list"
  tb_rls_enabled :: bool
  tb_rls_forced :: bool
  tb_policies :: "policy list"
  tb_grants :: "(string \<times> string list) list"
  tb_rows :: "(string \<times> sql_value) list list"

record catalogue =
  cat_schemas :: "string list"
  cat_tables :: "(relation \<times> sql_table) list"
  cat_roles :: "(string \<times> string list) list"
  cat_usage :: "(string \<times> string) list"
  cat_tenant_setting :: "string option"

definition empty_catalogue :: catalogue where
  "empty_catalogue = \<lparr>cat_schemas = [], cat_tables = [], cat_roles = [], cat_usage = [], cat_tenant_setting = None\<rparr>"

datatype ddl =
    Create_Schema string
  | Drop_Schema string bool
  | Create_Table relation "column list" "(string \<times> string) list" "(string \<times> string list) list"
  | Drop_Table relation
  | Create_Index string relation "string list"
  | Add_Column relation column
  | Drop_Column relation string
  | Enable_Row_Level_Security relation
  | Force_Row_Level_Security relation
  | Create_Policy policy relation
  | Create_Role string "string list"
  | Drop_Role string
  | Grant_Usage "string list" string
  | Grant_On_Table "string list" relation string
  | Grant_On_Schema "string list" string string
  | Set_Tenant string
  | Insert_Row relation "(string \<times> sql_value) list"

subsection \<open>Reading the catalogue\<close>

definition table_of :: "catalogue \<Rightarrow> relation \<Rightarrow> sql_table option" where
  "table_of c r = map_of (cat_tables c) r"

definition column_of :: "sql_table \<Rightarrow> string \<Rightarrow> column option" where
  "column_of t n = find (\<lambda>k. col_name k = n) (tb_columns t)"

definition primary_key :: "sql_table \<Rightarrow> string list" where
  "primary_key t = map col_name (filter col_primary_key (tb_columns t))"

text \<open>Tables and indexes of one schema share their names.\<close>

definition relation_names :: "catalogue \<Rightarrow> string \<Rightarrow> string list" where
  "relation_names c s = concat (map (\<lambda>((n, s'), t). if s' = s then n # map fst (tb_indexes t) else []) (cat_tables c))"

definition references :: "sql_table \<Rightarrow> relation \<Rightarrow> bool" where
  "references t r = list_ex (\<lambda>k. case col_references k of None \<Rightarrow> False | Some (r', _) \<Rightarrow> r' = r) (tb_columns t)"

text \<open>A foreign key needs a column that is unique by itself.\<close>

definition may_reference :: "catalogue \<Rightarrow> column \<Rightarrow> bool" where
  "may_reference c k = (case col_references k of
       None \<Rightarrow> True
     | Some (r, n) \<Rightarrow>
         (case table_of c r of
            None \<Rightarrow> False
          | Some t \<Rightarrow>
              (case column_of t n of
                 None \<Rightarrow> False
               | Some k' \<Rightarrow> col_type k' = col_type k \<and> (col_unique k' \<or> primary_key t = [n]))))"

definition put_table :: "relation \<Rightarrow> sql_table \<Rightarrow> catalogue \<Rightarrow> catalogue" where
  "put_table r t c = c\<lparr>cat_tables := map (\<lambda>(r', t'). if r' = r then (r', t) else (r', t')) (cat_tables c)\<rparr>"

definition on_table :: "relation \<Rightarrow> (sql_table \<Rightarrow> string + sql_table) \<Rightarrow> catalogue \<Rightarrow> string + catalogue" where
  "on_table r f c = (case table_of c r of
       None \<Rightarrow> Inl ''undefined_table''
     | Some t \<Rightarrow> (case f t of Inl e \<Rightarrow> Inl e | Inr t' \<Rightarrow> Inr (put_table r t' c)))"

definition adjoin :: "string list \<Rightarrow> string list \<Rightarrow> string list" where
  "adjoin xs ys = xs @ filter (\<lambda>y. y \<notin> set xs) ys"

definition add_grant :: "string \<Rightarrow> string list \<Rightarrow> sql_table \<Rightarrow> sql_table" where
  "add_grant role privileges t =
     (case map_of (tb_grants t) role of
        None \<Rightarrow> t\<lparr>tb_grants := tb_grants t @ [(role, privileges)]\<rparr>
      | Some old \<Rightarrow> t\<lparr>tb_grants := AList.update role (adjoin old privileges) (tb_grants t)\<rparr>)"

subsection \<open>One operation\<close>

text \<open>The row an insert stores: every column by its value, its default or NULL.\<close>

definition row_accepted :: "catalogue \<Rightarrow> sql_table \<Rightarrow> (string \<times> sql_value) list \<Rightarrow> bool" where
  "row_accepted c t row =
     (list_all (\<lambda>(n, _). column_of t n \<noteq> None) row \<and>
      list_all (\<lambda>k. col_nullable k \<or> col_default k \<noteq> None \<or> map_of row (col_name k) \<noteq> None) (tb_columns t) \<and>
      (tb_rls_forced t \<longrightarrow> map_of row ''tenant_id'' = map_option V_Text (cat_tenant_setting c)))"

definition run_ddl :: "ddl \<Rightarrow> catalogue \<Rightarrow> string + catalogue" where
  "run_ddl op c = (case op of
     Create_Schema s \<Rightarrow> Inr (if s \<in> set (cat_schemas c) then c else c\<lparr>cat_schemas := cat_schemas c @ [s]\<rparr>)
   | Drop_Schema s cascade \<Rightarrow>
       if s \<notin> set (cat_schemas c) then Inr c
       else if \<not> cascade \<and> list_ex (\<lambda>((_, s'), _). s' = s) (cat_tables c) then Inl ''dependent_objects_still_exist''
       else Inr (c\<lparr>cat_schemas := removeAll s (cat_schemas c), cat_tables := filter (\<lambda>((_, s'), _). s' \<noteq> s) (cat_tables c),
                  cat_usage := filter (\<lambda>(s', _). s' \<noteq> s) (cat_usage c)\<rparr>)
   | Create_Table r columns checks uniques \<Rightarrow>
       if snd r \<notin> set (cat_schemas c) then Inl ''invalid_schema_name''
       else if fst r \<in> set (relation_names c (snd r)) then Inl ''duplicate_table''
       else if \<not> distinct (map col_name columns) then Inl ''duplicate_column''
       else if \<not> list_all (may_reference c) columns then Inl ''invalid_foreign_key''
       else if \<not> list_all (\<lambda>(_, ns). list_all (\<lambda>n. n \<in> set (map col_name columns)) ns) uniques then Inl ''undefined_column''
       else Inr (c\<lparr>cat_tables := cat_tables c @
              [(r, \<lparr>tb_columns = columns, tb_checks = checks, tb_uniques = uniques, tb_indexes = [], tb_rls_enabled = False,
                    tb_rls_forced = False, tb_policies = [], tb_grants = [], tb_rows = []\<rparr>)]\<rparr>)
   | Drop_Table r \<Rightarrow>
       (case table_of c r of
          None \<Rightarrow> Inl ''undefined_table''
        | Some _ \<Rightarrow>
            if list_ex (\<lambda>(r', t). r' \<noteq> r \<and> references t r) (cat_tables c) then Inl ''dependent_objects_still_exist''
            else Inr (c\<lparr>cat_tables := filter (\<lambda>(r', _). r' \<noteq> r) (cat_tables c)\<rparr>))
   | Create_Index n r columns \<Rightarrow>
       if n \<in> set (relation_names c (snd r)) then Inl ''duplicate_table''
       else on_table r (\<lambda>t. if list_all (\<lambda>k. column_of t k \<noteq> None) columns
              then Inr (t\<lparr>tb_indexes := tb_indexes t @ [(n, columns)]\<rparr>) else Inl ''undefined_column'') c
   | Add_Column r k \<Rightarrow>
       if \<not> may_reference c k then Inl ''invalid_foreign_key''
       else on_table r (\<lambda>t. if column_of t (col_name k) \<noteq> None then Inl ''duplicate_column''
              else if \<not> col_nullable k \<and> col_default k = None \<and> tb_rows t \<noteq> [] then Inl ''not_null_violation''
              else Inr (t\<lparr>tb_columns := tb_columns t @ [k]\<rparr>)) c
   | Drop_Column r n \<Rightarrow>
       if list_ex (\<lambda>(_, t). list_ex (\<lambda>k. col_references k = Some (r, n)) (tb_columns t)) (cat_tables c)
       then Inl ''dependent_objects_still_exist''
       else on_table r (\<lambda>t. if column_of t n = None then Inl ''undefined_column''
              else Inr (t\<lparr>tb_columns := filter (\<lambda>k. col_name k \<noteq> n) (tb_columns t),
                          tb_indexes := filter (\<lambda>(_, ks). n \<notin> set ks) (tb_indexes t),
                          tb_uniques := filter (\<lambda>(_, ks). n \<notin> set ks) (tb_uniques t)\<rparr>)) c
   | Enable_Row_Level_Security r \<Rightarrow> on_table r (\<lambda>t. Inr (t\<lparr>tb_rls_enabled := True\<rparr>)) c
   | Force_Row_Level_Security r \<Rightarrow> on_table r (\<lambda>t. Inr (t\<lparr>tb_rls_forced := True\<rparr>)) c
   | Create_Policy p r \<Rightarrow> on_table r (\<lambda>t. if po_name p \<in> set (map po_name (tb_policies t)) then Inl ''duplicate_object''
              else Inr (t\<lparr>tb_policies := tb_policies t @ [p]\<rparr>)) c
   | Create_Role n attributes \<Rightarrow>
       Inr (if map_of (cat_roles c) n \<noteq> None then c else c\<lparr>cat_roles := cat_roles c @ [(n, attributes)]\<rparr>)
   | Drop_Role n \<Rightarrow>
       if list_ex (\<lambda>(_, t). map_of (tb_grants t) n \<noteq> None) (cat_tables c) \<or> list_ex (\<lambda>(_, r). r = n) (cat_usage c)
       then Inl ''dependent_objects_still_exist'' else Inr (c\<lparr>cat_roles := filter (\<lambda>(n', _). n' \<noteq> n) (cat_roles c)\<rparr>)
   | Grant_Usage ss role \<Rightarrow>
       if \<not> list_all (\<lambda>s. s \<in> set (cat_schemas c)) ss then Inl ''invalid_schema_name''
       else if map_of (cat_roles c) role = None then Inl ''undefined_object''
       else Inr (c\<lparr>cat_usage := cat_usage c @ filter (\<lambda>u. u \<notin> set (cat_usage c)) (map (\<lambda>s. (s, role)) ss)\<rparr>)
   | Grant_On_Table privileges r role \<Rightarrow>
       if map_of (cat_roles c) role = None then Inl ''undefined_object''
       else on_table r (\<lambda>t. Inr (add_grant role privileges t)) c
   | Grant_On_Schema privileges s role \<Rightarrow>
       if s \<notin> set (cat_schemas c) then Inl ''invalid_schema_name''
       else if map_of (cat_roles c) role = None then Inl ''undefined_object''
       else Inr (c\<lparr>cat_tables := map (\<lambda>((n, s'), t). ((n, s'), if s' = s then add_grant role privileges t else t)) (cat_tables c)\<rparr>)
   | Set_Tenant s \<Rightarrow> Inr (c\<lparr>cat_tenant_setting := Some s\<rparr>)
   | Insert_Row r row \<Rightarrow> on_table r (\<lambda>t. if row_accepted c t row then Inr (t\<lparr>tb_rows := tb_rows t @ [row]\<rparr>)
              else Inl ''insufficient_privilege_or_not_null'') c)"

primrec run_script :: "ddl list \<Rightarrow> catalogue \<Rightarrow> string + catalogue" where
  "run_script [] c = Inr c"
| "run_script (op # ops) c = (case run_ddl op c of Inl e \<Rightarrow> Inl e | Inr c' \<Rightarrow> run_script ops c')"

lemma run_script_append: "run_script (xs @ ys) c = (case run_script xs c of Inl e \<Rightarrow> Inl e | Inr c' \<Rightarrow> run_script ys c')"
  by (induction xs arbitrary: c) (auto split: sum.splits)

subsection \<open>Creating tables and dropping them again\<close>

definition new_table ::
  "column list \<Rightarrow> (string \<times> string) list \<Rightarrow> (string \<times> string list) list \<Rightarrow> (string \<times> string list) list \<Rightarrow> sql_table" where
  "new_table columns checks uniques indexes =
     \<lparr>tb_columns = columns, tb_checks = checks, tb_uniques = uniques, tb_indexes = indexes, tb_rls_enabled = False,
      tb_rls_forced = False, tb_policies = [], tb_grants = [], tb_rows = []\<rparr>"

text \<open>\<open>op.create_table\<close> and the \<open>op.create_index\<close> calls after it.\<close>

fun create_script :: "relation \<times> sql_table \<Rightarrow> ddl list" where
  "create_script (r, t) =
     Create_Table r (tb_columns t) (tb_checks t) (tb_uniques t) # map (\<lambda>(n, ks). Create_Index n r ks) (tb_indexes t)"

definition with_tables :: "(relation \<times> sql_table) list \<Rightarrow> catalogue \<Rightarrow> catalogue" where
  "with_tables ts c = c\<lparr>cat_tables := cat_tables c @ ts\<rparr>"

definition bare :: "sql_table \<Rightarrow> bool" where
  "bare t \<longleftrightarrow> t = new_table (tb_columns t) (tb_checks t) (tb_uniques t) (tb_indexes t)"

definition table_ok :: "catalogue \<Rightarrow> relation \<Rightarrow> sql_table \<Rightarrow> bool" where
  "table_ok c r t =
     (let columns = map col_name (tb_columns t); names = fst r # map fst (tb_indexes t); taken = relation_names c (snd r)
      in snd r \<in> set (cat_schemas c) \<and> distinct names \<and> list_all (\<lambda>n. n \<notin> set taken) names \<and> distinct columns \<and>
         list_all (may_reference c) (tb_columns t) \<and>
         list_all (\<lambda>(_, ns). list_all (\<lambda>n. n \<in> set columns) ns) (tb_uniques t) \<and>
         list_all (\<lambda>(_, ns). list_all (\<lambda>n. n \<in> set columns) ns) (tb_indexes t))"

fun creatable :: "catalogue \<Rightarrow> (relation \<times> sql_table) list \<Rightarrow> bool" where
  "creatable c [] = True"
| "creatable c ((r, t) # ts) = (table_ok c r t \<and> creatable (with_tables [(r, t)] c) ts)"

lemma table_of_relation: "fst r \<notin> set (relation_names c (snd r)) \<Longrightarrow> table_of c r = None"
  by (cases r) (auto simp: table_of_def relation_names_def map_of_eq_None_iff)

lemma put_last:
  assumes "table_of c r = None"
  shows "put_table r t' (with_tables [(r, t)] c) = with_tables [(r, t')] c"
proof -
  have "map (\<lambda>(r', u). if r' = r then (r', t') else (r', u)) (cat_tables c) = cat_tables c"
    by (rule map_idI) (use assms in \<open>force simp: table_of_def map_of_eq_None_iff\<close>)
  then show ?thesis by (simp add: put_table_def with_tables_def)
qed

lemma table_of_last: "table_of c r = None \<Longrightarrow> table_of (with_tables [(r, t)] c) r = Some t"
  by (simp add: table_of_def with_tables_def map_add_def)

lemma relation_names_last:
  "relation_names (with_tables [((n, s), t)] c) s = relation_names c s @ n # map fst (tb_indexes t)"
  by (simp add: relation_names_def with_tables_def)

lemma column_of_None: "column_of t n = None \<longleftrightarrow> n \<notin> set (map col_name (tb_columns t))"
  by (auto simp: column_of_def find_None_iff)

lemma run_create_indexes:
  assumes "table_of c r = None" "distinct (map fst (tb_indexes t @ ixs))" "fst r \<notin> set (map fst ixs)"
    "list_all (\<lambda>n. n \<notin> set (relation_names c (snd r))) (map fst ixs)"
    "list_all (\<lambda>(_, ns). list_all (\<lambda>n. n \<in> set (map col_name (tb_columns t))) ns) ixs"
  shows "run_script (map (\<lambda>(n, ks). Create_Index n r ks) ixs) (with_tables [(r, t)] c) =
    Inr (with_tables [(r, t\<lparr>tb_indexes := tb_indexes t @ ixs\<rparr>)] c)"
  using assms
proof (induction ixs arbitrary: t)
  case (Cons ix ixs)
  obtain n ks where ix: "ix = (n, ks)" by fastforce
  obtain m s where r: "r = (m, s)" by fastforce
  have step: "run_ddl (Create_Index n r ks) (with_tables [(r, t)] c) =
      Inr (with_tables [(r, t\<lparr>tb_indexes := tb_indexes t @ [(n, ks)]\<rparr>)] c)"
    using Cons.prems ix r
    by (auto simp: run_ddl_def on_table_def table_of_last put_last relation_names_last column_of_None list_all_iff)
  have "run_script (map (\<lambda>(n, ks). Create_Index n r ks) ixs)
      (with_tables [(r, t\<lparr>tb_indexes := tb_indexes t @ [(n, ks)]\<rparr>)] c) =
      Inr (with_tables [(r, t\<lparr>tb_indexes := (tb_indexes t @ [(n, ks)]) @ ixs\<rparr>)] c)"
    using Cons.IH [of "t\<lparr>tb_indexes := tb_indexes t @ [(n, ks)]\<rparr>"] Cons.prems ix by simp
  with step ix show ?case by simp
qed simp

lemma run_create:
  assumes "table_ok c r t" "bare t"
  shows "run_script (create_script (r, t)) c = Inr (with_tables [(r, t)] c)"
proof -
  let ?t = "new_table (tb_columns t) (tb_checks t) (tb_uniques t) []"
  have ok: "snd r \<in> set (cat_schemas c)" "fst r \<notin> set (relation_names c (snd r))" "distinct (fst r # map fst (tb_indexes t))"
    "list_all (\<lambda>n. n \<notin> set (relation_names c (snd r))) (map fst (tb_indexes t))"
    "distinct (map col_name (tb_columns t))" "list_all (may_reference c) (tb_columns t)"
    "list_all (\<lambda>(_, ns). list_all (\<lambda>n. n \<in> set (map col_name (tb_columns t))) ns) (tb_uniques t)"
    "list_all (\<lambda>(_, ns). list_all (\<lambda>n. n \<in> set (map col_name (tb_columns t))) ns) (tb_indexes t)"
    using assms(1) unfolding table_ok_def Let_def list.set_map by simp_all
  have create: "run_ddl (Create_Table r (tb_columns t) (tb_checks t) (tb_uniques t)) c = Inr (with_tables [(r, ?t)] c)"
    unfolding run_ddl_def using ok(1,2,5-7) by (simp add: with_tables_def new_table_def)
  have "run_script (map (\<lambda>(n, ks). Create_Index n r ks) (tb_indexes t)) (with_tables [(r, ?t)] c) =
      Inr (with_tables [(r, ?t\<lparr>tb_indexes := tb_indexes ?t @ tb_indexes t\<rparr>)] c)"
    by (rule run_create_indexes) (use ok table_of_relation in \<open>simp_all add: new_table_def\<close>)
  moreover have "?t\<lparr>tb_indexes := tb_indexes ?t @ tb_indexes t\<rparr> = t"
    using assms(2) unfolding bare_def by (metis (no_types, lifting) append_Nil new_table_def sql_table.select_convs(4) sql_table.update_convs(4))
  ultimately show ?thesis using create by simp
qed

text \<open>A list of tables that can be created one after the other is created.\<close>

lemma run_create_all:
  "creatable c ts \<Longrightarrow> list_all (\<lambda>(_, t). bare t) ts \<Longrightarrow> run_script (concat (map create_script ts)) c = Inr (with_tables ts c)"
proof (induction ts arbitrary: c)
  case (Cons rt ts)
  obtain r t where rt: "rt = (r, t)" by fastforce
  with Cons run_create [of c r t] have "run_script (create_script (r, t)) c = Inr (with_tables [(r, t)] c)" by simp
  with Cons rt show ?case by (simp add: run_script_append with_tables_def del: create_script.simps)
qed (simp add: with_tables_def)

text \<open>A catalogue is closed when its relations are distinct and no foreign key leads out of it.\<close>

definition closed_catalogue :: "catalogue \<Rightarrow> bool" where
  "closed_catalogue c \<longleftrightarrow> distinct (map fst (cat_tables c)) \<and>
     (\<forall>(r, t) \<in> set (cat_tables c). \<forall>r'. references t r' \<longrightarrow> r' \<in> fst ` set (cat_tables c))"

lemma with_tables_simps [simp]:
  "cat_schemas (with_tables ts c) = cat_schemas c" "cat_tables (with_tables ts c) = cat_tables c @ ts"
  "cat_roles (with_tables ts c) = cat_roles c" "cat_usage (with_tables ts c) = cat_usage c"
  "cat_tenant_setting (with_tables ts c) = cat_tenant_setting c"
  "with_tables us (with_tables ts c) = with_tables (ts @ us) c" "with_tables [] c = c"
  by (simp_all add: with_tables_def)

lemma creatable_append: "creatable c (xs @ ys) \<longleftrightarrow> creatable c xs \<and> creatable (with_tables xs c) ys"
  by (induction c xs rule: creatable.induct) (auto simp: with_tables_def)

lemma table_ok_fresh: "table_ok c r t \<Longrightarrow> r \<notin> fst ` set (cat_tables c)"
  using table_of_relation [of r c] by (auto simp: table_ok_def Let_def table_of_def map_of_eq_None_iff)

lemma table_ok_references:
  assumes "table_ok c r t" "references t r'"
  shows "r' \<in> fst ` set (cat_tables c)"
proof -
  from assms(2) obtain k n where k: "k \<in> set (tb_columns t)" "col_references k = Some (r', n)"
    by (auto simp: references_def list_ex_iff split: option.splits)
  with assms(1) have "may_reference c k" by (simp add: table_ok_def Let_def list_all_iff)
  with k(2) obtain t' where "table_of c r' = Some t'" by (auto simp: may_reference_def split: option.splits)
  from map_of_SomeD [OF this [unfolded table_of_def]] show ?thesis by force
qed

lemma creatable_closed: "creatable c ts \<Longrightarrow> closed_catalogue c \<Longrightarrow> closed_catalogue (with_tables ts c)"
proof (induction c ts rule: creatable.induct)
  case (2 c r t ts)
  then have "closed_catalogue (with_tables [(r, t)] c)"
    using table_ok_fresh [of c r t] table_ok_references [of c r t] by (fastforce simp: closed_catalogue_def)
  with 2 show ?case by simp
qed simp

lemma creatable_columns: "creatable c ts \<Longrightarrow> (r, t) \<in> set ts \<Longrightarrow> distinct (map col_name (tb_columns t))"
  by (induction c ts rule: creatable.induct) (auto simp: table_ok_def Let_def)

text \<open>Row-level security, grants and rows do not touch what a foreign key sees.\<close>

definition same_columns :: "(relation \<times> sql_table) list \<Rightarrow> (relation \<times> sql_table) list \<Rightarrow> bool" where
  "same_columns ts us \<longleftrightarrow> map (\<lambda>(r, t). (r, tb_columns t)) ts = map (\<lambda>(r, t). (r, tb_columns t)) us"

lemma same_columns_fst: "same_columns ts us \<Longrightarrow> map fst ts = map fst us"
  unfolding same_columns_def by (drule arg_cong [where f = "map fst"]) (simp add: case_prod_beta comp_def)

lemma same_columns_mem:
  assumes "same_columns ts us" "(r, u) \<in> set us"
  shows "\<exists>t. (r, t) \<in> set ts \<and> tb_columns t = tb_columns u"
proof -
  have "(r, tb_columns u) \<in> set (map (\<lambda>(r, t). (r, tb_columns t)) us)" using assms(2) by force
  with assms(1) have "(r, tb_columns u) \<in> set (map (\<lambda>(r, t). (r, tb_columns t)) ts)" by (simp only: same_columns_def)
  then show ?thesis by (auto simp: eq_commute)
qed

lemma same_columns_sym: "same_columns ts us \<Longrightarrow> same_columns us ts"
  by (simp add: same_columns_def)

lemma same_columns_map: "(\<And>r t. tb_columns (f r t) = tb_columns t) \<Longrightarrow> same_columns ts (map (\<lambda>(r, t). (r, f r t)) ts)"
  by (simp add: same_columns_def comp_def case_prod_beta)

lemma references_columns: "tb_columns t = tb_columns u \<Longrightarrow> references t r = references u r"
  by (simp add: references_def)

lemma closed_same_columns:
  assumes "closed_catalogue c" "same_columns (cat_tables c) (cat_tables c')"
  shows "closed_catalogue c'"
proof -
  have rels: "map fst (cat_tables c') = map fst (cat_tables c)" using same_columns_fst [OF assms(2)] by simp
  have "r' \<in> fst ` set (cat_tables c')" if u: "(r, u) \<in> set (cat_tables c')" "references u r'" for r u r'
  proof -
    from same_columns_mem [OF assms(2) u(1)] obtain t where "(r, t) \<in> set (cat_tables c)" "tb_columns t = tb_columns u" by blast
    moreover from this(2) u(2) have "references t r'" using references_columns by blast
    ultimately have "(r, t) \<in> set (cat_tables c)" "references t r'" by blast+
    with assms(1) have "r' \<in> fst ` set (cat_tables c)" unfolding closed_catalogue_def by blast
    with rels show ?thesis by (metis list.set_map)
  qed
  with assms(1) rels show ?thesis unfolding closed_catalogue_def by (simp only:) blast
qed

text \<open>Dropping the created tables, the last one first, undoes their creation, whatever was done to them in
  between.\<close>

lemma run_drop_all:
  assumes "closed_catalogue c" "creatable c ts" "same_columns ts us"
  shows "run_script (map Drop_Table (rev (map fst ts))) (with_tables us c) = Inr c"
  using assms(2,3)
proof (induction ts arbitrary: us rule: rev_induct)
  case Nil
  then show ?case by (simp add: same_columns_def)
next
  case (snoc rt ts)
  obtain r t where rt: "rt = (r, t)" by fastforce
  from snoc.prems(2) obtain us' u where us: "us = us' @ [(r, u)]" "same_columns ts us'" "tb_columns u = tb_columns t"
    unfolding same_columns_def rt by (cases us rule: rev_cases) auto
  have ok: "creatable c ts" "table_ok (with_tables ts c) r t" using snoc.prems(1) rt by (simp_all add: creatable_append)
  let ?d = "with_tables us c"
  have closed: "closed_catalogue (with_tables us' c)"
    by (rule closed_same_columns [OF creatable_closed [OF ok(1) assms(1)]]) (use us(2) in \<open>simp add: same_columns_def\<close>)
  have "map fst (cat_tables (with_tables us' c)) = map fst (cat_tables (with_tables ts c))"
    using same_columns_fst [OF us(2)] by simp
  with table_ok_fresh [OF ok(2)] have fresh: "r \<notin> fst ` set (cat_tables (with_tables us' c))"
    by (metis list.set_map)
  have unreferenced: "\<not> references t' r" if "(r', t') \<in> set (cat_tables (with_tables us' c))" for r' t'
  proof
    assume "references t' r"
    with closed that have "r \<in> fst ` set (cat_tables (with_tables us' c))" unfolding closed_catalogue_def by blast
    with fresh show False by blast
  qed
  have tables: "cat_tables ?d = cat_tables (with_tables us' c) @ [(r, u)]" by (simp add: us(1))
  have "\<not> list_ex (\<lambda>(r', t). r' \<noteq> r \<and> references t r) (cat_tables ?d)"
    unfolding tables list_ex_iff using unreferenced by auto
  moreover have "map_of (cat_tables (with_tables us' c)) r = None" by (rule map_of_eq_None_iff [THEN iffD2, OF fresh])
  then have "table_of ?d r = Some u" unfolding table_of_def tables map_of_append by (simp add: map_add_def)
  moreover have "filter (\<lambda>(r', _). r' \<noteq> r) (cat_tables (with_tables us' c)) = cat_tables (with_tables us' c)"
    by (rule filter_True) (use fresh in force)
  then have "filter (\<lambda>(r', _). r' \<noteq> r) (cat_tables ?d) = cat_tables (with_tables us' c)" unfolding tables by simp
  ultimately have "run_ddl (Drop_Table r) ?d = Inr (with_tables us' c)"
    unfolding run_ddl_def by (simp add: with_tables_def)
  with snoc.IH [OF ok(1) us(2)] rt show ?case by simp
qed

subsection \<open>Altering tables\<close>

definition alter :: "relation set \<Rightarrow> (sql_table \<Rightarrow> sql_table) \<Rightarrow> catalogue \<Rightarrow> catalogue" where
  "alter R g c = c\<lparr>cat_tables := map (\<lambda>(r, t). (r, if r \<in> R then g t else t)) (cat_tables c)\<rparr>"

lemma alter_simps [simp]:
  "cat_schemas (alter R g c) = cat_schemas c" "cat_roles (alter R g c) = cat_roles c" "cat_usage (alter R g c) = cat_usage c"
  "cat_tenant_setting (alter R g c) = cat_tenant_setting c" "map fst (cat_tables (alter R g c)) = map fst (cat_tables c)"
  by (simp_all add: alter_def comp_def case_prod_beta)

lemma map_of_altered: "map_of (map (\<lambda>(r, t). (r, f r t)) ts) r = map_option (f r) (map_of ts r)"
  by (induction ts) auto

lemma table_of_alter: "table_of (alter R g c) r = map_option (\<lambda>t. if r \<in> R then g t else t) (table_of c r)"
  using map_of_altered [of "\<lambda>r t. if r \<in> R then g t else t" "cat_tables c" r] by (simp add: table_of_def alter_def)

lemma alter_alter: "R \<inter> S = {} \<Longrightarrow> alter R g (alter S g c) = alter (S \<union> R) g c"
  by (simp add: alter_def comp_def case_prod_beta) (rule arg_cong [where f = "\<lambda>ts. c\<lparr>cat_tables := ts\<rparr>"], auto)

lemma alter_none: "alter {} g c = c"
  by (simp add: alter_def case_prod_beta)

lemma on_table_alter:
  assumes "distinct (map fst (cat_tables c))" "table_of c r = Some t" "f t = Inr (g t)"
  shows "on_table r f c = Inr (alter {r} g c)"
proof -
  have "(if r' = r then (r', g t) else (r', u)) = (r', if r' \<in> {r} then g u else u)" if "(r', u) \<in> set (cat_tables c)" for r' u
    using map_of_is_SomeI [OF assms(1), of r' u] that assms(2) by (auto simp: table_of_def)
  then have "map (\<lambda>(r', t'). if r' = r then (r', g t) else (r', t')) (cat_tables c) =
      map (\<lambda>(r', u). (r', if r' \<in> {r} then g u else u)) (cat_tables c)"
    by (intro map_cong) auto
  with assms(2,3) show ?thesis by (simp add: on_table_def put_table_def alter_def)
qed

text \<open>A script that alters one table, run for several tables.\<close>

lemma run_each:
  assumes step: "\<And>c r t. distinct (map fst (cat_tables c)) \<Longrightarrow> cat_roles c = roles \<Longrightarrow> table_of c r = Some t \<Longrightarrow> P t \<Longrightarrow>
      run_script (script r) c = Inr (alter {r} g c)"
    and "distinct rs" "distinct (map fst (cat_tables c))" "cat_roles c = roles" "\<forall>r \<in> set rs. \<exists>t. table_of c r = Some t \<and> P t"
  shows "run_script (concat (map script rs)) c = Inr (alter (set rs) g c)"
  using assms(2-)
proof (induction rs arbitrary: c)
  case (Cons r rs)
  then obtain t where "table_of c r = Some t" "P t" by auto
  then have one: "run_script (script r) c = Inr (alter {r} g c)" using step [OF Cons.prems(2,3)] by blast
  have "run_script (concat (map script rs)) (alter {r} g c) = Inr (alter (set rs) g (alter {r} g c))"
  proof (rule Cons.IH)
    show "\<forall>q \<in> set rs. \<exists>t. table_of (alter {r} g c) q = Some t \<and> P t"
    proof
      fix q assume q: "q \<in> set rs"
      with Cons.prems(1,4) obtain t where "table_of c q = Some t" "P t" "q \<noteq> r" by auto
      then show "\<exists>t. table_of (alter {r} g c) q = Some t \<and> P t" by (simp add: table_of_alter)
    qed
  qed (use Cons.prems in auto)
  moreover have "set rs \<inter> {r} = {}" using Cons.prems(1) by auto
  ultimately show ?case using one by (simp add: run_script_append alter_alter)
qed (simp add: alter_none)

lemma run_enable_each:
  assumes "distinct rs" "distinct (map fst (cat_tables c))" "\<forall>r \<in> set rs. \<exists>t. table_of c r = Some t \<and> tb_policies t = []"
  shows "run_script (concat (map (\<lambda>r. [Enable_Row_Level_Security r, Force_Row_Level_Security r, Create_Policy p r]) rs)) c =
    Inr (alter (set rs) (\<lambda>t. t\<lparr>tb_rls_enabled := True, tb_rls_forced := True, tb_policies := [p]\<rparr>) c)"
proof (rule run_each [where P = "\<lambda>t. tb_policies t = []" and roles = "cat_roles c"])
  fix c r t assume c: "distinct (map fst (cat_tables c))" "table_of c r = Some t" "tb_policies t = []"
  let ?e = "\<lambda>t. t\<lparr>tb_rls_enabled := True\<rparr>" and ?f = "\<lambda>t. t\<lparr>tb_rls_forced := True\<rparr>" and ?p = "\<lambda>t. t\<lparr>tb_policies := [p]\<rparr>"
  have 1: "run_ddl (Enable_Row_Level_Security r) c = Inr (alter {r} ?e c)"
    unfolding run_ddl_def using on_table_alter [OF c(1,2), of "\<lambda>t. Inr (?e t)" ?e] by simp
  have 2: "run_ddl (Force_Row_Level_Security r) (alter {r} ?e c) = Inr (alter {r} ?f (alter {r} ?e c))"
    unfolding run_ddl_def using on_table_alter [of "alter {r} ?e c" r "?e t" "\<lambda>t. Inr (?f t)" ?f] c by (simp add: table_of_alter)
  have 3: "run_ddl (Create_Policy p r) (alter {r} ?f (alter {r} ?e c)) = Inr (alter {r} ?p (alter {r} ?f (alter {r} ?e c)))"
    unfolding run_ddl_def
    using on_table_alter [of "alter {r} ?f (alter {r} ?e c)" r "?f (?e t)" _ ?p] c by (simp add: table_of_alter)
  have "alter {r} ?p (alter {r} ?f (alter {r} ?e c)) = alter {r} (\<lambda>t. ?p (?f (?e t))) c"
    by (simp add: alter_def comp_def case_prod_beta)
  with 1 2 3 show "run_script [Enable_Row_Level_Security r, Force_Row_Level_Security r, Create_Policy p r] c =
      Inr (alter {r} (\<lambda>t. t\<lparr>tb_rls_enabled := True, tb_rls_forced := True, tb_policies := [p]\<rparr>) c)"
    by simp
qed (use assms in auto)

lemma run_grant_each:
  assumes "distinct rs" "distinct (map fst (cat_tables c))" "\<forall>r \<in> set rs. table_of c r \<noteq> None" "map_of (cat_roles c) role \<noteq> None"
  shows "run_script (map (\<lambda>r. Grant_On_Table ps r role) rs) c = Inr (alter (set rs) (add_grant role ps) c)"
proof -
  have "run_script (concat (map (\<lambda>r. [Grant_On_Table ps r role]) rs)) c = Inr (alter (set rs) (add_grant role ps) c)"
  proof (rule run_each [where P = "\<lambda>_. True" and roles = "cat_roles c"])
    fix d r t assume "distinct (map fst (cat_tables d))" "cat_roles d = cat_roles c" "table_of d r = Some t"
    with on_table_alter [of d r t "\<lambda>t. Inr (add_grant role ps t)" "add_grant role ps"] assms(4)
    show "run_script [Grant_On_Table ps r role] d = Inr (alter {r} (add_grant role ps) d)" by (simp add: run_ddl_def)
  qed (use assms in auto)
  then show ?thesis by (simp add: concat_map_singleton)
qed

text \<open>What the creation of further tables sees of a catalogue.\<close>

definition seen_by_create :: "catalogue \<Rightarrow> string list \<times> (relation \<times> column list \<times> (string \<times> string list) list) list" where
  "seen_by_create c = (cat_schemas c, map (\<lambda>(r, t). (r, tb_columns t, tb_indexes t)) (cat_tables c))"

lemma seen_table_of:
  assumes "seen_by_create c = seen_by_create d"
  shows "map_option (\<lambda>t. (tb_columns t, tb_indexes t)) (table_of c r) = map_option (\<lambda>t. (tb_columns t, tb_indexes t)) (table_of d r)"
  using assms map_of_altered [of "\<lambda>r t. (tb_columns t, tb_indexes t)" "cat_tables c" r]
    map_of_altered [of "\<lambda>r t. (tb_columns t, tb_indexes t)" "cat_tables d" r]
  by (simp add: seen_by_create_def table_of_def)

lemma seen_may_reference:
  assumes "seen_by_create c = seen_by_create d"
  shows "may_reference c k = may_reference d k"
proof (cases "col_references k")
  case (Some rn)
  obtain r n where rn: "rn = (r, n)" by fastforce
  let ?ok = "\<lambda>t. case column_of t n of None \<Rightarrow> False | Some k' \<Rightarrow> col_type k' = col_type k \<and> (col_unique k' \<or> primary_key t = [n])"
  have form: "may_reference c k = (case table_of c r of None \<Rightarrow> False | Some t \<Rightarrow> ?ok t)" for c
    by (simp add: may_reference_def Some rn)
  have same: "?ok t = ?ok u" if "tb_columns t = tb_columns u" for t u
    unfolding primary_key_def column_of_def that ..
  have "rel_option (\<lambda>t u. tb_columns t = tb_columns u) (table_of c r) (table_of d r)"
    using seen_table_of [OF assms, of r] by (cases "table_of c r"; cases "table_of d r") simp_all
  then show ?thesis unfolding form
  proof (cases rule: option.rel_cases)
    case (Some t u)
    show "(case table_of c r of None \<Rightarrow> False | Some t \<Rightarrow> ?ok t) = (case table_of d r of None \<Rightarrow> False | Some t \<Rightarrow> ?ok t)"
      unfolding Some(1,2) option.case by (rule same [OF Some(3)])
  qed simp
qed (simp add: may_reference_def)

lemma seen_relation_names:
  assumes "seen_by_create c = seen_by_create d"
  shows "relation_names c s = relation_names d s"
proof -
  have names: "relation_names c s = concat (map (\<lambda>(r, v). if snd r = s then fst r # map fst (snd v) else []) (snd (seen_by_create c)))" for c
    unfolding relation_names_def seen_by_create_def snd_conv map_map
    by (intro arg_cong [where f = concat] map_cong refl) auto
  show ?thesis unfolding names assms ..
qed

lemma seen_creatable: "seen_by_create c = seen_by_create d \<Longrightarrow> creatable c ts = creatable d ts"
proof (induction ts arbitrary: c d)
  case (Cons rt ts)
  obtain r t where rt: "rt = (r, t)" by fastforce
  have "seen_by_create (with_tables [(r, t)] c) = seen_by_create (with_tables [(r, t)] d)"
    using Cons.prems by (simp add: seen_by_create_def)
  moreover have "table_ok c r t = table_ok d r t"
  proof -
    have "may_reference c = may_reference d" using seen_may_reference [OF Cons.prems] by blast
    moreover have "cat_schemas c = cat_schemas d" using Cons.prems by (simp add: seen_by_create_def)
    ultimately show ?thesis unfolding table_ok_def Let_def seen_relation_names [OF Cons.prems] by simp
  qed
  ultimately show ?case unfolding rt creatable.simps using Cons.IH by blast
qed simp

lemma seen_alter: "(\<And>t. tb_columns (g t) = tb_columns t \<and> tb_indexes (g t) = tb_indexes t) \<Longrightarrow>
    seen_by_create (alter R g c) = seen_by_create c"
  by (simp add: seen_by_create_def alter_def case_prod_beta)

lemma same_columns_alter: "(\<And>t. tb_columns (g t) = tb_columns t) \<Longrightarrow> same_columns (cat_tables c) (cat_tables (alter R g c))"
  by (simp add: same_columns_def alter_def comp_def case_prod_beta)

lemma same_columns_trans: "same_columns ts us \<Longrightarrow> same_columns us vs \<Longrightarrow> same_columns ts vs"
  by (simp add: same_columns_def)

lemma closed_alter:
  assumes "\<And>t r. references (g t) r = references t r" "closed_catalogue c"
  shows "closed_catalogue (alter R g c)"
proof -
  have "r' \<in> fst ` set (cat_tables (alter R g c))" if u: "(r, u) \<in> set (cat_tables (alter R g c))" "references u r'" for r u r'
  proof -
    from u(1) obtain t where t: "(r, t) \<in> set (cat_tables c)" "u = (if r \<in> R then g t else t)" by (auto simp: alter_def)
    with u(2) assms(1) have "references t r'" by (cases "r \<in> R") simp_all
    with assms(2) t(1) have "r' \<in> fst ` set (cat_tables c)" unfolding closed_catalogue_def by blast
    then show ?thesis by (metis alter_simps(5) list.set_map)
  qed
  with assms(2) show ?thesis unfolding closed_catalogue_def alter_simps(5) by blast
qed

lemma alter_compose: "alter R f (alter R g c) = alter R (\<lambda>t. f (g t)) c"
  by (simp add: alter_def comp_def case_prod_beta)

lemma alter_id:
  assumes "distinct (map fst (cat_tables c))" "\<And>t. r \<in> R \<Longrightarrow> table_of c r = Some t \<Longrightarrow> g t = t" "R \<subseteq> {r}"
  shows "alter R g c = c"
proof -
  have "map (\<lambda>(r', t). (r', if r' \<in> R then g t else t)) (cat_tables c) = cat_tables c"
  proof (rule map_idI)
    fix x assume x: "x \<in> set (cat_tables c)"
    obtain r' t where "x = (r', t)" by fastforce
    with x assms show "(case x of (r', t) \<Rightarrow> (r', if r' \<in> R then g t else t)) = x"
      using map_of_is_SomeI [OF assms(1), of r' t] by (auto simp: table_of_def)
  qed
  then show ?thesis by (simp add: alter_def)
qed

lemma alter_last:
  assumes "set (map fst ts) = R" "R \<inter> fst ` set (cat_tables c) = {}"
  shows "alter R g (with_tables ts c) = with_tables (map (\<lambda>(r, t). (r, g t)) ts) c"
proof -
  have "map (\<lambda>(r, t). (r, if r \<in> R then g t else t)) (cat_tables c) = cat_tables c"
    by (rule map_idI) (use assms(2) in force)
  moreover have "map (\<lambda>(r, t). (r, if r \<in> R then g t else t)) ts = map (\<lambda>(r, t). (r, g t)) ts"
    using assms(1) by force
  ultimately show ?thesis by (simp add: alter_def with_tables_def)
qed

lemma seen_alter_cong:
  assumes "\<And>t u. tb_columns t = tb_columns u \<Longrightarrow> tb_columns (g t) = tb_columns (g u)" "\<And>t. tb_indexes (g t) = tb_indexes t"
    "seen_by_create c = seen_by_create d"
  shows "seen_by_create (alter R g c) = seen_by_create (alter R g d)"
proof -
  let ?seen = "\<lambda>(r :: relation, t). (r, tb_columns t, tb_indexes t)" and ?alter = "\<lambda>(r, t). (r, if r \<in> R then g t else t)"
  have "list_all2 (\<lambda>x y. ?seen x = ?seen y) (cat_tables c) (cat_tables d)"
    using assms(3) unfolding seen_by_create_def prod.inject list_all2_eq list_all2_map1 list_all2_map2 by blast
  then have "list_all2 (\<lambda>x y. ?seen (?alter x) = ?seen (?alter y)) (cat_tables c) (cat_tables d)"
  proof (rule list_all2_mono)
    fix x y :: "relation \<times> sql_table" assume same: "?seen x = ?seen y"
    obtain r t q u where xy: "x = (r, t)" "y = (q, u)" by (meson surj_pair)
    with same have "r = q" and columns: "tb_columns t = tb_columns u" and "tb_indexes t = tb_indexes u" by simp_all
    with assms(1) [OF columns] assms(2) xy show "?seen (?alter x) = ?seen (?alter y)" by (cases "q \<in> R") simp_all
  qed
  then have "map ?seen (map ?alter (cat_tables c)) = map ?seen (map ?alter (cat_tables d))"
    unfolding list_all2_eq list_all2_map1 list_all2_map2 .
  with assms(3) show ?thesis by (simp add: seen_by_create_def alter_def)
qed

definition refers :: "catalogue \<Rightarrow> relation \<Rightarrow> string \<Rightarrow> bool" where
  "refers c r n = list_ex (\<lambda>(_, t). list_ex (\<lambda>k. col_references k = Some (r, n)) (tb_columns t)) (cat_tables c)"

lemma refers_same_columns:
  assumes "same_columns (cat_tables c) (cat_tables d)"
  shows "refers c r n = refers d r n"
proof -
  have "refers c r n = list_ex (\<lambda>(_, ks). list_ex (\<lambda>k. col_references k = Some (r, n)) ks) (map (\<lambda>(r, t). (r, tb_columns t)) (cat_tables c))" for c
    by (simp add: refers_def list_ex_iff case_prod_beta)
  with assms show ?thesis by (simp add: same_columns_def)
qed

end
