(* ===== verification/Metrics.thy ===== *)
theory Metrics
  imports Floats
begin

text \<open>
  The HTTP metrics of \<open>observability/metrics.py\<close> and the middleware that records them,
  \<open>api/middleware/metrics.py\<close>.  A request is two steps on the shared metrics, the one before the
  application runs and the one of the \<open>finally\<close> block; what happens between them, for this and for
  every other request, is a step relation.  Durations are what the clock measured.
\<close>

record metrics =
  mt_requests_total :: "string \<times> string \<times> string \<Rightarrow> nat"
  mt_duration_seconds :: "string \<times> string \<Rightarrow> rat list"
  mt_in_flight :: int

definition no_metrics :: metrics where
  "no_metrics = \<lparr>mt_requests_total = (\<lambda>_. 0), mt_duration_seconds = (\<lambda>_. []), mt_in_flight = 0\<rparr>"

subsection \<open>The middleware\<close>

text \<open>What the application sends, and the scope, into which the router writes the path of the matched
  route.  \<open>status\<close> may be missing from a message or be no integer.\<close>

datatype asgi_message = Response_Start "int option" | Response_Body

record metrics_scope =
  ms_type :: string
  ms_method :: string
  ms_route :: "string option"

definition coerce_status_code :: "int option \<Rightarrow> int" where
  "coerce_status_code raw_status = (case raw_status of Some code \<Rightarrow> code | None \<Rightarrow> 500)"

definition send_wrapper :: "asgi_message \<Rightarrow> int \<Rightarrow> int" where
  "send_wrapper message code = (case message of Response_Start raw \<Rightarrow> coerce_status_code raw | Response_Body \<Rightarrow> code)"

definition route_template :: "metrics_scope \<Rightarrow> string" where
  "route_template scope = (case ms_route scope of Some path \<Rightarrow> path | None \<Rightarrow> ''unmatched'')"

definition metrics_enter :: "metrics \<Rightarrow> metrics" where
  "metrics_enter m = m\<lparr>mt_in_flight := mt_in_flight m + 1\<rparr>"

definition metrics_leave :: "metrics_scope \<Rightarrow> int \<Rightarrow> rat \<Rightarrow> metrics \<Rightarrow> metrics" where
  "metrics_leave scope code duration m =
     (let route = route_template scope; timed = (ms_method scope, route);
          counted = (ms_method scope, route, show_int code)
      in m\<lparr>mt_in_flight := mt_in_flight m - 1,
           mt_duration_seconds := (mt_duration_seconds m)(timed := mt_duration_seconds m timed @ [duration]),
           mt_requests_total := (mt_requests_total m)(counted := mt_requests_total m counted + 1)\<rparr>)"

text \<open>One call from its beginning to its end: the application sends \<open>messages\<close>, leaves the scope as
  \<open>routed\<close> and returns or raises, which the metrics do not tell apart.\<close>

definition metrics_middleware :: "metrics_scope \<Rightarrow> asgi_message list \<Rightarrow> metrics_scope \<Rightarrow> rat \<Rightarrow> metrics \<Rightarrow> metrics" where
  "metrics_middleware scope messages routed duration m =
     (if ms_type scope \<noteq> ''http'' then m
      else metrics_leave routed (fold send_wrapper messages 500) duration (metrics_enter m))"

subsection \<open>Requests that overlap\<close>

record http_run =
  hr_scope :: metrics_scope
  hr_code :: int

record http_traffic =
  tr_metrics :: metrics
  tr_open :: "nat \<rightharpoonup> http_run"
  tr_closed :: "http_run list"

inductive traffic_step :: "http_traffic \<Rightarrow> http_traffic \<Rightarrow> bool" where
  passed: "ms_type (scope :: metrics_scope) \<noteq> ''http'' \<Longrightarrow> traffic_step t t"
| entered: "ms_type scope = ''http'' \<Longrightarrow> i \<notin> dom (tr_open t) \<Longrightarrow>
     traffic_step t (t\<lparr>tr_metrics := metrics_enter (tr_metrics t), tr_open := (tr_open t)(i \<mapsto> \<lparr>hr_scope = scope, hr_code = 500\<rparr>)\<rparr>)"
| routed: "tr_open t i = Some r \<Longrightarrow>
     traffic_step t (t\<lparr>tr_open := (tr_open t)(i \<mapsto> r\<lparr>hr_scope := (hr_scope r)\<lparr>ms_route := Some path\<rparr>\<rparr>)\<rparr>)"
| replied: "tr_open t i = Some r \<Longrightarrow>
     traffic_step t (t\<lparr>tr_open := (tr_open t)(i \<mapsto> r\<lparr>hr_code := send_wrapper message (hr_code r)\<rparr>)\<rparr>)"
| left: "tr_open t i = Some r \<Longrightarrow>
     traffic_step t (t\<lparr>tr_metrics := metrics_leave (hr_scope r) (hr_code r) duration (tr_metrics t),
       tr_open := (tr_open t)(i := None), tr_closed := tr_closed t @ [r]\<rparr>)"

inductive_cases traffic_stepE: "traffic_step t t'"

definition closed_as :: "http_run \<Rightarrow> string \<times> string \<times> string" where
  "closed_as r = (ms_method (hr_scope r), route_template (hr_scope r), show_int (hr_code r))"

text \<open>The gauge is the number of open requests, the counter of a label the number of closed requests of
  that label, and there are as many durations as counts.\<close>

definition metered :: "http_traffic \<Rightarrow> bool" where
  "metered t \<longleftrightarrow> finite (dom (tr_open t)) \<and> mt_in_flight (tr_metrics t) = int (card (dom (tr_open t))) \<and>
     (\<forall>l. mt_requests_total (tr_metrics t) l = count_list (map closed_as (tr_closed t)) l) \<and>
     (\<forall>method route. length (mt_duration_seconds (tr_metrics t) (method, route)) =
        length (filter (\<lambda>r. ms_method (hr_scope r) = method \<and> route_template (hr_scope r) = route) (tr_closed t)))"

definition idle :: http_traffic where
  "idle = \<lparr>tr_metrics = no_metrics, tr_open = Map.empty, tr_closed = []\<rparr>"

lemma metered_idle: "metered idle"
  by (simp add: metered_def idle_def no_metrics_def)

lemma card_dom_open: "finite (dom m) \<Longrightarrow> m i = Some r \<Longrightarrow> int (card (dom m - {i})) = int (card (dom m)) - 1"
  using card_Suc_Diff1 [of "dom m" i] by (simp add: domI)

lemma metered_step:
  assumes "traffic_step t t'" "metered t"
  shows "metered t'"
  using assms
proof (cases rule: traffic_step.cases)
  case (entered scope i)
  with assms(2) show ?thesis by (simp add: metered_def metrics_enter_def domIff)
next
  case (routed i r path)
  with assms(2) show ?thesis by (simp add: metered_def insert_absorb domI)
next
  case (replied i r message)
  with assms(2) show ?thesis by (simp add: metered_def insert_absorb domI)
next
  case (left i r duration)
  with assms(2) show ?thesis
    by (simp add: metered_def metrics_leave_def Let_def card_dom_open closed_as_def)
qed auto

lemma metered_always: "traffic_step\<^sup>*\<^sup>* idle t \<Longrightarrow> metered t"
  by (induction rule: rtranclp_induct) (auto simp: metered_idle intro: metered_step)

text \<open>A request that runs alone leaves the gauge as it was, whatever its application did.\<close>

lemma in_flight_restored: "mt_in_flight (metrics_middleware scope messages r d m) = mt_in_flight m"
  by (simp add: metrics_middleware_def metrics_leave_def metrics_enter_def Let_def)

text \<open>A request whose application raised before it sent anything counts as a 500.\<close>

lemma silent_failure_counts_500:
  assumes "ms_type scope = ''http''" "ms_method r = method" "ms_route r = None"
  shows "mt_requests_total (metrics_middleware scope [] r d m) (method, ''unmatched'', ''500'') =
    Suc (mt_requests_total m (method, ''unmatched'', ''500''))"
proof -
  have "show_int 500 = ''500''" by code_simp
  with assms show ?thesis
    by (simp add: metrics_middleware_def metrics_leave_def metrics_enter_def route_template_def Let_def)
qed

end
