(* ===== verification/Migrations.thy ===== *)
theory Migrations
  imports Ddl Initial_State
begin

text \<open>
  The three migrations of \<open>migrations/versions\<close>, statement by statement, and their run through
  \<open>migrations/env.py\<close>: upgrading and downgrading as Alembic does it, in one transaction, with the
  revision kept in a \<open>VARCHAR(32)\<close> column.
\<close>

subsection \<open>Columns\<close>

definition pk_column :: "string \<Rightarrow> sql_type \<Rightarrow> column" where
  "pk_column n t = \<lparr>col_name = n, col_type = t, col_primary_key = True, col_nullable = False, col_references = None,
     col_unique = False, col_default = None\<rparr>"

definition required :: "string \<Rightarrow> sql_type \<Rightarrow> column" where
  "required n t = \<lparr>col_name = n, col_type = t, col_primary_key = False, col_nullable = False, col_references = None,
     col_unique = False, col_default = None\<rparr>"

definition nullable :: "string \<Rightarrow> sql_type \<Rightarrow> column" where
  "nullable n t = (required n t)\<lparr>col_nullable := True\<rparr>"

definition foreign :: "string \<Rightarrow> relation \<Rightarrow> string \<Rightarrow> column" where
  "foreign n r k = (required n Sql_Text)\<lparr>col_references := Some (r, k)\<rparr>"

definition unique_column :: "column \<Rightarrow> column" where
  "unique_column c = c\<lparr>col_unique := True\<rparr>"

definition defaulted :: "string \<Rightarrow> column \<Rightarrow> column" where
  "defaulted d c = c\<lparr>col_default := Some d\<rparr>"

definition in_condition :: "string \<Rightarrow> string list \<Rightarrow> string" where
  "in_condition n values = n @ '' IN ('' @ str_join '', '' (map (\<lambda>v. [CHR 0x27] @ v @ [CHR 0x27]) values) @ '')''"

definition APP_ROLE :: string where
  "APP_ROLE = ''finassist_app''"

definition READ_WRITE :: "string list" where
  "READ_WRITE = [''SELECT'', ''INSERT'', ''UPDATE'', ''DELETE'']"

definition tenant_isolation :: policy where
  "tenant_isolation =
     \<lparr>po_name = ''tenant_isolation'',
      po_using = ''tenant_id = current_setting('' @ [CHR 0x27] @ ''app.tenant_id'' @ [CHR 0x27] @ '', true)'',
      po_with_check = ''tenant_id = current_setting('' @ [CHR 0x27] @ ''app.tenant_id'' @ [CHR 0x27] @ '', true)''\<rparr>"

definition enable_rls :: "relation \<Rightarrow> ddl list" where
  "enable_rls r = [Enable_Row_Level_Security r, Force_Row_Level_Security r, Create_Policy tenant_isolation r]"

subsection \<open>\<open>0001_initial_schema\<close>\<close>

definition APPLICATION_STATUSES :: "string list" where
  "APPLICATION_STATUSES =
    [''DRAFT'', ''SUBMITTED'', ''INTAKE_VALIDATION'', ''DOCUMENT_PROCESSING'', ''VERIFICATION'',
     ''POLICY_EVALUATION'', ''AFFORDABILITY_EVALUATION'', ''FRAUD_ANALYSIS'', ''RISK_SYNTHESIS'',
     ''AWAITING_HUMAN_REVIEW'', ''APPROVED'', ''DECLINED'', ''NEEDS_MORE_INFORMATION'', ''ESCALATED'',
     ''CANCELLED'']"

definition create_schemas :: "ddl list" where
  "create_schemas = map Create_Schema [''identity'', ''applications'', ''integration'', ''audit'']"

definition tenants_table :: sql_table where
  "tenants_table = new_table
      [pk_column ''tenant_id'' Sql_Text, required ''name'' Sql_Text, required ''created_at'' Sql_Timestamptz]
      []
      []
      []"

definition products_table :: sql_table where
  "products_table = new_table
      [pk_column ''product_id'' Sql_Text, foreign ''tenant_id'' (''tenants'', ''identity'') ''tenant_id'',
       unique_column (required ''code'' Sql_Text), required ''name'' Sql_Text, required ''currency'' Sql_Text,
       required ''min_amount'' (Sql_Numeric 18 2), required ''max_amount'' (Sql_Numeric 18 2),
       required ''min_term_months'' Sql_Integer, required ''max_term_months'' Sql_Integer,
       defaulted ''true'' (required ''is_active'' Sql_Boolean), required ''created_at'' Sql_Timestamptz]
      [(''ck_product_amount_bounds'', ''min_amount > 0 AND max_amount >= min_amount''),
       (''ck_product_term_bounds'', ''min_term_months >= 1 AND max_term_months >= min_term_months'')]
      []
      [(''ix_products_tenant_id'', [''tenant_id''])]"

definition applicants_table :: sql_table where
  "applicants_table = new_table
      [pk_column ''applicant_id'' Sql_Text, foreign ''tenant_id'' (''tenants'', ''identity'') ''tenant_id'',
       required ''given_name'' Sql_Text, required ''family_name'' Sql_Text,
       required ''date_of_birth'' Sql_Date, required ''email'' Sql_Text,
       required ''created_at'' Sql_Timestamptz]
      []
      []
      [(''ix_applicants_tenant_id'', [''tenant_id''])]"

definition applications_table :: sql_table where
  "applications_table = new_table
      [pk_column ''application_id'' Sql_Text, foreign ''tenant_id'' (''tenants'', ''identity'') ''tenant_id'',
       foreign ''applicant_id'' (''applicants'', ''applications'') ''applicant_id'',
       foreign ''product_id'' (''products'', ''applications'') ''product_id'',
       required ''requested_amount'' (Sql_Numeric 18 2), required ''currency'' Sql_Text,
       required ''requested_term_months'' Sql_Integer, required ''status'' Sql_Text,
       required ''version'' Sql_Integer, required ''created_at'' Sql_Timestamptz,
       required ''updated_at'' Sql_Timestamptz]
      [(''ck_application_amount_positive'', ''requested_amount > 0''),
       (''ck_application_term_positive'', ''requested_term_months >= 1''),
       (''ck_application_version_positive'', ''version >= 1''),
       (''ck_application_status_valid'', in_condition ''status'' APPLICATION_STATUSES)]
      []
      [(''ix_applications_tenant_id'', [''tenant_id''])]"

definition application_versions_table :: sql_table where
  "application_versions_table = new_table
      [pk_column ''id'' Sql_Text,
       foreign ''application_id'' (''applications'', ''applications'') ''application_id'',
       foreign ''tenant_id'' (''tenants'', ''identity'') ''tenant_id'', required ''version'' Sql_Integer,
       required ''status'' Sql_Text, required ''requested_amount'' (Sql_Numeric 18 2),
       required ''currency'' Sql_Text, required ''requested_term_months'' Sql_Integer,
       required ''applicant_id'' Sql_Text, required ''product_id'' Sql_Text,
       required ''recorded_at'' Sql_Timestamptz]
      []
      [(''uq_application_version'', [''application_id'', ''version''])]
      [(''ix_application_versions_application_id'', [''application_id'']),
       (''ix_application_versions_tenant_id'', [''tenant_id''])]"

definition consent_records_table :: sql_table where
  "consent_records_table = new_table
      [pk_column ''id'' Sql_Text, foreign ''tenant_id'' (''tenants'', ''identity'') ''tenant_id'',
       foreign ''application_id'' (''applications'', ''applications'') ''application_id'',
       required ''consent_type'' Sql_Text, required ''consent_version'' Sql_Text,
       required ''granted_at'' Sql_Timestamptz]
      []
      []
      [(''ix_consent_records_tenant_id'', [''tenant_id''])]"

definition state_transitions_table :: sql_table where
  "state_transitions_table = new_table
      [pk_column ''id'' Sql_Text,
       foreign ''application_id'' (''applications'', ''applications'') ''application_id'',
       foreign ''tenant_id'' (''tenants'', ''identity'') ''tenant_id'', required ''previous_status'' Sql_Text,
       required ''new_status'' Sql_Text, required ''reason'' Sql_Text,
       required ''occurred_at'' Sql_Timestamptz]
      []
      []
      [(''ix_state_transitions_application_id'', [''application_id'']),
       (''ix_state_transitions_tenant_id'', [''tenant_id''])]"

definition outbox_events_table :: sql_table where
  "outbox_events_table = new_table
      [pk_column ''event_id'' Sql_Text, required ''tenant_id'' Sql_Text, required ''event_type'' Sql_Text,
       required ''schema_version'' Sql_Integer, required ''occurred_at'' Sql_Timestamptz,
       required ''aggregate_type'' Sql_Text, required ''aggregate_id'' Sql_Text,
       nullable ''correlation_id'' Sql_Text, nullable ''causation_id'' Sql_Text,
       required ''payload'' Sql_Jsonb, nullable ''published_at'' Sql_Timestamptz,
       required ''created_at'' Sql_Timestamptz]
      []
      []
      [(''ix_outbox_events_tenant_id'', [''tenant_id'']),
       (''ix_outbox_events_published_at'', [''published_at''])]"

definition inbox_messages_table :: sql_table where
  "inbox_messages_table = new_table
      [pk_column ''event_id'' Sql_Text, pk_column ''consumer_name'' Sql_Text, required ''processed_at'' Sql_Timestamptz]
      []
      []
      []"

definition idempotency_keys_table :: sql_table where
  "idempotency_keys_table = new_table
      [pk_column ''tenant_id'' Sql_Text, pk_column ''operation_name'' Sql_Text, pk_column ''idempotency_key'' Sql_Text,
       required ''reserved_at'' Sql_Timestamptz]
      []
      []
      []"

definition audit_events_table :: sql_table where
  "audit_events_table = new_table
      [pk_column ''event_id'' Sql_Text, required ''tenant_id'' Sql_Text, required ''occurred_at'' Sql_Timestamptz,
       required ''event_type'' Sql_Text, required ''aggregate_type'' Sql_Text,
       required ''aggregate_id'' Sql_Text, required ''payload'' Sql_Jsonb,
       nullable ''correlation_id'' Sql_Text, required ''prev_hash'' Sql_Text, required ''hash'' Sql_Text,
       required ''created_at'' Sql_Timestamptz]
      []
      []
      [(''ix_audit_events_tenant_id'', [''tenant_id'']),
       (''ix_audit_events_aggregate_id'', [''aggregate_id''])]"

definition audit_hashes_table :: sql_table where
  "audit_hashes_table = new_table
      [pk_column ''tenant_id'' Sql_Text, nullable ''latest_event_id'' Sql_Text, required ''latest_hash'' Sql_Text,
       required ''updated_at'' Sql_Timestamptz]
      []
      []
      []"

definition tables_0001 :: "(relation \<times> sql_table) list" where
  "tables_0001 =
    [((''tenants'', ''identity''), tenants_table),
     ((''products'', ''applications''), products_table),
     ((''applicants'', ''applications''), applicants_table),
     ((''applications'', ''applications''), applications_table),
     ((''application_versions'', ''applications''), application_versions_table),
     ((''consent_records'', ''applications''), consent_records_table),
     ((''state_transitions'', ''applications''), state_transitions_table),
     ((''outbox_events'', ''integration''), outbox_events_table),
     ((''inbox_messages'', ''integration''), inbox_messages_table),
     ((''idempotency_keys'', ''integration''), idempotency_keys_table),
     ((''audit_events'', ''audit''), audit_events_table),
     ((''audit_hashes'', ''audit''), audit_hashes_table)]"

definition isolated_0001 :: "relation list" where
  "isolated_0001 =
    [(''products'', ''applications''), (''applicants'', ''applications''),
     (''applications'', ''applications''), (''application_versions'', ''applications''),
     (''consent_records'', ''applications''), (''state_transitions'', ''applications''),
     (''outbox_events'', ''integration''), (''idempotency_keys'', ''integration''),
     (''audit_events'', ''audit''), (''audit_hashes'', ''audit'')]"

definition create_app_role :: "ddl list" where
  "create_app_role = [Create_Role APP_ROLE [''LOGIN'', ''NOSUPERUSER'', ''NOCREATEDB'', ''NOCREATEROLE'', ''NOBYPASSRLS'']]"

definition grant_initial :: "ddl list" where
  "grant_initial =
    [Grant_Usage [''identity'', ''applications'', ''integration'', ''audit''] APP_ROLE,
     Grant_On_Table [''SELECT''] (''tenants'', ''identity'') APP_ROLE] @
    map (\<lambda>s. Grant_On_Schema READ_WRITE s APP_ROLE) [''applications'', ''integration'', ''audit'']"

definition seed_demo :: "ddl list" where
  "seed_demo =
    [Insert_Row (''tenants'', ''identity'')
       [(''tenant_id'', V_Text DEMO_TENANT_ID), (''name'', V_Text ''demo-bank''), (''created_at'', V_Now)],
     Set_Tenant DEMO_TENANT_ID,
     Insert_Row (''products'', ''applications'')
       [(''product_id'', V_Text (prod_id demo_product)), (''tenant_id'', V_Text DEMO_TENANT_ID),
        (''code'', V_Text ''PERSONAL_LOAN_USD''), (''name'', V_Text ''Unsecured Personal Loan (USD)''),
        (''currency'', V_Text ''USD''), (''min_amount'', V_Number 1000), (''max_amount'', V_Number 25000),
        (''min_term_months'', V_Number 6), (''max_term_months'', V_Number 60), (''is_active'', V_Bool True),
        (''created_at'', V_Now)]]"

definition upgrade_0001 :: "ddl list" where
  "upgrade_0001 =
    create_schemas @ concat (map create_script tables_0001) @
    concat (map enable_rls isolated_0001) @ create_app_role @ grant_initial @ seed_demo"

definition downgrade_0001 :: "ddl list" where
  "downgrade_0001 =
    [Drop_Table (''audit_hashes'', ''audit''),
     Drop_Table (''audit_events'', ''audit''),
     Drop_Table (''idempotency_keys'', ''integration''),
     Drop_Table (''inbox_messages'', ''integration''),
     Drop_Table (''outbox_events'', ''integration''),
     Drop_Table (''state_transitions'', ''applications''),
     Drop_Table (''consent_records'', ''applications''),
     Drop_Table (''application_versions'', ''applications''),
     Drop_Table (''applications'', ''applications''),
     Drop_Table (''applicants'', ''applications''),
     Drop_Table (''products'', ''applications''),
     Drop_Table (''tenants'', ''identity''),
     Drop_Schema ''audit'' True,
     Drop_Schema ''integration'' True,
     Drop_Schema ''applications'' True,
     Drop_Schema ''identity'' True,
     Drop_Role APP_ROLE]"

subsection \<open>\<open>0002_phase3_workflow_and_review\<close>\<close>

definition add_active_workflow_id :: "ddl list" where
  "add_active_workflow_id = [Add_Column (''applications'', ''applications'') (nullable ''active_workflow_id'' Sql_Text)]"

definition documents_table :: sql_table where
  "documents_table = new_table
      [pk_column ''document_id'' Sql_Text, foreign ''tenant_id'' (''tenants'', ''identity'') ''tenant_id'',
       foreign ''application_id'' (''applications'', ''applications'') ''application_id'',
       required ''document_type'' Sql_Text, required ''object_key'' Sql_Text,
       required ''checksum_sha256'' Sql_Text, required ''size_bytes'' Sql_Integer,
       required ''uploaded_at'' Sql_Timestamptz]
      [(''ck_document_size_positive'', ''size_bytes > 0'')]
      []
      [(''ix_documents_tenant_id'', [''tenant_id'']),
       (''ix_documents_application_id'', [''application_id''])]"

definition status_projection_table :: sql_table where
  "status_projection_table = new_table
      [pk_column ''application_id'' Sql_Text, foreign ''tenant_id'' (''tenants'', ''identity'') ''tenant_id'',
       required ''status'' Sql_Text, required ''version'' Sql_Integer,
       required ''updated_at'' Sql_Timestamptz]
      []
      []
      [(''ix_status_projection_tenant_id'', [''tenant_id''])]"

definition review_queue_entries_table :: sql_table where
  "review_queue_entries_table = new_table
      [pk_column ''application_id'' Sql_Text, foreign ''tenant_id'' (''tenants'', ''identity'') ''tenant_id'',
       required ''entered_queue_at'' Sql_Timestamptz, required ''status'' Sql_Text,
       nullable ''decision'' Sql_Text, nullable ''reason'' Sql_Text, nullable ''reviewer_id'' Sql_Text,
       nullable ''decided_at'' Sql_Timestamptz]
      [(''ck_review_status_valid'', in_condition ''status'' [''pending'', ''decided''])]
      []
      [(''ix_review_queue_entries_tenant_id'', [''tenant_id''])]"

definition tables_0002 :: "(relation \<times> sql_table) list" where
  "tables_0002 =
    [((''documents'', ''applications''), documents_table),
     ((''status_projection'', ''applications''), status_projection_table)]"

definition tables_review :: "(relation \<times> sql_table) list" where
  "tables_review =
    [((''review_queue_entries'', ''review''), review_queue_entries_table)]"

definition isolated_0002 :: "relation list" where
  "isolated_0002 =
    [(''documents'', ''applications''), (''status_projection'', ''applications''),
     (''review_queue_entries'', ''review'')]"

definition grant_review :: "ddl list" where
  "grant_review =
    [Grant_On_Table READ_WRITE (''inbox_messages'', ''integration'') APP_ROLE, Grant_Usage [''review''] APP_ROLE,
     Grant_On_Table READ_WRITE (''documents'', ''applications'') APP_ROLE,
     Grant_On_Table READ_WRITE (''status_projection'', ''applications'') APP_ROLE,
     Grant_On_Table READ_WRITE (''review_queue_entries'', ''review'') APP_ROLE]"

definition upgrade_0002 :: "ddl list" where
  "upgrade_0002 =
    add_active_workflow_id @ concat (map create_script tables_0002) @ [Create_Schema ''review''] @
    concat (map create_script tables_review) @ concat (map enable_rls isolated_0002) @ grant_review"

definition downgrade_0002 :: "ddl list" where
  "downgrade_0002 =
    [Drop_Table (''review_queue_entries'', ''review''),
     Drop_Schema ''review'' False,
     Drop_Table (''status_projection'', ''applications''),
     Drop_Table (''documents'', ''applications''),
     Drop_Column (''applications'', ''applications'') ''active_workflow_id'']"

subsection \<open>\<open>0003_phase4_documents\<close>\<close>

definition extraction_runs_table :: sql_table where
  "extraction_runs_table = new_table
      [pk_column ''run_id'' Sql_Text, foreign ''tenant_id'' (''tenants'', ''identity'') ''tenant_id'',
       foreign ''application_id'' (''applications'', ''applications'') ''application_id'',
       foreign ''document_id'' (''documents'', ''applications'') ''document_id'',
       required ''classification'' Sql_Text, required ''fact_count'' Sql_Integer,
       required ''completed_at'' Sql_Timestamptz]
      []
      []
      [(''ix_extraction_runs_tenant_id'', [''tenant_id'']),
       (''ix_extraction_runs_application_id'', [''application_id''])]"

definition extracted_facts_table :: sql_table where
  "extracted_facts_table = new_table
      [pk_column ''fact_id'' Sql_Text, foreign ''run_id'' (''extraction_runs'', ''documents'') ''run_id'',
       foreign ''tenant_id'' (''tenants'', ''identity'') ''tenant_id'',
       foreign ''application_id'' (''applications'', ''applications'') ''application_id'',
       foreign ''document_id'' (''documents'', ''applications'') ''document_id'',
       required ''fact_type'' Sql_Text, required ''value'' Sql_Text, required ''normalized_value'' Sql_Text,
       required ''confidence'' Sql_Float, required ''page'' Sql_Integer,
       required ''extraction_method'' Sql_Text, required ''extractor_version'' Sql_Text,
       required ''source_checksum'' Sql_Text, defaulted ''extracted'' (required ''status'' Sql_Text),
       required ''created_at'' Sql_Timestamptz]
      [(''ck_fact_confidence'', ''confidence >= 0.0 AND confidence <= 1.0''),
       (''ck_fact_status_valid'', in_condition ''status'' [''extracted'', ''verified'', ''contradicted'', ''superseded'', ''human_confirmed''])]
      []
      [(''ix_extracted_facts_tenant_id'', [''tenant_id'']),
       (''ix_extracted_facts_application_id'', [''application_id''])]"

definition fact_candidates_table :: sql_table where
  "fact_candidates_table = new_table
      [pk_column ''candidate_id'' Sql_Text, foreign ''fact_id'' (''extracted_facts'', ''documents'') ''fact_id'',
       foreign ''tenant_id'' (''tenants'', ''identity'') ''tenant_id'', required ''value'' Sql_Text,
       required ''confidence'' Sql_Float, required ''extraction_method'' Sql_Text,
       required ''created_at'' Sql_Timestamptz]
      []
      []
      []"

definition document_checksums_table :: sql_table where
  "document_checksums_table = new_table
      [pk_column ''checksum_sha256'' Sql_Text, foreign ''tenant_id'' (''tenants'', ''identity'') ''tenant_id'',
       foreign ''document_id'' (''documents'', ''applications'') ''document_id'',
       required ''first_seen_at'' Sql_Timestamptz]
      []
      []
      []"

definition verification_runs_table :: sql_table where
  "verification_runs_table = new_table
      [pk_column ''run_id'' Sql_Text, foreign ''tenant_id'' (''tenants'', ''identity'') ''tenant_id'',
       foreign ''application_id'' (''applications'', ''applications'') ''application_id'',
       required ''check_count'' Sql_Integer, required ''contradiction_count'' Sql_Integer,
       required ''completed_at'' Sql_Timestamptz]
      []
      []
      [(''ix_verification_runs_tenant_id'', [''tenant_id'']),
       (''ix_verification_runs_application_id'', [''application_id''])]"

definition verification_checks_table :: sql_table where
  "verification_checks_table = new_table
      [pk_column ''check_id'' Sql_Text, foreign ''run_id'' (''verification_runs'', ''verification'') ''run_id'',
       foreign ''tenant_id'' (''tenants'', ''identity'') ''tenant_id'',
       foreign ''application_id'' (''applications'', ''applications'') ''application_id'',
       required ''source_system'' Sql_Text, required ''checked_fact_type'' Sql_Text,
       nullable ''declared_value'' Sql_Text, nullable ''external_value'' Sql_Text,
       required ''verdict'' Sql_Text, required ''confidence'' Sql_Float, required ''detail'' Sql_Text,
       required ''created_at'' Sql_Timestamptz]
      [(''ck_verification_verdict_valid'', in_condition ''verdict'' [''MATCHED'', ''CONTRADICTED'', ''INSUFFICIENT_EVIDENCE''])]
      []
      [(''ix_verification_checks_tenant_id'', [''tenant_id'']),
       (''ix_verification_checks_application_id'', [''application_id''])]"

definition contradictions_table :: sql_table where
  "contradictions_table = new_table
      [pk_column ''contradiction_id'' Sql_Text,
       unique_column (foreign ''check_id'' (''verification_checks'', ''verification'') ''check_id''),
       foreign ''tenant_id'' (''tenants'', ''identity'') ''tenant_id'',
       foreign ''application_id'' (''applications'', ''applications'') ''application_id'',
       required ''source_system'' Sql_Text, required ''checked_fact_type'' Sql_Text,
       required ''detail'' Sql_Text, required ''created_at'' Sql_Timestamptz]
      []
      []
      [(''ix_contradictions_application_id'', [''application_id''])]"

definition external_response_snapshots_table :: sql_table where
  "external_response_snapshots_table = new_table
      [pk_column ''snapshot_id'' Sql_Text, foreign ''run_id'' (''verification_runs'', ''verification'') ''run_id'',
       foreign ''tenant_id'' (''tenants'', ''identity'') ''tenant_id'',
       foreign ''application_id'' (''applications'', ''applications'') ''application_id'',
       required ''source_system'' Sql_Text, required ''response_payload'' Sql_Jsonb,
       required ''captured_at'' Sql_Timestamptz]
      []
      []
      [(''ix_external_response_snapshots_application_id'', [''application_id''])]"

definition tables_0003 :: "(relation \<times> sql_table) list" where
  "tables_0003 =
    [((''extraction_runs'', ''documents''), extraction_runs_table),
     ((''extracted_facts'', ''documents''), extracted_facts_table),
     ((''fact_candidates'', ''documents''), fact_candidates_table),
     ((''document_checksums'', ''documents''), document_checksums_table),
     ((''verification_runs'', ''verification''), verification_runs_table),
     ((''verification_checks'', ''verification''), verification_checks_table),
     ((''contradictions'', ''verification''), contradictions_table),
     ((''external_response_snapshots'', ''verification''), external_response_snapshots_table)]"

definition isolated_0003 :: "relation list" where
  "isolated_0003 =
    [(''extraction_runs'', ''documents''), (''extracted_facts'', ''documents''),
     (''fact_candidates'', ''documents''), (''document_checksums'', ''documents''),
     (''verification_runs'', ''verification''), (''verification_checks'', ''verification''),
     (''contradictions'', ''verification''), (''external_response_snapshots'', ''verification'')]"

definition upgrade_0003 :: "ddl list" where
  "upgrade_0003 =
    map Create_Schema [''documents'', ''verification''] @ concat (map create_script tables_0003) @
    concat (map enable_rls isolated_0003) @ [Grant_Usage [''documents'', ''verification''] APP_ROLE] @
    map (\<lambda>r. Grant_On_Table READ_WRITE r APP_ROLE) isolated_0003"

definition downgrade_0003 :: "ddl list" where
  "downgrade_0003 =
    [Drop_Table (''external_response_snapshots'', ''verification''),
     Drop_Table (''contradictions'', ''verification''),
     Drop_Table (''verification_checks'', ''verification''),
     Drop_Table (''verification_runs'', ''verification''),
     Drop_Table (''document_checksums'', ''documents''),
     Drop_Table (''fact_candidates'', ''documents''),
     Drop_Table (''extracted_facts'', ''documents''),
     Drop_Table (''extraction_runs'', ''documents''),
     Drop_Schema ''verification'' False,
     Drop_Schema ''documents'' False]"

subsection \<open>Alembic\<close>

record migration =
  mg_revision :: string
  mg_down_revision :: "string option"
  mg_upgrade :: "ddl list"
  mg_downgrade :: "ddl list"

definition migration_0001 :: migration where
  "migration_0001 = \<lparr>mg_revision = ''0001_initial_schema'', mg_down_revision = None,
     mg_upgrade = upgrade_0001, mg_downgrade = downgrade_0001\<rparr>"

definition migration_0002 :: migration where
  "migration_0002 = \<lparr>mg_revision = ''0002_phase3_workflow_and_review'', mg_down_revision = Some ''0001_initial_schema'',
     mg_upgrade = upgrade_0002, mg_downgrade = downgrade_0002\<rparr>"

definition migration_0003 :: migration where
  "migration_0003 = \<lparr>mg_revision = ''0003_phase4_documents'', mg_down_revision = Some ''0002_phase3_workflow_and_review'',
     mg_upgrade = upgrade_0003, mg_downgrade = downgrade_0003\<rparr>"

record migrated =
  md_version :: "string option"
  md_catalogue :: catalogue

definition VERSION_COLUMN_LENGTH :: nat where
  "VERSION_COLUMN_LENGTH = 32"

definition upgrade_step :: "migration \<Rightarrow> migrated \<Rightarrow> string + migrated" where
  "upgrade_step m d =
     (if mg_down_revision m \<noteq> md_version d then Inl ''revision out of order''
      else case run_script (mg_upgrade m) (md_catalogue d) of
        Inl e \<Rightarrow> Inl e
      | Inr c \<Rightarrow>
          if VERSION_COLUMN_LENGTH < length (mg_revision m) then Inl ''string_data_right_truncation''
          else Inr \<lparr>md_version = Some (mg_revision m), md_catalogue = c\<rparr>)"

definition downgrade_step :: "migration \<Rightarrow> migrated \<Rightarrow> string + migrated" where
  "downgrade_step m d =
     (if md_version d \<noteq> Some (mg_revision m) then Inl ''revision out of order''
      else case run_script (mg_downgrade m) (md_catalogue d) of
        Inl e \<Rightarrow> Inl e
      | Inr c \<Rightarrow> Inr \<lparr>md_version = mg_down_revision m, md_catalogue = c\<rparr>)"

primrec run_steps :: "('m \<Rightarrow> migrated \<Rightarrow> string + migrated) \<Rightarrow> 'm list \<Rightarrow> migrated \<Rightarrow> string + migrated" where
  "run_steps f [] d = Inr d"
| "run_steps f (m # ms) d = (case f m d of Inl e \<Rightarrow> Inl e | Inr d' \<Rightarrow> run_steps f ms d')"

text \<open>All the steps are one transaction on one connection, so a failure leaves the database as it was and
  the tenant setting ends with the connection.\<close>

definition run_migrations ::
  "(migration \<Rightarrow> migrated \<Rightarrow> string + migrated) \<Rightarrow> migration list \<Rightarrow> migrated \<Rightarrow> (string + unit) \<times> migrated" where
  "run_migrations f ms d = (case run_steps f ms d of
       Inl e \<Rightarrow> (Inl e, d)
     | Inr d' \<Rightarrow> (Inr (), d'\<lparr>md_catalogue := (md_catalogue d')\<lparr>cat_tenant_setting := None\<rparr>\<rparr>))"

definition MIGRATIONS :: "migration list" where
  "MIGRATIONS = [migration_0001, migration_0002, migration_0003]"

definition empty_database :: migrated where
  "empty_database = \<lparr>md_version = None, md_catalogue = empty_catalogue\<rparr>"

definition head_database :: migrated where
  "head_database = snd (run_migrations upgrade_step MIGRATIONS empty_database)"

end
