(* ===== verification/Scenarios.thy ===== *)
theory Scenarios
  imports External_Clients Synthetic
begin

text \<open>
  The synthetic data of \<open>services/synthetic_data\<close>: the scenario catalogue and the generators.  The
  pseudo-random generator (\<open>random.Random\<close>) and SHA-256 are parameters; a seed is the hash of the
  scenario and the index.  Float literals are the doubles nearest to them.
\<close>

subsection \<open>The catalogue\<close>

datatype fault_behavior = NO_FAULT | TIMEOUT | SERVER_ERROR | MALFORMED_RESPONSE | RATE_LIMITED

datatype scenario_category = DATA | FAULT

record scenario =
  sc_id :: string
  sc_description :: string
  sc_category :: scenario_category
  sc_fault :: fault_behavior

definition SCENARIOS :: "scenario list" where
  "SCENARIOS =
     [\<lparr>sc_id = ''NORMAL_ELIGIBLE'',
       sc_description = ''Clean applicant: good bureau score, verified employment, healthy cash flow.'',
       sc_category = DATA, sc_fault = NO_FAULT\<rparr>,
      \<lparr>sc_id = ''THIN_FILE_BUREAU'',
       sc_description = ''Bureau has minimal credit history (few tradelines, short history length).'',
       sc_category = DATA, sc_fault = NO_FAULT\<rparr>,
      \<lparr>sc_id = ''KYC_IDENTITY_MISMATCH'',
       sc_description = ''KYC check fails: submitted identity does not match the verification source.'',
       sc_category = DATA, sc_fault = NO_FAULT\<rparr>,
      \<lparr>sc_id = ''EMPLOYER_VERIFICATION_MISMATCH'',
       sc_description = ''Employer confirms a different income/tenure than the applicant declared.'',
       sc_category = DATA, sc_fault = NO_FAULT\<rparr>,
      \<lparr>sc_id = ''DUPLICATE_IDENTITY'',
       sc_description = ''Bureau/KYC flag this identity as already associated with another case.'',
       sc_category = DATA, sc_fault = NO_FAULT\<rparr>,
      \<lparr>sc_id = ''LOW_BALANCE_NSF'',
       sc_description = ''Transaction history shows a low average balance and repeated NSF events.'',
       sc_category = DATA, sc_fault = NO_FAULT\<rparr>,
      \<lparr>sc_id = ''BUREAU_SERVICE_TIMEOUT'',
       sc_description = ''The bureau service does not respond within a reasonable time.'',
       sc_category = FAULT, sc_fault = TIMEOUT\<rparr>,
      \<lparr>sc_id = ''KYC_SERVICE_ERROR'',
       sc_description = ''The KYC service returns an unexpected server error.'',
       sc_category = FAULT, sc_fault = SERVER_ERROR\<rparr>,
      \<lparr>sc_id = ''EMPLOYER_SERVICE_MALFORMED'',
       sc_description = ''The employer verification service returns a malformed/invalid response body.'',
       sc_category = FAULT, sc_fault = MALFORMED_RESPONSE\<rparr>,
      \<lparr>sc_id = ''CORE_BANKING_RATE_LIMITED'',
       sc_description = ''The core-banking service rejects the request with a rate-limit error.'',
       sc_category = FAULT, sc_fault = RATE_LIMITED\<rparr>]"

definition DEFAULT_SCENARIO_ID :: string where
  "DEFAULT_SCENARIO_ID = ''NORMAL_ELIGIBLE''"

text \<open>\<open>SCENARIO_CATALOG\<close> is keyed by identifier; an absent or empty identifier means the default.\<close>

definition get_scenario :: "string option \<Rightarrow> string + scenario" where
  "get_scenario scenario_id =
     (let resolved_id = (case scenario_id of None \<Rightarrow> DEFAULT_SCENARIO_ID
        | Some s \<Rightarrow> if s = [] then DEFAULT_SCENARIO_ID else s)
      in case map_of (map (\<lambda>s. (sc_id s, s)) SCENARIOS) resolved_id of
           Some s \<Rightarrow> Inr s | None \<Rightarrow> Inl resolved_id)"

subsection \<open>Randomness\<close>

record 'g rng =
  rg_seed :: "nat \<Rightarrow> 'g"
  rg_randint :: "int \<Rightarrow> int \<Rightarrow> 'g \<Rightarrow> int \<times> 'g"
  rg_uniform :: "rat \<Rightarrow> rat \<Rightarrow> 'g \<Rightarrow> rat \<times> 'g"
  rg_random :: "'g \<Rightarrow> rat \<times> 'g"
  rg_choice :: "nat \<Rightarrow> 'g \<Rightarrow> nat \<times> 'g"

text \<open>What Python documents of them; \<open>choice\<close> is the index of the chosen element.\<close>

definition good_rng :: "'g rng \<Rightarrow> bool" where
  "good_rng rng \<longleftrightarrow>
     (\<forall>a b g. a \<le> b \<longrightarrow> a \<le> fst (rg_randint rng a b g) \<and> fst (rg_randint rng a b g) \<le> b) \<and>
     (\<forall>a b g. a \<le> b \<longrightarrow> a \<le> fst (rg_uniform rng a b g) \<and> fst (rg_uniform rng a b g) \<le> b) \<and>
     (\<forall>g. 0 \<le> fst (rg_random rng g) \<and> fst (rg_random rng g) < 1) \<and>
     (\<forall>n g. 0 < n \<longrightarrow> fst (rg_choice rng n g) < n)"

text \<open>The first eight bytes of the digest, that is sixteen digits of its hexadecimal form.\<close>

definition derive_seed :: "(string \<Rightarrow> string) \<Rightarrow> string \<Rightarrow> int \<Rightarrow> nat" where
  "derive_seed sha256 scenario_id index =
     foldl (\<lambda>n c. 16 * n + (case hex_val c of Some d \<Rightarrow> d | None \<Rightarrow> 0)) 0
       (take 16 (sha256 (scenario_id @ '':'' @ show_int index)))"

definition rng_for :: "(string \<Rightarrow> string) \<Rightarrow> 'g rng \<Rightarrow> string \<Rightarrow> int \<Rightarrow> 'g" where
  "rng_for sha256 rng scenario_id index = rg_seed rng (derive_seed sha256 scenario_id index)"

text \<open>\<open>int(x)\<close> of a float, and \<open>n * x\<close> of an int and a float.\<close>

definition trunc :: "rat \<Rightarrow> int" where
  "trunc x = (if x < 0 then \<lceil>x\<rceil> else \<lfloor>x\<rfloor>)"

definition int_of_product :: "int \<Rightarrow> rat \<Rightarrow> py_error + int" where
  "int_of_product n x =
     (if fl_overflows (of_int n) \<or> fl_overflows (fl (of_int n) * x) then Inl OverflowError
      else Inr (trunc (fl (fl (of_int n) * x))))"

subsection \<open>Applicants\<close>

definition GIVEN_NAMES :: "string list" where
  "GIVEN_NAMES = [''Ada'', ''Grace'', ''Alan'', ''Katherine'', ''Edsger'', ''Margaret'', ''Claude'', ''Barbara'', ''Donald'', ''Radia'']"

definition FAMILY_NAMES :: "string list" where
  "FAMILY_NAMES = [''Lovelace'', ''Hopper'', ''Turing'', ''Johnson'', ''Dijkstra'', ''Hamilton'', ''Shannon'', ''Liskov'', ''Knuth'', ''Perlman'']"

definition STREET_NAMES :: "string list" where
  "STREET_NAMES = [''Maple'', ''Oak'', ''Cedar'', ''Birch'', ''Elm'', ''Pine'', ''Willow'', ''Aspen'']"

definition CITIES :: "string list" where
  "CITIES = [''Springfield'', ''Fairview'', ''Riverside'', ''Georgetown'', ''Clinton'']"

definition EMPLOYERS :: "string list" where
  "EMPLOYERS = [''Northwind Traders Inc.'', ''Contoso Logistics LLC'', ''Fabrikam Manufacturing'', ''Globex Retail Group'', ''Initech Software'']"

definition pick :: "'g rng \<Rightarrow> string list \<Rightarrow> 'g \<Rightarrow> string \<times> 'g" where
  "pick rng xs g = (case rg_choice rng (length xs) g of (i, g') \<Rightarrow> (xs ! i, g'))"

definition synthetic_ssn :: "'g rng \<Rightarrow> 'g \<Rightarrow> string \<times> 'g" where
  "synthetic_ssn rng g =
     (let (a, g) = rg_randint rng 10 99 g; (b, g) = rg_randint rng 1000 9999 g
      in (''900-'' @ show_int a @ ''-'' @ show_int b, g))"

definition generate_applicant :: "(string \<Rightarrow> string) \<Rightarrow> 'g rng \<Rightarrow> string \<Rightarrow> int \<Rightarrow> synthetic_applicant" where
  "generate_applicant sha256 rng scenario_id index =
     (let g = rng_for sha256 rng scenario_id index;
          (given_name, g) = pick rng GIVEN_NAMES g;
          (family_name, g) = pick rng FAMILY_NAMES g;
          (birth_year, g) = rg_randint rng 1965 2002 g;
          (birth_month, g) = rg_randint rng 1 12 g;
          (birth_day, g) = rg_randint rng 1 28 g;
          (street_number, g) = rg_randint rng 100 9999 g;
          (ssn, g) = synthetic_ssn rng g;
          (street, g) = pick rng STREET_NAMES g;
          (city, g) = pick rng CITIES g;
          (employer, g) = pick rng EMPLOYERS g;
          (income, g) = rg_randint rng 35000 145000 g
      in \<lparr>sa_synthetic_id = ssn, sa_given_name = given_name, sa_family_name = family_name,
          sa_date_of_birth = Date (nat birth_year) (nat birth_month) (nat birth_day),
          sa_email = str_lower given_name @ ''.'' @ str_lower family_name @ ''.'' @ show_int index @ ''@synthetic.test'',
          sa_street = show_int street_number @ '' '' @ street @ '' St'', sa_city = city,
          sa_employer = employer, sa_income = income\<rparr>)"

end
