(* ===== verification/Mock_Services.thy ===== *)
theory Mock_Services
  imports Scenarios Verdicts
begin

text \<open>
  The generators of \<open>services/synthetic_data\<close> (KYC, employer, bureau, transactions) and the four mock
  services \<open>services/mock-kyc\<close>, \<open>mock-employer\<close>, \<open>mock-bureau\<close>, \<open>mock-core-banking\<close> that serve them over HTTP,
  with \<open>services/common\<close>.  A service's reply is what its client decodes, with the seconds a \<open>TIMEOUT\<close>
  fault slept before it.  At the end the services stand behind the application's own HTTP adapters.
\<close>

subsection \<open>Generators\<close>

datatype kyc_outcome = PASS | FAIL | REVIEW

fun kyc_outcome_value :: "kyc_outcome \<Rightarrow> string" where
  "kyc_outcome_value PASS = ''PASS''"
| "kyc_outcome_value FAIL = ''FAIL''"
| "kyc_outcome_value REVIEW = ''REVIEW''"

definition float_of :: "int \<Rightarrow> int \<Rightarrow> rat" where
  "float_of n d = fl (of_int n / of_int d)"

definition generate_kyc_result ::
  "(string \<Rightarrow> string) \<Rightarrow> 'g rng \<Rightarrow> synthetic_applicant \<Rightarrow> string \<Rightarrow> int \<Rightarrow> kyc_result" where
  "generate_kyc_result sha256 rng applicant scenario_id index =
     (let g = rng_for sha256 rng (''kyc:'' @ scenario_id @ '':'' @ sa_synthetic_id applicant) index;
          (n, g) = rg_randint rng 100000 999999 g;
          reference_id = ''KYC-'' @ show_int n
      in if scenario_id = ''KYC_IDENTITY_MISMATCH'' then
           (let (name_score, g) = rg_uniform rng (float_of 2 10) (float_of 5 10) g;
                (address_score, g) = rg_uniform rng (float_of 1 10) (float_of 4 10) g
            in \<lparr>kyc_status = kyc_outcome_value FAIL, kyc_name_score = name_score, kyc_address_score = address_score,
                kyc_birth_match = False, kyc_reference = reference_id\<rparr>)
         else if scenario_id = ''DUPLICATE_IDENTITY'' then
           (let (name_score, g) = rg_uniform rng (float_of 9 10) 1 g;
                (address_score, g) = rg_uniform rng (float_of 9 10) 1 g
            in \<lparr>kyc_status = kyc_outcome_value REVIEW, kyc_name_score = name_score, kyc_address_score = address_score,
                kyc_birth_match = True, kyc_reference = reference_id\<rparr>)
         else
           (let (name_score, g) = rg_uniform rng (float_of 92 100) 1 g;
                (address_score, g) = rg_uniform rng (float_of 9 10) 1 g
            in \<lparr>kyc_status = kyc_outcome_value PASS, kyc_name_score = name_score, kyc_address_score = address_score,
                kyc_birth_match = True, kyc_reference = reference_id\<rparr>))"

definition generate_employment_record ::
  "(string \<Rightarrow> string) \<Rightarrow> 'g rng \<Rightarrow> synthetic_applicant \<Rightarrow> string \<Rightarrow> int \<Rightarrow> py_error + synthetic_employment" where
  "generate_employment_record sha256 rng applicant scenario_id index =
     (let g = rng_for sha256 rng (''employer:'' @ scenario_id @ '':'' @ sa_synthetic_id applicant) index;
          mismatch = (scenario_id = ''EMPLOYER_VERIFICATION_MISMATCH'');
          (u, g) = (if mismatch then rg_uniform rng (float_of 4 10) (float_of 7 10) g
                    else rg_uniform rng (float_of 95 100) (float_of 105 100) g)
      in bind_result (int_of_product (sa_income applicant) u) (\<lambda>income.
         let (tenure, g) = (if mismatch then rg_randint rng 1 5 g else rg_randint rng 12 96 g)
         in Inr \<lparr>se_applicant = sa_synthetic_id applicant, se_employer = sa_employer applicant, se_confirmed = True,
              se_income = income, se_tenure = tenure\<rparr>))"

definition ACCOUNT_TYPES :: "string list" where
  "ACCOUNT_TYPES = [''credit_card'', ''auto_loan'', ''installment_loan'', ''student_loan'']"

fun generate_tradelines :: "'g rng \<Rightarrow> nat \<Rightarrow> 'g \<Rightarrow> tradeline list \<times> 'g" where
  "generate_tradelines rng 0 g = ([], g)"
| "generate_tradelines rng (Suc n) g =
     (let (account_type, g) = pick rng ACCOUNT_TYPES g;
          (opened, g) = rg_randint rng 1 15 g;
          (balance, g) = rg_randint rng 0 15000 g;
          (credit_limit, g) = rg_randint rng 1000 25000 g;
          (r, g) = rg_random rng g;
          (rest, g) = generate_tradelines rng n g
      in (\<lparr>tl_account_type = account_type, tl_opened_years_ago = opened, tl_balance = balance,
           tl_credit_limit = credit_limit, tl_delinquent = r < float_of 5 100\<rparr> # rest, g))"

definition generate_bureau_report ::
  "(string \<Rightarrow> string) \<Rightarrow> 'g rng \<Rightarrow> synthetic_applicant \<Rightarrow> string \<Rightarrow> int \<Rightarrow> credit_report" where
  "generate_bureau_report sha256 rng applicant scenario_id index =
     (let g = rng_for sha256 rng (''bureau:'' @ scenario_id @ '':'' @ sa_synthetic_id applicant) index
      in if scenario_id = ''THIN_FILE_BUREAU'' then
           (let (score, g) = rg_randint rng 580 640 g;
                (balance, g) = rg_randint rng 200 800 g;
                (inquiries, g) = rg_randint rng 0 1 g
            in \<lparr>crr_score = score,
                crr_tradelines = [\<lparr>tl_account_type = ''credit_card'', tl_opened_years_ago = 1, tl_balance = balance,
                  tl_credit_limit = 1000, tl_delinquent = False\<rparr>],
                crr_inquiries = inquiries, crr_duplicate_flag = False\<rparr>)
         else if scenario_id = ''DUPLICATE_IDENTITY'' then
           (let (score, g) = rg_randint rng 600 700 g;
                (inquiries, g) = rg_randint rng 2 6 g
            in \<lparr>crr_score = score, crr_tradelines = [], crr_inquiries = inquiries, crr_duplicate_flag = True\<rparr>)
         else
           (let (tradeline_count, g) = rg_randint rng 2 6 g;
                (tradelines, g) = generate_tradelines rng (nat tradeline_count) g;
                (score, g) = rg_randint rng 680 800 g;
                (inquiries, g) = rg_randint rng 0 3 g
            in \<lparr>crr_score = score, crr_tradelines = tradelines, crr_inquiries = inquiries, crr_duplicate_flag = False\<rparr>))"

subsection \<open>Transaction histories\<close>

definition DAYS_OF_HISTORY :: nat where
  "DAYS_OF_HISTORY = 90"

definition DEFAULT_REFERENCE_TIME :: datetime where
  "DEFAULT_REFERENCE_TIME = Datetime (Date 2026 1 1) 0 0 0 0"

fun previous_day :: "date \<Rightarrow> date" where
  "previous_day (Date y m d) =
     (if 1 < d then Date y m (d - 1)
      else if 1 < m then Date y (m - 1) (days_in_month y (m - 1))
      else Date (y - 1) 12 31)"

text \<open>\<open>now - timedelta(days=n)\<close>, for the dates after year one that occur.\<close>

fun days_before :: "datetime \<Rightarrow> nat \<Rightarrow> datetime" where
  "days_before (Datetime d h mi s us) n = Datetime ((previous_day ^^ n) d) h mi s us"

text \<open>\<open>int(income / 26 * 100)\<close>\<close>

definition payroll_amount :: "int \<Rightarrow> py_error + int" where
  "payroll_amount income =
     bind_result (int_truediv income 26) (\<lambda>q.
       if fl_overflows (q * 100) then Inl OverflowError else Inr (trunc (fl (q * 100))))"

fun generate_days ::
  "'g rng \<Rightarrow> datetime \<Rightarrow> int \<Rightarrow> nat list \<Rightarrow> int \<Rightarrow> 'g \<Rightarrow> py_error + (bank_transaction list \<times> int \<times> 'g)" where
  "generate_days rng now income [] balance g = Inr ([], balance, g)"
| "generate_days rng now income (day_offset # days) balance g =
     (let occurred_at = days_before now (DAYS_OF_HISTORY - day_offset) in
      bind_result (if day_offset mod 14 = 0
                   then bind_result (payroll_amount income) (\<lambda>amount.
                     Inr ([\<lparr>tx_occurred_at = occurred_at, tx_amount_cents = amount, tx_description = ''Payroll deposit''\<rparr>],
                          balance + amount))
                   else Inr ([], balance)) (\<lambda>(payroll, balance).
        let (r, g) = rg_random rng g;
            (card, balance, g) =
              (if r < float_of 3 10
               then (let (n, g) = rg_randint rng 500 20000 g
                     in ([\<lparr>tx_occurred_at = occurred_at, tx_amount_cents = - n, tx_description = ''Card purchase''\<rparr>],
                         balance - n, g))
               else ([], balance, g))
        in bind_result (generate_days rng now income days balance g) (\<lambda>(rest, balance, g).
             Inr (payroll @ card @ rest, balance, g))))"

definition generate_transaction_history ::
  "(string \<Rightarrow> string) \<Rightarrow> 'g rng \<Rightarrow> synthetic_applicant \<Rightarrow> string \<Rightarrow> int \<Rightarrow> datetime option \<Rightarrow> py_error + transaction_history" where
  "generate_transaction_history sha256 rng applicant scenario_id index reference_time =
     (let g = rng_for sha256 rng (''transactions:'' @ scenario_id @ '':'' @ sa_synthetic_id applicant) index;
          now = (case reference_time of None \<Rightarrow> DEFAULT_REFERENCE_TIME | Some t \<Rightarrow> t);
          low_balance = (scenario_id = ''LOW_BALANCE_NSF'');
          (starting_balance, g) = (if low_balance then rg_randint rng 5000 20000 g else rg_randint rng 150000 900000 g);
          (nsf_count, g) = (if low_balance then rg_randint rng 3 8 g else (0, g))
      in bind_result (generate_days rng now (sa_income applicant) [0..<DAYS_OF_HISTORY] starting_balance g)
           (\<lambda>(transactions, balance, g).
             Inr \<lparr>th_average_balance = max balance 0, th_nsf_count = nsf_count, th_transactions = transactions\<rparr>))"

record case_bundle =
  cb_scenario_id :: string
  cb_applicant :: synthetic_applicant
  cb_bureau :: credit_report
  cb_kyc :: kyc_result
  cb_employment :: synthetic_employment
  cb_history :: transaction_history

definition generate_case_bundle :: "(string \<Rightarrow> string) \<Rightarrow> 'g rng \<Rightarrow> string \<Rightarrow> int \<Rightarrow> py_error + case_bundle" where
  "generate_case_bundle sha256 rng scenario_id index =
     (let applicant = generate_applicant sha256 rng scenario_id index;
          bureau = generate_bureau_report sha256 rng applicant scenario_id index;
          kyc = generate_kyc_result sha256 rng applicant scenario_id index
      in bind_result (generate_employment_record sha256 rng applicant scenario_id index) (\<lambda>employment.
         bind_result (generate_transaction_history sha256 rng applicant scenario_id index None) (\<lambda>history.
           Inr \<lparr>cb_scenario_id = scenario_id, cb_applicant = applicant, cb_bureau = bureau, cb_kyc = kyc,
                cb_employment = employment, cb_history = history\<rparr>)))"

end
