(* ===== verification/Mock_Http.thy ===== *)
theory Mock_Http
  imports Mock_Services
begin

text \<open>
  The four mock services over HTTP (\<open>services/mock-*/main.py\<close>, \<open>services/common/scenario_control.py\<close>),
  and the application's adapters talking to them.  A request resolves its scenario, is validated,
  meets the scenario's fault and is then answered.  Only the types a client of the application sends
  are accepted; the coercions pydantic also performs are left out.
\<close>

subsection \<open>Scenario control\<close>

definition known_scenarios :: string where
  "known_scenarios = ''['' @ str_join '', '' (map py_repr
     [''BUREAU_SERVICE_TIMEOUT'', ''CORE_BANKING_RATE_LIMITED'', ''DUPLICATE_IDENTITY'', ''EMPLOYER_SERVICE_MALFORMED'',
      ''EMPLOYER_VERIFICATION_MISMATCH'', ''KYC_IDENTITY_MISMATCH'', ''KYC_SERVICE_ERROR'', ''LOW_BALANCE_NSF'',
      ''NORMAL_ELIGIBLE'', ''THIN_FILE_BUREAU'']) @ '']''"

definition http_exception :: "int \<Rightarrow> string \<Rightarrow> http_reply" where
  "http_exception code detail = \<lparr>rp_status = code, rp_json = Inr (HDict [(''detail'', HStr detail)])\<rparr>"

text \<open>\<open>str\<close> of a \<open>KeyError\<close> is the \<open>repr\<close> of its message.\<close>

definition unknown_scenario :: "string \<Rightarrow> http_reply" where
  "unknown_scenario s =
     http_exception 400 (py_repr (''unknown scenario_id '' @ py_repr s @ ''; known scenarios: '' @ known_scenarios))"

text \<open>The malformed body is cut off inside a literal, so decoding it raises.\<close>

definition malformed_reply :: http_reply where
  "malformed_reply = \<lparr>rp_status = 200, rp_json = Inl (ValueError ''Expecting value: line 1 column 15 (char 14)'')\<rparr>"

definition DEFAULT_FAULT_TIMEOUT_SECONDS :: rat where
  "DEFAULT_FAULT_TIMEOUT_SECONDS = 2"

text \<open>How many seconds it sleeps, and the reply it leaves with, if any.\<close>

definition apply_fault_behavior :: "rat \<Rightarrow> scenario \<Rightarrow> rat \<times> http_reply option" where
  "apply_fault_behavior timeout_seconds s = (case sc_fault s of
       NO_FAULT \<Rightarrow> (0, None)
     | TIMEOUT \<Rightarrow> (timeout_seconds, None)
     | SERVER_ERROR \<Rightarrow> (0, Some (http_exception 500 (''synthetic fault injected: '' @ sc_id s)))
     | RATE_LIMITED \<Rightarrow> (0, Some (http_exception 429 (''synthetic fault injected: '' @ sc_id s)))
     | MALFORMED_RESPONSE \<Rightarrow> (0, Some malformed_reply))"

text \<open>One endpoint: \<open>read\<close> validates the payload, \<open>answer\<close> builds the response.  The reply comes with the
  seconds the service slept before it.\<close>

definition serve_mock ::
  "(http_value \<Rightarrow> py_error + 'p) \<Rightarrow> (scenario \<Rightarrow> 'p \<Rightarrow> py_error + http_value) \<Rightarrow> string option \<Rightarrow> http_value \<Rightarrow> rat \<times> http_reply" where
  "serve_mock read answer header payload =
     (case get_scenario header of
        Inl s \<Rightarrow> (0, unknown_scenario s)
      | Inr s \<Rightarrow>
          (case read payload of
             Inl e \<Rightarrow> (0, http_exception 422 (error_str e))
           | Inr p \<Rightarrow>
               (case apply_fault_behavior DEFAULT_FAULT_TIMEOUT_SECONDS s of
                  (slept, Some reply) \<Rightarrow> (slept, reply)
                | (slept, None) \<Rightarrow> (slept,
                    (case answer s p of
                       Inl e \<Rightarrow> \<lparr>rp_status = 500, rp_json = Inl (ValueError ''Expecting value: line 1 column 1 (char 0)'')\<rparr>
                     | Inr body \<Rightarrow> \<lparr>rp_status = 200, rp_json = Inr body\<rparr>)))))"

subsection \<open>The services\<close>

definition filled :: "http_value \<Rightarrow> string \<Rightarrow> py_error + string" where
  "filled payload k = bind_result (bind_result (item payload k) as_str) (\<lambda>s.
     if s = [] then Inl (ValueError ''String should have at least 1 character'') else Inr s)"

definition positive :: "http_value \<Rightarrow> string \<Rightarrow> py_error + int" where
  "positive payload k = bind_result (bind_result (item payload k) as_int) (\<lambda>i.
     if i \<le> 0 then Inl (ValueError ''Input should be greater than 0'') else Inr i)"

definition date_field :: "http_value \<Rightarrow> string \<Rightarrow> py_error + date" where
  "date_field payload k = bind_result (bind_result (item payload k) as_str) date_fromisoformat"

definition read_kyc_request :: "http_value \<Rightarrow> py_error + synthetic_applicant" where
  "read_kyc_request payload =
     bind_result (filled payload ''given_name'') (\<lambda>given_name.
     bind_result (filled payload ''family_name'') (\<lambda>family_name.
     bind_result (date_field payload ''date_of_birth'') (\<lambda>date_of_birth.
     bind_result (filled payload ''synthetic_id'') (\<lambda>synthetic_id.
     bind_result (filled payload ''street_address'') (\<lambda>street_address.
     bind_result (filled payload ''city'') (\<lambda>city.
       Inr \<lparr>sa_synthetic_id = synthetic_id, sa_given_name = given_name, sa_family_name = family_name,
            sa_date_of_birth = date_of_birth, sa_email = [], sa_street = street_address, sa_city = city,
            sa_employer = [], sa_income = 0\<rparr>))))))"

definition kyc_response :: "string \<Rightarrow> kyc_result \<Rightarrow> http_value" where
  "kyc_response synthetic_id r =
     HDict [(''schema_version'', HInt 1), (''applicant_synthetic_id'', HStr synthetic_id), (''status'', HStr (kyc_status r)),
       (''name_match_score'', HFloat (kyc_name_score r)), (''address_match_score'', HFloat (kyc_address_score r)),
       (''date_of_birth_match'', HBool (kyc_birth_match r)), (''reference_id'', HStr (kyc_reference r))]"

definition mock_kyc :: "(string \<Rightarrow> string) \<Rightarrow> 'g rng \<Rightarrow> string option \<Rightarrow> http_value \<Rightarrow> rat \<times> http_reply" where
  "mock_kyc sha256 rng = serve_mock read_kyc_request (\<lambda>s applicant.
     Inr (kyc_response (sa_synthetic_id applicant) (generate_kyc_result sha256 rng applicant (sc_id s) 0)))"

definition read_employment_request :: "http_value \<Rightarrow> py_error + synthetic_applicant" where
  "read_employment_request payload =
     bind_result (filled payload ''given_name'') (\<lambda>given_name.
     bind_result (filled payload ''family_name'') (\<lambda>family_name.
     bind_result (filled payload ''synthetic_id'') (\<lambda>synthetic_id.
     bind_result (filled payload ''employer_name'') (\<lambda>employer_name.
     bind_result (positive payload ''declared_annual_income'') (\<lambda>income.
       Inr \<lparr>sa_synthetic_id = synthetic_id, sa_given_name = given_name, sa_family_name = family_name,
            sa_date_of_birth = Date 1990 1 1, sa_email = [], sa_street = [], sa_city = [],
            sa_employer = employer_name, sa_income = income\<rparr>)))))"

definition employment_response :: "synthetic_employment \<Rightarrow> http_value" where
  "employment_response r =
     HDict [(''schema_version'', HInt 1), (''applicant_synthetic_id'', HStr (se_applicant r)), (''employer_name'', HStr (se_employer r)),
       (''is_employment_confirmed'', HBool (se_confirmed r)), (''verified_annual_income'', HInt (se_income r)),
       (''tenure_months'', HInt (se_tenure r))]"

definition mock_employer :: "(string \<Rightarrow> string) \<Rightarrow> 'g rng \<Rightarrow> string option \<Rightarrow> http_value \<Rightarrow> rat \<times> http_reply" where
  "mock_employer sha256 rng = serve_mock read_employment_request (\<lambda>s applicant.
     bind_result (generate_employment_record sha256 rng applicant (sc_id s) 0) (\<lambda>r.
       Inr (employment_response r)))"

definition read_credit_request :: "http_value \<Rightarrow> py_error + synthetic_applicant" where
  "read_credit_request payload =
     bind_result (filled payload ''given_name'') (\<lambda>given_name.
     bind_result (filled payload ''family_name'') (\<lambda>family_name.
     bind_result (date_field payload ''date_of_birth'') (\<lambda>date_of_birth.
     bind_result (filled payload ''synthetic_id'') (\<lambda>synthetic_id.
       Inr \<lparr>sa_synthetic_id = synthetic_id, sa_given_name = given_name, sa_family_name = family_name,
            sa_date_of_birth = date_of_birth, sa_email = [], sa_street = [], sa_city = [],
            sa_employer = [], sa_income = 0\<rparr>))))"

definition tradeline_response :: "tradeline \<Rightarrow> http_value" where
  "tradeline_response t =
     HDict [(''account_type'', HStr (tl_account_type t)), (''opened_years_ago'', HInt (tl_opened_years_ago t)),
       (''balance'', HInt (tl_balance t)), (''credit_limit'', HInt (tl_credit_limit t)),
       (''is_delinquent'', HBool (tl_delinquent t))]"

definition credit_response :: "string \<Rightarrow> credit_report \<Rightarrow> http_value" where
  "credit_response synthetic_id r =
     HDict [(''schema_version'', HInt 1), (''applicant_synthetic_id'', HStr synthetic_id), (''credit_score'', HInt (crr_score r)),
       (''tradelines'', HList (map tradeline_response (crr_tradelines r))),
       (''hard_inquiries_last_12_months'', HInt (crr_inquiries r)),
       (''is_duplicate_identity_flag'', HBool (crr_duplicate_flag r))]"

definition mock_bureau :: "(string \<Rightarrow> string) \<Rightarrow> 'g rng \<Rightarrow> string option \<Rightarrow> http_value \<Rightarrow> rat \<times> http_reply" where
  "mock_bureau sha256 rng = serve_mock read_credit_request (\<lambda>s applicant.
     Inr (credit_response (sa_synthetic_id applicant) (generate_bureau_report sha256 rng applicant (sc_id s) 0)))"

definition RECENT_TRANSACTION_LIMIT :: nat where
  "RECENT_TRANSACTION_LIMIT = 10"

definition read_history_request :: "http_value \<Rightarrow> py_error + synthetic_applicant" where
  "read_history_request payload =
     bind_result (filled payload ''given_name'') (\<lambda>given_name.
     bind_result (filled payload ''family_name'') (\<lambda>family_name.
     bind_result (filled payload ''synthetic_id'') (\<lambda>synthetic_id.
     bind_result (positive payload ''declared_annual_income'') (\<lambda>income.
       Inr \<lparr>sa_synthetic_id = synthetic_id, sa_given_name = given_name, sa_family_name = family_name,
            sa_date_of_birth = Date 1990 1 1, sa_email = [], sa_street = [], sa_city = [],
            sa_employer = [], sa_income = income\<rparr>))))"

text \<open>A datetime in UTC is printed with a final \<open>Z\<close>.\<close>

definition utc_text :: "datetime \<Rightarrow> string" where
  "utc_text t = take (length (isoformat t) - 6) (isoformat t) @ ''Z''"

definition transaction_response :: "bank_transaction \<Rightarrow> http_value" where
  "transaction_response t =
     HDict [(''occurred_at'', HStr (utc_text (tx_occurred_at t))), (''amount_cents'', HInt (tx_amount_cents t)),
       (''description'', HStr (tx_description t))]"

definition history_response :: "string \<Rightarrow> transaction_history \<Rightarrow> http_value" where
  "history_response synthetic_id h =
     (let recent = drop (length (th_transactions h) - RECENT_TRANSACTION_LIMIT) (th_transactions h)
      in HDict [(''schema_version'', HInt 1), (''applicant_synthetic_id'', HStr synthetic_id),
           (''average_daily_balance_cents'', HInt (th_average_balance h)), (''nsf_count_last_90_days'', HInt (th_nsf_count h)),
           (''recent_transactions'', HList (map transaction_response recent))])"

definition mock_core_banking :: "(string \<Rightarrow> string) \<Rightarrow> 'g rng \<Rightarrow> string option \<Rightarrow> http_value \<Rightarrow> rat \<times> http_reply" where
  "mock_core_banking sha256 rng = serve_mock read_history_request (\<lambda>s applicant.
     bind_result (generate_transaction_history sha256 rng applicant (sc_id s) 0 None) (\<lambda>h.
       Inr (history_response (sa_synthetic_id applicant) h)))"

text \<open>The four services side by side, for a request with the given scenario header.\<close>

definition mock_services :: "(string \<Rightarrow> string) \<Rightarrow> 'g rng \<Rightarrow> string option \<Rightarrow> string \<Rightarrow> http_value \<Rightarrow> rat \<times> http_reply" where
  "mock_services sha256 rng header path payload =
     (if path = ''/verify'' then mock_kyc sha256 rng header payload
      else if path = ''/verify-employment'' then mock_employer sha256 rng header payload
      else if path = ''/credit-report'' then mock_bureau sha256 rng header payload
      else if path = ''/transaction-history'' then mock_core_banking sha256 rng header payload
      else (0, http_exception 404 ''Not Found''))"

subsection \<open>The adapters' connection to them\<close>

text \<open>httpx raises \<open>ReadTimeout\<close> when the answer does not begin within the adapter's timeout.  The network
  itself takes no time here: a late answer is one the service slept on.\<close>

definition read_timeout :: py_error where
  "read_timeout = ExternalError ''ReadTimeout''"

definition received :: "http_endpoint \<Rightarrow> rat \<times> http_reply \<Rightarrow> py_error + http_reply" where
  "received ep served = (case served of (slept, reply) \<Rightarrow>
     if 0 < slept \<and> ep_timeout ep \<le> slept then Inl read_timeout else Inr reply)"

text \<open>\<open>tagged_http\<close> is the connection through a test proxy that adds a scenario header to every request;
  \<open>mock_http\<close> is the connection as the application has it: its adapters send no such header.\<close>

definition tagged_http :: "(string \<Rightarrow> string) \<Rightarrow> 'g rng \<Rightarrow> string option \<Rightarrow> 'x http" where
  "tagged_http sha256 rng header =
     \<lparr>hc_get = (\<lambda>ep path x. (Inr (if path = ''/health/live''
        then \<lparr>rp_status = 200, rp_json = Inr (HDict [(''status'', HStr ''alive'')])\<rparr>
        else http_exception 404 ''Not Found''), x)),
      hc_post = (\<lambda>ep path payload x. (received ep (mock_services sha256 rng header path payload), x))\<rparr>"

definition mock_http :: "(string \<Rightarrow> string) \<Rightarrow> 'g rng \<Rightarrow> 'x http" where
  "mock_http sha256 rng = tagged_http sha256 rng None"

end
