(* ===== verification/Mock_Los.thy ===== *)
theory Mock_Los
  imports Mock_Http
begin

text \<open>
  The mock loan-origination system, \<open>services/mock-los/main.py\<close>: the one stateful mock.  Its cases are
  a dictionary kept under a lock, so one request is one step from a dictionary to the next.  The time
  and the identifier of a request are parameters.
\<close>

subsection \<open>Cases\<close>

definition VALID_STATUSES :: "string list" where
  "VALID_STATUSES =
     [''APPROVED'', ''CANCELLED'', ''DECLINED'', ''NEEDS_MORE_INFORMATION'', ''RECEIVED'', ''UNDER_REVIEW'']"

record create_case_request =
  cq_given_name :: string
  cq_family_name :: string
  cq_synthetic_id :: string
  cq_product_code :: string
  cq_amount_cents :: int
  cq_term_months :: int

record update_case_status_request =
  uq_status :: string
  uq_reason :: string

record los_case =
  lc_id :: string
  lc_request :: create_case_request
  lc_status :: string
  lc_status_reason :: "string option"
  lc_created_at :: datetime
  lc_updated_at :: datetime

type_synonym los_cases = "string \<rightharpoonup> los_case"

definition read_create_case :: "http_value \<Rightarrow> py_error + create_case_request" where
  "read_create_case payload =
     bind_result (filled payload ''given_name'') (\<lambda>given_name.
     bind_result (filled payload ''family_name'') (\<lambda>family_name.
     bind_result (filled payload ''synthetic_id'') (\<lambda>synthetic_id.
     bind_result (filled payload ''product_code'') (\<lambda>product_code.
     bind_result (positive payload ''requested_amount_cents'') (\<lambda>cents.
     bind_result (positive payload ''requested_term_months'') (\<lambda>months.
       Inr \<lparr>cq_given_name = given_name, cq_family_name = family_name, cq_synthetic_id = synthetic_id,
            cq_product_code = product_code, cq_amount_cents = cents, cq_term_months = months\<rparr>))))))"

definition read_update_case :: "http_value \<Rightarrow> py_error + update_case_status_request" where
  "read_update_case payload =
     bind_result (bind_result (item payload ''status'') as_str) (\<lambda>status.
     bind_result (filled payload ''reason'') (\<lambda>reason. Inr \<lparr>uq_status = status, uq_reason = reason\<rparr>))"

definition case_response :: "los_case \<Rightarrow> http_value" where
  "case_response c = (let q = lc_request c in
     HDict [(''schema_version'', HInt 1), (''external_case_id'', HStr (lc_id c)), (''given_name'', HStr (cq_given_name q)),
       (''family_name'', HStr (cq_family_name q)), (''synthetic_id'', HStr (cq_synthetic_id q)),
       (''product_code'', HStr (cq_product_code q)), (''requested_amount_cents'', HInt (cq_amount_cents q)),
       (''requested_term_months'', HInt (cq_term_months q)), (''status'', HStr (lc_status c)),
       (''status_reason'', (case lc_status_reason c of None \<Rightarrow> HNull | Some r \<Rightarrow> HStr r)),
       (''created_at'', HStr (utc_text (lc_created_at c))), (''updated_at'', HStr (utc_text (lc_updated_at c)))])"

subsection \<open>The three endpoints\<close>

datatype los_request =
    Create_Case http_value
  | Get_Case string
  | Update_Case_Status string http_value

definition answer_with :: "int \<Rightarrow> los_case \<Rightarrow> http_reply" where
  "answer_with code c = \<lparr>rp_status = code, rp_json = Inr (case_response c)\<rparr>"

definition case_not_found :: "string \<Rightarrow> http_reply" where
  "case_not_found i = http_exception 404 (''case '' @ i @ '' not found'')"

definition invalid_status :: http_reply where
  "invalid_status = http_exception 422 (''status must be one of ['' @ str_join '', '' (map py_repr VALID_STATUSES) @ '']'')"

definition new_case :: "datetime \<Rightarrow> string \<Rightarrow> create_case_request \<Rightarrow> los_case" where
  "new_case now uuid q =
     \<lparr>lc_id = ''LOS-'' @ uuid, lc_request = q, lc_status = ''RECEIVED'', lc_status_reason = None,
      lc_created_at = now, lc_updated_at = now\<rparr>"

definition create_case :: "datetime \<Rightarrow> string \<Rightarrow> create_case_request \<Rightarrow> los_cases \<Rightarrow> http_reply \<times> los_cases" where
  "create_case now uuid q cases =
     (let c = new_case now uuid q in (answer_with 201 c, cases(lc_id c \<mapsto> c)))"

definition get_case :: "string \<Rightarrow> los_cases \<Rightarrow> http_reply \<times> los_cases" where
  "get_case i cases = (case cases i of None \<Rightarrow> (case_not_found i, cases) | Some c \<Rightarrow> (answer_with 200 c, cases))"

definition update_case_status ::
  "datetime \<Rightarrow> string \<Rightarrow> update_case_status_request \<Rightarrow> los_cases \<Rightarrow> http_reply \<times> los_cases" where
  "update_case_status now i q cases =
     (if uq_status q \<notin> set VALID_STATUSES then (invalid_status, cases)
      else case cases i of
        None \<Rightarrow> (case_not_found i, cases)
      | Some c \<Rightarrow>
          (let updated = c\<lparr>lc_status := uq_status q, lc_status_reason := Some (uq_reason q), lc_updated_at := now\<rparr>
           in (answer_with 200 updated, cases(i \<mapsto> updated))))"

text \<open>Before each endpoint: the scenario of the header, the payload, the scenario's fault.  A timeout's sleep comes
  before the lock is taken, so it only delays the step.\<close>

definition los_endpoint ::
  "string option \<Rightarrow> py_error + 'p \<Rightarrow> ('p \<Rightarrow> los_cases \<Rightarrow> http_reply \<times> los_cases) \<Rightarrow> los_cases \<Rightarrow> http_reply \<times> los_cases" where
  "los_endpoint header payload act cases =
     (case get_scenario header of
        Inl s \<Rightarrow> (unknown_scenario s, cases)
      | Inr s \<Rightarrow>
          (case payload of
             Inl e \<Rightarrow> (http_exception 422 (error_str e), cases)
           | Inr p \<Rightarrow> (case apply_fault_behavior DEFAULT_FAULT_TIMEOUT_SECONDS s of
                (_, Some reply) \<Rightarrow> (reply, cases) | (_, None) \<Rightarrow> act p cases)))"

definition mock_los :: "datetime \<Rightarrow> string \<Rightarrow> string option \<Rightarrow> los_request \<Rightarrow> los_cases \<Rightarrow> http_reply \<times> los_cases" where
  "mock_los now uuid header r =
     (case r of
        Create_Case payload \<Rightarrow> los_endpoint header (read_create_case payload) (create_case now uuid)
      | Get_Case i \<Rightarrow> los_endpoint header (Inr i) get_case
      | Update_Case_Status i payload \<Rightarrow> los_endpoint header (read_update_case payload) (update_case_status now i))"

subsection \<open>What is stored\<close>

definition wf_request :: "create_case_request \<Rightarrow> bool" where
  "wf_request q \<longleftrightarrow> cq_given_name q \<noteq> [] \<and> cq_family_name q \<noteq> [] \<and> cq_synthetic_id q \<noteq> [] \<and> cq_product_code q \<noteq> [] \<and>
     0 < cq_amount_cents q \<and> 0 < cq_term_months q"

definition los_case_ok :: "string \<Rightarrow> los_case \<Rightarrow> bool" where
  "los_case_ok i c \<longleftrightarrow> lc_id c = i \<and> lc_status c \<in> set VALID_STATUSES \<and> wf_request (lc_request c) \<and>
     (lc_status_reason c = None \<longrightarrow> lc_status c = ''RECEIVED'' \<and> lc_updated_at c = lc_created_at c)"

definition los_ok :: "los_cases \<Rightarrow> bool" where
  "los_ok cases \<longleftrightarrow> (\<forall>i c. cases i = Some c \<longrightarrow> los_case_ok i c)"

lemma los_ok_upd: "los_ok cases \<Longrightarrow> los_case_ok i c \<Longrightarrow> los_ok (cases(i \<mapsto> c))"
  by (simp add: los_ok_def)

lemma new_case_ok: "wf_request q \<Longrightarrow> los_case_ok (lc_id (new_case now uuid q)) (new_case now uuid q)"
  by (simp add: los_case_ok_def new_case_def VALID_STATUSES_def)

lemma updated_case_ok:
  "los_case_ok i c \<Longrightarrow> v \<in> set VALID_STATUSES \<Longrightarrow>
     los_case_ok i (c\<lparr>lc_status := v, lc_status_reason := Some reason, lc_updated_at := now\<rparr>)"
  by (simp add: los_case_ok_def)

lemma filled_InrD: "filled p k = Inr s \<Longrightarrow> s \<noteq> []"
  by (auto simp: filled_def bind_result_Inr_iff split: if_splits)

lemma positive_InrD: "positive p k = Inr i \<Longrightarrow> 0 < i"
  by (auto simp: positive_def bind_result_Inr_iff split: if_splits)

lemma read_create_case_wf: "read_create_case p = Inr q \<Longrightarrow> wf_request q"
  by (auto simp: read_create_case_def bind_result_Inr_iff wf_request_def dest!: filled_InrD positive_InrD)

text \<open>A request that meets an unknown scenario, a bad payload or a fault does not touch the cases.\<close>

lemma los_endpoint_cases:
  assumes "los_endpoint header payload act cases = (reply, cases')"
  obtains "cases' = cases" | p where "payload = Inr p" "act p cases = (reply, cases')"
  using assms by (auto simp: los_endpoint_def split: sum.splits option.splits prod.splits)

lemma mock_los_keeps_ok:
  assumes "mock_los now uuid header r cases = (reply, cases')" "los_ok cases"
  shows "los_ok cases'"
proof (cases r)
  case (Create_Case payload)
  with assms(1) have "los_endpoint header (read_create_case payload) (create_case now uuid) cases = (reply, cases')"
    by (simp add: mock_los_def)
  then show ?thesis
  proof (cases rule: los_endpoint_cases)
    case (2 q)
    then show ?thesis using los_ok_upd [OF assms(2) new_case_ok [OF read_create_case_wf]]
      by (auto simp: create_case_def Let_def)
  qed (use assms(2) in simp)
next
  case (Get_Case i)
  with assms show ?thesis by (auto simp: mock_los_def get_case_def elim!: los_endpoint_cases split: option.splits)
next
  case (Update_Case_Status i payload)
  with assms(1) have "los_endpoint header (read_update_case payload) (update_case_status now i) cases = (reply, cases')"
    by (simp add: mock_los_def)
  then show ?thesis
  proof (cases rule: los_endpoint_cases)
    case (2 q)
    have found: "los_case_ok i c" if "cases i = Some c" for c using assms(2) that by (simp add: los_ok_def)
    from 2 assms(2) show ?thesis
      by (auto simp: update_case_status_def Let_def split: if_splits option.splits
          intro!: los_ok_upd updated_case_ok intro: found)
  qed (use assms(2) in simp)
qed

text \<open>No case is ever lost, and what was asked for in it and when never changes.\<close>

lemma mock_los_keeps_cases:
  assumes "mock_los now uuid header r cases = (reply, cases')" "cases i = Some c" "''LOS-'' @ uuid \<noteq> i"
  shows "\<exists>c'. cases' i = Some c' \<and> lc_id c' = lc_id c \<and> lc_request c' = lc_request c \<and> lc_created_at c' = lc_created_at c"
  using assms
  by (cases r) (auto simp: mock_los_def create_case_def new_case_def get_case_def update_case_status_def Let_def
      elim!: los_endpoint_cases split: if_splits option.splits)

text \<open>A created case is found again under its identifier, and an update is what the next read shows.\<close>

lemma created_case_found:
  assumes "create_case now uuid q cases = (reply, cases')"
  shows "get_case (''LOS-'' @ uuid) cases' = (answer_with 200 (new_case now uuid q), cases')"
  using assms by (auto simp: create_case_def get_case_def Let_def new_case_def)

lemma updated_status_read:
  assumes "cases i = Some c" "uq_status q \<in> set VALID_STATUSES" "update_case_status now i q cases = (reply, cases')"
  shows "get_case i cases' = (reply, cases') \<and>
    reply = answer_with 200 (c\<lparr>lc_status := uq_status q, lc_status_reason := Some (uq_reason q), lc_updated_at := now\<rparr>)"
  using assms by (auto simp: update_case_status_def get_case_def Let_def)

end
