(* ===== verification/Mock_Verdicts.thy ===== *)
theory Mock_Verdicts
  imports Mock_Http
begin

text \<open>
  The application's adapters in front of the mock services: every answer arrives as it was
  generated, and the scenario decides the verdicts the verification handler then reaches.
\<close>

subsection \<open>Answers arrive as generated\<close>

lemmas decode_simps = item_def as_str_def as_bool_def as_int_def as_float_def as_list_def

lemma decode_kyc_response: "decode_kyc (kyc_response sid r) = Inr r"
  by (simp add: decode_kyc_def kyc_response_def decode_simps)

lemma decode_employment_response: "decode_employment (employment_response r) = Inr \<lparr>emp_confirmed = se_confirmed r, emp_income = se_income r, emp_tenure = se_tenure r\<rparr>"
  by (simp add: decode_employment_def employment_response_def decode_simps)

lemma decode_tradeline_response: "decode_tradeline (tradeline_response t) = Inr t"
  by (simp add: decode_tradeline_def tradeline_response_def decode_simps)

lemma decode_credit_response: "decode_credit_report (credit_response sid r) = Inr r"
  using each_map [where f = decode_tradeline and g = tradeline_response, OF decode_tradeline_response]
  by (simp add: decode_credit_report_def credit_response_def decode_simps)

lemma read_kyc:
  assumes "given \<noteq> []" "family \<noteq> []" "valid_date dob" "sid \<noteq> []" "street \<noteq> []" "city \<noteq> []"
  shows "read_kyc_request (HDict [(''given_name'', HStr given), (''family_name'', HStr family),
      (''date_of_birth'', HStr (date_isoformat dob)), (''synthetic_id'', HStr sid), (''street_address'', HStr street),
      (''city'', HStr city)]) =
    Inr \<lparr>sa_synthetic_id = sid, sa_given_name = given, sa_family_name = family, sa_date_of_birth = dob, sa_email = [],
      sa_street = street, sa_city = city, sa_employer = [], sa_income = 0\<rparr>"
  using assms by (simp add: read_kyc_request_def filled_def date_field_def decode_simps date_iso_roundtrip)

lemma read_employment:
  assumes "given \<noteq> []" "family \<noteq> []" "sid \<noteq> []" "employer \<noteq> []" "0 < income"
  shows "read_employment_request (HDict [(''given_name'', HStr given), (''family_name'', HStr family), (''synthetic_id'', HStr sid),
      (''employer_name'', HStr employer), (''declared_annual_income'', HInt income)]) =
    Inr \<lparr>sa_synthetic_id = sid, sa_given_name = given, sa_family_name = family, sa_date_of_birth = Date 1990 1 1, sa_email = [],
      sa_street = [], sa_city = [], sa_employer = employer, sa_income = income\<rparr>"
  using assms by (simp add: read_employment_request_def filled_def positive_def decode_simps)

subsection \<open>Scores and incomes\<close>

lemma uniform_bounds:
  assumes "good_rng rng" "a \<le> b" "rg_uniform rng a b g = (u, g')"
  shows "a \<le> u" "u \<le> b"
  using assms unfolding good_rng_def by (metis fst_conv)+

lemma float_of_mono: "0 < d \<Longrightarrow> 0 < d' \<Longrightarrow> n * d' \<le> n' * d \<Longrightarrow> float_of n d \<le> float_of n' d'"
  unfolding float_of_def
  by (rule fl_mono) (simp add: field_simps, metis of_int_le_iff of_int_mult mult.commute)

lemma float_of_le_one: "0 < d \<Longrightarrow> n \<le> d \<Longrightarrow> float_of n d \<le> 1"
  using fl_mono [of "of_int n / of_int d" 1] by (simp add: float_of_def field_simps)

lemma kyc_matched_generated:
  assumes "good_rng rng"
  shows "kyc_matched (generate_kyc_result sha rng applicant s index) \<longleftrightarrow>
    s \<notin> {''KYC_IDENTITY_MISMATCH'', ''DUPLICATE_IDENTITY''}"
proof -
  have le: "float_0_8 \<le> float_of 92 100" "float_0_8 \<le> float_of 9 10" "float_of 92 100 \<le> 1" "float_of 9 10 \<le> 1"
    using float_of_mono [of 10 100 8 92] float_of_mono [of 10 10 8 9] float_of_le_one [of 100 92] float_of_le_one [of 10 9]
    by (simp_all add: float_of_def float_0_8_def)
  show ?thesis
    using uniform_bounds(1) [OF assms le(3)] uniform_bounds(1) [OF assms le(4)] le(1,2)
    by (auto simp: generate_kyc_result_def kyc_matched_def Let_def split: prod.splits; fastforce)
qed

text \<open>The verified income is the drawn share of the declared one, to within two dollars of rounding.\<close>

lemma float_of_near: "0 \<le> n \<Longrightarrow> n \<le> 2 * d \<Longrightarrow> 0 < d \<Longrightarrow> \<bar>float_of n d - of_int n / of_int d\<bar> \<le> 1 / 2 ^ 14"
  unfolding float_of_def by (rule fl_close) (simp_all add: divide_le_eq divide_less_eq)

lemma int_of_product_near:
  assumes "0 < d" "d < 2 ^ 38" "0 \<le> a" "a \<le> u" "u \<le> b" "b \<le> 2"
  shows "\<exists>v. int_of_product d u = Inr v \<and> a * of_int d - 2 \<le> of_int v \<and> of_int v \<le> b * of_int d + 1 \<and> \<bar>v\<bar> < 2 ^ 900"
proof -
  have d: "(0 :: rat) < of_int d" "(of_int d :: rat) < 2 ^ 38"
    using assms(1,2) by (simp, metis of_int_less_iff of_int_numeral of_int_power)
  define f where "f = fl (of_int d)"
  have "\<bar>f - of_int d\<bar> \<le> 1 / 2 ^ 14" unfolding f_def by (rule fl_close) (use d in simp_all)
  then have f: "f \<le> of_int d + 1 / 2 ^ 14" "of_int d - 1 / 2 ^ 14 \<le> f" unfolding abs_le_iff by linarith+
  have f0: "0 \<le> f" using fl_mono [of 0 "of_int d"] d by (simp add: f_def)
  have u: "0 \<le> u" "u \<le> 2" using assms by linarith+
  have "f * u \<le> (of_int d + 1 / 2 ^ 14) * b" using f u f0 assms by (intro mult_mono) auto
  also have "\<dots> = b * of_int d + b / 2 ^ 14" by (simp add: algebra_simps)
  also have "\<dots> \<le> b * of_int d + 1 / 2" using assms(6) by simp
  finally have up: "f * u \<le> b * of_int d + 1 / 2" .
  have "(of_int d - 1 / 2 ^ 14) * a \<le> f * u"
    using f u f0 assms d by (intro mult_mono) auto
  moreover have "(of_int d - 1 / 2 ^ 14) * a = a * of_int d - a / 2 ^ 14" by (simp add: algebra_simps)
  moreover have "a / 2 ^ 14 \<le> 1 / 2" using assms by simp
  ultimately have low: "a * of_int d - 1 / 2 \<le> f * u" by linarith
  have "b * of_int d \<le> 2 * of_int d" using assms d by (intro mult_right_mono) auto
  with up d have "f * u < 2 * 2 ^ 38 + 1" by linarith
  also have "(2 :: rat) * 2 ^ 38 + 1 \<le> 2 ^ 40" by simp
  finally have small: "f * u < 2 ^ 40" .
  have nonneg: "0 \<le> f * u" using f0 u by simp
  have "\<bar>fl (f * u) - f * u\<bar> \<le> 1 / 2 ^ 14" by (rule fl_close [OF nonneg small])
  then have y: "fl (f * u) \<le> f * u + 1 / 2 ^ 14" "f * u - 1 / 2 ^ 14 \<le> fl (f * u)" unfolding abs_le_iff by linarith+
  have y0: "0 \<le> fl (f * u)" using fl_mono [OF nonneg] by simp
  define v where "v = \<lfloor>fl (f * u)\<rfloor>"
  have v: "of_int v \<le> fl (f * u)" "fl (f * u) < of_int v + 1" unfolding v_def by linarith+
  have "\<not> fl_overflows (of_int d)" "\<not> fl_overflows (f * u)"
    using d small nonneg by (intro fl_no_overflow; simp)+
  then have "int_of_product d u = Inr v"
    using y0 by (simp add: int_of_product_def f_def v_def trunc_def)
  moreover have "a * of_int d - 2 \<le> of_int v" "of_int v \<le> b * of_int d + 1" using v y up low by (simp_all add: field_simps)
  moreover have "\<bar>v\<bar> < 2 ^ 900"
  proof -
    have "0 \<le> v" using y0 by (simp add: v_def)
    have "(of_int v :: rat) < of_int (2 ^ 40 + 1)" using v(1) y(1) small by simp
    then have "v < 2 ^ 40 + 1" by (simp only: of_int_less_iff)
    then show ?thesis using \<open>0 \<le> v\<close> by simp
  qed
  ultimately show ?thesis by blast
qed

subsection \<open>What the application concludes\<close>

lemma ask_mock:
  assumes "mock_services sha rng header path payload = serve_mock read answer header payload"
    "get_scenario header = Inr s" "read payload = Inr p" "apply_fault_behavior DEFAULT_FAULT_TIMEOUT_SECONDS s = (slept, fault)"
  shows "ask (tagged_http sha rng header) ep path decode payload x =
    (if 0 < slept \<and> ep_timeout ep \<le> slept then Inl read_timeout
     else case fault of
       Some reply \<Rightarrow> bind_result (raise_for_status reply) (\<lambda>_. bind_result (rp_json reply) decode)
     | None \<Rightarrow> (case answer s p of Inl e \<Rightarrow> Inl (HTTPStatusError 500) | Inr body \<Rightarrow> decode body), x)"
  using assms
  by (cases "raise_for_status (case fault of Some reply \<Rightarrow> reply | None \<Rightarrow> undefined)")
    (auto simp: ask_def tagged_http_def received_def bnd_run serve_mock_def raise_for_status_def split: option.splits sum.splits)

lemma product_in_percent:
  assumes "0 < d" "d < 2 ^ 38" "0 \<le> l" "of_int l / 100 \<le> u" "u \<le> of_int h / 100" "h \<le> 200"
  shows "\<exists>v. int_of_product d u = Inr v \<and> l * d - 200 \<le> 100 * v \<and> 100 * v \<le> h * d + 100 \<and> \<bar>v\<bar> < 2 ^ 900"
proof -
  have h: "(of_int h :: rat) / 100 \<le> 2" using assms(6) by simp
  have l: "(0 :: rat) \<le> of_int l / 100" using assms(3) by simp
  from int_of_product_near [OF assms(1,2) l assms(4,5) h] obtain v where
    v: "int_of_product d u = Inr v" "of_int l / 100 * of_int d - 2 \<le> (of_int v :: rat)" "of_int v \<le> (of_int h :: rat) / 100 * of_int d + 1"
      "\<bar>v\<bar> < 2 ^ 900" by blast
  have "(of_int (l * d - 200) :: rat) \<le> of_int (100 * v)" "(of_int (100 * v) :: rat) \<le> of_int (h * d + 100)"
    using v(2,3) by simp_all
  then have "l * d - 200 \<le> 100 * v" "100 * v \<le> h * d + 100" by (simp_all only: of_int_le_iff)
  with v show ?thesis by blast
qed

lemma float_percent:
  assumes "0 < n" "n \<le> 200"
  shows "of_int (n - 1) / 100 \<le> float_of n 100" "float_of n 100 \<le> of_int (n + 1) / 100"
proof -
  have "\<bar>float_of n 100 - of_int n / 100\<bar> \<le> 1 / 2 ^ 14" using float_of_near [of n 100] assms by simp
  then have "float_of n 100 - of_int n / 100 \<le> 1 / 100" "of_int n / 100 - float_of n 100 \<le> 1 / 100"
    unfolding abs_le_iff by simp_all
  then show "of_int (n - 1) / 100 \<le> float_of n 100" "float_of n 100 \<le> of_int (n + 1) / 100"
    by (simp_all add: diff_divide_distrib add_divide_distrib)
qed

lemma employment_generated:
  assumes "good_rng rng" "15 \<le> sa_income applicant" "sa_income applicant < 2 ^ 38"
  shows "\<exists>r. generate_employment_record sha rng applicant s index = Inr r \<and> se_confirmed r \<and> \<bar>se_income r\<bar> < 2 ^ 900 \<and>
    (5 * \<bar>se_income r - sa_income applicant\<bar> \<le> sa_income applicant \<longleftrightarrow>
     s \<noteq> ''EMPLOYER_VERIFICATION_MISMATCH'')"
proof -
  define d where "d = sa_income applicant"
  let ?g = "rng_for sha rng (''employer:'' @ s @ '':'' @ sa_synthetic_id applicant) index"
  have d: "0 < d" "d < 2 ^ 38" "15 \<le> d" using assms by (simp_all add: d_def)
  show ?thesis
  proof (cases "s = ''EMPLOYER_VERIFICATION_MISMATCH''")
    case True
    obtain u g where u: "rg_uniform rng (float_of 40 100) (float_of 70 100) ?g = (u, g)" by fastforce
    have "float_of 40 100 \<le> float_of 70 100" by (rule float_of_mono) simp_all
    note b = uniform_bounds [OF assms(1) this u]
    have "of_int 39 / 100 \<le> u" "u \<le> of_int 71 / 100" using b float_percent [of 40] float_percent [of 70] by simp_all
    from product_in_percent [OF d(1,2) _ this] obtain v where
      v: "int_of_product d u = Inr v" "100 * v \<le> 71 * d + 100" "\<bar>v\<bar> < 2 ^ 900" by auto
    have "20 * (5 * v) < 20 * (4 * d)" using v(2) d(3) by simp
    then have "\<not> 5 * \<bar>v - d\<bar> \<le> d" by (simp add: abs_if)
    with u v True show ?thesis
      by (auto simp: generate_employment_record_def Let_def float_of_def d_def split: prod.splits)
  next
    case False
    obtain u g where u: "rg_uniform rng (float_of 95 100) (float_of 105 100) ?g = (u, g)" by fastforce
    have "float_of 95 100 \<le> float_of 105 100" by (rule float_of_mono) simp_all
    note b = uniform_bounds [OF assms(1) this u]
    have "of_int 94 / 100 \<le> u" "u \<le> of_int 106 / 100" using b float_percent [of 95] float_percent [of 105] by simp_all
    from product_in_percent [OF d(1,2) _ this] obtain v where
      v: "int_of_product d u = Inr v" "94 * d - 200 \<le> 100 * v" "100 * v \<le> 106 * d + 100" "\<bar>v\<bar> < 2 ^ 900" by auto
    have "20 * (4 * d) \<le> 20 * (5 * v)" "20 * (5 * v) \<le> 20 * (6 * d)" using v(2,3) d(3) by simp_all
    then have "5 * \<bar>v - d\<bar> \<le> d" by (simp add: abs_if)
    with u v False show ?thesis
      by (auto simp: generate_employment_record_def Let_def float_of_def d_def split: prod.splits)
  qed
qed

text \<open>What a call comes to under a scenario: the injected fault, the caller's timeout if the service sleeps longer,
  or a value with the property \<open>ok\<close>.\<close>

definition outcome :: "scenario \<Rightarrow> http_endpoint \<Rightarrow> ('a \<Rightarrow> bool) \<Rightarrow> py_error + 'a \<Rightarrow> bool" where
  "outcome s ep ok res = (case sc_fault s of
       NO_FAULT \<Rightarrow> (\<exists>v. res = Inr v \<and> ok v)
     | TIMEOUT \<Rightarrow> if ep_timeout ep \<le> 2 then res = Inl (ExternalError ''ReadTimeout'') else (\<exists>v. res = Inr v \<and> ok v)
     | SERVER_ERROR \<Rightarrow> res = Inl (HTTPStatusError 500)
     | RATE_LIMITED \<Rightarrow> res = Inl (HTTPStatusError 429)
     | MALFORMED_RESPONSE \<Rightarrow> (\<exists>msg. res = Inl (ValueError msg)))"

lemma tagged_verdicts:
  assumes "good_rng rng" "get_scenario header = Inr s" "given \<noteq> []" "family \<noteq> []" "valid_date dob" "sid \<noteq> []"
    "street \<noteq> []" "city \<noteq> []" "employer \<noteq> []" "15 \<le> declared" "declared < 2 ^ 38"
  shows "case (verify_identity (tagged_http sha rng header) ep given family dob sid street city x,
      verify_employment (tagged_http sha rng header) ep' given family sid employer declared x) of
      ((identity, x1), (employment, x2)) \<Rightarrow> x1 = x \<and> x2 = x \<and>
      outcome s ep (\<lambda>k. kyc_matched k \<longleftrightarrow> sc_id s \<notin> {''KYC_IDENTITY_MISMATCH'', ''DUPLICATE_IDENTITY''}) identity \<and>
      outcome s ep' (\<lambda>r. \<exists>c. employment_check stated declared r = Inr c \<and>
        chk_verdict c = (if sc_id s = ''EMPLOYER_VERIFICATION_MISMATCH'' then CONTRADICTED else MATCHED)) employment"
proof -
  let ?kyc = "\<lparr>sa_synthetic_id = sid, sa_given_name = given, sa_family_name = family, sa_date_of_birth = dob, sa_email = [],
      sa_street = street, sa_city = city, sa_employer = [], sa_income = 0\<rparr>"
  let ?emp = "\<lparr>sa_synthetic_id = sid, sa_given_name = given, sa_family_name = family, sa_date_of_birth = Date 1990 1 1, sa_email = [],
      sa_street = [], sa_city = [], sa_employer = employer, sa_income = declared\<rparr>"
  obtain slept fault where f: "apply_fault_behavior DEFAULT_FAULT_TIMEOUT_SECONDS s = (slept, fault)" by fastforce
  have identity: "verify_identity (tagged_http sha rng header) ep given family dob sid street city x =
    (if 0 < slept \<and> ep_timeout ep \<le> slept then Inl read_timeout
     else case fault of
       Some reply \<Rightarrow> bind_result (raise_for_status reply) (\<lambda>_. bind_result (rp_json reply) decode_kyc)
     | None \<Rightarrow> Inr (generate_kyc_result sha rng ?kyc (sc_id s) 0), x)"
    unfolding verify_identity_def
    by (subst ask_mock [where header = header and read = read_kyc_request and sha = sha and rng = rng
          and answer = "\<lambda>s applicant. Inr (kyc_response (sa_synthetic_id applicant) (generate_kyc_result sha rng applicant (sc_id s) 0))",
          OF _ assms(2) read_kyc [OF assms(3,4,5,6,7,8)] f])
      (simp_all add: mock_services_def mock_kyc_def decode_kyc_response split: option.split)
  have "15 \<le> sa_income ?emp" "sa_income ?emp < 2 ^ 38" using assms(10,11) by simp_all
  from employment_generated [OF assms(1) this, of sha "sc_id s" 0] obtain r where
    r: "generate_employment_record sha rng ?emp (sc_id s) 0 = Inr r" "se_confirmed r" "\<bar>se_income r\<bar> < 2 ^ 900"
      "5 * \<bar>se_income r - declared\<bar> \<le> declared \<longleftrightarrow> sc_id s \<noteq> ''EMPLOYER_VERIFICATION_MISMATCH''" by auto
  have pos: "0 < declared" using assms(10) by simp
  let ?r = "\<lparr>emp_confirmed = se_confirmed r, emp_income = se_income r, emp_tenure = se_tenure r\<rparr>"
  have employment: "verify_employment (tagged_http sha rng header) ep' given family sid employer declared x =
    (if 0 < slept \<and> ep_timeout ep' \<le> slept then Inl read_timeout
     else case fault of
       Some reply \<Rightarrow> bind_result (raise_for_status reply) (\<lambda>_. bind_result (rp_json reply) decode_employment)
     | None \<Rightarrow> Inr ?r, x)"
    unfolding verify_employment_def
    by (subst ask_mock [where header = header and read = read_employment_request and sha = sha and rng = rng
          and answer = "\<lambda>s applicant. bind_result (generate_employment_record sha rng applicant (sc_id s) 0) (\<lambda>r.
            Inr (employment_response r))",
          OF _ assms(2) read_employment [OF assms(3,4,6,9) pos] f])
      (simp_all add: mock_services_def mock_employer_def decode_employment_response r(1) del: One_nat_def split: option.split)
  have "declared < 2 ^ 50" using assms(11) by simp
  from employment_check_exact [OF pos this, of ?r stated] r(2-4) obtain c where
    c: "employment_check stated declared ?r = Inr c"
      "chk_verdict c = (if sc_id s = ''EMPLOYER_VERIFICATION_MISMATCH'' then CONTRADICTED else MATCHED)" by auto
  have known: "kyc_matched (generate_kyc_result sha rng ?kyc (sc_id s) 0) \<longleftrightarrow>
      sc_id s \<notin> {''KYC_IDENTITY_MISMATCH'', ''DUPLICATE_IDENTITY''}" by (rule kyc_matched_generated [OF assms(1)])
  show ?thesis
    unfolding identity employment prod.case using f c known
    by (cases "sc_fault s") (auto simp: outcome_def apply_fault_behavior_def DEFAULT_FAULT_TIMEOUT_SECONDS_def read_timeout_def
        raise_for_status_def http_exception_def malformed_reply_def)
qed

text \<open>C30: what verification concludes in front of the mock services, for complete data, a declared income between 15
  and \<open>2^38\<close> dollars and any generator that keeps its documented bounds.  The application's adapters send no scenario
  header, so over their own connection every identity is confirmed and every income matched.  Where a test proxy adds
  the header, the scenario decides: an injected fault reaches the application as that exception, a service that sleeps
  two seconds as the adapter's own timeout if that is not longer, and otherwise the identity is confirmed unless the
  scenario is a mismatch or a duplicate, and the income, after floating-point scaling and the float threshold, unless
  it is the employer mismatch.\<close>

theorem scenario_decides_verdicts:
  assumes "good_rng rng" "get_scenario header = Inr s" "given \<noteq> []" "family \<noteq> []" "valid_date dob" "sid \<noteq> []"
    "street \<noteq> []" "city \<noteq> []" "employer \<noteq> []" "15 \<le> declared" "declared < 2 ^ 38"
  shows "(case (verify_identity (mock_http sha rng) ep given family dob sid street city x,
      verify_employment (mock_http sha rng) ep' given family sid employer declared x) of
      ((identity, _), (employment, _)) \<Rightarrow>
      \<exists>k r c. identity = Inr k \<and> kyc_matched k \<and>
        employment = Inr r \<and> employment_check stated declared r = Inr c \<and> chk_verdict c = MATCHED) \<and>
    (case (verify_identity (tagged_http sha rng header) ep given family dob sid street city x,
      verify_employment (tagged_http sha rng header) ep' given family sid employer declared x) of
      ((identity, x1), (employment, x2)) \<Rightarrow> x1 = x \<and> x2 = x \<and>
      outcome s ep (\<lambda>k. kyc_matched k \<longleftrightarrow> sc_id s \<notin> {''KYC_IDENTITY_MISMATCH'', ''DUPLICATE_IDENTITY''}) identity \<and>
      outcome s ep' (\<lambda>r. \<exists>c. employment_check stated declared r = Inr c \<and>
        chk_verdict c = (if sc_id s = ''EMPLOYER_VERIFICATION_MISMATCH'' then CONTRADICTED else MATCHED)) employment)"
proof (rule conjI [OF _ tagged_verdicts [OF assms]])
  let ?s = "hd SCENARIOS"
  have s: "get_scenario None = Inr ?s" "sc_fault ?s = NO_FAULT" "sc_id ?s = ''NORMAL_ELIGIBLE''"
    by (simp_all add: get_scenario_def DEFAULT_SCENARIO_ID_def SCENARIOS_def)
  show "case (verify_identity (mock_http sha rng) ep given family dob sid street city x,
      verify_employment (mock_http sha rng) ep' given family sid employer declared x) of
      ((identity, _), (employment, _)) \<Rightarrow>
      \<exists>k r c. identity = Inr k \<and> kyc_matched k \<and>
        employment = Inr r \<and> employment_check stated declared r = Inr c \<and> chk_verdict c = MATCHED"
    using tagged_verdicts [where header = None and s = ?s and sha = sha and ep = ep and ep' = ep' and stated = stated and x = x,
        OF assms(1) s(1) assms(3-11)]
    by (auto simp: mock_http_def outcome_def s)
qed

text \<open>A generator that always draws the lower bound.\<close>

definition lowest_rng :: "unit rng" where
  "lowest_rng =
     \<lparr>rg_seed = (\<lambda>_. ()), rg_randint = (\<lambda>a _ g. (a, g)), rg_uniform = (\<lambda>a _ g. (a, g)), rg_random = (\<lambda>g. (0, g)),
      rg_choice = (\<lambda>_ g. (0, g))\<rparr>"

lemma good_lowest_rng: "good_rng lowest_rng"
  by (simp add: good_rng_def lowest_rng_def)

definition stated_employer :: extracted_fact where
  "stated_employer =
     \<lparr>fact_type_of = EMPLOYER_NAME, fact_value = ''Initech Software'', fact_normalized = ''initech software'',
      fact_confidence = 1, fact_page = 1, fact_method = ''regex'', fact_extractor = ''1'', fact_checksum = []\<rparr>"

text \<open>An adapter that gives up after one second, and one that waits for five.\<close>

definition kyc_endpoint :: http_endpoint where
  "kyc_endpoint = \<lparr>ep_base_url = ''http://localhost:9101'', ep_timeout = 1\<rparr>"

definition employer_endpoint :: http_endpoint where
  "employer_endpoint = \<lparr>ep_base_url = ''http://localhost:9103'', ep_timeout = 5\<rparr>"

theorem scenario_decides_verdicts_witness:
  "\<exists>k r c. fst (verify_identity (mock_http (\<lambda>_. []) lowest_rng) kyc_endpoint
       ''Ada'' ''Lovelace'' (Date 1985 12 10) ''900-55-1234'' ''12 Oak St'' ''Springfield'' ()) = Inr k \<and> kyc_matched k \<and>
     fst (verify_employment (mock_http (\<lambda>_. []) lowest_rng) employer_endpoint
       ''Ada'' ''Lovelace'' ''900-55-1234'' ''Initech Software'' 60000 ()) = Inr r \<and>
     employment_check stated_employer 60000 r = Inr c \<and> chk_verdict c = MATCHED \<and>
     verify_identity (tagged_http (\<lambda>_. []) lowest_rng (Some ''BUREAU_SERVICE_TIMEOUT'')) kyc_endpoint
       ''Ada'' ''Lovelace'' (Date 1985 12 10) ''900-55-1234'' ''12 Oak St'' ''Springfield'' () = (Inl read_timeout, ())"
proof -
  define s where "s = SCENARIOS ! 6"
  have s: "get_scenario (Some ''BUREAU_SERVICE_TIMEOUT'') = Inr s" "sc_fault s = TIMEOUT"
    by (simp_all add: get_scenario_def SCENARIOS_def s_def)
  have dob: "valid_date (Date 1985 12 10)" by (simp add: days_in_month_def)
  note at = scenario_decides_verdicts [where ep = kyc_endpoint and ep' = employer_endpoint and stated = stated_employer and x = "()"
        and sha = "\<lambda>_. []" and given = "''Ada''" and family = "''Lovelace''" and sid = "''900-55-1234''" and street = "''12 Oak St''"
        and city = "''Springfield''" and employer = "''Initech Software''" and declared = 60000, OF good_lowest_rng s(1) _ _ dob,
        unfolded case_prod_beta]
  from at [THEN conjunct1] obtain k r c where matched: "fst (verify_identity (mock_http (\<lambda>_. []) lowest_rng) kyc_endpoint
       ''Ada'' ''Lovelace'' (Date 1985 12 10) ''900-55-1234'' ''12 Oak St'' ''Springfield'' ()) = Inr k" "kyc_matched k"
     "fst (verify_employment (mock_http (\<lambda>_. []) lowest_rng) employer_endpoint
       ''Ada'' ''Lovelace'' ''900-55-1234'' ''Initech Software'' 60000 ()) = Inr r"
     "employment_check stated_employer 60000 r = Inr c" "chk_verdict c = MATCHED" by auto
  from at [THEN conjunct2] have "verify_identity (tagged_http (\<lambda>_. []) lowest_rng (Some ''BUREAU_SERVICE_TIMEOUT'')) kyc_endpoint
       ''Ada'' ''Lovelace'' (Date 1985 12 10) ''900-55-1234'' ''12 Oak St'' ''Springfield'' () = (Inl read_timeout, ())"
    by (simp add: outcome_def s(2) kyc_endpoint_def read_timeout_def prod_eq_iff)
  with matched show ?thesis by blast
qed

end
