(* ===== verification/Observability.thy ===== *)
theory Observability
  imports Composition "HOL-Library.DAList"
begin

text \<open>
  What a process shows of itself: the log processors of \<open>bootstrap/logging.py\<close> and the readiness route
  of \<open>api/routes/health.py\<close>.  An event dictionary is a list of distinct keys with their values
  (\<open>DAList\<close>), in insertion order.  Structlog's own processors are parameters.  Log lines and metric
  increments of the readiness route are left out.
\<close>

subsection \<open>Logging\<close>

datatype log_value =
    Log_Text string
  | Log_Number rat
  | Log_None
  | Log_List "log_value list"
  | Log_Dict "(string \<times> log_value) list"

type_synonym event_dict = "(string, log_value) alist"

definition REDACTED :: log_value where
  "REDACTED = Log_Text ''***REDACTED***''"

definition SENSITIVE_KEYS :: "string list" where
  "SENSITIVE_KEYS =
     [''password'', ''secret'', ''token'', ''authorization'', ''api_key'', ''ssn'', ''national_id'', ''account_number'',
      ''card_number'', ''document_text'', ''prompt'', ''model_output'']"

definition redact_key :: "string \<Rightarrow> event_dict \<Rightarrow> event_dict" where
  "redact_key k d = (if str_lower k \<in> set SENSITIVE_KEYS then DAList.update k REDACTED d else d)"

definition redact_sensitive_fields :: "event_dict \<Rightarrow> event_dict" where
  "redact_sensitive_fields d = fold redact_key (map fst (DAList.impl_of d)) d"

definition inject_correlation_id :: "string option \<Rightarrow> event_dict \<Rightarrow> event_dict" where
  "inject_correlation_id cid d =
     (case cid of None \<Rightarrow> d | Some c \<Rightarrow> DAList.update ''correlation_id'' (Log_Text c) d)"

record span_context =
  sp_valid :: bool
  sp_trace_id :: nat
  sp_span_id :: nat

definition inject_trace_context :: "span_context \<Rightarrow> event_dict \<Rightarrow> event_dict" where
  "inject_trace_context sp d =
     (if sp_valid sp
      then DAList.update ''span_id'' (Log_Text (hex_digits 16 (sp_span_id sp)))
             (DAList.update ''trace_id'' (Log_Text (hex_digits 32 (sp_trace_id sp))) d)
      else d)"

text \<open>The chain \<open>shared_processors\<close>: structlog's processors before ours (\<open>early\<close>), our two, structlog's
  two for exceptions (\<open>late\<close>), and the redaction at the end, after which the renderer prints.\<close>

definition shared_processors ::
  "(event_dict \<Rightarrow> event_dict) \<Rightarrow> string option \<Rightarrow> span_context \<Rightarrow> (event_dict \<Rightarrow> event_dict) \<Rightarrow> event_dict \<Rightarrow> event_dict" where
  "shared_processors early cid sp late d =
     redact_sensitive_fields (late (inject_trace_context sp (inject_correlation_id cid (early d))))"

definition static_context :: "settings \<Rightarrow> (string \<times> log_value) list" where
  "static_context s =
     [(''service'', Log_Text (set_service_name s)), (''environment'', Log_Text (environment_value (set_environment s))),
      (''version'', Log_Text (set_service_version s))]"

lemma lookup_redact_key:
  "DAList.lookup (redact_key k d) k' =
     (if k' = k \<and> str_lower k \<in> set SENSITIVE_KEYS then Some REDACTED else DAList.lookup d k')"
  by (simp add: redact_key_def DAList.lookup_update)

lemma lookup_redact_keys:
  "DAList.lookup (fold redact_key ks d) k =
     (if k \<in> set ks \<and> str_lower k \<in> set SENSITIVE_KEYS then Some REDACTED else DAList.lookup d k)"
  by (induction ks arbitrary: d) (auto simp: lookup_redact_key)

lemma lookup_dom: "k \<in> set (map fst (DAList.impl_of d)) \<longleftrightarrow> DAList.lookup d k \<noteq> None"
  by (simp add: DAList.lookup.rep_eq map_of_eq_None_iff)

lemma lookup_redacted:
  "DAList.lookup (redact_sensitive_fields d) k =
     (if str_lower k \<in> set SENSITIVE_KEYS then map_option (\<lambda>_. REDACTED) (DAList.lookup d k) else DAList.lookup d k)"
  unfolding redact_sensitive_fields_def lookup_redact_keys lookup_dom by (cases "DAList.lookup d k") simp_all

text \<open>No log line shows the value of a sensitive field, whichever processor added it and however its
  name is capitalised: the field is kept and its value replaced; every other field is printed as it
  was logged.\<close>

theorem log_line_redacted:
  "DAList.lookup (shared_processors early cid sp late d) k =
     (let logged = DAList.lookup (late (inject_trace_context sp (inject_correlation_id cid (early d)))) k in
      if str_lower k \<in> set SENSITIVE_KEYS then map_option (\<lambda>_. REDACTED) logged else logged)"
  by (simp add: shared_processors_def lookup_redacted Let_def)

text \<open>The redaction does not look inside a value.\<close>

lemma nested_value_shown:
  "DAList.lookup (redact_sensitive_fields (DAList.update ''request'' (Log_Dict [(''password'', Log_Text p)]) DAList.empty)) ''request'' =
     Some (Log_Dict [(''password'', Log_Text p)])"
  unfolding lookup_redacted by (simp add: str_lower_def SENSITIVE_KEYS_def char_code_def Let_def)

subsection \<open>Readiness\<close>

record check_result =
  cr_name :: string
  cr_healthy :: bool
  cr_error :: "string option"
  cr_duration_ms :: rat

definition check_object_store :: "'x s3_client \<Rightarrow> ('x, unit) call" where
  "check_object_store s3 = s3_head_bucket s3"

definition READINESS_CHECKS :: "'x services \<Rightarrow> 'x container \<Rightarrow> bool \<Rightarrow> (string \<times> ('x, unit) call) list" where
  "READINESS_CHECKS sv c ready =
     [(''secret_provider'', ret ()),
      (''postgres'', sv_database_probe sv (ctr_engine c)),
      (''object_store'', check_object_store (ctr_s3 c)),
      (''workflow_runner'', runner_check_connectivity (sv_temporal sv) ready),
      (''mock_kyc'', check_live (sv_http sv) (ctr_kyc c)),
      (''mock_bureau'', check_live (sv_http sv) (ctr_bureau c)),
      (''mock_employer'', check_live (sv_http sv) (ctr_employer c)),
      (''mock_core_banking'', check_live (sv_http sv) (ctr_core_banking c))]"

definition run_check :: "('x \<Rightarrow> rat \<times> 'x) \<Rightarrow> string \<times> ('x, unit) call \<Rightarrow> 'x \<Rightarrow> check_result \<times> 'x" where
  "run_check perf c x =
     (case perf x of (start, x1) \<Rightarrow>
      (case snd c x1 of (r, x2) \<Rightarrow>
      (case perf x2 of (stop, x3) \<Rightarrow>
        (\<lparr>cr_name = fst c, cr_healthy = (r = Inr ()), cr_error = (case r of Inl e \<Rightarrow> Some (error_str e) | Inr _ \<Rightarrow> None),
          cr_duration_ms = fl (fl (stop - start) * 1000)\<rparr>, x3))))"

fun run_checks :: "('x \<Rightarrow> rat \<times> 'x) \<Rightarrow> (string \<times> ('x, unit) call) list \<Rightarrow> 'x \<Rightarrow> check_result list \<times> 'x" where
  "run_checks perf [] x = ([], x)"
| "run_checks perf (c # cs) x =
     (case run_check perf c x of (r, x1) \<Rightarrow> (case run_checks perf cs x1 of (rs, x2) \<Rightarrow> (r # rs, x2)))"

record readiness_response =
  rd_status_code :: int
  rd_status :: string
  rd_checks :: "check_result list"

definition readiness :: "'x services \<Rightarrow> 'x container \<Rightarrow> bool \<Rightarrow> 'x \<Rightarrow> readiness_response \<times> 'x" where
  "readiness sv c ready x =
     (case run_checks (sv_perf_counter sv) (READINESS_CHECKS sv c ready) x of (results, x') \<Rightarrow>
        let all_healthy = list_all cr_healthy results in
        (\<lparr>rd_status_code = (if all_healthy then 200 else 503), rd_status = (if all_healthy then ''ready'' else ''not_ready''),
          rd_checks = results\<rparr>, x'))"

lemma run_checks_names: "run_checks perf cs x = (rs, x') \<Longrightarrow> map cr_name rs = map fst cs"
  by (induction cs arbitrary: x rs x') (auto simp: run_check_def split: prod.splits)

text \<open>Every check is run and reported, in order, whichever fail.\<close>

lemma readiness_reports_every_check:
  assumes "readiness sv c ready x = (r, x')"
  shows "map cr_name (rd_checks r) = map fst (READINESS_CHECKS sv c ready)"
    "rd_status_code r = 200 \<longleftrightarrow> list_all cr_healthy (rd_checks r)"
  using assms run_checks_names by (auto simp: readiness_def Let_def split: prod.splits if_splits)

lemma failing_check_reported:
  assumes "run_checks perf cs x = (rs, x')" "(n, check) \<in> set cs" "\<And>y. fst (check y) \<noteq> Inr ()"
  shows "\<not> list_all cr_healthy rs"
  using assms(1,2)
proof (induction cs arbitrary: x rs)
  case (Cons c cs)
  have "\<not> cr_healthy (fst (run_check perf (n, check) x))"
    using assms(3) by (auto simp: run_check_def split: prod.splits) (metis fst_conv)
  with Cons show ?case by (auto split: prod.splits)
qed simp

text \<open>A process whose workflow client never connected is never ready.\<close>

lemma disconnected_not_ready: "rd_status_code (fst (readiness sv c False x)) = 503"
proof -
  obtain rs x' where run: "run_checks (sv_perf_counter sv) (READINESS_CHECKS sv c False) x = (rs, x')" by fastforce
  have "(''workflow_runner'', runner_check_connectivity (sv_temporal sv) False) \<in> set (READINESS_CHECKS sv c False)"
    by (simp add: READINESS_CHECKS_def)
  from failing_check_reported [OF run this] run show ?thesis
    by (simp add: readiness_def Let_def runner_check_connectivity_def require_client_def bnd_run)
qed

end
