(* ===== verification/Offsets.thy ===== *)
theory Offsets
  imports Projection
begin

text \<open>
  The consumer's offsets.  \<open>getmany\<close> of \<open>run_projection_consumer\<close> returns records of several partitions and
  moves the consumer's position behind all of them; \<open>commit()\<close> without arguments, called after the records of
  each partition, commits the positions of all.  An attempt of the supervised consumer starts at the committed
  offsets and may die between any two of its actions, when the process is killed or the database goes away.
\<close>

subsection \<open>The consumer's actions\<close>

type_synonym topic = "nat \<Rightarrow> recorded list"
type_synonym offsets = "nat \<Rightarrow> nat"

datatype action = Deliver string | Commit_Offsets offsets

text \<open>One poll: the partitions it returns records of, in the order they are iterated, with how many.\<close>

type_synonym poll = "(nat \<times> nat) list"

definition slice :: "topic \<Rightarrow> offsets \<Rightarrow> nat \<times> nat \<Rightarrow> recorded list" where
  "slice topic position b = (case b of (p, n) \<Rightarrow> take n (drop (position p) (topic p)))"

definition advanced :: "topic \<Rightarrow> offsets \<Rightarrow> poll \<Rightarrow> offsets" where
  "advanced topic position poll =
     (\<lambda>p. position p + (case map_of poll p of None \<Rightarrow> 0 | Some n \<Rightarrow> length (slice topic position (p, n))))"

fun poll_actions :: "topic \<Rightarrow> offsets \<Rightarrow> poll list \<Rightarrow> action list" where
  "poll_actions topic position [] = []"
| "poll_actions topic position (poll # polls) =
     concat (map (\<lambda>b. map (Deliver \<circ> message) (slice topic position b) @ [Commit_Offsets (advanced topic position poll)]) poll) @
     poll_actions topic (advanced topic position poll) polls"

text \<open>The state outside the database is the committed offsets.\<close>

fun act :: "env \<Rightarrow> string \<Rightarrow> action \<Rightarrow> (offsets, unit) handler" where
  "act env consumer (Deliver value) = bnd (process_record env consumer value) (\<lambda>_. ret ())"
| "act env consumer (Commit_Offsets position) = external (\<lambda>_. (Inr (), position))"

primrec run_actions :: "env \<Rightarrow> string \<Rightarrow> action list \<Rightarrow> (offsets, unit) handler" where
  "run_actions env consumer [] = ret ()"
| "run_actions env consumer (a # as) = bnd (act env consumer a) (\<lambda>_. run_actions env consumer as)"

text \<open>What an attempt leaves: it dies after \<open>k\<close> actions, or at the first that raises.\<close>

definition attempt :: "env \<Rightarrow> string \<Rightarrow> topic \<Rightarrow> offsets world \<Rightarrow> poll list \<times> nat \<Rightarrow> offsets world" where
  "attempt env consumer topic w = (\<lambda>(polls, k). snd (run_actions env consumer (take k (poll_actions topic (w_ext w) polls)) w))"

definition attempts :: "env \<Rightarrow> string \<Rightarrow> topic \<Rightarrow> (poll list \<times> nat) list \<Rightarrow> offsets world \<Rightarrow> offsets world" where
  "attempts env consumer topic runs w = foldl (attempt env consumer topic) w runs"

lemma run_actions_append: "run_actions env consumer (as @ bs) = bnd (run_actions env consumer as) (\<lambda>_. run_actions env consumer bs)"
  by (induction as) (simp_all add: bnd_assoc)

text \<open>The actions of a partition's records are \<open>consume_batch\<close> on them.\<close>

lemma actions_are_batches:
  "run_actions env consumer (map Deliver vs @ [Commit_Offsets position]) = consume_batch env consumer (\<lambda>_. (Inr (), position)) vs"
proof -
  have delivers: "run_actions env consumer (map Deliver vs) = bnd (map_each (process_record env consumer) vs) (\<lambda>_. ret ())" for vs
    by (induction vs) (simp_all add: bnd_assoc)
  have "bnd (external f) (\<lambda>_. ret ()) = external f" for f :: "offsets \<Rightarrow> (py_error + unit) \<times> offsets"
    by (auto simp: fun_eq_iff bnd_def external_def split: prod.split sum.split)
  then show ?thesis by (simp add: run_actions_append delivers bnd_assoc consume_batch_def)
qed

subsection \<open>Delivering\<close>

definition attentive :: "(string \<Rightarrow> string) \<Rightarrow> topic \<Rightarrow> offsets world \<Rightarrow> bool" where
  "attentive owner topic w \<longleftrightarrow> owned owner (w_db w) \<and> (\<forall>p. list_all (deliverable owner (db_tenants (w_db w))) (topic p))"

lemma deliver_run:
  assumes "attentive owner topic w" "m \<in> set (topic p)"
  shows "\<exists>w'. act env consumer (Deliver (message m)) w = (Inr (), w') \<and> attentive owner topic w' \<and> w_ext w' = w_ext w \<and>
    seen consumer (w_db w') = insert (id_of m) (seen consumer (w_db w))"
proof -
  have "deliverable owner (db_tenants (w_db w)) m" "owned owner (w_db w)"
    using assms by (auto simp: attentive_def list_all_iff)
  from apply_event_run [OF this, of env consumer] obtain w' where
    w': "process_record env consumer (message m) w = (Inr (id_of m \<notin> seen consumer (w_db w)), w')" "db_tenants (w_db w') = db_tenants (w_db w)"
    "owned owner (w_db w')" "w_ext w' = w_ext w" and
    effect: "if id_of m \<in> seen consumer (w_db w) then w_db w' = w_db w
     else seen consumer (w_db w') = insert (id_of m) (seen consumer (w_db w))"
    by (elim exE conjE) (rule that, assumption+, auto split: if_splits)
  from effect have "seen consumer (w_db w') = insert (id_of m) (seen consumer (w_db w))" by (auto split: if_splits)
  with w' assms(1) show ?thesis by (auto simp: bnd_def attentive_def)
qed

lemma delivers_run:
  assumes "attentive owner topic w" "set ms \<subseteq> set (topic p)"
  shows "\<exists>w'. run_actions env consumer (map (Deliver \<circ> message) ms) w = (Inr (), w') \<and> attentive owner topic w' \<and> w_ext w' = w_ext w \<and>
    seen consumer (w_db w') = id_of ` set ms \<union> seen consumer (w_db w)"
  using assms
proof (induction ms arbitrary: w)
  case Nil
  then show ?case by simp
next
  case (Cons m ms)
  then obtain w1 where w1: "act env consumer (Deliver (message m)) w = (Inr (), w1)" "attentive owner topic w1" "w_ext w1 = w_ext w"
    "seen consumer (w_db w1) = insert (id_of m) (seen consumer (w_db w))"
    using deliver_run [OF Cons.prems(1), of m p env consumer] by auto
  from Cons.IH [OF w1(2)] Cons.prems(2) obtain w2 where
    w2: "run_actions env consumer (map (Deliver \<circ> message) ms) w1 = (Inr (), w2)" "attentive owner topic w2" "w_ext w2 = w_ext w1"
    "seen consumer (w_db w2) = id_of ` set ms \<union> seen consumer (w_db w1)" by (auto simp: comp_def)
  from w1(1) w2(1) have "run_actions env consumer (map (Deliver \<circ> message) (m # ms)) w = (Inr (), w2)"
    by (simp only: list.map run_actions.simps o_apply bnd_Inr)
  with w1(2-4) w2(2-4) show ?case by (intro exI [of _ w2]) (auto simp: comp_def)
qed

subsection \<open>At least once, one partition at a time\<close>

text \<open>Everything below the committed offsets has been applied.\<close>

definition covered :: "string \<Rightarrow> topic \<Rightarrow> offsets world \<Rightarrow> bool" where
  "covered consumer topic w \<longleftrightarrow> (\<forall>p. id_of ` set (take (w_ext w p) (topic p)) \<subseteq> seen consumer (w_db w))"

lemma covered_grows:
  "covered consumer topic w \<Longrightarrow> w_ext w' = w_ext w \<Longrightarrow> seen consumer (w_db w) \<subseteq> seen consumer (w_db w') \<Longrightarrow> covered consumer topic w'"
  by (auto simp: covered_def)

lemma take_actions:
  "take k (as @ c # rest) = (if k \<le> length as then take k as else as @ c # take (k - Suc (length as)) rest)"
  by (simp add: take_Cons' not_le)

lemma attempt_covers:
  assumes "attentive owner topic w" "covered consumer topic w" "list_all (\<lambda>poll. length poll \<le> 1) polls"
  shows "attentive owner topic (snd (run_actions env consumer (take k (poll_actions topic (w_ext w) polls)) w)) \<and>
    covered consumer topic (snd (run_actions env consumer (take k (poll_actions topic (w_ext w) polls)) w))"
  using assms
proof (induction polls arbitrary: w k)
  case Nil
  then show ?case by simp
next
  case (Cons poll polls)
  show ?case
  proof (cases poll)
    case Nil
    then have same: "poll_actions topic (w_ext w) (poll # polls) = poll_actions topic (w_ext w) polls" by (simp add: advanced_def)
    from Cons.prems(3) have "list_all (\<lambda>poll. length poll \<le> 1) polls" by simp
    from Cons.IH [OF Cons.prems(1,2) this] show ?thesis unfolding same .
  next
    case (Cons b bs)
    with Cons.prems(3) have single: "poll = [b]" by simp
    obtain p n where b: "b = (p, n)" by fastforce
    let ?ms = "slice topic (w_ext w) b" and ?adv = "advanced topic (w_ext w) poll"
    let ?ds = "map (Deliver \<circ> message) ?ms"
    have part: "set ?ms \<subseteq> set (topic p)" by (auto simp: slice_def b dest: in_set_takeD in_set_dropD)
    have actions: "poll_actions topic (w_ext w) (poll # polls) = ?ds @ Commit_Offsets ?adv # poll_actions topic ?adv polls"
      by (simp add: single)
    show ?thesis
    proof (cases "k \<le> length ?ds")
      case True
      have "set (take k ?ms) \<subseteq> set (topic p)" using part by (auto dest: in_set_takeD)
      from delivers_run [OF Cons.prems(1) this, of env consumer] obtain w1 where
        "run_actions env consumer (take k ?ds) w = (Inr (), w1)" "attentive owner topic w1" "w_ext w1 = w_ext w"
        "seen consumer (w_db w) \<subseteq> seen consumer (w_db w1)" by (auto simp: take_map)
      with covered_grows [OF Cons.prems(2)] True show ?thesis unfolding actions take_actions by simp
    next
      case False
      from delivers_run [OF Cons.prems(1) part, of env consumer] obtain w1 where
        w1: "run_actions env consumer ?ds w = (Inr (), w1)" "attentive owner topic w1" "w_ext w1 = w_ext w"
        "seen consumer (w_db w1) = id_of ` set ?ms \<union> seen consumer (w_db w)" by auto
      let ?w2 = "w1\<lparr>w_ext := ?adv\<rparr>"
      let ?rest = "take (k - Suc (length ?ds)) (poll_actions topic ?adv polls)"
      have run: "run_actions env consumer (take k (poll_actions topic (w_ext w) (poll # polls))) w = run_actions env consumer ?rest ?w2"
        using False w1(1) by (simp only: actions take_actions if_False run_actions_append) (simp add: external_def bnd_def)
      have "covered consumer topic ?w2"
        unfolding covered_def
      proof
        fix q
        have "take (?adv q) (topic q) = take (w_ext w q) (topic q) @ (if q = p then ?ms else [])"
          by (simp add: advanced_def single b slice_def take_add min_def)
        with Cons.prems(2) w1(4) show "id_of ` set (take (w_ext ?w2 q) (topic q)) \<subseteq> seen consumer (w_db ?w2)"
          by (auto simp: covered_def)
      qed
      moreover have "attentive owner topic ?w2" using w1(2) by (simp add: attentive_def)
      ultimately show ?thesis unfolding run using Cons.IH [of ?w2] Cons.prems(3) by simp
    qed
  qed
qed

text \<open>C20: as long as no poll returns records of more than one partition, delivery is at least once.  However often
  the consumer dies and starts again, at whatever points, every message below the committed offsets has been
  applied.\<close>

theorem single_partition_polls_lose_nothing:
  assumes "attentive owner topic w" "w_ext w = (\<lambda>_. 0)" "list_all (\<lambda>(polls, k). list_all (\<lambda>poll. length poll \<le> 1) polls) runs"
  shows "covered consumer topic (attempts env consumer topic runs w)"
proof -
  have "attentive owner topic w \<and> covered consumer topic w \<Longrightarrow>
      attentive owner topic (foldl (attempt env consumer topic) w runs) \<and> covered consumer topic (foldl (attempt env consumer topic) w runs)"
    using assms(3)
  proof (induction runs arbitrary: w)
    case (Cons r runs)
    obtain polls k where r: "r = (polls, k)" by fastforce
    with attempt_covers [of owner topic w consumer polls env k] Cons.prems
    have "attentive owner topic (attempt env consumer topic w r) \<and> covered consumer topic (attempt env consumer topic w r)"
      by (simp add: attempt_def)
    with Cons show ?case by simp
  qed simp
  with assms(1,2) show ?thesis by (simp add: attempts_def covered_def)
qed

subsection \<open>More partitions in one poll\<close>

text \<open>Actions that neither deliver the first message of partition \<open>q\<close> nor move its offset back before it.\<close>

definition passes_by :: "topic \<Rightarrow> nat \<Rightarrow> action \<Rightarrow> bool" where
  "passes_by topic q a = (case a of
     Deliver v \<Rightarrow> \<exists>p m. v = message m \<and> m \<in> set (topic p) \<and> (p = q \<longrightarrow> m \<in> set (tl (topic q)))
   | Commit_Offsets position \<Rightarrow> 1 \<le> position q)"

lemma slice_passes: "1 \<le> position q \<Longrightarrow> m \<in> set (slice topic position b) \<Longrightarrow> passes_by topic q (Deliver (message m))"
proof -
  assume pos: "1 \<le> position q" and m: "m \<in> set (slice topic position b)"
  obtain p n where b: "b = (p, n)" by fastforce
  from m have "m \<in> set (drop (position p) (topic p))" by (auto simp: slice_def b dest: in_set_takeD)
  moreover have "set (drop (position p) (topic p)) \<subseteq> set (tl (topic p))" if "p = q"
    using pos that set_drop_subset_set_drop [of 1 "position p" "topic p"] by (simp add: drop_Suc)
  ultimately have "m \<in> set (topic p) \<and> (p = q \<longrightarrow> m \<in> set (tl (topic q)))" by (auto dest: in_set_dropD)
  then show ?thesis unfolding passes_by_def action.case by blast
qed

lemma polls_pass: "1 \<le> position q \<Longrightarrow> list_all (passes_by topic q) (poll_actions topic position polls)"
proof (induction polls arbitrary: position)
  case (Cons poll polls)
  then have adv: "1 \<le> advanced topic position poll q" by (simp add: advanced_def)
  with Cons slice_passes [of position q] show ?case
    by (auto simp: list_all_iff passes_by_def [of _ _ "Commit_Offsets _"])
qed simp

text \<open>The first message of partition \<open>q\<close> is behind the committed offset and has not been applied.\<close>

definition skipped :: "string \<Rightarrow> topic \<Rightarrow> nat \<Rightarrow> recorded \<Rightarrow> offsets world \<Rightarrow> bool" where
  "skipped consumer topic q m w \<longleftrightarrow> 1 \<le> w_ext w q \<and> id_of m \<notin> seen consumer (w_db w)"

lemma passing_run:
  assumes "attentive owner topic w" "skipped consumer topic q m w" "list_all (passes_by topic q) as"
    "\<And>p m'. m' \<in> set (if p = q then tl (topic q) else topic p) \<Longrightarrow> id_of m' \<noteq> id_of m"
  shows "attentive owner topic (snd (run_actions env consumer as w)) \<and> skipped consumer topic q m (snd (run_actions env consumer as w))"
  using assms(1-3)
proof (induction as arbitrary: w)
  case (Cons a as)
  show ?case
  proof (cases a)
    case (Deliver v)
    with Cons.prems(3) obtain p m' where m': "v = message m'" "m' \<in> set (topic p)" "p = q \<longrightarrow> m' \<in> set (tl (topic q))"
      by (auto simp: passes_by_def)
    from deliver_run [OF Cons.prems(1) m'(2), of env consumer] obtain w1 where
      w1: "act env consumer a w = (Inr (), w1)" "attentive owner topic w1" "w_ext w1 = w_ext w"
      "seen consumer (w_db w1) = insert (id_of m') (seen consumer (w_db w))" unfolding Deliver m'(1) by blast
    have "id_of m' \<noteq> id_of m" using assms(4) [of m' p] m'(2,3) by (cases "p = q") simp_all
    with w1 Cons.prems(2) have "skipped consumer topic q m w1" by (simp add: skipped_def)
    with Cons.IH [OF w1(2) this] Cons.prems(3) w1(1) show ?thesis by simp
  next
    case (Commit_Offsets position)
    let ?w1 = "w\<lparr>w_ext := position\<rparr>"
    have "act env consumer a w = (Inr (), ?w1)" by (simp add: Commit_Offsets external_def)
    moreover have "attentive owner topic ?w1" "skipped consumer topic q m ?w1"
      using Cons.prems Commit_Offsets by (simp_all add: attentive_def skipped_def passes_by_def)
    ultimately show ?thesis using Cons.IH [of ?w1] Cons.prems(3) by simp
  qed
qed simp

lemma passing_attempts:
  assumes "attentive owner topic w" "skipped consumer topic q m w"
    "\<And>p m'. m' \<in> set (if p = q then tl (topic q) else topic p) \<Longrightarrow> id_of m' \<noteq> id_of m"
  shows "skipped consumer topic q m (attempts env consumer topic runs w)"
proof -
  have "attentive owner topic (foldl (attempt env consumer topic) w runs) \<and> skipped consumer topic q m (foldl (attempt env consumer topic) w runs)"
    using assms(1,2)
  proof (induction runs arbitrary: w)
    case (Cons r runs)
    obtain polls k where r: "r = (polls, k)" by fastforce
    have "list_all (passes_by topic q) (poll_actions topic (w_ext w) polls)"
      using Cons.prems(2) by (intro polls_pass) (simp add: skipped_def)
    then have "list_all (passes_by topic q) (take k (poll_actions topic (w_ext w) polls))"
      by (auto simp: list_all_iff dest: in_set_takeD)
    from passing_run [OF Cons.prems(1,2) this, of env] assms(3) Cons.IH show ?case by (simp add: r attempt_def)
  qed simp
  then show ?thesis by (simp add: attempts_def)
qed

text \<open>C21: with records of two partitions in one poll a message can be lost.  If the consumer dies after the records
  of the first partition and the commit that follows them, the offset of the second partition is committed
  although none of its records was applied: its first message is never applied, whatever attempts follow.\<close>

theorem two_partition_poll_loses_message:
  assumes "attentive owner topic w" "w_ext w = (\<lambda>_. 0)" "p \<noteq> q" "topic p = [m0]" "topic q = m # ms"
    "id_of m \<notin> seen consumer (w_db w)"
    "\<And>p m'. m' \<in> set (if p = q then tl (topic q) else topic p) \<Longrightarrow> id_of m' \<noteq> id_of m"
  shows "w_ext (attempt env consumer topic w ([[(p, 1), (q, 1)]], 2)) q = 1 \<and>
    id_of m \<notin> seen consumer (w_db (attempts env consumer topic (([[(p, 1), (q, 1)]], 2) # runs) w))"
proof -
  let ?adv = "advanced topic (w_ext w) [(p, 1), (q, 1)]"
  have "take 2 (poll_actions topic (w_ext w) [[(p, 1), (q, 1)]]) = [Deliver (message m0), Commit_Offsets ?adv]"
    by (simp add: slice_def assms(2,4))
  moreover obtain w1 where w1: "act env consumer (Deliver (message m0)) w = (Inr (), w1)" "attentive owner topic w1" "w_ext w1 = w_ext w"
    "seen consumer (w_db w1) = insert (id_of m0) (seen consumer (w_db w))"
    using deliver_run [OF assms(1), of m0 p env consumer] assms(4) by auto
  ultimately have first: "attempt env consumer topic w ([[(p, 1), (q, 1)]], 2) = w1\<lparr>w_ext := ?adv\<rparr>"
    by (simp only: attempt_def prod.case run_actions.simps bnd_Inr) (simp add: external_def bnd_def)
  have adv: "?adv q = 1" using assms(3) by (simp add: advanced_def slice_def assms(2,5))
  have "id_of m0 \<noteq> id_of m" using assms(7) [of m0 p] assms(3,4) by simp
  with w1(4) assms(6) adv have "skipped consumer topic q m (w1\<lparr>w_ext := ?adv\<rparr>)" by (simp add: skipped_def)
  moreover have "attentive owner topic (w1\<lparr>w_ext := ?adv\<rparr>)" using w1(2) by (simp add: attentive_def)
  ultimately have "skipped consumer topic q m (attempts env consumer topic runs (w1\<lparr>w_ext := ?adv\<rparr>))"
    using passing_attempts assms(7) by blast
  with first adv show ?thesis by (simp add: attempts_def skipped_def)
qed

text \<open>Two events in two partitions.\<close>

definition sample_topic :: topic where
  "sample_topic p = (if p = 0 then [hd sample_events] else if p = 1 then [sample_events ! 1] else [])"

definition offsets_world :: "offsets world" where
  "offsets_world = world_of (initial_db sample_instant) (\<lambda>_. 0)"

lemma sample_attentive: "attentive (\<lambda>_. DEMO_TENANT_ID) sample_topic offsets_world"
  using sample_events_good(1)
  by (auto simp: attentive_def offsets_world_def sample_topic_def owned_def world_of_def initial_db_def sample_events_def)

theorem single_partition_polls_lose_nothing_witness:
  "covered ''g'' sample_topic (attempts sample_env ''g'' sample_topic [([[(0, 1)], [(1, 1)]], 1), ([[(0, 1)], [(1, 1)]], 4)] offsets_world)"
  by (rule single_partition_polls_lose_nothing [OF sample_attentive]) (simp_all add: offsets_world_def world_of_def)

theorem two_partition_poll_loses_message_witness:
  "id_of (sample_events ! 1) \<notin> seen ''g'' (w_db (attempts sample_env ''g'' sample_topic
     (([[(0, 1), (1, 1)]], 2) # [([[(0, 1), (1, 1)]], 9)]) offsets_world))"
  by (rule two_partition_poll_loses_message [OF sample_attentive, THEN conjunct2])
    (auto simp: offsets_world_def world_of_def sample_topic_def sample_events_def id_of_def seen_def initial_db_def split: if_splits)

end
