(* ===== verification/Schema.thy ===== *)
theory Schema
  imports Migrations
begin

text \<open>
  What the migrations make of a database.  The upgrades run in order on an empty database, and their
  result is given in closed form: the declared tables, then row-level security, grants and seed rows.
  The downgrades take everything back.
\<close>

subsection \<open>The catalogue after each migration\<close>

definition isolate :: "sql_table \<Rightarrow> sql_table" where
  "isolate t = t\<lparr>tb_rls_enabled := True, tb_rls_forced := True, tb_policies := [tenant_isolation]\<rparr>"

definition store :: "(string \<times> sql_value) list \<Rightarrow> sql_table \<Rightarrow> sql_table" where
  "store row t = t\<lparr>tb_rows := tb_rows t @ [row]\<rparr>"

definition schemas_0001 :: catalogue where
  "schemas_0001 = empty_catalogue\<lparr>cat_schemas := [''identity'', ''applications'', ''integration'', ''audit'']\<rparr>"

definition role_0001 :: "catalogue \<Rightarrow> catalogue" where
  "role_0001 c = c\<lparr>cat_roles := [(APP_ROLE, [''LOGIN'', ''NOSUPERUSER'', ''NOCREATEDB'', ''NOCREATEROLE'', ''NOBYPASSRLS''])],
     cat_usage := map (\<lambda>s. (s, APP_ROLE)) [''identity'', ''applications'', ''integration'', ''audit'']\<rparr>"

abbreviation read_write :: "sql_table \<Rightarrow> sql_table" where
  "read_write \<equiv> add_grant APP_ROLE READ_WRITE"

definition granted_0001 :: "catalogue \<Rightarrow> catalogue" where
  "granted_0001 c =
     alter {r. snd r \<in> {''applications'', ''integration'', ''audit''}} read_write
       (alter {(''tenants'', ''identity'')} (add_grant APP_ROLE [''SELECT'']) (role_0001 c))"

definition tenant_row :: "(string \<times> sql_value) list" where
  "tenant_row = [(''tenant_id'', V_Text DEMO_TENANT_ID), (''name'', V_Text ''demo-bank''), (''created_at'', V_Now)]"

definition product_row :: "(string \<times> sql_value) list" where
  "product_row =
     [(''product_id'', V_Text (prod_id demo_product)), (''tenant_id'', V_Text DEMO_TENANT_ID),
      (''code'', V_Text ''PERSONAL_LOAN_USD''), (''name'', V_Text ''Unsecured Personal Loan (USD)''),
      (''currency'', V_Text ''USD''), (''min_amount'', V_Number 1000), (''max_amount'', V_Number 25000),
      (''min_term_months'', V_Number 6), (''max_term_months'', V_Number 60), (''is_active'', V_Bool True),
      (''created_at'', V_Now)]"

definition at_0001 :: "string option \<Rightarrow> catalogue" where
  "at_0001 setting =
     (alter {(''products'', ''applications'')} (store product_row)
       (alter {(''tenants'', ''identity'')} (store tenant_row)
         (granted_0001 (alter (set isolated_0001) isolate (with_tables tables_0001 schemas_0001)))))
     \<lparr>cat_tenant_setting := setting\<rparr>"

definition add_flow :: "sql_table \<Rightarrow> sql_table" where
  "add_flow t = t\<lparr>tb_columns := tb_columns t @ [nullable ''active_workflow_id'' Sql_Text]\<rparr>"

definition dress :: "(relation \<times> sql_table) list \<Rightarrow> (relation \<times> sql_table) list" where
  "dress = map (\<lambda>(r, t). (r, read_write (isolate t)))"

definition open_schemas :: "string list \<Rightarrow> catalogue \<Rightarrow> catalogue" where
  "open_schemas ss c = c\<lparr>cat_schemas := cat_schemas c @ ss\<rparr>"

definition allow_schemas :: "string list \<Rightarrow> catalogue \<Rightarrow> catalogue" where
  "allow_schemas ss c = c\<lparr>cat_usage := cat_usage c @ map (\<lambda>s. (s, APP_ROLE)) ss\<rparr>"

definition base_0002 :: "string option \<Rightarrow> catalogue" where
  "base_0002 setting = alter {(''applications'', ''applications'')} add_flow (at_0001 setting)"

definition at_0002 :: "string option \<Rightarrow> catalogue" where
  "at_0002 setting = with_tables (dress tables_0002 @ dress tables_review) (allow_schemas [''review''] (open_schemas [''review''] (base_0002 setting)))"

definition at_0003 :: "string option \<Rightarrow> catalogue" where
  "at_0003 setting = with_tables (dress tables_0003)
     (allow_schemas [''documents'', ''verification''] (open_schemas [''documents'', ''verification''] (at_0002 setting)))"

text \<open>Everything an alteration of this development leaves alone.\<close>

lemma alterations [simp]:
  "tb_columns (isolate t) = tb_columns t" "tb_columns (store row t) = tb_columns t" "tb_columns (add_grant role ps t) = tb_columns t"
  "tb_indexes (isolate t) = tb_indexes t" "tb_indexes (store row t) = tb_indexes t" "tb_indexes (add_grant role ps t) = tb_indexes t"
  "tb_policies (store row t) = tb_policies t" "tb_policies (add_grant role ps t) = tb_policies t"
  "tb_rls_enabled (store row t) = tb_rls_enabled t" "tb_rls_enabled (add_grant role ps t) = tb_rls_enabled t"
  "tb_rls_forced (store row t) = tb_rls_forced t" "tb_rls_forced (add_grant role ps t) = tb_rls_forced t"
  "tb_grants (isolate t) = tb_grants t" "tb_grants (store row t) = tb_grants t"
  by (simp_all add: isolate_def store_def add_grant_def split: option.splits)

lemma enable_each:
  assumes "distinct rs" "distinct (map fst (cat_tables c))" "\<forall>r \<in> set rs. \<exists>t. table_of c r = Some t \<and> tb_policies t = []"
  shows "run_script (concat (map enable_rls rs)) c = Inr (alter (set rs) isolate c)"
proof -
  have "enable_rls = (\<lambda>r. [Enable_Row_Level_Security r, Force_Row_Level_Security r, Create_Policy tenant_isolation r])"
    by (simp add: enable_rls_def fun_eq_iff)
  moreover have "isolate = (\<lambda>t. t\<lparr>tb_rls_enabled := True, tb_rls_forced := True, tb_policies := [tenant_isolation]\<rparr>)"
    by (simp add: isolate_def fun_eq_iff)
  ultimately show ?thesis using run_enable_each [OF assms, of tenant_isolation] by simp
qed

lemma grant_on_schema:
  "map_of (cat_roles c) role \<noteq> None \<Longrightarrow> s \<in> set (cat_schemas c) \<Longrightarrow>
     run_ddl (Grant_On_Schema ps s role) c = Inr (alter {r. snd r = s} (add_grant role ps) c)"
  by (auto simp: run_ddl_def alter_def intro!: arg_cong [where f = "\<lambda>ts. c\<lparr>cat_tables := ts\<rparr>"])

subsection \<open>The first migration\<close>

lemma creatable_0001: "creatable schemas_0001 tables_0001" "list_all (\<lambda>(_, t). bare t) tables_0001"
  by (code_simp, simp add: tables_0001_def bare_def new_table_def tenants_table_def products_table_def applicants_table_def
      applications_table_def application_versions_table_def consent_records_table_def state_transitions_table_def
      outbox_events_table_def inbox_messages_table_def idempotency_keys_table_def audit_events_table_def audit_hashes_table_def)

lemma distinct_0001: "distinct isolated_0001" "distinct (map fst tables_0001)"
  by (simp_all add: isolated_0001_def tables_0001_def)

lemma isolated_0001_declared:
  "\<forall>r \<in> set isolated_0001. \<exists>t. table_of (with_tables tables_0001 schemas_0001) r = Some t \<and> tb_policies t = []"
proof -
  have "list_all (\<lambda>r. case table_of (with_tables tables_0001 schemas_0001) r of None \<Rightarrow> False | Some t \<Rightarrow> tb_policies t = []) isolated_0001"
    by code_simp
  then show ?thesis by (auto simp: list_all_iff split: option.splits)
qed

lemma run_role:
  assumes "cat_roles c = []" "cat_usage c = []" "cat_schemas c = cat_schemas schemas_0001"
  shows "run_script (create_app_role @ [Grant_Usage [''identity'', ''applications'', ''integration'', ''audit''] APP_ROLE]) c =
    Inr (role_0001 c)"
  using assms by (simp add: create_app_role_def run_ddl_def role_0001_def schemas_0001_def)

lemma run_grants_0001:
  assumes "distinct (map fst (cat_tables c))" "table_of c (''tenants'', ''identity'') \<noteq> None"
    "cat_roles c = cat_roles (role_0001 d)" "cat_schemas c = cat_schemas schemas_0001"
  shows "run_script (Grant_On_Table [''SELECT''] (''tenants'', ''identity'') APP_ROLE #
      map (\<lambda>s. Grant_On_Schema READ_WRITE s APP_ROLE) [''applications'', ''integration'', ''audit'']) c =
    Inr (alter {r. snd r \<in> {''applications'', ''integration'', ''audit''}} read_write
      (alter {(''tenants'', ''identity'')} (add_grant APP_ROLE [''SELECT'']) c))"
proof -
  let ?t = "alter {(''tenants'', ''identity'')} (add_grant APP_ROLE [''SELECT'']) c"
  let ?S = "\<lambda>s. alter {r. snd r = s} read_write"
  obtain t where t: "table_of c (''tenants'', ''identity'') = Some t" using assms(2) by blast
  have role: "map_of (cat_roles c) APP_ROLE \<noteq> None" using assms(3) by (simp add: role_0001_def)
  have 1: "run_ddl (Grant_On_Table [''SELECT''] (''tenants'', ''identity'') APP_ROLE) c = Inr ?t"
    using on_table_alter [OF assms(1) t, of "\<lambda>t. Inr (add_grant APP_ROLE [''SELECT''] t)"] role by (simp add: run_ddl_def)
  have 2: "run_ddl (Grant_On_Schema READ_WRITE s APP_ROLE) d = Inr (?S s d)"
    if "cat_roles d = cat_roles c" "cat_schemas d = cat_schemas c" "s \<in> {''applications'', ''integration'', ''audit''}" for s d
    by (rule grant_on_schema) (use role that assms(4) in \<open>auto simp: schemas_0001_def\<close>)
  have "?S ''audit'' (?S ''integration'' (?S ''applications'' ?t)) =
      alter {r. snd r \<in> {''applications'', ''integration'', ''audit''}} read_write ?t"
  proof -
    have "{r :: relation. snd r \<in> {''applications'', ''integration'', ''audit''}} =
        ({r. snd r = ''applications''} \<union> {r. snd r = ''integration''}) \<union> {r. snd r = ''audit''}" by auto
    then show ?thesis by (simp add: alter_alter [symmetric] disjoint_iff)
  qed
  with 1 2 show ?thesis by simp
qed

lemma table_of_0001:
  "table_of (with_tables tables_0001 schemas_0001) (''tenants'', ''identity'') = Some tenants_table"
  "table_of (with_tables tables_0001 schemas_0001) (''products'', ''applications'') = Some products_table"
  "table_of (with_tables tables_0001 schemas_0001) (''applications'', ''applications'') = Some applications_table"
  "table_of (with_tables tables_0001 schemas_0001) (''inbox_messages'', ''integration'') = Some inbox_messages_table"
  by (simp_all add: table_of_def schemas_0001_def empty_catalogue_def tables_0001_def)

lemma run_seed:
  assumes "distinct (map fst (cat_tables c))" "table_of c (''tenants'', ''identity'') = Some t" "tb_columns t = tb_columns tenants_table"
    "\<not> tb_rls_forced t" "table_of c (''products'', ''applications'') = Some p" "tb_columns p = tb_columns products_table"
  shows "run_script seed_demo c = Inr ((alter {(''products'', ''applications'')} (store product_row)
      (alter {(''tenants'', ''identity'')} (store tenant_row) c))\<lparr>cat_tenant_setting := Some DEMO_TENANT_ID\<rparr>)"
proof -
  let ?c1 = "alter {(''tenants'', ''identity'')} (store tenant_row) c"
  let ?c2 = "?c1\<lparr>cat_tenant_setting := Some DEMO_TENANT_ID\<rparr>"
  have row1: "row_accepted c t tenant_row"
    using assms(3,4) by (simp add: row_accepted_def column_of_def tenants_table_def new_table_def tenant_row_def pk_column_def required_def)
  have row2: "row_accepted ?c2 p product_row"
    using assms(6) by (simp add: row_accepted_def column_of_def products_table_def new_table_def product_row_def pk_column_def
        required_def foreign_def unique_column_def defaulted_def)
  have 1: "run_ddl (Insert_Row (''tenants'', ''identity'') tenant_row) c = Inr ?c1"
    unfolding run_ddl_def ddl.case by (rule on_table_alter [OF assms(1,2)]) (simp add: row1 store_def)
  have "table_of ?c2 (''products'', ''applications'') = Some p"
    using assms(5) table_of_alter [of "{(''tenants'', ''identity'')}" "store tenant_row" c "(''products'', ''applications'')"]
    by (simp add: table_of_def)
  then have 2: "run_ddl (Insert_Row (''products'', ''applications'') product_row) ?c2 =
      Inr (alter {(''products'', ''applications'')} (store product_row) ?c2)"
    unfolding run_ddl_def ddl.case by (intro on_table_alter) (use assms(1) row2 in \<open>simp_all add: store_def\<close>)
  have "alter R g (d\<lparr>cat_tenant_setting := v\<rparr>) = (alter R g d)\<lparr>cat_tenant_setting := v\<rparr>" for R g d v by (simp add: alter_def)
  with 1 2 show ?thesis
    unfolding seed_demo_def tenant_row_def [symmetric] product_row_def [symmetric]
    by (simp add: run_ddl_def [of "Set_Tenant _"])
qed

lemma run_upgrade_0001: "run_script upgrade_0001 empty_catalogue = Inr (at_0001 (Some DEMO_TENANT_ID))"
proof -
  let ?c1 = "with_tables tables_0001 schemas_0001"
  let ?c2 = "alter (set isolated_0001) isolate ?c1"
  let ?c4 = "granted_0001 ?c2"
  have distinct: "distinct (map fst (cat_tables ?c1))" using distinct_0001(2) by (simp add: schemas_0001_def empty_catalogue_def)
  have 0: "run_script create_schemas empty_catalogue = Inr schemas_0001" by code_simp
  have 1: "run_script (concat (map create_script tables_0001)) schemas_0001 = Inr ?c1" by (rule run_create_all [OF creatable_0001])
  have 2: "run_script (concat (map enable_rls isolated_0001)) ?c1 = Inr ?c2"
    by (rule enable_each [OF distinct_0001(1) distinct isolated_0001_declared])
  have 3: "run_script (create_app_role @ [Grant_Usage [''identity'', ''applications'', ''integration'', ''audit''] APP_ROLE]) ?c2 =
      Inr (role_0001 ?c2)"
    by (rule run_role) (simp_all add: schemas_0001_def empty_catalogue_def)
  have tables: "table_of (role_0001 c) r = table_of c r" for c r by (simp add: table_of_def role_0001_def)
  have 4: "run_script (Grant_On_Table [''SELECT''] (''tenants'', ''identity'') APP_ROLE #
      map (\<lambda>s. Grant_On_Schema READ_WRITE s APP_ROLE) [''applications'', ''integration'', ''audit'']) (role_0001 ?c2) = Inr ?c4"
    unfolding granted_0001_def
  proof (rule run_grants_0001 [where d = "?c2"])
    show "table_of (role_0001 ?c2) (''tenants'', ''identity'') \<noteq> None" by (simp add: tables table_of_alter table_of_0001)
  qed (use distinct in \<open>simp_all add: role_0001_def\<close>)
  have 5: "run_script seed_demo ?c4 = Inr (at_0001 (Some DEMO_TENANT_ID))"
    unfolding at_0001_def
  proof (rule run_seed)
    show "table_of ?c4 (''tenants'', ''identity'') = Some (add_grant APP_ROLE [''SELECT''] tenants_table)"
      "table_of ?c4 (''products'', ''applications'') = Some (read_write (isolate products_table))"
      by (simp_all add: granted_0001_def table_of_alter tables table_of_0001 isolated_0001_def)
    show "distinct (map fst (cat_tables ?c4))" using distinct by (simp add: granted_0001_def role_0001_def)
  qed (simp_all add: tenants_table_def new_table_def)
  have grants: "grant_initial = [Grant_Usage [''identity'', ''applications'', ''integration'', ''audit''] APP_ROLE] @
      (Grant_On_Table [''SELECT''] (''tenants'', ''identity'') APP_ROLE #
       map (\<lambda>s. Grant_On_Schema READ_WRITE s APP_ROLE) [''applications'', ''integration'', ''audit''])"
    by (simp add: grant_initial_def)
  show ?thesis
    unfolding upgrade_0001_def grants append_assoc [symmetric] run_script_append 0 1 2 sum.case
    using 3 4 5 by (simp only: run_script_append append_assoc sum.case)
qed

subsection \<open>What the later migrations see\<close>

lemma setting_simps [simp]:
  "cat_tables (c\<lparr>cat_tenant_setting := v\<rparr>) = cat_tables c" "table_of (c\<lparr>cat_tenant_setting := v\<rparr>) r = table_of c r"
  "seen_by_create (c\<lparr>cat_tenant_setting := v\<rparr>) = seen_by_create c"
  by (simp_all add: table_of_def seen_by_create_def)

lemma role_simps [simp]:
  "cat_tables (role_0001 c) = cat_tables c" "table_of (role_0001 c) r = table_of c r" "seen_by_create (role_0001 c) = seen_by_create c"
  by (simp_all add: role_0001_def table_of_def seen_by_create_def)

abbreviation declared_0001 :: catalogue where
  "declared_0001 \<equiv> with_tables tables_0001 schemas_0001"

lemma at_0001_simps:
  "cat_schemas (at_0001 s) = [''identity'', ''applications'', ''integration'', ''audit'']"
  "cat_roles (at_0001 s) = cat_roles (role_0001 empty_catalogue)" "cat_usage (at_0001 s) = cat_usage (role_0001 empty_catalogue)"
  "cat_tenant_setting (at_0001 s) = s" "map fst (cat_tables (at_0001 s)) = map fst tables_0001"
  "seen_by_create (at_0001 s) = seen_by_create declared_0001"
proof -
  show "seen_by_create (at_0001 s) = seen_by_create declared_0001" by (simp add: at_0001_def granted_0001_def seen_alter)
qed (simp_all add: at_0001_def granted_0001_def role_0001_def schemas_0001_def empty_catalogue_def)

lemma at_0001_columns: "same_columns (cat_tables declared_0001) (cat_tables (at_0001 s))"
  unfolding at_0001_def granted_0001_def setting_simps
  by (intro same_columns_trans [OF _ same_columns_alter] alterations; unfold role_simps)
    (intro same_columns_trans [OF _ same_columns_alter] alterations, simp add: same_columns_def)

lemma closed_empty: "cat_tables c = [] \<Longrightarrow> closed_catalogue c"
  by (simp add: closed_catalogue_def)

lemma closed_0001: "closed_catalogue (at_0001 s)"
  using closed_same_columns [OF creatable_closed [OF creatable_0001(1) closed_empty] at_0001_columns]
  by (simp add: schemas_0001_def empty_catalogue_def)

lemma table_of_at_0001:
  "table_of (at_0001 s) (''applications'', ''applications'') = Some (read_write (isolate applications_table))"
  "table_of (at_0001 s) (''inbox_messages'', ''integration'') = Some (read_write inbox_messages_table)"
  by (simp_all add: at_0001_def granted_0001_def table_of_alter table_of_0001 isolated_0001_def)

lemma opened_simps [simp]:
  "cat_tables (open_schemas ss c) = cat_tables c" "cat_tables (allow_schemas ss c) = cat_tables c"
  "cat_schemas (open_schemas ss c) = cat_schemas c @ ss" "cat_schemas (allow_schemas ss c) = cat_schemas c"
  "cat_roles (open_schemas ss c) = cat_roles c" "cat_roles (allow_schemas ss c) = cat_roles c"
  "cat_usage (open_schemas ss c) = cat_usage c" "cat_usage (allow_schemas ss c) = cat_usage c @ map (\<lambda>s. (s, APP_ROLE)) ss"
  "cat_tenant_setting (open_schemas ss c) = cat_tenant_setting c" "cat_tenant_setting (allow_schemas ss c) = cat_tenant_setting c"
  "table_of (open_schemas ss c) r = table_of c r" "table_of (allow_schemas ss c) r = table_of c r"
  "seen_by_create (allow_schemas ss c) = seen_by_create c"
  "closed_catalogue (open_schemas ss c) = closed_catalogue c" "closed_catalogue (allow_schemas ss c) = closed_catalogue c"
  by (simp_all add: open_schemas_def allow_schemas_def table_of_def seen_by_create_def closed_catalogue_def)

lemma dress_columns: "same_columns ts (dress ts)"
  by (simp add: same_columns_def dress_def comp_def case_prod_beta)

lemma dress_simps [simp]: "map fst (dress ts) = map fst ts" "fst ` set (dress ts) = fst ` set ts"
  by (simp_all add: dress_def comp_def case_prod_beta image_image)

lemma seen_open: "seen_by_create c = seen_by_create d \<Longrightarrow> seen_by_create (open_schemas ss c) = seen_by_create (open_schemas ss d)"
  by (simp add: seen_by_create_def)

lemma seen_dress: "seen_by_create c = seen_by_create d \<Longrightarrow> seen_by_create (with_tables (dress ts) c) = seen_by_create (with_tables ts d)"
  by (simp add: seen_by_create_def dress_def comp_def case_prod_beta)

subsection \<open>The second migration\<close>

abbreviation declared_base :: catalogue where
  "declared_base \<equiv> alter {(''applications'', ''applications'')} add_flow declared_0001"

lemma references_add_flow: "references (add_flow t) r = references t r"
  by (simp add: references_def add_flow_def nullable_def required_def)

lemma base_0002_simps:
  "cat_schemas (base_0002 s) = [''identity'', ''applications'', ''integration'', ''audit'']"
  "cat_roles (base_0002 s) = cat_roles (role_0001 empty_catalogue)" "cat_usage (base_0002 s) = cat_usage (role_0001 empty_catalogue)"
  "cat_tenant_setting (base_0002 s) = s" "map fst (cat_tables (base_0002 s)) = map fst tables_0001"
  "seen_by_create (base_0002 s) = seen_by_create declared_base" "closed_catalogue (base_0002 s)"
proof -
  show "seen_by_create (base_0002 s) = seen_by_create declared_base"
    unfolding base_0002_def by (rule seen_alter_cong) (simp_all add: add_flow_def at_0001_simps)
  show "closed_catalogue (base_0002 s)"
    unfolding base_0002_def by (rule closed_alter [OF references_add_flow closed_0001])
qed (simp_all add: base_0002_def at_0001_simps)

abbreviation declared_0002 :: catalogue where
  "declared_0002 \<equiv> with_tables tables_review (open_schemas [''review''] (with_tables tables_0002 declared_base))"

lemma creatable_0002:
  "creatable declared_base tables_0002" "creatable (open_schemas [''review''] (with_tables tables_0002 declared_base)) tables_review"
  "list_all (\<lambda>(_, t). bare t) (tables_0002 @ tables_review)"
  by (code_simp, code_simp, simp add: tables_0002_def tables_review_def bare_def new_table_def documents_table_def
      status_projection_table_def review_queue_entries_table_def)

lemma distinct_0002: "distinct (map fst tables_0002)" "distinct isolated_0002"
  "set isolated_0002 = set (map fst (tables_0002 @ tables_review))"
  by (simp_all add: tables_0002_def isolated_0002_def tables_review_def)

lemma run_add_column:
  assumes "may_reference c k" "distinct (map fst (cat_tables c))" "table_of c r = Some t" "col_nullable k" "column_of t (col_name k) = None"
  shows "run_ddl (Add_Column r k) c = Inr (alter {r} (\<lambda>t. t\<lparr>tb_columns := tb_columns t @ [k]\<rparr>) c)"
proof -
  have "run_ddl (Add_Column r k) c = on_table r (\<lambda>t. if column_of t (col_name k) \<noteq> None then Inl ''duplicate_column''
      else Inr (t\<lparr>tb_columns := tb_columns t @ [k]\<rparr>)) c"
    using assms(1,4) by (simp add: run_ddl_def cong: if_cong)
  also have "\<dots> = Inr (alter {r} (\<lambda>t. t\<lparr>tb_columns := tb_columns t @ [k]\<rparr>) c)"
    by (rule on_table_alter [OF assms(2,3)]) (simp add: assms(5))
  finally show ?thesis .
qed

lemma run_add_flow: "run_script add_active_workflow_id (at_0001 s) = Inr (base_0002 s)"
proof -
  have "column_of (read_write (isolate applications_table)) ''active_workflow_id'' = None"
    by (simp add: column_of_def applications_table_def new_table_def pk_column_def required_def foreign_def)
  then have "run_ddl (Add_Column (''applications'', ''applications'') (nullable ''active_workflow_id'' Sql_Text)) (at_0001 s) =
      Inr (alter {(''applications'', ''applications'')} (\<lambda>t. t\<lparr>tb_columns := tb_columns t @ [nullable ''active_workflow_id'' Sql_Text]\<rparr>) (at_0001 s))"
    by (intro run_add_column) (simp_all add: at_0001_simps distinct_0001 table_of_at_0001 may_reference_def nullable_def required_def)
  moreover have "(\<lambda>t. t\<lparr>tb_columns := tb_columns t @ [nullable ''active_workflow_id'' Sql_Text]\<rparr>) = add_flow"
    by (simp add: add_flow_def fun_eq_iff)
  ultimately show ?thesis by (simp add: add_active_workflow_id_def base_0002_def)
qed

text \<open>The review schema's grants: row-level security and grants on the new tables, and a grant on
  \<open>inbox_messages\<close> that the first migration had already made.\<close>

lemma update_appended:
  "map_of gs role = None \<Longrightarrow> AList.update role ps (gs @ [(role, ps)]) = gs @ [(role, ps)]"
  "AList.update role ps (AList.update role ps gs) = AList.update role ps gs"
  by (induction gs) (auto split: if_splits)

lemma regrant: "add_grant role ps (add_grant role ps t) = add_grant role ps t"
proof (cases "map_of (tb_grants t) role")
  case None
  then have "map_of (tb_grants t @ [(role, ps)]) role = Some ps" "AList.update role ps (tb_grants t @ [(role, ps)]) = tb_grants t @ [(role, ps)]"
    by (simp_all add: map_add_def update_appended)
  moreover have "adjoin ps ps = ps" by (simp add: adjoin_def)
  ultimately show ?thesis by (simp add: add_grant_def None)
next
  case (Some old)
  have "adjoin (adjoin old ps) ps = adjoin old ps" by (auto simp: adjoin_def)
  then show ?thesis by (simp add: add_grant_def Some AList.update_conv' update_appended)
qed

lemma table_of_old: "r \<notin> set (map fst ts) \<Longrightarrow> table_of (with_tables ts c) r = table_of c r"
  using map_of_eq_None_iff [of ts r] by (simp add: table_of_def map_add_def split: option.split)

lemma bare_policies: "bare t \<Longrightarrow> tb_policies t = []"
  by (drule arg_cong [where f = tb_policies, OF iffD1 [OF bare_def]]) (simp add: new_table_def)

lemma declared_tables:
  assumes "distinct (map fst (cat_tables (with_tables ts c)))" "list_all (\<lambda>(_, t). bare t) ts"
  shows "\<forall>r \<in> set (map fst ts). \<exists>t. table_of (with_tables ts c) r = Some t \<and> tb_policies t = []"
proof
  fix r assume "r \<in> set (map fst ts)"
  then obtain t where t: "(r, t) \<in> set ts" by auto
  have "table_of (with_tables ts c) r = Some t"
    unfolding table_of_def by (rule map_of_is_SomeI [OF assms(1)]) (simp add: t)
  with t assms(2) bare_policies show "\<exists>t. table_of (with_tables ts c) r = Some t \<and> tb_policies t = []" by (auto simp: list_all_iff)
qed

lemma base_relations: "fst ` set (cat_tables (base_0002 s)) = fst ` set tables_0001"
  using base_0002_simps(5) [of s] by (metis list.set_map)

lemma fresh_0002: "set (map fst (tables_0002 @ tables_review)) \<inter> fst ` set (cat_tables (base_0002 s)) = {}"
  unfolding base_relations by (simp add: tables_0001_def tables_0002_def tables_review_def)

lemma distinct_tables_0002: "distinct (map fst (cat_tables (base_0002 s)) @ map fst (tables_0002 @ tables_review))"
  unfolding base_0002_simps(5) by (simp add: tables_0001_def tables_0002_def tables_review_def)

lemma run_upgrade_0002: "run_script upgrade_0002 (at_0001 s) = Inr (at_0002 s)"
proof -
  let ?b = "base_0002 s" and ?ts = "tables_0002 @ tables_review"
  let ?c = "open_schemas [''review''] ?b"
  let ?R = "set (map fst ?ts)"
  have c1: "creatable ?b tables_0002" using seen_creatable [OF base_0002_simps(6)] creatable_0002(1) by blast
  have 1: "run_script (concat (map create_script tables_0002)) ?b = Inr (with_tables tables_0002 ?b)"
    by (rule run_create_all [OF c1]) (use creatable_0002(3) in simp)
  have 2: "run_ddl (Create_Schema ''review'') (with_tables tables_0002 ?b) = Inr (open_schemas [''review''] (with_tables tables_0002 ?b))"
    by (simp add: run_ddl_def open_schemas_def base_0002_simps)
  have swap: "open_schemas ss (with_tables us d) = with_tables us (open_schemas ss d)" for ss us d
    by (simp add: open_schemas_def with_tables_def)
  have "seen_by_create (open_schemas [''review''] (with_tables tables_0002 ?b)) =
      seen_by_create (open_schemas [''review''] (with_tables tables_0002 declared_base))"
    by (rule seen_open) (use base_0002_simps(6) [of s] in \<open>simp add: seen_by_create_def\<close>)
  from seen_creatable [OF this] creatable_0002(2)
  have c2: "creatable (open_schemas [''review''] (with_tables tables_0002 ?b)) tables_review" by blast
  have 3: "run_script (concat (map create_script tables_review)) (open_schemas [''review''] (with_tables tables_0002 ?b)) = Inr (with_tables ?ts ?c)"
    using run_create_all [OF c2] creatable_0002(3) by (simp add: swap)
  have distinct: "distinct (map fst (cat_tables (with_tables ?ts ?c)))"
    using distinct_tables_0002 [of s] by (simp del: distinct_append)
  have new: "(''inbox_messages'', ''integration'') \<notin> ?R" by (simp add: tables_0002_def tables_review_def)
  have old: "table_of (with_tables ?ts ?c) (''inbox_messages'', ''integration'') = Some (read_write inbox_messages_table)"
  proof -
    from table_of_old [OF new] show ?thesis by (simp add: base_0002_def table_of_alter table_of_at_0001)
  qed
  have declared: "\<forall>r \<in> ?R. \<exists>t. table_of (with_tables ?ts ?c) r = Some t \<and> tb_policies t = []"
    by (rule declared_tables [OF distinct creatable_0002(3)])
  then have 4: "run_script (concat (map enable_rls isolated_0002)) (with_tables ?ts ?c) = Inr (alter ?R isolate (with_tables ?ts ?c))"
    using enable_each [OF distinct_0002(2) distinct] distinct_0002(3) by simp
  let ?i = "alter ?R isolate (with_tables ?ts ?c)"
  have role: "map_of (cat_roles ?i) APP_ROLE \<noteq> None" by (simp add: base_0002_simps role_0001_def)
  have 5: "run_ddl (Grant_On_Table READ_WRITE (''inbox_messages'', ''integration'') APP_ROLE) ?i = Inr ?i"
  proof -
    have t: "table_of ?i (''inbox_messages'', ''integration'') = Some (read_write inbox_messages_table)"
      unfolding table_of_alter old using new by simp
    have "alter {(''inbox_messages'', ''integration'')} read_write ?i = ?i"
      by (rule alter_id [where r = "(''inbox_messages'', ''integration'')"]) (use distinct t in \<open>simp_all add: regrant\<close>)
    with on_table_alter [of ?i _ _ "\<lambda>t. Inr (read_write t)" read_write, OF _ t] distinct role show ?thesis by (simp add: run_ddl_def)
  qed
  have 6: "run_ddl (Grant_Usage [''review''] APP_ROLE) ?i = Inr (allow_schemas [''review''] ?i)"
    using role by (simp add: run_ddl_def allow_schemas_def base_0002_simps role_0001_def)
  let ?rs = "[(''documents'', ''applications''), (''status_projection'', ''applications''), (''review_queue_entries'', ''review'')]"
  have "run_script (map (\<lambda>r. Grant_On_Table READ_WRITE r APP_ROLE) ?rs) (allow_schemas [''review''] ?i) =
      Inr (alter (set ?rs) read_write (allow_schemas [''review''] ?i))"
    by (rule run_grant_each) (use distinct role declared in \<open>auto simp: table_of_alter tables_0002_def tables_review_def\<close>)
  moreover have "set ?rs = ?R" by (auto simp: tables_0002_def tables_review_def)
  ultimately have 7: "run_script (map (\<lambda>r. Grant_On_Table READ_WRITE r APP_ROLE) ?rs) (allow_schemas [''review''] ?i) =
      Inr (alter ?R read_write (allow_schemas [''review''] ?i))" by simp
  have "alter ?R read_write (allow_schemas [''review''] ?i) = allow_schemas [''review''] (alter ?R (\<lambda>t. read_write (isolate t)) (with_tables ?ts ?c))"
    by (simp add: alter_compose [symmetric]) (simp add: alter_def allow_schemas_def)
  also have "alter ?R (\<lambda>t. read_write (isolate t)) (with_tables ?ts ?c) = with_tables (dress ?ts) ?c"
    using alter_last [OF refl, of ?ts ?c] fresh_0002 [of s] by (simp add: dress_def)
  finally have 8: "alter ?R read_write (allow_schemas [''review''] ?i) = at_0002 s"
    by (simp add: at_0002_def dress_def allow_schemas_def with_tables_def)
  have grants: "grant_review = [Grant_On_Table READ_WRITE (''inbox_messages'', ''integration'') APP_ROLE, Grant_Usage [''review''] APP_ROLE] @
      map (\<lambda>r. Grant_On_Table READ_WRITE r APP_ROLE) ?rs"
    by (simp add: grant_review_def)
  show ?thesis
    unfolding upgrade_0002_def grants run_script_append run_add_flow sum.case 1 run_script.simps 2 3 4 5 6 7 8 ..
qed

subsection \<open>The third migration\<close>

lemma at_0002_simps:
  "cat_schemas (at_0002 s) = [''identity'', ''applications'', ''integration'', ''audit'', ''review'']"
  "cat_roles (at_0002 s) = cat_roles (role_0001 empty_catalogue)"
  "cat_usage (at_0002 s) = cat_usage (role_0001 empty_catalogue) @ [(''review'', APP_ROLE)]"
  "cat_tenant_setting (at_0002 s) = s"
  "map fst (cat_tables (at_0002 s)) = map fst (tables_0001 @ tables_0002 @ tables_review)"
  "seen_by_create (at_0002 s) = seen_by_create declared_0002"
proof -
  have "seen_by_create (allow_schemas [''review''] (open_schemas [''review''] (base_0002 s))) =
      seen_by_create (open_schemas [''review''] declared_base)"
    using seen_open [OF base_0002_simps(6)] by simp
  from seen_dress [OF this, of "tables_0002 @ tables_review"]
  show "seen_by_create (at_0002 s) = seen_by_create declared_0002"
    by (simp add: at_0002_def dress_def seen_by_create_def)
qed (simp_all add: at_0002_def base_0002_simps)

lemma creatable_0003:
  "creatable (open_schemas [''documents'', ''verification''] declared_0002) tables_0003" "list_all (\<lambda>(_, t). bare t) tables_0003"
  by (code_simp, simp add: tables_0003_def bare_def new_table_def extraction_runs_table_def extracted_facts_table_def
      fact_candidates_table_def document_checksums_table_def verification_runs_table_def verification_checks_table_def
      contradictions_table_def external_response_snapshots_table_def)

lemma distinct_0003: "distinct isolated_0003" "map fst tables_0003 = isolated_0003"
  by (simp_all add: tables_0003_def isolated_0003_def)

lemma distinct_tables_0003: "distinct (map fst (tables_0001 @ tables_0002 @ tables_review) @ map fst tables_0003)"
  by (simp add: tables_0001_def tables_0002_def tables_review_def tables_0003_def)

lemma run_upgrade_0003: "run_script upgrade_0003 (at_0002 s) = Inr (at_0003 s)"
proof -
  let ?ss = "[''documents'', ''verification'']"
  let ?c = "open_schemas ?ss (at_0002 s)"
  let ?d = "with_tables tables_0003 ?c"
  let ?R = "set isolated_0003"
  have 1: "run_script (map Create_Schema ?ss) (at_0002 s) = Inr ?c"
    by (simp add: run_ddl_def open_schemas_def at_0002_simps)
  have "creatable ?c tables_0003" using seen_creatable [OF seen_open [OF at_0002_simps(6)]] creatable_0003(1) by blast
  from run_create_all [OF this creatable_0003(2)]
  have 2: "run_script (concat (map create_script tables_0003)) ?c = Inr ?d" .
  have distinct: "distinct (map fst (cat_tables ?d))"
    using distinct_tables_0003 at_0002_simps(5) [of s] by (simp del: distinct_append)
  have declared: "\<forall>r \<in> ?R. \<exists>t. table_of ?d r = Some t \<and> tb_policies t = []"
    using declared_tables [OF distinct creatable_0003(2)] distinct_0003(2) by simp
  have 3: "run_script (concat (map enable_rls isolated_0003)) ?d = Inr (alter ?R isolate ?d)"
    by (rule enable_each [OF distinct_0003(1) distinct declared])
  let ?i = "alter ?R isolate ?d"
  have role: "map_of (cat_roles ?i) APP_ROLE \<noteq> None" by (simp add: at_0002_simps role_0001_def)
  have 4: "run_ddl (Grant_Usage ?ss APP_ROLE) ?i = Inr (allow_schemas ?ss ?i)"
    using role by (simp add: run_ddl_def allow_schemas_def at_0002_simps role_0001_def)
  have 5: "run_script (map (\<lambda>r. Grant_On_Table READ_WRITE r APP_ROLE) isolated_0003) (allow_schemas ?ss ?i) =
      Inr (alter ?R read_write (allow_schemas ?ss ?i))"
    by (rule run_grant_each [OF distinct_0003(1)]) (use distinct role declared in \<open>auto simp: table_of_alter\<close>)
  have "alter ?R read_write (allow_schemas ?ss ?i) = allow_schemas ?ss (alter ?R (\<lambda>t. read_write (isolate t)) ?d)"
    by (simp add: alter_compose [symmetric]) (simp add: alter_def allow_schemas_def)
  also have "alter ?R (\<lambda>t. read_write (isolate t)) ?d = with_tables (dress tables_0003) ?c"
    unfolding dress_def by (rule alter_last) (use distinct distinct_0003(2) in auto)
  finally have 6: "alter ?R read_write (allow_schemas ?ss ?i) = at_0003 s"
    by (simp add: at_0003_def allow_schemas_def with_tables_def)
  show ?thesis
    unfolding upgrade_0003_def run_script_append 1 2 3 sum.case run_script.simps 4 5 6 ..
qed

subsection \<open>The downgrades\<close>

lemma at_0002_closed: "closed_catalogue (at_0002 s)"
proof -
  let ?b = "base_0002 s" and ?c = "open_schemas [''review''] (base_0002 s)"
  have c1: "creatable ?b tables_0002" using seen_creatable [OF base_0002_simps(6)] creatable_0002(1) by blast
  have "seen_by_create (with_tables tables_0002 ?c) = seen_by_create (open_schemas [''review''] (with_tables tables_0002 declared_base))"
    using base_0002_simps(6) [of s] by (simp add: seen_by_create_def)
  from seen_creatable [OF this] creatable_0002(2) have c2: "creatable (with_tables tables_0002 ?c) tables_review" by blast
  have "closed_catalogue (with_tables tables_0002 ?c)"
    using creatable_closed [OF c1 base_0002_simps(7)] by (simp add: closed_catalogue_def)
  from creatable_closed [OF c2 this] have closed: "closed_catalogue (with_tables (tables_0002 @ tables_review) ?c)" by simp
  show ?thesis
    by (rule closed_same_columns [OF closed])
      (simp add: at_0002_def same_columns_def dress_def comp_def case_prod_beta)
qed

lemma run_downgrade_0003: "run_script downgrade_0003 (at_0003 s) = Inr (at_0002 s)"
proof -
  let ?ss = "[''documents'', ''verification'']"
  let ?c = "allow_schemas ?ss (open_schemas ?ss (at_0002 s))"
  have "creatable ?c tables_0003"
    using seen_creatable [OF seen_open [OF at_0002_simps(6)]] seen_creatable [OF opened_simps(13)] creatable_0003(1) by blast
  moreover have "closed_catalogue ?c" using at_0002_closed by simp
  ultimately have 1: "run_script (map Drop_Table (rev (map fst tables_0003))) (at_0003 s) = Inr ?c"
    unfolding at_0003_def using run_drop_all dress_columns by blast
  have apart: "list_ex (\<lambda>((_, s'), _). s' = s0) (cat_tables (at_0002 s)) \<longleftrightarrow> s0 \<in> snd ` set (map fst (cat_tables (at_0002 s)))" for s0
    by (force simp: list_ex_iff)
  have none: "\<not> list_ex (\<lambda>((_, s'), _). s' = s0) (cat_tables (at_0002 s))" if "s0 \<in> set ?ss" for s0
    unfolding apart at_0002_simps(5) using that by (auto simp: tables_0001_def tables_0002_def tables_review_def)
  have keep: "filter (\<lambda>((_, s'), _). s' \<noteq> s0) (cat_tables (at_0002 s)) = cat_tables (at_0002 s)" if "s0 \<in> set ?ss" for s0
    using none [OF that] by (intro filter_True) (auto simp: list_ex_iff)
  have 2: "run_script [Drop_Schema ''verification'' False, Drop_Schema ''documents'' False] ?c = Inr (at_0002 s)"
    using none keep by (simp add: run_ddl_def at_0002_simps allow_schemas_def open_schemas_def role_0001_def)
  have script: "downgrade_0003 = map Drop_Table (rev (map fst tables_0003)) @ [Drop_Schema ''verification'' False, Drop_Schema ''documents'' False]"
    by (simp add: downgrade_0003_def tables_0003_def)
  show ?thesis unfolding script run_script_append 1 sum.case by (rule 2)
qed

text \<open>Dropping a column no foreign key refers to.\<close>

definition without_column :: "string \<Rightarrow> sql_table \<Rightarrow> sql_table" where
  "without_column n t = t\<lparr>tb_columns := filter (\<lambda>k. col_name k \<noteq> n) (tb_columns t),
     tb_indexes := filter (\<lambda>(_, ks). n \<notin> set ks) (tb_indexes t), tb_uniques := filter (\<lambda>(_, ks). n \<notin> set ks) (tb_uniques t)\<rparr>"

lemma run_drop_column:
  assumes "\<not> refers c r n" "distinct (map fst (cat_tables c))" "table_of c r = Some t" "column_of t n \<noteq> None"
  shows "run_ddl (Drop_Column r n) c = Inr (alter {r} (without_column n) c)"
proof -
  have "run_ddl (Drop_Column r n) c =
      on_table r (\<lambda>t. if column_of t n = None then Inl ''undefined_column'' else Inr (without_column n t)) c"
    using assms(1) by (simp add: run_ddl_def refers_def without_column_def cong: if_cong)
  also have "\<dots> = Inr (alter {r} (without_column n) c)"
    by (rule on_table_alter [OF assms(2,3)]) (simp add: assms(4))
  finally show ?thesis .
qed

lemma drop_flow: "run_ddl (Drop_Column (''applications'', ''applications'') ''active_workflow_id'') (base_0002 s) = Inr (at_0001 s)"
proof -
  let ?r = "(''applications'', ''applications'')" and ?n = "''active_workflow_id''"
  have "\<not> refers declared_0001 ?r ?n" by code_simp
  then have "\<not> refers (at_0001 s) ?r ?n" using refers_same_columns [OF at_0001_columns] by blast
  then have "\<not> refers (base_0002 s) ?r ?n"
    by (force simp: refers_def base_0002_def alter_def list_ex_iff add_flow_def nullable_def required_def split: if_splits)
  moreover have "table_of (base_0002 s) ?r = Some (add_flow (read_write (isolate applications_table)))"
    by (simp add: base_0002_def table_of_alter table_of_at_0001)
  moreover have "column_of (add_flow t) ?n \<noteq> None" for t
    by (simp add: column_of_None add_flow_def nullable_def required_def)
  ultimately have "run_ddl (Drop_Column ?r ?n) (base_0002 s) = Inr (alter {?r} (without_column ?n) (base_0002 s))"
    using base_0002_simps(5) distinct_0001(2) by (intro run_drop_column) simp_all
  moreover have "alter {?r} (without_column ?n) (base_0002 s) = at_0001 s"
    unfolding base_0002_def alter_compose
  proof (rule alter_id [where r = ?r])
    fix t assume "table_of (at_0001 s) ?r = Some t"
    then have "t = read_write (isolate applications_table)" by (simp add: table_of_at_0001)
    moreover have "tb_uniques (add_grant role ps u) = tb_uniques u" for role ps u by (simp add: add_grant_def split: option.splits)
    ultimately have "filter (\<lambda>k. col_name k \<noteq> ?n) (tb_columns (add_flow t)) = tb_columns t"
      "filter (\<lambda>(_, ks). ?n \<notin> set ks) (tb_indexes (add_flow t)) = tb_indexes t"
      "filter (\<lambda>(_, ks). ?n \<notin> set ks) (tb_uniques (add_flow t)) = tb_uniques t"
      by (simp_all add: add_flow_def nullable_def required_def applications_table_def new_table_def pk_column_def foreign_def isolate_def)
    then show "without_column ?n (add_flow t) = t" by (simp add: without_column_def) (simp add: add_flow_def)
  qed (use at_0001_simps(5) distinct_0001(2) in simp_all)
  ultimately show ?thesis by simp
qed

lemma run_downgrade_0002: "run_script downgrade_0002 (at_0002 s) = Inr (at_0001 s)"
proof -
  let ?b = "base_0002 s"
  let ?o = "allow_schemas [''review''] (open_schemas [''review''] ?b)"
  let ?c = "with_tables (dress tables_0002) ?o"
  have c1: "creatable ?b tables_0002" using seen_creatable [OF base_0002_simps(6)] creatable_0002(1) by blast
  have "seen_by_create ?c = seen_by_create (open_schemas [''review''] (with_tables tables_0002 declared_base))"
    using base_0002_simps(6) [of s] by (simp add: seen_by_create_def dress_def comp_def case_prod_beta)
  from seen_creatable [OF this] creatable_0002(2) have "creatable ?c tables_review" by blast
  moreover have closed: "closed_catalogue (with_tables (dress tables_0002) ?b)"
    by (rule closed_same_columns [OF creatable_closed [OF c1 base_0002_simps(7)]])
      (simp add: same_columns_def dress_def comp_def case_prod_beta)
  then have "closed_catalogue ?c" by (simp add: closed_catalogue_def)
  moreover have "at_0002 s = with_tables (dress tables_review) ?c" by (simp add: at_0002_def)
  ultimately have 1: "run_script (map Drop_Table (rev (map fst tables_review))) (at_0002 s) = Inr ?c"
    using run_drop_all dress_columns by metis
  have apart: "list_ex (\<lambda>((_, s'), _). s' = s0) ts \<longleftrightarrow> s0 \<in> snd ` fst ` set ts" for s0 and ts :: "(relation \<times> sql_table) list"
    by (force simp: list_ex_iff)
  have none: "\<not> list_ex (\<lambda>((_, s'), _). s' = ''review'') (cat_tables ?c)"
    unfolding apart by (simp add: image_Un base_relations) (simp add: tables_0001_def tables_0002_def)
  have keep: "filter (\<lambda>((_, s'), _). s' \<noteq> ''review'') (cat_tables ?c) = cat_tables ?c"
    using none by (intro filter_True) (auto simp: list_ex_iff)
  have 2: "run_ddl (Drop_Schema ''review'' False) ?c = Inr (with_tables (dress tables_0002) ?b)"
    using none keep by (simp add: run_ddl_def base_0002_simps allow_schemas_def open_schemas_def role_0001_def with_tables_def)
  have 3: "run_script (map Drop_Table (rev (map fst tables_0002))) (with_tables (dress tables_0002) ?b) = Inr ?b"
    by (rule run_drop_all [OF base_0002_simps(7) c1 dress_columns])
  have script: "downgrade_0002 = map Drop_Table (rev (map fst tables_review)) @ [Drop_Schema ''review'' False] @
      map Drop_Table (rev (map fst tables_0002)) @ [Drop_Column (''applications'', ''applications'') ''active_workflow_id'']"
    by (simp add: downgrade_0002_def tables_review_def tables_0002_def)
  show ?thesis unfolding script run_script_append 1 sum.case run_script.simps 2 3 drop_flow ..
qed

lemma run_downgrade_0001: "run_script downgrade_0001 (at_0001 s) = Inr (empty_catalogue\<lparr>cat_tenant_setting := s\<rparr>)"
proof -
  let ?c = "(role_0001 schemas_0001)\<lparr>cat_tenant_setting := s\<rparr>"
  have "seen_by_create ?c = seen_by_create schemas_0001" by simp
  from seen_creatable [OF this] creatable_0001(1) have "creatable ?c tables_0001" by blast
  moreover have "closed_catalogue ?c" by (rule closed_empty) (simp add: schemas_0001_def empty_catalogue_def)
  moreover have "same_columns tables_0001 (cat_tables (at_0001 s))"
    using at_0001_columns [of s] by (simp add: schemas_0001_def empty_catalogue_def)
  moreover have "with_tables (cat_tables (at_0001 s)) ?c = at_0001 s"
  proof -
    have rest: "at_0001 s = ?c\<lparr>cat_tables := cat_tables (at_0001 s)\<rparr>"
      by (simp add: at_0001_def granted_0001_def role_0001_def alter_def with_tables_def)
    moreover have "with_tables ts ?c = ?c\<lparr>cat_tables := ts\<rparr>" for ts
      by (simp add: with_tables_def schemas_0001_def empty_catalogue_def)
    ultimately show ?thesis by metis
  qed
  ultimately have 1: "run_script (map Drop_Table (rev (map fst tables_0001))) (at_0001 s) = Inr ?c"
    using run_drop_all by metis
  have 2: "run_script [Drop_Schema ''audit'' True, Drop_Schema ''integration'' True, Drop_Schema ''applications'' True,
      Drop_Schema ''identity'' True, Drop_Role APP_ROLE] ?c = Inr (empty_catalogue\<lparr>cat_tenant_setting := s\<rparr>)"
    by (simp add: run_ddl_def role_0001_def schemas_0001_def empty_catalogue_def)
  have script: "downgrade_0001 = map Drop_Table (rev (map fst tables_0001)) @ [Drop_Schema ''audit'' True,
      Drop_Schema ''integration'' True, Drop_Schema ''applications'' True, Drop_Schema ''identity'' True, Drop_Role APP_ROLE]"
    by (simp add: downgrade_0001_def tables_0001_def)
  show ?thesis unfolding script run_script_append 1 sum.case by (rule 2)
qed

subsection \<open>The head of the history\<close>

lemma head_upgrade: "run_migrations upgrade_step MIGRATIONS empty_database =
    (Inr (), \<lparr>md_version = Some ''0003_phase4_documents'', md_catalogue = at_0003 None\<rparr>)"
proof -
  have reset: "(at_0003 s)\<lparr>cat_tenant_setting := v\<rparr> = at_0003 v" for s v
    by (simp add: at_0003_def at_0002_def base_0002_def at_0001_def alter_def with_tables_def allow_schemas_def open_schemas_def)
  show ?thesis
    by (simp add: run_migrations_def MIGRATIONS_def upgrade_step_def migration_0001_def migration_0002_def migration_0003_def
        empty_database_def run_upgrade_0001 run_upgrade_0002 run_upgrade_0003 VERSION_COLUMN_LENGTH_def reset)
qed

lemma head_database_eq: "head_database = \<lparr>md_version = Some ''0003_phase4_documents'', md_catalogue = at_0003 None\<rparr>"
  by (simp add: head_database_def head_upgrade)

text \<open>C13: the migrations are a round trip.  The three upgrades run in order on an empty database without an
  error of the server, every foreign key finding its target and every name free, and record the head
  revision; the three downgrades, run from there, leave exactly the empty database again, its
  schemas, tables, grants and role all gone.\<close>

theorem migrations_round_trip:
  "run_migrations upgrade_step MIGRATIONS empty_database = (Inr (), head_database) \<and>
   md_version head_database = Some ''0003_phase4_documents'' \<and>
   map fst (cat_tables (md_catalogue head_database)) = map fst (tables_0001 @ tables_0002 @ tables_review @ tables_0003) \<and>
   run_migrations downgrade_step (rev MIGRATIONS) head_database = (Inr (), empty_database)"
proof -
  have "map fst (cat_tables (at_0003 None)) = map fst (tables_0001 @ tables_0002 @ tables_review @ tables_0003)"
    using at_0002_simps(5) [of None] by (simp add: at_0003_def)
  moreover have "run_migrations downgrade_step (rev MIGRATIONS) head_database = (Inr (), empty_database)"
    by (simp add: run_migrations_def MIGRATIONS_def downgrade_step_def migration_0001_def migration_0002_def migration_0003_def
        head_database_eq run_downgrade_0001 run_downgrade_0002 run_downgrade_0003 empty_database_def empty_catalogue_def)
  ultimately show ?thesis by (simp add: head_upgrade head_database_eq)
qed

subsection \<open>Row-level security\<close>

definition confined_table :: "sql_table \<Rightarrow> bool" where
  "confined_table t \<longleftrightarrow> tb_rls_enabled t \<and> tb_rls_forced t \<and> tb_policies t = [tenant_isolation] \<and>
     column_of t ''tenant_id'' \<noteq> None \<and> map_of (tb_grants t) APP_ROLE = Some READ_WRITE"

lemma confined_dressed: "bare t \<Longrightarrow> column_of t ''tenant_id'' \<noteq> None \<Longrightarrow> confined_table (read_write (isolate t))"
  using arg_cong [where f = tb_grants, OF iffD1 [OF bare_def]]
  by (auto simp: confined_table_def isolate_def add_grant_def column_of_def new_table_def)

lemma confined_altered: "confined_table (store row t) = confined_table t" "confined_table t \<Longrightarrow> confined_table (add_flow t)"
  by (simp_all add: confined_table_def column_of_None store_def add_flow_def)

lemma tables_at_0001: "cat_tables (at_0001 s) =
    (let d = \<lambda>r t. (r, read_write (isolate t)) in
     [((''tenants'', ''identity''), store tenant_row (add_grant APP_ROLE [''SELECT''] tenants_table)),
      ((''products'', ''applications''), store product_row (read_write (isolate products_table))),
      d (''applicants'', ''applications'') applicants_table, d (''applications'', ''applications'') applications_table,
      d (''application_versions'', ''applications'') application_versions_table,
      d (''consent_records'', ''applications'') consent_records_table,
      d (''state_transitions'', ''applications'') state_transitions_table,
      d (''outbox_events'', ''integration'') outbox_events_table,
      ((''inbox_messages'', ''integration''), read_write inbox_messages_table),
      d (''idempotency_keys'', ''integration'') idempotency_keys_table,
      d (''audit_events'', ''audit'') audit_events_table, d (''audit_hashes'', ''audit'') audit_hashes_table])"
  by (simp add: at_0001_def granted_0001_def role_0001_def schemas_0001_def empty_catalogue_def alter_def with_tables_def
      tables_0001_def isolated_0001_def)

lemma tenant_columns:
  "list_all (\<lambda>(r, t). (column_of t ''tenant_id'' \<noteq> None) = (r \<noteq> (''inbox_messages'', ''integration'')))
     (tables_0001 @ tables_0002 @ tables_review @ tables_0003)"
  by code_simp

text \<open>C14: no table with a tenant's data escapes row-level security.  In the migrated database every table the
  application may write has row-level security enabled and forced, with exactly the isolation policy on
  its tenant column, but for \<open>inbox_messages\<close>, which has no such column; of the tenants themselves the
  application may only read; and its role can neither bypass the policies nor is it a superuser.\<close>

theorem tenant_tables_isolated:
  "map fst (filter (\<lambda>(r, t). \<not> confined_table t) (cat_tables (md_catalogue head_database))) =
     [(''tenants'', ''identity''), (''inbox_messages'', ''integration'')] \<and>
   map_option tb_grants (table_of (md_catalogue head_database) (''tenants'', ''identity'')) = Some [(APP_ROLE, [''SELECT''])] \<and>
   map_option (\<lambda>t. column_of t ''tenant_id'') (table_of (md_catalogue head_database) (''inbox_messages'', ''integration'')) = Some None \<and>
   map_option (\<lambda>as. {''NOSUPERUSER'', ''NOBYPASSRLS''} \<subseteq> set as) (map_of (cat_roles (md_catalogue head_database)) APP_ROLE) = Some True"
proof -
  have bares: "list_all (\<lambda>(_, t). bare t) (tables_0001 @ tables_0002 @ tables_review @ tables_0003)"
    using creatable_0001(2) creatable_0002(3) creatable_0003(2) by simp
  have confined: "confined_table (read_write (isolate t))"
    if "(r, t) \<in> set (tables_0001 @ tables_0002 @ tables_review @ tables_0003)" "r \<noteq> (''inbox_messages'', ''integration'')" for r t
    using bspec [OF bares [unfolded list_all_iff] that(1)] bspec [OF tenant_columns [unfolded list_all_iff] that(1)] that(2)
    by (intro confined_dressed) simp_all
  have dressed: "filter (\<lambda>(r, t). \<not> confined_table t) (dress ts) = []"
    if "set ts \<subseteq> set (tables_0002 @ tables_review @ tables_0003)" for ts
  proof -
    have "r \<noteq> (''inbox_messages'', ''integration'')" if "(r, t) \<in> set (tables_0002 @ tables_review @ tables_0003)" for r t
      using that by (auto simp: tables_0002_def tables_review_def tables_0003_def)
    with that confined show ?thesis by (fastforce simp: filter_empty_conv dress_def)
  qed
  have inbox: "column_of inbox_messages_table ''tenant_id'' = None"
    by (simp add: column_of_def inbox_messages_table_def new_table_def pk_column_def required_def)
  have open_tables: "\<not> confined_table (store tenant_row (add_grant APP_ROLE [''SELECT''] tenants_table))"
    "\<not> confined_table (read_write inbox_messages_table)"
    by (simp_all add: confined_table_def tenants_table_def inbox_messages_table_def new_table_def)
  have "list_all (\<lambda>(r, t). r = (''inbox_messages'', ''integration'') \<or> confined_table (read_write (isolate t))) tables_0001"
    unfolding list_all_iff using confined by auto
  then have "confined_table (read_write (isolate t))" if "t \<in> {products_table, applicants_table, applications_table,
      application_versions_table, consent_records_table, state_transitions_table, outbox_events_table, idempotency_keys_table,
      audit_events_table, audit_hashes_table}" for t
    using that by (auto simp: tables_0001_def)
  then have base: "map fst (filter (\<lambda>(r, t). \<not> confined_table t) (cat_tables (base_0002 s))) =
      [(''tenants'', ''identity''), (''inbox_messages'', ''integration'')]" for s
    using confined_altered open_tables
    by (simp add: base_0002_def alter_def tables_at_0001 Let_def tables_0001_def)
  have tables: "map fst (filter (\<lambda>(r, t). \<not> confined_table t) (cat_tables (at_0003 None))) =
      [(''tenants'', ''identity''), (''inbox_messages'', ''integration'')]"
  proof -
    have "filter (\<lambda>(r, t). \<not> confined_table t) (dress tables_0002) = []" "filter (\<lambda>(r, t). \<not> confined_table t) (dress tables_review) = []"
      "filter (\<lambda>(r, t). \<not> confined_table t) (dress tables_0003) = []"
      by (rule dressed, auto)+
    with base show ?thesis
      by (simp add: at_0003_def at_0002_def)
  qed
  have kept: "table_of (at_0003 None) r = table_of (base_0002 None) r" if "r \<in> {(''tenants'', ''identity''), (''inbox_messages'', ''integration'')}" for r
  proof -
    have "r \<notin> set (map fst (dress tables_0003))" "r \<notin> set (map fst (dress tables_0002 @ dress tables_review))"
      using that by (auto simp: tables_0002_def tables_review_def tables_0003_def)
    from this [THEN table_of_old] show ?thesis by (simp add: at_0003_def at_0002_def)
  qed
  from kept [of "(''tenants'', ''identity'')"] kept [of "(''inbox_messages'', ''integration'')"]
  have found: "table_of (at_0003 None) (''tenants'', ''identity'') = Some (store tenant_row (add_grant APP_ROLE [''SELECT''] tenants_table))"
    "table_of (at_0003 None) (''inbox_messages'', ''integration'') = Some (read_write inbox_messages_table)"
    by (simp_all add: tables_0001_def base_0002_def table_of_alter table_of_def [of "at_0001 _"] tables_at_0001 Let_def)
  have "column_of (read_write inbox_messages_table) ''tenant_id'' = None"
    using inbox by (simp add: column_of_def add_grant_def split: option.split)
  moreover have "tb_grants (store tenant_row (add_grant APP_ROLE [''SELECT''] tenants_table)) = [(APP_ROLE, [''SELECT''])]"
    by (simp add: store_def add_grant_def tenants_table_def new_table_def)
  moreover have "map_of (cat_roles (at_0003 None)) APP_ROLE = map_of (cat_roles (role_0001 empty_catalogue)) APP_ROLE"
    by (simp add: at_0003_def at_0002_simps)
  ultimately show ?thesis
    using tables found by (simp add: head_database_eq) (simp add: role_0001_def)
qed

end
