(* ===== verification/Orm.thy ===== *)
theory Orm
  imports Schema
begin

text \<open>
  The object-relational mapping of \<open>infrastructure/postgres/orm_models.py\<close> as declarations: what each
  class says of its table, and that it is the table the migrations create.
\<close>

subsection \<open>Declarative mappings\<close>

datatype py_type = Py_str | Py_int | Py_float | Py_bool | Py_date | Py_datetime | Py_Decimal | Py_dict

text \<open>One \<open>Mapped\<close> annotation with its \<open>mapped_column\<close> call.\<close>

record mapped_attribute =
  ma_name :: string
  ma_annotation :: py_type
  ma_optional :: bool
  ma_type :: "sql_type option"
  ma_primary_key :: bool
  ma_references :: "(relation \<times> string) option"
  ma_index :: bool
  ma_unique :: bool

record mapping_of_table =
  om_relation :: relation
  om_attributes :: "mapped_attribute list"
  om_uniques :: "string list list"

definition mapped :: "string \<Rightarrow> py_type \<Rightarrow> mapped_attribute" where
  "mapped n t = \<lparr>ma_name = n, ma_annotation = t, ma_optional = False, ma_type = None, ma_primary_key = False,
     ma_references = None, ma_index = False, ma_unique = False\<rparr>"

definition optional_mapped :: "string \<Rightarrow> py_type \<Rightarrow> mapped_attribute" where
  "optional_mapped n t = (mapped n t)\<lparr>ma_optional := True\<rparr>"

definition typed :: "sql_type \<Rightarrow> mapped_attribute \<Rightarrow> mapped_attribute" where
  "typed t a = a\<lparr>ma_type := Some t\<rparr>"

definition keyed :: "mapped_attribute \<Rightarrow> mapped_attribute" where
  "keyed a = a\<lparr>ma_primary_key := True\<rparr>"

definition foreign_key :: "relation \<Rightarrow> string \<Rightarrow> mapped_attribute \<Rightarrow> mapped_attribute" where
  "foreign_key r k a = a\<lparr>ma_references := Some (r, k)\<rparr>"

definition indexed :: "mapped_attribute \<Rightarrow> mapped_attribute" where
  "indexed a = a\<lparr>ma_index := True\<rparr>"

definition unique_mapped :: "mapped_attribute \<Rightarrow> mapped_attribute" where
  "unique_mapped a = a\<lparr>ma_unique := True\<rparr>"

text \<open>\<open>Base.type_annotation_map\<close>, and the column type an attribute resolves to: the type given in the call,
  else the class's map, else the mapper's defaults, which are a parameter.  An annotation none of them
  knows is an error at import time.\<close>

definition type_annotation_map :: "(py_type \<times> sql_type) list" where
  "type_annotation_map = [(Py_datetime, Sql_Timestamptz)]"

definition resolved_type :: "(py_type \<Rightarrow> sql_type option) \<Rightarrow> mapped_attribute \<Rightarrow> sql_type option" where
  "resolved_type defaults a =
     (case ma_type a of Some t \<Rightarrow> Some t
      | None \<Rightarrow> (case map_of type_annotation_map (ma_annotation a) of Some t \<Rightarrow> Some t
                 | None \<Rightarrow> defaults (ma_annotation a)))"

text \<open>The documented defaults of the mapper.\<close>

definition documented_types :: "(py_type \<Rightarrow> sql_type option) \<Rightarrow> bool" where
  "documented_types defaults \<longleftrightarrow>
     defaults Py_str = Some Sql_Varchar \<and> defaults Py_int = Some Sql_Integer \<and> defaults Py_float = Some Sql_Float \<and>
     defaults Py_bool = Some Sql_Boolean \<and> defaults Py_date = Some Sql_Date \<and> defaults Py_datetime = Some Sql_Timestamp"

subsection \<open>The mapped classes\<close>

text \<open>The table registered without a class.\<close>

definition identity_tenants_table :: "relation \<times> column list" where
  "identity_tenants_table =
     ((''tenants'', ''identity''),
      [pk_column ''tenant_id'' Sql_Text, required ''name'' Sql_Text, required ''created_at'' Sql_Timestamptz])"

definition Product_mapping :: mapping_of_table where
  "Product_mapping =
     \<lparr>om_relation = (''products'', ''applications''),
      om_attributes =
        [keyed (mapped ''product_id'' Py_str),
         indexed (foreign_key (''tenants'', ''identity'') ''tenant_id'' (mapped ''tenant_id'' Py_str)),
         unique_mapped (mapped ''code'' Py_str),
         mapped ''name'' Py_str,
         mapped ''currency'' Py_str,
         typed (Sql_Numeric 18 2) (mapped ''min_amount'' Py_Decimal),
         typed (Sql_Numeric 18 2) (mapped ''max_amount'' Py_Decimal),
         mapped ''min_term_months'' Py_int,
         mapped ''max_term_months'' Py_int,
         mapped ''is_active'' Py_bool,
         mapped ''created_at'' Py_datetime],
      om_uniques = []\<rparr>"

definition Applicant_mapping :: mapping_of_table where
  "Applicant_mapping =
     \<lparr>om_relation = (''applicants'', ''applications''),
      om_attributes =
        [keyed (mapped ''applicant_id'' Py_str),
         indexed (foreign_key (''tenants'', ''identity'') ''tenant_id'' (mapped ''tenant_id'' Py_str)),
         mapped ''given_name'' Py_str,
         mapped ''family_name'' Py_str,
         mapped ''date_of_birth'' Py_date,
         mapped ''email'' Py_str,
         mapped ''created_at'' Py_datetime],
      om_uniques = []\<rparr>"

definition Application_mapping :: mapping_of_table where
  "Application_mapping =
     \<lparr>om_relation = (''applications'', ''applications''),
      om_attributes =
        [keyed (mapped ''application_id'' Py_str),
         indexed (foreign_key (''tenants'', ''identity'') ''tenant_id'' (mapped ''tenant_id'' Py_str)),
         foreign_key (''applicants'', ''applications'') ''applicant_id'' (mapped ''applicant_id'' Py_str),
         foreign_key (''products'', ''applications'') ''product_id'' (mapped ''product_id'' Py_str),
         typed (Sql_Numeric 18 2) (mapped ''requested_amount'' Py_Decimal),
         mapped ''currency'' Py_str,
         mapped ''requested_term_months'' Py_int,
         mapped ''status'' Py_str,
         mapped ''version'' Py_int,
         mapped ''created_at'' Py_datetime,
         mapped ''updated_at'' Py_datetime,
         optional_mapped ''active_workflow_id'' Py_str],
      om_uniques = []\<rparr>"

definition ApplicationVersion_mapping :: mapping_of_table where
  "ApplicationVersion_mapping =
     \<lparr>om_relation = (''application_versions'', ''applications''),
      om_attributes =
        [keyed (mapped ''id'' Py_str),
         indexed (foreign_key (''applications'', ''applications'') ''application_id'' (mapped ''application_id'' Py_str)),
         indexed (foreign_key (''tenants'', ''identity'') ''tenant_id'' (mapped ''tenant_id'' Py_str)),
         mapped ''version'' Py_int,
         mapped ''status'' Py_str,
         typed (Sql_Numeric 18 2) (mapped ''requested_amount'' Py_Decimal),
         mapped ''currency'' Py_str,
         mapped ''requested_term_months'' Py_int,
         mapped ''applicant_id'' Py_str,
         mapped ''product_id'' Py_str,
         mapped ''recorded_at'' Py_datetime],
      om_uniques = [[''application_id'', ''version'']]\<rparr>"

definition StateTransition_mapping :: mapping_of_table where
  "StateTransition_mapping =
     \<lparr>om_relation = (''state_transitions'', ''applications''),
      om_attributes =
        [keyed (mapped ''id'' Py_str),
         indexed (foreign_key (''applications'', ''applications'') ''application_id'' (mapped ''application_id'' Py_str)),
         indexed (foreign_key (''tenants'', ''identity'') ''tenant_id'' (mapped ''tenant_id'' Py_str)),
         mapped ''previous_status'' Py_str,
         mapped ''new_status'' Py_str,
         mapped ''reason'' Py_str,
         mapped ''occurred_at'' Py_datetime],
      om_uniques = []\<rparr>"

definition OutboxEvent_mapping :: mapping_of_table where
  "OutboxEvent_mapping =
     \<lparr>om_relation = (''outbox_events'', ''integration''),
      om_attributes =
        [keyed (mapped ''event_id'' Py_str),
         indexed (mapped ''tenant_id'' Py_str),
         mapped ''event_type'' Py_str,
         mapped ''schema_version'' Py_int,
         mapped ''occurred_at'' Py_datetime,
         mapped ''aggregate_type'' Py_str,
         mapped ''aggregate_id'' Py_str,
         optional_mapped ''correlation_id'' Py_str,
         optional_mapped ''causation_id'' Py_str,
         typed Sql_Jsonb (mapped ''payload'' Py_dict),
         optional_mapped ''published_at'' Py_datetime,
         mapped ''created_at'' Py_datetime],
      om_uniques = []\<rparr>"

definition IdempotencyKey_mapping :: mapping_of_table where
  "IdempotencyKey_mapping =
     \<lparr>om_relation = (''idempotency_keys'', ''integration''),
      om_attributes =
        [keyed (mapped ''tenant_id'' Py_str),
         keyed (mapped ''operation_name'' Py_str),
         keyed (mapped ''idempotency_key'' Py_str),
         mapped ''reserved_at'' Py_datetime],
      om_uniques = []\<rparr>"

definition AuditEvent_mapping :: mapping_of_table where
  "AuditEvent_mapping =
     \<lparr>om_relation = (''audit_events'', ''audit''),
      om_attributes =
        [keyed (mapped ''event_id'' Py_str),
         indexed (mapped ''tenant_id'' Py_str),
         mapped ''occurred_at'' Py_datetime,
         mapped ''event_type'' Py_str,
         mapped ''aggregate_type'' Py_str,
         mapped ''aggregate_id'' Py_str,
         typed Sql_Jsonb (mapped ''payload'' Py_dict),
         optional_mapped ''correlation_id'' Py_str,
         mapped ''prev_hash'' Py_str,
         mapped ''hash'' Py_str,
         mapped ''created_at'' Py_datetime],
      om_uniques = []\<rparr>"

definition AuditHash_mapping :: mapping_of_table where
  "AuditHash_mapping =
     \<lparr>om_relation = (''audit_hashes'', ''audit''),
      om_attributes =
        [keyed (mapped ''tenant_id'' Py_str),
         optional_mapped ''latest_event_id'' Py_str,
         mapped ''latest_hash'' Py_str,
         mapped ''updated_at'' Py_datetime],
      om_uniques = []\<rparr>"

definition InboxMessage_mapping :: mapping_of_table where
  "InboxMessage_mapping =
     \<lparr>om_relation = (''inbox_messages'', ''integration''),
      om_attributes =
        [keyed (mapped ''event_id'' Py_str),
         keyed (mapped ''consumer_name'' Py_str),
         mapped ''processed_at'' Py_datetime],
      om_uniques = []\<rparr>"

definition Document_mapping :: mapping_of_table where
  "Document_mapping =
     \<lparr>om_relation = (''documents'', ''applications''),
      om_attributes =
        [keyed (mapped ''document_id'' Py_str),
         indexed (foreign_key (''tenants'', ''identity'') ''tenant_id'' (mapped ''tenant_id'' Py_str)),
         indexed (foreign_key (''applications'', ''applications'') ''application_id'' (mapped ''application_id'' Py_str)),
         mapped ''document_type'' Py_str,
         mapped ''object_key'' Py_str,
         mapped ''checksum_sha256'' Py_str,
         mapped ''size_bytes'' Py_int,
         mapped ''uploaded_at'' Py_datetime],
      om_uniques = []\<rparr>"

definition ReviewQueueEntry_mapping :: mapping_of_table where
  "ReviewQueueEntry_mapping =
     \<lparr>om_relation = (''review_queue_entries'', ''review''),
      om_attributes =
        [keyed (mapped ''application_id'' Py_str),
         indexed (foreign_key (''tenants'', ''identity'') ''tenant_id'' (mapped ''tenant_id'' Py_str)),
         mapped ''entered_queue_at'' Py_datetime,
         mapped ''status'' Py_str,
         optional_mapped ''decision'' Py_str,
         optional_mapped ''reason'' Py_str,
         optional_mapped ''reviewer_id'' Py_str,
         optional_mapped ''decided_at'' Py_datetime],
      om_uniques = []\<rparr>"

definition StatusProjection_mapping :: mapping_of_table where
  "StatusProjection_mapping =
     \<lparr>om_relation = (''status_projection'', ''applications''),
      om_attributes =
        [keyed (mapped ''application_id'' Py_str),
         indexed (foreign_key (''tenants'', ''identity'') ''tenant_id'' (mapped ''tenant_id'' Py_str)),
         mapped ''status'' Py_str,
         mapped ''version'' Py_int,
         mapped ''updated_at'' Py_datetime],
      om_uniques = []\<rparr>"

definition ExtractionRun_mapping :: mapping_of_table where
  "ExtractionRun_mapping =
     \<lparr>om_relation = (''extraction_runs'', ''documents''),
      om_attributes =
        [keyed (mapped ''run_id'' Py_str),
         indexed (foreign_key (''tenants'', ''identity'') ''tenant_id'' (mapped ''tenant_id'' Py_str)),
         indexed (foreign_key (''applications'', ''applications'') ''application_id'' (mapped ''application_id'' Py_str)),
         foreign_key (''documents'', ''applications'') ''document_id'' (mapped ''document_id'' Py_str),
         mapped ''classification'' Py_str,
         mapped ''fact_count'' Py_int,
         mapped ''completed_at'' Py_datetime],
      om_uniques = []\<rparr>"

definition ExtractedFact_mapping :: mapping_of_table where
  "ExtractedFact_mapping =
     \<lparr>om_relation = (''extracted_facts'', ''documents''),
      om_attributes =
        [keyed (mapped ''fact_id'' Py_str),
         foreign_key (''extraction_runs'', ''documents'') ''run_id'' (mapped ''run_id'' Py_str),
         indexed (foreign_key (''tenants'', ''identity'') ''tenant_id'' (mapped ''tenant_id'' Py_str)),
         indexed (foreign_key (''applications'', ''applications'') ''application_id'' (mapped ''application_id'' Py_str)),
         foreign_key (''documents'', ''applications'') ''document_id'' (mapped ''document_id'' Py_str),
         mapped ''fact_type'' Py_str,
         mapped ''value'' Py_str,
         mapped ''normalized_value'' Py_str,
         mapped ''confidence'' Py_float,
         mapped ''page'' Py_int,
         mapped ''extraction_method'' Py_str,
         mapped ''extractor_version'' Py_str,
         mapped ''source_checksum'' Py_str,
         mapped ''status'' Py_str,
         mapped ''created_at'' Py_datetime],
      om_uniques = []\<rparr>"

definition VerificationRun_mapping :: mapping_of_table where
  "VerificationRun_mapping =
     \<lparr>om_relation = (''verification_runs'', ''verification''),
      om_attributes =
        [keyed (mapped ''run_id'' Py_str),
         indexed (foreign_key (''tenants'', ''identity'') ''tenant_id'' (mapped ''tenant_id'' Py_str)),
         indexed (foreign_key (''applications'', ''applications'') ''application_id'' (mapped ''application_id'' Py_str)),
         mapped ''check_count'' Py_int,
         mapped ''contradiction_count'' Py_int,
         mapped ''completed_at'' Py_datetime],
      om_uniques = []\<rparr>"

definition VerificationCheck_mapping :: mapping_of_table where
  "VerificationCheck_mapping =
     \<lparr>om_relation = (''verification_checks'', ''verification''),
      om_attributes =
        [keyed (mapped ''check_id'' Py_str),
         foreign_key (''verification_runs'', ''verification'') ''run_id'' (mapped ''run_id'' Py_str),
         indexed (foreign_key (''tenants'', ''identity'') ''tenant_id'' (mapped ''tenant_id'' Py_str)),
         indexed (foreign_key (''applications'', ''applications'') ''application_id'' (mapped ''application_id'' Py_str)),
         mapped ''source_system'' Py_str,
         mapped ''checked_fact_type'' Py_str,
         optional_mapped ''declared_value'' Py_str,
         optional_mapped ''external_value'' Py_str,
         mapped ''verdict'' Py_str,
         mapped ''confidence'' Py_float,
         mapped ''detail'' Py_str,
         mapped ''created_at'' Py_datetime],
      om_uniques = []\<rparr>"

definition Contradiction_mapping :: mapping_of_table where
  "Contradiction_mapping =
     \<lparr>om_relation = (''contradictions'', ''verification''),
      om_attributes =
        [keyed (mapped ''contradiction_id'' Py_str),
         unique_mapped (foreign_key (''verification_checks'', ''verification'') ''check_id'' (mapped ''check_id'' Py_str)),
         indexed (foreign_key (''tenants'', ''identity'') ''tenant_id'' (mapped ''tenant_id'' Py_str)),
         indexed (foreign_key (''applications'', ''applications'') ''application_id'' (mapped ''application_id'' Py_str)),
         mapped ''source_system'' Py_str,
         mapped ''checked_fact_type'' Py_str,
         mapped ''detail'' Py_str,
         mapped ''created_at'' Py_datetime],
      om_uniques = []\<rparr>"

definition ExternalResponseSnapshot_mapping :: mapping_of_table where
  "ExternalResponseSnapshot_mapping =
     \<lparr>om_relation = (''external_response_snapshots'', ''verification''),
      om_attributes =
        [keyed (mapped ''snapshot_id'' Py_str),
         foreign_key (''verification_runs'', ''verification'') ''run_id'' (mapped ''run_id'' Py_str),
         indexed (foreign_key (''tenants'', ''identity'') ''tenant_id'' (mapped ''tenant_id'' Py_str)),
         indexed (foreign_key (''applications'', ''applications'') ''application_id'' (mapped ''application_id'' Py_str)),
         mapped ''source_system'' Py_str,
         typed Sql_Jsonb (mapped ''response_payload'' Py_dict),
         mapped ''captured_at'' Py_datetime],
      om_uniques = []\<rparr>"

definition orm_mappings :: "mapping_of_table list" where
  "orm_mappings =
    [Product_mapping, Applicant_mapping, Application_mapping, ApplicationVersion_mapping, StateTransition_mapping,
     OutboxEvent_mapping, IdempotencyKey_mapping, AuditEvent_mapping, AuditHash_mapping, InboxMessage_mapping,
     Document_mapping, ReviewQueueEntry_mapping, StatusProjection_mapping, ExtractionRun_mapping,
     ExtractedFact_mapping, VerificationRun_mapping, VerificationCheck_mapping, Contradiction_mapping,
     ExternalResponseSnapshot_mapping]"

subsection \<open>Agreement with the migrated schema\<close>

text \<open>An unbounded \<open>VARCHAR\<close> and \<open>TEXT\<close> are stored alike.\<close>

definition storage :: "sql_type \<Rightarrow> sql_type" where
  "storage t = (if t = Sql_Varchar then Sql_Text else t)"

type_synonym shape_of_column = "string \<times> sql_type option \<times> bool \<times> bool \<times> (relation \<times> string) option \<times> bool"

definition column_shape :: "column \<Rightarrow> shape_of_column" where
  "column_shape k =
     (col_name k, Some (storage (col_type k)), col_primary_key k, col_nullable k, col_references k, col_unique k)"

definition mapped_shape :: "(py_type \<Rightarrow> sql_type option) \<Rightarrow> mapped_attribute \<Rightarrow> shape_of_column" where
  "mapped_shape defaults a =
     (ma_name a, map_option storage (resolved_type defaults a), ma_primary_key a, ma_optional a, ma_references a, ma_unique a)"

definition table_shape :: "sql_table \<Rightarrow> shape_of_column list \<times> string list list" where
  "table_shape t = (map column_shape (tb_columns t), map snd (tb_uniques t))"

definition mapping_shape :: "(py_type \<Rightarrow> sql_type option) \<Rightarrow> mapping_of_table \<Rightarrow> shape_of_column list \<times> string list list" where
  "mapping_shape defaults m = (map (mapped_shape defaults) (om_attributes m), om_uniques m)"

definition missing_indexes :: "catalogue \<Rightarrow> mapping_of_table \<Rightarrow> (relation \<times> string) list" where
  "missing_indexes c m =
     map (Pair (om_relation m))
       (filter (\<lambda>n. map_option (\<lambda>t. [n] \<in> set (map snd (tb_indexes t))) (table_of c (om_relation m)) \<noteq> Some True)
         (map ma_name (filter ma_index (om_attributes m))))"

text \<open>Row-level security, grants and rows do not touch what the mapping describes.\<close>

definition declared_head :: "(relation \<times> sql_table) list" where
  "declared_head =
     map (\<lambda>(r, t). (r, if r = (''applications'', ''applications'') then add_flow t else t)) tables_0001 @
     tables_0002 @ tables_review @ tables_0003"

definition described :: "sql_table \<Rightarrow> (shape_of_column list \<times> string list list) \<times> (string \<times> string list) list" where
  "described t = (table_shape t, tb_indexes t)"

lemma described_altered [simp]:
  "described (isolate t) = described t" "described (store row t) = described t" "described (add_grant role ps t) = described t"
  by (simp_all add: described_def table_shape_def isolate_def store_def add_grant_def split: option.split)

definition described_flow where
  "described_flow = map_prod (map_prod (\<lambda>ks. ks @ [column_shape (nullable ''active_workflow_id'' Sql_Text)]) id) id"

lemma described_add_flow: "described (add_flow t) = described_flow (described t)"
  by (simp add: described_def table_shape_def add_flow_def described_flow_def)

lemma described_dress: "map (map_prod id described) (dress ts) = map (map_prod id described) ts"
  by (simp add: dress_def comp_def case_prod_beta map_prod_def)

lemma described_head: "map (map_prod id described) (cat_tables (at_0003 s)) = map (map_prod id described) declared_head"
proof -
  have base: "map (map_prod id described) (cat_tables (at_0001 s)) = map (map_prod id described) tables_0001"
    by (simp add: tables_at_0001 Let_def tables_0001_def)
  have flow: "map (map_prod id described) (map (\<lambda>(r, t). (r, if r \<in> R then add_flow t else t)) ts) =
      map (\<lambda>(r, d). (r, if r \<in> R then described_flow d else d)) (map (map_prod id described) ts)" for R ts
    by (auto simp: described_add_flow)
  have "map (map_prod id described) (cat_tables (base_0002 s)) =
      map (map_prod id described) (map (\<lambda>(r, t). (r, if r \<in> {(''applications'', ''applications'')} then add_flow t else t)) tables_0001)"
    unfolding base_0002_def alter_def by (simp del: map_map insert_iff add: flow base)
  then show ?thesis
    by (simp add: at_0003_def at_0002_def declared_head_def with_tables_def described_dress open_schemas_def allow_schemas_def)
qed

lemma described_table: "map_option described (table_of (at_0003 s) r) = map_option described (map_of declared_head r)"
proof -
  have "map_option described (map_of ts r) = map_of (map (map_prod id described) ts) r" for ts :: "(relation \<times> sql_table) list"
    by (induction ts) auto
  then show ?thesis by (simp add: table_of_def described_head)
qed

text \<open>The defaults matter at the annotations the program leaves to them only.\<close>

fun default_types :: "py_type \<Rightarrow> sql_type option" where
  "default_types Py_str = Some Sql_Varchar"
| "default_types Py_int = Some Sql_Integer"
| "default_types Py_float = Some Sql_Float"
| "default_types Py_bool = Some Sql_Boolean"
| "default_types Py_date = Some Sql_Date"
| "default_types Py_datetime = Some Sql_Timestamp"
| "default_types _ = None"

definition left_to_defaults :: "mapped_attribute \<Rightarrow> bool" where
  "left_to_defaults a \<longleftrightarrow> ma_type a \<noteq> None \<or> ma_annotation a \<notin> {Py_Decimal, Py_dict}"

lemma documented_default_types: "documented_types default_types"
  by (simp add: documented_types_def)

lemma mapped_shape_default:
  "documented_types D \<Longrightarrow> left_to_defaults a \<Longrightarrow> mapped_shape D a = mapped_shape default_types a"
  by (cases "ma_annotation a") (auto simp: mapped_shape_def resolved_type_def documented_types_def left_to_defaults_def split: option.split)

lemma attributes_resolve: "list_all (\<lambda>m. list_all left_to_defaults (om_attributes m)) orm_mappings"
  by code_simp

lemma mapping_shape_default:
  "documented_types D \<Longrightarrow> m \<in> set orm_mappings \<Longrightarrow> mapping_shape D m = mapping_shape default_types m"
  using attributes_resolve by (auto simp: mapping_shape_def list_all_iff mapped_shape_default)

definition agreement :: "mapping_of_table \<Rightarrow> bool" where
  "agreement m \<longleftrightarrow> map_option (\<lambda>t. fst (described t)) (map_of declared_head (om_relation m)) = Some (mapping_shape default_types m)"

lemma mappings_agree: "list_all agreement orm_mappings"
  by code_simp

definition declared_missing :: "mapping_of_table \<Rightarrow> (relation \<times> string) list" where
  "declared_missing m =
     map (Pair (om_relation m))
       (filter (\<lambda>n. map_option (\<lambda>d. [n] \<in> set (map snd (snd d))) (map_option described (map_of declared_head (om_relation m))) \<noteq> Some True)
         (map ma_name (filter ma_index (om_attributes m))))"

lemma missing_declared: "missing_indexes (at_0003 s) m = declared_missing m"
proof -
  have "map_option (\<lambda>t. [n] \<in> set (map snd (tb_indexes t))) (table_of (at_0003 s) r) =
      map_option (\<lambda>d. [n] \<in> set (map snd (snd d))) (map_option described (table_of (at_0003 s) r))" for n r
    by (simp add: option.map_comp comp_def described_def)
  then show ?thesis by (simp only: missing_indexes_def declared_missing_def described_table)
qed

lemma indexes_missing: "concat (map declared_missing orm_mappings) =
    [((''contradictions'', ''verification''), ''tenant_id''), ((''external_response_snapshots'', ''verification''), ''tenant_id'')]"
  by code_simp

lemma unmapped_declared: "filter (\<lambda>r. r \<notin> set (map om_relation orm_mappings)) (map fst declared_head) =
    [(''tenants'', ''identity''), (''consent_records'', ''applications''), (''fact_candidates'', ''documents''),
     (''document_checksums'', ''documents'')]"
  by code_simp

lemma tenants_declared:
  "map_option (\<lambda>t. fst (fst (described t))) (map_of declared_head (fst identity_tenants_table)) =
     Some (map column_shape (snd identity_tenants_table))"
  by code_simp

text \<open>C15: what the classes say of the database is what the migrations made of it.  With the mapper's documented
  default types, every mapped class names a migrated table and lists exactly its columns, in their order,
  with their storage types, keys, nullability and uniqueness; the table registered without a class agrees
  too, and beside it the tables without a class are the three the module's documentation names.  The one
  thing declared and not there are two of the indexes.\<close>

theorem mapping_matches_migrations:
  "documented_types defaults \<Longrightarrow>
   map (\<lambda>m. map_option table_shape (table_of (md_catalogue head_database) (om_relation m))) orm_mappings =
     map (\<lambda>m. Some (mapping_shape defaults m)) orm_mappings \<and>
   map_option (\<lambda>t. fst (table_shape t)) (table_of (md_catalogue head_database) (fst identity_tenants_table)) =
     Some (map column_shape (snd identity_tenants_table)) \<and>
   filter (\<lambda>r. r \<notin> set (map om_relation orm_mappings)) (map fst (cat_tables (md_catalogue head_database))) =
     [(''tenants'', ''identity''), (''consent_records'', ''applications''), (''fact_candidates'', ''documents''),
      (''document_checksums'', ''documents'')] \<and>
   concat (map (missing_indexes (md_catalogue head_database)) orm_mappings) =
     [((''contradictions'', ''verification''), ''tenant_id''), ((''external_response_snapshots'', ''verification''), ''tenant_id'')]"
proof (intro conjI)
  assume documented: "documented_types defaults"
  have shape: "map_option table_shape (table_of (at_0003 None) r) = map_option (\<lambda>t. fst (described t)) (map_of declared_head r)" for r
    using arg_cong [OF described_table [of None r], of "map_option fst"] by (simp add: option.map_comp comp_def described_def)
  show "map (\<lambda>m. map_option table_shape (table_of (md_catalogue head_database) (om_relation m))) orm_mappings =
      map (\<lambda>m. Some (mapping_shape defaults m)) orm_mappings"
    using mappings_agree mapping_shape_default [OF documented]
    by (simp add: head_database_eq shape list_all_iff agreement_def)
  show "map_option (\<lambda>t. fst (table_shape t)) (table_of (md_catalogue head_database) (fst identity_tenants_table)) =
      Some (map column_shape (snd identity_tenants_table))"
    using arg_cong [OF shape [of "fst identity_tenants_table"], of "map_option fst"] tenants_declared
    by (simp add: head_database_eq option.map_comp comp_def)
  have "map fst (cat_tables (at_0003 None)) = map fst declared_head"
    using arg_cong [OF described_head [of None], of "map fst"] by (simp add: comp_def)
  with unmapped_declared show "filter (\<lambda>r. r \<notin> set (map om_relation orm_mappings)) (map fst (cat_tables (md_catalogue head_database))) =
     [(''tenants'', ''identity''), (''consent_records'', ''applications''), (''fact_candidates'', ''documents''),
      (''document_checksums'', ''documents'')]"
    by (simp add: head_database_eq)
  have "missing_indexes (at_0003 None) = declared_missing" by (rule ext) (rule missing_declared)
  with indexes_missing show "concat (map (missing_indexes (md_catalogue head_database)) orm_mappings) =
     [((''contradictions'', ''verification''), ''tenant_id''), ((''external_response_snapshots'', ''verification''), ''tenant_id'')]"
    by (simp add: head_database_eq)
qed

theorem mapping_matches_migrations_witness:
  "map_option table_shape (table_of (md_catalogue head_database) (''contradictions'', ''verification'')) =
     Some (mapping_shape default_types Contradiction_mapping)"
proof -
  have "Contradiction_mapping \<in> set orm_mappings" "om_relation Contradiction_mapping = (''contradictions'', ''verification'')"
    by (simp_all add: orm_mappings_def Contradiction_mapping_def)
  with mapping_matches_migrations [OF documented_default_types] show ?thesis by auto
qed

end
