(* ===== verification/Overlap.thy ===== *)
theory Overlap
  imports Concurrency Invariants
begin

text \<open>
  What holds of a case however the transactions that move it overlap.  A script is followed through the
  stages of a move: nothing known, an aggregate loaded, its row updated, its snapshot inserted.  The
  invariant says, of every open session, what the committed database and the session's own view hold of
  its case at that stage.
\<close>

subsection \<open>One case of a database\<close>

definition portion :: "string \<Rightarrow> db \<Rightarrow> application_row option \<times> version_row list" where
  "portion k d = (tbl_find ap_id k (db_applications d), snapshots_of k d)"

fun portion_ok :: "application_row option \<times> version_row list \<Rightarrow> bool" where
  "portion_ok (None, vs) \<longleftrightarrow> vs = []"
| "portion_ok (Some r, vs) \<longleftrightarrow> history_ok r vs"

lemma case_inv_portions:
  "case_inv d \<longleftrightarrow> distinct (map ap_id (db_applications d)) \<and> (\<forall>k. portion_ok (portion k d))"
proof (cases "distinct (map ap_id (db_applications d))")
  case True
  have "(\<forall>k. portion_ok (portion k d)) \<longleftrightarrow>
      (\<forall>v \<in> set (db_versions d). vr_application v \<in> application_ids d) \<and>
      (\<forall>r \<in> set (db_applications d). history_ok r (snapshots_of (ap_id r) d))" (is "?l \<longleftrightarrow> ?vs \<and> ?rs")
  proof (intro iffI conjI ballI allI)
    assume l: ?l
    show "vr_application v \<in> application_ids d" if "v \<in> set (db_versions d)" for v
    proof (rule ccontr)
      assume "vr_application v \<notin> application_ids d"
      then have "tbl_find ap_id (vr_application v) (db_applications d) = None"
        by (simp add: tbl_find_None_iff application_ids_def)
      with l have "snapshots_of (vr_application v) d = []"
        by (metis portion_def portion_ok.simps(1))
      with that show False by (auto simp: snapshots_of_def filter_empty_conv)
    qed
    show "history_ok r (snapshots_of (ap_id r) d)" if "r \<in> set (db_applications d)" for r
      using l tbl_find_eq_Some [OF True that] by (metis portion_def portion_ok.simps(2))
  next
    fix k assume r: "?vs \<and> ?rs"
    show "portion_ok (portion k d)"
    proof (cases "tbl_find ap_id k (db_applications d)")
      case None
      then have "snapshots_of k d = []"
        using r by (auto simp: snapshots_of_def filter_empty_conv tbl_find_None_iff application_ids_def)
      with None show ?thesis by (simp add: portion_def)
    next
      case (Some x)
      with tbl_find_SomeD [OF Some] r show ?thesis by (auto simp: portion_def)
    qed
  qed
  with True show ?thesis by (simp add: case_inv_def)
qed (simp add: case_inv_def)

lemma stored_history: "case_inv d \<Longrightarrow> tbl_find ap_id k (db_applications d) = Some r \<Longrightarrow> history_ok r (snapshots_of k d)"
  by (metis case_inv_portions portion_def portion_ok.simps(2))

fun written_portion :: "string \<Rightarrow> string \<Rightarrow> statement \<Rightarrow> application_row option \<times> version_row list
    \<Rightarrow> application_row option \<times> version_row list" where
  "written_portion scope k (Update_Case a) (r, vs) =
     ((if app_id a = k then map_option (\<lambda>r. if ap_tenant r = scope then saved_row a r else r) r else r), vs)"
| "written_portion scope k (Insert_Version v) (r, vs) = (r, if vr_application v = k then vs @ [v] else vs)"
| "written_portion scope k _ p = p"

lemma portion_written: "portion k (written scope st d) = written_portion scope k st (portion k d)"
proof (cases st)
  case (Update_Case a)
  have "ap_id (if ap_tenant r = scope then saved_row a r else r) = ap_id r" for r by (simp add: saved_row_def)
  from tbl_find_update [of ap_id, OF this] Update_Case show ?thesis by (auto simp: portion_def snapshots_of_def)
qed (auto simp: portion_def snapshots_of_def)

lemma portion_view: "portion k (view s d) = fold (written_portion (ss_scope s) k) (ss_log s) (portion k d)"
proof -
  have "portion k (fold (written scope) sts d) = fold (written_portion scope k) sts (portion k d)" for scope sts
    by (induction sts arbitrary: d) (simp_all add: portion_written)
  then show ?thesis by (simp add: view_def)
qed

lemma ids_view [simp]: "map ap_id (db_applications (view s d)) = map ap_id (db_applications d)"
proof -
  have one: "map ap_id (db_applications (written scope st d)) = map ap_id (db_applications d)" for scope st and d :: db
    by (cases st) (simp_all add: tbl_update_def saved_row_def comp_def if_distrib cong: if_cong)
  have "map ap_id (db_applications (fold (written scope) sts d)) = map ap_id (db_applications d)" for scope sts
    by (induction sts arbitrary: d) (simp_all add: one)
  then show ?thesis by (simp add: view_def)
qed

fun case_of :: "statement \<Rightarrow> string option" where
  "case_of (Update_Case a) = Some (app_id a)"
| "case_of (Insert_Version v) = Some (vr_application v)"
| "case_of _ = None"

text \<open>A log that writes no case but \<open>k\<close>.\<close>

definition only_case :: "string option \<Rightarrow> statement list \<Rightarrow> bool" where
  "only_case k sts \<longleftrightarrow> (\<forall>st \<in> set sts. case_of st = None \<or> case_of st = k)"

lemma untouched_portion: "only_case own sts \<Longrightarrow> own \<noteq> Some k \<Longrightarrow> fold (written_portion scope k) sts p = p"
proof (induction sts arbitrary: p)
  case (Cons st sts)
  then have "written_portion scope k st p = p" by (cases p; cases st) (auto simp: only_case_def)
  with Cons show ?case by (simp add: only_case_def)
qed simp

lemma portion_view_untouched: "only_case own (ss_log s) \<Longrightarrow> own \<noteq> Some k \<Longrightarrow> portion k (view s d) = portion k d"
  by (simp add: portion_view untouched_portion)

subsection \<open>The stages of a move\<close>

datatype stage = Open | Known application | Changed application | Saved application

text \<open>What a query of a session at a stage lets it know.\<close>

definition learns :: "string \<Rightarrow> db \<Rightarrow> stage \<Rightarrow> stage \<Rightarrow> bool" where
  "learns scope d st st' \<longleftrightarrow>
     st' = st \<or> st = Open \<and> (\<exists>a. st' = Known a \<and> (case_inv d \<longrightarrow> synced a d \<and> app_tenant a = scope))"

text \<open>\<open>passes scope Q s st\<close>: from stage \<open>st\<close> on the script moves its case version by version, and what it returns
  satisfies \<open>Q\<close> at the stage then reached.\<close>

fun sent :: "statement \<Rightarrow> stage \<Rightarrow> stage \<Rightarrow> bool" where
  "sent (Update_Case b) st st' \<longleftrightarrow> st' = Changed b \<and>
     (case st of Known a \<Rightarrow> next_version a b | Saved a \<Rightarrow> next_version a b | _ \<Rightarrow> False)"
| "sent (Insert_Version v) st st' \<longleftrightarrow> (\<exists>b i. st = Changed b \<and> st' = Saved b \<and> v = version_snapshot_row b i)"
| "sent _ st st' \<longleftrightarrow> st' = st"

primrec passes :: "string \<Rightarrow> ('a \<Rightarrow> stage \<Rightarrow> bool) \<Rightarrow> 'a script \<Rightarrow> stage \<Rightarrow> bool" where
  "passes scope Q (Finish r) = (\<lambda>st. case r of Inl _ \<Rightarrow> True | Inr x \<Rightarrow> Q x st)"
| "passes scope Q (Now check k) = (\<lambda>st. \<forall>t. passes scope Q (k t) st)"
| "passes scope Q (Fresh k) = (\<lambda>st. \<forall>i. passes scope Q (k i) st)"
| "passes scope Q (Fetch k) = (\<lambda>st. \<forall>d. \<exists>st'. learns scope d st st' \<and> passes scope Q (k scope d) st')"
| "passes scope Q (Send stm h k) = (\<lambda>st. \<exists>st'. sent stm st st' \<and> passes scope Q k st')"

definition between :: "stage \<Rightarrow> bool" where
  "between st \<longleftrightarrow> (\<forall>b. st \<noteq> Changed b)"

lemma passes_andthen:
  "passes scope Q' s st \<Longrightarrow> (\<And>x st. Q' x st \<Longrightarrow> passes scope Q (f x) st) \<Longrightarrow> passes scope Q (andthen s f) st"
proof (induction s arbitrary: st)
  case (Finish r)
  then show ?case by (cases r) auto
next
  case (Now check k)
  then have "passes scope Q (andthen (k t) f) st" for t by auto
  then show ?case by simp
next
  case (Fresh k)
  then have "passes scope Q (andthen (k i) f) st" for i by auto
  then show ?case by simp
next
  case (Fetch k)
  have "\<exists>st'. learns scope d st st' \<and> passes scope Q (andthen (k scope d) f) st'" for d
  proof -
    from Fetch.prems(1) obtain st' where "learns scope d st st'" "passes scope Q' (k scope d) st'" by auto
    with Fetch.IH [of "k scope" "k scope d" st'] Fetch.prems(2) show ?thesis by auto
  qed
  then show ?case by simp
next
  case (Send stm h k)
  then show ?case by auto
qed

subsection \<open>What an open session relies on\<close>

definition known :: "application \<Rightarrow> db \<Rightarrow> bool" where
  "known a d \<longleftrightarrow> 1 \<le> app_version a \<and>
     (\<exists>r. tbl_find ap_id (app_id a) (db_applications d) = Some r \<and> (agrees a r \<or> app_version a < ap_version r))"

definition newer :: "application \<Rightarrow> db \<Rightarrow> bool" where
  "newer b d \<longleftrightarrow> (\<exists>r. tbl_find ap_id (app_id b) (db_applications d) = Some r \<and> ap_version r < app_version b)"

text \<open>The row is updated, the snapshot is not inserted: either inserting it completes the history, or this
  version has been taken meanwhile and inserting it will be refused.\<close>

definition halfway :: "application \<Rightarrow> db \<Rightarrow> application_row option \<times> version_row list \<Rightarrow> bool" where
  "halfway b d p \<longleftrightarrow> (\<exists>r vs. p = (Some r, vs) \<and>
     ((\<forall>i. history_ok r (vs @ [version_snapshot_row b i])) \<and> agrees b r \<and> newer b d \<or>
      app_version b \<in> vr_version ` set vs))"

definition moved :: "application \<Rightarrow> db \<Rightarrow> application_row option \<times> version_row list \<Rightarrow> bool" where
  "moved b d p \<longleftrightarrow> (\<exists>r vs. p = (Some r, vs) \<and> history_ok r vs \<and> agrees b r \<and> newer b d)"

fun relies :: "db \<Rightarrow> 'a session \<Rightarrow> stage \<Rightarrow> bool" where
  "relies d s Open \<longleftrightarrow> only_case None (ss_log s)"
| "relies d s (Known a) \<longleftrightarrow> only_case None (ss_log s) \<and> known a d \<and> app_tenant a = ss_scope s"
| "relies d s (Changed b) \<longleftrightarrow> only_case (Some (app_id b)) (ss_log s) \<and> Case_Lock (app_id b) \<in> set (held s) \<and>
     app_tenant b = ss_scope s \<and> halfway b d (portion (app_id b) (view s d))"
| "relies d s (Saved b) \<longleftrightarrow> only_case (Some (app_id b)) (ss_log s) \<and> Case_Lock (app_id b) \<in> set (held s) \<and>
     app_tenant b = ss_scope s \<and> moved b d (portion (app_id b) (view s d))"

text \<open>A commit of another session: it leaves this case alone, or only moves it on.\<close>

definition moves_on :: "db \<Rightarrow> db \<Rightarrow> bool" where
  "moves_on d d' \<longleftrightarrow> (\<forall>k r. tbl_find ap_id k (db_applications d) = Some r \<longrightarrow>
     (\<exists>r'. tbl_find ap_id k (db_applications d') = Some r' \<and> (r' = r \<or> ap_version r < ap_version r')))"

lemma known_moves_on:
  assumes "known a d" "moves_on d d'"
  shows "known a d'"
proof -
  from assms(1) obtain r where r: "1 \<le> app_version a" "tbl_find ap_id (app_id a) (db_applications d) = Some r"
    "agrees a r \<or> app_version a < ap_version r" by (auto simp: known_def)
  with assms(2) obtain r' where "tbl_find ap_id (app_id a) (db_applications d') = Some r'" "r' = r \<or> ap_version r < ap_version r'"
    by (auto simp: moves_on_def)
  with r show ?thesis by (auto simp: known_def agrees_def)
qed

lemma relies_committed:
  assumes "relies d s st" "moves_on d d'"
    "\<And>k. Case_Lock k \<in> set (held s) \<Longrightarrow> portion k d' = portion k d"
  shows "relies d' s st"
proof -
  have same: "portion k (view s d') = portion k (view s d)" "newer b d' = newer b d"
    if "Case_Lock k \<in> set (held s)" "app_id b = k" for k b
  proof -
    show "portion k (view s d') = portion k (view s d)" by (simp only: portion_view assms(3) [OF that(1)])
    show "newer b d' = newer b d" using assms(3) [OF that(1)] that(2) by (simp add: newer_def portion_def)
  qed
  show ?thesis
  proof (cases st)
    case (Known a)
    with assms(1) known_moves_on [OF _ assms(2)] show ?thesis by simp
  next
    case (Changed b)
    with assms(1) same [of "app_id b" b] show ?thesis by (auto simp: halfway_def)
  next
    case (Saved b)
    with assms(1) same [of "app_id b" b] show ?thesis by (auto simp: moved_def)
  qed (use assms(1) in simp)
qed

subsection \<open>Committing\<close>

lemma only_case_commit:
  assumes "relies d s st" "between st" "Case_Lock k \<notin> set (held s)"
  shows "portion k (view s d) = portion k d"
  using assms by (cases st) (auto simp: between_def intro!: portion_view_untouched)

lemma commit_moved:
  assumes "relies d s st" "between st" "portion k (view s d) \<noteq> portion k d"
  obtains b where "st = Saved b" "k = app_id b" "moved b d (portion k (view s d))"
proof -
  have own: "only_case own (ss_log s) \<Longrightarrow> own = Some k" for own
    using portion_view_untouched [of own s k d] assms(3) by blast
  have "\<not> only_case None (ss_log s)" using own by blast
  with assms(1,2) obtain b where b: "st = Saved b" "only_case (Some (app_id b)) (ss_log s)" "moved b d (portion (app_id b) (view s d))"
    by (cases st) (simp_all add: between_def)
  moreover from own [OF b(2)] have "k = app_id b" by simp
  ultimately show thesis using that by blast
qed

lemma commit_case_inv:
  assumes "case_inv d" "relies d s st" "between st"
  shows "case_inv (view s d)"
proof -
  have "portion_ok (portion k (view s d))" for k
  proof (cases "portion k (view s d) = portion k d")
    case True
    with assms(1) show ?thesis by (simp add: case_inv_portions)
  next
    case False
    from commit_moved [OF assms(2,3) False] obtain b where "moved b d (portion k (view s d))" .
    then show ?thesis by (auto simp: moved_def)
  qed
  with assms(1) show ?thesis by (simp add: case_inv_portions)
qed

lemma commit_moves_on:
  assumes "relies d s st" "between st"
  shows "moves_on d (view s d)"
  unfolding moves_on_def
proof (intro allI impI)
  fix k r assume r: "tbl_find ap_id k (db_applications d) = Some r"
  show "\<exists>r'. tbl_find ap_id k (db_applications (view s d)) = Some r' \<and> (r' = r \<or> ap_version r < ap_version r')"
  proof (cases "portion k (view s d) = portion k d")
    case True
    with r show ?thesis by (simp add: portion_def)
  next
    case False
    from commit_moved [OF assms False] obtain b where "k = app_id b" "moved b d (portion k (view s d))" .
    with r show ?thesis by (auto simp: moved_def newer_def agrees_def portion_def)
  qed
qed

subsection \<open>Querying and sending\<close>

lemma relies_learns:
  assumes "relies d s st" "case_inv d" "learns (ss_scope s) (view s d) st st'"
  shows "relies d s st'"
proof (cases "st' = st")
  case False
  with assms(3) obtain a where st: "st = Open" "st' = Known a"
    and a: "case_inv (view s d) \<Longrightarrow> synced a (view s d) \<and> app_tenant a = ss_scope s"
    by (auto simp: learns_def)
  with assms(1) have own: "only_case None (ss_log s)" by simp
  from commit_case_inv [OF assms(2), of s Open] own a have a: "synced a (view s d)" "app_tenant a = ss_scope s"
    by (simp_all add: between_def)
  have same: "portion (app_id a) (view s d) = portion (app_id a) d" by (rule portion_view_untouched [OF own]) simp
  from a(1) obtain r where r: "tbl_find ap_id (app_id a) (db_applications (view s d)) = Some r" "agrees a r"
    by (auto simp: synced_def)
  with same have found: "tbl_find ap_id (app_id a) (db_applications d) = Some r" by (simp add: portion_def)
  from stored_history [OF assms(2) this] have "history_ok r (snapshots_of (app_id a) d)" .
  then have "1 \<le> ap_version r" by (cases "1 \<le> ap_version r") (auto simp: history_ok_def)
  with r(2) found st own a(2) show ?thesis by (auto simp: known_def agrees_def)
qed (use assms in simp)

lemma next_row:
  assumes "history_ok r vs" "agrees a r" "next_version a b"
  shows "history_ok (saved_row b r) (vs @ [version_snapshot_row b i])" "agrees b (saved_row b r)"
proof -
  have snap: "snapshot_of (version_snapshot_row b i) (saved_row b r)"
    using assms(2,3) by (simp add: snapshot_of_def version_snapshot_row_def saved_row_def agrees_def next_version_def)
  show "history_ok (saved_row b r) (vs @ [version_snapshot_row b i])"
    by (rule history_ok_snoc [OF assms(1) snap]) (use assms(2,3) in \<open>auto simp: saved_row_def agrees_def next_version_def\<close>)
  show "agrees b (saved_row b r)" using assms(2,3) by (simp add: agrees_def saved_row_def next_version_def)
qed

definition with_statement :: "statement \<Rightarrow> 'a session \<Rightarrow> 'a session" where
  "with_statement stm s = s\<lparr>ss_log := ss_log s @ [stm]\<rparr>"

lemma with_statement_simps [simp]:
  "ss_scope (with_statement stm s) = ss_scope s" "ss_log (with_statement stm s) = ss_log s @ [stm]"
  "held (with_statement stm s) = held s @ locks stm" "view (with_statement stm s) d = written (ss_scope s) stm (view s d)"
  by (simp_all add: with_statement_def held_def view_def)

lemma relies_update:
  assumes "relies d s st" "case_inv d" "sent (Update_Case b) st st'"
  shows "relies d (with_statement (Update_Case b) s) st'"
proof -
  let ?k = "app_id b"
  let ?new = "\<lambda>r. if ap_tenant r = ss_scope s then saved_row b r else r"
  from assms(3) obtain a where a: "st = Known a \<or> st = Saved a" "next_version a b" and st': "st' = Changed b"
    by (cases st) auto
  then have k: "app_id a = ?k" "app_tenant b = app_tenant a" "app_version b = app_version a + 1" by (simp_all add: next_version_def)
  have "only_case (Some ?k) (ss_log s)" "app_tenant b = ss_scope s"
    using a(1) assms(1) k by (auto simp: only_case_def)
  moreover have "halfway b d (written_portion (ss_scope s) ?k (Update_Case b) (portion ?k (view s d)))"
  proof (cases "\<exists>r vs. portion ?k (view s d) = (Some r, vs) \<and> history_ok r vs \<and> agrees a r \<and> newer b d")
    case True
    then obtain r vs where r: "portion ?k (view s d) = (Some r, vs)" "history_ok r vs" "agrees a r" "newer b d" by blast
    have "ap_tenant r = ss_scope s" using r(3) a(1) assms(1) by (auto simp: agrees_def)
    with r next_row [OF r(2,3) a(2)] show ?thesis by (auto simp: halfway_def)
  next
    case False
    have same: "portion ?k (view s d) = portion ?k d" if "st = Known a"
      using assms(1) that by (intro portion_view_untouched [of None]) simp_all
    have "st = Known a"
    proof (rule ccontr)
      assume "st \<noteq> Known a"
      with a(1) assms(1) k have "moved a d (portion ?k (view s d))" by auto
      with False k show False by (fastforce simp: moved_def newer_def)
    qed
    with assms(1) same obtain r where r: "tbl_find ap_id ?k (db_applications d) = Some r" "1 \<le> app_version a"
      "agrees a r \<or> app_version a < ap_version r" "portion ?k (view s d) = (Some r, snapshots_of ?k d)"
      using k by (auto simp: known_def portion_def)
    have ok: "history_ok r (snapshots_of ?k d)"
      by (rule stored_history [OF assms(2) r(1)])
    have "newer b d" if "agrees a r" using that r(1) k by (auto simp: newer_def agrees_def)
    with False r ok have "app_version a < ap_version r" by auto
    with r(2) k have "app_version b \<in> set [1..ap_version r]" by simp
    with ok have "app_version b \<in> vr_version ` set (snapshots_of ?k d)" unfolding history_ok_def by (metis list.set_map)
    with r(4) show ?thesis by (auto simp: halfway_def)
  qed
  ultimately show ?thesis by (simp add: st' only_case_def portion_written del: written.simps written_portion.simps)
qed

lemma relies_insert:
  assumes "relies d s st" "sent (Insert_Version v) st st'" "insert_version v (ss_scope s) (view s d) = Inr d'"
  shows "relies d (with_statement (Insert_Version v) s) st'"
proof -
  from assms(2) obtain b i where b: "st = Changed b" "st' = Saved b" "v = version_snapshot_row b i" by auto
  let ?k = "app_id b"
  have v: "vr_application v = ?k" "vr_version v = app_version b" by (simp_all add: b(3) version_snapshot_row_def)
  from assms(1) b(1) have s: "only_case (Some ?k) (ss_log s)" "Case_Lock ?k \<in> set (held s)" "app_tenant b = ss_scope s"
    and half: "halfway b d (portion ?k (view s d))" by auto
  from assms(3) have "(vr_application v, vr_version v) \<notin> (\<lambda>v. (vr_application v, vr_version v)) ` set (db_versions (view s d))"
    by (auto simp: insert_version_def bind_result_Inr_iff guard_row_Inr_iff)
  with v have free: "app_version b \<notin> vr_version ` set (snapshots_of ?k (view s d))"
    by (auto simp: snapshots_of_def image_iff)
  with half have "moved b d (written_portion (ss_scope s) ?k (Insert_Version v) (portion ?k (view s d)))"
    by (auto simp: halfway_def moved_def portion_def v(1) b(3)) (simp add: version_snapshot_row_def)
  with s v show ?thesis by (simp add: b(2) only_case_def portion_written del: written.simps written_portion.simps)
qed

lemma relies_neutral:
  assumes "relies d s st" "case_of stm = None"
  shows "relies d (with_statement stm s) st"
proof -
  have "portion k (written (ss_scope s) stm (view s d)) = portion k (view s d)" for k
    unfolding portion_written using assms(2) by (cases stm) simp_all
  with assms show ?thesis by (cases st) (auto simp: only_case_def)
qed

lemma relies_sent:
  assumes "relies d s st" "case_inv d" "sent stm st st'" "perform stm (ss_scope s) (view s d) = Inr d'"
  shows "relies d (with_statement stm s) st'"
proof (cases "case_of stm")
  case None
  then have "st' = st" using assms(3) by (cases stm) auto
  with relies_neutral [OF assms(1) None] show ?thesis by simp
next
  case (Some k)
  then consider b where "stm = Update_Case b" | v where "stm = Insert_Version v" by (cases stm) auto
  then show ?thesis
  proof cases
    case 1
    with relies_update assms show ?thesis by blast
  next
    case 2
    with relies_insert assms show ?thesis by (metis perform.simps(3))
  qed
qed

subsection \<open>The whole cluster\<close>

definition session_ok :: "db \<Rightarrow> 'a session \<Rightarrow> bool" where
  "session_ok d s \<longleftrightarrow> (if ss_ended s then ss_log s = []
     else \<exists>st. relies d s st \<and> passes (ss_scope s) (\<lambda>_. between) (ss_script s) st)"

definition exclusive :: "'a session list \<Rightarrow> bool" where
  "exclusive ss \<longleftrightarrow> (\<forall>i j. i < length ss \<longrightarrow> j < length ss \<longrightarrow> i \<noteq> j \<longrightarrow> set (held (ss ! i)) \<inter> set (held (ss ! j)) = {})"

definition consistent :: "db \<Rightarrow> 'a session list \<Rightarrow> bool" where
  "consistent d ss \<longleftrightarrow> case_inv d \<and> (\<forall>s \<in> set ss. session_ok d s) \<and> exclusive ss"

lemma not_waits: "\<not> waits i ls ss \<Longrightarrow> j < length ss \<Longrightarrow> j \<noteq> i \<Longrightarrow> set ls \<inter> set (held (ss ! j)) = {}"
  by (auto simp: waits_def list_ex_iff in_set_enumerate_eq)

lemma consistent_replace:
  assumes "consistent d ss" "i < length ss" "session_ok d s'" "set (held s') \<subseteq> set (held (ss ! i)) \<union> set ls" "\<not> waits i ls ss"
  shows "consistent d (ss[i := s'])"
proof -
  have free: "set (held s') \<inter> set (held (ss ! j)) = {}" if "j < length ss" "j \<noteq> i" for j
    using assms(1,2,4) not_waits [OF assms(5) that] that by (fastforce simp: consistent_def exclusive_def)
  have "exclusive (ss[i := s'])"
    unfolding exclusive_def
  proof (intro allI impI)
    fix j l assume jl: "j < length (ss[i := s'])" "l < length (ss[i := s'])" "j \<noteq> l"
    consider "j = i" | "l = i" | "j \<noteq> i" "l \<noteq> i" by blast
    then show "set (held (ss[i := s'] ! j)) \<inter> set (held (ss[i := s'] ! l)) = {}"
    proof cases
      case 1
      with jl free [of l] show ?thesis by simp
    next
      case 2
      with jl free [of j] show ?thesis by (simp add: Int_commute)
    next
      case 3
      with jl assms(1) show ?thesis by (simp add: consistent_def exclusive_def)
    qed
  qed
  with assms(1,3) show ?thesis by (auto simp: consistent_def dest: set_update_subset_insert [THEN subsetD])
qed

lemma no_waits [simp]: "\<not> waits i [] ss"
  by (simp add: waits_def list_ex_iff)

lemma consistent_local:
  assumes "consistent d ss" "i < length ss" "session_ok d s'" "set (held s') \<subseteq> set (held (ss ! i))"
  shows "consistent d (ss[i := s'])"
  using consistent_replace [OF assms(1-3), of "[]"] assms(4) by simp

lemma session_ok_ended [simp]: "session_ok d (ended r s)"
  by (simp add: session_ok_def ended_def)

lemma held_ended [simp]: "held (ended r s) = []"
  by (simp add: ended_def held_def)

lemma consistent_commit:
  assumes "consistent d ss" "i < length ss" "relies d (ss ! i) st" "between st"
  shows "consistent (view (ss ! i) d) (ss[i := ended r (ss ! i)])"
proof -
  let ?d = "view (ss ! i) d"
  have others: "session_ok ?d (ss ! j)" if "j < length ss" "j \<noteq> i" for j
  proof -
    have "portion k ?d = portion k d" if "Case_Lock k \<in> set (held (ss ! j))" for k
    proof (rule only_case_commit [OF assms(3,4)])
      show "Case_Lock k \<notin> set (held (ss ! i))"
        using assms(1,2) that \<open>j < length ss\<close> \<open>j \<noteq> i\<close> unfolding consistent_def exclusive_def by blast
    qed
    note rely = relies_committed [OF _ commit_moves_on [OF assms(3,4)] this]
    have "session_ok d (ss ! j)" using assms(1) that by (simp add: consistent_def)
    with rely show ?thesis by (auto simp: session_ok_def split: if_splits)
  qed
  have "session_ok ?d s" if "s \<in> set (ss[i := ended r (ss ! i)])" for s
  proof -
    from that obtain j where "j < length ss" "s = ss[i := ended r (ss ! i)] ! j" by (auto simp: in_set_conv_nth)
    with others show ?thesis by (cases "j = i") simp_all
  qed
  moreover have "exclusive (ss[i := ended r (ss ! i)])"
    using consistent_local [OF assms(1,2), of "ended r (ss ! i)"] by (simp add: consistent_def)
  ultimately show ?thesis using commit_case_inv [OF _ assms(3,4)] assms(1) by (simp add: consistent_def)
qed

lemma consistent_proceed:
  assumes "consistent (cl_db c) (cl_sessions c)" "i < length (cl_sessions c)" "\<not> ss_ended (cl_sessions c ! i)"
    "c' = proceed env i c (cl_sessions c ! i) (ss_script (cl_sessions c ! i))"
  shows "consistent (cl_db c') (cl_sessions c')"
proof -
  let ?d = "cl_db c" and ?ss = "cl_sessions c" and ?s = "cl_sessions c ! i"
  have "session_ok ?d ?s" using assms(1,2) by (simp add: consistent_def)
  with assms(3) obtain st where st: "relies ?d ?s st" "passes (ss_scope ?s) (\<lambda>_. between) (ss_script ?s) st"
    by (auto simp: session_ok_def)
  have rely: "relies ?d (?s\<lparr>ss_script := p\<rparr>) st' = relies ?d ?s st'" for p st'
    by (cases st') (simp_all add: held_def view_def)
  have go: "consistent ?d (?ss[i := ?s\<lparr>ss_script := p\<rparr>])" if "passes (ss_scope ?s) (\<lambda>_. between) p st'" "relies ?d ?s st'" for p st'
    by (rule consistent_local [OF assms(1,2)]) (use that assms(3) rely in \<open>auto simp: session_ok_def held_def\<close>)
  show ?thesis
  proof (cases "ss_script ?s")
    case (Finish r)
    show ?thesis
    proof (cases r)
      case (Inl e)
      with Finish consistent_local [OF assms(1,2), of "ended (Inl e) ?s"] show ?thesis by (simp add: assms(4))
    next
      case (Inr x)
      with Finish st consistent_commit [OF assms(1,2) st(1)] show ?thesis by (simp add: assms(4))
    qed
  next
    case (Now check k)
    with st go [of "Finish (Inl _)" st] go [of "k _" st] show ?thesis by (simp add: assms(4) Let_def split: option.split)
  next
    case (Fresh k)
    with st go [of "k _" st] show ?thesis by (simp add: assms(4))
  next
    case (Fetch k)
    with st(2) obtain st' where st': "learns (ss_scope ?s) (view ?s ?d) st st'"
      "passes (ss_scope ?s) (\<lambda>_. between) (k (ss_scope ?s) (view ?s ?d)) st'" by auto
    from relies_learns [OF st(1) _ st'(1)] assms(1) go [OF st'(2)] Fetch show ?thesis by (simp add: assms(4) consistent_def)
  next
    case (Send stm h k)
    from st(2) Send obtain st' where st': "sent stm st st'" "passes (ss_scope ?s) (\<lambda>_. between) k st'" by auto
    show ?thesis
    proof (cases "waits i (locks stm) ?ss")
      case True
      with Send assms(1) show ?thesis by (simp add: assms(4))
    next
      case free: False
      show ?thesis
      proof (cases "perform stm (ss_scope ?s) (view ?s ?d)")
        case (Inl e)
        with Send free st go [of "Finish (Inl (h e))" st] show ?thesis by (simp add: assms(4))
      next
        case (Inr d')
        let ?new = "?s\<lparr>ss_script := k, ss_log := ss_log ?s @ [stm]\<rparr>"
        have new: "?new = (with_statement stm ?s)\<lparr>ss_script := k\<rparr>" by (simp add: with_statement_def)
        have "relies ?d (with_statement stm ?s) st'"
          using relies_sent [OF st(1) _ st'(1) Inr] assms(1) by (simp add: consistent_def)
        then have "relies ?d ?new st'" unfolding new by (cases st') (simp_all add: held_def view_def)
        with st'(2) assms(3) have "session_ok ?d ?new" by (auto simp: session_ok_def)
        moreover have "set (held ?new) \<subseteq> set (held ?s) \<union> set (locks stm)" by (auto simp: held_def)
        ultimately have "consistent ?d (?ss[i := ?new])" using consistent_replace [OF assms(1,2) _ _ free] by blast
        with Send free Inr show ?thesis by (simp add: assms(4))
      qed
    qed
  qed
qed

lemma consistent_happen:
  "consistent (cl_db c) (cl_sessions c) \<Longrightarrow> consistent (cl_db (happen env c e)) (cl_sessions (happen env c e))"
  by (cases e) (auto intro: consistent_proceed consistent_local)

lemma consistent_schedule:
  "consistent (cl_db c) (cl_sessions c) \<Longrightarrow> consistent (cl_db (schedule env es c)) (cl_sessions (schedule env es c))"
  unfolding schedule_def by (induction es arbitrary: c) (simp_all add: consistent_happen)

lemma consistent_opened:
  assumes "case_inv d" "\<And>t s. (t, s) \<in> set ss \<Longrightarrow> passes t (\<lambda>_. between) s Open"
  shows "consistent d (map opened ss)"
proof -
  have "session_ok d (opened (t, s))" if "(t, s) \<in> set ss" for t s
    using assms(2) [OF that] by (auto simp: session_ok_def opened_def only_case_def intro!: exI [of _ Open])
  moreover have "held (opened p) = []" for p :: "string \<times> 'a script" by (cases p) (simp add: opened_def held_def)
  ultimately show ?thesis using assms(1) by (auto simp: consistent_def exclusive_def)
qed

subsection \<open>The commands\<close>

named_theorems passes_intros \<open>how scripts go through the stages\<close>

lemmas passes_then = passes_andthen

lemma passes_finish [passes_intros]: "(\<And>x. r = Inr x \<Longrightarrow> Q x st) \<Longrightarrow> passes scope Q (Finish r) st"
  by (auto split: sum.split)

lemma passes_at_time [passes_intros]: "(\<And>t x. f t = Inr x \<Longrightarrow> Q x st) \<Longrightarrow> passes scope Q (at_time f) st"
  by (auto simp: at_time_def split: sum.split)

lemma passes_now [passes_intros]: "(\<And>t. passes scope Q (k t) st) \<Longrightarrow> passes scope Q (Now check k) st"
  by simp

lemma passes_fresh [passes_intros]: "(\<And>i. passes scope Q (k i) st) \<Longrightarrow> passes scope Q (Fresh k) st"
  by simp

lemma passes_fetch [passes_intros]: "(\<And>d. passes scope Q (k scope d) st) \<Longrightarrow> passes scope Q (Fetch k) st"
  by (auto simp: learns_def)

lemma passes_reads [passes_intros]: "(\<And>d x. f scope d = Inr x \<Longrightarrow> Q x st) \<Longrightarrow> passes scope Q (reads f) st"
  unfolding reads_def by (intro passes_intros) auto

lemma passes_neutral [passes_intros]:
  "case_of stm = None \<Longrightarrow> passes scope Q k st \<Longrightarrow> passes scope Q (Send stm h k) st"
  by (cases stm) auto

lemma passes_sends [passes_intros]:
  "(\<And>stm. stm \<in> set sts \<Longrightarrow> case_of stm = None) \<Longrightarrow> Q () st \<Longrightarrow> passes scope Q (sends sts) st"
  by (induction sts) (auto intro: passes_neutral simp del: passes.simps(5) intro: passes_finish)

lemma passes_reserve [passes_intros]: "Q () st \<Longrightarrow> passes scope Q (reserve_script t k op) st"
  unfolding reserve_script_def by (intro passes_intros) auto

lemma passes_load:
  assumes "\<And>a. Q a (Known a)"
  shows "passes t Q (load_script t k) Open"
proof -
  let ?r = "\<lambda>d. case stored_case k t d of None \<Rightarrow> Inl (ApplicationNotFoundError k)
     | Some r \<Rightarrow> if ap_tenant r \<noteq> t then Inl (ApplicationNotFoundError k) else row_to_application r"
  have "\<exists>st'. learns t d Open st' \<and> passes t Q (Finish (?r d)) st'" for d
  proof (cases "?r d")
    case (Inl e)
    then have "passes t Q (Finish (?r d)) Open" by simp
    then show ?thesis by (auto simp: learns_def simp del: passes.simps)
  next
    case (Inr a)
    then obtain r where r: "stored_case k t d = Some r" "ap_tenant r = t" "row_to_application r = Inr a"
      by (auto split: option.splits if_splits)
    have "synced a d \<and> app_tenant a = t" if "case_inv d"
    proof -
      from that r(1) have "tbl_find ap_id k (db_applications d) = Some r"
        by (auto simp: stored_case_def case_inv_def intro: find_visible_row(1))
      with row_to_application_agrees [OF r(3)] r(2) tbl_find_SomeD [OF this] show ?thesis by (auto simp: synced_def agrees_def)
    qed
    then have "learns t d Open (Known a)" by (simp add: learns_def)
    moreover have "passes t Q (Finish (?r d)) (Known a)" using assms by (simp only: Inr passes.simps sum.case)
    ultimately show ?thesis by blast
  qed
  then show ?thesis by (simp add: load_script_def reads_def)
qed

definition stands_at :: "application \<Rightarrow> stage \<Rightarrow> bool" where
  "stands_at a st \<longleftrightarrow> st = Known a \<or> st = Saved a"

lemma passes_save:
  assumes "stands_at a st" "next_version a b" "Q () (Saved b)"
  shows "passes scope Q (save_script b) st"
proof -
  have "passes scope Q (sends [Update_Case b, Insert_Version (version_snapshot_row b i)]) st" for i
    using assms by (auto simp: stands_at_def)
  then show ?thesis
    unfolding save_script_def Let_def
    by (intro passes_fetch) (auto split: option.split simp: learns_def)
qed

lemma passes_move:
  assumes "stands_at a st" "\<And>b. next_version a b \<Longrightarrow> Q b (Saved b)"
  shows "passes scope Q (move_script new reason a) st"
  unfolding move_script_def
proof (rule passes_then)
  show "passes scope (\<lambda>b st'. st' = st \<and> next_version a b) (at_time (\<lambda>now. transition_to new reason now a)) st"
    by (intro passes_intros conjI refl) (rule transition_next)
  show "passes scope Q (andthen (save_script b) (\<lambda>_. Finish (Inr b))) st'" if "st' = st \<and> next_version a b" for b st'
    by (rule passes_then [where Q' = "\<lambda>_ st'. st' = Saved b"]) (use that assms in \<open>auto intro: passes_save\<close>)
qed

lemma passes_review:
  assumes "stands_at a st" "\<And>b. next_version a b \<Longrightarrow> Q b (Saved b)"
  shows "passes scope Q (review_script reason a) st"
  unfolding review_script_def
proof (rule passes_then)
  show "passes scope (\<lambda>b st'. st' = Saved b \<and> next_version a b) (move_script AWAITING_HUMAN_REVIEW reason a) st"
    by (rule passes_move [OF assms(1)]) simp
qed (use assms(2) in \<open>auto intro!: passes_intros\<close>)

lemma passes_stages [passes_intros]: "(\<And>p. Q p st) \<Longrightarrow> passes scope Q (stages_script env es p) st"
proof (induction es arbitrary: p)
  case (Cons e es)
  have "passes scope (\<lambda>_ st'. st' = st) (stage_script env e p) st"
    unfolding stage_script_def by (intro passes_intros) (auto split: option.split intro!: passes_intros)
  then show ?case
    unfolding stages_script.simps by (rule passes_then) (use Cons in auto)
qed (auto intro: passes_finish)

lemma passes_publish: "(\<And>x. Q x st) \<Longrightarrow> passes scope Q (publish_script env a) st"
  unfolding publish_script_def pull_events_def prod.case
  by (rule passes_then [where Q' = "\<lambda>_ st'. st' = st"], intro passes_intros refl,
      rule passes_then [where Q' = "\<lambda>_ st'. st' = st"])
    (auto intro!: passes_intros simp: plan_statements_def)

lemma passes_then_publish:
  assumes "stands_at a st" "next_version a b"
  shows "passes scope (\<lambda>_. between) (andthen (save_script b) (\<lambda>_. publish_script env b)) st"
  by (rule passes_then [where Q' = "\<lambda>_ st'. st' = Saved b"], rule passes_save [OF assms])
    (auto simp: between_def intro!: passes_publish)

lemma passes_load_then:
  assumes "\<And>a. passes t Q (f a) (Known a)"
  shows "passes t Q (andthen (reserve_script t key op) (\<lambda>_. andthen (load_script t k) f)) Open"
  by (rule passes_then [where Q' = "\<lambda>_ st. st = Open"], rule passes_reserve, rule refl,
      rule passes_then [where Q' = "\<lambda>a st. st = Known a"]) (use assms in \<open>auto intro: passes_load\<close>)

lemma passes_attach:
  assumes "\<And>now a b. move now a = Inr b \<Longrightarrow> next_version a b"
  shows "passes (c_tenant c) (\<lambda>_. between) (attach_script env op move c) Open"
  unfolding attach_script_def
proof (rule passes_load_then, rule passes_then)
  fix a
  show "passes (c_tenant c) (\<lambda>b st. st = Known a \<and> next_version a b) (at_time (\<lambda>now. move now a)) (Known a)"
    by (intro passes_intros conjI refl) (rule assms)
qed (auto simp: Let_def stands_at_def intro!: passes_then_publish next_version_bookkeeping)

lemma passes_publish_finish:
  "between st \<Longrightarrow> passes scope (\<lambda>_. between) (andthen (publish_script env a) (\<lambda>b. Finish (Inr (f b)))) st"
  by (rule passes_then [where Q' = "\<lambda>_ st'. st' = st"]) (auto intro: passes_publish)

lemma passes_intake: "passes (c_tenant c) (\<lambda>_. between) (intake_script env c) Open"
  unfolding intake_script_def
proof (rule passes_load_then, rule passes_then)
  fix a
  show "passes (c_tenant c) (\<lambda>_ st. st = Known a) (product_script (app_product a)) (Known a)"
    unfolding product_script_def by (intro passes_intros refl)
next
  fix a product st assume "st = Known a"
  show "passes (c_tenant c) (\<lambda>_. between)
      (andthen (move_script INTAKE_VALIDATION ''entering automated intake validation'' a) (\<lambda>b.
       andthen (Finish (accepts product (app_amount b) (app_term b))) (\<lambda>accepted.
       andthen (if accepted
              then move_script DOCUMENT_PROCESSING ''intake validation passed: within product catalog bounds'' b
              else review_script (intake_flag_reason b) b) (\<lambda>b'.
       andthen (publish_script env b') (\<lambda>b''.
         Finish (Inr (case_result.extend (result_of b'') \<lparr>res_accepted = accepted\<rparr>))))))) st"
  proof (rule passes_then [OF passes_move [where Q = "\<lambda>b st. st = Saved b"]])
    show "stands_at a st" using \<open>st = Known a\<close> by (simp add: stands_at_def)
    fix b st assume "st = Saved b"
    then have at: "stands_at b st" by (simp add: stands_at_def)
    let ?Q = "\<lambda>b st. st = Saved b"
    have moves: "passes (c_tenant c) ?Q (if accepted
          then move_script DOCUMENT_PROCESSING ''intake validation passed: within product catalog bounds'' b
          else review_script (intake_flag_reason b) b) st" for accepted
      using passes_move [OF at] passes_review [OF at] by simp
    have "passes (c_tenant c) (\<lambda>_. between)
         (andthen (if accepted
              then move_script DOCUMENT_PROCESSING ''intake validation passed: within product catalog bounds'' b
              else review_script (intake_flag_reason b) b) (\<lambda>b'.
         andthen (publish_script env b') (\<lambda>b''.
           Finish (Inr (case_result.extend (result_of b'') \<lparr>res_accepted = accepted\<rparr>))))) st" for accepted
      by (rule passes_then [OF moves]) (auto intro!: passes_publish_finish simp: between_def)
    then show "passes (c_tenant c) (\<lambda>_. between)
        (andthen (Finish (accepts product (app_amount b) (app_term b))) (\<lambda>accepted.
         andthen (if accepted
              then move_script DOCUMENT_PROCESSING ''intake validation passed: within product catalog bounds'' b
              else review_script (intake_flag_reason b) b) (\<lambda>b'.
         andthen (publish_script env b') (\<lambda>b''.
           Finish (Inr (case_result.extend (result_of b'') \<lparr>res_accepted = accepted\<rparr>)))))) st"
      by (intro passes_then [where Q' = "\<lambda>_ st'. st' = st", OF passes_finish] refl)
        (simp only:)
  qed simp
qed

lemma passes_documents: "passes (c_tenant c) (\<lambda>_. between) (documents_script env c) Open"
  unfolding documents_script_def
proof (rule passes_load_then, rule passes_then)
  fix a
  show "passes (c_tenant c) (\<lambda>_ st. st = Known a)
      (reads (\<lambda>scope d. Inr (length (application_documents (c_tenant c) (c_application c) scope d)))) (Known a)"
    by (intro passes_intros refl)
next
  fix a n st assume "st = Known a"
  then have at: "stands_at a st" by (simp add: stands_at_def)
  have "passes (c_tenant c) (\<lambda>b st. st = Saved b) (if 1 \<le> n then move_script VERIFICATION (show_nat n @ '' document(s) present'') a
      else review_script ''no documents uploaded -- requires human review'' a) st"
    using passes_move [OF at] passes_review [OF at] by simp
  then show "passes (c_tenant c) (\<lambda>_. between)
      (andthen (if 1 \<le> n then move_script VERIFICATION (show_nat n @ '' document(s) present'') a
         else review_script ''no documents uploaded -- requires human review'' a) (\<lambda>b.
       andthen (publish_script env b) (\<lambda>b'.
         Finish (Inr (case_result.extend (result_of b') \<lparr>res_document_count = n\<rparr>))))) st"
    by (rule passes_then) (auto intro!: passes_publish_finish simp: between_def)
qed

lemma passes_enter: "passes (c_tenant c) (\<lambda>_. between) (enter_script env c) Open"
  unfolding enter_script_def
  by (rule passes_load_then, rule passes_then [OF passes_review [where Q = "\<lambda>b st. st = Saved b"]])
    (auto intro!: passes_publish_finish simp: between_def stands_at_def)

lemma passes_decision: "passes (c_tenant c) (\<lambda>_. between) (decision_script env c) Open"
  unfolding decision_script_def
proof (rule passes_load_then, rule passes_then)
  fix a
  show "passes (c_tenant c) (\<lambda>b st. st = Known a \<and> next_version a b)
      (at_time (\<lambda>now. transition_to (c_decision c) (c_reason c) now a)) (Known a)"
    by (intro passes_intros conjI refl) (rule transition_next)
next
  fix a b st assume b: "st = Known a \<and> next_version a b"
  let ?b = "detach_workflow b"
  have at: "stands_at a st" "next_version a ?b" using b next_version_bookkeeping(2) by (simp_all add: stands_at_def)
  have save: "passes (c_tenant c) (\<lambda>_. between) (andthen (save_script ?b) (\<lambda>_.
      andthen (publish_script env ?b) (\<lambda>b''. Finish (Inr (result_of b''))))) st"
    by (rule passes_then [OF passes_save [OF at, where Q = "\<lambda>_ st. st = Saved ?b"]])
      (auto intro!: passes_publish_finish simp: between_def)
  have decide: "passes (c_tenant c) (\<lambda>_ st'. st' = st) (decide_script t k s reason rv now) st" for t k s reason rv now
    unfolding decide_script_def Let_def
    by (intro passes_fetch) (auto split: option.split intro!: passes_intros simp del: sends.simps)
  show "passes (c_tenant c) (\<lambda>_. between) (let b' = ?b in Now (\<lambda>_. None) (\<lambda>now.
      andthen (decide_script (c_tenant c) (c_application c) (status_value (c_decision c)) (c_reason c)
        (c_reviewer c) now) (\<lambda>_.
      andthen (save_script b') (\<lambda>_.
      andthen (publish_script env b') (\<lambda>b''. Finish (Inr (result_of b''))))))) st"
    unfolding Let_def by (intro passes_now passes_then [OF decide]) (use save in blast)
qed

subsection \<open>Overlapping commands\<close>

datatype case_request =
    Submitting case_command
  | Resubmitting case_command
  | Validating case_command
  | Checking case_command
  | Entering review_command
  | Deciding decision_command

definition silent :: "'a script \<Rightarrow> unit script" where
  "silent s = andthen s (\<lambda>_. Finish (Inr ()))"

text \<open>A request's tenant and its transaction.\<close>

fun request_script :: "env \<Rightarrow> case_request \<Rightarrow> string \<times> unit script" where
  "request_script env (Submitting c) = (c_tenant c, silent (attach_script env ''submit_application'' submit c))"
| "request_script env (Resubmitting c) = (c_tenant c, silent (attach_script env ''resubmit_application''
     (transition_to DOCUMENT_PROCESSING ''applicant resubmitted with additional information'') c))"
| "request_script env (Validating c) = (c_tenant c, silent (intake_script env c))"
| "request_script env (Checking c) = (c_tenant c, silent (documents_script env c))"
| "request_script env (Entering c) = (c_tenant c, silent (enter_script env c))"
| "request_script env (Deciding c) = (c_tenant c, silent (decision_script env c))"

lemma passes_silent: "passes t (\<lambda>_. between) s Open \<Longrightarrow> passes t (\<lambda>_. between) (silent s) Open"
  unfolding silent_def by (erule passes_then) simp

lemma passes_request: "request_script env r = (t, s) \<Longrightarrow> passes t (\<lambda>_. between) s Open"
  by (cases r)
    (auto intro!: passes_silent passes_attach passes_intake passes_documents passes_enter passes_decision transition_next
      simp: submit_def)

lemma versions_view: "\<exists>vs. db_versions (view s d) = db_versions d @ vs"
proof -
  have one: "\<exists>vs. db_versions (written scope st d) = db_versions d @ vs" for scope st and d :: db
    by (cases st) simp_all
  have "\<exists>vs. db_versions (fold (written scope) sts d) = db_versions d @ vs" for scope sts
  proof (induction sts arbitrary: d)
    case (Cons st sts)
    from one [of scope st d] Cons [of "written scope st d"] show ?case by auto
  qed simp
  then show ?thesis by (simp add: view_def)
qed

lemma versions_happen: "\<exists>vs. db_versions (cl_db (happen env c e)) = db_versions (cl_db c) @ vs"
proof (cases e)
  case (Proceed i)
  have "\<exists>vs. db_versions (cl_db (proceed env i c s p)) = db_versions (cl_db c) @ vs" for s p
  proof (cases p)
    case (Finish r)
    with versions_view show ?thesis by (cases r) simp_all
  qed (simp_all add: Let_def split: option.split sum.split)
  with Proceed show ?thesis by simp
qed simp

lemma versions_schedule: "\<exists>vs. db_versions (cl_db (schedule env es c)) = db_versions (cl_db c) @ vs"
  unfolding schedule_def
proof (induction es arbitrary: c)
  case (Cons e es)
  from versions_happen [of env c e] Cons [of "happen env c e"] show ?case by auto
qed simp

end
