(* ===== verification/Races.thy ===== *)
theory Races
  imports Overlap Walkthrough
begin

text \<open>
  What overlapping transactions can and cannot do to one another: the histories of the cases survive every
  schedule, a save that was overtaken is refused by the database, and two events of one tenant can be
  chained to the same predecessor.
\<close>

subsection \<open>Histories\<close>

lemma requests_consistent:
  assumes "case_inv d"
  shows "consistent (cl_db (cluster_of d (map (request_script env) rs))) (cl_sessions (cluster_of d (map (request_script env) rs)))"
proof -
  have "passes t (\<lambda>_. between) s stage.Open" if "(t, s) \<in> set (map (request_script env) rs)" for t s
    using that by (auto intro: passes_request [OF sym])
  with consistent_opened [OF assms] have "consistent d (map opened (map (request_script env) rs))" by blast
  then show ?thesis by (simp add: cluster_of_def)
qed

text \<open>C3: optimistic concurrency holds under any overlap.  However the transactions of submit, resubmit,
  intake, document, review and decision commands interleave statement by statement, wait for each other,
  fail or break off, the committed database has for every case a gapless legal history that ends in its row,
  and no snapshot once committed is lost.\<close>

theorem overlapping_commands_keep_history:
  assumes "case_inv d"
  shows "case_inv (cl_db (schedule env es (cluster_of d (map (request_script env) rs)))) \<and>
    take (length (db_versions d)) (db_versions (cl_db (schedule env es (cluster_of d (map (request_script env) rs))))) = db_versions d"
proof
  let ?c = "cluster_of d (map (request_script env) rs)"
  have "consistent (cl_db ?c) (cl_sessions ?c)" by (rule requests_consistent [OF assms])
  from consistent_schedule [OF this] show "case_inv (cl_db (schedule env es ?c))" by (simp add: consistent_def)
  from versions_schedule [of env es ?c] show "take (length (db_versions d)) (db_versions (cl_db (schedule env es ?c))) = db_versions d"
    by (auto simp: cluster_of_def)
qed

definition drafted_db :: db where
  "drafted_db = (initial_db sample_instant)\<lparr>db_applications := [walked_row DRAFT 1 sample_instant None],
     db_versions := [version_snapshot_row (walked_case DRAFT 1 sample_instant None) (new_id 2)]\<rparr>"

lemma drafted_case_inv: "case_inv drafted_db"
proof -
  have "\<exists>ss. [''DRAFT''] = map status_value ss \<and> legal_history ss \<and> hd ss = DRAFT"
    by (rule exI [of _ "[DRAFT]"]) simp
  then show ?thesis
    by (simp add: case_inv_def drafted_db_def application_ids_def snapshots_of_def history_ok_def walked_row_def walked_case_def
        version_snapshot_row_def snapshot_of_def)
qed

definition sample_submit :: "string \<Rightarrow> case_command" where
  "sample_submit key = \<lparr>c_tenant = DEMO_TENANT_ID, c_application = new_id 1, c_key = key\<rparr>"

theorem overlapping_commands_keep_history_witness:
  "case_inv (cl_db (schedule sample_env (map Proceed [0, 1, 0, 1, 0, 1, 0, 1, 0, 1])
     (cluster_of drafted_db (map (request_script sample_env) [Submitting (sample_submit ''k1''), Submitting (sample_submit ''k2'')]))))"
  using overlapping_commands_keep_history [OF drafted_case_inv] by blast

subsection \<open>An overtaken save\<close>

lemma find_own: "tbl_find pk k rows = Some r \<Longrightarrow> ten r = scope \<Longrightarrow> tbl_find pk k (visible ten scope rows) = Some r"
  by (induction rows) (auto simp: visible_def split: if_splits)

lemma versions_view_untouched: "only_case None (ss_log s) \<Longrightarrow> db_versions (view s d) = db_versions d"
proof -
  have "only_case None sts \<Longrightarrow> db_versions (fold (written scope) sts d) = db_versions d" for scope sts
  proof (induction sts arbitrary: d)
    case (Cons st sts)
    then have "db_versions (written scope st d) = db_versions d" by (cases st) (auto simp: only_case_def)
    with Cons show ?case by (simp add: only_case_def)
  qed simp
  then show "only_case None (ss_log s) \<Longrightarrow> db_versions (view s d) = db_versions d" by (simp add: view_def)
qed

text \<open>C24: a save that was overtaken between its version check and its statements is not reported as the
  conflict it is.  Its check has passed, what it wants to store is acceptable to every constraint of its own
  (\<open>application_row_fits\<close>, \<open>application_row_ok\<close>, a snapshot identifier never used), and meanwhile another
  transaction has committed the version it was to write.  Then going on ends the request with the driver's
  \<open>IntegrityError\<close> on the versions' unique constraint, never with the \<open>ConcurrencyConflictError\<close> the clients
  are told to expect, and changes nothing.\<close>

theorem overtaken_save_raises_database_error:
  assumes "case_inv (cl_db c)" "i < length (cl_sessions c)" "\<not> ss_ended (cl_sessions c ! i)"
    "ss_script (cl_sessions c ! i) = andthen (sends [Update_Case b, Insert_Version (version_snapshot_row b k)]) f"
    "only_case None (ss_log (cl_sessions c ! i))"
    "tbl_find ap_id (app_id b) (db_applications (cl_db c)) = Some r" "1 \<le> app_version b" "app_version b \<le> ap_version r"
    "\<not> waits i [Case_Lock (app_id b)] (cl_sessions c)"
    "\<not> waits i [Snapshot_Lock k, Version_Lock (app_id b) (app_version b)] (cl_sessions c)"
    "ss_scope (cl_sessions c ! i) = app_tenant b" "ap_tenant r = app_tenant b"
    "application_row_fits (saved_row b r)" "list_all fst (application_row_ok (saved_row b r))"
    "k \<notin> vr_id ` set (db_versions (cl_db c))"
  shows "ss_script (cl_sessions (schedule env [Proceed i, Proceed i] c) ! i) =
      Finish (Inl (IntegrityError ''uq_application_version'')) \<and>
    cl_db (schedule env [Proceed i, Proceed i] c) = cl_db c"
proof -
  let ?s = "cl_sessions c ! i"
  let ?d = "view ?s (cl_db c)"
  have script: "ss_script ?s = Send (Update_Case b) id (Send (Insert_Version (version_snapshot_row b k)) id (f ()))"
    using assms(4) by simp
  have "app_version b \<in> set [1..ap_version r]" using assms(7,8) by simp
  with stored_history [OF assms(1,6)] have taken: "app_version b \<in> vr_version ` set (snapshots_of (app_id b) (cl_db c))"
    unfolding history_ok_def by (metis list.set_map)
  have versions: "db_versions ?d = db_versions (cl_db c)" using versions_view_untouched [OF assms(5)] .
  from taken have v: "(app_id b, app_version b) \<in> (\<lambda>v. (vr_application v, vr_version v)) ` set (db_versions ?d)"
    by (force simp: snapshots_of_def versions)
  have "tbl_find ap_id (app_id b) (db_applications ?d) = Some r"
    using portion_view_untouched [OF assms(5), of "app_id b" "cl_db c"] assms(6) by (simp add: portion_def)
  then have "tbl_find ap_id (app_id b) (visible ap_tenant (app_tenant b) (db_applications ?d)) = Some r"
    using assms(12) by (rule find_own)
  moreover have "find (\<lambda>(ok, _). \<not> ok) (application_row_ok (saved_row b r)) = None"
    using assms(14) by (auto simp: find_None_iff list_all_iff)
  ultimately obtain d' where update: "update_application (app_id b) (saved_row b) (ss_scope ?s) ?d = Inr d'"
    using assms(11-13) by (simp add: update_application_def guard_row_def saved_row_def)
  let ?s1 = "?s\<lparr>ss_script := Send (Insert_Version (version_snapshot_row b k)) id (f ()), ss_log := ss_log ?s @ [Update_Case b]\<rparr>"
  let ?c1 = "c\<lparr>cl_sessions := (cl_sessions c)[i := ?s1]\<rparr>"
  have c1: "happen env c (Proceed i) = ?c1" using update assms(2,3,9) script by simp
  have free: "\<not> waits i (locks (Insert_Version (version_snapshot_row b k))) ((cl_sessions c)[i := ?s1])"
    using assms(10) by (fastforce simp: waits_def list_ex_iff in_set_enumerate_eq version_snapshot_row_def)
  have view: "view ?s1 (cl_db c) = written (ss_scope ?s) (Update_Case b) ?d" by (simp add: view_def)
  have "fits_numeric (amount (app_amount b))" "fits_int32 (app_term b)" "fits_int32 (app_version b)"
    using assms(13) by (simp_all add: application_row_fits_def saved_row_def)
  then have refused: "insert_version (version_snapshot_row b k) (ss_scope ?s) (view ?s1 (cl_db c)) = Inl (IntegrityError ''uq_application_version'')"
    using v assms(11,15) versions unfolding view by (simp add: insert_version_def guard_row_def version_snapshot_row_def bind_result_def)
  have two: "schedule env [Proceed i, Proceed i] c = happen env ?c1 (Proceed i)" unfolding schedule_def by (simp only: foldl.simps c1)
  have "perform (Insert_Version (version_snapshot_row b k)) (ss_scope ?s1) (view ?s1 (cl_db c)) = Inl (IntegrityError ''uq_application_version'')"
    using refused by simp
  then have "happen env ?c1 (Proceed i) = ?c1\<lparr>cl_sessions := (cl_sessions ?c1)[i := ?s1\<lparr>ss_script := Finish (Inl (IntegrityError ''uq_application_version''))\<rparr>]\<rparr>"
    using assms(2,3) free by (simp del: locks.simps perform.simps)
  with assms(2) show ?thesis unfolding two by simp
qed

text \<open>The overtaking happens: two submissions of one drafted case, each past its version check, the first then
  committing.\<close>

definition past_check :: "string \<Rightarrow> string \<Rightarrow> unit session" where
  "past_check key snapshot_id =
     \<lparr>ss_scope = DEMO_TENANT_ID,
      ss_script = andthen (sends [Update_Case (walked_case SUBMITTED 2 sample_instant None),
          Insert_Version (version_snapshot_row (walked_case SUBMITTED 2 sample_instant None) snapshot_id)]) (\<lambda>_. Finish (Inr ())),
      ss_log = [Insert_Key \<lparr>ik_tenant = DEMO_TENANT_ID, ik_operation = ''submit_application'', ik_key = key,
          ik_reserved_at = sample_instant\<rparr>],
      ss_ended = False\<rparr>"

definition submitted_db :: db where
  "submitted_db = drafted_db\<lparr>db_applications := [walked_row SUBMITTED 2 sample_instant None],
     db_versions := db_versions drafted_db @ [version_snapshot_row (walked_case SUBMITTED 2 sample_instant None) (new_id 3)]\<rparr>"

lemma submitted_case_inv: "case_inv submitted_db"
proof -
  have "\<exists>ss. [''DRAFT'', ''SUBMITTED''] = map status_value ss \<and> legal_history ss \<and> hd ss = DRAFT"
    by (rule exI [of _ "[DRAFT, SUBMITTED]"]) (simp add: is_legal_transition_def ALLOWED_TRANSITIONS_def; code_simp)
  then show ?thesis
    by (simp add: case_inv_def submitted_db_def drafted_db_def application_ids_def snapshots_of_def history_ok_def walked_row_def
        walked_case_def version_snapshot_row_def snapshot_of_def upto.simps)
qed

theorem overtaken_save_raises_database_error_witness:
  "ss_script (cl_sessions (schedule sample_env [Proceed 0, Proceed 0]
     \<lparr>cl_db = submitted_db, cl_sessions = [past_check ''k2'' (new_id 5)], cl_ids = 6, cl_clk = 2\<rparr>) ! 0) =
   Finish (Inl (IntegrityError ''uq_application_version''))"
proof -
  have row: "tbl_find ap_id (app_id (walked_case SUBMITTED 2 sample_instant None)) (db_applications submitted_db) =
      Some (walked_row SUBMITTED 2 sample_instant None)"
    by (simp add: submitted_db_def walked_row_def walked_case_def)
  have "new_id 5 \<noteq> new_id 2" "new_id 5 \<noteq> new_id 3" by (simp_all add: new_id_inject)
  then have fresh: "new_id 5 \<notin> vr_id ` set (db_versions submitted_db)"
    by (simp add: submitted_db_def drafted_db_def version_snapshot_row_def)
  have good: "application_row_fits (saved_row (walked_case SUBMITTED 2 sample_instant None) (walked_row SUBMITTED 2 sample_instant None))"
    "list_all fst (application_row_ok (saved_row (walked_case SUBMITTED 2 sample_instant None) (walked_row SUBMITTED 2 sample_instant None)))"
    by (simp_all add: saved_row_def walked_case_def walked_row_def application_row_fits_def application_row_ok_def APPLICATION_STATUSES_def fits_int32_def)
  show ?thesis
    by (rule overtaken_save_raises_database_error [where b = "walked_case SUBMITTED 2 sample_instant None"
          and k = "new_id 5" and f = "\<lambda>_. Finish (Inr ())" and r = "walked_row SUBMITTED 2 sample_instant None", THEN conjunct1])
      (use submitted_case_inv fresh row good in \<open>auto simp: past_check_def only_case_def walked_row_def walked_case_def waits_def\<close>)
qed

subsection \<open>The audit chain\<close>

text \<open>A statement that writes nothing of the outbox and the audit log.\<close>

fun off_ledger :: "statement \<Rightarrow> bool" where
  "off_ledger (Insert_Outbox r) = False"
| "off_ledger (Insert_Audit r) = False"
| "off_ledger (Insert_Checkpoint r) = False"
| "off_ledger (Update_Checkpoint r) = False"
| "off_ledger _ = True"

lemma ledger_view:
  assumes "list_all off_ledger (ss_log s)"
  shows "ledger_part (view s d) = ledger_part d"
proof -
  have one: "off_ledger st \<Longrightarrow> ledger_part (written scope st d) = ledger_part d" for st scope and d :: db
    by (cases st) (simp_all add: ledger_part_def)
  have "list_all off_ledger sts \<Longrightarrow> ledger_part (fold (written scope) sts d) = ledger_part d" for sts scope
    by (induction sts arbitrary: d) (simp_all add: one)
  with assms show ?thesis by (simp add: view_def)
qed

fun ledger_lock :: "lock \<Rightarrow> bool" where
  "ledger_lock (Outbox_Lock k) = True"
| "ledger_lock (Audit_Lock k) = True"
| "ledger_lock (Checkpoint_Lock t) = True"
| "ledger_lock _ = False"

lemma off_ledger_locks: "list_all off_ledger (ss_log s) \<Longrightarrow> l \<in> set (held s) \<Longrightarrow> \<not> ledger_lock l"
proof -
  have "off_ledger st \<Longrightarrow> l \<in> set (locks st) \<Longrightarrow> \<not> ledger_lock l" for st by (cases st) auto
  then show "list_all off_ledger (ss_log s) \<Longrightarrow> l \<in> set (held s) \<Longrightarrow> \<not> ledger_lock l"
    by (auto simp: held_def list_all_iff)
qed

lemma off_ledger_waits:
  assumes "\<And>j. j < length ss \<Longrightarrow> j \<noteq> i \<Longrightarrow> list_all off_ledger (ss_log (ss ! j))" "\<And>l. l \<in> set ls \<Longrightarrow> ledger_lock l"
  shows "\<not> waits i ls ss"
proof
  assume "waits i ls ss"
  then obtain j l where j: "j < length ss" "j \<noteq> i" "l \<in> set (held (ss ! j))" "l \<in> set ls"
    by (auto simp: waits_def list_ex_iff in_set_enumerate_eq)
  with off_ledger_locks [OF assms(1) [OF j(1,2)] j(3)] assms(2) show False by blast
qed

text \<open>A session that runs on: through the staging of one event, and through its last statements to the commit.\<close>

abbreviation put_session :: "nat \<Rightarrow> 'a session \<Rightarrow> 'a cluster \<Rightarrow> 'a cluster" where
  "put_session i s c \<equiv> c\<lparr>cl_sessions := (cl_sessions c)[i := s]\<rparr>"

definition staged_script ::
  "env \<Rightarrow> application \<Rightarrow> domain_event \<Rightarrow> string \<Rightarrow> datetime \<Rightarrow> audit_hash_row option \<Rightarrow> (application \<Rightarrow> 'a script) \<Rightarrow> 'a script" where
  "staged_script env a e i now h f =
     andthen (sends (plan_statements (staged_with env e i now h empty_plan))) (\<lambda>_. f (a\<lparr>app_pending := []\<rparr>))"

lemma andthen_assoc: "andthen (andthen s f) g = andthen s (\<lambda>x. andthen (f x) g)"
proof (induction s)
  case (Finish r)
  then show ?case by (cases r) simp_all
next
  case (Fetch k)
  have "andthen (andthen (k scope d) f) g = andthen (k scope d) (\<lambda>x. andthen (f x) g)" for scope d
    by (rule Fetch [of "k scope"]) simp_all
  then show ?case by simp
qed (simp_all add: fun_eq_iff)

lemma publish_stages:
  assumes "i < length (cl_sessions c)" "cl_sessions c ! i = s" "\<not> ss_ended s" "ss_script s = andthen (publish_script env a) f" "app_pending a = [e]"
  shows "schedule env [Proceed i, Proceed i, Proceed i] c =
    (put_session i (s\<lparr>ss_script := staged_script env a e (e_uuid env (cl_ids c)) (e_clock env (cl_clk c))
        (stored_checkpoint (ev_tenant_id e) (ss_scope s) (view s (cl_db c))) f\<rparr>) c)
      \<lparr>cl_ids := cl_ids c + 1, cl_clk := cl_clk c + 1\<rparr>"
proof -
  have script: "ss_script s = Fresh (\<lambda>event_id. Now (\<lambda>_. None) (\<lambda>now. Fetch (\<lambda>scope d.
      staged_script env a e event_id now (stored_checkpoint (ev_tenant_id e) scope d) f)))"
    using assms(4,5)
    by (simp add: publish_script_def pull_events_def stage_script_def reads_def empty_plan_def staged_script_def andthen_assoc)
  have same: "view (s\<lparr>ss_script := p\<rparr>) d = view s d" for p d by (simp add: view_def)
  show ?thesis
    using assms(1-3) script by (simp add: schedule_def same)
qed

fun accepted :: "string \<Rightarrow> statement list \<Rightarrow> db \<Rightarrow> bool" where
  "accepted scope [] d \<longleftrightarrow> True"
| "accepted scope (st # sts) d \<longleftrightarrow> perform st scope d = Inr (written scope st d) \<and> accepted scope sts (written scope st d)"

lemma schedule_Cons: "schedule env (e # es) c = schedule env es (happen env c e)"
  by (simp add: schedule_def)

lemma schedule_append: "schedule env (es @ fs) c = schedule env fs (schedule env es c)"
  by (simp add: schedule_def)

lemma writes_through:
  assumes "i < length (cl_sessions c)" "cl_sessions c ! i = s" "\<not> ss_ended s" "ss_script s = andthen (sends sts) (\<lambda>_. Finish (Inr y))"
    "accepted (ss_scope s) sts (view s (cl_db c))" "\<not> waits i (concat (map locks sts)) (cl_sessions c)"
  shows "schedule env (replicate (Suc (length sts)) (Proceed i)) c =
    (put_session i (ended (Inr y) s) c)\<lparr>cl_db := fold (written (ss_scope s)) sts (view s (cl_db c))\<rparr>"
  using assms
proof (induction sts arbitrary: c s)
  case Nil
  then show ?case by (simp add: schedule_def)
next
  case (Cons st sts)
  let ?s = "s\<lparr>ss_script := andthen (sends sts) (\<lambda>_. Finish (Inr y)), ss_log := ss_log s @ [st]\<rparr>"
  let ?c = "put_session i ?s c"
  have "\<not> waits i (locks st) (cl_sessions c)" using Cons.prems(6) by (auto simp: waits_def list_ex_iff)
  with Cons.prems have step: "happen env c (Proceed i) = ?c" by simp
  have view: "view ?s (cl_db c) = written (ss_scope s) st (view s (cl_db c))" by (simp add: view_def)
  have "\<not> waits i (concat (map locks sts)) (cl_sessions ?c)"
    using Cons.prems(6) by (fastforce simp: waits_def list_ex_iff in_set_enumerate_eq)
  with Cons.IH [of ?c ?s] Cons.prems view have
    "schedule env (replicate (Suc (length sts)) (Proceed i)) ?c =
      (put_session i (ended (Inr y) ?s) ?c)\<lparr>cl_db := fold (written (ss_scope s)) sts (view ?s (cl_db c))\<rparr>"
    by (simp del: replicate.simps)
  moreover have "ended (Inr y) ?s = ended (Inr y) s" by (simp add: ended_def)
  ultimately show ?case using view by (simp add: schedule_Cons step del: happen.simps)
qed

definition event_statements :: "env \<Rightarrow> domain_event \<Rightarrow> string \<Rightarrow> datetime \<Rightarrow> audit_hash_row \<Rightarrow> statement list" where
  "event_statements env e i now h =
     [Insert_Outbox (outbox_row_of e i now), Insert_Audit (audit_row_of env e i now (ah_latest_hash h)),
      Update_Checkpoint (h\<lparr>ah_latest_event_id := Some i,
        ah_latest_hash := au_hash (audit_row_of env e i now (ah_latest_hash h)), ah_updated_at := now\<rparr>)]"

lemma staged_event: "staged_script env a e i now (Some h) f = andthen (sends (event_statements env e i now h)) (\<lambda>_. f (a\<lparr>app_pending := []\<rparr>))"
  by (simp add: staged_script_def event_statements_def plan_statements_def staged_with_def empty_plan_def put_loaded_def Let_def)

lemma event_accepted:
  assumes "ev_tenant_id e = scope" "i \<notin> ob_id ` set (db_outbox d)" "i \<notin> au_id ` set (db_audit_events d)"
  shows "accepted scope (event_statements env e i now h) d"
proof -
  have row: "ob_id (outbox_row_of e i now) = i" "ob_tenant (outbox_row_of e i now) = ev_tenant_id e"
    "ob_schema_version (outbox_row_of e i now) = 1"
    by (simp_all add: outbox_row_of_def SCHEMA_VERSION_def split: prod.split)
  show ?thesis
    using assms row audit_row_link(3,4) [of env e i now]
    by (simp add: event_statements_def insert_outbox_def insert_audit_event_def guard_row_def update_checkpoint_def fits_int32_def)
qed

lemma event_written:
  "db_outbox (fold (written scope) (event_statements env e i now h) d) = db_outbox d @ [outbox_row_of e i now]"
  "db_audit_events (fold (written scope) (event_statements env e i now h) d) =
     db_audit_events d @ [audit_row_of env e i now (ah_latest_hash h)]"
  by (simp_all add: event_statements_def)

lemma event_locks: "l \<in> set (concat (map locks (event_statements env e i now h))) \<Longrightarrow> ledger_lock l"
  by (auto simp: event_statements_def)

lemma event_length [simp]: "length (event_statements env e i now h) = 3"
  by (simp add: event_statements_def)

definition event_script :: "env \<Rightarrow> domain_event \<Rightarrow> string \<Rightarrow> datetime \<Rightarrow> audit_hash_row \<Rightarrow> 'a \<Rightarrow> 'a script" where
  "event_script env e i now h y = andthen (sends (event_statements env e i now h)) (\<lambda>_. Finish (Inr y))"

lemma event_stages:
  assumes "i < length (cl_sessions c)" "cl_sessions c ! i = s" "\<not> ss_ended s" "list_all off_ledger (ss_log s)"
    "ss_script s = andthen (publish_script env a) (\<lambda>x. Finish (Inr (f x)))" "app_pending a = [e]" "ev_tenant_id e = ss_scope s"
    "tbl_find ah_tenant (ss_scope s) (db_audit_hashes (cl_db c)) = Some h"
  shows "schedule env [Proceed i, Proceed i, Proceed i] c =
    (put_session i (s\<lparr>ss_script := event_script env e (e_uuid env (cl_ids c)) (e_clock env (cl_clk c)) h (f (a\<lparr>app_pending := []\<rparr>))\<rparr>) c)
      \<lparr>cl_ids := cl_ids c + 1, cl_clk := cl_clk c + 1\<rparr>"
proof -
  have "stored_checkpoint (ss_scope s) (ss_scope s) (view s (cl_db c)) = Some h"
    using ledger_view [OF assms(4), of "cl_db c"] assms(8) by (simp add: stored_checkpoint_def find_visible ledger_part_def)
  with publish_stages [OF assms(1-3,5,6)] assms(7) show ?thesis by (simp add: staged_event event_script_def)
qed

text \<open>From the staged event to the commit, nobody else being about to write to the ledger.\<close>

lemma event_writes:
  assumes "i < length (cl_sessions c)" "cl_sessions c ! i = s" "\<not> ss_ended s" "ss_script s = event_script env e k now h y"
    "ev_tenant_id e = ss_scope s"
    "\<And>l. l < length (cl_sessions c) \<Longrightarrow> list_all off_ledger (ss_log (cl_sessions c ! l))"
    "k \<notin> ob_id ` set (db_outbox (cl_db c))" "k \<notin> au_id ` set (db_audit_events (cl_db c))"
  shows "\<exists>d. schedule env (replicate 4 (Proceed i)) c = (put_session i (ended (Inr y) s) c)\<lparr>cl_db := d\<rparr> \<and>
    db_audit_events d = db_audit_events (cl_db c) @ [audit_row_of env e k now (ah_latest_hash h)] \<and>
    db_outbox d = db_outbox (cl_db c) @ [outbox_row_of e k now]"
proof -
  let ?st = "event_statements env e k now h"
  have part: "ledger_part (view s (cl_db c)) = ledger_part (cl_db c)" using assms(1,2,6) by (intro ledger_view) auto
  then have "accepted (ss_scope s) ?st (view s (cl_db c))"
    using assms(5,7,8) by (intro event_accepted) (simp_all add: ledger_part_def)
  moreover have "\<not> waits i (concat (map locks ?st)) (cl_sessions c)"
    by (rule off_ledger_waits) (use assms(6) event_locks in auto)
  ultimately have "schedule env (replicate (Suc (length ?st)) (Proceed i)) c =
      (put_session i (ended (Inr y) s) c)\<lparr>cl_db := fold (written (ss_scope s)) ?st (view s (cl_db c))\<rparr>"
    using writes_through [OF assms(1-3)] assms(4) unfolding event_script_def by blast
  moreover have "Suc (length ?st) = 4" by simp
  ultimately show ?thesis using part by (intro exI [of _ "fold (written (ss_scope s)) ?st (view s (cl_db c))"]) (simp add: event_written ledger_part_def)
qed

text \<open>A hash a verifying log already ends in is not the hash of a row with a new identifier.\<close>

lemma repeated_hash_collides:
  assumes "tbl_find ah_tenant t (db_audit_hashes d) = Some h" "audit_ok (e_sha256 env) d t"
    "i \<notin> au_id ` set (tenant_log t d)" "au_hash (audit_row_of env e i now prev) = ah_latest_hash h"
  shows "collision (e_sha256 env)"
proof -
  obtain rows r where log: "tenant_log t d = rows @ [r]"
    using assms(1,2) by (cases "tenant_log t d" rule: rev_cases) (auto simp: audit_ok_def checkpoint_ok_def)
  with assms(1,2) have latest: "ah_latest_hash h = au_hash r" and chain: "chain_ok (e_sha256 env) GENESIS_HASH (rows @ [r])"
    by (simp_all add: audit_ok_def checkpoint_ok_def chain_end_append)
  define m where "m = (let q = audit_row_of env e i now prev in
    audit_material prev i (au_event_type q) (au_aggregate_id q) (au_occurred_at q) (au_payload q))"
  define m' where "m' = audit_material (chain_end GENESIS_HASH rows) (au_id r) (au_event_type r) (au_aggregate_id r) (au_occurred_at r) (au_payload r)"
  have "au_hash (audit_row_of env e i now prev) = e_sha256 env (canonical_json m)"
    unfolding audit_row_link(2) [of env e i now prev] audit_row_link(3) by (simp add: compute_audit_hash_def m_def Let_def)
  moreover have "au_hash r = e_sha256 env (canonical_json m')"
    using chain_ok_snocD [OF chain] by (simp add: compute_audit_hash_def m'_def)
  ultimately have "e_sha256 env (canonical_json m) = e_sha256 env (canonical_json m')" using assms(4) latest by simp
  moreover have "canonical_json m \<noteq> canonical_json m'"
  proof
    assume "canonical_json m = canonical_json m'"
    then have eq: "sort_keys m = sort_keys m'" by (simp only: canonical_json_eq_iff)
    from sort_keys_dict_eqD [OF eq [unfolded m_def m'_def Let_def audit_material_def], of "''event_id''" "PStr i" "PStr (au_id r)"] assms(3) log
    show False by simp
  qed
  ultimately show ?thesis unfolding collision_def by blast
qed

definition race :: "nat \<Rightarrow> nat \<Rightarrow> event list" where
  "race i j = [Proceed i, Proceed i, Proceed i] @ [Proceed j, Proceed j, Proceed j] @ replicate 4 (Proceed i) @ replicate 4 (Proceed j)"

text \<open>C23: the audit chain forks when two transactions of one tenant overlap.  Two sessions that have come to
  \<open>record_domain_events\<close>, each with one event, may both read the checkpoint before either writes; then both
  commit, and the log holds two rows chained to the same predecessor.  So a log that
  verified before no longer does, or SHA-256 has a collision.\<close>

theorem overlapping_events_fork_the_chain:
  assumes "i \<noteq> j" "i < length (cl_sessions c)" "j < length (cl_sessions c)"
    "cl_sessions c ! i = s" "cl_sessions c ! j = s'" "\<not> ss_ended s" "\<not> ss_ended s'" "ss_scope s = t" "ss_scope s' = t"
    "list_all (\<lambda>s. list_all off_ledger (ss_log s)) (cl_sessions c)"
    "ss_script s = andthen (publish_script env a) (\<lambda>x. Finish (Inr (f x)))" "app_pending a = [e]" "ev_tenant_id e = t"
    "ss_script s' = andthen (publish_script env a') (\<lambda>x. Finish (Inr (f' x)))" "app_pending a' = [e']" "ev_tenant_id e' = t"
    "tbl_find ah_tenant t (db_audit_hashes (cl_db c)) = Some h"
    "e_uuid env (cl_ids c) \<notin> ob_id ` set (db_outbox (cl_db c))" "e_uuid env (cl_ids c) \<notin> au_id ` set (db_audit_events (cl_db c))"
    "e_uuid env (cl_ids c + 1) \<notin> ob_id ` set (db_outbox (cl_db c))" "e_uuid env (cl_ids c + 1) \<notin> au_id ` set (db_audit_events (cl_db c))"
    "e_uuid env (cl_ids c + 1) \<noteq> e_uuid env (cl_ids c)" "audit_ok (e_sha256 env) (cl_db c) t"
  shows "\<exists>r r' y y'. tenant_log t (cl_db (schedule env (race i j) c)) = tenant_log t (cl_db c) @ [r, r'] \<and>
    au_prev_hash r = ah_latest_hash h \<and> au_prev_hash r' = ah_latest_hash h \<and>
    map ss_script [cl_sessions (schedule env (race i j) c) ! i, cl_sessions (schedule env (race i j) c) ! j] = [Finish (Inr y), Finish (Inr y')] \<and>
    (collision (e_sha256 env) \<or> \<not> audit_ok (e_sha256 env) (cl_db (schedule env (race i j) c)) t)"
proof -
  let ?i = "e_uuid env (cl_ids c)" and ?i' = "e_uuid env (cl_ids c + 1)"
  let ?now = "e_clock env (cl_clk c)" and ?now' = "e_clock env (cl_clk c + 1)"
  let ?r = "audit_row_of env e ?i ?now (ah_latest_hash h)" and ?r' = "audit_row_of env e' ?i' ?now' (ah_latest_hash h)"
  let ?y = "f (a\<lparr>app_pending := []\<rparr>)" and ?y' = "f' (a'\<lparr>app_pending := []\<rparr>)"
  let ?s = "s\<lparr>ss_script := event_script env e ?i ?now h ?y\<rparr>" and ?s' = "s'\<lparr>ss_script := event_script env e' ?i' ?now' h ?y'\<rparr>"
  have off: "list_all off_ledger (ss_log (cl_sessions c ! l))" if "l < length (cl_sessions c)" for l
    using assms(10) that by (simp add: list_all_length)
  define c1 where "c1 = (put_session i ?s c)\<lparr>cl_ids := cl_ids c + 1, cl_clk := cl_clk c + 1\<rparr>"
  define c2 where "c2 = (put_session j ?s' c1)\<lparr>cl_ids := cl_ids c + 2, cl_clk := cl_clk c + 2\<rparr>"
  have 1: "schedule env [Proceed i, Proceed i, Proceed i] c = c1"
    using event_stages [OF assms(2,4,6) _ assms(11,12)] off [OF assms(2)] assms(4,8,13,17) by (simp add: c1_def)
  have 2: "schedule env [Proceed j, Proceed j, Proceed j] c1 = c2"
    using event_stages [of j c1 s' env a' f' e' h] off [OF assms(3)] assms(1,3,5,7,9,14-17) by (simp add: c1_def c2_def)
  have sessions2: "cl_sessions c2 = (cl_sessions c)[i := ?s, j := ?s']" "cl_db c2 = cl_db c" by (simp_all add: c1_def c2_def)
  have off2: "list_all off_ledger (ss_log (cl_sessions c2 ! l))" if "l < length (cl_sessions c2)" for l
    using off that assms(2-5) by (auto simp: sessions2 nth_list_update)
  obtain d3 where d3: "schedule env (replicate 4 (Proceed i)) c2 = (put_session i (ended (Inr ?y) ?s) c2)\<lparr>cl_db := d3\<rparr>"
    "db_audit_events d3 = db_audit_events (cl_db c) @ [?r]" "db_outbox d3 = db_outbox (cl_db c) @ [outbox_row_of e ?i ?now]"
    using event_writes [OF _ _ _ _ _ off2, where i = i and s = ?s and e = e and k = ?i and env = env and now = ?now and h = h and y = ?y] assms(1,2,6,8,13,18,19) by (auto simp: sessions2)
  let ?c3 = "(put_session i (ended (Inr ?y) ?s) c2)\<lparr>cl_db := d3\<rparr>"
  have off3: "list_all off_ledger (ss_log (cl_sessions ?c3 ! l))" if "l < length (cl_sessions ?c3)" for l
    by (cases "l = i") (use off2 that in \<open>simp_all add: ended_def\<close>)
  have row: "ob_id (outbox_row_of e ?i ?now) = ?i" by (simp add: outbox_row_of_def split: prod.split)
  obtain d4 where d4: "schedule env (replicate 4 (Proceed j)) ?c3 = (put_session j (ended (Inr ?y') ?s') ?c3)\<lparr>cl_db := d4\<rparr>"
    "db_audit_events d4 = db_audit_events d3 @ [?r']"
    using event_writes [OF _ _ _ _ _ off3, where i = j and s = ?s' and e = e' and k = ?i' and env = env and now = ?now' and h = h and y = ?y'] assms(1,3,7,9,16,20-22) d3(2,3) row
    by (auto simp: sessions2 audit_row_link(3))
  let ?c4 = "(put_session j (ended (Inr ?y') ?s') ?c3)\<lparr>cl_db := d4\<rparr>"
  have all: "schedule env (race i j) c = ?c4" by (simp only: race_def schedule_append 1 2 d3(1) d4(1))
  have logged: "tenant_log t (cl_db ?c4) = tenant_log t (cl_db c) @ [?r, ?r']"
    using assms(13,16) d3(2) d4(2) audit_row_link(4) by (simp add: tenant_log_def)
  have "collision (e_sha256 env)" if "au_hash ?r = ah_latest_hash h"
    by (rule repeated_hash_collides [OF assms(17,23)]) (use that assms(19) in \<open>auto simp: tenant_log_def audit_row_link(3)\<close>)
  then have "collision (e_sha256 env) \<or> \<not> audit_ok (e_sha256 env) (cl_db ?c4) t"
    unfolding audit_ok_def logged by (auto simp: chain_ok_append audit_row_link(1))
  with logged show ?thesis
    unfolding all using assms(1-3) audit_row_link(1) by (fastforce simp: sessions2 ended_def)
qed

text \<open>A database with one event whose chain verifies, the identity standing for the hash, and two sessions that
  record one event each.\<close>

definition plain_env :: env where
  "plain_env = sample_env\<lparr>e_sha256 := (\<lambda>s. s)\<rparr>"

definition moved_event :: "nat \<Rightarrow> domain_event" where
  "moved_event k = ApplicationStateChanged (new_id k) DEMO_TENANT_ID sample_instant DRAFT SUBMITTED ''applicant submitted'' 2"

definition first_audit :: audit_row where
  "first_audit = audit_row_of plain_env (moved_event 1) (new_id 9) sample_instant GENESIS_HASH"

definition first_checkpoint :: audit_hash_row where
  "first_checkpoint = \<lparr>ah_tenant = DEMO_TENANT_ID, ah_latest_event_id = Some (new_id 9), ah_latest_hash = au_hash first_audit,
     ah_updated_at = sample_instant\<rparr>"

definition recorded_db :: db where
  "recorded_db = drafted_db\<lparr>db_outbox := [outbox_row_of (moved_event 1) (new_id 9) sample_instant],
     db_audit_events := [first_audit], db_audit_hashes := [first_checkpoint]\<rparr>"

definition recorder :: "nat \<Rightarrow> application session" where
  "recorder k = \<lparr>ss_scope = DEMO_TENANT_ID,
     ss_script = andthen (publish_script plain_env ((walked_case SUBMITTED 2 sample_instant None)\<lparr>app_pending := [moved_event k]\<rparr>)) (\<lambda>x. Finish (Inr x)),
     ss_log = [], ss_ended = False\<rparr>"

definition two_recorders :: "application cluster" where
  "two_recorders = \<lparr>cl_db = recorded_db, cl_sessions = [recorder 2, recorder 3], cl_ids = 0, cl_clk = 0\<rparr>"

lemma recorded_audit_ok: "audit_ok (e_sha256 plain_env) recorded_db DEMO_TENANT_ID"
  using audit_row_link [of plain_env "moved_event 1" "new_id 9" sample_instant GENESIS_HASH]
  by (simp add: audit_ok_def tenant_log_def recorded_db_def first_checkpoint_def checkpoint_ok_def first_audit_def moved_event_def)

theorem overlapping_events_fork_the_chain_witness:
  "audit_ok (e_sha256 plain_env) (cl_db two_recorders) DEMO_TENANT_ID \<and>
   \<not> audit_ok (e_sha256 plain_env) (cl_db (schedule plain_env (race 0 1) two_recorders)) DEMO_TENANT_ID"
proof
  show ok: "audit_ok (e_sha256 plain_env) (cl_db two_recorders) DEMO_TENANT_ID"
    using recorded_audit_ok by (simp add: two_recorders_def)
  have ids: "new_id 0 \<noteq> new_id 9" "new_id 1 \<noteq> new_id 9" "new_id (Suc 0) \<noteq> new_id 9" "new_id (Suc 0) \<noteq> new_id 0"
    by (simp_all add: new_id_inject)
  have first: "ob_id (outbox_row_of (moved_event 1) (new_id 9) sample_instant) = new_id 9" "au_id first_audit = new_id 9"
    by (simp_all add: outbox_row_of_def first_audit_def audit_row_link(3) split: prod.split)
  have forked: "\<exists>r r' y y'. tenant_log DEMO_TENANT_ID (cl_db (schedule plain_env (race 0 1) two_recorders)) =
      tenant_log DEMO_TENANT_ID (cl_db two_recorders) @ [r, r'] \<and>
    au_prev_hash r = ah_latest_hash first_checkpoint \<and> au_prev_hash r' = ah_latest_hash first_checkpoint \<and>
    map ss_script [cl_sessions (schedule plain_env (race 0 1) two_recorders) ! 0, cl_sessions (schedule plain_env (race 0 1) two_recorders) ! 1] =
      [Finish (Inr y), Finish (Inr y')] \<and>
    (collision (e_sha256 plain_env) \<or>
      \<not> audit_ok (e_sha256 plain_env) (cl_db (schedule plain_env (race 0 1) two_recorders)) DEMO_TENANT_ID)"
    by (rule overlapping_events_fork_the_chain [where s = "recorder 2" and s' = "recorder 3" and e = "moved_event 2" and e' = "moved_event 3"
          and f = "\<lambda>x. x" and f' = "\<lambda>x. x"
          and a = "(walked_case SUBMITTED 2 sample_instant None)\<lparr>app_pending := [moved_event 2]\<rparr>"
          and a' = "(walked_case SUBMITTED 2 sample_instant None)\<lparr>app_pending := [moved_event 3]\<rparr>"])
      (use ids first recorded_audit_ok in \<open>simp_all add: two_recorders_def recorder_def recorded_db_def first_checkpoint_def moved_event_def plain_env_def sample_env_def\<close>)
  show "\<not> audit_ok (e_sha256 plain_env) (cl_db (schedule plain_env (race 0 1) two_recorders)) DEMO_TENANT_ID"
    using forked by (auto simp: collision_def plain_env_def)
qed

end
