(* ===== verification/Reservations.thy ===== *)
theory Reservations
  imports Races
begin

text \<open>
  Idempotency keys under overlap: of any number of overlapping requests with one key at most one commits.
  A session first inserts its key; until it ends it holds the key's lock, and the key is not committed.
\<close>

type_synonym request_key = "string \<times> string \<times> string"

definition key_of_row :: "idempotency_row \<Rightarrow> request_key" where
  "key_of_row i = (ik_tenant i, ik_operation i, ik_key i)"

definition keys_of :: "db \<Rightarrow> request_key set" where
  "keys_of d = key_of_row ` set (db_idempotency_keys d)"

fun request_key :: "case_request \<Rightarrow> request_key" where
  "request_key (Submitting c) = (c_tenant c, ''submit_application'', c_key c)"
| "request_key (Resubmitting c) = (c_tenant c, ''resubmit_application'', c_key c)"
| "request_key (Validating c) = (c_tenant c, ''advance_intake_validation'', c_key c)"
| "request_key (Checking c) = (c_tenant c, ''advance_document_processing'', c_key c)"
| "request_key (Entering c) = (c_tenant c, ''enter_human_review'', c_key c)"
| "request_key (Deciding c) = (c_tenant c, ''apply_review_decision'', c_key c)"

text \<open>A script that has not inserted its key yet.\<close>

inductive reserves :: "request_key \<Rightarrow> 'a script \<Rightarrow> bool" where
  Reads_Clock: "(\<And>t. reserves \<kappa> (k t)) \<Longrightarrow> reserves \<kappa> (Now (\<lambda>_. None) k)"
| Inserts: "key_of_row r = \<kappa> \<Longrightarrow> reserves \<kappa> (Send (Insert_Key r) h k)"

inductive_cases reserves_Now: "reserves \<kappa> (Now check k)"
inductive_cases reserves_Send: "reserves \<kappa> (Send st h k)"
inductive_cases reserves_other: "reserves \<kappa> (Finish r)" "reserves \<kappa> (Fresh f)" "reserves \<kappa> (Fetch g)"

lemma reserves_andthen: "reserves \<kappa> s \<Longrightarrow> reserves \<kappa> (andthen s f)"
  by (induction rule: reserves.induct) (auto intro: reserves.intros)

lemma request_reserves: "reserves (request_key r) (snd (request_script env r))"
proof -
  have "reserves (t, op, k) (reserve_script t k op)" for t k op
    unfolding reserve_script_def by (rule Reads_Clock, rule Inserts) (simp add: key_of_row_def)
  then show ?thesis
    by (cases r) (simp_all add: silent_def attach_script_def intake_script_def documents_script_def enter_script_def
        decision_script_def reserves_andthen)
qed

definition inserted_keys :: "statement list \<Rightarrow> request_key set" where
  "inserted_keys sts = {key_of_row r | r. Insert_Key r \<in> set sts}"

lemma keys_view: "keys_of (view s d) = keys_of d \<union> inserted_keys (ss_log s)"
proof -
  have one: "keys_of (written scope st d) = keys_of d \<union> inserted_keys [st]" for scope st and d :: db
    by (cases st) (auto simp: keys_of_def inserted_keys_def)
  have "keys_of (fold (written scope) sts d) = keys_of d \<union> inserted_keys sts" for scope sts
  proof (induction sts arbitrary: d)
    case (Cons st sts)
    have "inserted_keys (st # sts) = inserted_keys [st] \<union> inserted_keys sts" by (auto simp: inserted_keys_def)
    with Cons one show ?case by auto
  qed (simp add: inserted_keys_def)
  then show ?thesis by (simp add: view_def)
qed

lemma inserted_held: "(t, op, k) \<in> inserted_keys (ss_log s) \<Longrightarrow> Key_Lock t op k \<in> set (held s)"
  by (force simp: inserted_keys_def key_of_row_def held_def)

lemma inserted_disjoint:
  "set (held s) \<inter> set (held s') = {} \<Longrightarrow> inserted_keys (ss_log s) \<inter> inserted_keys (ss_log s') = {}"
  using inserted_held [of _ _ _ s] inserted_held [of _ _ _ s'] by fastforce

definition committed :: "'a session \<Rightarrow> bool" where
  "committed s \<longleftrightarrow> ss_ended s \<and> (\<exists>x. ss_script s = Finish (Inr x))"

text \<open>What a session with the key \<open>\<kappa>\<close> relies on, the keys \<open>K\<close> being those of the start.\<close>

definition keeps_key :: "request_key set \<Rightarrow> db \<Rightarrow> request_key \<Rightarrow> 'a session \<Rightarrow> bool" where
  "keeps_key K d \<kappa> s \<longleftrightarrow>
     (if ss_ended s then ss_log s = [] \<and> (committed s \<longrightarrow> \<kappa> \<in> keys_of d \<and> \<kappa> \<notin> K)
      else reserves \<kappa> (ss_script s) \<or> (\<exists>e. ss_script s = Finish (Inl e)) \<or> \<kappa> \<in> inserted_keys (ss_log s) \<and> \<kappa> \<notin> keys_of d)"

definition keyed :: "request_key set \<Rightarrow> request_key list \<Rightarrow> 'a cluster \<Rightarrow> bool" where
  "keyed K ks c \<longleftrightarrow> length (cl_sessions c) = length ks \<and> K \<subseteq> keys_of (cl_db c) \<and>
     (\<forall>i < length ks. keeps_key K (cl_db c) (ks ! i) (cl_sessions c ! i)) \<and>
     (\<forall>i < length ks. \<forall>j < length ks. i \<noteq> j \<longrightarrow> ks ! i = ks ! j \<longrightarrow> \<not> (committed (cl_sessions c ! i) \<and> committed (cl_sessions c ! j)))"

text \<open>A step that commits nothing.\<close>

lemma keyed_put:
  assumes "keyed K ks c" "i < length ks" "keeps_key K (cl_db c) (ks ! i) s'" "\<not> committed s'"
    "cl_db c' = cl_db c" "cl_sessions c' = (cl_sessions c)[i := s']"
  shows "keyed K ks c'"
proof -
  have at: "cl_sessions c' ! j = (if j = i then s' else cl_sessions c ! j)" if "j < length ks" for j
    using assms(1,2,6) that by (simp add: keyed_def)
  show ?thesis
    unfolding keyed_def assms(5)
  proof (intro conjI allI impI)
    show "length (cl_sessions c') = length ks" "K \<subseteq> keys_of (cl_db c)" using assms(1,6) by (simp_all add: keyed_def)
    show "keeps_key K (cl_db c) (ks ! j) (cl_sessions c' ! j)" if "j < length ks" for j
      using assms(1,3) that by (simp add: at keyed_def)
    show "\<not> (committed (cl_sessions c' ! j) \<and> committed (cl_sessions c' ! l))"
      if "j < length ks" "l < length ks" "j \<noteq> l" "ks ! j = ks ! l" for j l
    proof -
      have "\<not> (committed (cl_sessions c ! j) \<and> committed (cl_sessions c ! l))" using assms(1) that unfolding keyed_def by blast
      with assms(4) that(3) show ?thesis unfolding at [OF that(1)] at [OF that(2)] by simp
    qed
  qed
qed

lemma keyed_commit:
  assumes "keyed K ks c" "exclusive (cl_sessions c)" "i < length ks" "\<not> ss_ended (cl_sessions c ! i)"
    "ss_script (cl_sessions c ! i) = Finish (Inr x)"
    "cl_db c' = view (cl_sessions c ! i) (cl_db c)" "cl_sessions c' = (cl_sessions c)[i := ended (Inr x) (cl_sessions c ! i)]"
  shows "keyed K ks c'"
proof -
  let ?s = "cl_sessions c ! i" and ?d = "cl_db c"
  have len: "length (cl_sessions c) = length ks" "K \<subseteq> keys_of ?d" using assms(1) by (simp_all add: keyed_def)
  have own: "ks ! i \<in> inserted_keys (ss_log ?s)" "ks ! i \<notin> keys_of ?d"
  proof -
    have "keeps_key K ?d (ks ! i) ?s" using assms(1,3) by (simp add: keyed_def)
    then have "reserves (ks ! i) (Finish (Inr x)) \<or> ks ! i \<in> inserted_keys (ss_log ?s) \<and> ks ! i \<notin> keys_of ?d"
      using assms(4,5) by (simp add: keeps_key_def)
    then show "ks ! i \<in> inserted_keys (ss_log ?s)" "ks ! i \<notin> keys_of ?d" by (auto elim: reserves_other)
  qed
  have keys: "keys_of (cl_db c') = keys_of ?d \<union> inserted_keys (ss_log ?s)" by (simp add: assms(6) keys_view)
  have "keeps_key K (cl_db c') (ks ! j) (cl_sessions c' ! j)" if "j < length ks" for j
  proof (cases "j = i")
    case True
    with own keys len assms(3) show ?thesis by (auto simp: assms(7) keeps_key_def ended_def)
  next
    case False
    have "inserted_keys (ss_log ?s) \<inter> inserted_keys (ss_log (cl_sessions c ! j)) = {}"
      by (rule inserted_disjoint) (use assms(2,3) that False len in \<open>auto simp: exclusive_def\<close>)
    moreover have "keeps_key K ?d (ks ! j) (cl_sessions c ! j)" using assms(1) that by (simp add: keyed_def)
    ultimately show ?thesis using False keys by (auto simp: assms(7) keeps_key_def)
  qed
  moreover have "\<not> (committed (cl_sessions c' ! j) \<and> committed (cl_sessions c' ! l))"
    if "j < length ks" "l < length ks" "j \<noteq> l" "ks ! j = ks ! l" for j l
  proof -
    have other: "\<not> committed (cl_sessions c ! m)" if "m < length ks" "ks ! m = ks ! i" for m
      using assms(1) own(2) that by (auto simp: keyed_def keeps_key_def committed_def)
    consider "j = i" | "l = i" | "j \<noteq> i" "l \<noteq> i" by blast
    then show ?thesis
    proof cases
      case 1
      with other [of l] that show ?thesis by (simp add: assms(7))
    next
      case 2
      with other [of j] that show ?thesis by (simp add: assms(7))
    next
      case 3
      with assms(1) that show ?thesis by (simp add: assms(7) keyed_def)
    qed
  qed
  ultimately show ?thesis using len keys unfolding keyed_def by (auto simp: assms(7))
qed

lemma keyed_happen:
  assumes "keyed K ks c" "exclusive (cl_sessions c)"
  shows "keyed K ks (happen env c ev)"
proof (cases ev)
  case (Break i e)
  show ?thesis
  proof (cases "i < length (cl_sessions c) \<and> \<not> ss_ended (cl_sessions c ! i)")
    case True
    have "keyed K ks (put_session i (ended (Inl e) (cl_sessions c ! i)) c)"
      by (rule keyed_put [OF assms(1), of i]) (use True assms(1) in \<open>auto simp: keyed_def keeps_key_def ended_def committed_def\<close>)
    with True Break show ?thesis by simp
  qed (use Break assms(1) in auto)
next
  case (Proceed i)
  show ?thesis
  proof (cases "i < length (cl_sessions c) \<and> \<not> ss_ended (cl_sessions c ! i)")
    case True
    let ?s = "cl_sessions c ! i" and ?d = "cl_db c"
    from True have open_s: "\<not> ss_ended ?s" and i: "i < length ks" using assms(1) by (simp_all add: keyed_def)
    have keeps: "keeps_key K ?d (ks ! i) ?s" using assms(1) i by (simp add: keyed_def)
    note put = keyed_put [OF assms(1) i]
    have go: "keyed K ks c'" if "keeps_key K ?d (ks ! i) s'" "\<not> ss_ended s'" "cl_db c' = ?d" "cl_sessions c' = (cl_sessions c)[i := s']" for s' c'
      by (rule put [OF that(1) _ that(3,4)]) (simp add: committed_def that(2))
    have on: "keeps_key K ?d (ks ! i) (?s\<lparr>ss_script := p\<rparr>)"
      if "\<not> reserves (ks ! i) (ss_script ?s) \<or> reserves (ks ! i) p \<or> (\<exists>e. p = Finish (Inl e))"
        "\<nexists>e. ss_script ?s = Finish (Inl e)" for p
      using keeps open_s that by (auto simp: keeps_key_def)
    have turn: "keyed K ks c'"
      if "cl_sessions c' = (cl_sessions c)[i := ?s\<lparr>ss_script := p\<rparr>]" "cl_db c' = ?d"
        "\<not> reserves (ks ! i) (ss_script ?s) \<or> reserves (ks ! i) p \<or> (\<exists>e. p = Finish (Inl e))"
        "\<nexists>e. ss_script ?s = Finish (Inl e)" for c' p
      by (rule go [OF on [OF that(3,4)] _ that(2,1)]) (use open_s in simp)
    have "keyed K ks (proceed env i c ?s (ss_script ?s))"
    proof (cases "ss_script ?s")
      case (Finish r)
      show ?thesis
      proof (cases r)
        case (Inl e)
        with Finish show ?thesis
          by simp (rule put, auto simp: keeps_key_def ended_def committed_def)
      next
        case (Inr x)
        with Finish show ?thesis using keyed_commit [OF assms i open_s] by simp
      qed
    next
      case (Now check k)
      have reserving: "reserves (ks ! i) (k t)" "check t = None" if "reserves (ks ! i) (ss_script ?s)" for t
        using that Now by (auto elim: reserves_Now)
      show ?thesis
      proof (cases "check (e_clock env (cl_clk c))")
        case None
        with Now reserving show ?thesis by (intro turn [of _ "k (e_clock env (cl_clk c))"]) (auto simp: Let_def)
      next
        case (Some e)
        with Now show ?thesis by (intro turn [of _ "Finish (Inl e)"]) (auto simp: Let_def)
      qed
    next
      case (Fresh k)
      then show ?thesis by (intro turn [of _ "k (e_uuid env (cl_ids c))"]) (auto elim: reserves_other)
    next
      case (Fetch k)
      then show ?thesis by (intro turn [of _ "k (ss_scope ?s) (view ?s ?d)"]) (auto elim: reserves_other)
    next
      case (Send stm h k)
      show ?thesis
      proof (cases "waits i (locks stm) (cl_sessions c)")
        case True
        with Send assms(1) show ?thesis by simp
      next
        case free: False
        show ?thesis
        proof (cases "perform stm (ss_scope ?s) (view ?s ?d)")
          case (Inl e)
          with Send free show ?thesis by (intro turn [of _ "Finish (Inl (h e))"]) auto
        next
          case (Inr d')
          let ?new = "?s\<lparr>ss_script := k, ss_log := ss_log ?s @ [stm]\<rparr>"
          have "ks ! i \<in> inserted_keys (ss_log ?s @ [stm]) \<and> ks ! i \<notin> keys_of ?d"
          proof (cases "reserves (ks ! i) (ss_script ?s)")
            case True
            with Send obtain r where r: "stm = Insert_Key r" "key_of_row r = ks ! i" by (auto elim: reserves_Send)
            with Inr have "ks ! i \<notin> keys_of (view ?s ?d)"
              by (auto simp: insert_idempotency_def bind_result_Inr_iff guard_row_Inr_iff keys_of_def key_of_row_def)
            with r(1) r(2) [symmetric] show ?thesis by (auto simp: inserted_keys_def keys_view)
          next
            case False
            with keeps open_s Send show ?thesis by (auto simp: keeps_key_def inserted_keys_def)
          qed
          then have "keeps_key K ?d (ks ! i) ?new" using open_s by (simp add: keeps_key_def)
          with Send free Inr open_s show ?thesis by (intro go [of ?new]) auto
        qed
      qed
    qed
    with True Proceed show ?thesis by simp
  qed (use Proceed assms(1) in auto)
qed

lemma keyed_schedule:
  assumes "keyed K ks c" "consistent (cl_db c) (cl_sessions c)"
  shows "keyed K ks (schedule env es c)"
  using assms unfolding schedule_def
proof (induction es arbitrary: c)
  case (Cons e es)
  then have "keyed K ks (happen env c e)" using keyed_happen by (auto simp: consistent_def)
  with Cons.IH consistent_happen [OF Cons.prems(2)] show ?case by (simp del: happen.simps)
qed simp

text \<open>C5: a key takes effect at most once even when its case commands overlap.  Of requests for the six commands
  that move a case (submit, resubmit, intake validation, document check, entering review, decision) that run side
  by side with the same tenant, operation and idempotency key, in whatever order their statements run, at most one
  commits, and none does if the key was committed before.\<close>

theorem overlapping_requests_at_most_once:
  assumes "case_inv d" "i < length rs" "j < length rs" "i \<noteq> j" "request_key (rs ! i) = request_key (rs ! j)"
  shows "\<not> (committed (cl_sessions (schedule env es (cluster_of d (map (request_script env) rs))) ! i) \<and>
      committed (cl_sessions (schedule env es (cluster_of d (map (request_script env) rs))) ! j)) \<and>
    (request_key (rs ! i) \<notin> keys_of d \<or> \<not> committed (cl_sessions (schedule env es (cluster_of d (map (request_script env) rs))) ! i))"
proof -
  let ?c = "cluster_of d (map (request_script env) rs)" and ?ks = "map request_key rs"
  have opened: "keeps_key (keys_of d) d (request_key r) (opened (request_script env r)) \<and> \<not> committed (opened (request_script env r))" for r
    using request_reserves [of r env] by (simp add: opened_def keeps_key_def committed_def case_prod_beta)
  then have "keyed (keys_of d) ?ks ?c" by (simp add: keyed_def cluster_of_def)
  from keyed_schedule [OF this requests_consistent [OF assms(1)]] have final: "keyed (keys_of d) ?ks (schedule env es ?c)" .
  with assms(2-5) have "\<not> (committed (cl_sessions (schedule env es ?c) ! i) \<and> committed (cl_sessions (schedule env es ?c) ! j))"
    by (simp add: keyed_def)
  moreover have "keeps_key (keys_of d) (cl_db (schedule env es ?c)) (request_key (rs ! i)) (cl_sessions (schedule env es ?c) ! i)"
    using final assms(2) by (simp add: keyed_def)
  then have "committed (cl_sessions (schedule env es ?c) ! i) \<Longrightarrow> request_key (rs ! i) \<notin> keys_of d"
    by (auto simp: keeps_key_def committed_def)
  ultimately show ?thesis by blast
qed

abbreviation same_submissions :: "unit cluster" where
  "same_submissions \<equiv> cluster_of drafted_db
     (map (request_script sample_env) [Submitting (sample_submit ''k1''), Submitting (sample_submit ''k1'')])"

lemma drafted_submits:
  "\<exists>a w'. move_and_attach sample_env ''submit_application'' submit (sample_submit ''k1'')
     \<lparr>w_db = drafted_db, w_sess = drafted_db, w_scope = DEMO_TENANT_ID, w_done = False, w_ids = 0, w_clk = n, w_ext = ()\<rparr> = (Inr a, w')"
  using valid_demo
  apply (simp add: walk_simps move_and_attach_def submit_def attach_workflow_def sample_submit_def drafted_db_def initial_db_def)
  apply (simp add: walked_row_def new_id_inject)
  done

theorem overlapping_requests_at_most_once_witness:
  "\<exists>es. committed (cl_sessions (schedule sample_env (Proceed 1 # es) same_submissions) ! 0) \<and>
     \<not> committed (cl_sessions (schedule sample_env (Proceed 1 # es) same_submissions) ! 1)"
proof -
  let ?submit = "attach_script sample_env ''submit_application'' submit (sample_submit ''k1'')"
  define s where "s = opened (request_script sample_env (Submitting (sample_submit ''k1'')))"
  define c where "c = happen sample_env same_submissions (Proceed 1)"
  have "\<exists>p. cl_sessions c = [s, s\<lparr>ss_script := p\<rparr>] \<and> cl_db c = drafted_db \<and> cl_ids c = 0 \<and> cl_clk c = 1"
    by (simp add: c_def s_def cluster_of_def opened_def Overlap.silent_def attach_script_def reserve_script_def Let_def case_prod_beta)
  then obtain p where c: "cl_sessions c = [s, s\<lparr>ss_script := p\<rparr>]" "cl_db c = drafted_db" "cl_ids c = 0" "cl_clk c = 1" by blast
  have s: "ss_script s = Overlap.silent ?submit" "\<not> ss_ended s" "ss_log s = []" "ss_scope s = DEMO_TENANT_ID"
    by (simp_all add: s_def opened_def sample_submit_def)
  obtain a w' where "move_and_attach sample_env ''submit_application'' submit (sample_submit ''k1'')
      \<lparr>w_db = drafted_db, w_sess = drafted_db, w_scope = DEMO_TENANT_ID, w_done = False, w_ids = 0, w_clk = 1, w_ext = ()\<rparr> = (Inr a, w')"
    using drafted_submits by blast
  then have run: "alone sample_env (Overlap.silent ?submit)
      \<lparr>w_db = drafted_db, w_sess = drafted_db, w_scope = DEMO_TENANT_ID, w_done = False, w_ids = 0, w_clk = 1, w_ext = ()\<rparr> = (Inr (), w')"
    by (simp add: silent_def alone_andthen scripts_alone [THEN conjunct1] bnd_run)
  have "\<exists>c'. turns sample_env 0 c c' \<and> cl_sessions c' = (cl_sessions c)[0 := ended (Inr ()) s] \<and>
      cl_db c' = (case Inr () of Inl (_ :: py_error) \<Rightarrow> cl_db c | Inr _ \<Rightarrow> w_sess w')"
    by (rule solo_run [OF _ _ s(2,1) _ run]) (auto simp: c s view_def less_Suc_eq)
  then obtain n where "cl_sessions (schedule sample_env (replicate n (Proceed 0)) c) = (cl_sessions c)[0 := ended (Inr ()) s]"
    by (auto simp: turns_def)
  then have first: "committed (cl_sessions (schedule sample_env (Proceed 1 # replicate n (Proceed 0)) same_submissions) ! 0)"
    unfolding schedule_Cons c_def [symmetric] by (simp add: c committed_def ended_def)
  have "\<not> (committed (cl_sessions (schedule sample_env (Proceed 1 # replicate n (Proceed 0)) same_submissions) ! 0) \<and>
      committed (cl_sessions (schedule sample_env (Proceed 1 # replicate n (Proceed 0)) same_submissions) ! 1))"
    by (rule overlapping_requests_at_most_once [OF drafted_case_inv, THEN conjunct1]) simp_all
  with first show ?thesis by blast
qed

end
