(* ===== verification/Stored_Rows.thy ===== *)
theory Stored_Rows
  imports Engagement
begin

text \<open>
  Stored cases are well typed: whatever was requested, relayed or consumed, every row of the
  applications table is one that \<open>row_to_application\<close> turns back into an aggregate, so loading a case
  never fails on its data.  Tenant identifiers are only ever referenced, never written, by the code,
  so their form is a hypothesis.
\<close>

definition readable :: "application_row \<Rightarrow> bool" where
  "readable r \<longleftrightarrow> valid_uuid (ap_id r) \<and> valid_uuid (ap_applicant r) \<and> valid_uuid (ap_product r) \<and>
     ap_currency r \<in> set SUPPORTED_CURRENCIES \<and> fits_numeric (ap_amount r) \<and> ap_status r \<in> range status_value"

definition all_readable :: "db \<Rightarrow> bool" where
  "all_readable d \<longleftrightarrow> list_all readable (db_applications d)"

lemma fits_numeric_quantize: "fits_numeric q \<Longrightarrow> dec_quantize q (- 2) = Inr q"
proof (cases q)
  case (Finite neg c e)
  assume "fits_numeric q"
  with Finite have c: "e = - 2" "c < 10 ^ 18" by simp_all
  have "(10 :: nat) ^ 18 \<le> 10 ^ decimal_precision" by (rule power_increasing) (simp_all add: decimal_precision_def)
  with c Finite dec_quantize_same [of c neg e] show ?thesis by simp
qed simp_all

lemma readable_reads:
  assumes "readable r" "valid_uuid (ap_tenant r)"
  shows "\<exists>a. row_to_application r = Inr a"
proof -
  from assms(1) obtain s where "ap_status r = status_value s" by (auto simp: readable_def)
  with assms fits_numeric_quantize [of "ap_amount r"] show ?thesis
    by (simp add: readable_def row_to_application_def mk_Money_supported status_of_value_value)
qed

lemma case_part_readable: "case_part d = case_part d' \<Longrightarrow> all_readable d \<longleftrightarrow> all_readable d'"
  by (simp add: case_part_def all_readable_def)

lemma keeps_readable_leaves: "leaves case_part m \<Longrightarrow> keeps all_readable m"
  using keeps_leaves [OF _ case_part_readable] .

lemma keeps_bnd_run:
  "keeps I m \<Longrightarrow> (\<And>x w w'. m w = (Inr x, w') \<Longrightarrow> keeps I (f x)) \<Longrightarrow> keeps I (bnd m f)"
  unfolding keeps_def by (auto elim!: bnd_InrE)

lemma readable_saved: "readable r \<Longrightarrow> fits_numeric (amount (app_amount b)) \<Longrightarrow> readable (saved_row b r)"
  by (simp add: readable_def saved_row_def)

lemma readable_update:
  assumes "list_all readable rows" "fits_numeric (amount (app_amount b))"
  shows "list_all readable (tbl_update ap_id k (\<lambda>r. if ap_tenant r = t then saved_row b r else r) rows)"
  using assms(1) by (induction rows) (simp_all add: readable_saved assms(2))

lemma keeps_readable_save: "keeps all_readable (application_save env b)"
proof (rule keepsI)
  fix w :: "'x world" and y w'
  assume run: "application_save env b w = (Inr y, w')" and inv: "all_readable (w_sess w)"
  from run have "fits_numeric (amount (app_amount b))"
    by (auto simp: application_save_def get_application_row_def Let_def update_application_def guard_row_def
        application_row_fits_def saved_row_def bind_result_Inr_iff elim!: bnd_InrE execute_InrE split: option.splits if_splits)
  with inv application_save_rows(2) [OF run] readable_update show "all_readable (w_sess w')" by (simp add: all_readable_def)
qed

lemma keeps_readable_add:
  assumes "valid_uuid (app_id a)" "valid_uuid (app_applicant a)" "valid_uuid (app_product a)"
    "currency (app_amount a) \<in> set SUPPORTED_CURRENCIES"
  shows "keeps all_readable (application_add env a)"
proof (rule keepsI)
  fix w :: "'x world" and y w'
  assume run: "application_add env a w = (Inr y, w')" and inv: "all_readable (w_sess w)"
  from run have "fits_numeric (amount (app_amount a))"
    by (auto simp: application_add_def try_except_def insert_application_def guard_row_def application_row_fits_def
        application_to_row_def bind_result_Inr_iff elim!: bnd_InrE execute_InrE split: sum.splits prod.splits py_error.splits if_splits)
  with assms have "readable (application_to_row a)" by (simp add: readable_def application_to_row_def)
  with inv application_add_rows [OF run] show "all_readable (w_sess w')" by (simp add: all_readable_def)
qed

lemma row_to_product_typed:
  assumes "row_to_product r = Inr p"
  shows "valid_uuid (prod_id p) \<and> prod_currency p \<in> set SUPPORTED_CURRENCIES"
proof -
  from assms obtain lo hi where parts: "valid_uuid (pr_id r)" "mk_Money (pr_min_amount r) (pr_currency r) = Inr lo"
    "mk_Product \<lparr>prod_id = pr_id r, prod_code = pr_code r, prod_name = pr_name r, prod_currency = pr_currency r,
       prod_min_amount = lo, prod_max_amount = hi, prod_min_term = pr_min_term r, prod_max_term = pr_max_term r,
       prod_is_active = pr_is_active r\<rparr> = Inr p"
    unfolding row_to_product_def by (auto simp: bind_result_Inr_iff)
  from parts(1) mk_Money_Inr(1) [OF parts(2)] mk_Product_Inr [OF parts(3)] show ?thesis by simp
qed

lemma product_get_typed:
  assumes "product_get q w = (Inr (Some p), w')"
  shows "valid_uuid (prod_id p) \<and> prod_currency p \<in> set SUPPORTED_CURRENCIES"
proof -
  from assms obtain r where "row_to_product r = Inr p"
    by (auto simp: product_get_def elim!: bnd_InrE split: option.splits)
  then show ?thesis by (rule row_to_product_typed)
qed

lemma accepts_currency: "accepts p m n = Inr True \<Longrightarrow> currency m = prod_currency p"
  by (simp add: accepts_def split: if_splits)

lemma create_fields:
  "create k t p q m n now = Inr a \<Longrightarrow> app_id a = k \<and> app_applicant a = p \<and> app_product a = prod_id q \<and> app_amount a = m"
  by (auto simp: create_def bind_result_Inr_iff)

lemma keeps_readable_operations [keeps_intros]:
  "keeps all_readable (reserve_or_raise env t k op)" "keeps all_readable (applicant_add env p)"
  "keeps all_readable (document_add d)" "keeps all_readable (review_add e)" "keeps all_readable (publish env a)"
  "keeps all_readable (record_domain_events env es)" "keeps all_readable (mark_decided t k dec rea rvw now)"
  "keeps all_readable (add_extraction_run run t k doc cl fs ids now)"
  "keeps all_readable (add_verification_run env run t k cs cids ss sids now)"
  "keeps all_readable (application_save env b)"
  by (rule keeps_readable_leaves, intro leaves_intros)+ (rule keeps_readable_save)

lemma keeps_readable_moves [keeps_intros]:
  "keeps all_readable (save_and_move env s reason a)" "keeps all_readable (enter_human_review env reason a)"
  unfolding save_and_move_def enter_human_review_def Let_def by (intro keeps_intros)+

lemma create_steps:
  "(case opt of None \<Rightarrow> Inl e | Some x \<Rightarrow> Inr x) = Inr y \<longleftrightarrow> opt = Some y"
  "(if \<not> ok then Inl e else Inr ()) = Inr u \<longleftrightarrow> ok"
  "mk_Applicant p = Inr q \<Longrightarrow> q = p"
  by (auto simp: mk_Applicant_def split: option.splits if_splits)

lemma keeps_readable_create: "keeps all_readable (create_application_body env c)"
  unfolding create_application_body_def
proof (intro keeps_bnd_run keeps_primitives keeps_queries keeps_readable_operations keeps_readable_add)
qed (auto simp: create_steps(1,2) dest!: create_fields product_get_typed accepts_currency create_steps(3) elim!: at_now_InrE)

lemma keeps_readable_bodies:
  "keeps all_readable (move_and_attach env op move c)" "keeps all_readable (advance_intake_body env c)"
  "keeps all_readable (advance_documents_body env c)" "keeps all_readable (enter_review_body env rc)"
  "keeps all_readable (apply_decision_body env dc)"
  unfolding move_and_attach_def advance_intake_body_def advance_documents_body_def enter_review_body_def
    apply_decision_body_def Let_def
  by (intro keeps_intros)+

lemma keeps_readable_document_bodies:
  fixes ports :: "'x document_ports" and vf :: "'x verifiers"
  shows "keeps all_readable (upload_body env ports uc)" "keeps all_readable (process_body env ports pc)"
    "keeps all_readable (verify_body env vf c)"
  unfolding upload_body_def upload_checks_def upload_store_def process_body_def verify_body_def Let_def
  by (rule keeps_readable_leaves, intro leaves_intros)+

lemma keeps_readable_core: "keeps all_readable (core d r)"
  by (cases r) (simp_all add: core_def discard_frames(3) keeps_readable_create keeps_readable_bodies keeps_readable_document_bodies)

lemma reachable_readable: "reachable s w \<Longrightarrow> all_readable (w_db w)"
proof (induction rule: reachable.induct)
  case (start w now)
  then show ?case by (simp add: all_readable_def initial_db_def)
next
  case (step w w')
  have "all_readable d \<longleftrightarrow> all_readable d'" if "kept_part d = kept_part d'" for d d'
    using that by (intro case_part_readable) (simp add: kept_part_def case_part_def)
  with step show ?case using system_step_keeps [where I = all_readable] keeps_readable_core by blast
qed

text \<open>C27: stored cases are well typed.  In every reachable state, every stored case of a tenant with a
  well-formed identifier reads back as an aggregate, with the row's identifiers, status and version
  and its amount to the cent: no request ever stores a row on which a later one would fail.\<close>

theorem stored_cases_read_back:
  assumes "reachable s w" "r \<in> set (db_applications (w_db w))" "valid_uuid (ap_tenant r)"
  shows "\<exists>a. row_to_application r = Inr a \<and> agrees a r \<and> amount (app_amount a) = ap_amount r \<and>
    quantised (amount (app_amount a))"
proof -
  have r: "readable r" using reachable_readable [OF assms(1)] assms(2) by (simp add: all_readable_def list_all_iff)
  from readable_reads [OF r assms(3)] obtain a where a: "row_to_application r = Inr a" by blast
  then have "mk_Money (ap_amount r) (ap_currency r) = Inr (app_amount a)"
    by (auto simp: row_to_application_def bind_result_Inr_iff split: option.splits)
  from mk_Money_Inr(2) [OF this] fits_numeric_quantize r have "amount (app_amount a) = ap_amount r"
    by (simp add: readable_def)
  moreover have "quantised (ap_amount r)" using r fits_numeric_quantize quantised_quantize by (auto simp: readable_def)
  ultimately show ?thesis using a row_to_application_agrees [OF a] by auto
qed

theorem stored_cases_read_back_witness:
  "\<exists>w r a. reachable sample_system w \<and> db_applications (w_db w) = [r] \<and> ap_status r = ''APPROVED'' \<and>
    row_to_application r = Inr a \<and> app_status a = APPROVED \<and> agrees a r"
proof -
  obtain w ops updated flow where w: "reachable sample_system w" "db_applications (w_db w) = [walked_row APPROVED 6 updated flow]"
    using walk_to_approval unfolding case_world_def by metis
  let ?r = "walked_row APPROVED 6 updated flow"
  have "valid_uuid (ap_tenant ?r)" using valid_demo by (simp add: walked_row_def)
  from stored_cases_read_back [OF w(1) _ this] w(2) obtain a where a: "row_to_application ?r = Inr a" "agrees a ?r" by auto
  then have "app_status a = APPROVED" by (simp add: agrees_def walked_row_def status_value_inject del: status_value.simps)
  with w a show ?thesis by (intro exI conjI) (simp_all add: walked_row_def)
qed

end
