(* ===== verification/Worker.thy ===== *)
theory Worker
  imports Composition Walkthrough
begin

text \<open>
  The worker process, \<open>apps/worker/main.py\<close>: the supervisor that restarts a failed task, and the
  outbox-relay task with the producer of \<open>kafka/producer.py\<close>.  The stop event and the passing of time
  are parameters: \<open>stopped\<close> reads the event, \<open>pause\<close> waits for it at most so many seconds.  A loop
  that never notices the event has the value \<open>None\<close>.  The other two
  tasks and the process that starts them are in \<open>Worker_Process\<close>.
\<close>

record 'x event_loop =
  stopped :: "'x \<Rightarrow> bool"
  pause :: "rat \<Rightarrow> 'x \<Rightarrow> 'x"

definition RETRY_BACKOFF_SECONDS :: rat where
  "RETRY_BACKOFF_SECONDS = 5"

subsection \<open>The producer\<close>

record 'x kafka =
  kf_start :: "'x \<Rightarrow> (py_error + unit) \<times> 'x"
  kf_stop :: "'x \<Rightarrow> (py_error + unit) \<times> 'x"
  kf_send_and_wait :: "string \<Rightarrow> string \<Rightarrow> string \<Rightarrow> 'x \<Rightarrow> (py_error + unit) \<times> 'x"
  kf_partitions_for :: "string \<Rightarrow> 'x \<Rightarrow> (py_error + unit) \<times> 'x"

text \<open>The producer's state is whether it was started; each operation returns the new value.\<close>

definition producer_ensure_ready :: "'x kafka \<Rightarrow> bool \<Rightarrow> ('x, bool) call" where
  "producer_ensure_ready k started = (if started then ret True else bnd (kf_start k) (\<lambda>_. ret True))"

definition producer_check_connectivity :: "'x kafka \<Rightarrow> string \<Rightarrow> ('x, unit) call" where
  "producer_check_connectivity k topic = kf_partitions_for k topic"

definition producer_publish :: "'x kafka \<Rightarrow> string \<Rightarrow> string \<Rightarrow> string \<Rightarrow> ('x, unit) call" where
  "producer_publish k topic key v = kf_send_and_wait k topic v key"

definition producer_close :: "'x kafka \<Rightarrow> bool \<Rightarrow> ('x, bool) call" where
  "producer_close k started = (if started then bnd (kf_stop k) (\<lambda>_. ret False) else ret False)"

definition producer_broker :: "'x kafka \<Rightarrow> string \<Rightarrow> (outbox_row list \<Rightarrow> outbox_row list) \<Rightarrow> 'x broker" where
  "producer_broker k topic order_by = \<lparr>br_publish = producer_publish k topic, br_order = order_by\<rparr>"

subsection \<open>The loops\<close>

partial_function (option) relay_loop ::
  "'x event_loop \<Rightarrow> 'x system \<Rightarrow> rat \<Rightarrow> 'x world \<Rightarrow> ((py_error + unit) \<times> 'x world) option" where
  "relay_loop ev s interval w =
     (if stopped ev (w_ext w) then Some (Inr (), w)
      else case relay_once (dep_env (sys_deployment s)) (sys_broker s) (sys_batch_size s) w of
        (Inl e, w1) \<Rightarrow> Some (Inl e, w1)
      | (Inr n, w1) \<Rightarrow> relay_loop ev s interval (w1\<lparr>w_ext := pause ev interval (w_ext w1)\<rparr>))"

text \<open>\<open>_run_outbox_relay\<close>: whatever ends the loop, the producer is closed.\<close>

definition run_outbox_relay ::
  "'x event_loop \<Rightarrow> 'x kafka \<Rightarrow> 'x system \<Rightarrow> rat \<Rightarrow> 'x world \<Rightarrow> ((py_error + unit) \<times> 'x world) option" where
  "run_outbox_relay ev k s interval w =
     (case external (producer_ensure_ready k False) w of
        (Inl e, w1) \<Rightarrow> Some (Inl e, w1)
      | (Inr started, w1) \<Rightarrow>
          Option.bind (relay_loop ev s interval w1) (\<lambda>(r, w2).
            case external (producer_close k started) w2 of
              (Inl e, w3) \<Rightarrow> Some (Inl e, w3)
            | (Inr _, w3) \<Rightarrow> Some (r, w3)))"

partial_function (option) run_with_retry ::
  "'x event_loop \<Rightarrow> ('x world \<Rightarrow> ((py_error + unit) \<times> 'x world) option) \<Rightarrow> 'x world \<Rightarrow> 'x world option" where
  "run_with_retry ev run_once w =
     (if stopped ev (w_ext w) then Some w
      else Option.bind (run_once w) (\<lambda>(r, w1).
        case r of
          Inr _ \<Rightarrow> Some w1
        | Inl e \<Rightarrow>
            if stopped ev (w_ext w1) then Some w1
            else run_with_retry ev run_once (w1\<lparr>w_ext := pause ev RETRY_BACKOFF_SECONDS (w_ext w1)\<rparr>)))"

definition relay_worker :: "'x event_loop \<Rightarrow> 'x kafka \<Rightarrow> 'x system \<Rightarrow> rat \<Rightarrow> 'x world \<Rightarrow> 'x world option" where
  "relay_worker ev k s interval = run_with_retry ev (run_outbox_relay ev k s interval)"

subsection \<open>Everything the worker does is a run of the system\<close>

lemma reachable_outside: "reachable s w \<Longrightarrow> w_db w' = w_db w \<Longrightarrow> reachable s w'"
  using reachable.step system_step.outside by blast

lemma external_db: "external f w = (r, w') \<Longrightarrow> w_db w' = w_db w"
  by (auto simp: external_def split: prod.splits)

lemma relay_loop_reachable:
  assumes "relay_loop ev s interval w = Some rw"
  shows "reachable s w \<longrightarrow> reachable s (snd rw)"
proof (rule relay_loop.raw_induct [where P = "\<lambda>ev s interval w rw. reachable s w \<longrightarrow> reachable s (snd rw)", OF _ assms])
  fix loop ev s interval w and rw :: "(py_error + unit) \<times> 'a world"
  assume IH: "\<And>ev s interval w rw. loop ev s interval w = Some rw \<Longrightarrow> reachable s w \<longrightarrow> reachable s (snd rw)"
    and run: "(if stopped ev (w_ext w) then Some (Inr (), w)
      else case relay_once (dep_env (sys_deployment s)) (sys_broker s) (sys_batch_size s) w of
        (Inl e, w1) \<Rightarrow> Some (Inl e, w1)
      | (Inr n, w1) \<Rightarrow> loop ev s interval (w1\<lparr>w_ext := pause ev interval (w_ext w1)\<rparr>)) = Some rw"
  show "reachable s w \<longrightarrow> reachable s (snd rw)"
  proof (cases "stopped ev (w_ext w)")
    case False
    obtain r w1 where sweep: "relay_once (dep_env (sys_deployment s)) (sys_broker s) (sys_batch_size s) w = (r, w1)"
      by (rule that [OF prod.collapse [symmetric]])
    have w1: "reachable s w \<Longrightarrow> reachable s w1" using reachable.step [OF _ system_step.relay [OF sweep]] .
    then have later: "reachable s w \<Longrightarrow> reachable s (w1\<lparr>w_ext := x\<rparr>)" for x using reachable_outside [of s w1 "w1\<lparr>w_ext := x\<rparr>"] by simp
    show ?thesis
    proof (cases r)
      case (Inl e)
      with run False sweep w1 show ?thesis by auto
    next
      case (Inr n)
      with run False sweep have "loop ev s interval (w1\<lparr>w_ext := pause ev interval (w_ext w1)\<rparr>) = Some rw" by simp
      from IH [OF this] later show ?thesis by blast
    qed
  qed (use run in auto)
qed

lemma run_outbox_relay_reachable:
  assumes "run_outbox_relay ev k s interval w = Some (r, w')" "reachable s w"
  shows "reachable s w'"
proof -
  obtain r0 w1 where start: "external (producer_ensure_ready k False) w = (r0, w1)" by fastforce
  have w1: "reachable s w1" using reachable_outside [OF assms(2) external_db [OF start]] .
  show ?thesis
  proof (cases r0)
    case (Inr started)
    with assms(1) start obtain r2 w2 where loop: "relay_loop ev s interval w1 = Some (r2, w2)"
      and last: "(case external (producer_close k started) w2 of (Inl e, w3) \<Rightarrow> Some (Inl e, w3) | (Inr _, w3) \<Rightarrow> Some (r2, w3)) = Some (r, w')"
      by (auto simp: run_outbox_relay_def split: bind_splits)
    have "reachable s w2" using relay_loop_reachable [OF loop] w1 by simp
    obtain r3 w3 where close: "external (producer_close k started) w2 = (r3, w3)" by fastforce
    with last have "w' = w3" by (cases r3) auto
    with reachable_outside [OF \<open>reachable s w2\<close> external_db [OF close]] show ?thesis by simp
  qed (use assms(1) start w1 in \<open>auto simp: run_outbox_relay_def\<close>)
qed

lemma run_with_retry_reachable:
  assumes "run_with_retry ev run_once w = Some w'"
  shows "(\<forall>w r w'. run_once w = Some (r, w') \<longrightarrow> reachable s w \<longrightarrow> reachable s w') \<longrightarrow> reachable s w \<longrightarrow> reachable s w'"
proof (rule run_with_retry.raw_induct [where P = "\<lambda>ev run_once w w'. (\<forall>w r w'. run_once w = Some (r, w') \<longrightarrow>
      reachable s w \<longrightarrow> reachable s w') \<longrightarrow> reachable s w \<longrightarrow> reachable s w'", OF _ assms])
  fix loop ev and run_once :: "'a world \<Rightarrow> ((py_error + unit) \<times> 'a world) option" and w w'
  assume IH: "\<And>ev run_once w w'. loop ev run_once w = Some w' \<Longrightarrow>
      (\<forall>w r w'. run_once w = Some (r, w') \<longrightarrow> reachable s w \<longrightarrow> reachable s w') \<longrightarrow> reachable s w \<longrightarrow> reachable s w'"
    and run: "(if stopped ev (w_ext w) then Some w
      else Option.bind (run_once w) (\<lambda>(r, w1). case r of Inr _ \<Rightarrow> Some w1 | Inl e \<Rightarrow>
        if stopped ev (w_ext w1) then Some w1
        else loop ev run_once (w1\<lparr>w_ext := pause ev RETRY_BACKOFF_SECONDS (w_ext w1)\<rparr>))) = Some w'"
  show "(\<forall>w r w'. run_once w = Some (r, w') \<longrightarrow> reachable s w \<longrightarrow> reachable s w') \<longrightarrow> reachable s w \<longrightarrow> reachable s w'"
  proof (cases "stopped ev (w_ext w)")
    case False
    with run obtain r w1 where once: "run_once w = Some (r, w1)"
      and rest: "(case r of Inr _ \<Rightarrow> Some w1 | Inl e \<Rightarrow> if stopped ev (w_ext w1) then Some w1
        else loop ev run_once (w1\<lparr>w_ext := pause ev RETRY_BACKOFF_SECONDS (w_ext w1)\<rparr>)) = Some w'"
      by (auto split: bind_splits)
    show ?thesis
    proof (intro impI)
      assume runs: "\<forall>w r w'. run_once w = Some (r, w') \<longrightarrow> reachable s w \<longrightarrow> reachable s w'" and w: "reachable s w"
      from runs once w have w1: "reachable s w1" by blast
      have later: "reachable s (w1\<lparr>w_ext := x\<rparr>)" for x by (rule reachable_outside [OF w1]) simp
      show "reachable s w'"
      proof (cases "isl r \<and> \<not> stopped ev (w_ext w1)")
        case True
        with rest have "loop ev run_once (w1\<lparr>w_ext := pause ev RETRY_BACKOFF_SECONDS (w_ext w1)\<rparr>) = Some w'" by (cases r) auto
        from IH [OF this] runs later show ?thesis by blast
      next
        case False
        with rest w1 show ?thesis by (cases r) auto
      qed
    qed
  qed (use run in auto)
qed

subsection \<open>The worker stops\<close>

text \<open>What is relied on: a wait ends with the stop event set or with less patience left before somebody sets
  it, and no call to the broker clears the event or adds patience.\<close>

definition no_slower :: "'x event_loop \<Rightarrow> ('x \<Rightarrow> nat) \<Rightarrow> 'x \<Rightarrow> 'x \<Rightarrow> bool" where
  "no_slower ev patience x x' \<longleftrightarrow> (stopped ev x \<longrightarrow> stopped ev x') \<and> patience x' \<le> patience x"

definition will_stop :: "'x event_loop \<Rightarrow> 'x kafka \<Rightarrow> 'x broker \<Rightarrow> ('x \<Rightarrow> nat) \<Rightarrow> bool" where
  "will_stop ev k br patience \<longleftrightarrow>
     (\<forall>t x. patience (pause ev t x) \<le> patience x \<and> (stopped ev (pause ev t x) \<or> patience (pause ev t x) < patience x)) \<and>
     (\<forall>x. no_slower ev patience x (snd (kf_start k x))) \<and> (\<forall>x. no_slower ev patience x (snd (kf_stop k x))) \<and>
     (\<forall>key v x. no_slower ev patience x (snd (br_publish br key v x)))"

lemma no_slower_order: "reflp (no_slower ev p)" "transp (no_slower ev p)"
  by (auto simp: reflp_def transp_def no_slower_def)

abbreviation patient :: "'x event_loop \<Rightarrow> ('x \<Rightarrow> nat) \<Rightarrow> ('x, 'a) handler \<Rightarrow> bool" where
  "patient ev p m \<equiv> stays (\<lambda>w w'. no_slower ev p (w_ext w) (w_ext w')) m"

lemma patient_order:
  "reflp (\<lambda>w w'. no_slower ev p (w_ext w) (w_ext w'))" "transp (\<lambda>w w'. no_slower ev p (w_ext w) (w_ext w'))"
  using no_slower_order [of ev p] by (auto simp: reflp_def transp_def)

lemma patient_silent: "silent m \<Longrightarrow> patient ev p m"
  using no_slower_order(1) [of ev p] by (auto simp: stays_def reflp_def)

lemma patient_with_uow: "patient ev p m \<Longrightarrow> patient ev p (with_uow t m)"
  unfolding stays_def
proof
  fix w assume m: "\<forall>w. no_slower ev p (w_ext w) (w_ext (snd (m w)))"
  obtain r w1 where run: "m (aenter t w) = (r, w1)" by (rule that [OF prod.collapse [symmetric]])
  from m [rule_format, of "aenter t w"] run show "no_slower ev p (w_ext w) (w_ext (snd (with_uow t m w)))"
    by (simp add: with_uow_def aexit_def Let_def)
qed

lemma patient_relay_once:
  assumes "will_stop ev k br p"
  shows "patient ev p (relay_once env br n)"
proof -
  note rules = stays_bnd [OF patient_order(2)] stays_map_each [OF patient_order] stays_refl_steps [OF patient_order(1)]
  have "patient ev p (external (br_publish br key v))" for key v
    using assms by (auto simp: stays_def external_def will_stop_def split: prod.splits) (metis snd_conv)
  moreover have "patient ev p commit"
    by (rule patient_silent) (simp add: stays_def commit_def)
  ultimately show ?thesis
    unfolding relay_once_def relay_tenant_batch_def list_tenant_ids_def transaction_def relay_body_def relay_row_def
    by (intro rules patient_with_uow patient_silent [OF silent_primitives(1)] patient_silent [OF silent_primitives(4)]
        patient_silent [OF silent_primitives(5)])
qed

lemma patience_after:
  assumes "patient ev p m" "m w = (r, w')"
  shows "p (w_ext w') \<le> p (w_ext w)" "stopped ev (w_ext w) \<Longrightarrow> stopped ev (w_ext w')"
  using staysD [OF assms] by (auto simp: no_slower_def)

text \<open>The loop ends, with an error or because the event was set.\<close>

lemma relay_loop_ends:
  assumes "will_stop ev k (sys_broker s) p"
  shows "\<exists>r w'. relay_loop ev s interval w = Some (r, w') \<and> p (w_ext w') \<le> p (w_ext w) \<and> (r = Inr () \<longrightarrow> stopped ev (w_ext w'))"
proof (induction "if stopped ev (w_ext w) then 0 else Suc (p (w_ext w))" arbitrary: w rule: less_induct)
  case less
  show ?case
  proof (cases "stopped ev (w_ext w)")
    case True
    then show ?thesis by (simp add: relay_loop.simps)
  next
    case False
    obtain r w1 where sweep: "relay_once (dep_env (sys_deployment s)) (sys_broker s) (sys_batch_size s) w = (r, w1)"
      by (rule that [OF prod.collapse [symmetric]])
    note after = patience_after [OF patient_relay_once [OF assms] sweep]
    show ?thesis
    proof (cases r)
      case (Inl e)
      with False sweep after(1) show ?thesis by (simp add: relay_loop.simps)
    next
      case (Inr n)
      let ?w2 = "w1\<lparr>w_ext := pause ev interval (w_ext w1)\<rparr>"
      have step: "p (w_ext ?w2) \<le> p (w_ext w1)" "stopped ev (w_ext ?w2) \<or> p (w_ext ?w2) < p (w_ext w1)"
        using assms by (simp_all add: will_stop_def)
      then have "(if stopped ev (w_ext ?w2) then 0 else Suc (p (w_ext ?w2))) < (if stopped ev (w_ext w) then 0 else Suc (p (w_ext w)))"
        using False after(1) by auto
      from less [OF this] obtain r' w' where rec: "relay_loop ev s interval ?w2 = Some (r', w')"
        "p (w_ext w') \<le> p (w_ext ?w2)" "r' = Inr () \<longrightarrow> stopped ev (w_ext w')" by blast
      have "relay_loop ev s interval w = Some (r', w')" using False sweep Inr rec(1) by (subst relay_loop.simps) simp
      with rec(2,3) step(1) after(1) show ?thesis by (meson order_trans)
    qed
  qed
qed

lemma run_outbox_relay_ends:
  assumes "will_stop ev k (sys_broker s) p"
  shows "\<exists>r w'. run_outbox_relay ev k s interval w = Some (r, w') \<and> p (w_ext w') \<le> p (w_ext w) \<and>
    (r = Inr () \<longrightarrow> stopped ev (w_ext w'))"
proof -
  note rules = stays_bnd [OF no_slower_order(2)] stays_refl_steps [OF no_slower_order(1)] stays_if
  have calls: "stays (no_slower ev p) (kf_start k)" "stays (no_slower ev p) (kf_stop k)"
    using assms by (simp_all add: will_stop_def stays_def)
  have outer: "patient ev p (external m)" if "stays (no_slower ev p) m" for m :: "'a \<Rightarrow> (py_error + bool) \<times> 'a"
    using that by (auto simp: stays_def external_def split: prod.splits) (metis snd_conv)
  have handlers: "patient ev p (external (producer_ensure_ready k False))" "patient ev p (external (producer_close k b))" for b
    unfolding producer_ensure_ready_def producer_close_def by (rule outer, intro rules calls)+
  obtain r0 w1 where start: "external (producer_ensure_ready k False) w = (r0, w1)" by (rule that [OF prod.collapse [symmetric]])
  note p1 = patience_after(1) [OF handlers(1) start]
  show ?thesis
  proof (cases r0)
    case (Inl e)
    with start p1 show ?thesis by (simp add: run_outbox_relay_def)
  next
    case (Inr started)
    from relay_loop_ends [OF assms, of interval w1] obtain r2 w2 where loop: "relay_loop ev s interval w1 = Some (r2, w2)"
      "p (w_ext w2) \<le> p (w_ext w1)" "r2 = Inr () \<longrightarrow> stopped ev (w_ext w2)" by blast
    obtain r3 w3 where close: "external (producer_close k started) w2 = (r3, w3)" by (rule that [OF prod.collapse [symmetric]])
    note p3 = patience_after [OF handlers(2) close]
    show ?thesis
      using start Inr loop close p1 p3 by (cases r3) (auto simp: run_outbox_relay_def)
  qed
qed

text \<open>A supervised task whose every run ends, unless by noticing the event with an error that costs no patience.\<close>

lemma run_with_retry_ends:
  fixes p :: "'x \<Rightarrow> nat"
  assumes pause: "\<And>t x. stopped ev (pause ev t x) \<or> p (pause ev t x) < p x"
    and once: "\<And>w. \<exists>r w'. run_once w = Some (r, w') \<and> (stopped ev (w_ext w') \<or> isl r \<and> p (w_ext w') \<le> p (w_ext w))"
  shows "\<exists>w'. run_with_retry ev run_once w = Some w' \<and> stopped ev (w_ext w')"
proof (induction "if stopped ev (w_ext w) then 0 else Suc (p (w_ext w))" arbitrary: w rule: less_induct)
  case less
  show ?case
  proof (cases "stopped ev (w_ext w)")
    case True
    then show ?thesis by (simp add: run_with_retry.simps)
  next
    case False
    from once [of w] obtain r w1 where run: "run_once w = Some (r, w1)"
      "stopped ev (w_ext w1) \<or> isl r \<and> p (w_ext w1) \<le> p (w_ext w)" by blast
    show ?thesis
    proof (cases "stopped ev (w_ext w1)")
      case True
      with False run show ?thesis by (cases r) (simp_all add: run_with_retry.simps [of ev run_once w])
    next
      case still: False
      with run(2) obtain e where e: "r = Inl e" "p (w_ext w1) \<le> p (w_ext w)" by (cases r) auto
      let ?w2 = "w1\<lparr>w_ext := pause ev RETRY_BACKOFF_SECONDS (w_ext w1)\<rparr>"
      have "(if stopped ev (w_ext ?w2) then 0 else Suc (p (w_ext ?w2))) < (if stopped ev (w_ext w) then 0 else Suc (p (w_ext w)))"
        using False e(2) pause [of RETRY_BACKOFF_SECONDS "w_ext w1"] by auto
      from less [OF this] obtain w' where "run_with_retry ev run_once ?w2 = Some w'" "stopped ev (w_ext w')" by blast
      with False still e run(1) show ?thesis by (simp add: run_with_retry.simps [of ev run_once w])
    qed
  qed
qed

lemma relay_worker_ends:
  assumes "will_stop ev k (sys_broker s) p"
  shows "\<exists>w'. relay_worker ev k s interval w = Some w' \<and> stopped ev (w_ext w')"
  unfolding relay_worker_def
proof (rule run_with_retry_ends)
  show "stopped ev (pause ev t x) \<or> p (pause ev t x) < p x" for t x using assms by (simp add: will_stop_def)
  show "\<exists>r w'. run_outbox_relay ev k s interval w = Some (r, w') \<and> (stopped ev (w_ext w') \<or> isl r \<and> p (w_ext w') \<le> p (w_ext w))" for w
  proof -
    obtain r w' where run: "run_outbox_relay ev k s interval w = Some (r, w')" "p (w_ext w') \<le> p (w_ext w)" "r = Inr () \<longrightarrow> stopped ev (w_ext w')"
      using run_outbox_relay_ends [OF assms, of interval w] by blast
    then show ?thesis by (cases r) auto
  qed
qed

text \<open>The relay worker does its work inside the system and ends.  Whatever sweeps fail, whatever the
  broker answers, once the stop event is set within a bounded number of waits the worker returns, with
  the event set, and every state it went through the database with is a reachable one: its retries
  and restarts break no invariant and lose no event.\<close>

theorem relay_worker_stops:
  assumes "will_stop ev k (sys_broker s) patience" "reachable s w"
  shows "\<exists>w'. relay_worker ev k s interval w = Some w' \<and> stopped ev (w_ext w') \<and> reachable s w'"
proof -
  from relay_worker_ends [OF assms(1)] obtain w' where w': "relay_worker ev k s interval w = Some w'" "stopped ev (w_ext w')" by blast
  from run_with_retry_reachable [OF w'(1) [unfolded relay_worker_def]] run_outbox_relay_reachable assms(2)
  have "reachable s w'" by blast
  with w' show ?thesis by blast
qed

text \<open>A concrete worker: the outside is a countdown to the stop event, one second of waiting takes it down by
  one, and Kafka cannot be reached before the countdown stands at one.\<close>

definition countdown :: "nat event_loop" where
  "countdown = \<lparr>stopped = (\<lambda>x. x = 0), pause = (\<lambda>_ x. x - 1)\<rparr>"

definition late_kafka :: "nat kafka" where
  "late_kafka =
     \<lparr>kf_start = (\<lambda>x. (if 1 < x then Inl OverflowError else Inr (), x)), kf_stop = (\<lambda>x. (Inr (), x)),
      kf_send_and_wait = (\<lambda>_ _ _ x. (Inr (), x)), kf_partitions_for = (\<lambda>_ x. (Inr (), x))\<rparr>"

definition silent_s3 :: "nat s3_client" where
  "silent_s3 =
     \<lparr>s3_put_object = (\<lambda>_ _ _ _ x. (Inr None, x)), s3_get_object = (\<lambda>_ x. (Inr [], x)),
      s3_head_object = (\<lambda>_ x. (Inl OverflowError, x)), s3_presign = (\<lambda>_ _ x. (Inr [], x)),
      s3_head_bucket = (\<lambda>x. (Inr (), x)), s3_create_bucket = (\<lambda>x. (Inr (), x)),
      s3_put_bucket_versioning = (\<lambda>x. (Inr (), x)), s3_now = (\<lambda>_. sample_instant)\<rparr>"

definition countdown_system :: "nat system" where
  "countdown_system =
     \<lparr>sys_deployment =
        \<lparr>dep_env = sample_env,
         dep_ports = \<lparr>dp_s3 = silent_s3, dp_reader = one_page_reader, dp_max_size = 100, dp_max_pages = 5,
                      dp_classify = classify, dp_extract = extract_facts\<rparr>,
         dep_verifiers = \<lparr>vf_kyc = (\<lambda>_ _ _ _ _ _ x. (Inl OverflowError, x)), vf_employer = (\<lambda>_ _ _ _ _ x. (Inl OverflowError, x)),
                          vf_bureau = (\<lambda>_ _ _ _ x. (Inl OverflowError, x)), vf_bank = (\<lambda>_ _ _ _ x. (Inl OverflowError, x))\<rparr>,
         dep_runner = None\<rparr>,
      sys_broker = producer_broker late_kafka ''finassist.applications.events'' (\<lambda>rows. rows),
      sys_batch_size = 100, sys_consumer_group = ''applications-projection''\<rparr>"

lemma countdown_will_stop: "will_stop countdown late_kafka (sys_broker countdown_system) id"
  by (auto simp: will_stop_def no_slower_def countdown_def late_kafka_def countdown_system_def producer_broker_def
      producer_publish_def)

theorem relay_worker_stops_witness:
  "\<exists>w'. relay_worker countdown late_kafka countdown_system 2 (world_of (initial_db sample_instant) 3) = Some w' \<and>
     w_ext w' = 0 \<and> reachable countdown_system w'"
proof -
  have "reachable countdown_system (world_of (initial_db sample_instant) 3)"
    by (rule reachable.start [where now = sample_instant]) (simp add: world_of_def)
  from relay_worker_stops [OF countdown_will_stop this, of 2] show ?thesis by (auto simp: countdown_def)
qed

end
