(* ===== verification/Worker_Process.thy ===== *)
theory Worker_Process
  imports Worker
begin

text \<open>
  The whole worker of \<open>apps/worker/main.py\<close>: what it connects to, the three supervised tasks it starts and
  how they end.  The Temporal SDK and the Kafka client are parameters; the SDK hands the worker the
  activity tasks of its queue, which run as \<open>run_activity\<close> if their name is registered.  The tasks share
  the process but not a transaction, so each is described over the world alone; every step of it is a
  step of the system of \<open>System\<close>, which runs of the other tasks may come between.
\<close>

subsection \<open>The Temporal worker\<close>

fun activity_name :: "activity_call \<Rightarrow> string" where
  "activity_name Validate_Intake = ''validate_intake_activity''"
| "activity_name Check_Required_Documents = ''check_required_documents_activity''"
| "activity_name Extract_Document_Facts = ''extract_document_facts_activity''"
| "activity_name Verify_Facts = ''verify_facts_activity''"
| "activity_name (Enter_Human_Review _) = ''enter_human_review_activity''"
| "activity_name (Apply_Review_Decision _ _ _) = ''apply_review_decision_activity''"

record temporal_worker =
  tw_target_host :: string
  tw_namespace :: string
  tw_tls :: bool
  tw_task_queue :: string
  tw_workflows :: "string list"
  tw_activities :: "string list"

definition temporal_worker_of :: "settings \<Rightarrow> temporal_worker" where
  "temporal_worker_of s =
     \<lparr>tw_target_host = set_temporal_host s @ '':'' @ show_int (set_temporal_port s),
      tw_namespace = set_temporal_namespace s, tw_tls = set_temporal_tls_enabled s,
      tw_task_queue = set_temporal_task_queue s, tw_workflows = [''ApplicationWorkflow''],
      tw_activities = [''validate_intake_activity'', ''check_required_documents_activity'',
        ''extract_document_facts_activity'', ''verify_facts_activity'', ''enter_human_review_activity'',
        ''apply_review_decision_activity'']\<rparr>"

definition build_worker :: "'x temporal \<Rightarrow> settings \<Rightarrow> ('x, temporal_worker) call" where
  "build_worker t s =
     (let worker = temporal_worker_of s in
      bnd (tp_connect t (tw_target_host worker) (tw_namespace worker) (tw_tls worker)) (\<lambda>_. ret worker))"

text \<open>What happens while \<open>worker.run()\<close> is scheduled and the task waits for the stop event: activity tasks
  arrive, and the outside goes on.\<close>

datatype 'x hosted =
    Activity_Task activity_info activity_context activity_call
  | Elsewhere "'x \<Rightarrow> 'x"

fun host :: "'x deployment \<Rightarrow> temporal_worker \<Rightarrow> 'x hosted \<Rightarrow> 'x world \<Rightarrow> 'x world" where
  "host d worker (Activity_Task info ctx call) w =
     (if activity_name call \<in> set (tw_activities worker) then snd (run_activity d info ctx call w) else w)"
| "host d worker (Elsewhere f) w = w\<lparr>w_ext := f (w_ext w)\<rparr>"

text \<open>The SDK: the tasks it hands out until the stop event is set, \<open>worker.shutdown()\<close>, and the outcome of
  \<open>worker.run()\<close>, which is looked at only then.\<close>

record 'x worker_sdk =
  wk_assigned :: "temporal_worker \<Rightarrow> 'x world \<Rightarrow> 'x hosted list"
  wk_shutdown :: "'x \<Rightarrow> (py_error + unit) \<times> 'x"
  wk_outcome :: "'x \<Rightarrow> (py_error + unit) \<times> 'x"

definition hosting :: "'x worker_sdk \<Rightarrow> 'x deployment \<Rightarrow> temporal_worker \<Rightarrow> 'x world \<Rightarrow> 'x world" where
  "hosting sdk d worker w = fold (host d worker) (wk_assigned sdk worker w) w"

definition run_temporal_worker ::
  "'x temporal \<Rightarrow> 'x worker_sdk \<Rightarrow> settings \<Rightarrow> 'x deployment \<Rightarrow> 'x world \<Rightarrow> ((py_error + unit) \<times> 'x world) option" where
  "run_temporal_worker t sdk s d w =
     (case external (build_worker t s) w of
        (Inl e, w1) \<Rightarrow> Some (Inl e, w1)
      | (Inr worker, w1) \<Rightarrow>
          Some (external (bnd (wk_shutdown sdk) (\<lambda>_. wk_outcome sdk)) (hosting sdk d worker w1)))"

subsection \<open>The projection consumer\<close>

record consumer_config =
  cc_bootstrap_servers :: string
  cc_security_protocol :: string
  cc_topic :: string
  cc_group :: string
  cc_auto_commit :: bool
  cc_offset_reset :: string

record 'x kafka_consumer =
  kc_start :: "'x \<Rightarrow> (py_error + unit) \<times> 'x"
  kc_getmany :: "nat \<Rightarrow> nat \<Rightarrow> 'x \<Rightarrow> (py_error + string list list) \<times> 'x"
  kc_commit :: "'x \<Rightarrow> (py_error + unit) \<times> 'x"
  kc_stop :: "'x \<Rightarrow> (py_error + unit) \<times> 'x"

definition consumer_config_of :: "settings \<Rightarrow> consumer_config" where
  "consumer_config_of s =
     \<lparr>cc_bootstrap_servers = set_kafka_bootstrap_servers s, cc_security_protocol = set_kafka_security_protocol s,
      cc_topic = set_kafka_topic s, cc_group = set_kafka_consumer_group s,
      cc_auto_commit = False, cc_offset_reset = ''earliest''\<rparr>"

definition consume_poll :: "'x kafka_consumer \<Rightarrow> env \<Rightarrow> string \<Rightarrow> ('x, unit) handler" where
  "consume_poll k env consumer_group =
     bnd (external (kc_getmany k 1000 100)) (\<lambda>batches.
     bnd (map_each (consume_batch env consumer_group (kc_commit k)) batches) (\<lambda>_. ret ()))"

partial_function (option) consumer_loop ::
  "'x event_loop \<Rightarrow> 'x kafka_consumer \<Rightarrow> env \<Rightarrow> string \<Rightarrow> 'x world \<Rightarrow> ((py_error + unit) \<times> 'x world) option" where
  "consumer_loop ev k env consumer_group w =
     (if stopped ev (w_ext w) then Some (Inr (), w)
      else case consume_poll k env consumer_group w of
        (Inl e, w1) \<Rightarrow> Some (Inl e, w1)
      | (Inr _, w1) \<Rightarrow> consumer_loop ev k env consumer_group w1)"

text \<open>Whatever ends the loop, the consumer is stopped.\<close>

definition run_consumer ::
  "'x event_loop \<Rightarrow> 'x kafka_consumer \<Rightarrow> env \<Rightarrow> string \<Rightarrow> 'x world \<Rightarrow> ((py_error + unit) \<times> 'x world) option" where
  "run_consumer ev k env consumer_group w =
     (case external (kc_start k) w of
        (Inl e, w1) \<Rightarrow> Some (Inl e, w1)
      | (Inr _, w1) \<Rightarrow>
          Option.bind (consumer_loop ev k env consumer_group w1) (\<lambda>(r, w2).
            case external (kc_stop k) w2 of
              (Inl e, w3) \<Rightarrow> Some (Inl e, w3)
            | (Inr _, w3) \<Rightarrow> Some (r, w3)))"

subsection \<open>The process\<close>

text \<open>Everything around the process; \<open>wv_producer\<close> and \<open>wv_consumer\<close> are the Kafka client's constructors.\<close>

record 'x worker_services =
  wv_services :: "'x services"
  wv_event_loop :: "'x event_loop"
  wv_producer :: "string \<Rightarrow> string \<Rightarrow> 'x kafka"
  wv_consumer :: "consumer_config \<Rightarrow> 'x kafka_consumer"
  wv_sdk :: "'x worker_sdk"
  wv_row_order :: "outbox_row list \<Rightarrow> outbox_row list"

definition worker_producer :: "'x worker_services \<Rightarrow> settings \<Rightarrow> 'x kafka" where
  "worker_producer wv s = wv_producer wv (set_kafka_bootstrap_servers s) (set_kafka_security_protocol s)"

text \<open>The worker never connects the container's workflow runner, so its handlers have one that is not ready.\<close>

definition worker_system :: "'x worker_services \<Rightarrow> 'x container \<Rightarrow> 'x system" where
  "worker_system wv c = (let s = ctr_settings c in
     \<lparr>sys_deployment = deployment_of (wv_services wv) False c,
      sys_broker = producer_broker (worker_producer wv s) (set_kafka_topic s) (wv_row_order wv),
      sys_batch_size = nat (set_kafka_batch_size s), sys_consumer_group = set_kafka_consumer_group s\<rparr>)"

definition worker_tasks :: "'x worker_services \<Rightarrow> 'x container \<Rightarrow> (string \<times> ('x world \<Rightarrow> 'x world option)) list" where
  "worker_tasks wv c = (let s = ctr_settings c; ev = wv_event_loop wv; sys = worker_system wv c in
     [(''temporal_worker'',
        run_with_retry ev (run_temporal_worker (sv_temporal (wv_services wv)) (wv_sdk wv) s (sys_deployment sys))),
      (''outbox_relay'', relay_worker ev (worker_producer wv s) sys (set_kafka_poll_interval s)),
      (''projection_consumer'',
        run_with_retry ev (run_consumer ev (wv_consumer wv (consumer_config_of s)) (ctr_env c) (set_kafka_consumer_group s)))])"

record 'x worker_process =
  wp_container :: "'x container"
  wp_liveness_host :: string
  wp_liveness_port :: int
  wp_tasks :: "(string \<times> ('x world \<Rightarrow> 'x world option)) list"

text \<open>\<open>main\<close> up to the wait for the stop event.\<close>

definition start_worker :: "'x worker_services \<Rightarrow> settings \<Rightarrow> startup_error + 'x worker_process" where
  "start_worker wv s =
     (case construct_settings s of Inl e \<Rightarrow> Inl e | Inr s' \<Rightarrow>
      (case build_container (wv_services wv) s' of Inl e \<Rightarrow> Inl e | Inr c \<Rightarrow>
        Inr \<lparr>wp_container = c, wp_liveness_host = set_http_host s', wp_liveness_port = set_http_port s',
             wp_tasks = worker_tasks wv c\<rparr>))"

subsection \<open>The worker serves what the runner and the workflow ask for\<close>

lemma every_activity_registered: "activity_name call \<in> set (tw_activities (temporal_worker_of s))"
  by (cases call) (simp_all add: temporal_worker_of_def)

lemma worker_polls_the_runners_queue:
  "tw_target_host (temporal_worker_of s) = rc_target_host (build_workflow_runner s)"
  "tw_namespace (temporal_worker_of s) = rc_namespace (build_workflow_runner s)"
  "tw_tls (temporal_worker_of s) = rc_tls (build_workflow_runner s)"
  "tw_task_queue (temporal_worker_of s) = rc_task_queue (build_workflow_runner s)"
  by (simp_all add: temporal_worker_of_def build_workflow_runner_def)

subsection \<open>Every task is a run of the system\<close>

lemma inside_external: "inside s (external f)"
  by (rule inside_unchanged, drule external_db)

lemma inside_record:
  fixes s :: "'x system"
  shows "inside s (process_record (dep_env (sys_deployment s)) (sys_consumer_group s) value)"
  unfolding stays_def
proof
  fix w :: "'x world"
  obtain r w' where run: "process_record (dep_env (sys_deployment s)) (sys_consumer_group s) value w = (r, w')"
    by (rule that [OF prod.collapse [symmetric]])
  from runs.more [OF runs.none system_step.consume [OF run]] run
  show "runs s w (snd (process_record (dep_env (sys_deployment s)) (sys_consumer_group s) value w))" by simp
qed

lemma inside_poll: "inside s (consume_poll k (dep_env (sys_deployment s)) (sys_consumer_group s))"
  unfolding consume_poll_def consume_batch_def
  by (intro inside_bnd inside_each inside_external inside_record inside_refl)

lemma consumer_loop_runs:
  assumes "consumer_loop ev k env g w = Some rw"
  shows "(\<forall>w. runs s w (snd (consume_poll k env g w))) \<longrightarrow> runs s w (snd rw)"
proof (rule consumer_loop.raw_induct [where P = "\<lambda>ev k env g w rw. (\<forall>w. runs s w (snd (consume_poll k env g w))) \<longrightarrow> runs s w (snd rw)", OF _ assms])
  fix loop ev k env g w and rw :: "(py_error + unit) \<times> 'a world"
  assume IH: "\<And>ev k env g w rw. loop ev k env g w = Some rw \<Longrightarrow> (\<forall>w. runs s w (snd (consume_poll k env g w))) \<longrightarrow> runs s w (snd rw)"
    and run: "(if stopped ev (w_ext w) then Some (Inr (), w)
      else case consume_poll k env g w of (Inl e, w1) \<Rightarrow> Some (Inl e, w1) | (Inr _, w1) \<Rightarrow> loop ev k env g w1) = Some rw"
  show "(\<forall>w. runs s w (snd (consume_poll k env g w))) \<longrightarrow> runs s w (snd rw)"
  proof
    assume polls: "\<forall>w. runs s w (snd (consume_poll k env g w))"
    obtain r w1 where poll: "consume_poll k env g w = (r, w1)" by (rule that [OF prod.collapse [symmetric]])
    with polls [rule_format, of w] have w1: "runs s w w1" by simp
    show "runs s w (snd rw)"
    proof (cases "stopped ev (w_ext w) \<or> isl r")
      case True
      with run [unfolded poll] have "rw = (Inr (), w) \<or> snd rw = w1" by (cases r) (auto split: if_splits)
      with w1 show ?thesis by (auto intro: runs.none)
    next
      case False
      with run poll have "loop ev k env g w1 = Some rw" by (cases r) auto
      from IH [OF this] polls w1 show ?thesis by (blast intro: transpD [OF runs_order(2)])
    qed
  qed
qed

lemma run_consumer_runs:
  assumes "run_consumer ev k (dep_env (sys_deployment s)) (sys_consumer_group s) w = Some (r, w')"
  shows "runs s w w'"
proof -
  let ?loop = "consumer_loop ev k (dep_env (sys_deployment s)) (sys_consumer_group s)"
  obtain r0 w1 where start: "external (kc_start k) w = (r0, w1)" by (rule that [OF prod.collapse [symmetric]])
  have w1: "runs s w w1" using staysD [OF inside_external start] .
  show ?thesis
  proof (cases r0)
    case (Inr u)
    with assms start obtain r2 w2 where loop: "?loop w1 = Some (r2, w2)"
      and last: "(case external (kc_stop k) w2 of (Inl e, w3) \<Rightarrow> Some (Inl e, w3) | (Inr _, w3) \<Rightarrow> Some (r2, w3)) = Some (r, w')"
      by (auto simp: run_consumer_def split: bind_splits)
    have "runs s w1 w2" using consumer_loop_runs [OF loop] stays_snd [OF inside_poll] by fastforce
    obtain r3 w3 where stop: "external (kc_stop k) w2 = (r3, w3)" by (rule that [OF prod.collapse [symmetric]])
    with last have "w' = w3" by (cases r3) auto
    with staysD [OF inside_external stop] \<open>runs s w1 w2\<close> w1 show ?thesis by (meson transpD [OF runs_order(2)])
  qed (use assms start w1 in \<open>auto simp: run_consumer_def\<close>)
qed

lemma host_runs: "runs s w (host (sys_deployment s) worker h w)"
  using stays_snd [OF inside_activity] by (cases h) (auto intro: runs.none runs.more [OF runs.none system_step.outside])

lemma hosting_runs: "runs s w (hosting sdk (sys_deployment s) worker w)"
proof -
  have "runs s w (fold (host (sys_deployment s) worker) hs w)" for hs
    by (induction hs arbitrary: w) (auto intro: runs.none transpD [OF runs_order(2) host_runs])
  then show ?thesis by (simp add: hosting_def)
qed

lemma run_temporal_worker_runs:
  assumes "run_temporal_worker t sdk cfg (sys_deployment s) w = Some (r, w')"
  shows "runs s w w'"
proof -
  obtain r0 w1 where start: "external (build_worker t cfg) w = (r0, w1)" by (rule that [OF prod.collapse [symmetric]])
  note w1 = staysD [OF inside_external start]
  show ?thesis
  proof (cases r0)
    case (Inr worker)
    with assms start have "external (bnd (wk_shutdown sdk) (\<lambda>_. wk_outcome sdk)) (hosting sdk (sys_deployment s) worker w1) = (r, w')"
      by (simp add: run_temporal_worker_def)
    from staysD [OF inside_external this] hosting_runs w1 show ?thesis by (meson transpD [OF runs_order(2)])
  qed (use assms start w1 in \<open>simp add: run_temporal_worker_def\<close>)
qed

lemma task_reachable:
  assumes "\<And>w r w'. run_once w = Some (r, w') \<Longrightarrow> runs s w w'" "run_with_retry ev run_once w = Some w'" "reachable s w"
  shows "reachable s w'"
  using run_with_retry_reachable [OF assms(2), of s] reachable_runs [OF assms(1)] assms(3) by blast

subsection \<open>Every task ends\<close>

text \<open>What is relied on, beside what the relay relies on: a poll returns with the event set or with less
  patience left, the wait of the Temporal task ends with the event set, and nothing clears the event.\<close>

definition consumer_will_stop :: "'x event_loop \<Rightarrow> 'x kafka_consumer \<Rightarrow> ('x \<Rightarrow> nat) \<Rightarrow> bool" where
  "consumer_will_stop ev k p \<longleftrightarrow>
     stays (no_slower ev p) (kc_start k) \<and> stays (no_slower ev p) (kc_commit k) \<and> stays (no_slower ev p) (kc_stop k) \<and>
     stays (no_slower ev p) (kc_getmany k 1000 100) \<and>
     stays (\<lambda>x x'. stopped ev x' \<or> p x' < p x) (kc_getmany k 1000 100)"

definition hosting_will_stop :: "'x event_loop \<Rightarrow> 'x temporal \<Rightarrow> 'x worker_sdk \<Rightarrow> 'x deployment \<Rightarrow> ('x \<Rightarrow> nat) \<Rightarrow> bool" where
  "hosting_will_stop ev t sdk d p \<longleftrightarrow>
     (\<forall>h n tls. stays (no_slower ev p) (tp_connect t h n tls)) \<and>
     (\<forall>worker w. stopped ev (w_ext (hosting sdk d worker w))) \<and>
     stays (no_slower ev p) (wk_shutdown sdk) \<and> stays (no_slower ev p) (wk_outcome sdk)"

definition worker_will_stop :: "'x worker_services \<Rightarrow> 'x container \<Rightarrow> ('x \<Rightarrow> nat) \<Rightarrow> bool" where
  "worker_will_stop wv c p \<longleftrightarrow>
     will_stop (wv_event_loop wv) (worker_producer wv (ctr_settings c)) (sys_broker (worker_system wv c)) p \<and>
     consumer_will_stop (wv_event_loop wv) (wv_consumer wv (consumer_config_of (ctr_settings c))) p \<and>
     hosting_will_stop (wv_event_loop wv) (sv_temporal (wv_services wv)) (wv_sdk wv) (sys_deployment (worker_system wv c)) p"

lemma patient_external: "stays (no_slower ev p) m \<Longrightarrow> patient ev p (external m)"
  by (auto simp: stays_def external_def split: prod.splits) (metis snd_conv)

lemmas patient_bnd = stays_bnd [OF patient_order(2)]
lemmas patient_try = stays_try_except [OF patient_order(2)]
lemmas patient_refl = stays_refl_steps [OF patient_order(1)]
lemmas patient_each = stays_map_each [OF patient_order]

lemma silent_apply_event: "silent (apply_event env g envelope)"
proof -
  have ends: "silent rollback" "silent commit" by (simp_all add: stays_def rollback_def commit_def)
  show ?thesis unfolding apply_event_def project_event_def Let_def case_prod_beta
    by (intro silent_intros ends)
qed

lemma patient_record: "patient ev p (process_record env g value)"
  unfolding process_record_def
  by (intro patient_bnd patient_refl patient_with_uow patient_silent silent_apply_event)

lemma consume_poll_after:
  assumes "consumer_will_stop ev k p" "consume_poll k env g w = (r, w')"
  shows "p (w_ext w') \<le> p (w_ext w)" "stopped ev (w_ext w') \<or> p (w_ext w') < p (w_ext w)"
proof -
  define rest where "rest = (\<lambda>batches. bnd (map_each (consume_batch env g (kc_commit k)) batches) (\<lambda>_. ret ()))"
  have rest: "patient ev p (rest batches)" for batches
    using assms(1) unfolding rest_def consume_batch_def consumer_will_stop_def
    by (intro patient_bnd patient_each patient_refl patient_record patient_external) simp_all
  obtain r1 w1 where poll: "external (kc_getmany k 1000 100) w = (r1, w1)" by (rule that [OF prod.collapse [symmetric]])
  then have x1: "kc_getmany k 1000 100 (w_ext w) = (r1, w_ext w1)" by (auto simp: external_def split: prod.splits)
  have p1: "p (w_ext w1) \<le> p (w_ext w)" "stopped ev (w_ext w1) \<or> p (w_ext w1) < p (w_ext w)"
    using assms(1) [unfolded consumer_will_stop_def stays_def, THEN conjunct2, THEN conjunct2, THEN conjunct2] x1
    by (metis no_slower_def snd_conv)+
  have "(case r1 of Inl e \<Rightarrow> (Inl e, w1) | Inr batches \<Rightarrow> rest batches w1) = (r, w')"
    using assms(2) poll unfolding consume_poll_def rest_def [symmetric] bnd_def by simp
  then have "p (w_ext w') \<le> p (w_ext w1) \<and> (stopped ev (w_ext w1) \<longrightarrow> stopped ev (w_ext w'))"
    using patience_after [OF rest] by (cases r1) auto
  with p1 show "p (w_ext w') \<le> p (w_ext w)" "stopped ev (w_ext w') \<or> p (w_ext w') < p (w_ext w)" by auto
qed

lemma consumer_loop_ends:
  assumes "consumer_will_stop ev k p"
  shows "\<exists>r w'. consumer_loop ev k env g w = Some (r, w') \<and> p (w_ext w') \<le> p (w_ext w) \<and> (r = Inr () \<longrightarrow> stopped ev (w_ext w'))"
proof (induction "if stopped ev (w_ext w) then 0 else Suc (p (w_ext w))" arbitrary: w rule: less_induct)
  case less
  obtain r w1 where poll: "consume_poll k env g w = (r, w1)" by (rule that [OF prod.collapse [symmetric]])
  note after = consume_poll_after [OF assms poll]
  show ?case
  proof (cases "stopped ev (w_ext w) \<or> isl r")
    case True
    with poll after(1) show ?thesis by (cases r) (auto simp: consumer_loop.simps)
  next
    case False
    with after have "(if stopped ev (w_ext w1) then 0 else Suc (p (w_ext w1))) < (if stopped ev (w_ext w) then 0 else Suc (p (w_ext w)))"
      by auto
    from less [OF this] obtain r' w' where rec: "consumer_loop ev k env g w1 = Some (r', w')"
      "p (w_ext w') \<le> p (w_ext w1)" "r' = Inr () \<longrightarrow> stopped ev (w_ext w')" by blast
    have "consumer_loop ev k env g w = Some (r', w')" using False poll rec(1) by (cases r) (simp_all add: consumer_loop.simps [of ev k env g w])
    with rec(2,3) after(1) show ?thesis by (meson order_trans)
  qed
qed

lemma run_consumer_ends:
  assumes "consumer_will_stop ev k p"
  shows "\<exists>r w'. run_consumer ev k env g w = Some (r, w') \<and> (stopped ev (w_ext w') \<or> isl r \<and> p (w_ext w') \<le> p (w_ext w))"
proof -
  have handlers: "patient ev p (external (kc_start k))" "patient ev p (external (kc_stop k))"
    using assms by (auto simp: consumer_will_stop_def intro: patient_external)
  obtain r0 w1 where start: "external (kc_start k) w = (r0, w1)" by (rule that [OF prod.collapse [symmetric]])
  note p1 = patience_after(1) [OF handlers(1) start]
  show ?thesis
  proof (cases r0)
    case (Inl e)
    with start p1 show ?thesis by (simp add: run_consumer_def)
  next
    case (Inr u)
    from consumer_loop_ends [OF assms, of env g w1] obtain r2 w2 where loop: "consumer_loop ev k env g w1 = Some (r2, w2)"
      "p (w_ext w2) \<le> p (w_ext w1)" "r2 = Inr () \<longrightarrow> stopped ev (w_ext w2)" by blast
    obtain r3 w3 where stop: "external (kc_stop k) w2 = (r3, w3)" by (rule that [OF prod.collapse [symmetric]])
    note p3 = patience_after [OF handlers(2) stop]
    have "run_consumer ev k env g w = Some (case r3 of Inl e \<Rightarrow> Inl e | Inr _ \<Rightarrow> r2, w3)"
      using start Inr loop(1) stop by (cases r3) (simp_all add: run_consumer_def)
    with loop(2,3) p1 p3 show ?thesis by (cases r3; cases r2) auto
  qed
qed

lemma run_temporal_worker_ends:
  assumes "hosting_will_stop ev t sdk d p"
  shows "\<exists>r w'. run_temporal_worker t sdk s d w = Some (r, w') \<and> (stopped ev (w_ext w') \<or> isl r \<and> p (w_ext w') \<le> p (w_ext w))"
proof -
  note steps = stays_bnd [OF no_slower_order(2)] stays_refl_steps(1) [OF no_slower_order(1)]
  have build: "patient ev p (external (build_worker t s))"
    unfolding build_worker_def Let_def using assms by (intro patient_external steps) (simp add: hosting_will_stop_def)
  have finish: "patient ev p (external (bnd (wk_shutdown sdk) (\<lambda>_. wk_outcome sdk)))"
    using assms by (intro patient_external steps) (simp_all add: hosting_will_stop_def)
  obtain r0 w1 where start: "external (build_worker t s) w = (r0, w1)" by (rule that [OF prod.collapse [symmetric]])
  show ?thesis
  proof (cases r0)
    case (Inl e)
    with start patience_after(1) [OF build start] show ?thesis by (simp add: run_temporal_worker_def)
  next
    case (Inr worker)
    obtain r w' where last: "external (bnd (wk_shutdown sdk) (\<lambda>_. wk_outcome sdk)) (hosting sdk d worker w1) = (r, w')"
      by (rule that [OF prod.collapse [symmetric]])
    have "stopped ev (w_ext (hosting sdk d worker w1))" using assms by (simp add: hosting_will_stop_def)
    with patience_after(2) [OF finish last] start Inr last show ?thesis by (simp add: run_temporal_worker_def)
  qed
qed

text \<open>C22: the worker's three supervised tasks end when the process is told to stop.  Whatever Temporal,
  Kafka or the database refuse, and however often a task is restarted after a failure, once the stop
  event is set within a bounded number of waits and polls each task returns with the event set, and it
  has taken the database through reachable states only.\<close>

theorem worker_tasks_stop:
  assumes "start_worker wv s = Inr p" "worker_will_stop wv (wp_container p) patience"
    "(name, task) \<in> set (wp_tasks p)" "reachable (worker_system wv (wp_container p)) w"
  shows "\<exists>w'. task w = Some w' \<and> stopped (wv_event_loop wv) (w_ext w') \<and> reachable (worker_system wv (wp_container p)) w'"
proof -
  define c where "c = wp_container p"
  have tasks: "wp_tasks p = worker_tasks wv c"
    using assms(1) by (auto simp: start_worker_def c_def split: sum.splits)
  have env: "dep_env (sys_deployment (worker_system wv c)) = ctr_env c"
    "sys_consumer_group (worker_system wv c) = set_kafka_consumer_group (ctr_settings c)"
    by (simp_all add: worker_system_def deployment_of_def Let_def)
  note laws = assms(2) [folded c_def, unfolded worker_will_stop_def]
  have supervised: "\<exists>w'. run_with_retry (wv_event_loop wv) run_once w = Some w' \<and> stopped (wv_event_loop wv) (w_ext w') \<and>
      reachable (worker_system wv c) w'"
    if ends: "\<And>w. \<exists>r w'. run_once w = Some (r, w') \<and> (stopped (wv_event_loop wv) (w_ext w') \<or> isl r \<and> patience (w_ext w') \<le> patience (w_ext w))"
      and inside: "\<And>w r w'. run_once w = Some (r, w') \<Longrightarrow> runs (worker_system wv c) w w'" for run_once
  proof -
    from laws have pause: "stopped (wv_event_loop wv) (pause (wv_event_loop wv) t x) \<or> patience (pause (wv_event_loop wv) t x) < patience x" for t x
      by (simp add: will_stop_def)
    obtain w' where w': "run_with_retry (wv_event_loop wv) run_once w = Some w'" "stopped (wv_event_loop wv) (w_ext w')"
      using run_with_retry_ends [OF pause ends, of w] by blast
    have "reachable (worker_system wv c) w'"
      by (rule task_reachable [of run_once]) (fact inside w'(1) assms(4) [folded c_def])+
    with w' show ?thesis by blast
  qed
  from assms(3) [unfolded tasks worker_tasks_def Let_def]
  show ?thesis unfolding c_def [symmetric]
  proof (simp, elim disjE conjE, goal_cases)
    case 1
    from laws have "hosting_will_stop (wv_event_loop wv) (sv_temporal (wv_services wv)) (wv_sdk wv) (sys_deployment (worker_system wv c)) patience" by simp
    from supervised [OF run_temporal_worker_ends [OF this] run_temporal_worker_runs] 1 show ?case by simp
  next
    case 2
    from laws have "will_stop (wv_event_loop wv) (worker_producer wv (ctr_settings c)) (sys_broker (worker_system wv c)) patience" by simp
    from relay_worker_stops [OF this assms(4) [folded c_def]] 2 show ?case by simp
  next
    case 3
    from laws have "consumer_will_stop (wv_event_loop wv) (wv_consumer wv (consumer_config_of (ctr_settings c))) patience" by simp
    from supervised [OF run_consumer_ends [OF this] run_consumer_runs, unfolded env] 3 show ?case by simp
  qed
qed

text \<open>Once the client is connected the task only waits for the stop event: a \<open>worker.run()\<close> that fails
  meanwhile is neither noticed nor started again, whatever its outcome, and the supervisor has nothing to
  retry.\<close>

lemma failed_temporal_worker_not_restarted:
  assumes "hosting_will_stop ev t sdk d p" "\<not> stopped ev (w_ext w)" "external (build_worker t s) w = (Inr worker, w1)"
  shows "run_with_retry ev (run_temporal_worker t sdk s d) w =
    Some (snd (external (bnd (wk_shutdown sdk) (\<lambda>_. wk_outcome sdk)) (hosting sdk d worker w1)))"
proof -
  obtain r w2 where last: "external (bnd (wk_shutdown sdk) (\<lambda>_. wk_outcome sdk)) (hosting sdk d worker w1) = (r, w2)"
    by (rule that [OF prod.collapse [symmetric]])
  have once: "run_temporal_worker t sdk s d w = Some (r, w2)" using assms(3) last by (simp add: run_temporal_worker_def)
  have finish: "patient ev p (external (bnd (wk_shutdown sdk) (\<lambda>_. wk_outcome sdk)))"
    using assms(1) by (intro patient_external stays_bnd [OF no_slower_order(2)]) (simp_all add: hosting_will_stop_def)
  have "stopped ev (w_ext (hosting sdk d worker w1))" using assms(1) by (simp add: hosting_will_stop_def)
  with patience_after(2) [OF finish last] have "stopped ev (w_ext w2)" by simp
  with assms(2) once last show ?thesis by (cases r) (simp_all add: run_with_retry.simps [of ev _ w])
qed

subsection \<open>A concrete worker\<close>

text \<open>As in \<open>Worker\<close>: the outside is a countdown.  Temporal and Kafka are out of reach while it stands above
  one, a poll brings nothing and takes a second, one activity task arrives before the event is set.\<close>

definition late_temporal :: "nat temporal" where
  "late_temporal =
     \<lparr>tp_connect = (\<lambda>_ _ _ x. (if 1 < x then Inl OverflowError else Inr (), x)), tp_list_workflows = (\<lambda>_ x. (Inr (), x)),
      tp_start_workflow = (\<lambda>_ _ x. (Inr (), x)), tp_signal = (\<lambda>_ _ x. (Inr (), x))\<rparr>"

definition late_consumer :: "nat kafka_consumer" where
  "late_consumer =
     \<lparr>kc_start = (\<lambda>x. (if 1 < x then Inl OverflowError else Inr (), x)), kc_getmany = (\<lambda>_ _ x. (Inr [], x - 1)),
      kc_commit = (\<lambda>x. (Inr (), x)), kc_stop = (\<lambda>x. (Inr (), x))\<rparr>"

definition brief_sdk :: "nat worker_sdk" where
  "brief_sdk =
     \<lparr>wk_assigned = (\<lambda>_ _. [Activity_Task \<lparr>ai_workflow = ''w'', ai_activity = ''1''\<rparr>
        \<lparr>ax_tenant = DEMO_TENANT_ID, ax_application = DEMO_TENANT_ID\<rparr> Validate_Intake, Elsewhere (\<lambda>_. 0)]),
      wk_shutdown = (\<lambda>x. (Inr (), x)), wk_outcome = (\<lambda>x. (Inl OverflowError, x))\<rparr>"

definition countdown_services :: "nat worker_services" where
  "countdown_services =
     \<lparr>wv_services =
        \<lparr>sv_env = sample_env, sv_database_probe = (\<lambda>_ x. (Inr (), x)), sv_s3 = (\<lambda>_. silent_s3), sv_temporal = late_temporal,
         sv_http = \<lparr>hc_get = (\<lambda>_ _ x. (Inl OverflowError, x)), hc_post = (\<lambda>_ _ _ x. (Inl OverflowError, x))\<rparr>,
         sv_reader = one_page_reader, sv_perf_counter = (\<lambda>x. (0, x))\<rparr>,
      wv_event_loop = countdown, wv_producer = (\<lambda>_ _. late_kafka), wv_consumer = (\<lambda>_. late_consumer),
      wv_sdk = brief_sdk, wv_row_order = (\<lambda>rows. rows)\<rparr>"

lemma default_worker_starts: "\<exists>p. start_worker countdown_services default_settings = Inr p"
proof -
  have "construct_settings default_settings = Inr default_settings"
    unfolding construct_settings_Inr
    by (simp add: settings_field_errors_def settings_bounds_def default_settings_def production_constraints_def)
  moreover obtain c where "build_container (wv_services countdown_services) default_settings = Inr c"
    using build_container_Inr [of "wv_services countdown_services" default_settings] by (auto simp: default_settings_def)
  ultimately show ?thesis by (simp add: start_worker_def)
qed

lemma countdown_worker_will_stop: "worker_will_stop countdown_services c id"
proof -
  have "worker_producer countdown_services s = late_kafka" for s
    by (simp add: worker_producer_def countdown_services_def)
  then have relay: "will_stop countdown late_kafka (sys_broker (worker_system countdown_services c)) id"
    using countdown_will_stop
    by (simp add: will_stop_def worker_system_def countdown_system_def Let_def producer_broker_def producer_publish_def late_kafka_def)
  have consumer: "consumer_will_stop countdown late_consumer id"
    by (auto simp: consumer_will_stop_def late_consumer_def countdown_def stays_def no_slower_def)
  have hosting: "hosting_will_stop countdown late_temporal brief_sdk d id" for d
    by (simp add: hosting_will_stop_def hosting_def late_temporal_def brief_sdk_def countdown_def stays_def no_slower_def)
  show ?thesis
    using relay consumer hosting by (simp add: worker_will_stop_def worker_producer_def countdown_services_def)
qed

theorem worker_tasks_stop_witness:
  "\<exists>p task w'. start_worker countdown_services default_settings = Inr p \<and> (''temporal_worker'', task) \<in> set (wp_tasks p) \<and>
     task (world_of (initial_db sample_instant) 3) = Some w' \<and> w_ext w' = 0 \<and>
     reachable (worker_system countdown_services (wp_container p)) w'"
proof -
  obtain p where p: "start_worker countdown_services default_settings = Inr p" using default_worker_starts by blast
  then obtain task where task: "(''temporal_worker'', task) \<in> set (wp_tasks p)"
    by (auto simp: start_worker_def worker_tasks_def Let_def split: sum.splits)
  have "reachable (worker_system countdown_services (wp_container p)) (world_of (initial_db sample_instant) 3)"
    by (rule reachable.start [where now = sample_instant]) (simp add: world_of_def)
  from worker_tasks_stop [OF p countdown_worker_will_stop task this] p task show ?thesis
    by (auto simp: countdown_services_def countdown_def)
qed

end
