(* ===== verification/Spec2Isabelle.thy ===== *)
theory Spec2Isabelle
  imports Activities Api Application Audit_Hash Bootstrap Cases Catalog Clock Commands Composition
    Concurrency Database Ddl Decimals Document_Commands Documents Engagement Errors External_Clients
    Extractor File_Safety Floats Frames Identifiers Initial_State Interleaving Invariants Json Ledger
    Lifecycle Messaging Metrics Migrations Mock_Http Mock_Los Mock_Services Mock_Verdicts Money
    Object_Store Observability Offsets Orm Overlap Prelude Projection PyStrings Queries Races
    Recording Regex Relay Repositories Reservations Review_Once Scenarios Schema Status Stored_Rows
    Synthetic System Temporal_Client Unit_Of_Work Verdicts Verification Walkthrough Worker
    Worker_Process Workflow World
begin

text \<open>
  FinAssist, a synthetic loan-underwriting service: an HTTP API and a worker around one PostgreSQL
  database, an object store, a Temporal workflow per case and a Kafka topic of events.  This library
  models the program below \<open>src/\<close> and states what makes it correct.

  \<^bold>\<open>The shape of the model.\<close>  Python code that reads and writes the database is a \<open>handler\<close>: a function
  from a \<open>world\<close> to a result and a world (\<open>Prelude\<close>, \<open>World\<close>).  The world holds the committed database
  \<open>w_db\<close>, the open session \<open>w_sess\<close>, the tenant of the session \<open>w_scope\<close>, and \<open>w_ext\<close>, whatever lies
  outside the program.  An exception is the left of a sum, \<open>py_error\<close>, with the source's classes and
  messages (\<open>Errors\<close>).  \<open>with_uow\<close> is a transaction: it opens a session, runs its body and rolls back
  whatever was not committed.  A library or service the code calls (S3, pypdf, httpx, Temporal, Kafka,
  SHA-256, the clock, UUIDs, row order where a query gives none, the random generator) is an argument,
  a record of functions on \<open>w_ext\<close> or on the \<open>env\<close>; hypotheses on such an argument are named
  predicates (\<open>good_env\<close>, \<open>delivers\<close>, \<open>healthy\<close>, \<open>rejects_duplicates\<close>, \<open>good_rng\<close>, \<open>will_stop\<close>).

  \<^bold>\<open>The language.\<close>  \<open>PyStrings\<close>, \<open>Decimals\<close> (\<open>decimal.Decimal\<close> with 28 digits, half-even), \<open>Floats\<close>
  (binary64 as exact rationals with rounding), \<open>Regex\<close> (the part of \<open>re\<close> the extractor uses), \<open>Json\<close>
  (\<open>json.dumps\<close> and \<open>json.loads\<close>), \<open>Clock\<close> (ISO dates and datetimes) and \<open>Identifiers\<close> (UUID parsing).

  \<^bold>\<open>The domain\<close> (\<open>domain/\<close>).  \<open>Status\<close>: the transition table, built as \<open>status.py\<close> builds it.
  \<open>Money\<close>, \<open>Catalog\<close>: exact-or-raising arithmetic, the product's acceptance check.  \<open>Application\<close>: the
  aggregate, its versioned transitions and pending events.  \<open>Documents\<close>: facts and checks.

  \<^bold>\<open>The database\<close> (\<open>migrations/\<close>, \<open>infrastructure/postgres/\<close>).  \<open>Database\<close>: one record per row, row-level
  security as \<open>visible\<close>, the constraints as inserts that raise.  \<open>Repositories\<close>: the repositories'
  methods, \<open>application_save\<close> with its version check and snapshot.  \<open>Unit_Of_Work\<close>, \<open>Audit_Hash\<close>:
  idempotency keys, outbox rows and the hash-chained audit log.  \<open>Initial_State\<close>: the seed rows.
  \<open>Ddl\<close> executes the statements the migrations consist of on a catalogue of tables, policies, grants and
  roles; \<open>Migrations\<close> has the three scripts and Alembic's run of them, \<open>Schema\<close> the catalogue they
  leave, \<open>Orm\<close> the mapped classes of \<open>orm_models.py\<close>.

  \<^bold>\<open>Overlapping transactions.\<close>  \<open>Interleaving\<close>: a handler as a \<open>script\<close> of clock readings, queries and
  statements, and a \<open>cluster\<close> of sessions at READ COMMITTED, where statements wait for the rows and keys
  other open transactions hold and any session may break off.  \<open>Concurrency\<close>: the case commands as
  scripts, each of them alone its handler of \<open>Lifecycle\<close>.  \<open>Overlap\<close>, \<open>Races\<close>, \<open>Reservations\<close>: what survives
  any schedule, and what does not.

  \<^bold>\<open>The commands and queries\<close> (\<open>application/\<close>).  \<open>Lifecycle\<close>, \<open>Document_Commands\<close>, \<open>Verification\<close>,
  \<open>Queries\<close>: every handler whole, with its guards in the code's order.  They call \<open>Object_Store\<close>,
  \<open>File_Safety\<close>, \<open>Extractor\<close> and the external systems.  \<open>Commands\<close> gathers them as one \<open>request\<close> type
  with one \<open>serve\<close>.

  \<^bold>\<open>Messaging\<close> (\<open>infrastructure/kafka/\<close>).  \<open>Messaging\<close>: the outbox relay and the projection consumer.
  \<open>Offsets\<close>: the consumer's positions and commits over several partitions, with crashes.
  \<open>System\<close> puts requests, sweeps of the relay, consumed messages and the outside world into one step
  relation; \<open>reachable\<close> starts in the database the migrations leave.

  \<^bold>\<open>The workflow\<close> (\<open>infrastructure/temporal/\<close>).  \<open>Activities\<close>: the six activities, each a run of
  requests with the duplicate-retry path.  \<open>Workflow\<close>: the run method as a state machine over
  \<open>workflow_event\<close>s, every attempt of an activity with a fate (it ran, it ran and the answer was lost, it
  never ran), signals and the timer.  \<open>Temporal_Client\<close>: starting and signalling.

  \<^bold>\<open>The processes\<close> (\<open>api/\<close>, \<open>bootstrap/\<close>, \<open>apps/\<close>).  \<open>Api\<close>: routes, request models, error handlers, the
  size limit.  \<open>Metrics\<close>, \<open>Observability\<close>: the counters, the log processors, readiness.  \<open>Bootstrap\<close>,
  \<open>Composition\<close>: settings, providers, container, lifespan.  \<open>Worker\<close>: the supervised relay loop;
  \<open>Worker_Process\<close>: the Temporal worker, the consumer and the process that runs all three.
  \<open>External_Clients\<close>: the HTTP adapters.

  \<^bold>\<open>The synthetic surroundings\<close> (\<open>services/\<close>).  \<open>Synthetic\<close>: the generated documents, to the byte.
  \<open>Scenarios\<close>, \<open>Mock_Services\<close>, \<open>Mock_Http\<close>, \<open>Mock_Los\<close>: the scenario catalogue, the generators and the
  mock services, with the time a fault sleeps and the adapters' timeout.  \<open>Mock_Verdicts\<close>: the mocks behind the
  application's own adapters, which send no scenario header, and behind a test proxy that adds one.

  \<^bold>\<open>What is proved.\<close>  \<open>Frames\<close> says which part of the database each operation leaves alone, for every
  handler, in the rule collections \<open>quiet_intros\<close>, \<open>leaves_intros\<close> and \<open>confined_intros\<close>; atomicity and
  tenant isolation follow.  \<open>Ledger\<close>, \<open>Cases\<close>, \<open>Invariants\<close>, \<open>Recording\<close>: the audit chain verifies and
  matches the outbox, every case has a gapless legal history; kept by every handler
  (\<open>keeps_intros\<close>), hence true in every reachable state, and with them that no case is decided
  without a human review.  \<open>Engagement\<close>: a case names a workflow exactly while it is open.
  \<open>Stored_Rows\<close>: every stored case reads back.  \<open>Review_Once\<close>: the review queue's key forbids a second
  review.  \<open>Relay\<close>: nothing is marked published unless acknowledged, and the backlog drains.
  \<open>Projection\<close>: deliveries in any order converge.  \<open>Workflow\<close>: it ends, decides nothing by itself and
  stays inside \<open>reachable\<close>; started with a status it does not support it fails its task for ever.  \<open>Verdicts\<close>: whom a verification asks, what it stores of their
  answers, and that its float comparison is exact.  \<open>Document_Commands\<close>: what an upload and a processing run
  commit, failures of the extraction included.  \<open>Schema\<close>: the migrations run, undo each other and leave no tenant table unprotected; \<open>Orm\<close>: the
  mapping agrees with them.  \<open>Overlap\<close> and \<open>Reservations\<close>: whatever the interleaving, histories stay
  gapless and a key commits once; \<open>Races\<close>: the audit chain can fork, and an overtaken save ends in the
  wrong exception.  \<open>Offsets\<close>: one partition per poll loses nothing, two can.  \<open>Walkthrough\<close> follows one case from creation to approval, and gives the later theorems
  their reachable instances.

  \<^bold>\<open>Bounds.\<close>  A workflow makes at most five attempts (\<open>MAXIMUM_ATTEMPTS\<close>) at each of at most five
  activities before the review and one after it, which is the bound of \<open>workflow_ends\<close>.  Python refuses integers of more
  than 4300 digits (\<open>MAX_STR_DIGITS\<close>).  \<open>json_loads\<close> has as fuel the length of its input, which every
  nested value shortens.  \<open>turns\<close>, for a session run alone, needs one event for each step of its script.  The loops of \<open>Worker\<close> and \<open>Worker_Process\<close> are \<open>partial_function\<close>s whose value
  \<open>None\<close> means that they do not return; \<open>worker_tasks_stop\<close> shows that they do.  A cluster has any
  number of sessions and a schedule any length.

  \<^bold>\<open>Not modelled.\<close>  Overlap of the document, verification and projection transactions (they are
  steps of \<open>System\<close>, and interleave between transactions, not inside one); deadlock detection, which in a
  cluster is a session that breaks off; FastAPI's and
  pydantic's decoding and coercions; log rendering, metric exposition and trace export; signal
  handling, task gathering and uvicorn's loop; the port protocols, which have no behaviour; Alembic's
  autogeneration and offline mode, and the \<open>alembic_version\<close> table it keeps for itself, which is not in the
  catalogue.  A commit and the opening of a session always succeed: a database that is down,
  hangs or fails at COMMIT is left out.  The migrations seed one tenant and the program adds none, so the
  reachable states have one; isolation is stated for any database.  What the Temporal worker meets while it runs is a list of tasks after which the stop event is set (\<open>hosting\<close>).
\<close>

end
